(* ===== verification/Prelude.thy ===== *)
theory Prelude
  imports Complex_Main "HOL-Library.Multiset" "HOL-Library.Product_Lexorder"
    "HOL-Library.List_Lexorder" "HOL-Library.Char_ord"
begin

text \<open>
  What every component shares: the collections the proofs use, Python's treatment of
  strings of digits (\<open>str\<close> and \<open>int\<close>), the queries and bulk updates of a database
  table, and a few facts about lists.

  A table is the list of its rows in primary-key order. \<open>filter\<close> is the query set's
  \<open>filter\<close>, \<open>first_where\<close> its \<open>.first()\<close>, \<open>update_where\<close> its \<open>.update(...)\<close>.
  Text is a list of 8-bit characters; case conversion is that of ASCII letters.
\<close>

named_theorems row_simps \<open>what an update leaves in a table\<close>

section \<open>Rows of a table\<close>

definition update_where :: "('r \<Rightarrow> bool) \<Rightarrow> ('r \<Rightarrow> 'r) \<Rightarrow> 'r list \<Rightarrow> 'r list" where
  "update_where P f rows = map (\<lambda>r. if P r then f r else r) rows"

definition first_where :: "('r \<Rightarrow> bool) \<Rightarrow> 'r list \<Rightarrow> 'r option" where
  "first_where P rows = find P rows"

definition exists_where :: "('r \<Rightarrow> bool) \<Rightarrow> 'r list \<Rightarrow> bool" where
  "exists_where P rows \<longleftrightarrow> list_ex P rows"

definition count_where :: "('r \<Rightarrow> bool) \<Rightarrow> 'r list \<Rightarrow> nat" where
  "count_where P rows = length (filter P rows)"

lemma length_update_where [simp]: "length (update_where P f rows) = length rows"
  by (simp add: update_where_def)

lemma update_where_append [simp]:
  "update_where P f (xs @ ys) = update_where P f xs @ update_where P f ys"
  by (simp add: update_where_def)

lemma update_where_simps [simp]:
  "update_where P f [] = []"
  "update_where P f (r # rows) = (if P r then f r else r) # update_where P f rows"
  by (simp_all add: update_where_def)

lemma map_update_where [row_simps]:
  "(\<And>r. P r \<Longrightarrow> g (f r) = g r) \<Longrightarrow> map g (update_where P f rows) = map g rows"
  by (simp add: update_where_def)

lemma in_update_where:
  "r \<in> set (update_where P f rows) \<longleftrightarrow> (\<exists>q\<in>set rows. r = (if P q then f q else q))"
  by (auto simp: update_where_def)

lemma update_where_none: "(\<And>r. r \<in> set rows \<Longrightarrow> \<not> P r) \<Longrightarrow> update_where P f rows = rows"
  by (simp add: update_where_def map_idI)

lemma list_all_update_where:
  "list_all Q rows \<Longrightarrow> (\<And>r. r \<in> set rows \<Longrightarrow> P r \<Longrightarrow> Q r \<Longrightarrow> Q (f r)) \<Longrightarrow> list_all Q (update_where P f rows)"
  by (induction rows) simp_all

lemma first_where_row: "distinct (map key rows) \<Longrightarrow> k \<in> set rows \<Longrightarrow> first_where (\<lambda>x. key x = key k) rows = Some k"
  by (induction rows) (auto simp: first_where_def image_iff)

lemma first_where_Some: "first_where P rows = Some r \<Longrightarrow> r \<in> set rows \<and> P r"
  by (auto simp: first_where_def find_Some_iff)

lemma first_where_None: "first_where P rows = None \<longleftrightarrow> (\<forall>r\<in>set rows. \<not> P r)"
  by (auto simp: first_where_def find_None_iff)

lemma first_where_ex: "r \<in> set rows \<Longrightarrow> P r \<Longrightarrow> \<exists>q. first_where P rows = Some q"
  by (cases "first_where P rows") (auto simp: first_where_None)

lemma first_where_put: "first_where P rows = Some q \<Longrightarrow> P r \<Longrightarrow> first_where P (update_where P (\<lambda>_. r) rows) = Some r"
  by (induction rows) (auto simp: first_where_def split: if_splits)

lemma first_where_append:
  "first_where P (xs @ ys) = (case first_where P xs of Some r \<Rightarrow> Some r | None \<Rightarrow> first_where P ys)"
  by (induction xs) (simp_all add: first_where_def)

lemma first_where_one [simp]: "first_where P [r] = (if P r then Some r else None)"
  by (simp add: first_where_def)

lemma first_where_update:
  "(\<And>r. Q (f r) = Q r) \<Longrightarrow> first_where Q (update_where P f rows) = map_option (\<lambda>r. if P r then f r else r) (first_where Q rows)"
  by (induction rows) (auto simp: first_where_def)

lemma first_where_unique:
  assumes "first_where P rows = Some r" and "distinct (map key rows)"
    and "\<And>a b. P a \<Longrightarrow> P b \<Longrightarrow> key a = key b" and "q \<in> set rows" and "P q"
  shows "q = r"
  using assms by (metis first_where_Some distinct_map inj_onD)

lemma exists_where_iff [simp]: "exists_where P rows \<longleftrightarrow> (\<exists>r\<in>set rows. P r)"
  by (auto simp: exists_where_def list_ex_iff)

lemma count_where_simps [simp]:
  "count_where P [] = 0"
  "count_where P (r # rows) = (if P r then 1 else 0) + count_where P rows"
  "count_where P (xs @ ys) = count_where P xs + count_where P ys"
  by (simp_all add: count_where_def)

lemma count_where_update_same [row_simps]:
  "(\<And>r. P r \<Longrightarrow> Q (f r) = Q r) \<Longrightarrow> count_where Q (update_where P f rows) = count_where Q rows"
  by (induction rows) (auto simp: update_where_def)

text \<open>Setting a flag on the one row with a given key raises the count of flagged rows by one.\<close>

lemma count_where_flag_one:
  assumes "distinct (map key rows)" and "r \<in> set rows" and "\<not> Q r" and "Q (f r)"
  shows "count_where Q (update_where (\<lambda>x. key x = key r) f rows) = Suc (count_where Q rows)"
  using assms
proof (induction rows)
  case Nil
  then show ?case by simp
next
  case (Cons x xs)
  show ?case
  proof (cases "x = r")
    case True
    with Cons.prems have "update_where (\<lambda>y. key y = key r) f xs = xs"
      by (intro update_where_none) (force simp: image_iff)
    with True Cons.prems show ?thesis by simp
  next
    case False
    with Cons.prems have "r \<in> set xs" by simp
    moreover from this Cons.prems have "key x \<noteq> key r" by (force simp: image_iff)
    ultimately show ?thesis using Cons by simp
  qed
qed

section \<open>Python's strings of digits\<close>

definition digit_char :: "nat \<Rightarrow> char" where
  "digit_char d = char_of (48 + d)"

definition is_digit :: "char \<Rightarrow> bool" where
  "is_digit c \<longleftrightarrow> 48 \<le> (of_char c :: nat) \<and> (of_char c :: nat) \<le> 57"

definition digit_value :: "char \<Rightarrow> nat" where
  "digit_value c = of_char c - 48"

fun str_nat :: "nat \<Rightarrow> string" where
  "str_nat n = (if n < 10 then [digit_char n] else str_nat (n div 10) @ [digit_char (n mod 10)])"

declare str_nat.simps [simp del]

definition str_int :: "int \<Rightarrow> string" where
  "str_int i = (if i < 0 then CHR ''-'' # str_nat (nat (- i)) else str_nat (nat i))"

text \<open>
  \<open>int(text)\<close>: surrounding white space is ignored, a sign may come first, and single
  underscores may stand between digits. \<open>None\<close> is the \<open>ValueError\<close>.
\<close>

fun scan_digits :: "nat \<Rightarrow> bool \<Rightarrow> string \<Rightarrow> nat option" where
  "scan_digits acc after_digit [] = (if after_digit then Some acc else None)"
| "scan_digits acc after_digit (c # cs) =
     (if is_digit c then scan_digits (10 * acc + digit_value c) True cs
      else if c = CHR ''_'' \<and> after_digit then scan_digits acc False cs
      else None)"

definition is_space :: "char \<Rightarrow> bool" where
  "is_space c \<longleftrightarrow> (of_char c :: nat) \<in> {9, 10, 11, 12, 13, 28, 29, 30, 31, 32, 133, 160}"

definition strip :: "string \<Rightarrow> string" where
  "strip s = rev (dropWhile is_space (rev (dropWhile is_space s)))"

definition parse_int :: "string \<Rightarrow> int option" where
  "parse_int text =
     (case strip text of
        [] \<Rightarrow> None
      | c # cs \<Rightarrow>
          if c = CHR ''-'' then map_option (\<lambda>n. - int n) (scan_digits 0 False cs)
          else if c = CHR ''+'' then map_option int (scan_digits 0 False cs)
          else map_option int (scan_digits 0 False (c # cs)))"

definition ascii_lower :: "char \<Rightarrow> char" where
  "ascii_lower c = (let n = (of_char c :: nat) in if 65 \<le> n \<and> n \<le> 90 then char_of (n + 32) else c)"

definition ascii_upper :: "char \<Rightarrow> char" where
  "ascii_upper c = (let n = (of_char c :: nat) in if 97 \<le> n \<and> n \<le> 122 then char_of (n - 32) else c)"

definition lower :: "string \<Rightarrow> string" where
  "lower s = map ascii_lower s"

definition upper :: "string \<Rightarrow> string" where
  "upper s = map ascii_upper s"

text \<open>\<open>text.split(c)\<close> and \<open>text.rsplit(c, 1)[-1]\<close>.\<close>

fun split_on :: "char \<Rightarrow> string \<Rightarrow> string list" where
  "split_on c [] = [[]]"
| "split_on c (x # xs) =
     (if x = c then [] # split_on c xs
      else (case split_on c xs of w # ws \<Rightarrow> (x # w) # ws | [] \<Rightarrow> [[x]]))"

definition after_last :: "char \<Rightarrow> string \<Rightarrow> string" where
  "after_last c s = rev (takeWhile (\<lambda>x. x \<noteq> c) (rev s))"

definition starts_with :: "string \<Rightarrow> string \<Rightarrow> bool" where
  "starts_with p s \<longleftrightarrow> take (length p) s = p"

lemma starts_with_iff: "starts_with p s \<longleftrightarrow> (\<exists>r. s = p @ r)"
  by (auto simp: starts_with_def) (metis append_take_drop_id)

lemma of_digit_char: "d < 10 \<Longrightarrow> (of_char (digit_char d) :: nat) = 48 + d"
  by (simp add: digit_char_def)

lemma digit_char_props [simp]:
  assumes "d < 10"
  shows "is_digit (digit_char d)" "digit_value (digit_char d) = d" "\<not> is_space (digit_char d)"
  using assms by (simp_all add: is_digit_def digit_value_def is_space_def of_digit_char)

lemma scan_str_nat: "scan_digits 0 b (str_nat n @ rest) = scan_digits n True rest"
proof (induction n arbitrary: rest rule: str_nat.induct)
  case (1 n)
  show ?case
  proof (cases "n < 10")
    case True
    then show ?thesis by (simp add: str_nat.simps [of n])
  next
    case False
    with 1 have "scan_digits 0 b (str_nat (n div 10) @ digit_char (n mod 10) # rest)
        = scan_digits (n div 10) True (digit_char (n mod 10) # rest)"
      by simp
    with False show ?thesis by (simp add: str_nat.simps [of n])
  qed
qed

lemma str_nat_digits: "c \<in> set (str_nat n) \<Longrightarrow> \<exists>d<10. c = digit_char d"
proof (induction n rule: str_nat.induct)
  case (1 n)
  show ?case
  proof (cases "n < 10")
    case True
    with 1 show ?thesis by (auto simp: str_nat.simps [of n])
  next
    case False
    with 1 show ?thesis
      by (auto simp: str_nat.simps [of n] intro: exI [of _ "n mod 10"])
  qed
qed

lemma str_nat_nonempty: "str_nat n \<noteq> []"
  by (simp add: str_nat.simps [of n])

lemma strip_no_space:
  assumes "\<And>c. c \<in> set s \<Longrightarrow> \<not> is_space c"
  shows "strip s = s"
proof -
  have "dropWhile is_space t = t" if "\<And>c. c \<in> set t \<Longrightarrow> \<not> is_space c" for t
    using that by (cases t) auto
  from this [of s] this [of "rev s"] assms show ?thesis by (simp add: strip_def)
qed

lemma strip_str_int: "strip (str_int i) = str_int i"
proof (rule strip_no_space)
  fix c
  assume "c \<in> set (str_int i)"
  then have "c = CHR ''-'' \<or> (\<exists>d<10. c = digit_char d)"
    by (auto simp: str_int_def dest: str_nat_digits split: if_splits)
  then show "\<not> is_space c" by (auto simp: is_space_def of_digit_char)
qed

lemma digit_char_not_sign: "d < 10 \<Longrightarrow> digit_char d \<noteq> CHR ''-''" "d < 10 \<Longrightarrow> digit_char d \<noteq> CHR ''+''"
  using of_digit_char [of d] by auto

text \<open>The key under which a ballot stores a position or a candidate reads back as its id.\<close>

lemma parse_str_int [simp]: "parse_int (str_int i) = Some i"
proof (cases "i < 0")
  case True
  then have "strip (str_int i) = CHR ''-'' # str_nat (nat (- i))"
    by (simp add: strip_str_int) (simp add: str_int_def)
  with True scan_str_nat [of False "nat (- i)" "[]"] show ?thesis
    by (simp add: parse_int_def)
next
  case False
  then have s: "strip (str_int i) = str_nat (nat i)"
    by (simp add: strip_str_int) (simp add: str_int_def)
  obtain c cs where c: "str_nat (nat i) = c # cs"
    using str_nat_nonempty by (meson neq_Nil_conv)
  then obtain d where "d < 10" "c = digit_char d"
    using str_nat_digits [of c "nat i"] by auto
  with False s c scan_str_nat [of False "nat i" "[]"] show ?thesis
    by (simp add: parse_int_def digit_char_not_sign)
qed

lemma str_int_eq [simp]: "str_int i = str_int j \<longleftrightarrow> i = j"
  by (metis option.inject parse_str_int)

section \<open>Lists\<close>

lemma mset_filter_remove: "x \<in> set xs \<Longrightarrow> length (filter (\<lambda>y. y \<noteq> x) xs) < length xs"
  by (simp add: length_filter_less)

lemma sum_list_map_nonneg: "(\<And>x. x \<in> set xs \<Longrightarrow> (0::'a::ordered_comm_monoid_add) \<le> f x) \<Longrightarrow> 0 \<le> sum_list (map f xs)"
  by (rule sum_list_nonneg) auto

lemma hd_sort_key_in: "xs \<noteq> [] \<Longrightarrow> hd (sort_key f xs) \<in> set xs"
  by (metis hd_in_set set_sort set_empty)

lemma hd_sort_key_le: "x \<in> set xs \<Longrightarrow> f (hd (sort_key f xs)) \<le> f x"
proof -
  assume x: "x \<in> set xs"
  have "sorted (map f (sort_key f xs))" by simp
  moreover obtain y ys where y: "sort_key f xs = y # ys"
    using x by (metis empty_iff list.exhaust list.set(1) set_sort)
  ultimately have "\<forall>z\<in>set (y # ys). f y \<le> f z" by auto
  with x y show ?thesis by (metis list.sel(1) set_sort)
qed

lemma insort_key_cong:
  "f x = g x \<Longrightarrow> (\<And>y. y \<in> set ys \<Longrightarrow> f y = g y) \<Longrightarrow> insort_key f x ys = insort_key g x ys"
  by (induction ys) auto

lemma sort_key_cong: "(\<And>x. x \<in> set xs \<Longrightarrow> f x = g x) \<Longrightarrow> sort_key f xs = sort_key g xs"
  by (induction xs) (auto intro: insort_key_cong)

end
