(* ===== verification/Pyfloat.thy ===== *)
theory Pyfloat
  imports Prelude
begin

text \<open>
  Python's \<open>float\<close> as the counting code uses it. A float is the rational it denotes;
  every operation is the exact one followed by \<open>fl\<close>, the rounding of IEEE 754 binary64
  to a 53-bit significand, ties to even. The exponent is not bounded: the counts and
  percentages of an election stay far from overflow and from the subnormal range.
  \<open>round_digits n x\<close> is Python's \<open>round(x, n)\<close>: the decimal nearest to the float, ties to
  even, read back as a float. \<open>quantize_half_up\<close> is \<open>Decimal.quantize\<close> with
  \<open>ROUND_HALF_UP\<close>.
\<close>

fun bitlen :: "nat \<Rightarrow> nat" where
  "bitlen n = (if n = 0 then 0 else Suc (bitlen (n div 2)))"

declare bitlen.simps [simp del]

definition flog2 :: "rat \<Rightarrow> int" where
  "flog2 a =
     (let (p, q) = quotient_of a; e = int (bitlen (nat p)) - int (bitlen (nat q))
      in if 2 powi e \<le> a then e else e - 1)"

definition round_even :: "rat \<Rightarrow> int" where
  "round_even x =
     (let f = \<lfloor>x\<rfloor>; d = x - of_int f
      in if d < 1 / 2 then f else if 1 / 2 < d then f + 1 else if even f then f else f + 1)"

definition fl :: "rat \<Rightarrow> rat" where
  "fl x = (if x = 0 then 0
           else let e = flog2 \<bar>x\<bar> - 52 in of_int (round_even (x / 2 powi e)) * 2 powi e)"

definition round_digits :: "nat \<Rightarrow> rat \<Rightarrow> rat" where
  "round_digits n x = fl (of_int (round_even (x * 10 ^ n)) / 10 ^ n)"

text \<open>\<open>float(Fraction)\<close> and the true division of two integers round once.\<close>

definition float_ratio :: "rat \<Rightarrow> rat" where
  "float_ratio x = fl x"

text \<open>\<open>float(round(fraction, 4))\<close>: a \<open>Fraction\<close> is rounded exactly, then converted.\<close>

definition float_round4 :: "rat \<Rightarrow> rat" where
  "float_round4 x = fl (of_int (round_even (x * 10 ^ 4)) / 10 ^ 4)"

definition quantize_half_up :: "nat \<Rightarrow> rat \<Rightarrow> rat" where
  "quantize_half_up n x =
     (if 0 \<le> x then of_int \<lfloor>x * 10 ^ n + 1 / 2\<rfloor> / 10 ^ n
      else - (of_int \<lfloor>(- x) * 10 ^ n + 1 / 2\<rfloor> / 10 ^ n))"

section \<open>Rounding to an integer\<close>

lemma round_even_int [simp]: "round_even (of_int i) = i"
  by (simp add: round_even_def)

lemma round_even_zero [simp]: "round_even 0 = 0"
  using round_even_int [of 0] by simp

lemma round_even_le: "of_int (round_even x) \<le> x + 1 / 2"
proof -
  have "of_int \<lfloor>x\<rfloor> \<le> x" by simp
  then have "of_int \<lfloor>x\<rfloor> \<le> x + 1 / 2" by linarith
  then show ?thesis by (auto simp: round_even_def Let_def not_less)
qed

lemma round_even_ge: "x - 1 / 2 \<le> of_int (round_even x)"
proof -
  have "x < of_int \<lfloor>x\<rfloor> + 1" by linarith
  then show ?thesis by (auto simp: round_even_def Let_def not_less)
qed

lemma round_even_mono: "x \<le> y \<Longrightarrow> round_even x \<le> round_even y"
proof -
  assume le: "x \<le> y"
  then have "\<lfloor>x\<rfloor> \<le> \<lfloor>y\<rfloor>" by (rule floor_mono)
  then consider "\<lfloor>x\<rfloor> = \<lfloor>y\<rfloor>" | "\<lfloor>x\<rfloor> + 1 \<le> \<lfloor>y\<rfloor>" by linarith
  then show ?thesis
  proof cases
    case 1
    with le show ?thesis by (auto simp: round_even_def Let_def)
  next
    case 2
    have "round_even x \<le> \<lfloor>x\<rfloor> + 1" and "\<lfloor>y\<rfloor> \<le> round_even y"
      by (auto simp: round_even_def Let_def)
    with 2 show ?thesis by linarith
  qed
qed

section \<open>The binary exponent\<close>

lemma bitlen_bounds: "0 < n \<Longrightarrow> 0 < bitlen n \<and> 2 ^ (bitlen n - 1) \<le> n \<and> n < 2 ^ bitlen n"
proof (induction n rule: bitlen.induct)
  case (1 n)
  show ?case
  proof (cases "n div 2 = 0")
    case True
    with "1.prems" have "n = 1" by presburger
    then show ?thesis by (simp add: bitlen.simps)
  next
    case False
    with 1 have IH: "2 ^ (bitlen (n div 2) - 1) \<le> n div 2" "n div 2 < 2 ^ bitlen (n div 2)"
      "0 < bitlen (n div 2)"
      by auto
    then have "(2::nat) ^ bitlen (n div 2) = 2 * 2 ^ (bitlen (n div 2) - 1)"
      by (metis Suc_diff_1 power_Suc)
    moreover have "bitlen n = Suc (bitlen (n div 2))"
      using "1.prems" by (simp add: bitlen.simps [of n])
    ultimately show ?thesis using IH by simp linarith
  qed
qed

lemma rat_between_powers:
  assumes "0 < i" and "2 ^ k \<le> nat i" and "nat i < 2 ^ l"
  shows "(2::rat) ^ k \<le> of_int i" and "(of_int i :: rat) < 2 ^ l"
proof -
  have "(2::int) ^ k \<le> i" "i < 2 ^ l"
    using assms by (simp_all add: nat_less_iff le_nat_iff)
  then show "(2::rat) ^ k \<le> of_int i" "(of_int i :: rat) < 2 ^ l"
    by (metis of_int_le_iff of_int_numeral of_int_power)
      (metis \<open>i < 2 ^ l\<close> of_int_less_iff of_int_numeral of_int_power)
qed

lemma flog2_bounds:
  assumes "0 < a"
  shows "2 powi flog2 a \<le> a" and "a < 2 powi (flog2 a + 1)"
proof -
  obtain p q where pq: "quotient_of a = (p, q)" by fastforce
  from quotient_of_denom_pos [OF pq] have q: "0 < q" .
  have a: "a = of_int p / of_int q" by (rule quotient_of_div [OF pq])
  with assms q have p: "0 < p" by (simp add: zero_less_divide_iff)
  define bp where "bp = bitlen (nat p)"
  define bq where "bq = bitlen (nat q)"
  from p bitlen_bounds [of "nat p"] have bp: "0 < bp" "2 ^ (bp - 1) \<le> nat p" "nat p < 2 ^ bp"
    by (auto simp: bp_def)
  from q bitlen_bounds [of "nat q"] have bq: "0 < bq" "2 ^ (bq - 1) \<le> nat q" "nat q < 2 ^ bq"
    by (auto simp: bq_def)
  have P: "(2::rat) ^ (bp - 1) \<le> of_int p" "(of_int p :: rat) < 2 ^ bp"
    using rat_between_powers [OF p bp(2,3)] by auto
  have Q: "(2::rat) ^ (bq - 1) \<le> of_int q" "(of_int q :: rat) < 2 ^ bq"
    using rat_between_powers [OF q bq(2,3)] by auto
  define e where "e = int bp - int bq"
  have up: "a < 2 powi (e + 1)"
  proof -
    have "a < 2 ^ bp / 2 ^ (bq - 1)"
      unfolding a using P Q by (intro frac_less) (use p in auto)
    also have "\<dots> = (2::rat) powi (int bp - int (bq - 1))"
      by (simp add: power_int_diff)
    also have "int bp - int (bq - 1) = e + 1" using bq(1) by (simp add: e_def)
    finally show ?thesis .
  qed
  have lo: "2 powi (e - 1) \<le> a"
  proof -
    have "int (bp - 1) - int bq = e - 1" using bp(1) by (simp add: e_def)
    then have "(2::rat) powi (e - 1) = 2 ^ (bp - 1) / 2 ^ bq"
      by (metis power_int_diff power_int_of_nat zero_neq_numeral)
    also have "\<dots> \<le> a"
      unfolding a using P Q p q by (intro frac_le) auto
    finally show ?thesis .
  qed
  have "flog2 a = (if 2 powi e \<le> a then e else e - 1)"
    by (simp add: flog2_def pq bp_def bq_def e_def Let_def)
  with up lo show "2 powi flog2 a \<le> a" "a < 2 powi (flog2 a + 1)" by auto
qed

section \<open>Rounding to a float\<close>

lemma fl_zero [simp]: "fl 0 = 0"
  by (simp add: fl_def)

lemma fl_in_binade:
  assumes "0 < x"
  shows "2 powi flog2 x \<le> fl x" and "fl x \<le> 2 powi (flog2 x + 1)"
proof -
  define e where "e = flog2 x - 52"
  have pos: "(0::rat) < 2 powi e" by simp
  have e1: "(2::rat) powi flog2 x = 2 ^ 52 * 2 powi e"
    by (simp add: e_def power_int_diff)
  have e2: "(2::rat) powi (flog2 x + 1) = 2 ^ 53 * 2 powi e"
    by (simp add: e_def power_int_diff power_int_add)
  have "of_int (2 ^ 52) \<le> x / 2 powi e"
    using flog2_bounds(1) [OF assms] pos by (simp add: e1 pos_le_divide_eq)
  from round_even_mono [OF this] have lo: "2 ^ 52 \<le> round_even (x / 2 powi e)"
    by (simp only: round_even_int)
  have "x / 2 powi e \<le> of_int (2 ^ 53)"
    using flog2_bounds(2) [OF assms] pos by (simp add: e2 pos_divide_le_eq)
  from round_even_mono [OF this] have hi: "round_even (x / 2 powi e) \<le> 2 ^ 53"
    by (simp only: round_even_int)
  have fl: "fl x = of_int (round_even (x / 2 powi e)) * 2 powi e"
    using assms by (simp add: fl_def e_def Let_def)
  from lo have "(2::rat) ^ 52 \<le> of_int (round_even (x / 2 powi e))"
    by (metis of_int_le_iff of_int_numeral of_int_power)
  then show "2 powi flog2 x \<le> fl x"
    unfolding fl e1 using pos by (intro mult_right_mono) auto
  from hi have "of_int (round_even (x / 2 powi e)) \<le> (2::rat) ^ 53"
    by (metis of_int_le_iff of_int_numeral of_int_power)
  then show "fl x \<le> 2 powi (flog2 x + 1)"
    unfolding fl e2 using pos by (intro mult_right_mono) auto
qed

lemma fl_pos: "0 < x \<Longrightarrow> 0 < fl x"
  using fl_in_binade(1) [of x] zero_less_power_int [of "2::rat" "flog2 x"] by linarith

lemma flog2_mono:
  assumes "0 < x" and "x \<le> y"
  shows "flog2 x \<le> flog2 y"
proof (rule ccontr)
  assume "\<not> flog2 x \<le> flog2 y"
  then have "(2::rat) powi (flog2 y + 1) \<le> 2 powi flog2 x"
    by (intro power_int_increasing) auto
  with flog2_bounds(1) [of x] flog2_bounds(2) [of y] assms show False by auto
qed

lemma fl_mono:
  assumes "0 \<le> x" and "x \<le> y"
  shows "fl x \<le> fl y"
proof (cases "x = 0")
  case True
  with assms show ?thesis using fl_pos [of y] by (cases "y = 0") auto
next
  case False
  with assms have x: "0 < x" and y: "0 < y" by auto
  show ?thesis
  proof (cases "flog2 x = flog2 y")
    case True
    define e where "e = flog2 x - 52"
    have pos: "(0::rat) < 2 powi e" by simp
    have "x / 2 powi e \<le> y / 2 powi e"
      using assms(2) pos by (simp add: divide_right_mono)
    from round_even_mono [OF this] True x y pos show ?thesis
      by (simp add: fl_def e_def Let_def)
  next
    case False
    with flog2_mono [OF x assms(2)] have "flog2 x + 1 \<le> flog2 y" by simp
    then have "(2::rat) powi (flog2 x + 1) \<le> 2 powi flog2 y"
      by (intro power_int_increasing) auto
    with fl_in_binade(2) [OF x] fl_in_binade(1) [OF y] show ?thesis by linarith
  qed
qed

lemma fl_nonneg: "0 \<le> x \<Longrightarrow> 0 \<le> fl x"
  using fl_mono [of 0 x] by simp

lemma round_digits_mono: "0 \<le> x \<Longrightarrow> x \<le> y \<Longrightarrow> round_digits n x \<le> round_digits n y"
proof -
  assume x: "0 \<le> x" and le: "x \<le> y"
  have "round_even (of_int 0) \<le> round_even (x * 10 ^ n)" using x by (intro round_even_mono) simp
  then have nonneg: "0 \<le> round_even (x * 10 ^ n)" by (simp only: round_even_int)
  have "round_even (x * 10 ^ n) \<le> round_even (y * 10 ^ n)"
    using le by (intro round_even_mono mult_right_mono) auto
  then have "(of_int (round_even (x * 10 ^ n)) :: rat) / 10 ^ n \<le> of_int (round_even (y * 10 ^ n)) / 10 ^ n"
    by (intro divide_right_mono) auto
  with nonneg show ?thesis unfolding round_digits_def by (intro fl_mono) auto
qed

section \<open>Exact values\<close>

lemma flog2_unique:
  assumes "2 powi k \<le> a" and "a < 2 powi (k + 1)"
  shows "flog2 a = k"
proof -
  have pos: "0 < a" using assms(1) zero_less_power_int [of "2::rat" k] by linarith
  have less: "(2::rat) powi i < 2 powi j \<Longrightarrow> i < j" for i j
    by (metis linorder_not_less one_le_numeral power_int_increasing)
  from flog2_bounds [OF pos] assms have "(2::rat) powi k < 2 powi (flog2 a + 1)"
    and "(2::rat) powi flog2 a < 2 powi (k + 1)" by linarith+
  from this [THEN less] show ?thesis by simp
qed

text \<open>Evaluation of \<open>fl\<close> once the binary exponent is known.\<close>

lemma fl_eval:
  assumes "2 powi k \<le> x" and "x < 2 powi (k + 1)"
  shows "fl x = of_int (round_even (x / 2 powi (k - 52))) * 2 powi (k - 52)"
proof -
  have "0 < x" using assms(1) zero_less_power_int [of "2::rat" k] by linarith
  then show ?thesis by (simp add: fl_def flog2_unique [OF assms] Let_def)
qed

lemma fl_dyadic:
  assumes "0 \<le> m" and "m < 2 ^ 53"
  shows "fl (of_int m / 2 ^ n) = of_int m / 2 ^ n"
proof (cases "m = 0")
  case False
  define x where "x = (of_int m / 2 ^ n :: rat)"
  from False assms(1) have x: "0 < x" by (simp add: x_def)
  have "(of_int m :: rat) < of_int (2 ^ 53)" using assms(2) by (simp only: of_int_less_iff)
  then have "x < 2 ^ 53 / 2 ^ n" by (simp add: x_def divide_strict_right_mono)
  also have "\<dots> = 2 powi (53 - int n)" by (simp add: power_int_diff)
  finally have "(2::rat) powi flog2 x < 2 powi (53 - int n)"
    using flog2_bounds(1) [OF x] by simp
  then have "flog2 x < 53 - int n" by (metis linorder_not_less one_le_numeral power_int_increasing)
  then have "0 \<le> 52 - int n - flog2 x" by simp
  then obtain k where "52 - int n - flog2 x = int k" by (rule nonneg_int_cases)
  then have k: "flog2 x - 52 = - int (n + k)" by simp
  have e: "(2::rat) powi (flog2 x - 52) = 1 / 2 ^ (n + k)"
    unfolding k by (simp only: power_int_minus_divide power_int_of_nat)
  have "x / 2 powi (flog2 x - 52) = of_int (m * 2 ^ k)"
    unfolding e by (simp add: x_def power_add)
  then have "round_even (x / 2 powi (flog2 x - 52)) = m * 2 ^ k"
    by (simp only: round_even_int)
  then have "fl x = of_int (m * 2 ^ k) * (1 / 2 ^ (n + k))" using x by (simp add: fl_def Let_def e)
  then show ?thesis by (simp add: x_def power_add)
qed simp

lemma fl_of_int: "0 \<le> m \<Longrightarrow> m < 2 ^ 53 \<Longrightarrow> fl (of_int m) = of_int m"
  using fl_dyadic [of m 0] by simp

lemma round_even_near:
  assumes "of_int i - 1 / 2 < x" and "x < of_int i + 1 / 2"
  shows "round_even x = i"
proof -
  from round_even_le [of x] round_even_ge [of x] assms
  have "of_int (round_even x) < (of_int i + 1 :: rat)" "(of_int i - 1 :: rat) < of_int (round_even x)"
    by linarith+
  then show ?thesis by linarith
qed

lemma fl_numeral: "numeral k < (2::int) ^ 53 \<Longrightarrow> fl (numeral k) = numeral k"
  using fl_of_int [of "numeral k"] by simp

lemma fl_one [simp]: "fl 1 = 1"
  using fl_of_int [of 1] by simp

lemma fl_hundred [simp]: "fl 100 = 100"
  using fl_of_int [of 100] by simp

lemma fl_le_hundred: "0 \<le> x \<Longrightarrow> x \<le> 100 \<Longrightarrow> fl x \<le> 100"
  using fl_mono [of x 100] by simp

section \<open>Money\<close>

lemma quantize_nonneg: "0 \<le> x \<Longrightarrow> 0 \<le> quantize_half_up n x"
  by (simp add: quantize_half_up_def)

lemma quantize_mono_nonneg: "0 \<le> x \<Longrightarrow> x \<le> y \<Longrightarrow> quantize_half_up n x \<le> quantize_half_up n y"
  by (auto simp: quantize_half_up_def intro!: divide_right_mono floor_mono mult_right_mono)

lemma quantize_cents [simp]: "quantize_half_up n (of_int k / 10 ^ n) = of_int k / 10 ^ n"
proof -
  have "\<lfloor>(of_int j :: rat) + 1 / 2\<rfloor> = j" for j by (simp add: floor_eq_iff)
  note half = this
  show ?thesis
  proof (cases "0 \<le> k")
    case True
    then show ?thesis by (simp add: quantize_half_up_def half)
  next
    case False
    then have "\<not> (0::rat) \<le> of_int k / 10 ^ n" by (simp add: not_le divide_neg_pos)
    with half [of "- k"] show ?thesis by (simp add: quantize_half_up_def)
  qed
qed

end
