(* ===== verification/Tally.thy ===== *)
theory Tally
  imports Pyfloat
begin

text \<open>
  elections/tally.py: the counting algorithms, from the selections cast for one position
  to the result that is certified. Selections are those of a decrypted ballot: a list of
  candidate ids, a dictionary from candidate id (as text) to score, or an answer;
  \<open>None\<close> is an abstention. Dictionaries keyed by candidate are maps, fractions are
  rationals, floats are those of Pyfloat.

  Two parameters stand for what is outside the file: \<open>sha\<close> is the hex digest of SHA-256
  and \<open>set_order\<close> the order in which a Python set built from a list is iterated
  (\<open>set_order_ok\<close> says that it lists each element once).
\<close>

section \<open>Data\<close>

record cand =
  cid :: int
  cname :: string

datatype selection = Marks "int list" | Scores "(string \<times> int) list" | Answer string

type_synonym choice = "selection option"

datatype tally_error = Not_a_dict | Bad_key

text \<open>\<open>not selection\<close>: an abstention or an empty container.\<close>

fun no_choice :: "choice \<Rightarrow> bool" where
  "no_choice None \<longleftrightarrow> True"
| "no_choice (Some (Marks ids)) \<longleftrightarrow> ids = []"
| "no_choice (Some (Scores kvs)) \<longleftrightarrow> kvs = []"
| "no_choice (Some (Answer a)) \<longleftrightarrow> a = []"

text \<open>
  What \<open>for cid in selection\<close> yields that can be a candidate id: the keys of a
  dictionary and the characters of a string are text, never a key of the counts.
\<close>

fun marks_of :: "choice \<Rightarrow> int list" where
  "marks_of (Some (Marks ids)) = ids"
| "marks_of _ = []"

datatype cand_key = CId int | CAnswer string

datatype row_extra =
    Of_ballots rat
  | Scoring rat int
  | Plain
  | Is_elected bool

record tally_row =
  row_id :: cand_key
  row_name :: string
  row_votes :: int
  row_percentage :: rat
  row_rank :: int
  row_extra :: row_extra

datatype round_outcome = Filled "int list" | Elects int "rat option" | Eliminates int

record count_round =
  round_no :: int
  round_tallies :: "(int \<times> rat) list"
  round_exhausted :: rat
  round_outcome :: round_outcome

record tie_break =
  tie_round :: int
  tie_tied :: "int list"
  tie_eliminated :: int
  tie_by_lot :: bool

datatype tally_details =
    Plurality_details int
  | Score_details int int
  | Referendum_details int int rat rat rat bool
  | Ranked_details int "rat option" "(int \<times> int) list" "count_round list" "tie_break list"

record tally_result =
  res_method :: string
  res_valid :: int
  res_abstentions :: int
  res_total :: int
  res_rows :: "tally_row list"
  res_winners :: "cand_key list"
  res_ties :: "cand_key list"
  res_details :: tally_details

section \<open>Shared helpers\<close>

definition pct :: "int \<Rightarrow> int \<Rightarrow> rat" where
  "pct part whole =
     (if whole \<noteq> 0 then round_digits 2 (fl (fl (100 * fl (of_int part)) / fl (of_int whole))) else 0)"

definition lot_key :: "(string \<Rightarrow> string) \<Rightarrow> string \<Rightarrow> int \<Rightarrow> string" where
  "lot_key sha seed c = sha (seed @ '':'' @ str_int c)"

definition get0 :: "('k \<rightharpoonup> int) \<Rightarrow> 'k \<Rightarrow> int" where
  "get0 m k = (case m k of None \<Rightarrow> 0 | Some v \<Rightarrow> v)"

text \<open>\<open>if cid in counts: counts[cid] += n\<close>\<close>

definition add_to :: "int \<Rightarrow> ('k \<rightharpoonup> int) \<Rightarrow> 'k \<Rightarrow> ('k \<rightharpoonup> int)" where
  "add_to n m k = (case m k of None \<Rightarrow> m | Some v \<Rightarrow> m(k \<mapsto> v + n))"

definition zero_counts :: "cand list \<Rightarrow> (int \<rightharpoonup> int)" where
  "zero_counts cs = (\<lambda>i. if i \<in> cid ` set cs then Some 0 else None)"

definition dict_sum :: "cand list \<Rightarrow> (int \<rightharpoonup> int) \<Rightarrow> int" where
  "dict_sum cs m = sum_list (map (get0 m) (remdups (map cid cs)))"

definition rank_candidates :: "(int \<rightharpoonup> int) \<Rightarrow> cand list \<Rightarrow> cand list" where
  "rank_candidates counts cs = sort_key (\<lambda>c. (- get0 counts (cid c), lower (cname c), cid c)) cs"

definition winners_with_ties :: "cand list \<Rightarrow> (int \<rightharpoonup> int) \<Rightarrow> int \<Rightarrow> cand list \<times> int list" where
  "winners_with_ties ordered counts seats =
     (if seats \<le> 0 \<or> ordered = [] then ([], [])
      else
        let winners = take (nat seats) ordered;
            cutoff = get0 counts (cid (last winners));
            tied = filter (\<lambda>c. get0 counts (cid c) = cutoff) ordered
        in if 1 < length tied \<and> (\<exists>c\<in>set tied. c \<notin> set winners)
           then (filter (\<lambda>c. cutoff < get0 counts (cid c)) winners, map cid tied)
           else (winners, []))"

text \<open>\<open>enumerate\<close> from rank 1.\<close>

fun ranked_rows :: "int \<Rightarrow> (int \<Rightarrow> 'a \<Rightarrow> tally_row) \<Rightarrow> 'a list \<Rightarrow> tally_row list" where
  "ranked_rows i f [] = []"
| "ranked_rows i f (x # xs) = f i x # ranked_rows (i + 1) f xs"

definition candidate_row :: "(int \<rightharpoonup> int) \<Rightarrow> int \<Rightarrow> (cand \<Rightarrow> row_extra) \<Rightarrow> int \<Rightarrow> cand \<Rightarrow> tally_row" where
  "candidate_row counts whole extra i c =
     \<lparr>row_id = CId (cid c), row_name = cname c, row_votes = get0 counts (cid c),
      row_percentage = pct (get0 counts (cid c)) whole, row_rank = i, row_extra = extra c\<rparr>"

section \<open>Single choice, block plurality, multiple choice and approval\<close>

record plurality_state =
  p_counts :: "int \<rightharpoonup> int"
  p_abstentions :: int
  p_valid :: int

fun plurality_loop :: "plurality_state \<Rightarrow> choice list \<Rightarrow> plurality_state" where
  "plurality_loop s [] = s"
| "plurality_loop s (x # xs) =
     (if no_choice x then plurality_loop (s\<lparr>p_abstentions := p_abstentions s + 1\<rparr>) xs
      else plurality_loop
             (s\<lparr>p_valid := p_valid s + 1, p_counts := foldl (add_to 1) (p_counts s) (marks_of x)\<rparr>) xs)"

definition plurality :: "choice list \<Rightarrow> cand list \<Rightarrow> int \<Rightarrow> tally_result" where
  "plurality selections cs seats =
     (let s = plurality_loop \<lparr>p_counts = zero_counts cs, p_abstentions = 0, p_valid = 0\<rparr> selections;
          counts = p_counts s;
          total = dict_sum cs counts;
          ordered = rank_candidates counts cs;
          (winners, ties) = winners_with_ties ordered counts seats
      in \<lparr>res_method = ''plurality'', res_valid = p_valid s, res_abstentions = p_abstentions s,
          res_total = total,
          res_rows = ranked_rows 1
            (candidate_row counts total (\<lambda>c. Of_ballots (pct (get0 counts (cid c)) (p_valid s)))) ordered,
          res_winners = map (CId \<circ> cid) winners, res_ties = map CId ties,
          res_details = Plurality_details seats\<rparr>)"

section \<open>Score voting\<close>

record score_state =
  s_totals :: "int \<rightharpoonup> int"
  s_scoring :: "int \<rightharpoonup> int"
  s_abstentions :: int
  s_valid :: int

fun score_items :: "score_state \<Rightarrow> (string \<times> int) list \<Rightarrow> tally_error + score_state" where
  "score_items s [] = Inr s"
| "score_items s ((k, v) # kvs) =
     (case parse_int k of
        None \<Rightarrow> Inl Bad_key
      | Some c \<Rightarrow>
          score_items (s\<lparr>s_totals := add_to v (s_totals s) c, s_scoring := add_to 1 (s_scoring s) c\<rparr>) kvs)"

fun score_loop :: "score_state \<Rightarrow> choice list \<Rightarrow> tally_error + score_state" where
  "score_loop s [] = Inr s"
| "score_loop s (x # xs) =
     (if no_choice x then score_loop (s\<lparr>s_abstentions := s_abstentions s + 1\<rparr>) xs
      else case x of
        Some (Scores kvs) \<Rightarrow>
          (case score_items (s\<lparr>s_valid := s_valid s + 1\<rparr>) kvs of
             Inl e \<Rightarrow> Inl e
           | Inr s' \<Rightarrow> score_loop s' xs)
      | _ \<Rightarrow> Inl Not_a_dict)"

definition score :: "choice list \<Rightarrow> cand list \<Rightarrow> int \<Rightarrow> int \<Rightarrow> tally_error + tally_result" where
  "score selections cs seats max_score =
     (case score_loop \<lparr>s_totals = zero_counts cs, s_scoring = zero_counts cs, s_abstentions = 0,
                       s_valid = 0\<rparr> selections of
        Inl e \<Rightarrow> Inl e
      | Inr s \<Rightarrow>
          (let totals = s_totals s;
               ordered = rank_candidates totals cs;
               (winners, ties) = winners_with_ties ordered totals seats;
               average = (\<lambda>c. if s_valid s \<noteq> 0
                              then round_digits 3 (fl (of_int (get0 totals (cid c)) / of_int (s_valid s)))
                              else 0)
           in Inr \<lparr>res_method = ''score'', res_valid = s_valid s, res_abstentions = s_abstentions s,
                   res_total = dict_sum cs totals,
                   res_rows = ranked_rows 1
                     (candidate_row totals (max_score * s_valid s)
                        (\<lambda>c. Scoring (average c) (get0 (s_scoring s) (cid c)))) ordered,
                   res_winners = map (CId \<circ> cid) winners, res_ties = map CId ties,
                   res_details = Score_details seats max_score\<rparr>))"

section \<open>Referendum\<close>

definition referendum :: "choice list \<Rightarrow> rat \<Rightarrow> tally_result" where
  "referendum selections threshold =
     (let yes = int (count_where (\<lambda>s. s = Some (Answer ''YES'')) selections);
          no = int (count_where (\<lambda>s. s = Some (Answer ''NO'')) selections);
          abstentions = int (count_where no_choice selections);
          valid = yes + no;
          yes_pct = pct yes valid;
          passed = 0 < valid \<and> threshold < yes_pct
      in \<lparr>res_method = ''referendum'', res_valid = valid, res_abstentions = abstentions,
          res_total = valid,
          res_rows =
            [\<lparr>row_id = CAnswer ''YES'', row_name = ''Yes'', row_votes = yes, row_percentage = yes_pct,
              row_rank = (if no \<le> yes then 1 else 2), row_extra = Plain\<rparr>,
             \<lparr>row_id = CAnswer ''NO'', row_name = ''No'', row_votes = no, row_percentage = pct no valid,
              row_rank = (if yes < no then 1 else 2), row_extra = Plain\<rparr>],
          res_winners = (if passed then [CAnswer ''YES''] else [CAnswer ''NO'']),
          res_ties = (if valid \<noteq> 0 \<and> yes = no then [CAnswer ''YES'', CAnswer ''NO''] else []),
          res_details = Referendum_details yes no yes_pct (pct no valid) threshold passed\<rparr>)"

section \<open>Ranked choice: instant run-off and single transferable vote\<close>

type_synonym paper = "int list \<times> rat"

definition set_order_ok :: "(int list \<Rightarrow> int list) \<Rightarrow> bool" where
  "set_order_ok order \<longleftrightarrow> (\<forall>xs. distinct (order xs) \<and> set (order xs) = set xs)"

record ranked_params =
  rp_seats :: int
  rp_quota :: "rat option"
  rp_first :: "int \<rightharpoonup> int"
  rp_lot :: "int \<Rightarrow> string"

record ranked_state =
  elected :: "int list"
  eliminated :: "int list"
  rounds :: "count_round list"
  tie_breaks :: "tie_break list"
  continuing :: "int list"
  papers :: "paper list"

text \<open>The first of the paper's preferences that is still in the count.\<close>

definition top_choice :: "int list \<Rightarrow> int list \<Rightarrow> int option" where
  "top_choice cs prefs = find (\<lambda>c. c \<in> set cs) prefs"

fun current_tallies :: "int list \<Rightarrow> paper list \<Rightarrow> (int \<Rightarrow> rat) \<times> rat" where
  "current_tallies cs [] = (\<lambda>_. 0, 0)"
| "current_tallies cs ((prefs, weight) # ps) =
     (let (t, exhausted) = current_tallies cs ps in
      case top_choice cs prefs of
        Some c \<Rightarrow> (t(c := t c + weight), exhausted)
      | None \<Rightarrow> (t, exhausted + weight))"

fun initial_papers :: "int list \<Rightarrow> choice list \<Rightarrow> paper list \<times> int" where
  "initial_papers hopeful [] = ([], 0)"
| "initial_papers hopeful (x # xs) =
     (let prefs = filter (\<lambda>c. c \<in> set hopeful) (marks_of x);
          (ps, abstentions) = initial_papers hopeful xs
      in if prefs = [] then (ps, abstentions + 1) else ((prefs, 1) # ps, abstentions))"

text \<open>
  The surplus of an elected candidate passes on at a reduced weight; the papers of one
  elected exactly on the quota are spent.
\<close>

definition transfer :: "int list \<Rightarrow> int \<Rightarrow> rat \<Rightarrow> paper list \<Rightarrow> paper list" where
  "transfer still winner ratio ps =
     map (\<lambda>(prefs, weight).
            if find (\<lambda>c. c \<in> set still \<or> c = winner) prefs = Some winner
            then (prefs, weight * ratio) else (prefs, weight)) ps"

definition snapshot_tallies :: "(int \<Rightarrow> rat) \<Rightarrow> int list \<Rightarrow> (int \<times> rat) list" where
  "snapshot_tallies t cs = map (\<lambda>c. (c, float_round4 (t c))) (sort cs)"

text \<open>
  One pass of the loop: the tallies are taken, then either the candidates left fill the
  seats left (the loop's \<open>break\<close>), or the leading candidate past the quota (past half of
  the active papers when one seat is to be filled) is elected, or the last candidate is
  eliminated.
\<close>

definition active_total :: "(int \<Rightarrow> rat) \<Rightarrow> int list \<Rightarrow> rat" where
  "active_total t cs = sum_list (map t cs)"

definition by_tally :: "ranked_params \<Rightarrow> (int \<Rightarrow> rat) \<Rightarrow> int \<Rightarrow> rat \<times> string" where
  "by_tally P t c = (- t c, rp_lot P c)"

definition reaches :: "ranked_params \<Rightarrow> (int \<Rightarrow> rat) \<Rightarrow> int list \<Rightarrow> int \<Rightarrow> bool" where
  "reaches P t cs c =
     (case rp_quota P of Some q \<Rightarrow> q \<le> t c | None \<Rightarrow> active_total t cs / 2 < t c)"

definition snapshot_round :: "ranked_state \<Rightarrow> (int \<Rightarrow> rat) \<Rightarrow> rat \<Rightarrow> round_outcome \<Rightarrow> count_round" where
  "snapshot_round st t exhausted out =
     \<lparr>round_no = int (length (rounds st)) + 1, round_tallies = snapshot_tallies t (continuing st),
      round_exhausted = float_round4 exhausted, round_outcome = out\<rparr>"

definition fill_seats :: "ranked_params \<Rightarrow> (int \<Rightarrow> rat) \<Rightarrow> rat \<Rightarrow> ranked_state \<Rightarrow> ranked_state" where
  "fill_seats P t exhausted st =
     (let newly = sort_key (by_tally P t) (continuing st)
      in st\<lparr>elected := elected st @ newly,
            rounds := rounds st @ [snapshot_round st t exhausted (Filled newly)]\<rparr>)"

definition elect_leader :: "ranked_params \<Rightarrow> (int \<Rightarrow> rat) \<Rightarrow> rat \<Rightarrow> ranked_state \<Rightarrow> ranked_state" where
  "elect_leader P t exhausted st =
     (let winners_now = filter (reaches P t (continuing st)) (continuing st);
          winner = hd (sort_key (by_tally P t) winners_now);
          still = filter (\<lambda>c. c \<noteq> winner) (continuing st);
          (ps, surplus) =
            (case rp_quota P of
               None \<Rightarrow> (papers st, None)
             | Some q \<Rightarrow>
                 if q < t winner
                 then (transfer still winner ((t winner - q) / t winner) (papers st),
                       Some (float_round4 (t winner - q)))
                 else (transfer still winner 0 (papers st), None))
      in st\<lparr>elected := elected st @ [winner],
            rounds := rounds st @ [snapshot_round st t exhausted (Elects winner surplus)],
            continuing := still, papers := ps\<rparr>)"

definition pick_loser :: "ranked_params \<Rightarrow> int list \<Rightarrow> int" where
  "pick_loser P tied =
     (let fewest = Min (set (map (get0 (rp_first P)) tied));
          narrowed = filter (\<lambda>c. get0 (rp_first P) c = fewest) tied
      in if 1 < length tied then hd (sort_key (rp_lot P) narrowed) else hd tied)"

definition eliminate_last :: "ranked_params \<Rightarrow> (int \<Rightarrow> rat) \<Rightarrow> rat \<Rightarrow> ranked_state \<Rightarrow> ranked_state" where
  "eliminate_last P t exhausted st =
     (let lowest = Min (set (map t (continuing st)));
          tied = filter (\<lambda>c. t c = lowest) (continuing st);
          fewest = Min (set (map (get0 (rp_first P)) tied));
          narrowed = filter (\<lambda>c. get0 (rp_first P) c = fewest) tied;
          loser = pick_loser P tied;
          breaks = (if 1 < length tied
                    then [\<lparr>tie_round = int (length (rounds st)) + 1, tie_tied = sort tied,
                           tie_eliminated = loser, tie_by_lot = 1 < length narrowed\<rparr>]
                    else [])
      in st\<lparr>eliminated := eliminated st @ [loser],
            rounds := rounds st @ [snapshot_round st t exhausted (Eliminates loser)],
            tie_breaks := tie_breaks st @ breaks,
            continuing := filter (\<lambda>c. c \<noteq> loser) (continuing st)\<rparr>)"

definition seats_left :: "ranked_params \<Rightarrow> ranked_state \<Rightarrow> int" where
  "seats_left P st = rp_seats P - int (length (elected st))"

definition ranked_round :: "ranked_params \<Rightarrow> ranked_state \<Rightarrow> bool \<times> ranked_state" where
  "ranked_round P st =
     (let (t, exhausted) = current_tallies (continuing st) (papers st)
      in if int (length (continuing st)) \<le> seats_left P st
         then (True, fill_seats P t exhausted st)
         else if filter (reaches P t (continuing st)) (continuing st) \<noteq> []
         then (False, elect_leader P t exhausted st)
         else (False, eliminate_last P t exhausted st))"

lemma current_tallies_cons [simp]:
  "fst (current_tallies cs ((prefs, w) # ps)) c =
     fst (current_tallies cs ps) c + (if top_choice cs prefs = Some c then w else 0)"
  "snd (current_tallies cs ((prefs, w) # ps)) =
     snd (current_tallies cs ps) + (if top_choice cs prefs = None then w else 0)"
  by (auto simp: case_prod_unfold Let_def split: option.splits)

declare current_tallies.simps(2) [simp del]

definition leader :: "ranked_params \<Rightarrow> (int \<Rightarrow> rat) \<Rightarrow> int list \<Rightarrow> int" where
  "leader P t cs = hd (sort_key (by_tally P t) (filter (reaches P t cs) cs))"

lemma leader_in: "filter (reaches P t cs) cs \<noteq> [] \<Longrightarrow> leader P t cs \<in> set cs \<and> reaches P t cs (leader P t cs)"
  using hd_sort_key_in [of "filter (reaches P t cs) cs" "by_tally P t"] by (auto simp: leader_def)

lemma leader_best: "c \<in> set cs \<Longrightarrow> reaches P t cs c \<Longrightarrow> t c \<le> t (leader P t cs)"
  using hd_sort_key_le [of c "filter (reaches P t cs) cs" "by_tally P t"]
  by (auto simp: leader_def by_tally_def)

lemma lowest_nonempty:
  assumes "cs \<noteq> []"
  shows "filter (\<lambda>c. t c = Min (t ` set cs)) cs \<noteq> []"
proof -
  have "Min (t ` set cs) \<in> t ` set cs" using assms by (intro Min_in) auto
  then show ?thesis by (auto simp: filter_empty_conv)
qed

lemma pick_loser_in: "tied \<noteq> [] \<Longrightarrow> pick_loser P tied \<in> set tied"
proof -
  assume ne: "tied \<noteq> []"
  let ?n = "filter (\<lambda>c. get0 (rp_first P) c = Min (get0 (rp_first P) ` set tied)) tied"
  have "hd (sort_key (rp_lot P) ?n) \<in> set ?n" by (rule hd_sort_key_in) (rule lowest_nonempty [OF ne])
  with ne show ?thesis by (auto simp: pick_loser_def Let_def)
qed

text \<open>What each of the three ways to pass the loop does to the state.\<close>

lemma fill_seats_simps [simp]:
  "elected (fill_seats P t x st) = elected st @ sort_key (by_tally P t) (continuing st)"
  "eliminated (fill_seats P t x st) = eliminated st"
  "continuing (fill_seats P t x st) = continuing st"
  "papers (fill_seats P t x st) = papers st"
  "tie_breaks (fill_seats P t x st) = tie_breaks st"
  by (simp_all add: fill_seats_def Let_def)

lemma elect_leader_simps [simp]:
  "elected (elect_leader P t x st) = elected st @ [leader P t (continuing st)]"
  "eliminated (elect_leader P t x st) = eliminated st"
  "continuing (elect_leader P t x st) = filter (\<lambda>c. c \<noteq> leader P t (continuing st)) (continuing st)"
  "tie_breaks (elect_leader P t x st) = tie_breaks st"
  by (auto simp: elect_leader_def leader_def Let_def split: option.splits prod.splits)

lemma elect_leader_papers:
  "papers (elect_leader P t x st) =
     (case rp_quota P of
        None \<Rightarrow> papers st
      | Some q \<Rightarrow>
          (let w = leader P t (continuing st)
           in transfer (filter (\<lambda>c. c \<noteq> w) (continuing st)) w
                (if q < t w then (t w - q) / t w else 0) (papers st)))"
  by (simp add: elect_leader_def leader_def Let_def split: option.splits)

definition last_placed :: "ranked_params \<Rightarrow> (int \<Rightarrow> rat) \<Rightarrow> int list \<Rightarrow> int" where
  "last_placed P t cs = pick_loser P (filter (\<lambda>c. t c = Min (t ` set cs)) cs)"

lemma last_placed_in:
  assumes "cs \<noteq> []"
  shows "last_placed P t cs \<in> set cs" and "c \<in> set cs \<Longrightarrow> t (last_placed P t cs) \<le> t c"
  using pick_loser_in [OF lowest_nonempty [OF assms], of P t] by (auto simp: last_placed_def)

lemma eliminate_last_simps [simp]:
  "elected (eliminate_last P t x st) = elected st"
  "eliminated (eliminate_last P t x st) = eliminated st @ [last_placed P t (continuing st)]"
  "continuing (eliminate_last P t x st) = filter (\<lambda>c. c \<noteq> last_placed P t (continuing st)) (continuing st)"
  "papers (eliminate_last P t x st) = papers st"
  by (simp_all add: eliminate_last_def last_placed_def Let_def)

lemma eliminate_last_tie:
  assumes "c \<in> set (continuing st)" and "c \<noteq> last_placed P t (continuing st)"
    and "t c = t (last_placed P t (continuing st))"
  shows "length (tie_breaks (eliminate_last P t x st)) = Suc (length (tie_breaks st))"
proof -
  let ?tied = "filter (\<lambda>c. t c = Min (t ` set (continuing st))) (continuing st)"
  from assms(1) have "continuing st \<noteq> []" by auto
  from pick_loser_in [OF lowest_nonempty [OF this], of P t] assms
  have "{c, last_placed P t (continuing st)} \<subseteq> set ?tied" by (auto simp: last_placed_def)
  from card_mono [OF _ this] assms(2) card_length [of ?tied] have "1 < length ?tied" by simp
  then show ?thesis by (simp add: eliminate_last_def Let_def)
qed

text \<open>A round that does not end the loop takes one candidate out of the count.\<close>

lemma ranked_round_shrinks:
  assumes "ranked_round P st = (False, st')" and "continuing st \<noteq> []"
  shows "length (continuing st') < length (continuing st)"
  using assms leader_in [of P _ "continuing st"] last_placed_in(1) [of "continuing st" P]
  by (auto simp: ranked_round_def case_prod_unfold Let_def split: if_splits
      intro!: mset_filter_remove)

text \<open>The \<open>while\<close> loop.\<close>

function ranked_loop :: "ranked_params \<Rightarrow> ranked_state \<Rightarrow> ranked_state" where
  "ranked_loop P st =
     (if continuing st \<noteq> [] \<and> 0 < seats_left P st
      then (case ranked_round P st of (True, st') \<Rightarrow> st' | (False, st') \<Rightarrow> ranked_loop P st')
      else st)"
  by pat_completeness auto
termination
  by (relation "measure (\<lambda>(P, st). length (continuing st))") (auto intro: ranked_round_shrinks [OF sym])

declare ranked_loop.simps [simp del]

definition count_first :: "(int \<rightharpoonup> int) \<Rightarrow> paper list \<Rightarrow> (int \<rightharpoonup> int)" where
  "count_first m ps = foldl (\<lambda>m (prefs, _). add_to 1 m (hd prefs)) m ps"

definition ranked_start ::
  "(string \<Rightarrow> string) \<Rightarrow> (int list \<Rightarrow> int list) \<Rightarrow> choice list \<Rightarrow> cand list \<Rightarrow> int \<Rightarrow> string \<Rightarrow>
     ranked_params \<times> ranked_state \<times> int" where
  "ranked_start sha set_order selections cs seats seed =
     (let hopeful = set_order (map cid cs);
          (ps, abstentions) = initial_papers hopeful selections;
          valid = length ps;
          seats' = (if hopeful \<noteq> [] then max 1 (min seats (int (length hopeful))) else 0)
      in (\<lparr>rp_seats = seats',
           rp_quota = (if 1 < seats' then Some (of_nat valid / of_int (seats' + 1)) else None),
           rp_first = count_first (zero_counts cs) ps, rp_lot = lot_key sha seed\<rparr>,
          \<lparr>elected = [], eliminated = [], rounds = [], tie_breaks = [], continuing = hopeful,
           papers = ps\<rparr>, abstentions))"

definition name_of :: "cand list \<Rightarrow> int \<Rightarrow> string" where
  "name_of cs c = (case map_of (rev (map (\<lambda>x. (cid x, cname x)) cs)) c of Some n \<Rightarrow> n | None \<Rightarrow> '''')"

text \<open>The order of the result's rows: elected, then whoever is left in the count, then the eliminated.\<close>

definition final_order :: "ranked_state \<Rightarrow> int list" where
  "final_order st =
     elected st
     @ sort_key (\<lambda>c. - fst (current_tallies (continuing st) (papers st)) c) (continuing st)
     @ rev (eliminated st)"

definition ranked ::
  "(string \<Rightarrow> string) \<Rightarrow> (int list \<Rightarrow> int list) \<Rightarrow> choice list \<Rightarrow> cand list \<Rightarrow> int \<Rightarrow> string \<Rightarrow>
     tally_result" where
  "ranked sha set_order selections cs seats seed =
     (let (P, st0, abstentions) = ranked_start sha set_order selections cs seats seed;
          st = ranked_loop P st0;
          valid = int (length (papers st0));
          row = (\<lambda>i c. \<lparr>row_id = CId c, row_name = name_of cs c, row_votes = get0 (rp_first P) c,
                         row_percentage = pct (get0 (rp_first P) c) valid, row_rank = i,
                         row_extra = Is_elected (c \<in> set (elected st))\<rparr>)
      in \<lparr>res_method = (if 1 < rp_seats P then ''stv'' else ''irv''), res_valid = valid,
          res_abstentions = abstentions, res_total = valid,
          res_rows = ranked_rows 1 row (final_order st),
          res_winners = map CId (elected st), res_ties = [],
          res_details = Ranked_details (rp_seats P) (map_option float_round4 (rp_quota P))
            (map (\<lambda>c. (c, get0 (rp_first P) c)) (sort (continuing st0))) (rounds st) (tie_breaks st)\<rparr>)"

section \<open>Dispatch on the ballot type\<close>

datatype ballot_type = SINGLE | FPTP | MULTIPLE | APPROVAL | RANKED | SCORE | REFERENDUM

record position_spec =
  spec_id :: int
  spec_name :: string
  spec_type :: ballot_type
  spec_seats :: int
  spec_max_score :: int
  spec_threshold :: rat
  spec_candidates :: "cand list"

record position_result =
  pr_id :: int
  pr_name :: string
  pr_type :: ballot_type
  pr_result :: tally_result

definition tally_position ::
  "(string \<Rightarrow> string) \<Rightarrow> (int list \<Rightarrow> int list) \<Rightarrow> position_spec \<Rightarrow> choice list \<Rightarrow> string \<Rightarrow>
     tally_error + position_result" where
  "tally_position sha set_order spec selections seed =
     (let cs = spec_candidates spec;
          seats = (if spec_seats spec = 0 then 1 else spec_seats spec);
          result =
            (case spec_type spec of
               REFERENDUM \<Rightarrow> Inr (referendum selections (spec_threshold spec))
             | RANKED \<Rightarrow> Inr (ranked sha set_order selections cs seats seed)
             | SCORE \<Rightarrow> score selections cs seats (spec_max_score spec)
             | SINGLE \<Rightarrow> Inr (plurality selections cs 1)
             | _ \<Rightarrow> Inr (plurality selections cs seats))
      in case result of
           Inl e \<Rightarrow> Inl e
         | Inr r \<Rightarrow> Inr \<lparr>pr_id = spec_id spec, pr_name = spec_name spec, pr_type = spec_type spec,
                          pr_result = r\<rparr>)"

end
