(* ===== verification/Contracts.thy ===== *)
theory Contracts
  imports Prelude
begin

text \<open>
  The contracts that several components share, each a locale over the operations of a
  component: a vote or payment that may take effect once, a status that moves along the
  edges of a graph, and a count that adds up over a list. Every component interprets them
  on its own operations.

  \<open>run_attempts act xs s\<close> runs a list of requests one after the other: a request that
  fails leaves the state as it was, as a transaction that is rolled back does, and the
  requests that succeeded are listed with the state they found.
\<close>

fun run_attempts :: "('a \<Rightarrow> 's \<Rightarrow> 'e + 's) \<Rightarrow> 'a list \<Rightarrow> 's \<Rightarrow> ('a \<times> 's) list \<times> 's" where
  "run_attempts act [] s = ([], s)"
| "run_attempts act (x # xs) s =
     (case act x s of
        Inl e \<Rightarrow> run_attempts act xs s
      | Inr s' \<Rightarrow> (let (hits, t) = run_attempts act xs s' in ((x, s) # hits, t)))"

text \<open>A run that makes a condition true has a request that did.\<close>

lemma run_attempts_crossing:
  "run_attempts act xs s = (hits, t) \<Longrightarrow> \<not> P s \<Longrightarrow> P t \<Longrightarrow>
    \<exists>(x, s1)\<in>set hits. \<not> P s1 \<and> (\<exists>s2. act x s1 = Inr s2 \<and> P s2)"
proof (induction xs arbitrary: s hits)
  case Nil
  then show ?case by simp
next
  case (Cons x xs)
  show ?case
  proof (cases "act x s")
    case (Inl e)
    with Cons show ?thesis by simp
  next
    case (Inr s')
    then obtain d where d: "run_attempts act xs s' = (d, t)" and h: "hits = (x, s) # d"
      using Cons.prems(1) by (auto simp: case_prod_unfold Let_def prod_eq_iff)
    with Inr Cons.prems Cons.IH [OF d] show ?thesis by (cases "P s'") auto
  qed
qed

section \<open>An effect that happens at most once per subject\<close>

text \<open>
  \<open>subject x s\<close> is what request \<open>x\<close> spends in state \<open>s\<close>, \<open>None\<close> for a request of another
  kind.
\<close>

locale once_only =
  fixes act :: "'a \<Rightarrow> 's \<Rightarrow> 'e + 's"
    and subject :: "'a \<Rightarrow> 's \<Rightarrow> 'k option"
    and good :: "'s \<Rightarrow> bool"
    and spent :: "'k \<Rightarrow> 's \<Rightarrow> bool"
  assumes keeps_good: "good s \<Longrightarrow> act x s = Inr s' \<Longrightarrow> good s'"
    and needs_unspent: "good s \<Longrightarrow> act x s = Inr s' \<Longrightarrow> subject x s = Some k \<Longrightarrow> \<not> spent k s"
    and spends: "good s \<Longrightarrow> act x s = Inr s' \<Longrightarrow> subject x s = Some k \<Longrightarrow> spent k s'"
    and stays_spent: "good s \<Longrightarrow> act x s = Inr s' \<Longrightarrow> spent k s \<Longrightarrow> spent k s'"
begin

definition spent_by :: "('a \<times> 's) list \<Rightarrow> 'k list" where
  "spent_by hits = List.map_filter (\<lambda>(x, s). subject x s) hits"

lemma spent_by_simps [simp]:
  "spent_by [] = []"
  "spent_by ((x, s) # hits) = (case subject x s of None \<Rightarrow> spent_by hits | Some k \<Rightarrow> k # spent_by hits)"
  by (simp_all add: spent_by_def split: option.split)

lemma run_spent: "good s \<Longrightarrow> spent k s \<Longrightarrow> run_attempts act xs s = (hits, t) \<Longrightarrow>
    good t \<and> spent k t \<and> k \<notin> set (spent_by hits)"
proof (induction xs arbitrary: s hits)
  case Nil
  then show ?case by simp
next
  case (Cons x xs)
  show ?case
  proof (cases "act x s")
    case (Inl e)
    with Cons show ?thesis by simp
  next
    case (Inr s')
    note s' = keeps_good [OF Cons.prems(1) Inr] stays_spent [OF Cons.prems(1) Inr Cons.prems(2)]
    from needs_unspent [OF Cons.prems(1) Inr] Cons.prems(2) have "subject x s \<noteq> Some k" by blast
    moreover obtain d where d: "run_attempts act xs s' = (d, t)" and "hits = (x, s) # d"
      using Cons.prems(3) Inr by (auto simp: case_prod_unfold Let_def prod_eq_iff)
    ultimately show ?thesis using Cons.IH [OF s' d] by (auto split: option.split)
  qed
qed

lemma run_once: "good s \<Longrightarrow> run_attempts act xs s = (hits, t) \<Longrightarrow> good t \<and> distinct (spent_by hits)"
proof (induction xs arbitrary: s hits)
  case Nil
  then show ?case by simp
next
  case (Cons x xs)
  show ?case
  proof (cases "act x s")
    case (Inl e)
    with Cons show ?thesis by simp
  next
    case (Inr s')
    note good' = keeps_good [OF Cons.prems(1) Inr]
    obtain d where d: "run_attempts act xs s' = (d, t)" and h: "hits = (x, s) # d"
      using Cons.prems(2) Inr by (auto simp: case_prod_unfold Let_def prod_eq_iff)
    show ?thesis
    proof (cases "subject x s")
      case None
      with h Cons.IH [OF good' d] show ?thesis by simp
    next
      case (Some k)
      with h Cons.IH [OF good' d] run_spent [OF good' spends [OF Cons.prems(1) Inr Some] d] show ?thesis by simp
    qed
  qed
qed

end

section \<open>A status that moves along the edges of a graph\<close>

locale status_graph =
  fixes act :: "'a \<Rightarrow> 's \<Rightarrow> 'e + 's"
    and status :: "'s \<Rightarrow> 'st"
    and edge :: "'st \<Rightarrow> 'st \<Rightarrow> bool"
  assumes follows_edge: "act x s = Inr s' \<Longrightarrow> edge\<^sup>*\<^sup>* (status s) (status s')"
begin

lemma run_path: "run_attempts act xs s = (hits, t) \<Longrightarrow> edge\<^sup>*\<^sup>* (status s) (status t)"
proof (induction xs arbitrary: s hits)
  case Nil
  then show ?case by simp
next
  case (Cons x xs)
  show ?case
  proof (cases "act x s")
    case (Inl e)
    with Cons show ?thesis by simp
  next
    case (Inr s')
    obtain d where d: "run_attempts act xs s' = (d, t)"
      using Cons.prems Inr by (auto simp: case_prod_unfold Let_def prod_eq_iff)
    with Cons.IH [OF d] follows_edge [OF Inr] show ?thesis by (meson rtranclp_trans)
  qed
qed

text \<open>A status with no edge out of it is final.\<close>

lemma run_final:
  assumes "run_attempts act xs s = (hits, t)" and "\<And>b. \<not> edge (status s) b"
  shows "status t = status s"
  using run_path [OF assms(1)] assms(2) by (metis converse_rtranclpE)

text \<open>A status that only one status leads to is never reached without passing through it.\<close>

lemma run_through:
  assumes "run_attempts act xs s = (hits, t)" and "status t = b" and "status s \<noteq> b"
    and "\<And>c. edge c b \<Longrightarrow> c = a"
  shows "edge\<^sup>*\<^sup>* (status s) a"
  using run_path [OF assms(1)] assms(2-) by (metis rtranclp.cases)

end

section \<open>A count that adds up over the list counted\<close>

locale additive_count =
  fixes total :: "'b list \<Rightarrow> 'k \<Rightarrow> 'n::ordered_ab_group_add"
    and weight :: "'b \<Rightarrow> 'k \<Rightarrow> 'n"
  assumes total_Nil: "total [] k = 0"
    and total_Cons: "total (x # xs) k = weight x k + total xs k"
begin

lemma total_append: "total (xs @ ys) k = total xs k + total ys k"
  by (induction xs) (simp_all add: total_Nil total_Cons add.assoc)

lemma total_sum: "total xs k = sum_list (map (\<lambda>x. weight x k) xs)"
  by (induction xs) (simp_all add: total_Nil total_Cons)

lemma total_mset: "mset xs = mset ys \<Longrightarrow> total xs k = total ys k"
  unfolding total_sum by (metis mset_map sum_mset_sum_list)

lemma total_nonneg: "(\<And>x. x \<in> set xs \<Longrightarrow> 0 \<le> weight x k) \<Longrightarrow> 0 \<le> total xs k"
  unfolding total_sum by (rule sum_list_map_nonneg)

end

end
