(* ===== verification/Plurality_Props.thy ===== *)
theory Plurality_Props
  imports Tally Contracts
begin

text \<open>
  What the plurality count and the referendum of elections/tally.py compute: the votes of
  each candidate as a sum over the ballots, the winners as the candidates nobody outside
  them equals, the percentages as numbers between 0 and 100.
\<close>

section \<open>The votes of a candidate\<close>

definition votes_for :: "choice list \<Rightarrow> int \<Rightarrow> int" where
  "votes_for xs k = sum_list (map (\<lambda>x. int (count_list (marks_of x) k)) xs)"

interpretation marks: additive_count votes_for "\<lambda>x k. int (count_list (marks_of x) k)"
  by unfold_locales (simp_all add: votes_for_def)

definition valid_count :: "choice list \<Rightarrow> int" where
  "valid_count xs = sum_list (map (\<lambda>x. if no_choice x then 0 else 1) xs)"

interpretation valids: additive_count "\<lambda>xs (_::unit). valid_count xs" "\<lambda>x _. if no_choice x then 0 else 1"
  by unfold_locales (simp_all add: valid_count_def)

lemma no_choice_marks: "no_choice x \<Longrightarrow> marks_of x = []"
  by (cases x rule: no_choice.cases) auto

lemma foldl_add_to: "foldl (add_to 1) m ks k = map_option (\<lambda>v. v + int (count_list ks k)) (m k)"
proof (induction ks arbitrary: m)
  case Nil
  then show ?case by (simp add: option.map_ident)
next
  case (Cons a ks)
  then show ?case by (cases "m k"; cases "m a") (auto simp: add_to_def split: option.splits)
qed

lemma plurality_loop_eq:
  "p_counts (plurality_loop s xs) = (\<lambda>k. map_option (\<lambda>v. v + votes_for xs k) (p_counts s k))"
  "p_valid (plurality_loop s xs) = p_valid s + valid_count xs"
  "p_abstentions (plurality_loop s xs) = p_abstentions s + (int (length xs) - valid_count xs)"
  by (induction xs arbitrary: s)
    (auto simp: votes_for_def valid_count_def foldl_add_to fun_eq_iff option.map_comp o_def
      no_choice_marks option.map_ident add.assoc)

definition tallied :: "choice list \<Rightarrow> cand list \<Rightarrow> (int \<rightharpoonup> int)" where
  "tallied xs cs = (\<lambda>k. if k \<in> cid ` set cs then Some (votes_for xs k) else None)"

lemma get0_tallied: "c \<in> set cs \<Longrightarrow> get0 (tallied xs cs) (cid c) = votes_for xs (cid c)"
  by (simp add: tallied_def get0_def)

lemma plurality_unfold:
  "plurality xs cs n =
     (let total = dict_sum cs (tallied xs cs);
          ordered = rank_candidates (tallied xs cs) cs;
          (winners, ties) = winners_with_ties ordered (tallied xs cs) n
      in \<lparr>res_method = ''plurality'', res_valid = valid_count xs,
          res_abstentions = int (length xs) - valid_count xs, res_total = total,
          res_rows = ranked_rows 1
            (candidate_row (tallied xs cs) total
              (\<lambda>c. Of_ballots (pct (get0 (tallied xs cs) (cid c)) (valid_count xs)))) ordered,
          res_winners = map (CId \<circ> cid) winners, res_ties = map CId ties,
          res_details = Plurality_details n\<rparr>)"
proof -
  have "p_counts (plurality_loop \<lparr>p_counts = zero_counts cs, p_abstentions = 0, p_valid = 0\<rparr> xs) = tallied xs cs"
    by (auto simp: plurality_loop_eq zero_counts_def tallied_def)
  then show ?thesis by (simp add: plurality_def plurality_loop_eq Let_def)
qed

lemma plurality_fields:
  "res_winners (plurality xs cs n) =
     map (CId \<circ> cid) (fst (winners_with_ties (rank_candidates (tallied xs cs) cs) (tallied xs cs) n))"
  "res_ties (plurality xs cs n) =
     map CId (snd (winners_with_ties (rank_candidates (tallied xs cs) cs) (tallied xs cs) n))"
  "res_total (plurality xs cs n) = dict_sum cs (tallied xs cs)"
  by (simp_all add: plurality_unfold Let_def case_prod_unfold)

lemma rank_set [simp]: "set (rank_candidates m cs) = set cs"
  by (simp add: rank_candidates_def)

lemma rank_mset [simp]: "mset (rank_candidates m cs) = mset cs"
  by (simp add: rank_candidates_def)

lemma rank_distinct [simp]: "distinct (rank_candidates m cs) = distinct cs"
  by (simp add: rank_candidates_def)

lemma rank_length [simp]: "length (rank_candidates m cs) = length cs"
  by (simp add: rank_candidates_def)

lemma rank_sorted: "sorted_wrt (\<lambda>a b. get0 m (cid b) \<le> get0 m (cid a)) (rank_candidates m cs)"
proof -
  have "sorted (map (\<lambda>c. (- get0 m (cid c), lower (cname c), cid c)) (rank_candidates m cs))"
    by (simp add: rank_candidates_def)
  then show ?thesis
    unfolding sorted_map by (rule sorted_wrt_mono_rel [rotated]) auto
qed

lemma ranked_rows_ids: "(\<And>i x. g (f i x) = h x) \<Longrightarrow> map g (ranked_rows i f xs) = map h xs"
  by (induction xs arbitrary: i) auto

text \<open>
  The rows of a plurality result list every candidate once, each with the number of
  marks it has on the ballots, best first, ties ordered by name and id; valid ballots and
  abstentions together are all the ballots.
\<close>

theorem plurality_rows:
  "map (\<lambda>r. (row_id r, row_votes r)) (res_rows (plurality xs cs n)) =
     map (\<lambda>c. (CId (cid c), votes_for xs (cid c)))
       (sort_key (\<lambda>c. (- votes_for xs (cid c), lower (cname c), cid c)) cs)
   \<and> res_valid (plurality xs cs n) + res_abstentions (plurality xs cs n) = int (length xs)"
proof -
  have ord: "rank_candidates (tallied xs cs) cs
      = sort_key (\<lambda>c. (- votes_for xs (cid c), lower (cname c), cid c)) cs"
    unfolding rank_candidates_def
    by (rule sort_key_cong) (simp add: get0_tallied)
  have "map (\<lambda>r. (row_id r, row_votes r)) (res_rows (plurality xs cs n)) =
      map (\<lambda>c. (CId (cid c), get0 (tallied xs cs) (cid c))) (rank_candidates (tallied xs cs) cs)"
    by (simp add: plurality_unfold Let_def case_prod_unfold ranked_rows_ids candidate_row_def)
  also have "\<dots> = map (\<lambda>c. (CId (cid c), votes_for xs (cid c))) (rank_candidates (tallied xs cs) cs)"
    by (simp add: get0_tallied)
  finally show ?thesis
    by (simp add: ord plurality_unfold Let_def case_prod_unfold)
qed

section \<open>Winners and ties\<close>

lemma cutoff_split:
  fixes v :: "'a \<Rightarrow> int"
  assumes "sorted_wrt (\<lambda>a b. v b \<le> v a) ordered" and "ordered \<noteq> []" and "0 < n"
  shows "a \<in> set (take n ordered) \<Longrightarrow> v (last (take n ordered)) \<le> v a"
    and "b \<in> set (drop n ordered) \<Longrightarrow> v b \<le> v (last (take n ordered))"
proof -
  let ?w = "take n ordered"
  have ne: "?w \<noteq> []" using assms by simp
  have s: "sorted_wrt (\<lambda>a b. v b \<le> v a) (?w @ drop n ordered)" using assms(1) by simp
  have "?w = butlast ?w @ [last ?w]" using ne by simp
  with s have "sorted_wrt (\<lambda>a b. v b \<le> v a) (butlast ?w @ [last ?w])"
    by (metis sorted_wrt_append)
  then show "a \<in> set ?w \<Longrightarrow> v (last ?w) \<le> v a"
    using \<open>?w = butlast ?w @ [last ?w]\<close>
    by (metis (no_types, lifting) Un_iff empty_iff insert_iff list.set(1,2) order_refl set_append sorted_wrt_append)
  from s ne show "b \<in> set (drop n ordered) \<Longrightarrow> v b \<le> v (last ?w)"
    unfolding sorted_wrt_append by auto
qed

lemma winners_with_ties_subset: "winners_with_ties ordered m n = (w, ties) \<Longrightarrow> set w \<subseteq> set ordered"
  by (auto simp: winners_with_ties_def Let_def split: if_splits dest: in_set_takeD)

lemma in_drop_if: "d \<in> set xs \<Longrightarrow> d \<notin> set (take n xs) \<Longrightarrow> d \<in> set (drop n xs)"
  by (metis Un_iff append_take_drop_id set_append)

lemma winners_with_ties_beat:
  assumes sorted: "sorted_wrt (\<lambda>a b. get0 m (cid b) \<le> get0 m (cid a)) ordered"
    and "winners_with_ties ordered m n = (w, ties)" and "a \<in> set w" and "b \<in> set ordered" and "b \<notin> set w"
  shows "get0 m (cid b) < get0 m (cid a)"
proof -
  let ?v = "\<lambda>c. get0 m (cid c)"
  let ?w = "take (nat n) ordered"
  let ?tied = "filter (\<lambda>c. ?v c = ?v (last ?w)) ordered"
  from assms have n: "0 < n" and ne: "ordered \<noteq> []"
    by (auto simp: winners_with_ties_def split: if_splits)
  have last: "last ?w \<in> set ?w" using n ne by simp
  have b_le: "?v b \<le> ?v (last ?w)" if "b \<notin> set ?w"
    using cutoff_split(2) [OF sorted ne, of "nat n" b] n assms(4) that
    by (metis Un_iff append_take_drop_id set_append zero_less_nat_eq)
  show ?thesis
  proof (cases "1 < length ?tied \<and> (\<exists>c\<in>set ?tied. c \<notin> set ?w)")
    case True
    with assms(2) n ne have w: "w = filter (\<lambda>c. ?v (last ?w) < ?v c) ?w"
      by (simp add: winners_with_ties_def Let_def split: if_splits)
    with assms(3,5) b_le show ?thesis by (cases "b \<in> set ?w") auto
  next
    case False
    with assms(2) n ne have w: "w = ?w"
      by (simp add: winners_with_ties_def Let_def split: if_splits)
    with assms(5) have b: "b \<notin> set ?w" by simp
    have "?v b \<noteq> ?v (last ?w)"
    proof
      assume eq: "?v b = ?v (last ?w)"
      with assms(4) last have "{b, last ?w} \<subseteq> set ?tied" by (auto dest: in_set_takeD)
      moreover from last b have "b \<noteq> last ?w" by auto
      ultimately have "1 < length ?tied"
        using card_mono [of "set ?tied" "{b, last ?w}"] card_length [of ?tied] by simp
      with False eq assms(4) b show False by auto
    qed
    moreover have "?v (last ?w) \<le> ?v a"
      using cutoff_split(1) [OF sorted ne, of "nat n" a] n assms(3) w by auto
    ultimately show ?thesis using b_le [OF b] by linarith
  qed
qed

lemma winners_with_ties_seats:
  assumes sorted: "sorted_wrt (\<lambda>a b. get0 m (cid b) \<le> get0 m (cid a)) ordered"
    and res: "winners_with_ties ordered m n = (w, ties)" and n: "0 < n"
  shows "ties = [] \<Longrightarrow> length w = min (nat n) (length ordered)"
    and "ties \<noteq> [] \<Longrightarrow> int (length w) < n \<and> n < int (length w + length ties)"
proof -
  let ?v = "\<lambda>c. get0 m (cid c)"
  let ?w = "take (nat n) ordered"
  let ?tied = "filter (\<lambda>c. ?v c = ?v (last ?w)) ordered"
  show "length w = min (nat n) (length ordered)" if "ties = []"
    using res n that by (auto simp: winners_with_ties_def Let_def split: if_splits)
  show "int (length w) < n \<and> n < int (length w + length ties)" if "ties \<noteq> []"
  proof -
    from res that have ne: "ordered \<noteq> []" by (auto simp: winners_with_ties_def split: if_splits)
    from res that n obtain d where w: "w = filter (\<lambda>c. ?v (last ?w) < ?v c) ?w"
      and t: "ties = map cid ?tied" and d: "d \<in> set ?tied" "d \<notin> set ?w"
      by (auto simp: winners_with_ties_def Let_def split: if_splits)
    have last: "last ?w \<in> set ?w" using n ne by simp
    then have "length w < length ?w" unfolding w by (intro length_filter_less) auto
    moreover from d(2) d(1) have long: "nat n < length ordered"
      by (metis filter_is_subset in_mono leI take_all)
    ultimately have "int (length w) < n" using n by (simp add: min_def)
    moreover have "n < int (length w + length ties)"
    proof -
      have split: "length ?w = length w + length (filter (\<lambda>c. ?v c = ?v (last ?w)) ?w)"
      proof -
        have "filter (\<lambda>c. \<not> ?v (last ?w) < ?v c) ?w = filter (\<lambda>c. ?v c = ?v (last ?w)) ?w"
          using cutoff_split(1) [OF sorted ne, of "nat n"] n by (intro filter_cong) force+
        then show ?thesis unfolding w by (metis sum_length_filter_compl)
      qed
      have "?tied = filter (\<lambda>c. ?v c = ?v (last ?w)) ?w @ filter (\<lambda>c. ?v c = ?v (last ?w)) (drop (nat n) ordered)"
        by (metis append_take_drop_id filter_append)
      moreover from d have "filter (\<lambda>c. ?v c = ?v (last ?w)) (drop (nat n) ordered) \<noteq> []"
        by (auto simp: filter_empty_conv in_drop_if)
      ultimately have "length ?w < length w + length ?tied" using split by simp
      with long n t show ?thesis by simp
    qed
    ultimately show ?thesis by simp
  qed
qed

text \<open>
  C2: Every winner of a plurality count has strictly more votes than every candidate who
  is not a winner, whether or not a tie is reported: no seat is decided by the order in
  which equal candidates happen to be listed.
\<close>

theorem plurality_winners_beat:
  assumes "distinct (map cid cs)" and "c \<in> set cs" and "d \<in> set cs"
    and "CId (cid c) \<in> set (res_winners (plurality xs cs n))"
    and "CId (cid d) \<notin> set (res_winners (plurality xs cs n))"
  shows "votes_for xs (cid d) < votes_for xs (cid c)"
proof -
  let ?m = "tallied xs cs"
  obtain w ties where wt: "winners_with_ties (rank_candidates ?m cs) ?m n = (w, ties)" by fastforce
  have sub: "set w \<subseteq> set cs"
    using winners_with_ties_subset [OF wt] by simp
  from assms(4) wt obtain a where "a \<in> set w" "cid a = cid c"
    by (auto simp: plurality_unfold Let_def)
  with sub assms(1,2) have "c \<in> set w" by (metis distinct_map inj_onD subsetD)
  moreover from assms(5) wt have "d \<notin> set w" by (auto simp: plurality_unfold Let_def)
  ultimately show ?thesis
    using winners_with_ties_beat [OF rank_sorted wt, of c d] assms(2,3) by (simp add: get0_tallied)
qed

text \<open>
  A plurality count fills exactly the seats it is given (or elects every candidate
  when there are fewer) unless it reports a tie; the candidates it then reports are too
  many for the seats left, and at least one seat is left.
\<close>

theorem plurality_seats_filled:
  assumes "0 < n"
  shows "if res_ties (plurality xs cs n) = []
    then length (res_winners (plurality xs cs n)) = min (nat n) (length cs)
    else int (length (res_winners (plurality xs cs n))) < n
      \<and> n < int (length (res_winners (plurality xs cs n)) + length (res_ties (plurality xs cs n)))"
proof -
  let ?m = "tallied xs cs"
  obtain w ties where wt: "winners_with_ties (rank_candidates ?m cs) ?m n = (w, ties)" by fastforce
  from winners_with_ties_seats [OF rank_sorted wt assms] wt show ?thesis
    by (auto simp: plurality_unfold Let_def)
qed

text \<open>
  The result of a plurality count does not depend on the order of the ballots.
\<close>

theorem plurality_order_irrelevant:
  assumes "mset xs = mset ys"
  shows "plurality xs cs n = plurality ys cs n"
proof -
  have "votes_for xs k = votes_for ys k" for k by (rule marks.total_mset [OF assms])
  then have "tallied xs cs = tallied ys cs" by (auto simp: tallied_def fun_eq_iff)
  moreover have "length xs = length ys" using assms by (metis size_mset)
  ultimately show ?thesis
    using valids.total_mset [OF assms] by (simp add: plurality_unfold)
qed

section \<open>Percentages and the referendum\<close>

text \<open>Below 2^46 votes, scaling a count by 100 is exact and only the division rounds.\<close>

lemma pct_unfold:
  assumes "0 \<le> part" and "part \<le> whole" and "0 < whole" and "whole < 2 ^ 46"
  shows "pct part whole = round_digits 2 (fl (of_int (100 * part) / of_int whole))"
proof -
  have "fl (of_int (100 * part)) = of_int (100 * part)"
    using assms by (intro fl_of_int) auto
  moreover have "fl (of_int part) = of_int part" "fl (of_int whole) = of_int whole"
    using assms by (auto intro!: fl_of_int)
  ultimately show ?thesis using assms(3) by (simp add: pct_def)
qed

lemma pct_at_most:
  assumes "0 \<le> part" and "0 < whole" and "part \<le> whole" and "whole < 2 ^ 46"
    and "100 * part \<le> m * whole" and "0 \<le> m" and "m \<le> 100"
  shows "pct part whole \<le> of_int m"
proof -
  have "(of_int (100 * part) :: rat) \<le> of_int (m * whole)" using assms(5) by (simp only: of_int_le_iff)
  then have "(of_int (100 * part) :: rat) / of_int whole \<le> of_int m"
    using assms(2) by (simp add: pos_divide_le_eq)
  moreover have "0 \<le> (of_int (100 * part) :: rat) / of_int whole" using assms(1,2) by simp
  ultimately have "fl (of_int (100 * part) / of_int whole) \<le> fl (of_int m)"
    and nonneg: "0 \<le> fl (of_int (100 * part) / of_int whole)"
    by (auto intro: fl_mono fl_nonneg)
  then have "pct part whole \<le> round_digits 2 (of_int m)"
    using assms by (simp add: pct_unfold fl_of_int round_digits_mono)
  also have "round_digits 2 (of_int m) = of_int m"
  proof -
    have "round_even (of_int m * 10 ^ 2) = m * 100"
      using round_even_int [of "m * 100"] by simp
    then show ?thesis using assms(6,7) by (simp add: round_digits_def fl_of_int)
  qed
  finally show ?thesis .
qed

lemma pct_nonneg:
  assumes "0 \<le> part" and "part \<le> whole" and "whole < 2 ^ 46"
  shows "0 \<le> pct part whole"
proof (cases "whole = 0")
  case False
  with assms have "0 \<le> fl (of_int (100 * part) / of_int whole)" by (intro fl_nonneg) auto
  from round_digits_mono [OF order_refl this, of 2] assms False show ?thesis
    by (simp add: pct_unfold round_digits_def)
qed (simp add: pct_def)

lemma votes_for_nonneg: "0 \<le> votes_for xs k"
  by (rule marks.total_nonneg) simp

lemma dict_sum_tallied:
  assumes "c \<in> set cs"
  shows "votes_for xs (cid c) \<le> dict_sum cs (tallied xs cs)"
proof -
  have "get0 (tallied xs cs) (cid c) \<le> sum_list (map (get0 (tallied xs cs)) (remdups (map cid cs)))"
    using assms by (intro member_le_sum_list) (auto simp: tallied_def get0_def votes_for_nonneg)
  with assms show ?thesis by (simp add: dict_sum_def get0_tallied)
qed

lemma in_ranked_rows: "r \<in> set (ranked_rows i f xs) \<Longrightarrow> \<exists>j. \<exists>x\<in>set xs. r = f j x"
  by (induction xs arbitrary: i) (auto, blast)

text \<open>
  Every percentage in a plurality result lies between 0 and 100, up to 2^46 votes
  (beyond that the float product may round).
\<close>

theorem plurality_percentages:
  assumes "res_total (plurality xs cs n) < 2 ^ 46" and "r \<in> set (res_rows (plurality xs cs n))"
  shows "0 \<le> row_percentage r \<and> row_percentage r \<le> 100"
proof -
  let ?total = "dict_sum cs (tallied xs cs)"
  from assms(1) have small: "?total < 2 ^ 46"
    by (simp add: plurality_unfold Let_def case_prod_unfold)
  from assms(2) obtain j c where c: "c \<in> set cs" and r: "row_percentage r = pct (votes_for xs (cid c)) ?total"
    by (auto simp: plurality_unfold Let_def case_prod_unfold candidate_row_def get0_tallied
        dest!: in_ranked_rows)
  note le = votes_for_nonneg [of xs "cid c"] dict_sum_tallied [OF c, of xs]
  show ?thesis
  proof (cases "?total = 0")
    case True
    then show ?thesis by (simp add: r pct_def)
  next
    case False
    with le small show ?thesis
      using pct_at_most [of "votes_for xs (cid c)" ?total 100] by (simp add: r pct_nonneg)
  qed
qed

definition yes_votes :: "choice list \<Rightarrow> int" where
  "yes_votes xs = int (count_where (\<lambda>s. s = Some (Answer ''YES'')) xs)"

definition no_votes :: "choice list \<Rightarrow> int" where
  "no_votes xs = int (count_where (\<lambda>s. s = Some (Answer ''NO'')) xs)"

lemma referendum_winners:
  "res_winners (referendum xs th) =
     (if 0 < yes_votes xs + no_votes xs \<and> th < pct (yes_votes xs) (yes_votes xs + no_votes xs)
      then [CAnswer ''YES''] else [CAnswer ''NO''])"
  by (simp add: referendum_def yes_votes_def no_votes_def Let_def)

text \<open>
  A referendum whose threshold is at least 50 percent is never carried unless the YES
  votes outnumber the NO votes.
\<close>

theorem referendum_needs_majority:
  assumes "res_winners (referendum xs th) = [CAnswer ''YES'']" and "50 \<le> th"
    and "yes_votes xs + no_votes xs < 2 ^ 46"
  shows "no_votes xs < yes_votes xs"
proof (rule ccontr)
  assume "\<not> no_votes xs < yes_votes xs"
  moreover have "0 \<le> yes_votes xs" "0 \<le> no_votes xs" by (simp_all add: yes_votes_def no_votes_def)
  moreover from assms(1) have "th < pct (yes_votes xs) (yes_votes xs + no_votes xs)"
    and "0 < yes_votes xs + no_votes xs"
    by (simp_all add: referendum_winners split: if_splits)
  ultimately show False
    using pct_at_most [of "yes_votes xs" "yes_votes xs + no_votes xs" 50] assms(2,3) by simp
qed

text \<open>
  The percentage is rounded to two decimals before it is compared with the threshold,
  so a referendum with a threshold of 50 percent fails although strictly more than half
  of the valid votes are YES, whenever the YES share is below 50.00390625 percent.
\<close>

theorem referendum_close_majority_fails:
  assumes "no_votes xs < yes_votes xs" and "yes_votes xs + no_votes xs < 2 ^ 46"
    and "25600 * yes_votes xs \<le> 12801 * (yes_votes xs + no_votes xs)"
  shows "res_winners (referendum xs 50) = [CAnswer ''NO'']"
proof -
  define y where "y = yes_votes xs"
  define v where "v = yes_votes xs + no_votes xs"
  define q where "q = (of_int (100 * y) / of_int v :: rat)"
  have nn: "0 \<le> no_votes xs" by (simp add: no_votes_def)
  with assms have y: "0 < y" "y \<le> v" "0 < v" "v < 2 ^ 46" "v < 2 * y" "25600 * y \<le> 12801 * v"
    by (auto simp: y_def v_def)
  have "(of_int (50 * v) :: rat) \<le> of_int (100 * y)" using y by (simp only: of_int_le_iff)
  then have lo: "50 \<le> q" using y by (simp add: q_def pos_le_divide_eq)
  have "(of_int (25600 * y) :: rat) \<le> of_int (12801 * v)" using y by (simp only: of_int_le_iff)
  then have hi: "q \<le> 12801 / 256" using y by (simp add: q_def pos_divide_le_eq)
  have "fl 50 = 50" using fl_of_int [of 50] by simp
  with fl_mono [OF _ lo] have flo: "50 \<le> fl q" by simp
  have "fl (12801 / 256) = 12801 / 256" using fl_dyadic [of 12801 8] by simp
  with fl_mono [OF _ hi] lo have fhi: "fl q \<le> 12801 / 256" by simp
  have "round_even (fl q * 10 ^ 2) = 5000"
    by (rule round_even_near) (use flo fhi in simp_all)
  then have "round_digits 2 (fl q) = 50" using \<open>fl 50 = 50\<close> by (simp add: round_digits_def)
  then have "pct y v = 50" using pct_unfold [of y v] y by (simp add: q_def)
  then show ?thesis by (simp add: referendum_winners y_def v_def)
qed

section \<open>Worked examples\<close>

text \<open>Three candidates, four ballots; the first has three votes, the others one each.\<close>

definition ex_cands :: "cand list" where
  "ex_cands = [\<lparr>cid = 1, cname = ''Ama''\<rparr>, \<lparr>cid = 2, cname = ''Kofi''\<rparr>, \<lparr>cid = 3, cname = ''Esi''\<rparr>]"

definition ex_ballots :: "choice list" where
  "ex_ballots = [Some (Marks [1, 2]), Some (Marks [1]), None, Some (Marks [3, 1])]"

lemma ex_winners:
  "res_winners (plurality ex_ballots ex_cands 1) = [CId 1]"
  "res_ties (plurality ex_ballots ex_cands 2) = [CId 3, CId 2]"
  "res_winners (plurality ex_ballots ex_cands 2) = [CId 1]"
  unfolding plurality_fields by code_simp+

lemma ex_votes: "votes_for ex_ballots 1 = 3" "votes_for ex_ballots 2 = 1"
  by (simp_all add: votes_for_def ex_ballots_def)

theorem plurality_winners_beat_witness:
  "votes_for ex_ballots (cid \<lparr>cid = 2, cname = ''Kofi''\<rparr>) < votes_for ex_ballots (cid \<lparr>cid = 1, cname = ''Ama''\<rparr>)"
  by (rule plurality_winners_beat [of ex_cands _ _ ex_ballots 1])
    (simp_all add: ex_winners, simp_all add: ex_cands_def)

theorem plurality_seats_filled_witness:
  "int (length (res_winners (plurality ex_ballots ex_cands 2))) < 2
   \<and> 2 < int (length (res_winners (plurality ex_ballots ex_cands 2)) + length (res_ties (plurality ex_ballots ex_cands 2)))"
  using plurality_seats_filled [of 2 ex_ballots ex_cands] by (simp add: ex_winners)

theorem plurality_order_irrelevant_witness:
  "plurality [Some (Marks [1]), None] ex_cands 1 = plurality [None, Some (Marks [1])] ex_cands 1"
  by (rule plurality_order_irrelevant) (simp add: add_mset_commute)

theorem plurality_percentages_witness:
  "\<exists>r. r \<in> set (res_rows (plurality ex_ballots ex_cands 1)) \<and> 0 \<le> row_percentage r \<and> row_percentage r \<le> 100"
proof -
  let ?rows = "res_rows (plurality ex_ballots ex_cands 1)"
  have "length (map (\<lambda>r. (row_id r, row_votes r)) ?rows) = 3"
    using plurality_rows [of ex_ballots ex_cands 1] by (simp add: ex_cands_def)
  then obtain r where r: "r \<in> set ?rows" by (cases ?rows) auto
  have "res_total (plurality ex_ballots ex_cands 1) < 2 ^ 46"
    unfolding plurality_fields by code_simp
  from r plurality_percentages [OF this r] show ?thesis by auto
qed

lemma ex_referendum:
  "yes_votes (replicate m (Some (Answer ''YES'')) @ replicate k (Some (Answer ''NO''))) = int m"
  "no_votes (replicate m (Some (Answer ''YES'')) @ replicate k (Some (Answer ''NO''))) = int k"
  by (simp_all add: yes_votes_def no_votes_def count_where_def)

theorem referendum_needs_majority_witness:
  "no_votes [Some (Answer ''YES'')] < yes_votes [Some (Answer ''YES'')]"
proof (rule referendum_needs_majority [of _ 50])
  have v: "yes_votes [Some (Answer ''YES'')] = 1" "no_votes [Some (Answer ''YES'')] = 0"
    using ex_referendum [of 1 0] by simp_all
  have "round_even 10000 = 10000" using round_even_int [of 10000] by simp
  then have "pct 1 1 = 100" by (simp add: pct_def round_digits_def)
  with v show "res_winners (referendum [Some (Answer ''YES'')] 50) = [CAnswer ''YES'']"
    "yes_votes [Some (Answer ''YES'')] + no_votes [Some (Answer ''YES'')] < 2 ^ 46"
    by (simp_all add: referendum_winners)
qed simp

theorem referendum_close_majority_fails_witness:
  "res_winners (referendum (replicate 50001 (Some (Answer ''YES'')) @ replicate 49999 (Some (Answer ''NO''))) 50)
     = [CAnswer ''NO'']"
  by (rule referendum_close_majority_fails) (simp_all only: ex_referendum, simp_all)

end
