(* ===== verification/Ranked_Props.thy ===== *)
theory Ranked_Props
  imports Tally Contracts
begin

text \<open>
  What the ranked count of elections/tally.py guarantees: the loop ends with every seat
  filled by a different candidate, the papers never carry more weight than the ballots
  brought in, a quota of weight is used up for each candidate elected on it, and a
  candidate with a majority of first preferences wins a single seat.
\<close>

section \<open>Tallies and weights\<close>

lemma tallies_Nil [simp]: "fst (current_tallies cs []) c = 0" "snd (current_tallies cs []) = 0"
  by simp_all

interpretation tallies: additive_count "\<lambda>ps (cs, c). fst (current_tallies cs ps) c"
  "\<lambda>(p, w) (cs, c). if top_choice cs p = Some c then w else 0"
  by unfold_locales (auto simp: case_prod_unfold)

definition total_weight :: "paper list \<Rightarrow> rat" where
  "total_weight ps = sum_list (map snd ps)"

interpretation weights: additive_count "\<lambda>ps (_::unit). total_weight ps" "\<lambda>(p, w) _. w"
  by unfold_locales (auto simp: total_weight_def)

definition weights_ok :: "paper list \<Rightarrow> bool" where
  "weights_ok ps \<longleftrightarrow> (\<forall>(p, w)\<in>set ps. 0 \<le> w \<and> w \<le> 1)"

lemma top_choice_in: "top_choice cs p = Some c \<Longrightarrow> c \<in> set cs"
  by (auto simp: top_choice_def find_Some_iff)

text \<open>Every paper counts for one candidate left in the count or is exhausted.\<close>

lemma tallies_total:
  assumes "distinct cs"
  shows "active_total (fst (current_tallies cs ps)) cs + snd (current_tallies cs ps) = total_weight ps"
proof (induction ps)
  case Nil
  then show ?case by (simp add: active_total_def total_weight_def)
next
  case (Cons x ps)
  obtain p w where x: "x = (p, w)" by fastforce
  have "(\<Sum>c\<leftarrow>cs. if top_choice cs p = Some c then w else 0) + (if top_choice cs p = None then w else 0) = w"
  proof (cases "top_choice cs p")
    case None
    then show ?thesis by simp
  next
    case (Some a)
    then have a: "a \<in> set cs" by (rule top_choice_in)
    have "(\<Sum>c\<leftarrow>cs. if a = c then w else 0) = (\<Sum>c\<in>set cs. if a = c then w else 0)"
      using assms by (rule sum_list_distinct_conv_sum_set)
    also have "\<dots> = w" using a by simp
    finally show ?thesis using Some by simp
  qed
  with Cons show ?case
    by (simp add: x active_total_def total_weight_def sum_list_addf o_def)
qed

lemma tally_nonneg: "weights_ok ps \<Longrightarrow> 0 \<le> fst (current_tallies cs ps) c"
proof -
  assume "weights_ok ps"
  then have "\<And>x. x \<in> set ps \<Longrightarrow> 0 \<le> (case x of (p, w) \<Rightarrow> \<lambda>(cs, c). if top_choice cs p = Some c then w else 0) (cs, c)"
    by (auto simp: weights_ok_def)
  from tallies.total_nonneg [OF this] show ?thesis by simp
qed

lemma exhausted_nonneg: "weights_ok ps \<Longrightarrow> 0 \<le> snd (current_tallies cs ps)"
  by (induction ps) (auto simp: weights_ok_def)

lemma two_tallies_le:
  assumes "weights_ok ps" and "distinct cs" and "a \<in> set cs" and "b \<in> set cs" and "a \<noteq> b"
  shows "fst (current_tallies cs ps) a + fst (current_tallies cs ps) b
    \<le> active_total (fst (current_tallies cs ps)) cs"
proof -
  let ?t = "fst (current_tallies cs ps)"
  have "sum ?t {a, b} \<le> sum ?t (set cs)"
    using assms tally_nonneg [OF assms(1)] by (intro sum_mono2) auto
  then show ?thesis
    using assms(5) by (simp add: active_total_def sum_list_distinct_conv_sum_set [OF assms(2)])
qed

text \<open>A transfer at ratio r takes the part 1 - r of the elected candidate's tally out of the count.\<close>

lemma transfer_weight:
  assumes "w \<in> set cs"
  shows "total_weight (transfer (filter (\<lambda>c. c \<noteq> w) cs) w r ps)
    = total_weight ps - (1 - r) * fst (current_tallies cs ps) w"
proof (induction ps)
  case Nil
  then show ?case by (simp add: transfer_def total_weight_def)
next
  case (Cons x ps)
  obtain p v where x: "x = (p, v)" by fastforce
  have "find (\<lambda>c. c \<in> set (filter (\<lambda>c. c \<noteq> w) cs) \<or> c = w) p = top_choice cs p"
    unfolding top_choice_def using assms by (intro find_cong) auto
  with Cons show ?case
    by (simp add: x transfer_def total_weight_def algebra_simps)
qed

lemma transfer_ok:
  assumes "weights_ok ps" and "0 \<le> r" and "r \<le> 1"
  shows "weights_ok (transfer still w r ps)"
proof -
  have "0 \<le> v * r \<and> v * r \<le> 1" if "0 \<le> v" "v \<le> 1" for v :: rat
    using that assms(2,3) mult_mono [of v 1 r 1] by simp
  with assms(1) show ?thesis by (fastforce simp: weights_ok_def transfer_def split: if_splits)
qed

section \<open>The invariant of the loop\<close>

text \<open>
  Candidates are partitioned into elected, eliminated and continuing; there are never
  more elected than seats nor too few left to fill them; papers carry what the ballots
  brought in less a quota for each candidate elected on the quota.
\<close>

definition quota_rounds :: "ranked_state \<Rightarrow> nat" where
  "quota_rounds st = length (filter (\<lambda>r. case round_outcome r of Elects _ _ \<Rightarrow> True | _ \<Rightarrow> False) (rounds st))"

definition partitioned :: "int set \<Rightarrow> ranked_params \<Rightarrow> ranked_state \<Rightarrow> bool" where
  "partitioned H P st \<longleftrightarrow>
     distinct (elected st @ eliminated st @ continuing st)
     \<and> set (elected st @ eliminated st @ continuing st) = H
     \<and> 0 \<le> seats_left P st \<and> seats_left P st \<le> int (length (continuing st))"

definition weighed :: "rat \<Rightarrow> ranked_params \<Rightarrow> ranked_state \<Rightarrow> bool" where
  "weighed valid P st \<longleftrightarrow>
     weights_ok (papers st) \<and> distinct (continuing st)
     \<and> total_weight (papers st)
         = valid - (case rp_quota P of None \<Rightarrow> 0 | Some q \<Rightarrow> q * of_nat (quota_rounds st))"

lemma quota_rounds_simps [simp]:
  "quota_rounds (fill_seats P t x st) = quota_rounds st"
  "quota_rounds (eliminate_last P t x st) = quota_rounds st"
  "quota_rounds (elect_leader P t x st) = Suc (quota_rounds st)"
  by (auto simp: quota_rounds_def fill_seats_def eliminate_last_def elect_leader_def snapshot_round_def
      Let_def split: option.splits prod.splits)

lemma ranked_round_forms:
  assumes "ranked_round P st = (stop, st')"
  obtains (fill) t x where "(t, x) = current_tallies (continuing st) (papers st)" "stop"
      "int (length (continuing st)) \<le> seats_left P st" "st' = fill_seats P t x st"
  | (elect) t x where "(t, x) = current_tallies (continuing st) (papers st)" "\<not> stop"
      "seats_left P st < int (length (continuing st))"
      "filter (reaches P t (continuing st)) (continuing st) \<noteq> []" "st' = elect_leader P t x st"
  | (eliminate) t x where "(t, x) = current_tallies (continuing st) (papers st)" "\<not> stop"
      "seats_left P st < int (length (continuing st))"
      "filter (reaches P t (continuing st)) (continuing st) = []" "st' = eliminate_last P t x st"
proof -
  obtain t x where tx: "current_tallies (continuing st) (papers st) = (t, x)" by fastforce
  consider "int (length (continuing st)) \<le> seats_left P st"
    | "seats_left P st < int (length (continuing st))" "filter (reaches P t (continuing st)) (continuing st) \<noteq> []"
    | "seats_left P st < int (length (continuing st))" "filter (reaches P t (continuing st)) (continuing st) = []"
    by linarith
  then show ?thesis
  proof cases
    case 1
    with assms tx show ?thesis by (intro fill [of t x]) (simp_all add: ranked_round_def)
  next
    case 2
    with assms tx show ?thesis by (intro elect [of t x]) (simp_all add: ranked_round_def)
  next
    case 3
    with assms tx show ?thesis by (intro eliminate [of t x]) (simp_all add: ranked_round_def)
  qed
qed

lemma distinct_length_filter: "distinct cs \<Longrightarrow> w \<in> set cs \<Longrightarrow> length (filter (\<lambda>c. c \<noteq> w) cs) = length cs - 1"
  by (metis card_Diff_singleton distinct_card distinct_filter filter_cong set_minus_filter_out)

lemma partitioned_step:
  assumes "partitioned H P st" and "continuing st \<noteq> []" and "0 < seats_left P st"
    and "ranked_round P st = (False, st')"
  shows "partitioned H P st'"
  using assms(4)
proof (cases rule: ranked_round_forms)
  case (elect t x)
  note w = leader_in [OF elect(4)]
  with assms(1) have "length (filter (\<lambda>c. c \<noteq> leader P t (continuing st)) (continuing st)) = length (continuing st) - 1"
    by (intro distinct_length_filter) (auto simp: partitioned_def)
  with elect w assms show ?thesis by (auto simp: partitioned_def seats_left_def)
next
  case (eliminate t x)
  note l = last_placed_in(1) [OF assms(2), of P t]
  with assms(1) have "length (filter (\<lambda>c. c \<noteq> last_placed P t (continuing st)) (continuing st)) = length (continuing st) - 1"
    by (intro distinct_length_filter) (auto simp: partitioned_def)
  with eliminate l assms show ?thesis by (auto simp: partitioned_def seats_left_def)
qed simp

lemma weighed_step:
  assumes "weighed v P st" and "ranked_round P st = (stop, st')" and "\<And>q. rp_quota P = Some q \<Longrightarrow> 0 \<le> q"
  shows "weighed v P st'"
  using assms(2)
proof (cases rule: ranked_round_forms)
  case (elect t x)
  let ?w = "leader P t (continuing st)"
  note w = leader_in [OF elect(4)]
  from elect(1) have t: "t = fst (current_tallies (continuing st) (papers st))" by (metis fst_conv)
  show ?thesis
  proof (cases "rp_quota P")
    case None
    with assms(1) elect show ?thesis by (simp add: weighed_def elect_leader_papers)
  next
    case (Some q)
    let ?r = "if q < t ?w then (t ?w - q) / t ?w else 0"
    from Some w have q: "0 \<le> q" "q \<le> t ?w" using assms(3) by (auto simp: reaches_def)
    then have r: "0 \<le> ?r" "?r \<le> 1" "(1 - ?r) * t ?w = q" by (auto simp: field_simps)
    have "papers st' = transfer (filter (\<lambda>c. c \<noteq> ?w) (continuing st)) ?w ?r (papers st)"
      using Some elect(5) by (simp add: elect_leader_papers Let_def)
    with w r assms(1) Some elect(5) show ?thesis
      by (simp add: weighed_def transfer_ok transfer_weight t [symmetric] algebra_simps)
  qed
qed (use assms(1) in \<open>auto simp: weighed_def split: option.splits\<close>)

text \<open>Where the loop stops: every seat is filled, by different candidates of the start.\<close>

lemma loop_partitioned:
  assumes "partitioned H P st" and "set (continuing st) \<subseteq> H"
  shows "int (length (elected (ranked_loop P st))) = rp_seats P \<and> distinct (elected (ranked_loop P st))
    \<and> set (elected (ranked_loop P st)) \<subseteq> H \<and> set (final_order (ranked_loop P st)) = H"
  using assms
proof (induction P st rule: ranked_loop.induct)
  case (1 P st)
  show ?case
  proof (cases "continuing st \<noteq> [] \<and> 0 < seats_left P st")
    case False
    with "1.prems" show ?thesis
      by (auto simp: ranked_loop.simps [of P st] partitioned_def seats_left_def final_order_def)
  next
    case True
    obtain stop st' where step: "ranked_round P st = (stop, st')" by fastforce
    show ?thesis
    proof (cases stop)
      case stopped: True
      from step "1.prems" True stopped show ?thesis
      proof (cases rule: ranked_round_forms)
        case (fill t x)
        with True step "1.prems" show ?thesis
          by (auto simp: ranked_loop.simps [of P st] partitioned_def seats_left_def final_order_def)
      qed simp_all
    next
      case False
      with step True "1.prems" have part: "partitioned H P st'" by (auto intro: partitioned_step)
      from part have "set (continuing st') \<subseteq> H" by (auto simp: partitioned_def)
      with part "1.IH" [OF True step [symmetric]] False True step show ?thesis
        by (simp add: ranked_loop.simps [of P st])
    qed
  qed
qed

lemma loop_weighed:
  assumes "weighed v P st" and "\<And>q. rp_quota P = Some q \<Longrightarrow> 0 \<le> q"
  shows "weighed v P (ranked_loop P st)"
  using assms
proof (induction P st rule: ranked_loop.induct)
  case (1 P st)
  show ?case
  proof (cases "continuing st \<noteq> [] \<and> 0 < seats_left P st")
    case False
    with "1.prems" show ?thesis by (auto simp: ranked_loop.simps [of P st])
  next
    case True
    obtain stop st' where step: "ranked_round P st = (stop, st')" by fastforce
    from weighed_step [OF "1.prems"(1) step "1.prems"(2)] have "weighed v P st'" .
    with True step "1.IH" [OF True step [symmetric]] "1.prems"(2) show ?thesis
      by (cases stop) (simp_all add: ranked_loop.simps [of P st])
  qed
qed

section \<open>The start of the count\<close>

lemma initial_papers_props:
  "p \<in> set (fst (initial_papers H xs)) \<Longrightarrow> snd p = 1 \<and> fst p \<noteq> [] \<and> set (fst p) \<subseteq> set H"
  by (induction xs) (auto simp: Let_def case_prod_unfold split: if_splits)

lemma initial_papers_length:
  "int (length (fst (initial_papers H xs))) + snd (initial_papers H xs) = int (length xs)"
  by (induction xs) (auto simp: Let_def case_prod_unfold)

lemma initial_total: "total_weight (fst (initial_papers H xs)) = of_nat (length (fst (initial_papers H xs)))"
  by (induction xs) (auto simp: total_weight_def Let_def case_prod_unfold)

definition start_params where
  "start_params sha order xs cs n seed = fst (ranked_start sha order xs cs n seed)"

definition start_state where
  "start_state sha order xs cs n seed = fst (snd (ranked_start sha order xs cs n seed))"

lemma start_fields:
  "elected (start_state sha order xs cs n seed) = []"
  "eliminated (start_state sha order xs cs n seed) = []"
  "rounds (start_state sha order xs cs n seed) = []"
  "tie_breaks (start_state sha order xs cs n seed) = []"
  "continuing (start_state sha order xs cs n seed) = order (map cid cs)"
  "papers (start_state sha order xs cs n seed) = fst (initial_papers (order (map cid cs)) xs)"
  "rp_seats (start_params sha order xs cs n seed) =
     (if order (map cid cs) \<noteq> [] then max 1 (min n (int (length (order (map cid cs))))) else 0)"
  "rp_quota (start_params sha order xs cs n seed) =
     (if 1 < rp_seats (start_params sha order xs cs n seed)
      then Some (of_nat (length (fst (initial_papers (order (map cid cs)) xs)))
                 / of_int (rp_seats (start_params sha order xs cs n seed) + 1)) else None)"
  by (simp_all add: start_state_def start_params_def ranked_start_def case_prod_unfold Let_def)

definition seats_of :: "cand list \<Rightarrow> int \<Rightarrow> int" where
  "seats_of cs n = (if cs = [] then 0 else max 1 (min n (int (card (cid ` set cs)))))"

lemma order_props:
  assumes "set_order_ok order"
  shows "distinct (order ids)" "set (order ids) = set ids" "length (order ids) = card (set ids)"
    "order ids = [] \<longleftrightarrow> ids = []"
  using assms distinct_card [of "order ids"] by (auto simp: set_order_ok_def dest: arg_cong [of _ _ set])

lemma start_seats: "set_order_ok order \<Longrightarrow> rp_seats (start_params sha order xs cs n seed) = seats_of cs n"
  by (simp add: start_fields seats_of_def order_props)

lemma start_partitioned:
  assumes "set_order_ok order"
  shows "partitioned (cid ` set cs) (start_params sha order xs cs n seed) (start_state sha order xs cs n seed)"
  unfolding partitioned_def seats_left_def
  using assms by (auto simp: start_fields order_props Suc_leI card_gt_0_iff)

lemma start_weighed:
  assumes "set_order_ok order"
  shows "weighed (of_nat (length (papers (start_state sha order xs cs n seed))))
    (start_params sha order xs cs n seed) (start_state sha order xs cs n seed)"
  using assms initial_papers_props [of _ "order (map cid cs)" xs]
  by (force simp: weighed_def weights_ok_def start_fields order_props initial_total quota_rounds_def
      split: option.splits)

lemma start_quota_nonneg: "rp_quota (start_params sha order xs cs n seed) = Some q \<Longrightarrow> 0 \<le> q"
  by (subst (asm) start_fields(8)) (auto split: if_splits)

definition ranked_final where
  "ranked_final sha order xs cs n seed =
     ranked_loop (start_params sha order xs cs n seed) (start_state sha order xs cs n seed)"

lemma ranked_fields:
  "res_winners (ranked sha order xs cs n seed) = map CId (elected (ranked_final sha order xs cs n seed))"
  "map row_id (res_rows (ranked sha order xs cs n seed)) = map CId (final_order (ranked_final sha order xs cs n seed))"
  "res_valid (ranked sha order xs cs n seed) = int (length (papers (start_state sha order xs cs n seed)))"
  "res_ties (ranked sha order xs cs n seed) = []"
  "\<exists>a b c d. res_details (ranked sha order xs cs n seed) =
     Ranked_details a b c d (tie_breaks (ranked_final sha order xs cs n seed))"
proof -
  have ids: "map row_id (ranked_rows i f ks) = map CId ks" if "\<And>i k. row_id (f i k) = CId k" for i f ks
    using that by (induction ks arbitrary: i) auto
  show "map row_id (res_rows (ranked sha order xs cs n seed)) = map CId (final_order (ranked_final sha order xs cs n seed))"
    by (simp add: ranked_def ranked_final_def start_params_def start_state_def case_prod_unfold Let_def ids)
qed (simp_all add: ranked_def ranked_final_def start_params_def start_state_def case_prod_unfold Let_def)

section \<open>Properties\<close>

lemma ranked_fills_seats_count:
  assumes "set_order_ok order"
  shows "int (length (res_winners (ranked sha order xs cs n seed))) = seats_of cs n"
proof -
  have "set (continuing (start_state sha order xs cs n seed)) \<subseteq> cid ` set cs"
    using assms by (simp add: start_fields order_props)
  from loop_partitioned [OF start_partitioned [OF assms] this] show ?thesis
    unfolding ranked_fields ranked_final_def by (simp add: start_seats [OF assms])
qed

text \<open>
  C1: The ranked count terminates with every seat filled: as many winners as there are
  seats (at least one, at most the number of candidates), all different, all candidates;
  and every candidate has a row in the result.
\<close>

theorem ranked_fills_seats:
  assumes "set_order_ok order"
  shows "int (length (res_winners (ranked sha order xs cs n seed))) = seats_of cs n
    \<and> distinct (res_winners (ranked sha order xs cs n seed))
    \<and> set (res_winners (ranked sha order xs cs n seed)) \<subseteq> (CId \<circ> cid) ` set cs
    \<and> set (map row_id (res_rows (ranked sha order xs cs n seed))) = (CId \<circ> cid) ` set cs"
proof -
  have "set (continuing (start_state sha order xs cs n seed)) \<subseteq> cid ` set cs"
    using assms by (simp add: start_fields order_props)
  from loop_partitioned [OF start_partitioned [OF assms] this] show ?thesis
    unfolding ranked_fields ranked_final_def
    by (auto simp: start_seats [OF assms] distinct_map inj_on_def image_comp)
qed

text \<open>
  C3: The papers of a ranked count never carry more than one vote each, and in a count
  with a quota the weight left at the end is the number of valid ballots less one quota
  for every candidate elected on the quota.
\<close>

theorem ranked_conserves_weight:
  assumes "set_order_ok order"
  shows "weights_ok (papers (ranked_final sha order xs cs n seed))
    \<and> total_weight (papers (ranked_final sha order xs cs n seed))
      = of_int (res_valid (ranked sha order xs cs n seed))
        - (case rp_quota (start_params sha order xs cs n seed) of None \<Rightarrow> 0
           | Some q \<Rightarrow> q * of_nat (quota_rounds (ranked_final sha order xs cs n seed)))"
  using loop_weighed [OF start_weighed [OF assms], of sha xs cs n seed] start_quota_nonneg
  unfolding weighed_def ranked_final_def [symmetric] ranked_fields by (simp add: start_quota_nonneg)

text \<open>The number of ballots whose first preference among the candidates is c.\<close>

definition first_preferences :: "cand list \<Rightarrow> choice list \<Rightarrow> int \<Rightarrow> nat" where
  "first_preferences cs xs c = count_where (\<lambda>x. find (\<lambda>k. k \<in> cid ` set cs) (marks_of x) = Some c) xs"

lemma find_hd_filter: "find P xs = (case filter P xs of [] \<Rightarrow> None | y # _ \<Rightarrow> Some y)"
  by (induction xs) auto

lemma initial_tally:
  assumes "set H = cid ` set cs" and "set K = set H"
  shows "fst (current_tallies K (fst (initial_papers H xs))) c = of_nat (first_preferences cs xs c)"
proof (induction xs)
  case Nil
  then show ?case by (simp add: first_preferences_def)
next
  case (Cons x xs)
  let ?f = "filter (\<lambda>c. c \<in> set H) (marks_of x)"
  have top: "top_choice K ?f = find (\<lambda>k. k \<in> cid ` set cs) (marks_of x)"
    unfolding top_choice_def find_hd_filter assms(2) assms(1) [symmetric] by (simp add: filter_filter)
  show ?case
  proof (cases "?f = []")
    case True
    then have "find (\<lambda>k. k \<in> cid ` set cs) (marks_of x) = None"
      unfolding find_hd_filter assms(1) [symmetric] by simp
    with True Cons show ?thesis by (simp add: first_preferences_def Let_def case_prod_unfold)
  next
    case False
    with Cons top show ?thesis by (simp add: first_preferences_def Let_def case_prod_unfold)
  qed
qed

text \<open>
  In a count for one seat, a candidate who is the first preference on more than half
  of the valid ballots is the winner.
\<close>

theorem irv_majority_wins:
  assumes order: "set_order_ok order" and c: "c \<in> cid ` set cs" and n: "n \<le> 1"
    and maj: "res_valid (ranked sha order xs cs n seed) < 2 * int (first_preferences cs xs c)"
  shows "res_winners (ranked sha order xs cs n seed) = [CId c]"
proof -
  let ?P = "start_params sha order xs cs n seed" and ?s = "start_state sha order xs cs n seed"
  let ?H = "order (map cid cs)"
  define t where "t = fst (current_tallies (continuing ?s) (papers ?s))"
  have H: "set ?H = cid ` set cs" "distinct ?H" "?H \<noteq> []"
    using order c by (auto simp: order_props)
  from c have ne: "cs \<noteq> []" "0 < card (cid ` set cs)" by (auto simp: card_gt_0_iff)
  have seats: "rp_seats ?P = 1" using n ne by (simp add: start_seats [OF order] seats_of_def)
  then have quota: "rp_quota ?P = None" by (simp add: start_fields(8))
  have t: "t k = of_nat (first_preferences cs xs k)" for k
    unfolding t_def start_fields by (rule initial_tally) (simp_all add: H)
  obtain stop s' where step: "ranked_round ?P ?s = (stop, s')" by fastforce
  have loop: "continuing ?s \<noteq> [] \<and> 0 < seats_left ?P ?s"
    using H seats by (simp add: start_fields seats_left_def)
  from start_weighed [OF order, of sha xs cs n seed] quota have w: "weights_ok (papers ?s)"
    and total: "total_weight (papers ?s) = of_nat (length (papers ?s))"
    by (simp_all add: weighed_def)
  have exhausted: "0 \<le> snd (current_tallies (continuing ?s) (papers ?s))"
    by (rule exhausted_nonneg [OF w])
  have half: "active_total t (continuing ?s) / 2 < t c"
  proof -
    have "active_total t (continuing ?s) \<le> of_nat (length (papers ?s))"
      using tallies_total [of "continuing ?s" "papers ?s"] H exhausted total
      by (simp add: start_fields t_def)
    moreover have "(of_int (int (length (papers ?s))) :: rat) < of_int (2 * int (first_preferences cs xs c))"
      using maj unfolding ranked_fields of_int_less_iff .
    ultimately show ?thesis by (simp add: t)
  qed
  have c_in: "c \<in> set (continuing ?s)" using H c by (simp add: start_fields)
  have reach: "reaches ?P t (continuing ?s) c" using half quota by (simp add: reaches_def)
  from step have "elected s' = [c] \<and> (stop \<or> seats_left ?P s' = 0)"
  proof (cases rule: ranked_round_forms)
    case (fill t' x)
    then have "length (continuing ?s) \<le> 1" using seats by (simp add: seats_left_def start_fields)
    with c_in have "continuing ?s = [c]" by (cases "continuing ?s") auto
    with fill show ?thesis by (simp add: start_fields)
  next
    case (elect t' x)
    from elect(1) have t': "t' = t" by (metis fst_conv t_def)
    have "leader ?P t (continuing ?s) = c"
    proof (rule ccontr)
      assume ne: "leader ?P t (continuing ?s) \<noteq> c"
      note l = leader_in [OF elect(4) [unfolded t']]
      have "t (leader ?P t (continuing ?s)) + t c \<le> active_total t (continuing ?s)"
        unfolding t_def by (rule two_tallies_le [OF w]) (use l c_in ne H in \<open>auto simp: start_fields t_def\<close>)
      with leader_best [OF c_in reach] half show False by linarith
    qed
    with elect t' seats show ?thesis by (simp add: start_fields seats_left_def)
  next
    case (eliminate t' x)
    from eliminate(1) have "t' = t" by (metis fst_conv t_def)
    with eliminate(4) reach c_in show ?thesis by (simp add: filter_empty_conv)
  qed
  then have "elected (ranked_loop ?P ?s) = [c]"
    using loop step by (cases stop) (auto simp: ranked_loop.simps [of ?P ?s] ranked_loop.simps [of ?P s'])
  then show ?thesis by (simp add: ranked_fields ranked_final_def)
qed

text \<open>
  When the candidates left are no more than the seats left, they fill the seats but
  stay in the count, so the result lists them twice: a count with no more candidates than
  seats has two rows for every candidate.
\<close>

theorem ranked_rows_repeat_filled:
  assumes order: "set_order_ok order" and "cs \<noteq> []" and "int (card (cid ` set cs)) \<le> n"
  shows "length (res_rows (ranked sha order xs cs n seed)) = 2 * card (cid ` set cs)
    \<and> \<not> distinct (map row_id (res_rows (ranked sha order xs cs n seed)))"
proof -
  let ?P = "start_params sha order xs cs n seed" and ?s = "start_state sha order xs cs n seed"
  have card: "0 < card (cid ` set cs)" using assms(2) by (simp add: card_gt_0_iff)
  have seats: "seats_left ?P ?s = int (card (cid ` set cs))"
    using assms card start_seats [OF order, of sha xs cs n seed]
    by (simp add: seats_left_def seats_of_def start_fields(1))
  have cont: "length (continuing ?s) = card (cid ` set cs)"
    using order by (simp add: start_fields order_props)
  define t where "t = fst (current_tallies (continuing ?s) (papers ?s))"
  define x where "x = snd (current_tallies (continuing ?s) (papers ?s))"
  have step: "ranked_round ?P ?s = (True, fill_seats ?P t x ?s)"
    by (simp add: ranked_round_def case_prod_unfold Let_def seats cont t_def x_def)
  have ne: "continuing ?s \<noteq> []" using cont card by auto
  have "0 < seats_left ?P ?s" using seats card by simp
  with step ne have final: "ranked_final sha order xs cs n seed = fill_seats ?P t x ?s"
    by (simp add: ranked_final_def ranked_loop.simps [of ?P ?s])
  then have ids: "map row_id (res_rows (ranked sha order xs cs n seed)) =
      map CId (sort_key (by_tally ?P t) (continuing ?s)
        @ sort_key (\<lambda>c. - fst (current_tallies (continuing ?s) (papers ?s)) c) (continuing ?s))"
    by (simp add: ranked_fields final_order_def start_fields)
  have "length (res_rows (ranked sha order xs cs n seed))
      = length (map row_id (res_rows (ranked sha order xs cs n seed)))"
    by simp
  then have "length (res_rows (ranked sha order xs cs n seed)) = 2 * card (cid ` set cs)"
    unfolding ids by (simp only: length_map length_append length_sort cont mult_2)
  moreover have "\<not> distinct (map row_id (res_rows (ranked sha order xs cs n seed)))"
    unfolding ids map_append distinct_append using ne by simp
  ultimately show ?thesis by simp
qed

section \<open>Worked examples\<close>

definition ex_three :: "cand list" where
  "ex_three = [\<lparr>cid = 1, cname = ''Ama''\<rparr>, \<lparr>cid = 2, cname = ''Kofi''\<rparr>, \<lparr>cid = 3, cname = ''Esi''\<rparr>]"

definition ex_even :: "choice list" where
  "ex_even = [Some (Marks [1]), Some (Marks [2]), Some (Marks [3])]"

lemma remdups_order_ok: "set_order_ok remdups"
  by (simp add: set_order_ok_def)

text \<open>
  A seat of a multi-seat count can be decided by lot without the result saying so:
  three candidates with one first preference each all stand on the quota of a two-seat
  count, two of them are elected in the order of the lot, and neither the ties nor the
  tie breaks of the result mention it, whatever the lot is.
\<close>

theorem stv_lot_unreported:
  "first_preferences ex_three ex_even 1 = 1 \<and> first_preferences ex_three ex_even 2 = 1
   \<and> first_preferences ex_three ex_even 3 = 1
   \<and> length (res_winners (ranked sha remdups ex_even ex_three 2 seed)) = 2
   \<and> res_ties (ranked sha remdups ex_even ex_three 2 seed) = []
   \<and> (\<exists>a b c d. res_details (ranked sha remdups ex_even ex_three 2 seed) = Ranked_details a b c d [])"
proof -
  let ?P = "start_params sha remdups ex_even ex_three 2 seed"
  let ?s = "start_state sha remdups ex_even ex_three 2 seed"
  have H: "remdups (map cid ex_three) = [1, 2, 3]" by (simp add: ex_three_def)
  have papers0: "papers ?s = [([1], 1), ([2], 1), ([3], 1)]"
    by (simp add: start_fields H ex_even_def)
  have seats: "rp_seats ?P = 2" by (simp add: start_fields H)
  then have quota: "rp_quota ?P = Some 1"
    using papers0 by (simp add: start_fields)
  have t0: "fst (current_tallies [1, 2, 3] [([1], 1), ([2], 1), ([3], 1)]) c = (if c \<in> {1, 2, 3} then 1 else 0)" for c
    by (simp add: top_choice_def)
  obtain w where w: "ranked_round ?P ?s = (False, w)" "tie_breaks w = []"
    "seats_left ?P w = 1" "\<exists>a\<in>{1, 2, 3}. continuing w = filter (\<lambda>c. c \<noteq> a) [1, 2, 3]
       \<and> papers w = map (\<lambda>c. ([c], if c = a then 0 else 1)) [1, 2, 3]"
  proof -
    obtain stop s' where step: "ranked_round ?P ?s = (stop, s')" by fastforce
    then show ?thesis
    proof (cases rule: ranked_round_forms)
      case (fill t x)
      then show ?thesis using seats by (simp add: start_fields H seats_left_def)
    next
      case (elect t x)
      have t: "t c = (if c \<in> {1, 2, 3} then 1 else 0)" for c
        using elect(1) t0 papers0 by (metis H fst_conv start_fields(5))
      let ?l = "leader ?P t (continuing ?s)"
      from leader_in [OF elect(4)] have l: "?l \<in> {1, 2, 3}" by (simp add: start_fields H)
      then have "t ?l = 1" by (simp add: t)
      then have "papers s' = transfer (filter (\<lambda>c. c \<noteq> ?l) [1, 2, 3]) ?l 0 [([1], 1), ([2], 1), ([3], 1)]"
        using elect(5) quota papers0 by (simp add: elect_leader_papers start_fields H Let_def)
      with l have "papers s' = map (\<lambda>c. ([c], if c = ?l then 0 else 1)) [1, 2, 3]"
        by (auto simp: transfer_def)
      with elect step l show ?thesis
        by (intro that [of s']) (auto simp: start_fields seats_left_def seats H)
    next
      case (eliminate t x)
      have "t 1 = 1" using eliminate(1) t0 papers0 by (metis H fst_conv insertI1 start_fields(5))
      with eliminate(4) quota show ?thesis by (simp add: start_fields H reaches_def split: if_splits)
    qed
  qed
  obtain stop v where step: "ranked_round ?P w = (stop, v)" by fastforce
  then have v: "\<not> stop \<and> tie_breaks v = [] \<and> seats_left ?P v = 0"
  proof (cases rule: ranked_round_forms)
    case (eliminate t x)
    then have "t = fst (current_tallies (continuing w) (papers w))" by (metis fst_conv)
    with w(4) eliminate(4) quota show ?thesis
      by (auto simp: reaches_def top_choice_def split: if_splits)
  qed (use w in \<open>auto simp: seats_left_def\<close>)
  have "continuing w \<noteq> []" using w(4) by auto
  then have "ranked_final sha remdups ex_even ex_three 2 seed = v"
    using w step v seats by (simp add: ranked_final_def ranked_loop.simps [of ?P ?s]
        ranked_loop.simps [of ?P w] ranked_loop.simps [of ?P v] start_fields H seats_left_def)
  with v have "tie_breaks (ranked_final sha remdups ex_even ex_three 2 seed) = []" by simp
  moreover have "length (res_winners (ranked sha remdups ex_even ex_three 2 seed)) = 2"
    using ranked_fills_seats_count [OF remdups_order_ok, of sha ex_even ex_three 2 seed]
    by (simp add: seats_of_def ex_three_def)
  moreover have "first_preferences ex_three ex_even 1 = 1 \<and> first_preferences ex_three ex_even 2 = 1
      \<and> first_preferences ex_three ex_even 3 = 1"
    by (simp add: first_preferences_def ex_three_def ex_even_def)
  ultimately show ?thesis
    using ranked_fields(4,5) by metis
qed

theorem ranked_fills_seats_witness:
  "length (res_winners (ranked (\<lambda>s. s) remdups ex_even ex_three 2 ''7'')) = 2"
  using ranked_fills_seats [OF remdups_order_ok, of "\<lambda>s. s" ex_even ex_three 2 "''7''"]
  by (simp add: seats_of_def ex_three_def)

theorem ranked_conserves_weight_witness:
  "weights_ok (papers (ranked_final (\<lambda>s. s) remdups ex_even ex_three 2 ''7''))"
  using ranked_conserves_weight [OF remdups_order_ok] by blast

theorem irv_majority_wins_witness:
  "res_winners (ranked (\<lambda>s. s) remdups [Some (Marks [2, 1]), Some (Marks [2]), Some (Marks [3])] ex_three 1 ''7'') = [CId 2]"
proof (rule irv_majority_wins [OF remdups_order_ok])
  have "first_preferences ex_three [Some (Marks [2, 1]), Some (Marks [2]), Some (Marks [3])] 2 = 2"
    by (simp add: first_preferences_def ex_three_def)
  then show "res_valid (ranked (\<lambda>s. s) remdups [Some (Marks [2, 1]), Some (Marks [2]), Some (Marks [3])] ex_three 1 ''7'')
      < 2 * int (first_preferences ex_three [Some (Marks [2, 1]), Some (Marks [2]), Some (Marks [3])] 2)"
    by (simp add: ranked_fields start_fields ex_three_def)
qed (simp_all add: ex_three_def)

theorem ranked_rows_repeat_filled_witness:
  "length (res_rows (ranked (\<lambda>s. s) remdups ex_even ex_three 3 ''7'')) = 6"
  using ranked_rows_repeat_filled [OF remdups_order_ok, of ex_three 3 "\<lambda>s. s" ex_even "''7''"]
  by (simp add: ex_three_def)

end
