(* ===== verification/Json.thy ===== *)
theory Json
  imports Prelude
begin

text \<open>
  JSON values and core/crypto.py's \<open>canonical_json\<close>, the encoding of everything that is
  hashed, signed or sealed: keys sorted, no white space, text as UTF-8 bytes with only
  the quote, the backslash and the control characters escaped. The objects are Python
  dictionaries with text keys, in insertion order.

  The parameter \<open>repr\<close> is Python's text of a finite float; \<open>repr_ok\<close> says what the
  language promises of it. The main lemma is that two values with the same encoding are
  the same value up to the order of their keys, so that a hash over the encoding is a hash
  of the value.
\<close>

section \<open>Values\<close>

datatype py_float = Fin rat | Pos_Inf | Neg_Inf | Nan

datatype json =
    JNull
  | JBool bool
  | JInt int
  | JFloat py_float
  | JStr string
  | JList "json list"
  | JObj "(string \<times> json) list"

definition js_get :: "(string \<times> 'a) list \<Rightarrow> string \<Rightarrow> 'a option" where
  "js_get kvs k = map_of kvs k"

text \<open>\<open>d[key] = value\<close>: an existing key keeps its place.\<close>

definition js_put :: "string \<Rightarrow> 'a \<Rightarrow> (string \<times> 'a) list \<Rightarrow> (string \<times> 'a) list" where
  "js_put k v kvs =
     (if k \<in> fst ` set kvs then map (\<lambda>(k', v'). (k', if k' = k then v else v')) kvs else kvs @ [(k, v)])"

section \<open>Encoding\<close>

fun hex_digit :: "nat \<Rightarrow> char" where
  "hex_digit d = (if d < 10 then char_of (48 + d) else char_of (87 + d))"

definition short_escape :: "char \<Rightarrow> char option" where
  "short_escape c =
     (if c = CHR 0x22 then Some (CHR 0x22) else if c = CHR 0x5C then Some (CHR 0x5C)
      else if c = CHR 0x0A then Some (CHR ''n'') else if c = CHR 0x0D then Some (CHR ''r'')
      else if c = CHR 0x09 then Some (CHR ''t'') else if c = CHR 0x08 then Some (CHR ''b'')
      else if c = CHR 0x0C then Some (CHR ''f'') else None)"

definition escape :: "char \<Rightarrow> string" where
  "escape c =
     (case short_escape c of
        Some x \<Rightarrow> [CHR 0x5C, x]
      | None \<Rightarrow>
          (let n = (of_char c :: nat)
           in if n < 32 then [CHR 0x5C, CHR ''u'', CHR ''0'', CHR ''0'', hex_digit (n div 16), hex_digit (n mod 16)]
              else [c]))"

definition quoted :: "string \<Rightarrow> string" where
  "quoted s = CHR 0x22 # concat (map escape s) @ [CHR 0x22]"

fun joined :: "string list \<Rightarrow> string" where
  "joined [] = []"
| "joined [x] = x"
| "joined (x # y # ys) = x @ CHR '','' # joined (y # ys)"

fun float_text :: "(rat \<Rightarrow> string) \<Rightarrow> py_float \<Rightarrow> string" where
  "float_text repr (Fin r) = repr r"
| "float_text repr Pos_Inf = ''Infinity''"
| "float_text repr Neg_Inf = ''-Infinity''"
| "float_text repr Nan = ''NaN''"

fun render :: "(rat \<Rightarrow> string) \<Rightarrow> json \<Rightarrow> string" where
  "render repr JNull = ''null''"
| "render repr (JBool b) = (if b then ''true'' else ''false'')"
| "render repr (JInt i) = str_int i"
| "render repr (JFloat x) = float_text repr x"
| "render repr (JStr s) = quoted s"
| "render repr (JList xs) = CHR ''['' # joined (map (render repr) xs) @ '']''"
| "render repr (JObj kvs) =
     CHR ''{'' # joined (map (\<lambda>(k, v). quoted k @ CHR '':'' # render repr v) kvs) @ ''}''"

fun sort_keys :: "json \<Rightarrow> json" where
  "sort_keys (JList xs) = JList (map sort_keys xs)"
| "sort_keys (JObj kvs) = JObj (sort_key fst (map (\<lambda>(k, v). (k, sort_keys v)) kvs))"
| "sort_keys j = j"

definition canonical_json :: "(rat \<Rightarrow> string) \<Rightarrow> json \<Rightarrow> string" where
  "canonical_json repr j = render repr (sort_keys j)"

section \<open>The encoding determines the value\<close>

definition number_chars :: "char set" where
  "number_chars = Collect is_digit \<union> set ''+-.e''"

definition repr_ok :: "(rat \<Rightarrow> string) \<Rightarrow> bool" where
  "repr_ok repr \<longleftrightarrow> inj repr \<and>
     (\<forall>r. set (repr r) \<subseteq> number_chars \<and> (CHR ''.'' \<in> set (repr r) \<or> CHR ''e'' \<in> set (repr r)))"

definition token_char :: "char \<Rightarrow> bool" where
  "token_char c \<longleftrightarrow> c \<in> number_chars \<union> set ''nulltruefalseInfinityNaN''"

definition delimiter :: "string \<Rightarrow> bool" where
  "delimiter r \<longleftrightarrow> r = [] \<or> hd r \<in> {CHR '','', CHR '']'', CHR ''}''}"

lemma escape_cases:
  obtains (short) x where "escape c = [CHR 0x5C, x]" "short_escape c = Some x"
  | (ctrl) "escape c = [CHR 0x5C, CHR ''u'', CHR ''0'', CHR ''0'', hex_digit (of_char c div 16), hex_digit (of_char c mod 16)]"
      "(of_char c :: nat) < 32"
  | (plain) "escape c = [c]" "c \<noteq> CHR 0x5C" "c \<noteq> CHR 0x22"
proof (cases "short_escape c")
  case None
  then have "c \<noteq> CHR 0x5C" "c \<noteq> CHR 0x22" by (auto simp: short_escape_def)
  with None that(2,3) show ?thesis by (cases "(of_char c :: nat) < 32") (simp_all add: escape_def Let_def del: hex_digit.simps)
qed (use that(1) in \<open>simp add: escape_def\<close>)

lemma short_escape_props:
  "short_escape a = Some x \<Longrightarrow> short_escape b = Some x \<Longrightarrow> a = b"
  "short_escape a \<noteq> Some (CHR ''u'')"
  unfolding short_escape_def by (auto split: if_splits)

lemma hex_digit_inj: "hex_digit d = hex_digit e \<Longrightarrow> d < 16 \<Longrightarrow> e < 16 \<Longrightarrow> d = e"
proof -
  assume h: "hex_digit d = hex_digit e" "d < 16" "e < 16"
  from h(1) have "(of_char (hex_digit d) :: nat) = of_char (hex_digit e)" by (rule arg_cong)
  with h(2,3) show "d = e" by (simp split: if_splits)
qed

declare hex_digit.simps [simp del]

lemma escape_inj: "escape a @ x = escape b @ y \<Longrightarrow> a = b \<and> x = y"
proof -
  assume eq: "escape a @ x = escape b @ y"
  show ?thesis
  proof (cases a rule: escape_cases)
    case a: (short u)
    show ?thesis
      by (cases b rule: escape_cases) (use eq a short_escape_props in auto)
  next
    case a: ctrl
    show ?thesis
    proof (cases b rule: escape_cases)
      case b: ctrl
      from eq a(1) b(1) have h: "hex_digit (of_char a div 16) = hex_digit (of_char b div 16)"
        "hex_digit (of_char a mod 16) = hex_digit (of_char b mod 16)" "x = y" by auto
      have "(of_char a :: nat) div 16 = of_char b div 16" "(of_char a :: nat) mod 16 = of_char b mod 16"
        using hex_digit_inj [OF h(1)] hex_digit_inj [OF h(2)] a(2) b(2) by auto
      then have "(of_char a :: nat) = of_char b" by (metis div_mult_mod_eq)
      with h(3) show ?thesis by simp
    qed (use eq a short_escape_props in auto)
  next
    case a: plain
    show ?thesis
      by (cases b rule: escape_cases) (use eq a in auto)
  qed
qed

lemma escape_not_quote: "escape c @ x \<noteq> CHR 0x22 # y"
  by (cases c rule: escape_cases) auto

lemma escaped_inj:
  "concat (map escape s) @ CHR 0x22 # r = concat (map escape t) @ CHR 0x22 # r' \<Longrightarrow> s = t \<and> r = r'"
proof (induction s arbitrary: t)
  case Nil
  then show ?case by (cases t) (auto simp: escape_not_quote escape_not_quote [THEN not_sym])
next
  case (Cons c s)
  show ?case
  proof (cases t)
    case Nil
    with Cons.prems show ?thesis by (auto simp: escape_not_quote)
  next
    case (Cons d u)
    with Cons.prems have "escape c @ concat (map escape s) @ CHR 0x22 # r
        = escape d @ concat (map escape u) @ CHR 0x22 # r'" by simp
    with escape_inj Cons.IH [of u] Cons show ?thesis by blast
  qed
qed

lemma quoted_inj: "quoted s @ r = quoted t @ r' \<Longrightarrow> s = t \<and> r = r'"
  by (rule escaped_inj) (simp add: quoted_def)

text \<open>The values that are written as a bare token.\<close>

fun atomic :: "json \<Rightarrow> bool" where
  "atomic JNull = True"
| "atomic (JBool _) = True"
| "atomic (JInt _) = True"
| "atomic (JFloat _) = True"
| "atomic _ = False"

lemma str_int_chars: "c \<in> set (str_int i) \<Longrightarrow> is_digit c \<or> c = CHR ''-''"
  by (auto simp: str_int_def dest: str_nat_digits split: if_splits)

lemma str_int_nonempty: "str_int i \<noteq> []"
  by (simp add: str_int_def str_nat_nonempty)

lemma repr_props:
  assumes "repr_ok repr"
  shows "repr r \<noteq> []" "set (repr r) \<subseteq> number_chars" "repr r = repr q \<longleftrightarrow> r = q" "repr r \<noteq> str_int i"
proof -
  have "CHR ''.'' \<in> set (repr r) \<or> CHR ''e'' \<in> set (repr r)" "set (repr r) \<subseteq> number_chars"
    using assms by (auto simp: repr_ok_def)
  then show "repr r \<noteq> []" "set (repr r) \<subseteq> number_chars" "repr r \<noteq> str_int i"
    using str_int_chars [of "CHR ''.''" i] str_int_chars [of "CHR ''e''" i] by (auto simp: is_digit_def)
  show "repr r = repr q \<longleftrightarrow> r = q" using assms by (auto simp: repr_ok_def inj_def)
qed

lemma atomic_text:
  assumes "repr_ok repr" and "atomic j"
  shows "render repr j \<noteq> []" "c \<in> set (render repr j) \<Longrightarrow> token_char c"
proof -
  have n: "c \<in> number_chars \<Longrightarrow> token_char c" for c by (simp add: token_char_def)
  have i: "c \<in> set (str_int i) \<Longrightarrow> token_char c" for c i
    by (intro n) (auto simp: number_chars_def dest: str_int_chars)
  have f0: "float_text repr x \<noteq> []" for x
    using repr_props(1) [OF assms(1)] by (cases x) simp_all
  have q: "c \<in> set (repr r) \<Longrightarrow> token_char c" for c r
    using repr_props(2) [OF assms(1), of r] n by blast
  have f: "c \<in> set (float_text repr x) \<Longrightarrow> token_char c" for c x
  proof (cases x)
    case Fin
    then show "c \<in> set (float_text repr x) \<Longrightarrow> token_char c" using q by simp
  qed (auto simp: token_char_def number_chars_def)
  show "render repr j \<noteq> []"
    using assms(2) f0 by (cases j) (simp_all add: str_int_nonempty)
  show "c \<in> set (render repr j) \<Longrightarrow> token_char c"
    using assms(2) f i by (cases j) (auto simp: token_char_def split: if_splits)
qed

lemma bare_words:
  "CHR ''n'' \<notin> number_chars" "CHR ''t'' \<notin> number_chars" "CHR ''f'' \<notin> number_chars"
  "CHR ''I'' \<notin> number_chars" "CHR ''N'' \<notin> number_chars"
  by (simp_all add: number_chars_def is_digit_def)

lemma token_clash:
  "c \<in> set s \<Longrightarrow> \<not> is_digit c \<Longrightarrow> c \<noteq> CHR ''-'' \<Longrightarrow> str_int i \<noteq> s"
  "repr_ok repr \<Longrightarrow> c \<in> set s \<Longrightarrow> c \<notin> number_chars \<Longrightarrow> repr q \<noteq> s"
  using str_int_chars repr_props(2) by blast+

lemma int_clash:
  "str_int i \<noteq> ''null''" "str_int i \<noteq> ''true''" "str_int i \<noteq> ''false''"
  "str_int i \<noteq> ''Infinity''" "str_int i \<noteq> ''-Infinity''" "str_int i \<noteq> ''NaN''"
  by (rule token_clash(1) [of "CHR ''l''"] token_clash(1) [of "CHR ''t''"] token_clash(1) [of "CHR ''I''"]
      token_clash(1) [of "CHR ''N''"]; simp add: is_digit_def)+

lemma repr_clash:
  assumes "repr_ok repr"
  shows "repr q \<noteq> ''null''" "repr q \<noteq> ''true''" "repr q \<noteq> ''false''"
    "repr q \<noteq> ''Infinity''" "repr q \<noteq> ''-Infinity''" "repr q \<noteq> ''NaN''"
  by (rule token_clash(2) [OF assms, of "CHR ''n''"] token_clash(2) [OF assms, of "CHR ''t''"]
      token_clash(2) [OF assms, of "CHR ''f''"] token_clash(2) [OF assms, of "CHR ''N''"]; simp add: bare_words; fail)+

lemma float_text_props:
  assumes "repr_ok repr"
  shows "float_text repr x = float_text repr y \<longleftrightarrow> x = y" "float_text repr x \<noteq> str_int k"
    "float_text repr x \<noteq> ''null''" "float_text repr x \<noteq> ''true''" "float_text repr x \<noteq> ''false''"
  using repr_clash [OF assms] repr_clash [OF assms, THEN not_sym] int_clash [THEN not_sym]
    repr_props(3,4) [OF assms]
  by ((cases x; cases y; simp), (cases x; simp)+)

lemma atomic_inj:
  assumes R: "repr_ok repr" and "atomic a" and "atomic b" and "render repr a = render repr b"
  shows "a = b"
proof -
  note F = float_text_props [OF R] float_text_props(2-) [OF R, THEN not_sym]
  note I = int_clash int_clash [THEN not_sym]
  show ?thesis using assms(2-4) by (cases a; cases b) (simp_all add: F I split: if_splits)
qed

lemma not_token [simp]:
  "\<not> token_char (CHR '','')" "\<not> token_char (CHR '']'')" "\<not> token_char (CHR ''}'')"
  "\<not> token_char (CHR ''['')" "\<not> token_char (CHR ''{'')" "\<not> token_char (CHR 0x22)"
  by (simp_all add: token_char_def number_chars_def is_digit_def)

lemma token_split:
  assumes "\<And>c. c \<in> set u \<Longrightarrow> token_char c" and "\<And>c. c \<in> set v \<Longrightarrow> token_char c"
    and "delimiter r" and "delimiter s" and "u @ r = v @ s"
  shows "u = v \<and> r = s"
proof -
  have d: "takeWhile token_char (w @ q) = w" if "\<And>c. c \<in> set w \<Longrightarrow> token_char c" "delimiter q" for w q
    using that by (cases q) (auto simp: delimiter_def takeWhile_append)
  from assms(5) d [OF assms(1,3)] d [OF assms(2,4)] have "u = v" by metis
  with assms(5) show ?thesis by simp
qed

lemma render_start:
  assumes "repr_ok repr"
  shows "render repr j \<noteq> []"
    "\<not> atomic j \<Longrightarrow> hd (render repr j) \<in> {CHR 0x22, CHR ''['', CHR ''{''} \<and> \<not> token_char (hd (render repr j))"
    "hd (render repr j) \<notin> {CHR '']'', CHR ''}'', CHR '',''}"
proof -
  show ne: "render repr j \<noteq> []"
    using atomic_text(1) [OF assms, of j] by (cases j) (simp_all add: quoted_def)
  show n: "\<not> atomic j \<Longrightarrow> hd (render repr j) \<in> {CHR 0x22, CHR ''['', CHR ''{''} \<and> \<not> token_char (hd (render repr j))"
    by (cases j) (simp_all add: quoted_def)
  show "hd (render repr j) \<notin> {CHR '']'', CHR ''}'', CHR '',''}"
  proof (cases "atomic j")
    case True
    then have "token_char (hd (render repr j))" using atomic_text [OF assms True] by simp
    then show ?thesis by auto
  qed (use n in auto)
qed

text \<open>A list of texts, each of which can be told from what follows it, can be told apart.\<close>

lemma joined_inj:
  assumes "c = CHR '']'' \<or> c = CHR ''}''"
    and "\<And>x y r s. x \<in> set xs \<Longrightarrow> f x @ r = f y @ s \<Longrightarrow> delimiter r \<Longrightarrow> delimiter s \<Longrightarrow> x = y \<and> r = s"
    and "\<And>x. f x \<noteq> []" and "\<And>x. hd (f x) \<noteq> c"
    and "joined (map f xs) @ c # r = joined (map f ys) @ c # s"
  shows "xs = ys \<and> r = s"
  using assms(2,5)
proof (induction xs arbitrary: ys)
  case Nil
  show ?case
  proof (cases ys)
    case Nil
    with Nil.prems show ?thesis by simp
  next
    case (Cons y zs)
    obtain w where "joined (map f ys) = f y @ w" using Cons by (cases zs) auto
    with Nil.prems(2) assms(3,4) show ?thesis by (metis append_Nil append_assoc hd_append list.map(1) joined.simps(1) list.sel(1))
  qed
next
  case (Cons x xs)
  have tail: "\<exists>w. joined (map f (a # as)) @ c # t = f a @ w @ c # t \<and> delimiter (w @ c # t)
      \<and> (as = [] \<longrightarrow> w = []) \<and> (as \<noteq> [] \<longrightarrow> w = CHR '','' # joined (map f as))" for a as t
    using assms(1) by (cases as) (auto simp: delimiter_def)
  show ?case
  proof (cases ys)
    case Nil
    obtain w where "joined (map f (x # xs)) = f x @ w" by (cases xs) auto
    with Nil Cons.prems(2) assms(3,4) show ?thesis
      by (metis append_Nil append_assoc hd_append list.map(1) joined.simps(1) list.sel(1))
  next
    case ys: (Cons y zs)
    obtain v where v: "joined (map f (x # xs)) @ c # r = f x @ v @ c # r" "delimiter (v @ c # r)"
      "xs = [] \<longrightarrow> v = []" "xs \<noteq> [] \<longrightarrow> v = CHR '','' # joined (map f xs)" using tail by blast
    obtain w where w: "joined (map f (y # zs)) @ c # s = f y @ w @ c # s" "delimiter (w @ c # s)"
      "zs = [] \<longrightarrow> w = []" "zs \<noteq> [] \<longrightarrow> w = CHR '','' # joined (map f zs)" using tail by blast
    from Cons.prems(2) v(1) w(1) ys have "f x @ v @ c # r = f y @ w @ c # s" by simp
    with Cons.prems(1) v(2) w(2) have eq: "x = y" "v @ c # r = w @ c # s"
      by (meson list.set_intros(1))+
    have "xs = [] \<longleftrightarrow> zs = []"
      using eq(2) v(3,4) w(3,4) assms(1) by (cases "xs = []"; cases "zs = []") auto
    then have "joined (map f xs) @ c # r = joined (map f zs) @ c # s"
      using eq(2) v(3,4) w(3,4) by (cases "xs = []") auto
    moreover have "u = y \<and> p = q" if "u \<in> set xs" "f u @ p = f y @ q" "delimiter p" "delimiter q" for u y p q
      using Cons.prems(1) [of u p y q] that by simp
    ultimately have "xs = zs \<and> r = s" by (intro Cons.IH)
    with eq(1) ys show ?thesis by simp
  qed
qed

lemma render_inj:
  assumes R: "repr_ok repr"
  shows "render repr a @ r = render repr b @ s \<Longrightarrow> delimiter r \<Longrightarrow> delimiter s \<Longrightarrow> a = b \<and> r = s"
proof (induction a arbitrary: b r s)
  have atoms: "x = y \<and> u = v"
    if "atomic x" "render repr x @ u = render repr y @ v" "delimiter u" "delimiter v" for x y u v
  proof -
    have "atomic y"
    proof (rule ccontr)
      assume "\<not> atomic y"
      with render_start(2) [OF R this] that(2) atomic_text [OF R that(1)] render_start(1) [OF R, of y]
      show False by (metis hd_append hd_in_set)
    qed
    with that token_split [of "render repr x" "render repr y" u v] atomic_text(2) [OF R] atomic_inj [OF R]
    show ?thesis by metis
  qed
  note sym_atoms = atoms [OF _ sym]
  have kind: "\<not> atomic x \<Longrightarrow> render repr x @ u = render repr y @ v \<Longrightarrow> hd (render repr x) = hd (render repr y)" for x y u v
    using render_start(1) [OF R] by (metis hd_append)
  {
    case JNull
    with atoms [of JNull] show ?case by (metis atomic.simps(1))
  next
    case (JBool x)
    with atoms [of "JBool x"] show ?case by (metis atomic.simps(2))
  next
    case (JInt x)
    with atoms [of "JInt x"] show ?case by (metis atomic.simps(3))
  next
    case (JFloat x)
    with atoms [of "JFloat x"] show ?case by (metis atomic.simps(4))
  next
    case (JStr x)
    show ?case
    proof (cases "atomic b")
      case True
      with sym_atoms [of b] JStr show ?thesis by blast
    next
      case False
      with kind [OF _ JStr(1)] obtain y where b: "b = JStr y" by (cases b) (auto simp: quoted_def)
      with JStr(1) have "quoted x @ r = quoted y @ s" by simp
      from quoted_inj [OF this] b show ?thesis by simp
    qed
  next
    case (JList xs)
    show ?case
    proof (cases "atomic b")
      case True
      with sym_atoms [of b] JList(2-) show ?thesis by blast
    next
      case False
      with kind [OF _ JList(2)] obtain ys where b: "b = JList ys" by (cases b) (auto simp: quoted_def)
      have "xs = ys \<and> r = s"
      proof (rule joined_inj [where c = "CHR '']''" and f = "render repr"])
        show "joined (map (render repr) xs) @ CHR '']'' # r = joined (map (render repr) ys) @ CHR '']'' # s"
          using JList(2) b by simp
      qed (use JList(1) render_start [OF R] in blast)+
      with b show ?thesis by simp
    qed
  next
    case (JObj kvs)
    let ?f = "\<lambda>(k, v). quoted k @ CHR '':'' # render repr v"
    show ?case
    proof (cases "atomic b")
      case True
      with sym_atoms [of b] JObj(2-) show ?thesis by blast
    next
      case False
      with kind [OF _ JObj(2)] obtain ys where b: "b = JObj ys" by (cases b) (auto simp: quoted_def)
      have "kvs = ys \<and> r = s"
      proof (rule joined_inj [where c = "CHR ''}''" and f = ?f])
        show "joined (map ?f kvs) @ CHR ''}'' # r = joined (map ?f ys) @ CHR ''}'' # s"
          using JObj(2) b by simp
        show "p = q \<and> u = v" if "p \<in> set kvs" "?f p @ u = ?f q @ v" "delimiter u" "delimiter v" for p q u v
        proof -
          obtain k x l y where p: "p = (k, x)" "q = (l, y)" by fastforce
          with that(2) have "quoted k @ CHR '':'' # render repr x @ u = quoted l @ CHR '':'' # render repr y @ v" by simp
          from quoted_inj [OF this] have "k = l" "render repr x @ u = render repr y @ v" by auto
          with JObj(1) [of p x u y v] that p show ?thesis by simp
        qed
      qed (auto simp: quoted_def)
      with b show ?thesis by simp
    qed
  }
qed

lemma canonical_inj:
  assumes "repr_ok repr" and "canonical_json repr a = canonical_json repr b"
  shows "sort_keys a = sort_keys b"
  using render_inj [OF assms(1), of "sort_keys a" "[]" "sort_keys b" "[]"] assms(2)
  by (simp add: canonical_json_def delimiter_def)

text \<open>A text of floats that satisfies \<open>repr_ok\<close>.\<close>

definition ratio_text :: "rat \<Rightarrow> string" where
  "ratio_text r = (case quotient_of r of (a, b) \<Rightarrow> str_int a @ CHR ''.'' # str_int b)"

lemma ratio_text_ok: "repr_ok ratio_text"
proof -
  have dot: "CHR ''.'' \<notin> set (str_int i)" for i
    using str_int_chars [of "CHR ''.''" i] by (auto simp: is_digit_def)
  have t: "takeWhile (\<lambda>c. c \<noteq> CHR ''.'') (str_int k @ CHR ''.'' # z) = str_int k" for k z
    using dot [of k] by (subst takeWhile_append2) auto
  have split: "a = c \<and> b = d" if "str_int a @ CHR ''.'' # str_int b = str_int c @ CHR ''.'' # str_int d" for a b c d
  proof -
    from t [of a "str_int b"] t [of c "str_int d"] that have "str_int a = str_int c" by metis
    with that show ?thesis by simp
  qed
  have "inj ratio_text"
  proof (rule injI)
    fix q r
    assume "ratio_text q = ratio_text r"
    then have "quotient_of q = quotient_of r"
      using split by (cases "quotient_of q"; cases "quotient_of r") (simp add: ratio_text_def)
    then show "q = r" by (rule quotient_of_inject)
  qed
  moreover have "set (str_int i) \<subseteq> number_chars" for i
    by (auto simp: number_chars_def dest: str_int_chars)
  then have "set (ratio_text r) \<subseteq> number_chars \<and> CHR ''.'' \<in> set (ratio_text r)" for r
    by (cases "quotient_of r") (auto simp: ratio_text_def number_chars_def)
  ultimately show ?thesis by (simp add: repr_ok_def)
qed

end
