(* ===== verification/Election_Model.thy ===== *)
theory Election_Model
  imports Tally Json
begin

text \<open>
  The rows the election components work on: voting/models.py (\<open>Event\<close>, \<open>Category\<close>,
  \<open>Candidate\<close>) and elections/models.py (\<open>Constituency\<close>, \<open>Voter\<close>, \<open>EligibilityRule\<close>,
  \<open>TrusteeShare\<close>), with the properties and methods of the model classes. Presentation
  fields (colours, images, descriptions) are left out. A foreign key is the id of the row
  it points to, except a constituency, which the code follows everywhere and which is kept
  with the row. Times are integers (microseconds), money is an exact decimal (a rational).
  An event with the rows that belong to it is an \<open>election\<close>; its tables are in the order
  the model class declares.
\<close>

section \<open>Event\<close>

datatype voting_mode = PAY_TO_VOTE | CODE_VOTING

datatype event_status =
  DRAFT | REVIEW | APPROVED | SCHEDULED | OPEN | PAUSED | CLOSED | TALLYING | CERTIFIED | PUBLISHED | ARCHIVED

datatype visibility = LIVE | AFTER_CLOSE | AFTER_PUBLISH

datatype custody = SYSTEM | TRUSTEES

datatype code_mode = STANDARD | STUDENT_ID

record event =
  ev_id :: int
  ev_org :: "int option"
  ev_mode :: voting_mode
  ev_code_mode :: code_mode
  ev_title :: string
  ev_start :: int
  ev_end :: int
  ev_timezone :: string
  ev_currency :: string
  ev_active :: bool
  ev_status :: event_status
  ev_visibility :: visibility
  ev_auth_methods :: "string list"
  ev_second_factor :: bool
  ev_self_registration :: bool
  ev_email_domains :: string
  ev_dual_approval :: bool
  ev_config_frozen :: bool
  ev_ballot_frozen :: bool
  ev_candidates_frozen :: bool
  ev_voters_frozen :: bool
  ev_legal_hold :: bool
  ev_submitted_by :: "int option"
  ev_reviewed_by :: "int option"
  ev_record_constituency :: bool
  ev_min_anonymity :: int
  ev_custody :: custody
  ev_threshold :: int
  ev_max_per_voter :: "int option"
  ev_min_per_payment :: int
  ev_max_per_payment :: "int option"
  ev_max_spend :: "rat option"
  ev_price :: rat
  ev_organizer :: "int option"
  ev_opened_at :: "int option"
  ev_closed_at :: "int option"
  ev_certified_at :: "int option"
  ev_published_at :: "int option"
  ev_archived_at :: "int option"

definition public_statuses :: "event_status list" where
  "public_statuses = [SCHEDULED, OPEN, PAUSED, CLOSED, TALLYING, CERTIFIED, PUBLISHED]"

definition is_paid :: "event \<Rightarrow> bool" where
  "is_paid ev \<longleftrightarrow> ev_mode ev = PAY_TO_VOTE"

definition is_institutional :: "event \<Rightarrow> bool" where
  "is_institutional ev \<longleftrightarrow> ev_mode ev = CODE_VOTING"

definition is_approved :: "event \<Rightarrow> bool" where
  "is_approved ev \<longleftrightarrow> ev_status ev \<notin> {DRAFT, REVIEW}"

definition voting_locked :: "event \<Rightarrow> bool" where
  "voting_locked ev \<longleftrightarrow> ev_status ev = PAUSED"

definition is_public :: "event \<Rightarrow> bool" where
  "is_public ev \<longleftrightarrow> ev_active ev \<and> ev_status ev \<in> set public_statuses"

definition accepting_votes :: "int \<Rightarrow> event \<Rightarrow> bool" where
  "accepting_votes now ev \<longleftrightarrow> ev_status ev = OPEN \<and> ev_start ev \<le> now \<and> now < ev_end ev"

definition results_are_public :: "event \<Rightarrow> bool" where
  "results_are_public ev \<longleftrightarrow>
     (if ev_status ev \<in> {PUBLISHED, ARCHIVED} then True
      else case ev_visibility ev of
        LIVE \<Rightarrow> ev_status ev \<in> set public_statuses \<and> is_paid ev
      | AFTER_CLOSE \<Rightarrow> ev_status ev \<in> {CLOSED, TALLYING, CERTIFIED} \<and> is_paid ev
      | AFTER_PUBLISH \<Rightarrow> False)"

definition lstrip_at :: "string \<Rightarrow> string" where
  "lstrip_at s = dropWhile (\<lambda>c. c = CHR ''@'') s"

definition email_domain_list :: "event \<Rightarrow> string list" where
  "email_domain_list ev =
     map (\<lambda>d. lstrip_at (lower (strip d)))
       (filter (\<lambda>d. strip d \<noteq> []) (split_on (CHR '','') (ev_email_domains ev)))"

section \<open>Positions and candidates\<close>

datatype candidate_status = ACTIVE | WITHDRAWN | DISQUALIFIED | ELIMINATED

record constituency =
  co_id :: int
  co_org :: int
  co_parent :: "int option"
  co_path :: string

text \<open>\<open>is_within\<close>: the materialized path of an ancestor is a prefix.\<close>

definition is_within :: "constituency \<Rightarrow> constituency \<Rightarrow> bool" where
  "is_within c ancestor \<longleftrightarrow> starts_with (co_path ancestor) (co_path c)"

record position =
  pos_id :: int
  pos_name :: string
  pos_type :: ballot_type
  pos_min :: int
  pos_max :: int
  pos_abstain :: bool
  pos_seats :: int
  pos_max_score :: int
  pos_threshold :: rat
  pos_constituency :: "constituency option"
  pos_price :: "rat option"
  pos_max_per_voter :: "int option"

definition is_referendum :: "position \<Rightarrow> bool" where
  "is_referendum p \<longleftrightarrow> pos_type p = REFERENDUM"

record candidate =
  ca_id :: int
  ca_event :: int
  ca_category :: "int option"
  ca_name :: string
  ca_affiliation :: string
  ca_status :: candidate_status
  ca_max_per_voter :: "int option"

section \<open>Voters\<close>

datatype voter_source = MANUAL | CSV | XLSX | API | SELF_REGISTRATION | SSO | CODES | LEGACY

datatype voter_status = ELIGIBLE | VERIFIED | VOTED | SUSPENDED | INELIGIBLE

record voter =
  vo_id :: int
  vo_election :: int
  vo_identifier :: "string option"
  vo_name :: string
  vo_email :: "string option"
  vo_email_index :: string
  vo_phone :: "string option"
  vo_phone_index :: string
  vo_constituency :: "constituency option"
  vo_attributes :: "(string \<times> json) list"
  vo_status :: voter_status
  vo_status_reason :: string
  vo_credential_hash :: "string option"
  vo_credential_text :: "string option"
  vo_credential_issued :: "int option"
  vo_credential_version :: int
  vo_email_verified :: "int option"
  vo_phone_verified :: "int option"
  vo_verified_at :: "int option"
  vo_user :: "int option"
  vo_sso_index :: string
  vo_source :: voter_source
  vo_invited_at :: "int option"
  vo_voted_at :: "int option"

definition can_vote :: "voter \<Rightarrow> bool" where
  "can_vote v \<longleftrightarrow> vo_status v \<in> {ELIGIBLE, VERIFIED}"

datatype rule_kind =
    In_constituency
  | ATTRIBUTE_EQUALS
  | ATTRIBUTE_IN
  | ATTRIBUTE_NOT_IN
  | EMAIL_DOMAIN
  | VERIFIED_EMAIL
  | VERIFIED_PHONE

record rule =
  ru_id :: int
  ru_position :: "int option"
  ru_kind :: rule_kind
  ru_attribute :: string
  ru_values :: "json list"
  ru_constituency :: "constituency option"
  ru_active :: bool

section \<open>Key trustees and vote packages\<close>

record trustee_share =
  ts_trustee :: int
  ts_index :: int
  ts_hash :: string
  ts_pending :: "string option"
  ts_collected :: "int option"
  ts_submitted :: "string option"
  ts_submitted_at :: "int option"

record vote_package =
  vp_id :: int
  vp_event :: int
  vp_votes :: int
  vp_bonus :: int
  vp_price :: rat
  vp_active :: bool
  vp_starts :: "int option"
  vp_ends :: "int option"
  vp_max_per_payer :: "int option"

record election =
  the_event :: event
  positions :: "position list"
  candidates :: "candidate list"
  voters :: "voter list"
  rules :: "rule list"
  trustees :: "trustee_share list"
  packages :: "vote_package list"

definition candidates_of :: "candidate list \<Rightarrow> position \<Rightarrow> candidate list" where
  "candidates_of cs p = filter (\<lambda>c. ca_category c = Some (pos_id p)) cs"

text \<open>Results are shown before certification only for paid elections.\<close>

lemma secret_results_wait:
  "is_institutional ev \<Longrightarrow> results_are_public ev \<Longrightarrow> ev_status ev \<in> {PUBLISHED, ARCHIVED}"
  by (auto simp: results_are_public_def is_institutional_def is_paid_def split: if_splits visibility.splits)

lemma accepting_open: "accepting_votes now ev \<Longrightarrow> ev_status ev = OPEN"
  by (simp add: accepting_votes_def)

section \<open>Example rows\<close>

definition ex_position :: "ballot_type \<Rightarrow> int \<Rightarrow> int \<Rightarrow> position" where
  "ex_position t lo hi =
     \<lparr>pos_id = 7, pos_name = ''Chair'', pos_type = t, pos_min = lo, pos_max = hi, pos_abstain = False,
      pos_seats = 1, pos_max_score = 10, pos_threshold = 50, pos_constituency = None, pos_price = None,
      pos_max_per_voter = None\<rparr>"

definition ex_candidate :: "int \<Rightarrow> candidate" where
  "ex_candidate i =
     \<lparr>ca_id = i, ca_event = 1, ca_category = Some 7, ca_name = ''Ama'', ca_affiliation = [],
      ca_status = ACTIVE, ca_max_per_voter = None\<rparr>"

definition ex_event :: event where
  "ex_event =
     \<lparr>ev_id = 1, ev_org = Some 1, ev_mode = CODE_VOTING, ev_code_mode = STANDARD, ev_title = ''SRC'',
      ev_start = 10, ev_end = 20, ev_timezone = ''UTC'',
      ev_currency = ''GHS'', ev_active = True, ev_status = OPEN, ev_visibility = AFTER_PUBLISH,
      ev_auth_methods = [''CODE''], ev_second_factor = False, ev_self_registration = True,
      ev_email_domains = [], ev_dual_approval = True, ev_config_frozen = False, ev_ballot_frozen = False,
      ev_candidates_frozen = False, ev_voters_frozen = False, ev_legal_hold = False,
      ev_submitted_by = None, ev_reviewed_by = None, ev_record_constituency = False,
      ev_min_anonymity = 5, ev_custody = SYSTEM, ev_threshold = 0, ev_max_per_voter = None,
      ev_min_per_payment = 1, ev_max_per_payment = None, ev_max_spend = None, ev_price = 1,
      ev_organizer = None, ev_opened_at = None, ev_closed_at = None, ev_certified_at = None,
      ev_published_at = None, ev_archived_at = None\<rparr>"

definition ex_election :: election where
  "ex_election =
     \<lparr>the_event = ex_event, positions = [ex_position MULTIPLE 1 2],
      candidates = [ex_candidate 1, ex_candidate 2], voters = [], rules = [], trustees = [], packages = []\<rparr>"

lemmas ex_defs = ex_position_def ex_candidate_def ex_event_def ex_election_def

end
