(* ===== verification/Ballots.thy ===== *)
theory Ballots
  imports Election_Model
begin

text \<open>
  elections/ballot.py: what each ballot type allows, the validation that turns a submitted
  payload into the canonical selections that are sealed and counted, the ballot shown to
  the voter, and the checks an election must pass before it is submitted.

  A payload is the JSON value of the request. A \<open>BallotError\<close> is a \<open>Rejected\<close> with the
  reason and the position it names; \<open>Overflow\<close> is the \<open>OverflowError\<close> that \<open>int\<close> raises
  on an infinite float, which no handler of the file catches.
\<close>

section \<open>Limits\<close>

definition active_candidates :: "candidate list \<Rightarrow> position \<Rightarrow> candidate list" where
  "active_candidates cs p = filter (\<lambda>c. ca_status c = ACTIVE) (candidates_of cs p)"

definition effective_limits :: "candidate list \<Rightarrow> position \<Rightarrow> int \<times> int" where
  "effective_limits cs p =
     (let n = int (length (active_candidates cs p)) in
      case pos_type p of
        SINGLE \<Rightarrow> (min (pos_min p) 1, 1)
      | APPROVAL \<Rightarrow> (min (pos_min p) (max n 1), max n 1)
      | REFERENDUM \<Rightarrow> (1, 1)
      | SCORE \<Rightarrow> (pos_min p, max n 1)
      | FPTP \<Rightarrow> (let m = max (pos_max p) (pos_seats p) in (min (pos_min p) m, m))
      | _ \<Rightarrow> (pos_min p, max (pos_max p) (pos_min p)))"

section \<open>Rejections\<close>

datatype rejection =
    Answer_required | Answer_invalid
  | Scores_required | Scores_invalid | Score_invalid | Scored_candidate_invalid | Score_out_of_range
  | Too_few_scored
  | Selection_required | Selection_invalid | Selected_twice | Candidate_invalid
  | Too_many_selected | Too_few_selected
  | Malformed | Not_eligible_for_position

datatype ballot_error = Rejected rejection "int option" | Overflow

section \<open>Reading a submitted value\<close>

text \<open>\<open>int(value)\<close>: a number, no number (\<open>TypeError\<close>, \<open>ValueError\<close>), or too large a float.\<close>

datatype int_reading = Int_value int | Not_int | Int_overflow

definition truncate :: "rat \<Rightarrow> int" where
  "truncate r = (if r < 0 then \<lceil>r\<rceil> else \<lfloor>r\<rfloor>)"

fun py_int :: "json \<Rightarrow> int_reading" where
  "py_int (JInt i) = Int_value i"
| "py_int (JBool b) = Int_value (if b then 1 else 0)"
| "py_int (JFloat (Fin r)) = Int_value (truncate r)"
| "py_int (JFloat Nan) = Not_int"
| "py_int (JFloat _) = Int_overflow"
| "py_int (JStr s) = (case parse_int s of Some i \<Rightarrow> Int_value i | None \<Rightarrow> Not_int)"
| "py_int _ = Not_int"

definition blank :: "json \<Rightarrow> bool" where
  "blank v \<longleftrightarrow> v = JNull \<or> v = JStr ''''"

fun as_list :: "json \<Rightarrow> json list" where
  "as_list (JList xs) = filter (\<lambda>v. \<not> blank v) xs"
| "as_list v = (if blank v then [] else [v])"

fun read_ids :: "int \<Rightarrow> json list \<Rightarrow> ballot_error + int list" where
  "read_ids pid [] = Inr []"
| "read_ids pid (v # vs) =
     (case py_int v of
        Not_int \<Rightarrow> Inl (Rejected Selection_invalid (Some pid))
      | Int_overflow \<Rightarrow> Inl Overflow
      | Int_value i \<Rightarrow>
          (case read_ids pid vs of Inl e \<Rightarrow> Inl e | Inr ids \<Rightarrow> Inr (i # ids)))"

definition to_ids :: "json list \<Rightarrow> int list \<Rightarrow> position \<Rightarrow> ballot_error + int list" where
  "to_ids vs valid p =
     (case read_ids (pos_id p) vs of
        Inl e \<Rightarrow> Inl e
      | Inr ids \<Rightarrow>
          if card (set ids) \<noteq> length ids then Inl (Rejected Selected_twice (Some (pos_id p)))
          else if \<not> set ids \<subseteq> set valid then Inl (Rejected Candidate_invalid (Some (pos_id p)))
          else Inr ids)"

section \<open>One position\<close>

fun score_entries ::
  "position \<Rightarrow> int list \<Rightarrow> (string \<times> int) list \<Rightarrow> (string \<times> json) list \<Rightarrow> ballot_error + (string \<times> int) list" where
  "score_entries p valid acc [] = Inr acc"
| "score_entries p valid acc ((k, v) # kvs) =
     (if blank v then score_entries p valid acc kvs
      else case (parse_int k, py_int v) of
        (None, _) \<Rightarrow> Inl (Rejected Score_invalid (Some (pos_id p)))
      | (_, Not_int) \<Rightarrow> Inl (Rejected Score_invalid (Some (pos_id p)))
      | (_, Int_overflow) \<Rightarrow> Inl Overflow
      | (Some c, Int_value x) \<Rightarrow>
          if c \<notin> set valid then Inl (Rejected Scored_candidate_invalid (Some (pos_id p)))
          else if \<not> (0 \<le> x \<and> x \<le> pos_max_score p) then Inl (Rejected Score_out_of_range (Some (pos_id p)))
          else score_entries p valid (js_put (str_int c) x acc) kvs)"

definition key_id :: "string \<Rightarrow> int" where
  "key_id k = (case parse_int k of Some i \<Rightarrow> i | None \<Rightarrow> 0)"

definition normalize_referendum :: "position \<Rightarrow> json \<Rightarrow> ballot_error + choice" where
  "normalize_referendum p raw =
     (case as_list raw of
        [] \<Rightarrow> if pos_abstain p then Inr None else Inl (Rejected Answer_required (Some (pos_id p)))
      | [JStr s] \<Rightarrow>
          if upper s \<in> {''YES'', ''NO''} then Inr (Some (Answer (upper s)))
          else Inl (Rejected Answer_invalid (Some (pos_id p)))
      | _ \<Rightarrow> Inl (Rejected Answer_invalid (Some (pos_id p))))"

definition normalize_scores :: "candidate list \<Rightarrow> position \<Rightarrow> json \<Rightarrow> ballot_error + choice" where
  "normalize_scores cs p raw =
     (let abstained =
            (if pos_abstain p then Inr None else Inl (Rejected Scores_required (Some (pos_id p))))
      in if blank raw \<or> raw = JObj [] then abstained
         else case raw of
           JObj kvs \<Rightarrow>
             (case score_entries p (map ca_id (active_candidates cs p)) [] kvs of
                Inl e \<Rightarrow> Inl e
              | Inr scores \<Rightarrow>
                  if scores = [] then abstained
                  else if int (length scores) < fst (effective_limits cs p)
                  then Inl (Rejected Too_few_scored (Some (pos_id p)))
                  else Inr (Some (Scores (sort_key (\<lambda>(k, _). key_id k) scores))))
         | _ \<Rightarrow> Inl (Rejected Scores_invalid (Some (pos_id p))))"

definition normalize_marks :: "candidate list \<Rightarrow> position \<Rightarrow> json \<Rightarrow> ballot_error + choice" where
  "normalize_marks cs p raw =
     (let vs = as_list raw; (lo, hi) = effective_limits cs p
      in if vs = []
         then (if pos_abstain p then Inr None else Inl (Rejected Selection_required (Some (pos_id p))))
         else case to_ids vs (map ca_id (active_candidates cs p)) p of
           Inl e \<Rightarrow> Inl e
         | Inr ids \<Rightarrow>
             if hi < int (length ids) then Inl (Rejected Too_many_selected (Some (pos_id p)))
             else if int (length ids) < lo then Inl (Rejected Too_few_selected (Some (pos_id p)))
             else Inr (Some (Marks (if pos_type p = RANKED then ids else sort ids))))"

definition normalize_selection :: "candidate list \<Rightarrow> position \<Rightarrow> json \<Rightarrow> ballot_error + choice" where
  "normalize_selection cs p raw =
     (case pos_type p of
        REFERENDUM \<Rightarrow> normalize_referendum p raw
      | SCORE \<Rightarrow> normalize_scores cs p raw
      | _ \<Rightarrow> normalize_marks cs p raw)"

section \<open>The whole ballot\<close>

fun normalize_all ::
  "candidate list \<Rightarrow> (string \<times> json) list \<Rightarrow> position list \<Rightarrow> ballot_error + (string \<times> choice) list" where
  "normalize_all cs payload [] = Inr []"
| "normalize_all cs payload (p # ps) =
     (let raw = (case js_get payload (str_int (pos_id p)) of Some v \<Rightarrow> v | None \<Rightarrow> JNull) in
      case normalize_selection cs p raw of
        Inl e \<Rightarrow> Inl e
      | Inr c \<Rightarrow>
          (case normalize_all cs payload ps of
             Inl e \<Rightarrow> Inl e
           | Inr sels \<Rightarrow> Inr ((str_int (pos_id p), c) # sels)))"

definition style_positions :: "election \<Rightarrow> int list \<Rightarrow> position list" where
  "style_positions el style = filter (\<lambda>p. pos_id p \<in> set style) (positions el)"

definition validate_ballot :: "election \<Rightarrow> int list \<Rightarrow> json \<Rightarrow> ballot_error + (string \<times> choice) list" where
  "validate_ballot el style payload =
     (case payload of
        JObj kvs \<Rightarrow>
          if \<exists>k\<in>set (map fst kvs). k \<notin> set (map str_int style)
          then Inl (Rejected Not_eligible_for_position None)
          else normalize_all (candidates el) kvs (style_positions el style)
      | _ \<Rightarrow> Inl (Rejected Malformed None))"

section \<open>The ballot as shown\<close>

record ballot_candidate =
  bc_id :: int
  bc_name :: string
  bc_affiliation :: string

record ballot_entry =
  be_id :: int
  be_name :: string
  be_type :: ballot_type
  be_min :: int
  be_max :: int
  be_seats :: int
  be_max_score :: int
  be_abstain :: bool
  be_threshold :: rat
  be_options :: "string list"
  be_candidates :: "ballot_candidate list"

definition ballot_entry_of :: "candidate list \<Rightarrow> position \<Rightarrow> ballot_entry" where
  "ballot_entry_of cs p =
     (let (lo, hi) = effective_limits cs p in
      \<lparr>be_id = pos_id p, be_name = pos_name p, be_type = pos_type p, be_min = lo, be_max = hi,
       be_seats = pos_seats p, be_max_score = pos_max_score p, be_abstain = pos_abstain p,
       be_threshold = fl (pos_threshold p),
       be_options = (if is_referendum p then [''YES'', ''NO''] else []),
       be_candidates =
         (if is_referendum p then []
          else map (\<lambda>c. \<lparr>bc_id = ca_id c, bc_name = ca_name c, bc_affiliation = ca_affiliation c\<rparr>)
                 (active_candidates cs p))\<rparr>)"

definition ballot_definition :: "election \<Rightarrow> int list option \<Rightarrow> ballot_entry list" where
  "ballot_definition el style =
     map (ballot_entry_of (candidates el))
       (filter (\<lambda>p. case style of None \<Rightarrow> True | Some ids \<Rightarrow> pos_id p \<in> set ids) (positions el))"

definition rules_text :: "ballot_entry \<Rightarrow> string" where
  "rules_text d =
     (case be_type d of
        REFERENDUM \<Rightarrow> ''Vote YES or NO.''
      | SINGLE \<Rightarrow> ''Choose one candidate.''
      | RANKED \<Rightarrow> ''Rank up to '' @ str_int (be_max d) @ '' candidate(s) in order of preference (1 = first choice).''
      | SCORE \<Rightarrow> ''Give each candidate a score from 0 to '' @ str_int (be_max_score d) @ ''.''
      | APPROVAL \<Rightarrow> ''Approve as many candidates as you like.''
      | _ \<Rightarrow>
          if be_min d = be_max d then ''Choose exactly '' @ str_int (be_max d) @ '' candidate(s).''
          else ''Choose between '' @ str_int (be_min d) @ '' and '' @ str_int (be_max d) @ '' candidate(s).'')
     @ (if be_abstain d then '' You may abstain.'' else '''')"

section \<open>The voter's review of the ballot\<close>

definition name_for :: "candidate list \<Rightarrow> int \<Rightarrow> string" where
  "name_for cs i = (case first_where (\<lambda>c. ca_id c = i) cs of Some c \<Rightarrow> ca_name c | None \<Rightarrow> ''?'')"

fun title_case :: "string \<Rightarrow> string" where
  "title_case [] = []"
| "title_case (c # cs) = ascii_upper c # lower cs"

definition ranked_choice :: "candidate list \<Rightarrow> nat \<times> int \<Rightarrow> string" where
  "ranked_choice cs = (\<lambda>(i, c). str_int (int i + 1) @ ''. '' @ name_for cs c)"

text \<open>
  The wording of the choices of a validated selection; the shapes that validation never
  gives a position of the type (on which the Python code raises or prints the keys) are
  not distinguished.
\<close>

fun choice_texts :: "candidate list \<Rightarrow> position \<Rightarrow> choice \<Rightarrow> string list" where
  "choice_texts cs p None = [''Abstained'']"
| "choice_texts cs p (Some (Answer a)) = [title_case a]"
| "choice_texts cs p (Some (Scores kvs)) = map (\<lambda>(k, x). name_for cs (key_id k) @ '': '' @ str_int x) kvs"
| "choice_texts cs p (Some (Marks ids)) =
     (if pos_type p = RANKED then map (ranked_choice cs) (List.enumerate 0 ids) else map (name_for cs) ids)"

record review_row =
  rr_position :: string
  rr_id :: int
  rr_choices :: "string list"
  rr_abstained :: bool

definition describe_selections :: "election \<Rightarrow> (string \<times> choice) list \<Rightarrow> review_row list" where
  "describe_selections el sels =
     List.map_filter
       (\<lambda>p. case js_get sels (str_int (pos_id p)) of
              None \<Rightarrow> None
            | Some c \<Rightarrow> Some \<lparr>rr_position = pos_name p, rr_id = pos_id p,
                              rr_choices = choice_texts (candidates el) p c, rr_abstained = (c = None)\<rparr>)
       (positions el)"

section \<open>Configuration problems\<close>

datatype config_problem =
    End_before_start
  | Nothing_to_vote_on
  | No_positions
  | Unassigned_candidate
  | No_candidates int
  | Minimum_above_candidates int
  | Seats_above_candidates int
  | Minimum_above_maximum int
  | No_auth_method
  | No_voters
  | Bad_trustees
  | No_price

definition counts_marks :: "ballot_type \<Rightarrow> bool" where
  "counts_marks t \<longleftrightarrow> t \<in> {MULTIPLE, RANKED, FPTP}"

definition position_problems :: "candidate list \<Rightarrow> position \<Rightarrow> config_problem list" where
  "position_problems cs p =
     (if is_referendum p then []
      else
        let n = int (length (active_candidates cs p)); (lo, hi) = effective_limits cs p
        in (if n = 0 then [No_candidates (pos_id p)]
            else if counts_marks (pos_type p) \<and> n < lo then [Minimum_above_candidates (pos_id p)] else [])
           @ (if max n 1 < pos_seats p then [Seats_above_candidates (pos_id p)] else [])
           @ (if pos_max p < pos_min p \<and> counts_marks (pos_type p) then [Minimum_above_maximum (pos_id p)] else []))"

definition configuration_problems :: "election \<Rightarrow> config_problem list" where
  "configuration_problems el =
     (let ev = the_event el; ps = positions el; cs = candidates el; n = int (length (trustees el))
      in (if ev_end ev \<le> ev_start ev then [End_before_start] else [])
         @ (if ps = [] \<and> cs = [] then [Nothing_to_vote_on] else [])
         @ (if is_institutional ev
            then (if ps = [] then [No_positions] else [])
                 @ (if exists_where (\<lambda>c. ca_category c = None) cs then [Unassigned_candidate] else [])
                 @ concat (map (position_problems cs) ps)
                 @ (if ev_auth_methods ev = [] then [No_auth_method] else [])
                 @ (if voters el = [] \<and> \<not> ev_self_registration ev then [No_voters] else [])
                 @ (if ev_custody ev = TRUSTEES \<and> (n < 2 \<or> \<not> (1 \<le> ev_threshold ev \<and> ev_threshold ev \<le> n))
                    then [Bad_trustees] else [])
            else if ev_price ev \<le> 0 \<and> \<not> exists_where vp_active (packages el) then [No_price] else []))"

end
