(* ===== verification/Ballot_Props.thy ===== *)
theory Ballot_Props
  imports Ballots
begin

text \<open>
  Ballot validation: what an accepted selection looks like (\<open>selection_ok\<close>), that every
  such selection is accepted as it stands, that a ballot is accepted as a whole or not at
  all, and that a configuration without problems can be voted on.
\<close>

section \<open>What an accepted selection looks like\<close>

definition active_ids :: "candidate list \<Rightarrow> position \<Rightarrow> int set" where
  "active_ids cs p = ca_id ` set (active_candidates cs p)"

definition score_ok :: "candidate list \<Rightarrow> position \<Rightarrow> string \<times> int \<Rightarrow> bool" where
  "score_ok cs p = (\<lambda>(k, x). k \<in> str_int ` active_ids cs p \<and> 0 \<le> x \<and> x \<le> pos_max_score p)"

fun selection_ok :: "candidate list \<Rightarrow> position \<Rightarrow> choice \<Rightarrow> bool" where
  "selection_ok cs p None \<longleftrightarrow> pos_abstain p"
| "selection_ok cs p (Some (Answer a)) \<longleftrightarrow> pos_type p = REFERENDUM \<and> a \<in> {''YES'', ''NO''}"
| "selection_ok cs p (Some (Scores kvs)) \<longleftrightarrow>
     pos_type p = SCORE \<and> kvs \<noteq> [] \<and> fst (effective_limits cs p) \<le> int (length kvs)
     \<and> distinct (map fst kvs) \<and> sorted (map (\<lambda>(k, _). key_id k) kvs) \<and> list_all (score_ok cs p) kvs"
| "selection_ok cs p (Some (Marks ids)) \<longleftrightarrow>
     pos_type p \<notin> {REFERENDUM, SCORE} \<and> ids \<noteq> [] \<and> distinct ids \<and> set ids \<subseteq> active_ids cs p
     \<and> fst (effective_limits cs p) \<le> int (length ids) \<and> int (length ids) \<le> snd (effective_limits cs p)
     \<and> (pos_type p = RANKED \<or> sorted ids)"

text \<open>A selection as the request would submit it.\<close>

fun json_of_choice :: "choice \<Rightarrow> json" where
  "json_of_choice None = JNull"
| "json_of_choice (Some (Answer a)) = JStr a"
| "json_of_choice (Some (Scores kvs)) = JObj (map (\<lambda>(k, x). (k, JInt x)) kvs)"
| "json_of_choice (Some (Marks ids)) = JList (map JInt ids)"

section \<open>Reading values\<close>

lemma key_id_str [simp]: "key_id (str_int i) = i"
  by (simp add: key_id_def)

lemma js_put_props:
  "distinct (map fst kvs) \<Longrightarrow> distinct (map fst (js_put k v kvs))"
  "q \<in> set (js_put k v kvs) \<Longrightarrow> q = (k, v) \<or> q \<in> set kvs"
  "js_put k v kvs \<noteq> []"
  "k \<notin> fst ` set kvs \<Longrightarrow> js_put k v kvs = kvs @ [(k, v)]"
proof -
  have "map fst (map (\<lambda>(k', v'). (k', if k' = k then v else v')) kvs) = map fst kvs" by (induction kvs) auto
  then show "distinct (map fst kvs) \<Longrightarrow> distinct (map fst (js_put k v kvs))"
    by (auto simp: js_put_def simp del: map_map)
qed (auto simp: js_put_def split: if_splits)

lemma sort_key_sorted: "sorted (map f xs) \<Longrightarrow> sort_key f xs = xs"
  by (induction xs) (auto intro: insort_is_Cons)

lemma not_blank [simp]: "\<not> blank (JInt i)" "blank JNull" "\<not> blank (JObj kvs)" "\<not> blank (JList xs)"
  by (simp_all add: blank_def)

lemma read_ids_ints [simp]: "read_ids pid (map JInt ids) = Inr ids"
  by (induction ids) simp_all

lemma read_ids_length: "read_ids pid vs = Inr ids \<Longrightarrow> length ids = length vs"
  by (induction vs arbitrary: ids) (auto split: int_reading.splits sum.splits)

lemma to_ids_Inr:
  "to_ids vs valid p = Inr ids \<Longrightarrow> length ids = length vs \<and> distinct ids \<and> set ids \<subseteq> set valid"
  by (auto simp: to_ids_def dest: read_ids_length card_distinct split: sum.splits if_splits)

lemma score_entries_step:
  assumes "score_entries p valid acc ((k, v) # kvs) = Inr scores"
  obtains "blank v" "score_entries p valid acc kvs = Inr scores"
  | c x where "c \<in> set valid" "0 \<le> x" "x \<le> pos_max_score p"
      "score_entries p valid (js_put (str_int c) x acc) kvs = Inr scores"
  using assms by (cases "blank v"; cases "parse_int k"; cases "py_int v") (auto split: if_splits)

lemma score_entries_ok:
  assumes "score_entries p valid acc kvs = Inr scores" and "set valid = active_ids cs p"
    and "distinct (map fst acc)" and "list_all (score_ok cs p) acc"
  shows "distinct (map fst scores) \<and> list_all (score_ok cs p) scores"
  using assms
proof (induction kvs arbitrary: acc)
  case (Cons q kvs)
  obtain k v where q: "q = (k, v)" by fastforce
  from Cons.prems(1) [unfolded q] show ?case
  proof (cases rule: score_entries_step)
    case 1
    with Cons show ?thesis by blast
  next
    case (2 c x)
    have "list_all (score_ok cs p) (js_put (str_int c) x acc)"
      using 2 Cons.prems(2,4) by (auto simp: list_all_iff score_ok_def dest!: js_put_props(2))
    with 2(4) Cons show ?thesis by (metis js_put_props(1))
  qed
qed simp

lemma score_entries_ints:
  assumes "list_all (score_ok cs p) kvs" and "distinct (map fst (acc @ kvs))"
    and "set valid = active_ids cs p"
  shows "score_entries p valid acc (map (\<lambda>(k, x). (k, JInt x)) kvs) = Inr (acc @ kvs)"
  using assms
proof (induction kvs arbitrary: acc)
  case (Cons q kvs)
  obtain c x where q: "q = (str_int c, x)" "c \<in> active_ids cs p" "0 \<le> x" "x \<le> pos_max_score p"
    using Cons.prems(1) by (cases q) (auto simp: score_ok_def)
  then have "js_put (str_int c) x acc = acc @ [q]"
    using Cons.prems(2) by (intro trans [OF js_put_props(4)]) auto
  with q Cons show ?case by simp
qed simp

lemma limits_of_marks: "pos_type p \<noteq> REFERENDUM \<Longrightarrow> pos_type p \<noteq> SCORE \<Longrightarrow>
    normalize_selection cs p raw = normalize_marks cs p raw"
  by (simp add: normalize_selection_def split: ballot_type.splits)

section \<open>Soundness and round trip\<close>

lemma marks_accepted:
  assumes "normalize_marks cs p raw = Inr c" and "pos_type p \<noteq> REFERENDUM" and "pos_type p \<noteq> SCORE"
  shows "selection_ok cs p c"
proof (cases "as_list raw")
  case Nil
  with assms(1) show ?thesis by (auto simp: normalize_marks_def case_prod_unfold Let_def split: if_splits)
next
  case (Cons v vs)
  with assms(1) obtain ids where ids: "to_ids (v # vs) (map ca_id (active_candidates cs p)) p = Inr ids"
    "int (length ids) \<le> snd (effective_limits cs p)" "fst (effective_limits cs p) \<le> int (length ids)"
    "c = Some (Marks (if pos_type p = RANKED then ids else sort ids))"
    by (auto simp: normalize_marks_def case_prod_unfold Let_def split: sum.splits if_splits)
  from to_ids_Inr [OF ids(1)] have "ids \<noteq> []" "distinct ids" "set ids \<subseteq> active_ids cs p"
    by (auto simp: active_ids_def)
  moreover from this(1) have "sort ids \<noteq> []" by (metis set_empty set_sort)
  ultimately show ?thesis using ids(2-4) assms(2,3) by simp
qed

lemma scores_accepted:
  assumes "normalize_scores cs p raw = Inr c" and "pos_type p = SCORE"
  shows "selection_ok cs p c"
proof (cases "blank raw \<or> raw = JObj []")
  case True
  with assms(1) show ?thesis by (auto simp: normalize_scores_def Let_def split: if_splits)
next
  case False
  with assms(1) obtain kvs scores where raw: "raw = JObj kvs"
    and s: "score_entries p (map ca_id (active_candidates cs p)) [] kvs = Inr scores"
    and rest: "(if scores = [] then (if pos_abstain p then Inr None else Inl (Rejected Scores_required (Some (pos_id p))))
       else if int (length scores) < fst (effective_limits cs p)
       then Inl (Rejected Too_few_scored (Some (pos_id p)))
       else Inr (Some (Scores (sort_key (\<lambda>(k, _). key_id k) scores)))) = Inr c"
    by (auto simp: normalize_scores_def Let_def split: json.splits sum.splits)
  have ok: "distinct (map fst scores) \<and> list_all (score_ok cs p) scores"
    using score_entries_ok [OF s] by (simp add: active_ids_def)
  let ?t = "sort_key (\<lambda>(k, _). key_id k) scores"
  have "distinct (map fst ?t)"
    using ok mset_eq_imp_distinct_iff [of "map fst ?t" "map fst scores"] by (simp add: mset_map)
  moreover have "list_all (score_ok cs p) ?t" "length ?t = length scores" "?t = [] \<longleftrightarrow> scores = []"
    using ok by (auto simp: list_all_iff simp flip: length_0_conv)
  moreover have "sorted (map (\<lambda>(k, _). key_id k) ?t)" by simp
  ultimately show ?thesis
    using rest assms(2) by (auto simp del: sorted_sort_key split: if_splits) 
qed

text \<open>
  A selection that validation accepts is a legal vote for its position: an abstention
  only where the position allows it; otherwise YES or NO, or scores between 0 and the
  maximum for different active candidates, or different active candidates within the
  limits of the ballot type, in the canonical order.
\<close>

lemma accepted_selection_legal:
  assumes "normalize_selection cs p raw = Inr c"
  shows "selection_ok cs p c"
proof (cases "pos_type p \<in> {REFERENDUM, SCORE}")
  case False
  with assms limits_of_marks marks_accepted show ?thesis by simp
next
  case True
  with assms scores_accepted show ?thesis
    by (auto simp: normalize_selection_def normalize_referendum_def split: list.splits json.splits if_splits)
qed

lemma legal_selection_accepted:
  assumes "selection_ok cs p c"
  shows "normalize_selection cs p (json_of_choice c) = Inr c"
proof (cases c rule: json_of_choice.cases)
  case 1
  with assms show ?thesis
    by (simp add: normalize_selection_def normalize_referendum_def normalize_scores_def normalize_marks_def
        case_prod_unfold Let_def split: ballot_type.splits)
next
  case (2 a)
  with assms show ?thesis
    by (auto simp: normalize_selection_def normalize_referendum_def blank_def upper_def ascii_upper_def)
next
  case (3 kvs)
  with assms have "score_entries p (map ca_id (active_candidates cs p)) [] (map (\<lambda>(k, x). (k, JInt x)) kvs) = Inr kvs"
    using score_entries_ints [of cs p kvs "[]"] by (simp add: active_ids_def)
  with 3 assms show ?thesis
    by (simp add: normalize_selection_def normalize_scores_def sort_key_sorted)
next
  case (4 ids)
  have "filter (\<lambda>v. \<not> blank v) (map JInt ids) = map JInt ids" by (simp add: filter_map comp_def)
  with 4 assms show ?thesis
    by (auto simp: limits_of_marks normalize_marks_def to_ids_def case_prod_unfold Let_def distinct_card
        active_ids_def sort_key_sorted)
qed

section \<open>The whole ballot\<close>

definition legal_ballot :: "election \<Rightarrow> int list \<Rightarrow> (string \<times> choice) list \<Rightarrow> bool" where
  "legal_ballot el style sels \<longleftrightarrow>
     list_all2 (\<lambda>p (k, c). k = str_int (pos_id p) \<and> selection_ok (candidates el) p c)
       (style_positions el style) sels"

lemma normalize_all_legal:
  "normalize_all cs kvs ps = Inr sels \<Longrightarrow>
     list_all2 (\<lambda>p (k, c). k = str_int (pos_id p) \<and> selection_ok cs p c) ps sels"
  by (induction ps arbitrary: sels)
    (auto simp: Let_def dest: accepted_selection_legal split: sum.splits)

lemma normalize_all_accepts:
  assumes "list_all2 (\<lambda>p (k, c). k = str_int (pos_id p) \<and> selection_ok cs p c) ps sels"
    and "\<And>k c. (k, c) \<in> set sels \<Longrightarrow> js_get kvs k = Some (json_of_choice c)"
  shows "normalize_all cs kvs ps = Inr sels"
  using assms
proof (induction rule: list_all2_induct)
  case (Cons p ps q sels)
  obtain c where q: "q = (str_int (pos_id p), c)" "selection_ok cs p c" using Cons.hyps(1) by (cases q) auto
  then have "js_get kvs (str_int (pos_id p)) = Some (json_of_choice c)" by (intro Cons.prems) simp
  moreover have "normalize_all cs kvs ps = Inr sels" using Cons.IH Cons.prems by simp
  ultimately show ?case using q legal_selection_accepted [OF q(2)] by simp
qed simp

text \<open>
  C4: A ballot is accepted as a whole or not at all. An accepted ballot is an object whose
  keys are positions the voter may vote on, and it holds one legal selection for every
  position of the voter's ballot style, in ballot order, and nothing else.
\<close>

theorem accepted_ballot_complete:
  assumes "validate_ballot el style payload = Inr sels"
  shows "legal_ballot el style sels
    \<and> (\<exists>kvs. payload = JObj kvs \<and> fst ` set kvs \<subseteq> str_int ` set style)"
  using assms normalize_all_legal
  by (auto simp: validate_ballot_def legal_ballot_def split: json.splits if_splits)


section \<open>A configuration without problems can be voted on\<close>

lemma card_active_ids: "card (active_ids cs p) \<le> length (active_candidates cs p)"
  unfolding active_ids_def by (metis card_image_le card_length finite_set le_trans)

lemma configured_position:
  assumes "configuration_problems el = []" and "is_institutional (the_event el)"
    and "p \<in> set (positions el)"
  shows "position_problems (candidates el) p = []"
  using assms by (auto simp: configuration_problems_def Let_def)

lemma legal_marks_exist:
  assumes "position_problems cs p = []" and "pos_type p \<notin> {SCORE, REFERENDUM}"
    and "distinct (map ca_id (active_candidates cs p))" and "1 \<le> pos_max p"
  shows "\<exists>ids. selection_ok cs p (Some (Marks ids))"
proof -
  let ?n = "int (length (active_candidates cs p))" and ?lo = "fst (effective_limits cs p)"
    and ?hi = "snd (effective_limits cs p)"
  let ?ids = "take (nat (max ?lo 1)) (sort (map ca_id (active_candidates cs p)))"
  have "?n \<noteq> 0" "counts_marks (pos_type p) \<Longrightarrow> ?lo \<le> ?n"
    using assms(1,2) by (auto simp: position_problems_def is_referendum_def case_prod_unfold Let_def split: if_splits)
  then have n: "1 \<le> ?n" "counts_marks (pos_type p) \<Longrightarrow> ?lo \<le> ?n" by linarith+
  have "max ?lo 1 \<le> ?n \<and> max ?lo 1 \<le> ?hi"
    using n assms(2,4) by (cases "pos_type p") (auto simp: effective_limits_def counts_marks_def Let_def)
  moreover from this have "0 \<le> max ?lo 1" "int (length ?ids) = max ?lo 1" by (auto simp: min_absorb2 nat_le_iff)
  moreover have "set ?ids \<subseteq> active_ids cs p" by (auto simp: active_ids_def dest: in_set_takeD)
  moreover have "distinct ?ids" "sorted ?ids" using assms(3) by (simp_all add: sorted_wrt_take)
  moreover have "?ids \<noteq> []" using calculation(3) by (metis list.size(3) max.cobounded2 of_nat_0 not_one_le_zero)
  ultimately have "selection_ok cs p (Some (Marks ?ids))" using assms(2) by auto
  then show ?thesis by blast
qed

text \<open>
  In an institutional election whose configuration has no problems, every position but
  a scored one can be voted on: there is a selection other than an abstention that
  validation accepts.
\<close>

theorem configured_positions_votable:
  assumes "configuration_problems el = []" and "is_institutional (the_event el)"
    and "p \<in> set (positions el)" and "pos_type p \<noteq> SCORE"
    and "distinct (map ca_id (candidates el))" and "1 \<le> pos_max p"
  shows "\<exists>raw sel. normalize_selection (candidates el) p raw = Inr (Some sel)"
proof (cases "pos_type p = REFERENDUM")
  case True
  then have "selection_ok (candidates el) p (Some (Answer ''YES''))" by simp
  with legal_selection_accepted show ?thesis by blast
next
  case False
  have "distinct (map ca_id (active_candidates (candidates el) p))"
    using assms(5) by (simp add: active_candidates_def candidates_of_def distinct_map_filter)
  with legal_marks_exist [OF configured_position [OF assms(1-3)]] False assms(4,6)
  obtain ids where "selection_ok (candidates el) p (Some (Marks ids))" by auto
  with legal_selection_accepted show ?thesis by blast
qed

text \<open>
  The checks do not cover a scored position whose minimum exceeds its candidates: it
  is reported as free of problems (given a candidate and no more seats than candidates),
  yet where abstaining is not allowed no submission for it is ever accepted, so no voter
  can cast a ballot.
\<close>

theorem scored_position_unvotable:
  assumes "pos_type p = SCORE" and "\<not> pos_abstain p" and "active_candidates cs p \<noteq> []"
    and "int (length (active_candidates cs p)) < pos_min p"
    and "pos_seats p \<le> int (length (active_candidates cs p))"
  shows "position_problems cs p = [] \<and> (\<forall>raw c. normalize_selection cs p raw \<noteq> Inr c)"
proof (intro conjI allI notI)
  show "position_problems cs p = []"
    using assms by (auto simp: position_problems_def is_referendum_def counts_marks_def case_prod_unfold Let_def)
next
  fix raw c
  assume "normalize_selection cs p raw = Inr c"
  from accepted_selection_legal [OF this] assms(1,2)
  obtain kvs where c: "c = Some (Scores kvs)" and ok: "selection_ok cs p c"
    by (cases c rule: json_of_choice.cases) auto
  then have kvs: "distinct (map fst kvs)" "fst ` set kvs \<subseteq> str_int ` active_ids cs p"
      "pos_min p \<le> int (length kvs)"
    using assms(1) by (auto simp: list_all_iff score_ok_def effective_limits_def Let_def)
  have "length kvs = card (fst ` set kvs)" using distinct_card [OF kvs(1)] by simp
  also have "\<dots> \<le> card (str_int ` active_ids cs p)" using kvs(2) by (intro card_mono) (auto simp: active_ids_def)
  also have "\<dots> \<le> card (active_ids cs p)" by (intro card_image_le) (simp add: active_ids_def)
  also have "\<dots> \<le> length (active_candidates cs p)" by (rule card_active_ids)
  finally show False using kvs(3) assms(4) by simp
qed

section \<open>Worked examples\<close>

lemma ex_limits [simp]:
  "active_candidates (candidates ex_election) (ex_position t lo hi) = [ex_candidate 1, ex_candidate 2]"
  by (simp add: active_candidates_def candidates_of_def ex_defs)

theorem accepted_ballot_complete_witness:
  "legal_ballot ex_election [7] [(str_int 7, Some (Marks [1, 2]))]"
proof -
  have "validate_ballot ex_election [7] (JObj [(str_int 7, JList [JStr ''2'', JInt 1])])
      = Inr [(str_int 7, Some (Marks [1, 2]))]"
  proof -
    have "parse_int ''2'' = Some 2" by code_simp
    moreover have "positions ex_election = [ex_position MULTIPLE 1 2]" by (simp add: ex_election_def)
    moreover have "pos_id (ex_position t lo hi) = 7" "pos_type (ex_position t lo hi) = t"
      "pos_min (ex_position t lo hi) = lo" "pos_max (ex_position t lo hi) = hi" for t lo hi
      by (simp_all add: ex_position_def)
    moreover have "ca_id (ex_candidate i) = i" for i by (simp add: ex_candidate_def)
    ultimately show ?thesis
      by (simp add: validate_ballot_def style_positions_def normalize_selection_def normalize_marks_def
          js_get_def to_ids_def effective_limits_def blank_def)
  qed
  from accepted_ballot_complete [OF this] show ?thesis by blast
qed

lemma ex_legal: "legal_ballot ex_election [7] [(str_int 7, Some (Marks [1, 2]))]"
  by (simp add: legal_ballot_def style_positions_def effective_limits_def active_ids_def ex_defs
      active_candidates_def candidates_of_def)


theorem configured_positions_votable_witness:
  "\<exists>raw sel. normalize_selection (candidates ex_election) (ex_position MULTIPLE 1 2) raw = Inr (Some sel)"
proof (rule configured_positions_votable)
  show "configuration_problems ex_election = []"
    by (simp add: configuration_problems_def position_problems_def is_referendum_def counts_marks_def
        effective_limits_def is_institutional_def ex_defs active_candidates_def candidates_of_def)
qed (simp_all add: ex_defs is_institutional_def)

theorem scored_position_unvotable_witness:
  "\<forall>raw c. normalize_selection (candidates ex_election) (ex_position SCORE 3 1) raw \<noteq> Inr c"
  using scored_position_unvotable [of "ex_position SCORE 3 1" "candidates ex_election"]
  by (simp add: ex_position_def [of SCORE] del: ex_limits)
    (simp add: ex_election_def ex_candidate_def active_candidates_def candidates_of_def)

end
