(* ===== verification/Eligibility.thy ===== *)
theory Eligibility
  imports Election_Model "HOL-Library.Sublist"
begin

text \<open>
  elections/eligibility.py and \<open>Constituency\<close> of elections/models.py: the tree of
  constituencies with its materialized paths, the rules a voter must meet, and the ballot
  style, the positions a voter may vote on.

  \<open>text\<close> is Python's \<open>str\<close> of a float, a list or a dictionary, which a rule's values
  may hold although the forms only write text.
\<close>

section \<open>Constituencies\<close>

datatype constituency_error = Other_organization

definition parent_row :: "constituency list \<Rightarrow> constituency \<Rightarrow> constituency option" where
  "parent_row rows c =
     (case co_parent c of None \<Rightarrow> None | Some p \<Rightarrow> first_where (\<lambda>r. co_id r = p) rows)"

definition path_for :: "constituency list \<Rightarrow> constituency \<Rightarrow> string" where
  "path_for rows c =
     (case parent_row rows c of None \<Rightarrow> [] | Some p \<Rightarrow> co_path p) @ str_int (co_id c) @ ''/''"

text \<open>
  \<open>save\<close> of a row that is in the table: the row is written, then, when its path is no longer
  the parent's path with its own id, its path and the paths of its subtree are rewritten.
\<close>

definition relocate :: "constituency \<Rightarrow> constituency list \<Rightarrow> constituency list" where
  "relocate c rows =
     (let rows' = update_where (\<lambda>r. co_id r = co_id c) (\<lambda>_. c) rows;
          path = path_for rows c; old = co_path c
      in if path = old then rows'
         else
           let moved = update_where (\<lambda>r. co_id r = co_id c) (\<lambda>r. r\<lparr>co_path := path\<rparr>) rows'
           in if old = [] then moved
              else update_where (\<lambda>r. starts_with old (co_path r) \<and> co_id r \<noteq> co_id c)
                     (\<lambda>r. r\<lparr>co_path := path @ drop (length old) (co_path r)\<rparr>) moved)"

definition save_constituency :: "constituency \<Rightarrow> constituency list \<Rightarrow> constituency_error + constituency list" where
  "save_constituency c rows =
     (case parent_row rows c of
        Some p \<Rightarrow> if co_org p \<noteq> co_org c then Inl Other_organization else Inr (relocate c rows)
      | None \<Rightarrow> Inr (relocate c rows))"

definition subtree :: "constituency list \<Rightarrow> constituency \<Rightarrow> constituency list" where
  "subtree rows c = filter (\<lambda>r. starts_with (co_path c) (co_path r)) rows"

section \<open>Rules\<close>

fun py_str :: "(json \<Rightarrow> string) \<Rightarrow> json \<Rightarrow> string" where
  "py_str text (JStr s) = s"
| "py_str text (JInt i) = str_int i"
| "py_str text (JBool b) = (if b then ''True'' else ''False'')"
| "py_str text JNull = ''None''"
| "py_str text v = text v"

definition attribute_of :: "(json \<Rightarrow> string) \<Rightarrow> voter \<Rightarrow> string \<Rightarrow> string" where
  "attribute_of text v name =
     (case js_get (vo_attributes v) name of
        None \<Rightarrow> ''''
      | Some JNull \<Rightarrow> ''''
      | Some x \<Rightarrow> lower (strip (py_str text x)))"

definition rule_values :: "(json \<Rightarrow> string) \<Rightarrow> rule \<Rightarrow> string list" where
  "rule_values text r = map (\<lambda>x. lower (strip (py_str text x))) (ru_values r)"

definition rule_passes :: "(json \<Rightarrow> string) \<Rightarrow> rule \<Rightarrow> voter \<Rightarrow> bool" where
  "rule_passes text r v =
     (let values = rule_values text r in
      case ru_kind r of
        In_constituency \<Rightarrow>
          (case (vo_constituency v, ru_constituency r) of
             (Some c, Some a) \<Rightarrow> is_within c a
           | _ \<Rightarrow> False)
      | ATTRIBUTE_EQUALS \<Rightarrow>
          attribute_of text v (ru_attribute r) = (case values of [] \<Rightarrow> '''' | x # _ \<Rightarrow> x)
      | ATTRIBUTE_IN \<Rightarrow> attribute_of text v (ru_attribute r) \<in> set values
      | ATTRIBUTE_NOT_IN \<Rightarrow> attribute_of text v (ru_attribute r) \<notin> set values
      | EMAIL_DOMAIN \<Rightarrow>
          (let email = lower (case vo_email v of None \<Rightarrow> '''' | Some e \<Rightarrow> e)
           in email \<noteq> [] \<and> after_last (CHR ''@'') email \<in> set (map lstrip_at values))
      | VERIFIED_EMAIL \<Rightarrow> vo_email_verified v \<noteq> None
      | VERIFIED_PHONE \<Rightarrow> vo_phone_verified v \<noteq> None)"

definition active_rules :: "election \<Rightarrow> rule list" where
  "active_rules el = filter ru_active (rules el)"

datatype ineligibility = Record_suspended | Record_ineligible | Rule_not_met rule

definition election_eligibility :: "(json \<Rightarrow> string) \<Rightarrow> election \<Rightarrow> voter \<Rightarrow> bool \<times> ineligibility list" where
  "election_eligibility text el v =
     (let reasons =
            (if vo_status v = SUSPENDED then [Record_suspended]
             else if vo_status v = INELIGIBLE then [Record_ineligible] else [])
            @ map Rule_not_met
                (filter (\<lambda>r. ru_position r = None \<and> \<not> rule_passes text r v) (active_rules el))
      in (reasons = [], reasons))"

definition position_eligible :: "(json \<Rightarrow> string) \<Rightarrow> position \<Rightarrow> voter \<Rightarrow> rule list \<Rightarrow> bool" where
  "position_eligible text p v rs \<longleftrightarrow>
     (case pos_constituency p of
        None \<Rightarrow> True
      | Some a \<Rightarrow> (case vo_constituency v of None \<Rightarrow> False | Some c \<Rightarrow> is_within c a))
     \<and> list_all (\<lambda>r. rule_passes text r v) (filter (\<lambda>r. ru_position r = Some (pos_id p)) rs)"

definition ballot_style :: "(json \<Rightarrow> string) \<Rightarrow> election \<Rightarrow> voter \<Rightarrow> int list" where
  "ballot_style text el v =
     (if \<not> fst (election_eligibility text el v) then []
      else sort (map pos_id (filter (\<lambda>p. position_eligible text p v (active_rules el)) (positions el))))"

definition eligible_voter_count :: "election \<Rightarrow> nat" where
  "eligible_voter_count el = count_where (\<lambda>v. vo_status v \<notin> {SUSPENDED, INELIGIBLE}) (voters el)"

section \<open>Paths and the tree\<close>

text \<open>The path of a row spells the ids from the root down to the row.\<close>

definition path_text :: "int list \<Rightarrow> string" where
  "path_text ids = concat (map (\<lambda>i. str_int i @ ''/'') ids)"

definition paths_ok :: "constituency list \<Rightarrow> bool" where
  "paths_ok rows \<longleftrightarrow> distinct (map co_id rows) \<and>
     (\<forall>r\<in>set rows. co_path r = path_for rows r \<and> (co_parent r \<noteq> None \<longrightarrow> parent_row rows r \<noteq> None))"

definition child_of :: "constituency list \<Rightarrow> constituency \<Rightarrow> constituency \<Rightarrow> bool" where
  "child_of rows r p \<longleftrightarrow> r \<in> set rows \<and> parent_row rows r = Some p"

lemma slash_free: "CHR ''/'' \<notin> set (str_int i)"
  using str_int_chars [of "CHR ''/''" i] by (auto simp: is_digit_def)

lemma str_slash_inj:
  assumes "str_int i @ CHR ''/'' # x = str_int j @ CHR ''/'' # y"
  shows "i = j \<and> x = y"
proof -
  have t: "takeWhile (\<lambda>c. c \<noteq> CHR ''/'') (str_int k @ CHR ''/'' # z) = str_int k" for k z
    using slash_free [of k] by (subst takeWhile_append2) auto
  from t [of i x] t [of j y] assms have "str_int i = str_int j" by metis
  with assms show ?thesis by simp
qed

lemma path_text_simps [simp]:
  "path_text [] = []" "path_text (i # ids) = str_int i @ CHR ''/'' # path_text ids"
  "path_text (xs @ ys) = path_text xs @ path_text ys"
  by (simp_all add: path_text_def)

lemma path_text_prefix: "path_text ys = path_text xs @ r \<Longrightarrow> \<exists>zs. ys = xs @ zs \<and> r = path_text zs"
proof (induction xs arbitrary: ys)
  case (Cons x xs)
  then obtain y ys' where ys: "ys = y # ys'" by (cases ys) auto
  with Cons.prems have "x = y" "path_text ys' = path_text xs @ r"
    using str_slash_inj [of y "path_text ys'" x "path_text xs @ r"] by auto
  with Cons.IH ys show ?case by auto
qed simp

lemma starts_with_path: "starts_with (path_text xs) (path_text ys) \<longleftrightarrow> prefix xs ys"
  using path_text_prefix [of ys xs] by (auto simp: starts_with_iff prefix_def)

lemma row_path:
  assumes "paths_ok rows" and "r \<in> set rows"
  shows "\<exists>ids. co_path r = path_text (ids @ [co_id r])
    \<and> (case parent_row rows r of None \<Rightarrow> ids = [] | Some p \<Rightarrow> co_path p = path_text ids)"
  using assms(2)
proof (induction "length (co_path r)" arbitrary: r rule: less_induct)
  case less
  have path: "co_path r = path_for rows r" using assms(1) less.prems by (simp add: paths_ok_def)
  show ?case
  proof (cases "parent_row rows r")
    case None
    with path show ?thesis by (simp add: path_for_def)
  next
    case (Some p)
    then have p: "p \<in> set rows" by (auto simp: parent_row_def dest: first_where_Some split: option.splits)
    have "length (co_path p) < length (co_path r)" using path Some by (simp add: path_for_def)
    from less.hyps [OF this p] obtain ids where "co_path p = path_text (ids @ [co_id p])" by blast
    with path Some show ?thesis by (intro exI [of _ "ids @ [co_id p]"]) (simp add: path_for_def)
  qed
qed

lemma path_empty: "path_text ids = [] \<longleftrightarrow> ids = []"
  by (cases ids) simp_all

lemma row_paths_eq:
  assumes "paths_ok rows" and "a \<in> set rows" and "b \<in> set rows"
    and "path_text xs = co_path a" and "path_text xs = co_path b"
  shows "a = b"
proof -
  obtain ia ib where "co_path a = path_text (ia @ [co_id a])" "co_path b = path_text (ib @ [co_id b])"
    using row_path assms(1-3) by meson
  then have "prefix (ia @ [co_id a]) (ib @ [co_id b])" "prefix (ib @ [co_id b]) (ia @ [co_id a])"
    using assms(4,5) by (metis prefix_order.refl starts_with_path)+
  then have "ia @ [co_id a] = ib @ [co_id b]" by (rule prefix_order.antisym)
  then have "co_id a = co_id b" by simp
  with assms(1-3) show ?thesis unfolding paths_ok_def by (metis distinct_map inj_onD)
qed

lemma parent_in: "parent_row rows r = Some p \<Longrightarrow> p \<in> set rows \<and> co_parent r = Some (co_id p)"
  by (auto simp: parent_row_def dest: first_where_Some split: option.splits)

lemma parent_path: "paths_ok rows \<Longrightarrow> child_of rows r p \<Longrightarrow> co_path r = co_path p @ str_int (co_id r) @ ''/''"
  by (simp add: paths_ok_def path_for_def child_of_def)

lemma within_parent:
  assumes "paths_ok rows" and "a \<in> set rows" and "b \<in> set rows" and "is_within a b" and "a \<noteq> b"
  obtains p where "child_of rows a p" and "is_within p b"
proof -
  obtain ia where a: "co_path a = path_text (ia @ [co_id a])"
    "case parent_row rows a of None \<Rightarrow> ia = [] | Some p \<Rightarrow> co_path p = path_text ia"
    using row_path [OF assms(1,2)] by blast
  obtain ib where b: "co_path b = path_text (ib @ [co_id b])" using row_path [OF assms(1,3)] by blast
  have "prefix (ib @ [co_id b]) (ia @ [co_id a])"
    using assms(4) a b by (simp only: is_within_def starts_with_path)
  moreover have "ib @ [co_id b] \<noteq> ia @ [co_id a]"
    using row_paths_eq [OF assms(1-3), of "ia @ [co_id a]"] a b assms(5) by metis
  ultimately have pre: "prefix (ib @ [co_id b]) ia" by (auto simp: prefix_snoc)
  then have "ia \<noteq> []" by auto
  with a(2) obtain p where p: "parent_row rows a = Some p" "co_path p = path_text ia"
    by (cases "parent_row rows a") auto
  have "is_within p b" unfolding is_within_def p(2) b starts_with_path by (rule pre)
  with p(1) assms(2) that show ?thesis by (auto simp: child_of_def)
qed

lemma within_descends:
  assumes "paths_ok rows" and "a \<in> set rows" and "b \<in> set rows" and "is_within a b"
  shows "(child_of rows)\<^sup>*\<^sup>* a b"
  using assms(2,4)
proof (induction "length (co_path a)" arbitrary: a rule: less_induct)
  case less
  show ?case
  proof (cases "a = b")
    case False
    obtain p where p: "child_of rows a p" "is_within p b"
      using within_parent [OF assms(1) less.prems(1) assms(3) less.prems(2) False] .
    from p(1) have "p \<in> set rows" "length (co_path p) < length (co_path a)"
      using parent_path [OF assms(1) p(1)] parent_in by (auto simp: child_of_def)
    with less.hyps p show ?thesis by (meson converse_rtranclp_into_rtranclp)
  qed simp
qed

text \<open>
  Being within a constituency, which the code decides by comparing path prefixes,
  means being that constituency or one of its descendants in the tree: ids that share
  digits (1 and 12) are never confused.
\<close>

theorem within_iff_descendant:
  assumes "paths_ok rows" and "a \<in> set rows" and "b \<in> set rows"
  shows "is_within a b \<longleftrightarrow> (child_of rows)\<^sup>*\<^sup>* a b"
proof
  assume "(child_of rows)\<^sup>*\<^sup>* a b"
  then show "is_within a b"
  proof (induction rule: converse_rtranclp_induct)
    case (step x y)
    with parent_path [OF assms(1), of x y] show ?case by (auto simp: is_within_def starts_with_iff)
  qed (simp add: is_within_def starts_with_iff)
qed (rule within_descends [OF assms])

section \<open>Moving a constituency\<close>

definition moved_row :: "constituency \<Rightarrow> string \<Rightarrow> constituency \<Rightarrow> constituency" where
  "moved_row c path r =
     (if co_id r = co_id c then c\<lparr>co_path := path\<rparr>
      else if starts_with (co_path c) (co_path r) then r\<lparr>co_path := path @ drop (length (co_path c)) (co_path r)\<rparr>
      else r)"

lemma path_for_nonempty: "path_for rows c \<noteq> []"
  by (simp add: path_for_def)

lemma drop_prefix: "starts_with p s \<Longrightarrow> p @ drop (length p) s = s"
  by (auto simp: starts_with_iff)

lemma relocate_map:
  assumes "co_path c \<noteq> []"
  shows "relocate c rows = map (moved_row c (path_for rows c)) rows"
  using assms by (auto simp: relocate_def Let_def update_where_def moved_row_def drop_prefix)

lemma find_map: "find P (map f xs) = map_option f (find (P \<circ> f) xs)"
  by (induction xs) auto

lemma parent_row_moved:
  "parent_row (map (moved_row c path) rows) x = map_option (moved_row c path) (parent_row rows x)"
proof -
  have "co_id (moved_row c path r) = co_id r" for r by (simp add: moved_row_def)
  then show ?thesis by (simp add: parent_row_def first_where_def find_map comp_def split: option.splits)
qed

lemma parent_row_path [simp]: "parent_row rows (c\<lparr>co_path := path\<rparr>) = parent_row rows c"
  by (simp add: parent_row_def)

lemma moved_path:
  assumes "paths_ok rows" and "old \<in> set rows" and "co_id c = co_id old" and "co_path c = co_path old"
    and top: "\<And>p. parent_row rows c = Some p \<Longrightarrow> \<not> is_within p old" and "r \<in> set rows"
  shows "co_path (moved_row c (path_for rows c) r)
    = path_for (map (moved_row c (path_for rows c)) rows) (moved_row c (path_for rows c) r)"
proof (cases "co_id r = co_id c")
  case True
  have "co_path (moved_row c P p) = co_path p" if "parent_row rows c = Some p" for p P
  proof -
    from top [OF that] have "\<not> starts_with (co_path c) (co_path p)" by (simp add: is_within_def assms(4))
    moreover from this have "co_id p \<noteq> co_id c"
      using parent_in [OF that] assms(1-4) by (metis distinct_map inj_onD paths_ok_def starts_with_iff append_Nil2)
    ultimately show ?thesis by (simp add: moved_row_def)
  qed
  moreover have "moved_row c P r = c\<lparr>co_path := P\<rparr>" for P using True by (simp add: moved_row_def)
  ultimately show ?thesis
    by (cases "parent_row rows c") (simp_all add: path_for_def parent_row_moved)
next
  case False
  let ?P = "path_for rows c" and ?g = "moved_row c (path_for rows c)"
  have keep: "parent_row rows (?g r) = parent_row rows r" "co_id (?g r) = co_id r"
    using False by (simp_all add: moved_row_def parent_row_def)
  show ?thesis
  proof (cases "parent_row rows r")
    case None
    have r: "co_path r = str_int (co_id r) @ ''/''"
      using assms(1,6) None by (simp add: paths_ok_def path_for_def)
    have "\<not> is_within r old"
    proof
      assume "is_within r old"
      moreover have "r \<noteq> old" using False assms(3) by auto
      ultimately show False
        using within_parent [OF assms(1,6,2)] None by (metis child_of_def option.distinct(1))
    qed
    with False assms(4) have "?g r = r" by (simp add: moved_row_def is_within_def)
    with r None keep show ?thesis by (simp add: path_for_def parent_row_moved)
  next
    case (Some q)
    have q: "co_path r = co_path q @ str_int (co_id r) @ ''/''" "q \<in> set rows"
      using parent_path [OF assms(1)] parent_in [OF Some] assms(6) Some by (auto simp: child_of_def)
    have within: "is_within r old \<longleftrightarrow> is_within q old"
    proof
      assume w: "is_within r old"
      moreover have "r \<noteq> old" using False assms(3) by auto
      ultimately obtain p where "child_of rows r p" "is_within p old"
        using within_parent [OF assms(1,6,2)] by metis
      with Some show "is_within q old" by (simp add: child_of_def)
    qed (auto simp: is_within_def starts_with_iff q(1))
    have "co_path (?g r) = co_path (?g q) @ str_int (co_id r) @ ''/''"
    proof (cases "is_within q old")
      case True
      then have s: "starts_with (co_path c) (co_path q)" "starts_with (co_path c) (co_path r)"
        using within by (simp_all add: is_within_def assms(4))
      then have "drop (length (co_path c)) (co_path r) = drop (length (co_path c)) (co_path q) @ str_int (co_id r) @ ''/''"
        using q(1) by (auto simp: starts_with_iff)
      moreover have "co_path (?g q) = ?P @ drop (length (co_path c)) (co_path q)"
      proof (cases "co_id q = co_id c")
        case True
        then have "q = old" using q(2) assms(1-3) by (metis distinct_map inj_onD paths_ok_def)
        with True assms(4) show ?thesis by (simp add: moved_row_def)
      qed (use s(1) in \<open>simp add: moved_row_def\<close>)
      ultimately show ?thesis using False s(2) by (simp add: moved_row_def)
    next
      case outside: False
      then have "\<not> starts_with (co_path c) (co_path q)" "\<not> starts_with (co_path c) (co_path r)"
        using within by (simp_all add: is_within_def assms(4))
      moreover have "co_id q \<noteq> co_id c"
        using outside q(2) assms(1-3) by (metis distinct_map inj_onD paths_ok_def is_within_def starts_with_iff append_Nil2)
      ultimately show ?thesis using False q(1) by (simp add: moved_row_def)
    qed
    with Some keep show ?thesis by (simp add: path_for_def parent_row_moved)
  qed
qed


section \<open>The ballot style\<close>

text \<open>
  A voter's ballot style is exactly the positions the voter may vote on: in order and
  without repetition, a position is in it if and only if the voter's record is neither
  suspended nor ineligible, every active rule of the whole election and of the position
  is met, and the voter's constituency lies within the position's.
\<close>

theorem ballot_style_exact:
  assumes "distinct (map pos_id (positions el))" and "p \<in> set (positions el)"
  shows "sorted (ballot_style text el v) \<and> distinct (ballot_style text el v)
    \<and> (pos_id p \<in> set (ballot_style text el v) \<longleftrightarrow>
         vo_status v \<notin> {SUSPENDED, INELIGIBLE}
         \<and> (\<forall>r\<in>set (rules el). ru_active r \<and> ru_position r \<in> {None, Some (pos_id p)} \<longrightarrow> rule_passes text r v)
         \<and> (pos_constituency p = None \<or>
              (\<exists>c a. vo_constituency v = Some c \<and> pos_constituency p = Some a \<and> is_within c a)))"
proof -
  have "pos_id p \<in> pos_id ` {q \<in> set (positions el). position_eligible text q v (active_rules el)}
      \<longleftrightarrow> position_eligible text p v (active_rules el)"
    using assms by (auto simp: distinct_map inj_on_def)
  moreover have "position_eligible text p v (active_rules el) \<longleftrightarrow>
      (\<forall>r\<in>set (rules el). ru_active r \<and> ru_position r = Some (pos_id p) \<longrightarrow> rule_passes text r v)
      \<and> (pos_constituency p = None \<or>
           (\<exists>c a. vo_constituency v = Some c \<and> pos_constituency p = Some a \<and> is_within c a))"
    by (auto simp: position_eligible_def active_rules_def list_all_iff split: option.splits)
  moreover have "fst (election_eligibility text el v) \<longleftrightarrow> vo_status v \<notin> {SUSPENDED, INELIGIBLE}
      \<and> (\<forall>r\<in>set (rules el). ru_active r \<and> ru_position r = None \<longrightarrow> rule_passes text r v)"
    by (auto simp: election_eligibility_def active_rules_def Let_def filter_empty_conv)
  moreover have "distinct (map pos_id (filter (\<lambda>q. position_eligible text q v (active_rules el)) (positions el)))"
    using assms(1) by (rule distinct_map_filter)
  ultimately show ?thesis by (auto simp: ballot_style_def simp del: rule_passes_def)
qed

section \<open>Worked examples\<close>

definition ex_units :: "constituency list" where
  "ex_units =
     [\<lparr>co_id = 1, co_org = 5, co_parent = None, co_path = ''1/''\<rparr>,
      \<lparr>co_id = 12, co_org = 5, co_parent = None, co_path = ''12/''\<rparr>,
      \<lparr>co_id = 2, co_org = 5, co_parent = Some 1, co_path = ''1/2/''\<rparr>]"

definition ex_moved :: constituency where
  "ex_moved = \<lparr>co_id = 2, co_org = 5, co_parent = Some 12, co_path = ''1/2/''\<rparr>"

lemma ex_ids: "str_int 1 = ''1''" "str_int 12 = ''12''" "str_int 2 = ''2''"
  by code_simp+

lemma ex_units_ok: "paths_ok ex_units"
  by (simp add: paths_ok_def path_for_def parent_row_def first_where_def ex_units_def ex_ids)

theorem within_iff_descendant_witness:
  "\<not> (child_of ex_units)\<^sup>*\<^sup>* (ex_units ! 1) (ex_units ! 0) \<and> (child_of ex_units)\<^sup>*\<^sup>* (ex_units ! 2) (ex_units ! 0)"
  using within_iff_descendant [OF ex_units_ok, of "ex_units ! 1" "ex_units ! 0"]
    within_iff_descendant [OF ex_units_ok, of "ex_units ! 2" "ex_units ! 0"]
  by (simp add: ex_units_def is_within_def starts_with_def)


definition ex_roll :: election where
  "ex_roll =
     \<lparr>the_event = ex_event, positions =
        [\<lparr>pos_id = 4, pos_name = ''Chair'', pos_type = SINGLE, pos_min = 1, pos_max = 1, pos_abstain = True,
          pos_seats = 1, pos_max_score = 10, pos_threshold = 50, pos_constituency = Some (ex_units ! 0),
          pos_price = None, pos_max_per_voter = None\<rparr>],
      candidates = [], voters = [], rules = [], trustees = [], packages = []\<rparr>"

definition ex_voter :: voter where
  "ex_voter =
     \<lparr>vo_id = 1, vo_election = 1, vo_identifier = None, vo_name = [], vo_email = None, vo_email_index = [],
      vo_phone = None, vo_phone_index = [],
      vo_constituency = Some (ex_units ! 2), vo_attributes = [], vo_status = ELIGIBLE, vo_status_reason = [],
      vo_credential_hash = None, vo_credential_text = None, vo_credential_issued = None,
      vo_credential_version = 0, vo_email_verified = None, vo_phone_verified = None, vo_verified_at = None,
      vo_user = None, vo_sso_index = [], vo_source = MANUAL, vo_invited_at = None, vo_voted_at = None\<rparr>"

theorem ballot_style_exact_witness: "4 \<in> set (ballot_style (\<lambda>_. []) ex_roll ex_voter)"
  using ballot_style_exact [of ex_roll "positions ex_roll ! 0" "\<lambda>_. []" ex_voter]
  by (simp add: ex_roll_def ex_voter_def ex_units_def is_within_def starts_with_def)

end
