(* ===== verification/Audit_Chain.thy ===== *)
theory Audit_Chain
  imports Json
begin

text \<open>
  core/audit.py and the rows of core/models.py it writes: a hash chain per organization
  and one for the platform, the head of each chain, the entry every operation records and
  the verification of a chain.

  \<open>codec\<close> holds what the file takes from outside: the hexadecimal digest of SHA-256, the
  text of a float and the text of a point in time (\<open>strftime\<close> in UTC to the microsecond).
  The other components log through \<open>audit_note\<close>, the part of an entry that says what
  happened to what; \<open>call_of_note\<close> makes it a call of \<open>record\<close>.
\<close>

record codec =
  sha_hex :: "string \<Rightarrow> string"
  float_repr :: "rat \<Rightarrow> string"
  stamp :: "int \<Rightarrow> string"

section \<open>Rows\<close>

record audit_fields =
  au_chain :: string
  au_seq :: int
  au_type :: string
  au_actor :: "int option"
  au_label :: string
  au_org :: "int option"
  au_election :: "int option"
  au_target_type :: string
  au_target_id :: string
  au_summary :: string
  au_ip :: "string option"
  au_agent :: string
  au_correlation :: string
  au_changes :: json
  au_metadata :: json
  au_result :: string
  au_reason :: string
  au_created :: int

record audit_row =
  ar_fields :: audit_fields
  ar_prev :: string
  ar_hash :: string

record audit_store =
  au_rows :: "audit_row list"
  au_heads :: "(string \<times> (int \<times> string)) list"

definition genesis :: string where
  "genesis = replicate 64 (CHR ''0'')"

section \<open>Hashing an entry\<close>

definition opt_int :: "int option \<Rightarrow> json" where
  "opt_int x = (case x of None \<Rightarrow> JNull | Some i \<Rightarrow> JInt i)"

definition opt_str :: "string option \<Rightarrow> json" where
  "opt_str x = (case x of None \<Rightarrow> JNull | Some s \<Rightarrow> JStr s)"

definition hashed_payload :: "codec \<Rightarrow> audit_fields \<Rightarrow> json" where
  "hashed_payload K f = JObj
     [(''chain'', JStr (au_chain f)), (''seq'', JInt (au_seq f)), (''event_type'', JStr (au_type f)),
      (''actor_id'', opt_int (au_actor f)), (''actor_label'', JStr (au_label f)),
      (''organization_id'', opt_int (au_org f)), (''election_id'', opt_int (au_election f)),
      (''target_type'', JStr (au_target_type f)), (''target_id'', JStr (au_target_id f)),
      (''summary'', JStr (au_summary f)), (''ip_address'', opt_str (au_ip f)),
      (''user_agent'', JStr (au_agent f)), (''correlation_id'', JStr (au_correlation f)),
      (''changes'', au_changes f), (''metadata'', au_metadata f), (''result'', JStr (au_result f)),
      (''reason'', JStr (au_reason f)), (''created_at'', JStr (stamp K (au_created f)))]"

definition hash_input :: "codec \<Rightarrow> string \<Rightarrow> audit_fields \<Rightarrow> string" where
  "hash_input K prev f = prev @ canonical_json (float_repr K) (hashed_payload K f)"

definition compute_hash :: "codec \<Rightarrow> string \<Rightarrow> audit_fields \<Rightarrow> string" where
  "compute_hash K prev f = sha_hex K (hash_input K prev f)"

definition chain_for :: "int option \<Rightarrow> string" where
  "chain_for org = (case org of Some i \<Rightarrow> (if i \<noteq> 0 then ''org:'' @ str_int i else ''platform'') | None \<Rightarrow> ''platform'')"

text \<open>\<open>value or {}\<close> through the canonical encoding and back: the keys come back sorted.\<close>

definition normalize_json :: "json option \<Rightarrow> json" where
  "normalize_json v = (case v of None \<Rightarrow> JObj [] | Some j \<Rightarrow> sort_keys j)"

definition diff :: "(string \<times> json) list \<Rightarrow> (string \<times> json) list \<Rightarrow> json" where
  "diff before after =
     (let keys = sort (remdups (map fst before @ map fst after));
          old = (\<lambda>k. case js_get before k of Some v \<Rightarrow> v | None \<Rightarrow> JNull);
          new = (\<lambda>k. case js_get after k of Some v \<Rightarrow> v | None \<Rightarrow> JNull)
      in normalize_json (Some (JObj
           (map (\<lambda>k. (k, JObj [(''old'', old k), (''new'', new k)])) (filter (\<lambda>k. old k \<noteq> new k) keys)))))"

section \<open>Recording\<close>

text \<open>The arguments of \<open>record\<close>, with what it reads from the request.\<close>

record audit_call =
  ac_type :: string
  ac_request_user :: "(int \<times> string) option"
  ac_actor :: "(int \<times> string) option"
  ac_event :: "(int \<times> int option) option"
  ac_organization :: "int option"
  ac_organization_id :: "int option"
  ac_target :: "(string \<times> string) option"
  ac_target_type :: string
  ac_target_id :: string
  ac_summary :: string
  ac_changes :: "json option"
  ac_metadata :: "json option"
  ac_result :: string
  ac_reason :: string
  ac_ip :: "string option"
  ac_request_ip :: "string option"
  ac_agent :: string
  ac_correlation :: string

definition call_org :: "audit_call \<Rightarrow> int option" where
  "call_org a =
     (case ac_organization_id a of
        Some i \<Rightarrow> Some i
      | None \<Rightarrow> (case ac_organization a of Some i \<Rightarrow> Some i | None \<Rightarrow> Option.bind (ac_event a) snd))"

definition call_target :: "audit_call \<Rightarrow> string \<times> string" where
  "call_target a =
     (case ac_target a of
        Some (t, i) \<Rightarrow>
          (if ac_target_type a \<noteq> [] then ac_target_type a else t,
           if ac_target_id a \<noteq> [] then ac_target_id a else i)
      | None \<Rightarrow>
          (case ac_event a of
             Some (e, _) \<Rightarrow>
               if ac_target_type a = [] then (''voting.Event'', str_int e)
               else (ac_target_type a, ac_target_id a)
           | None \<Rightarrow> (ac_target_type a, ac_target_id a)))"

definition fields_of :: "audit_call \<Rightarrow> int \<Rightarrow> int \<Rightarrow> audit_fields" where
  "fields_of a now seq =
     (let actor = (case ac_actor a of Some u \<Rightarrow> Some u | None \<Rightarrow> ac_request_user a);
          (target_type, target_id) = call_target a
      in \<lparr>au_chain = chain_for (call_org a), au_seq = seq, au_type = ac_type a,
          au_actor = map_option fst actor,
          au_label = take 150 (case actor of Some (_, name) \<Rightarrow> name | None \<Rightarrow> []),
          au_org = call_org a, au_election = map_option fst (ac_event a),
          au_target_type = take 64 target_type, au_target_id = take 64 target_id,
          au_summary = take 500 (ac_summary a),
          au_ip = (case ac_ip a of Some ip \<Rightarrow> Some ip | None \<Rightarrow> ac_request_ip a),
          au_agent = ac_agent a,
          au_correlation = (if ac_correlation a = ''-'' then [] else ac_correlation a),
          au_changes = normalize_json (ac_changes a), au_metadata = normalize_json (ac_metadata a),
          au_result = ac_result a, au_reason = ac_reason a, au_created = now\<rparr>)"

definition head_for_update :: "string \<Rightarrow> audit_store \<Rightarrow> (int \<times> string) \<times> audit_store" where
  "head_for_update c st =
     (case map_of (au_heads st) c of
        Some h \<Rightarrow> (h, st)
      | None \<Rightarrow> ((0, genesis), st\<lparr>au_heads := au_heads st @ [(c, (0, genesis))]\<rparr>))"

definition audit_record :: "codec \<Rightarrow> int \<Rightarrow> audit_call \<Rightarrow> audit_store \<Rightarrow> audit_store" where
  "audit_record K now a st =
     (let c = chain_for (call_org a);
          ((seq, last_hash), st') = head_for_update c st;
          f = fields_of a now (seq + 1);
          h = compute_hash K last_hash f
      in st'\<lparr>au_rows := au_rows st' @ [\<lparr>ar_fields = f, ar_prev = last_hash, ar_hash = h\<rparr>],
             au_heads := map (\<lambda>(c', x). (c', if c' = c then (seq + 1, h) else x)) (au_heads st')\<rparr>)"

text \<open>What the other components log.\<close>

record audit_note =
  an_type :: string
  an_actor :: "int option"
  an_event :: "(int \<times> int option) option"
  an_org :: "int option"
  an_target :: "(string \<times> string) option"
  an_result :: string
  an_reason :: string

definition plain_note :: "string \<Rightarrow> int option \<Rightarrow> (int \<times> int option) option \<Rightarrow> audit_note" where
  "plain_note t actor ev =
     \<lparr>an_type = t, an_actor = actor, an_event = ev, an_org = None, an_target = None,
      an_result = ''SUCCESS'', an_reason = []\<rparr>"

definition call_of_note :: "(int \<Rightarrow> string) \<Rightarrow> audit_note \<Rightarrow> audit_call" where
  "call_of_note username n =
     \<lparr>ac_type = an_type n, ac_request_user = None, ac_actor = map_option (\<lambda>i. (i, username i)) (an_actor n),
      ac_event = an_event n, ac_organization = None, ac_organization_id = an_org n, ac_target = an_target n,
      ac_target_type = [], ac_target_id = [], ac_summary = [], ac_changes = None, ac_metadata = None,
      ac_result = an_result n, ac_reason = an_reason n, ac_ip = None, ac_request_ip = None,
      ac_agent = [], ac_correlation = []\<rparr>"

section \<open>Verification\<close>

datatype verdict =
    Intact int
  | Sequence_gap int int
  | Link_broken int int
  | Content_modified int int
  | Head_mismatch int int

fun verify_rows :: "codec \<Rightarrow> string \<Rightarrow> int \<Rightarrow> audit_row list \<Rightarrow> verdict + (string \<times> int)" where
  "verify_rows K prev k [] = Inr (prev, k)"
| "verify_rows K prev k (r # rs) =
     (let seq = au_seq (ar_fields r) in
      if seq \<noteq> k + 1 then Inl (Sequence_gap k seq)
      else if ar_prev r \<noteq> prev then Inl (Link_broken k seq)
      else if compute_hash K prev (ar_fields r) \<noteq> ar_hash r then Inl (Content_modified k seq)
      else verify_rows K (ar_hash r) (k + 1) rs)"

definition chain_rows :: "string \<Rightarrow> audit_store \<Rightarrow> audit_row list" where
  "chain_rows c st =
     sort_key (\<lambda>r. au_seq (ar_fields r)) (filter (\<lambda>r. au_chain (ar_fields r) = c) (au_rows st))"

definition verify_chain :: "codec \<Rightarrow> string \<Rightarrow> audit_store \<Rightarrow> verdict" where
  "verify_chain K c st =
     (case verify_rows K genesis 0 (chain_rows c st) of
        Inl v \<Rightarrow> v
      | Inr (prev, k) \<Rightarrow>
          (case map_of (au_heads st) c of
             Some (seq, last_hash) \<Rightarrow>
               if seq \<noteq> k \<or> last_hash \<noteq> prev then Head_mismatch k seq else Intact k
           | None \<Rightarrow> Intact k))"

definition verify_all :: "codec \<Rightarrow> audit_store \<Rightarrow> (string \<times> verdict) list" where
  "verify_all K st = map (\<lambda>(c, _). (c, verify_chain K c st)) (au_heads st)"

end
