(* ===== verification/Audit_Props.thy ===== *)
theory Audit_Props
  imports Audit_Chain Contracts
begin

text \<open>
  The audit log: recording keeps every chain intact, and two intact chains with the same
  head hold the same entries unless their hash inputs collide.
\<close>

section \<open>Recording keeps the chains intact\<close>

text \<open>A chain of the store verifies, and a chain without a head has no rows.\<close>

definition chains_ok :: "codec \<Rightarrow> audit_store \<Rightarrow> bool" where
  "chains_ok K st \<longleftrightarrow>
     (\<forall>c. (\<exists>n. verify_chain K c st = Intact n) \<and>
          (map_of (au_heads st) c = None \<longrightarrow> chain_rows c st = []))"

lemma verify_rows_append:
  "verify_rows K p n (xs @ ys) =
     (case verify_rows K p n xs of Inl v \<Rightarrow> Inl v | Inr (q, m) \<Rightarrow> verify_rows K q m ys)"
  by (induction K p n xs rule: verify_rows.induct) (simp_all add: Let_def)

lemma verify_rows_seqs:
  "verify_rows K p n rs = Inr (q, m) \<Longrightarrow> m = n + int (length rs) \<and> (\<forall>r\<in>set rs. n < au_seq (ar_fields r) \<and> au_seq (ar_fields r) \<le> m)"
  by (induction K p n rs rule: verify_rows.induct) (auto simp: Let_def split: if_splits)

lemma verify_rows_not_intact: "verify_rows K p n rs \<noteq> Inl (Intact m)"
  by (induction K p n rs rule: verify_rows.induct) (simp_all add: Let_def)

lemma sort_key_snoc: "(\<And>x. x \<in> set xs \<Longrightarrow> f x \<le> f y) \<Longrightarrow> sort_key f (xs @ [y]) = sort_key f xs @ [y]"
proof (induction xs)
  case (Cons x xs)
  have "insort_key f x (zs @ [y]) = insort_key f x zs @ [y]" if "f x \<le> f y" for zs
    using that by (induction zs) (auto intro: insort_is_Cons)
  with Cons show ?case by simp
qed simp

lemma map_of_update_key:
  "map_of (map (\<lambda>p. (fst p, if fst p = k then w else snd p)) kvs) c =
     (if c = k \<and> map_of kvs k \<noteq> None then Some w else map_of kvs c)"
  by (induction kvs) (auto split: if_splits)

lemma head_after:
  "map_of (au_heads (snd (head_for_update c st))) c = Some (fst (head_for_update c st))"
  "d \<noteq> c \<Longrightarrow> map_of (au_heads (snd (head_for_update c st))) d = map_of (au_heads st) d"
  "au_rows (snd (head_for_update c st)) = au_rows st"
  by (auto simp: head_for_update_def map_add_def split: option.splits)

lemma intact_rows:
  assumes "verify_chain K c st = Intact n"
  obtains prev where "verify_rows K genesis 0 (chain_rows c st) = Inr (prev, n)"
    and "map_of (au_heads st) c = Some h \<Longrightarrow> h = (n, prev)"
  using assms
  by (cases "verify_rows K genesis 0 (chain_rows c st)"; cases "map_of (au_heads st) c")
    (auto simp: verify_chain_def verify_rows_not_intact split: if_splits)

lemma head_of_intact:
  assumes "verify_chain K c st = Intact n" and "map_of (au_heads st) c = None \<Longrightarrow> chain_rows c st = []"
  obtains h where "fst (head_for_update c st) = (n, h)" "verify_rows K genesis 0 (chain_rows c st) = Inr (h, n)"
proof -
  obtain prev where p: "verify_rows K genesis 0 (chain_rows c st) = Inr (prev, n)"
    "\<And>h. map_of (au_heads st) c = Some h \<Longrightarrow> h = (n, prev)"
    by (cases "map_of (au_heads st) c") (auto intro: intact_rows [OF assms(1)])
  show ?thesis
  proof (cases "map_of (au_heads st) c")
    case None
    with assms(2) p(1) have "n = 0" "prev = genesis" by auto
    with None p that show ?thesis by (simp add: head_for_update_def)
  qed (use p that in \<open>auto simp: head_for_update_def\<close>)
qed

definition new_row :: "codec \<Rightarrow> int \<Rightarrow> audit_call \<Rightarrow> audit_store \<Rightarrow> audit_row" where
  "new_row K now a st =
     (let (seq, last_hash) = fst (head_for_update (chain_for (call_org a)) st); f = fields_of a now (seq + 1)
      in \<lparr>ar_fields = f, ar_prev = last_hash, ar_hash = compute_hash K last_hash f\<rparr>)"

lemma new_row_simps:
  assumes "fst (head_for_update (chain_for (call_org a)) st) = (n, h)"
  shows "ar_fields (new_row K now a st) = fields_of a now (n + 1)" "ar_prev (new_row K now a st) = h"
    "ar_hash (new_row K now a st) = compute_hash K h (fields_of a now (n + 1))"
  using assms by (simp_all add: new_row_def Let_def)

lemma record_rows: "au_rows (audit_record K now a st) = au_rows st @ [new_row K now a st]"
  by (simp add: audit_record_def new_row_def case_prod_unfold Let_def head_after)

lemma record_heads:
  assumes "fst (head_for_update (chain_for (call_org a)) st) = (n, h)"
  shows "map_of (au_heads (audit_record K now a st)) c =
    (if c = chain_for (call_org a) then Some (n + 1, ar_hash (new_row K now a st)) else map_of (au_heads st) c)"
  using assms head_after(1) [of "chain_for (call_org a)" st] head_after(2) [of c "chain_for (call_org a)" st]
  by (simp add: audit_record_def new_row_def case_prod_unfold Let_def map_of_update_key)

lemma fields_of_simps [simp]: "au_chain (fields_of a now n) = chain_for (call_org a)" "au_seq (fields_of a now n) = n"
  by (simp_all add: fields_of_def case_prod_unfold Let_def)

lemma record_step:
  assumes "chains_ok K st" and "verify_chain K c st = Intact n"
  shows "verify_chain K c (audit_record K now a st) = Intact (if chain_for (call_org a) = c then n + 1 else n)
    \<and> chain_rows c (audit_record K now a st)
        = chain_rows c st @ (if chain_for (call_org a) = c then [new_row K now a st] else [])"
proof -
  let ?d = "chain_for (call_org a)"
  obtain m where "verify_chain K ?d st = Intact m" using assms(1) by (auto simp: chains_ok_def)
  moreover have "map_of (au_heads st) ?d = None \<Longrightarrow> chain_rows ?d st = []"
    using assms(1) by (simp add: chains_ok_def)
  ultimately obtain h where h: "fst (head_for_update ?d st) = (m, h)"
    "verify_rows K genesis 0 (chain_rows ?d st) = Inr (h, m)" by (rule head_of_intact)
  note row = new_row_simps [OF h(1), of K now] and heads = record_heads [OF h(1), of K now c]
  show ?thesis
  proof (cases "?d = c")
    case True
    have "m = n" using assms(2) \<open>verify_chain K ?d st = Intact m\<close> True by simp
    have le: "au_seq (ar_fields r) \<le> au_seq (ar_fields (new_row K now a st))"
      if "r \<in> set (filter (\<lambda>r. au_chain (ar_fields r) = c) (au_rows st))" for r
    proof -
      have "r \<in> set (chain_rows c st)" using that by (simp add: chain_rows_def)
      with verify_rows_seqs [OF h(2)] True row show ?thesis by force
    qed
    have "au_chain (ar_fields (new_row K now a st)) = c" using True row by simp
    then have rows: "chain_rows c (audit_record K now a st) = chain_rows c st @ [new_row K now a st]"
      using sort_key_snoc [where f = "\<lambda>r. au_seq (ar_fields r)"
          and xs = "filter (\<lambda>r. au_chain (ar_fields r) = c) (au_rows st)", OF le]
      by (simp add: chain_rows_def record_rows)
    moreover have "verify_chain K c (audit_record K now a st) = Intact (n + 1)"
      using h(2) True row heads \<open>m = n\<close> by (simp add: verify_chain_def rows verify_rows_append)
    ultimately show ?thesis using True by simp
  next
    case False
    then have rows: "chain_rows c (audit_record K now a st) = chain_rows c st"
      using row by (simp add: chain_rows_def record_rows)
    have "map_of (au_heads (audit_record K now a st)) c = map_of (au_heads st) c" using heads False by simp
    then have "verify_chain K c (audit_record K now a st) = verify_chain K c st"
      by (simp only: verify_chain_def rows)
    with False assms(2) rows show ?thesis by simp
  qed
qed

lemma record_keeps_ok:
  assumes "chains_ok K st"
  shows "chains_ok K (audit_record K now a st)"
  unfolding chains_ok_def
proof (intro allI conjI impI)
  fix c
  obtain n where n: "verify_chain K c st = Intact n" using assms by (auto simp: chains_ok_def)
  from record_step [OF assms n, of now a]
  show "\<exists>n. verify_chain K c (audit_record K now a st) = Intact n" by blast
  assume none: "map_of (au_heads (audit_record K now a st)) c = None"
  obtain m h where "fst (head_for_update (chain_for (call_org a)) st) = (m, h)" by fastforce
  from record_heads [OF this, of K now c] none
  have "chain_for (call_org a) \<noteq> c" "map_of (au_heads st) c = None" by (auto split: if_splits)
  with record_step [OF assms n, of now a] assms show "chain_rows c (audit_record K now a st) = []"
    by (simp add: chains_ok_def)
qed

definition record_all :: "codec \<Rightarrow> (int \<times> audit_call) list \<Rightarrow> audit_store \<Rightarrow> audit_store" where
  "record_all K calls st = foldl (\<lambda>st (now, a). audit_record K now a st) st calls"

definition empty_store :: audit_store where
  "empty_store = \<lparr>au_rows = [], au_heads = []\<rparr>"

lemma record_all_intact:
  "chains_ok K st \<Longrightarrow> verify_chain K c st = Intact n \<Longrightarrow>
     verify_chain K c (record_all K calls st)
       = Intact (n + int (count_where (\<lambda>(now, a). chain_for (call_org a) = c) calls))"
proof (induction calls arbitrary: st n)
  case (Cons q calls)
  obtain now a where q: "q = (now, a)" by fastforce
  have "verify_chain K c (audit_record K now a st) = Intact (if chain_for (call_org a) = c then n + 1 else n)"
    using record_step [OF Cons.prems] by blast
  from Cons.IH [OF record_keeps_ok [OF Cons.prems(1)] this] q show ?case
    by (auto simp: record_all_def)
qed (simp add: record_all_def)

text \<open>
  C7: Whatever is recorded, in whatever order and for whatever organizations, every chain
  of the log verifies, and it holds one entry for each record made for its organization.
\<close>

theorem audit_log_intact:
  "verify_chain K c (record_all K calls empty_store)
     = Intact (int (count_where (\<lambda>(now, a). chain_for (call_org a) = c) calls))"
  using record_all_intact [of K empty_store c 0 calls]
  by (simp add: chains_ok_def verify_chain_def chain_rows_def empty_store_def)

section \<open>Tampering\<close>

text \<open>An entry up to the order of the keys of its JSON columns.\<close>

definition entry_content :: "audit_fields \<Rightarrow> audit_fields" where
  "entry_content f = f\<lparr>au_changes := sort_keys (au_changes f), au_metadata := sort_keys (au_metadata f)\<rparr>"

definition hash_inputs :: "codec \<Rightarrow> audit_row list \<Rightarrow> string set" where
  "hash_inputs K rows = (\<lambda>r. hash_input K (ar_prev r) (ar_fields r)) ` set rows"

lemma sorted_objects_eq:
  assumes "sort_keys (JObj xs) = sort_keys (JObj ys)" and "distinct (map fst xs)" and "distinct (map fst ys)"
  shows "map_option sort_keys (map_of xs k) = map_option sort_keys (map_of ys k)"
proof -
  let ?s = "map (\<lambda>(k, v). (k, sort_keys v))"
  have keys: "map fst (?s zs) = map fst zs" for zs by (induction zs) auto
  have m: "map_of (?s zs) k = map_option sort_keys (map_of zs k)" for zs by (induction zs) auto
  have "sort_key fst (?s xs) = sort_key fst (?s ys)" using assms(1) by simp
  from arg_cong [OF this, of set] have "set (?s xs) = set (?s ys)" by simp
  then have "map_of (?s xs) = map_of (?s ys)"
    using assms(2,3) keys by (metis map_of_inject_set)
  then show ?thesis by (metis m)
qed

lemma opt_json_inj: "sort_keys (opt_int x) = sort_keys (opt_int y) \<longleftrightarrow> x = y"
  "sort_keys (opt_str u) = sort_keys (opt_str w) \<longleftrightarrow> u = w"
  by (simp_all add: opt_int_def opt_str_def split: option.splits)

definition payload_pairs :: "codec \<Rightarrow> audit_fields \<Rightarrow> (string \<times> json) list" where
  "payload_pairs K f = (case hashed_payload K f of JObj kvs \<Rightarrow> kvs | _ \<Rightarrow> [])"

lemma payload_content:
  assumes "inj (stamp K)" and "sort_keys (hashed_payload K f) = sort_keys (hashed_payload K g)"
  shows "entry_content f = entry_content g"
proof -
  have obj: "hashed_payload K h = JObj (payload_pairs K h)" for h by (simp add: payload_pairs_def hashed_payload_def)
  have d: "distinct (map fst (payload_pairs K h))" for h by (simp add: payload_pairs_def hashed_payload_def)
  note field = sorted_objects_eq [OF assms(2) [unfolded obj] d d]
  have "au_chain f = au_chain g" using field [of "''chain''"] by (simp add: payload_pairs_def hashed_payload_def)
  moreover have "au_seq f = au_seq g" using field [of "''seq''"] by (simp add: payload_pairs_def hashed_payload_def)
  moreover have "au_type f = au_type g" using field [of "''event_type''"] by (simp add: payload_pairs_def hashed_payload_def)
  moreover have "au_actor f = au_actor g" using field [of "''actor_id''"] by (simp add: payload_pairs_def hashed_payload_def opt_json_inj)
  moreover have "au_label f = au_label g" using field [of "''actor_label''"] by (simp add: payload_pairs_def hashed_payload_def)
  moreover have "au_org f = au_org g" using field [of "''organization_id''"] by (simp add: payload_pairs_def hashed_payload_def opt_json_inj)
  moreover have "au_election f = au_election g" using field [of "''election_id''"] by (simp add: payload_pairs_def hashed_payload_def opt_json_inj)
  moreover have "au_target_type f = au_target_type g" using field [of "''target_type''"] by (simp add: payload_pairs_def hashed_payload_def)
  moreover have "au_target_id f = au_target_id g" using field [of "''target_id''"] by (simp add: payload_pairs_def hashed_payload_def)
  moreover have "au_summary f = au_summary g" using field [of "''summary''"] by (simp add: payload_pairs_def hashed_payload_def)
  moreover have "au_ip f = au_ip g" using field [of "''ip_address''"] by (simp add: payload_pairs_def hashed_payload_def opt_json_inj)
  moreover have "au_agent f = au_agent g" using field [of "''user_agent''"] by (simp add: payload_pairs_def hashed_payload_def)
  moreover have "au_correlation f = au_correlation g" using field [of "''correlation_id''"] by (simp add: payload_pairs_def hashed_payload_def)
  moreover have "sort_keys (au_changes f) = sort_keys (au_changes g)" using field [of "''changes''"] by (simp add: payload_pairs_def hashed_payload_def)
  moreover have "sort_keys (au_metadata f) = sort_keys (au_metadata g)" using field [of "''metadata''"] by (simp add: payload_pairs_def hashed_payload_def)
  moreover have "au_result f = au_result g" using field [of "''result''"] by (simp add: payload_pairs_def hashed_payload_def)
  moreover have "au_reason f = au_reason g" using field [of "''reason''"] by (simp add: payload_pairs_def hashed_payload_def)
  moreover have "au_created f = au_created g"
    using field [of "''created_at''"] assms(1) by (simp add: payload_pairs_def hashed_payload_def inj_eq)
  ultimately show ?thesis by (intro audit_fields.equality) (simp_all add: entry_content_def)
qed

lemma hash_input_content:
  assumes "repr_ok (float_repr K)" and "inj (stamp K)" and "length p = length q"
    and "hash_input K p f = hash_input K q g"
  shows "p = q \<and> entry_content f = entry_content g"
proof -
  from assms(3,4) have "p = q" "canonical_json (float_repr K) (hashed_payload K f)
      = canonical_json (float_repr K) (hashed_payload K g)" by (simp_all add: hash_input_def)
  with payload_content [OF assms(2) canonical_inj [OF assms(1)]] show ?thesis by blast
qed

lemma verify_rows_hash_length:
  assumes "\<And>x. length (sha_hex K x) = m"
  shows "length p = m \<Longrightarrow> verify_rows K p n rs = Inr (q, k) \<Longrightarrow> length q = m"
proof (induction rs arbitrary: p n)
  case (Cons r rs)
  then have "length (ar_hash r) = m" "verify_rows K (ar_hash r) (n + 1) rs = Inr (q, k)"
    using assms [of "hash_input K p (ar_fields r)"] by (auto simp: Let_def compute_hash_def split: if_splits)
  with Cons.IH show ?case by blast
qed simp

lemma same_head_same_rows:
  assumes "repr_ok (float_repr K)" and "inj (stamp K)" and "\<And>x. length (sha_hex K x) = length p"
    and "verify_rows K p n xs = Inr (h, m)" and "verify_rows K p n ys = Inr (h, m)"
  shows "map (entry_content \<circ> ar_fields) xs = map (entry_content \<circ> ar_fields) ys
    \<or> (\<exists>x\<in>hash_inputs K xs. \<exists>y\<in>hash_inputs K ys. x \<noteq> y \<and> sha_hex K x = sha_hex K y)"
  using assms(4,5)
proof (induction xs arbitrary: ys h m rule: rev_induct)
  case Nil
  then show ?case using verify_rows_seqs [OF Nil(2)] by simp
next
  case (snoc r xs)
  have "ys \<noteq> []" using verify_rows_seqs [OF snoc.prems(1)] verify_rows_seqs [OF snoc.prems(2)] by auto
  then obtain s zs where ys: "ys = zs @ [s]" by (metis rev_exhaust)
  have last: "\<exists>q. verify_rows K p n us = Inr (q, m - 1) \<and> ar_prev u = q \<and> h = sha_hex K (hash_input K q (ar_fields u))
      \<and> length q = length p" if "verify_rows K p n (us @ [u]) = Inr (h, m)" for us u
  proof -
    from that obtain q k where q: "verify_rows K p n us = Inr (q, k)"
      by (auto simp: verify_rows_append split: sum.splits)
    moreover have "length q = length p" by (rule verify_rows_hash_length [OF assms(3) refl q])
    ultimately show ?thesis
      using that by (auto simp: verify_rows_append Let_def compute_hash_def split: if_splits)
  qed
  from last [OF snoc.prems(1)] obtain q where q: "verify_rows K p n xs = Inr (q, m - 1)" "ar_prev r = q"
    "h = sha_hex K (hash_input K q (ar_fields r))" "length q = length p" by blast
  from last [of zs s] snoc.prems(2) ys obtain q' where q': "verify_rows K p n zs = Inr (q', m - 1)" "ar_prev s = q'"
    "h = sha_hex K (hash_input K q' (ar_fields s))" "length q' = length p" by blast
  show ?case
  proof (cases "hash_input K q (ar_fields r) = hash_input K q' (ar_fields s)")
    case True
    with hash_input_content [OF assms(1,2)] q(4) q'(4)
    have "q = q'" "entry_content (ar_fields r) = entry_content (ar_fields s)" by metis+
    with snoc.IH [OF q(1)] q'(1) ys show ?thesis by (auto simp: hash_inputs_def)
  next
    case False
    with q(2,3) q'(2,3) ys show ?thesis by (auto simp: hash_inputs_def)
  qed
qed

text \<open>
  C8: The log is tamper evident: if two states of a chain both verify and have the same
  head, they hold the same entries in the same order (up to the order of the keys inside
  the JSON columns), or else a collision of SHA-256 can be read off their rows.
\<close>

theorem audit_chain_tamper_evident:
  assumes "repr_ok (float_repr K)" and "inj (stamp K)" and "\<And>x. length (sha_hex K x) = 64"
    and "verify_chain K c st = Intact n" and "verify_chain K c st' = Intact n'"
    and "map_of (au_heads st) c = Some h" and "map_of (au_heads st') c = Some h"
  shows "map (entry_content \<circ> ar_fields) (chain_rows c st) = map (entry_content \<circ> ar_fields) (chain_rows c st')
    \<or> (\<exists>x\<in>hash_inputs K (chain_rows c st). \<exists>y\<in>hash_inputs K (chain_rows c st').
          x \<noteq> y \<and> sha_hex K x = sha_hex K y)"
proof -
  obtain p where p: "verify_rows K genesis 0 (chain_rows c st) = Inr (p, n)" "h = (n, p)"
    using intact_rows [OF assms(4)] assms(6) by metis
  obtain q where q: "verify_rows K genesis 0 (chain_rows c st') = Inr (q, n')" "h = (n', q)"
    using intact_rows [OF assms(5)] assms(7) by metis
  have "length genesis = 64" by (simp add: genesis_def)
  with same_head_same_rows [OF assms(1,2), of genesis 0 "chain_rows c st" p n "chain_rows c st'"] p q assms(3)
  show ?thesis by simp
qed

section \<open>Worked example\<close>

definition ex_codec :: codec where
  "ex_codec = \<lparr>sha_hex = \<lambda>s. take 64 (s @ replicate 64 (CHR ''x'')), float_repr = ratio_text, stamp = str_int\<rparr>"

definition ex_call :: "int option \<Rightarrow> audit_call" where
  "ex_call org = (call_of_note (\<lambda>_. ''ama'') (plain_note ''LOGIN'' (Some 1) None))\<lparr>ac_organization_id := org\<rparr>"

lemma ex_codec_ok: "repr_ok (float_repr ex_codec)" "inj (stamp ex_codec)" "length (sha_hex ex_codec x) = 64"
  by (simp_all add: ex_codec_def ratio_text_ok inj_def)

definition ex_log :: audit_store where
  "ex_log = record_all ex_codec [(5, ex_call None)] empty_store"

definition ex_longer_log :: audit_store where
  "ex_longer_log = record_all ex_codec [(5, ex_call None), (6, ex_call (Some 3))] empty_store"

lemma ex_logs_intact:
  "\<exists>n. verify_chain ex_codec c ex_log = Intact n" "\<exists>n. verify_chain ex_codec c ex_longer_log = Intact n"
proof -
  have "chains_ok ex_codec empty_store"
    by (simp add: chains_ok_def verify_chain_def chain_rows_def empty_store_def)
  from record_all_intact [OF this] this
  show "\<exists>n. verify_chain ex_codec c ex_log = Intact n" "\<exists>n. verify_chain ex_codec c ex_longer_log = Intact n"
    unfolding ex_log_def ex_longer_log_def chains_ok_def by blast+
qed

theorem audit_chain_tamper_evident_witness:
  "map (entry_content \<circ> ar_fields) (chain_rows ''platform'' ex_log)
      = map (entry_content \<circ> ar_fields) (chain_rows ''platform'' ex_longer_log)
    \<or> (\<exists>x\<in>hash_inputs ex_codec (chain_rows ''platform'' ex_log). \<exists>y\<in>hash_inputs ex_codec (chain_rows ''platform'' ex_longer_log).
          x \<noteq> y \<and> sha_hex ex_codec x = sha_hex ex_codec y)"
proof -
  have org: "call_org (ex_call None) = None" "call_org (ex_call (Some 3)) = Some 3"
    by (simp_all add: ex_call_def call_of_note_def plain_note_def call_org_def)
  have chain: "chain_for (call_org (ex_call None)) = ''platform''" "chain_for (call_org (ex_call (Some 3))) \<noteq> ''platform''"
    by (simp_all add: org chain_for_def)
  let ?h = "(1, ar_hash (new_row ex_codec 5 (ex_call None) empty_store))"
  have "fst (head_for_update (chain_for (call_org (ex_call None))) empty_store) = (0, genesis)"
    by (simp add: head_for_update_def empty_store_def)
  note h = record_heads [OF this, of ex_codec 5 "''platform''"]
  have st: "map_of (au_heads ex_log) ''platform'' = Some ?h"
    using h chain by (simp add: ex_log_def record_all_def)
  have st': "ex_longer_log = audit_record ex_codec 6 (ex_call (Some 3)) ex_log"
    by (simp add: ex_log_def ex_longer_log_def record_all_def)
  obtain n k where "fst (head_for_update (chain_for (call_org (ex_call (Some 3)))) ex_log) = (n, k)" by fastforce
  from record_heads [OF this, of ex_codec 6 "''platform''"] st chain
  have "map_of (au_heads ex_longer_log) ''platform'' = Some ?h" by (simp add: st')
  moreover obtain m m' where "verify_chain ex_codec ''platform'' ex_log = Intact m"
    "verify_chain ex_codec ''platform'' ex_longer_log = Intact m'" using ex_logs_intact by blast
  ultimately show ?thesis using st by (intro audit_chain_tamper_evident [OF ex_codec_ok])
qed

end
