(* ===== verification/Rbac.thy ===== *)
theory Rbac
  imports Election_Model Audit_Chain
begin

text \<open>
  core/rbac.py and core/tenancy.py: permissions, the system roles, role assignments in
  their scopes (the platform, an organization, one election), what a user may do to an
  object, which elections a user sees, and the granting and revoking of roles. Permissions
  are the strings of the code.

  The assignments are read from the tables at every question: the cache the code keeps on
  the user object (cleared by the functions that change assignments) is not modelled.
\<close>

section \<open>Permissions and roles\<close>

definition permissions :: "string list" where
  "permissions =
     [''election.create'', ''election.view'', ''election.edit'', ''election.submit'',
      ''election.review'', ''election.publish'', ''election.pause'', ''election.close'',
      ''election.archive'', ''election.freeze'', ''candidate.create'', ''candidate.edit'',
      ''voter.view'', ''voter.import'', ''voter.edit'', ''voter.credentials'', ''vote.view'',
      ''vote.export'', ''results.view'', ''results.tally'', ''results.approve'',
      ''results.certify'', ''results.publish'', ''results.recount'', ''payment.view'',
      ''payment.reconcile'', ''refund.create'', ''refund.approve'', ''pricing.manage'',
      ''audit.view'', ''fraud.view'', ''fraud.review'', ''dispute.view'', ''dispute.manage'',
      ''incident.manage'', ''approval.decide'', ''org.manage'', ''org.billing'',
      ''support.view'', ''support.manage'', ''ticket.manage'', ''store.manage'',
      ''platform.admin'']"

definition org_admin_permissions :: "string list" where
  "org_admin_permissions = filter (\<lambda>p. p \<notin> {''platform.admin'', ''store.manage''}) permissions"

definition role_definitions :: "(string \<times> string list) list" where
  "role_definitions =
     [
      (''SUPER_ADMIN'', permissions),
      (''ORG_ADMIN'', org_admin_permissions),
      (''ELECTION_ADMIN'', [''election.create'', ''election.view'', ''election.edit'', ''election.submit'',
        ''election.publish'', ''election.pause'', ''election.close'', ''election.archive'',
        ''election.freeze'', ''candidate.create'', ''candidate.edit'', ''voter.view'',
        ''voter.import'', ''voter.edit'', ''voter.credentials'', ''vote.view'', ''results.view'',
        ''results.tally'', ''pricing.manage'', ''ticket.manage'', ''audit.view'',
        ''dispute.view'', ''incident.manage'', ''payment.view'']),
      (''ELECTION_REVIEWER'', [''election.view'', ''election.review'', ''approval.decide'', ''audit.view'',
        ''voter.view'', ''vote.view'']),
      (''ELECTION_OFFICER'', [''election.view'', ''election.pause'', ''voter.view'', ''voter.edit'',
        ''voter.credentials'', ''vote.view'', ''incident.manage'', ''dispute.view'',
        ''support.view'']),
      (''ELECTION_AUDITOR'', [''election.view'', ''voter.view'', ''vote.view'', ''results.view'', ''results.recount'',
        ''audit.view'', ''payment.view'', ''fraud.view'', ''dispute.view'']),
      (''CANDIDATE_MANAGER'', [''election.view'', ''candidate.create'', ''candidate.edit'']),
      (''FINANCE_OFFICER'', [''election.view'', ''payment.view'', ''payment.reconcile'', ''refund.create'',
        ''refund.approve'', ''pricing.manage'', ''org.billing'', ''vote.view'']),
      (''SUPPORT_AGENT'', [''election.view'', ''voter.view'', ''payment.view'', ''support.view'', ''support.manage'']),
      (''FRAUD_ANALYST'', [''election.view'', ''fraud.view'', ''fraud.review'', ''payment.view'', ''vote.view'',
        ''audit.view'']),
      (''RESULTS_OFFICER'', [''election.view'', ''vote.view'', ''results.view'', ''results.tally'',
        ''results.approve'', ''results.certify'', ''results.publish'', ''results.recount'']),
      (''VOTER'', [])]"

definition organizer_permissions :: "string list" where
  "organizer_permissions =
     (case map_of role_definitions ''ELECTION_ADMIN'' of Some ps \<Rightarrow> ''election.submit'' # ps | None \<Rightarrow> [])"

section \<open>Users, organizations and assignments\<close>

record account =
  us_id :: int
  us_name :: string
  us_authenticated :: bool
  us_active :: bool
  us_superuser :: bool
  us_staff :: bool

record organization =
  og_id :: int
  og_name :: string
  og_personal :: bool

record assignment =
  ra_id :: int
  ra_user :: int
  ra_role :: string
  ra_org :: "int option"
  ra_event :: "int option"
  ra_granted_by :: "int option"

record tenancy =
  tn_roles :: "(string \<times> string list) list"
  tn_assignments :: "assignment list"
  tn_organizations :: "organization list"
  tn_log :: "audit_note list"

record grant =
  gr_perms :: "string list"
  gr_org :: "int option"
  gr_event :: "int option"

definition role_permissions :: "tenancy \<Rightarrow> string \<Rightarrow> string list" where
  "role_permissions db code = (case map_of (tn_roles db) code of Some ps \<Rightarrow> ps | None \<Rightarrow> [])"

definition grants_of :: "tenancy \<Rightarrow> account \<Rightarrow> grant list" where
  "grants_of db u =
     map (\<lambda>a. \<lparr>gr_perms = role_permissions db (ra_role a), gr_org = ra_org a, gr_event = ra_event a\<rparr>)
       (filter (\<lambda>a. ra_user a = us_id u) (tn_assignments db))"

section \<open>What a user may do\<close>

definition is_platform_admin :: "account \<Rightarrow> bool" where
  "is_platform_admin u \<longleftrightarrow> us_authenticated u \<and> us_active u \<and> (us_superuser u \<or> us_staff u)"

text \<open>
  What a permission is asked for: nothing, an election, an organization, or another object
  with the election and the organization it belongs to.
\<close>

datatype subject = Anything | Election event | Organization int | Owned "event option" "int option"

fun resolve_scope :: "subject \<Rightarrow> int option \<times> event option" where
  "resolve_scope Anything = (None, None)"
| "resolve_scope (Election ev) = (ev_org ev, Some ev)"
| "resolve_scope (Organization i) = (Some i, None)"
| "resolve_scope (Owned (Some ev) _) = (ev_org ev, Some ev)"
| "resolve_scope (Owned None org) = (org, None)"

definition grant_applies :: "int option \<Rightarrow> event option \<Rightarrow> grant \<Rightarrow> bool" where
  "grant_applies org ev g \<longleftrightarrow>
     (if gr_org g = None \<and> gr_event g = None then True
      else if gr_event g \<noteq> None then ev \<noteq> None \<and> map_option ev_id ev = gr_event g
      else org \<noteq> None \<and> gr_org g = org)"

definition user_permissions :: "tenancy \<Rightarrow> account option \<Rightarrow> subject \<Rightarrow> string list" where
  "user_permissions db user obj =
     (case user of
        None \<Rightarrow> []
      | Some u \<Rightarrow>
          if \<not> us_authenticated u \<or> \<not> us_active u then []
          else if is_platform_admin u then permissions
          else
            let (org, ev) = resolve_scope obj
            in concat (map gr_perms (filter (grant_applies org ev) (grants_of db u)))
               @ (case ev of
                    Some e \<Rightarrow> if ev_organizer e = Some (us_id u) then organizer_permissions else []
                  | None \<Rightarrow> []))"

datatype access_error = Unknown_permission | Permission_denied

definition has_perm :: "tenancy \<Rightarrow> account option \<Rightarrow> string \<Rightarrow> subject \<Rightarrow> access_error + bool" where
  "has_perm db user p obj =
     (if p \<notin> set permissions then Inl Unknown_permission else Inr (p \<in> set (user_permissions db user obj)))"

definition has_any_perm :: "tenancy \<Rightarrow> account option \<Rightarrow> string list \<Rightarrow> subject \<Rightarrow> bool" where
  "has_any_perm db user ps obj \<longleftrightarrow> list_ex (\<lambda>p. p \<in> set (user_permissions db user obj)) ps"

definition check_perm :: "tenancy \<Rightarrow> account option \<Rightarrow> string \<Rightarrow> subject \<Rightarrow> access_error + unit" where
  "check_perm db user p obj =
     (case has_perm db user p obj of
        Inl e \<Rightarrow> Inl e
      | Inr ok \<Rightarrow> if ok then Inr () else Inl Permission_denied)"

definition organizations_for_user :: "tenancy \<Rightarrow> account \<Rightarrow> string option \<Rightarrow> organization list" where
  "organizations_for_user db u perm =
     (if is_platform_admin u then tn_organizations db
      else if \<not> us_authenticated u then []
      else
        let ids = map gr_org (filter (\<lambda>g. gr_org g \<noteq> None \<and> gr_event g = None
                    \<and> (case perm of None \<Rightarrow> True | Some p \<Rightarrow> p \<in> set (gr_perms g))) (grants_of db u))
        in filter (\<lambda>o'. Some (og_id o') \<in> set ids) (tn_organizations db))"

definition events_for_user :: "tenancy \<Rightarrow> event list \<Rightarrow> account \<Rightarrow> string \<Rightarrow> event list" where
  "events_for_user db events u perm =
     (if is_platform_admin u then events
      else if \<not> us_authenticated u then []
      else
        let gs = filter (\<lambda>g. perm \<in> set (gr_perms g)) (grants_of db u);
            orgs = map gr_org (filter (\<lambda>g. gr_org g \<noteq> None \<and> gr_event g = None) gs);
            ids = map gr_event (filter (\<lambda>g. gr_event g \<noteq> None) gs)
        in if list_ex (\<lambda>g. gr_org g = None \<and> gr_event g = None) gs then events
           else filter (\<lambda>ev. (ev_org ev \<noteq> None \<and> ev_org ev \<in> set orgs) \<or> Some (ev_id ev) \<in> set ids
                  \<or> (perm \<in> set organizer_permissions \<and> ev_organizer ev = Some (us_id u))) events)"

definition is_console_user :: "tenancy \<Rightarrow> event list \<Rightarrow> account \<Rightarrow> bool" where
  "is_console_user db events u \<longleftrightarrow>
     (if is_platform_admin u then True
      else if \<not> us_authenticated u then False
      else grants_of db u \<noteq> [] \<or> exists_where (\<lambda>ev. ev_organizer ev = Some (us_id u)) events)"

section \<open>Guarded views\<close>

datatype 'a guarded = Login_required | Not_found | Denied | Unknown_perm | Enter 'a

definition event_permission_required ::
  "tenancy \<Rightarrow> event list \<Rightarrow> account \<Rightarrow> string \<Rightarrow> int \<Rightarrow> event guarded \<times> tenancy" where
  "event_permission_required db events u p i =
     (if \<not> us_authenticated u then (Login_required, db)
      else case first_where (\<lambda>ev. ev_id ev = i) events of
        None \<Rightarrow> (Not_found, db)
      | Some ev \<Rightarrow>
          (case has_perm db (Some u) p (Election ev) of
             Inl _ \<Rightarrow> (Unknown_perm, db)
           | Inr True \<Rightarrow> (Enter ev, db)
           | Inr False \<Rightarrow>
               (Denied, db\<lparr>tn_log := tn_log db @
                  [(plain_note ''ACCESS_DENIED'' (Some (us_id u)) (Some (ev_id ev, ev_org ev)))\<lparr>an_result := ''DENIED''\<rparr>]\<rparr>)))"

definition permission_required :: "tenancy \<Rightarrow> account \<Rightarrow> string \<Rightarrow> unit guarded" where
  "permission_required db u p =
     (if \<not> us_authenticated u then Login_required
      else if is_platform_admin u \<or> list_ex (\<lambda>g. p \<in> set (gr_perms g)) (grants_of db u) then Enter ()
      else Denied)"

section \<open>Granting and revoking\<close>

definition next_id :: "('r \<Rightarrow> int) \<Rightarrow> 'r list \<Rightarrow> int" where
  "next_id key rows = fold max (map key rows) 0 + 1"

datatype tenancy_error = No_such_role | Last_org_admin

text \<open>\<open>grant_role\<close>: an assignment is created unless the same one is there.\<close>

definition grant_role ::
  "tenancy \<Rightarrow> int \<Rightarrow> account \<Rightarrow> string \<Rightarrow> int option \<Rightarrow> event option \<Rightarrow> tenancy_error + tenancy" where
  "grant_role db org u code actor ev =
     (if map_of (tn_roles db) code = None then Inl No_such_role
      else if exists_where (\<lambda>a. ra_user a = us_id u \<and> ra_role a = code \<and> ra_org a = Some org
                               \<and> ra_event a = map_option ev_id ev) (tn_assignments db)
      then Inr db
      else Inr (db\<lparr>tn_assignments := tn_assignments db @
                     [\<lparr>ra_id = next_id ra_id (tn_assignments db), ra_user = us_id u, ra_role = code,
                       ra_org = Some org, ra_event = map_option ev_id ev, ra_granted_by = actor\<rparr>],
                   tn_log := tn_log db @
                     [(plain_note ''ROLE_GRANTED'' actor (map_option (\<lambda>e. (ev_id e, ev_org e)) ev))
                        \<lparr>an_org := Some org, an_target := Some (''auth.User'', str_int (us_id u))\<rparr>]\<rparr>))"

definition org_admins :: "int \<Rightarrow> assignment list \<Rightarrow> nat" where
  "org_admins org rows =
     count_where (\<lambda>a. ra_org a = Some org \<and> ra_role a = ''ORG_ADMIN'' \<and> ra_event a = None) rows"

definition revoke_role :: "tenancy \<Rightarrow> assignment \<Rightarrow> int option \<Rightarrow> tenancy_error + tenancy" where
  "revoke_role db a actor =
     (if ra_role a = ''ORG_ADMIN'' \<and>
         (case ra_org a of None \<Rightarrow> False | Some org \<Rightarrow> org_admins org (tn_assignments db) \<le> 1)
      then Inl Last_org_admin
      else Inr (db\<lparr>tn_assignments := filter (\<lambda>b. ra_id b \<noteq> ra_id a) (tn_assignments db),
                   tn_log := tn_log db @
                     [(plain_note ''ROLE_REVOKED'' actor (map_option (\<lambda>e. (e, ra_org a)) (ra_event a)))
                        \<lparr>an_org := ra_org a, an_target := Some (''auth.User'', str_int (ra_user a))\<rparr>]\<rparr>))"

definition ensure_personal_organization ::
  "tenancy \<Rightarrow> account \<Rightarrow> string \<Rightarrow> int option \<Rightarrow> tenancy_error + int \<times> tenancy" where
  "ensure_personal_organization db u name actor =
     (case first_where (\<lambda>a. ra_user a = us_id u \<and> ra_role a = ''ORG_ADMIN'' \<and> ra_org a \<noteq> None
                           \<and> ra_event a = None) (tn_assignments db) of
        Some a \<Rightarrow> Inr (the (ra_org a), db)
      | None \<Rightarrow>
          (let org = next_id og_id (tn_organizations db) in
           if map_of (tn_roles db) ''ORG_ADMIN'' = None then Inl No_such_role
           else Inr (org, db\<lparr>tn_organizations := tn_organizations db @
                               [\<lparr>og_id = org, og_name = name, og_personal = True\<rparr>],
                             tn_assignments := tn_assignments db @
                               [\<lparr>ra_id = next_id ra_id (tn_assignments db), ra_user = us_id u,
                                 ra_role = ''ORG_ADMIN'', ra_org = Some org, ra_event = None,
                                 ra_granted_by = actor\<rparr>],
                             tn_log := tn_log db @
                               [(plain_note ''ORGANIZATION_CREATED'' actor None)\<lparr>an_org := Some org\<rparr>]\<rparr>)))"

definition switch_organization :: "tenancy \<Rightarrow> account \<Rightarrow> int \<Rightarrow> organization option" where
  "switch_organization db u org = first_where (\<lambda>o'. og_id o' = org) (organizations_for_user db u None)"

text \<open>\<open>current_organization\<close>: the one of the session if the user may use it, else the first
  (personal ones first, then by name).\<close>

definition current_organization ::
  "tenancy \<Rightarrow> account \<Rightarrow> string \<Rightarrow> int option \<Rightarrow> string \<Rightarrow> tenancy_error + int option \<times> tenancy" where
  "current_organization db u perm selected name =
     (if \<not> us_authenticated u then Inr (None, db)
      else
        let cands = organizations_for_user db u (Some perm);
            chosen = (case selected of None \<Rightarrow> None | Some i \<Rightarrow> first_where (\<lambda>o'. og_id o' = i) cands)
        in case chosen of
             Some o' \<Rightarrow> Inr (Some (og_id o'), db)
           | None \<Rightarrow>
               (case sort_key (\<lambda>o'. (\<not> og_personal o', og_name o')) cands of
                  o' # _ \<Rightarrow> Inr (Some (og_id o'), db)
                | [] \<Rightarrow>
                    if is_platform_admin u
                    then (case ensure_personal_organization db u name (Some (us_id u)) of
                            Inl e \<Rightarrow> Inl e
                          | Inr (i, db') \<Rightarrow> Inr (Some i, db'))
                    else Inr (None, db)))"

end
