(* ===== verification/Rbac_Props.thy ===== *)
theory Rbac_Props
  imports Rbac Contracts
begin

text \<open>
  Access control: permissions do not cross organizations, the list of elections a user sees
  agrees with the permission check on each, and an organization keeps an administrator.
\<close>

section \<open>Tenant isolation\<close>

lemma user_permission_iff:
  assumes "us_authenticated u" and "us_active u" and "\<not> is_platform_admin u"
  shows "p \<in> set (user_permissions db (Some u) (Election ev)) \<longleftrightarrow>
    (\<exists>g\<in>set (grants_of db u). p \<in> set (gr_perms g) \<and>
        (gr_org g = None \<and> gr_event g = None \<or> gr_event g = Some (ev_id ev)
         \<or> gr_event g = None \<and> gr_org g \<noteq> None \<and> gr_org g = ev_org ev))
    \<or> ev_organizer ev = Some (us_id u) \<and> p \<in> set organizer_permissions"
proof -
  have "grant_applies (ev_org ev) (Some ev) g \<longleftrightarrow> gr_org g = None \<and> gr_event g = None \<or> gr_event g = Some (ev_id ev)
         \<or> gr_event g = None \<and> gr_org g \<noteq> None \<and> gr_org g = ev_org ev" for g
    by (auto simp: grant_applies_def)
  then show ?thesis using assms by (auto simp: user_permissions_def)
qed


text \<open>
  C10: The elections listed for an active user are exactly those on which the permission
  check succeeds, for every permission: the list neither leaks an election nor hides one.
\<close>

theorem listed_iff_permitted:
  assumes "us_active u" and "p \<in> set permissions" and "ev \<in> set events"
  shows "ev \<in> set (events_for_user db events u p) \<longleftrightarrow> has_perm db (Some u) p (Election ev) = Inr True"
proof (cases "is_platform_admin u \<or> \<not> us_authenticated u")
  case True
  with assms show ?thesis
    by (auto simp: events_for_user_def has_perm_def user_permissions_def is_platform_admin_def)
next
  case False
  with assms(1) user_permission_iff [of u p db ev]
  have "has_perm db (Some u) p (Election ev) = Inr True \<longleftrightarrow>
    (\<exists>g\<in>set (grants_of db u). p \<in> set (gr_perms g) \<and>
        (gr_org g = None \<and> gr_event g = None \<or> gr_event g = Some (ev_id ev)
         \<or> gr_event g = None \<and> gr_org g \<noteq> None \<and> gr_org g = ev_org ev))
    \<or> ev_organizer ev = Some (us_id u) \<and> p \<in> set organizer_permissions"
    using assms(2) by (simp add: has_perm_def)
  moreover have "ev \<in> set (events_for_user db events u p) \<longleftrightarrow>
    (\<exists>g\<in>set (grants_of db u). p \<in> set (gr_perms g) \<and>
        (gr_org g = None \<and> gr_event g = None \<or> gr_event g = Some (ev_id ev)
         \<or> gr_event g = None \<and> gr_org g \<noteq> None \<and> gr_org g = ev_org ev))
    \<or> ev_organizer ev = Some (us_id u) \<and> p \<in> set organizer_permissions"
    using False assms(3)
    by (auto simp: events_for_user_def Let_def list_ex_iff image_iff dest: sym)
  ultimately show ?thesis by simp
qed

section \<open>Roles\<close>

text \<open>
  The system roles separate duties: apart from the two administrator roles, no role can
  both submit an election and approve its configuration, none can both tally or certify
  results and approve configurations, and the marker role of voters grants nothing.
\<close>

theorem roles_separate_duties:
  "map fst (filter (\<lambda>(code, ps). ''election.review'' \<in> set ps \<and>
       (''election.submit'' \<in> set ps \<or> ''results.tally'' \<in> set ps \<or> ''results.certify'' \<in> set ps))
     role_definitions) = [''SUPER_ADMIN'', ''ORG_ADMIN'']
   \<and> map_of role_definitions ''VOTER'' = Some []"
  by (simp add: role_definitions_def org_admin_permissions_def permissions_def)

section \<open>An organization keeps an administrator\<close>

datatype role_change =
    Grant int account string "int option" "event option"
  | Revoke assignment "int option"

fun change_roles :: "role_change \<Rightarrow> tenancy \<Rightarrow> tenancy_error + tenancy" where
  "change_roles (Grant org u code actor ev) db = grant_role db org u code actor ev"
| "change_roles (Revoke a actor) db =
     (if a \<in> set (tn_assignments db) then revoke_role db a actor else Inr db)"

definition tenancy_ok :: "tenancy \<Rightarrow> bool" where
  "tenancy_ok db \<longleftrightarrow> distinct (map ra_id (tn_assignments db))"

lemma next_id_new: "r \<in> set rows \<Longrightarrow> key r < next_id key rows"
proof -
  have "i \<in> set xs \<Longrightarrow> i \<le> fold max xs m" and "m \<le> fold max xs m" for i m and xs :: "int list"
    by (induction xs arbitrary: m) (auto intro: order_trans [OF max.cobounded1] order_trans [OF max.cobounded2])
  then show "r \<in> set rows \<Longrightarrow> key r < next_id key rows" by (force simp: next_id_def less_iff_succ_less_eq)
qed

lemma org_admins_remove:
  assumes "distinct (map ra_id rows)" and "a \<in> set rows"
  shows "org_admins org rows = org_admins org (filter (\<lambda>b. ra_id b \<noteq> ra_id a) rows)
    + (if ra_org a = Some org \<and> ra_role a = ''ORG_ADMIN'' \<and> ra_event a = None then 1 else 0)"
  using assms
proof (induction rows)
  case (Cons r rows)
  show ?case
  proof (cases "r = a")
    case True
    with Cons.prems(1) have "filter (\<lambda>b. ra_id b \<noteq> ra_id a) rows = rows"
      by (intro filter_True) (auto simp: image_iff)
    with True show ?thesis by (simp add: org_admins_def)
  next
    case False
    with Cons.prems have "ra_id r \<noteq> ra_id a" by auto
    with False Cons show ?thesis by (simp add: org_admins_def)
  qed
qed simp

lemma change_keeps_admin:
  assumes "tenancy_ok db" and "change_roles x db = Inr db'" and "0 < org_admins org (tn_assignments db)"
  shows "tenancy_ok db' \<and> 0 < org_admins org (tn_assignments db')"
proof (cases x)
  case (Grant g u code actor ev)
  with assms next_id_new [of _ "tn_assignments db" ra_id] show ?thesis
    by (fastforce simp: grant_role_def tenancy_ok_def org_admins_def split: if_splits)
next
  case (Revoke a actor)
  with assms have "distinct (map ra_id (tn_assignments db))" by (simp add: tenancy_ok_def)
  from org_admins_remove [OF this, of a org] Revoke assms show ?thesis
    by (auto simp: revoke_role_def tenancy_ok_def distinct_map_filter split: if_splits option.splits)
qed

text \<open>
  C11: An organization that has an administrator always keeps one, through every sequence of
  role grants and revocations, whatever is revoked and by whom.
\<close>

theorem org_keeps_admin:
  assumes "tenancy_ok db" and "0 < org_admins org (tn_assignments db)"
    and "run_attempts change_roles xs db = (hits, db')"
  shows "0 < org_admins org (tn_assignments db')"
  using assms
proof (induction xs arbitrary: db hits)
  case (Cons x xs)
  show ?case
  proof (cases "change_roles x db")
    case (Inr s)
    obtain d where "run_attempts change_roles xs s = (d, db')"
      using Cons.prems(3) Inr by (auto simp: case_prod_unfold Let_def prod_eq_iff)
    with Cons.IH change_keeps_admin [OF Cons.prems(1) Inr Cons.prems(2)] show ?thesis by blast
  qed (use Cons in simp)
qed simp

section \<open>Worked examples\<close>

definition ex_account :: account where
  "ex_account = \<lparr>us_id = 3, us_name = ''kofi'', us_authenticated = True, us_active = True,
     us_superuser = False, us_staff = False\<rparr>"

definition ex_admin :: assignment where
  "ex_admin = \<lparr>ra_id = 1, ra_user = 3, ra_role = ''ORG_ADMIN'', ra_org = Some 1, ra_event = None, ra_granted_by = None\<rparr>"

definition ex_tenancy :: tenancy where
  "ex_tenancy = \<lparr>tn_roles = role_definitions, tn_assignments = [ex_admin], tn_organizations = [], tn_log = []\<rparr>"

lemmas ex_rbac = ex_account_def ex_admin_def ex_tenancy_def

lemma ex_permitted: "has_perm ex_tenancy (Some ex_account) ''election.edit'' (Election ex_event) = Inr True"
  by (simp add: has_perm_def user_permissions_def is_platform_admin_def grants_of_def grant_applies_def
      role_permissions_def role_definitions_def org_admin_permissions_def permissions_def ex_rbac ex_event_def)


theorem listed_iff_permitted_witness:
  "ex_event \<in> set (events_for_user ex_tenancy [ex_event] ex_account ''election.edit'')"
proof (subst listed_iff_permitted)
  show "''election.edit'' \<in> set permissions" by (simp add: permissions_def)
qed (simp_all add: ex_permitted, simp_all add: ex_account_def)

theorem org_keeps_admin_witness:
  "0 < org_admins 1 (tn_assignments (snd (run_attempts change_roles [Revoke ex_admin None] ex_tenancy)))"
  by (rule org_keeps_admin [where db = ex_tenancy and hits = "fst (run_attempts change_roles [Revoke ex_admin None] ex_tenancy)"
        and xs = "[Revoke ex_admin None]"])
    (simp_all add: tenancy_ok_def org_admins_def ex_rbac)

end
