(* ===== verification/Shamir.thy ===== *)
theory Shamir
  imports Prelude
begin

text \<open>
  core/crypto.py: Shamir secret sharing over the integers modulo \<open>2 ^ 521 - 1\<close>, by which
  an election key is split between its trustees, from the bytes of the secret to the text
  of the shares and back. A byte string is a list of characters. \<open>digest\<close> is SHA-256 (32
  bytes), the random coefficients are an argument.

  The main theorem needs no primality: interpolation at shares 1 to 255 only inverts
  differences below 255, and no number below 255 has a factor in common with the modulus.
\<close>

section \<open>Numbers, bytes and hexadecimal text\<close>

definition shamir_prime :: int where
  "shamir_prime = 2 ^ 521 - 1"

definition bytes_value :: "string \<Rightarrow> int" where
  "bytes_value bs = foldl (\<lambda>a c. 256 * a + int (of_char c)) 0 bs"

fun nat_bytes :: "nat \<Rightarrow> string" where
  "nat_bytes n = (if n = 0 then [] else nat_bytes (n div 256) @ [char_of (n mod 256)])"

declare nat_bytes.simps [simp del]

definition hex_char :: "nat \<Rightarrow> char" where
  "hex_char d = (if d < 10 then char_of (48 + d) else char_of (87 + d))"

definition hex_value :: "char \<Rightarrow> nat option" where
  "hex_value c =
     (let n = (of_char c :: nat) in
      if 48 \<le> n \<and> n \<le> 57 then Some (n - 48)
      else if 97 \<le> n \<and> n \<le> 102 then Some (n - 87)
      else if 65 \<le> n \<and> n \<le> 70 then Some (n - 55) else None)"

fun str_hex :: "nat \<Rightarrow> string" where
  "str_hex n = (if n < 16 then [hex_char n] else str_hex (n div 16) @ [hex_char (n mod 16)])"

declare str_hex.simps [simp del]

fun scan_hex :: "nat \<Rightarrow> bool \<Rightarrow> string \<Rightarrow> nat option" where
  "scan_hex acc after_digit [] = (if after_digit then Some acc else None)"
| "scan_hex acc after_digit (c # cs) =
     (case hex_value c of
        Some d \<Rightarrow> scan_hex (16 * acc + d) True cs
      | None \<Rightarrow> if c = CHR ''_'' \<and> after_digit then scan_hex acc False cs else None)"

text \<open>\<open>int(text, 16)\<close>; a text with a minus sign never gets here.\<close>

fun scan_prefixed :: "string \<Rightarrow> nat option" where
  "scan_prefixed (z # x # cs) =
     (if z = CHR ''0'' \<and> x \<in> {CHR ''x'', CHR ''X''}
      then (case cs of
              [] \<Rightarrow> None
            | c # cs' \<Rightarrow> if c = CHR ''_'' then scan_hex 0 False cs' else scan_hex 0 False cs)
      else scan_hex 0 False (z # x # cs))"
| "scan_prefixed cs = scan_hex 0 False cs"

definition parse_hex :: "string \<Rightarrow> int option" where
  "parse_hex text =
     (case strip text of
        [] \<Rightarrow> None
      | c # cs \<Rightarrow> map_option int (if c = CHR ''+'' then scan_prefixed cs else scan_prefixed (c # cs)))"

section \<open>Splitting\<close>

datatype crypto_error =
    Bad_threshold | Secret_too_large | Malformed_share | Duplicate_shares | Not_invertible | Invalid_secret

definition horner :: "int \<Rightarrow> int list \<Rightarrow> int \<Rightarrow> int" where
  "horner p cs x = foldr (\<lambda>c y. (y * x + c) mod p) cs 0"

definition share_text :: "int \<Rightarrow> int \<Rightarrow> string" where
  "share_text x y = ''fvs1-'' @ str_int x @ CHR ''-'' # str_hex (nat y)"

definition sealed_value :: "(string \<Rightarrow> string) \<Rightarrow> string \<Rightarrow> int" where
  "sealed_value digest secret = bytes_value (CHR 0x01 # secret @ take 8 (digest secret))"

definition split_secret ::
  "(string \<Rightarrow> string) \<Rightarrow> string \<Rightarrow> int \<Rightarrow> int \<Rightarrow> int list \<Rightarrow> crypto_error + string list" where
  "split_secret digest secret shares threshold random =
     (if \<not> (1 \<le> threshold \<and> threshold \<le> shares \<and> shares \<le> 255) then Inl Bad_threshold
      else
        let v = sealed_value digest secret
        in if shamir_prime \<le> v then Inl Secret_too_large
           else Inr (map (\<lambda>x. share_text x (horner shamir_prime (v # random) x)) [1..shares]))"

section \<open>Combining\<close>

definition parse_share :: "string \<Rightarrow> crypto_error + int \<times> int" where
  "parse_share share =
     (case split_on (CHR ''-'') (strip share) of
        [prefix, x, y] \<Rightarrow>
          if prefix \<noteq> ''fvs1'' then Inl Malformed_share
          else (case (parse_int x, parse_hex y) of
                  (Some i, Some j) \<Rightarrow> Inr (i, j)
                | _ \<Rightarrow> Inl Malformed_share)
      | _ \<Rightarrow> Inl Malformed_share)"

fun parse_shares :: "string list \<Rightarrow> crypto_error + (int \<times> int) list" where
  "parse_shares [] = Inr []"
| "parse_shares (s # ss) =
     (case parse_share s of
        Inl e \<Rightarrow> Inl e
      | Inr p \<Rightarrow> (case parse_shares ss of Inl e \<Rightarrow> Inl e | Inr ps \<Rightarrow> Inr (p # ps)))"

definition others :: "nat \<Rightarrow> 'a list \<Rightarrow> 'a list" where
  "others i xs = take i xs @ drop (Suc i) xs"

text \<open>The inner loop: numerator and denominator of the weight of point \<open>i\<close>.\<close>

definition weight_parts :: "int \<Rightarrow> int list \<Rightarrow> nat \<Rightarrow> int \<times> int" where
  "weight_parts p xs i =
     foldl (\<lambda>(n, d) xj. (n * - xj mod p, d * (xs ! i - xj) mod p)) (1, 1) (others i xs)"

text \<open>\<open>pow(d, -1, p)\<close>, by Euclid's algorithm; it raises when there is no inverse.\<close>

definition mod_inverse :: "int \<Rightarrow> int \<Rightarrow> int option" where
  "mod_inverse d p =
     (if gcd d p = 1 then Some (fst (bezw (nat (d mod p)) (nat p)) mod p) else None)"

fun add_points :: "int \<Rightarrow> (int \<times> int) list \<Rightarrow> nat list \<Rightarrow> int \<Rightarrow> int option" where
  "add_points p ps [] secret = Some secret"
| "add_points p ps (i # is') secret =
     (let (n, d) = weight_parts p (map fst ps) i in
      case mod_inverse d p of
        None \<Rightarrow> None
      | Some w \<Rightarrow> add_points p ps is' ((secret + snd (ps ! i) * n * w) mod p))"

definition open_secret :: "(string \<Rightarrow> string) \<Rightarrow> int \<Rightarrow> crypto_error + string" where
  "open_secret digest v =
     (let raw = nat_bytes (nat v); recovered = drop 1 (take (length raw - 8) raw)
      in if length raw < 10 \<or> hd raw \<noteq> CHR 0x01 then Inl Invalid_secret
         else if take 8 (digest recovered) \<noteq> drop (length raw - 8) raw then Inl Invalid_secret
         else Inr recovered)"

definition combine_shares :: "(string \<Rightarrow> string) \<Rightarrow> string list \<Rightarrow> crypto_error + string" where
  "combine_shares digest shares =
     (case parse_shares shares of
        Inl e \<Rightarrow> Inl e
      | Inr ps \<Rightarrow>
          if card (set (map fst ps)) \<noteq> length ps then Inl Duplicate_shares
          else case add_points shamir_prime ps [0..<length ps] 0 of
            None \<Rightarrow> Inl Not_invertible
          | Some v \<Rightarrow> open_secret digest v)"

section \<open>Polynomials\<close>

fun peval :: "int list \<Rightarrow> int \<Rightarrow> int" where
  "peval [] x = 0"
| "peval (c # cs) x = c + x * peval cs x"

fun padd :: "int list \<Rightarrow> int list \<Rightarrow> int list" where
  "padd [] ys = ys"
| "padd xs [] = xs"
| "padd (x # xs) (y # ys) = (x + y) # padd xs ys"

fun pquot :: "int \<Rightarrow> int list \<Rightarrow> int list" where
  "pquot a [] = []"
| "pquot a (c # cs) = (if cs = [] then [] else peval cs a # pquot a cs)"

definition pscale :: "int \<Rightarrow> int list \<Rightarrow> int list" where
  "pscale k xs = map ((*) k) xs"

definition pfactor :: "int \<Rightarrow> int list \<Rightarrow> int list" where
  "pfactor a cs = padd (0 # cs) (pscale (- a) cs)"

lemma peval_padd [simp]: "peval (padd xs ys) x = peval xs x + peval ys x"
  by (induction xs ys rule: padd.induct) (simp_all add: algebra_simps)

lemma length_padd [simp]: "length (padd xs ys) = max (length xs) (length ys)"
  by (induction xs ys rule: padd.induct) simp_all

lemma peval_pscale [simp]: "peval (pscale k xs) x = k * peval xs x" "length (pscale k xs) = length xs"
  by (induction xs) (simp_all add: pscale_def algebra_simps)

lemma peval_pfactor [simp]: "peval (pfactor a cs) x = (x - a) * peval cs x" "length (pfactor a cs) = Suc (length cs)"
  by (simp_all add: pfactor_def algebra_simps)

lemma peval_pquot: "peval cs x - peval cs a = (x - a) * peval (pquot a cs) x"
proof (induction cs)
  case (Cons c cs)
  then have eq: "peval cs x = peval cs a + (x - a) * peval (pquot a cs) x" by simp
  have "x * peval cs x - a * peval cs a = (x - a) * (peval cs a + x * peval (pquot a cs) x)"
    unfolding eq by (simp add: algebra_simps)
  then show ?case by (cases "cs = []") simp_all
qed simp

lemma gcd_mod_same: "gcd (d mod p) p = gcd d p" for p :: int
  by (metis gcd_red_int gcd.commute)

lemma length_pquot: "length (pquot a cs) = length cs - 1"
  by (induction cs) auto

lemma horner_peval: "horner p cs x = peval cs x mod p"
proof (induction cs)
  case (Cons c cs)
  have "horner p (c # cs) x = (horner p cs x * x + c) mod p" by (simp add: horner_def)
  also have "\<dots> = (c + x * peval cs x) mod p"
    unfolding Cons.IH
    by (subst mod_add_left_eq [symmetric], subst mod_mult_left_eq, subst mod_add_left_eq) (simp add: ac_simps)
  finally show ?case by simp
qed (simp add: horner_def)

text \<open>A polynomial with as many roots as coefficients vanishes, modulo \<open>p\<close>.\<close>

lemma many_roots:
  fixes p :: int
  assumes "length cs \<le> length xs" and "\<And>x. x \<in> set xs \<Longrightarrow> p dvd peval cs x"
    and "distinct xs" and "\<And>x y. x \<in> set xs \<Longrightarrow> y \<in> set xs \<Longrightarrow> x \<noteq> y \<Longrightarrow> coprime p (x - y)"
  shows "p dvd peval cs z"
  using assms
proof (induction xs arbitrary: cs z)
  case (Cons a xs)
  have a: "p dvd peval cs a" using Cons.prems(2) by simp
  have "p dvd peval (pquot a cs) z"
  proof (rule Cons.IH)
    show "length (pquot a cs) \<le> length xs" using Cons.prems(1) by (simp add: length_pquot)
    show "p dvd peval (pquot a cs) x" if "x \<in> set xs" for x
    proof -
      have "x \<noteq> a" using that Cons.prems(3) by auto
      then have "coprime p (x - a)" using Cons.prems(4) that by simp
      moreover have "p dvd (x - a) * peval (pquot a cs) x"
        unfolding peval_pquot [symmetric] using a Cons.prems(2) that by (simp add: dvd_diff)
      ultimately show ?thesis by (simp add: coprime_dvd_mult_right_iff)
    qed
  qed (use Cons.prems in simp_all)
  then have "p dvd peval cs z - peval cs a" by (simp add: peval_pquot)
  with a show ?case by (metis dvd_add diff_add_cancel)
qed simp

section \<open>Interpolation\<close>

definition diffs :: "int \<Rightarrow> int list \<Rightarrow> int" where
  "diffs x as = prod_list (map (\<lambda>a. x - a) as)"

lemma diffs_simps [simp]: "diffs x [] = 1" "diffs x (a # as) = (x - a) * diffs x as"
  by (simp_all add: diffs_def)

lemma peval_basis: "peval (foldr pfactor as [1]) x = diffs x as" "length (foldr pfactor as [1]) = Suc (length as)"
  by (induction as) simp_all

lemma weight_fold:
  "foldl (\<lambda>(n, d) a. (n * - a mod p, d * (x - a) mod p)) (n mod p, d mod p) as
     = (n * diffs 0 as mod p, d * diffs x as mod p)" for p :: int
proof (induction as arbitrary: n d)
  case (Cons a as)
  have "(n mod p) * - a mod p = (n * - a) mod p" "(d mod p) * (x - a) mod p = (d * (x - a)) mod p"
    by (rule mod_mult_left_eq)+
  with Cons.IH [of "n * - a" "d * (x - a)"] show ?case by (simp add: algebra_simps)
qed simp

lemma weight_parts_diffs:
  "1 < p \<Longrightarrow> weight_parts p xs i = (diffs 0 (others i xs) mod p, diffs (xs ! i) (others i xs) mod p)"
  using weight_fold [of p "xs ! i" 1 1 "others i xs"] by (simp add: weight_parts_def)

lemma mod_inverse_Some:
  assumes "coprime d p" and "1 < p"
  obtains w where "mod_inverse d p = Some w" and "p dvd d * w - 1"
proof -
  let ?b = "bezw (nat (d mod p)) (nat p)"
  have g: "gcd d p = 1" using assms(1) by (simp add: coprime_iff_gcd_eq_1)
  have pos: "0 \<le> d mod p" using assms(2) by simp
  have "fst ?b * (d mod p) + snd ?b * p = int (gcd (nat (d mod p)) (nat p))"
    using bezw_aux [of "nat (d mod p)" "nat p"] pos assms(2) by simp
  also have "\<dots> = gcd (d mod p) p" using pos assms(2) by (simp add: gcd_nat_abs_left_eq flip: gcd_int_int_eq)
  also have "\<dots> = 1" using g by (simp only: gcd_mod_same)
  finally have "fst ?b * (d mod p) + snd ?b * p = 1" .
  then have "(fst ?b * d) mod p = 1"
    using assms(2) by (metis mod_mult_right_eq mod_mult_self1 mod_mult_self4 mod_pos_pos_trivial add.commute zero_le_one)
  then have "(d * (fst ?b mod p)) mod p = 1 mod p" using assms(2) by (simp add: mod_mult_right_eq mult.commute)
  then have "p dvd d * (fst ?b mod p) - 1" by (simp add: mod_eq_dvd_iff)
  with g that show ?thesis by (simp add: mod_inverse_def)
qed

lemma add_points_sum:
  assumes "1 < p" and "\<And>i. i \<in> set is' \<Longrightarrow> mod_inverse (snd (weight_parts p (map fst ps) i)) p = Some (w i)"
  shows "add_points p ps is' (s mod p)
    = Some ((s + (\<Sum>i\<leftarrow>is'. snd (ps ! i) * fst (weight_parts p (map fst ps) i) * w i)) mod p)"
  using assms(2)
proof (induction is' arbitrary: s)
  case (Cons i is')
  let ?t = "snd (ps ! i) * fst (weight_parts p (map fst ps) i) * w i"
  have "(s mod p + ?t) mod p = (s + ?t) mod p" by (rule mod_add_left_eq)
  with Cons show ?case by (simp add: case_prod_unfold Let_def add.assoc)
qed simp

lemma others_props:
  assumes "i < length xs" and "distinct xs"
  shows "length (others i xs) = length xs - 1" "xs ! i \<notin> set (others i xs)"
    "j < length xs \<Longrightarrow> j \<noteq> i \<Longrightarrow> xs ! j \<in> set (others i xs)" "set (others i xs) \<subseteq> set xs"
proof -
  have xs: "xs = take i xs @ xs ! i # drop (Suc i) xs" using assms(1) by (rule id_take_nth_drop)
  show "length (others i xs) = length xs - 1" using assms(1) by (simp add: others_def)
  have "distinct (take i xs @ xs ! i # drop (Suc i) xs)" using xs assms(2) by metis
  then show n: "xs ! i \<notin> set (others i xs)" by (simp add: others_def)
  have s: "set xs = insert (xs ! i) (set (others i xs))"
    using arg_cong [OF xs, of set] by (simp add: others_def)
  then show "set (others i xs) \<subseteq> set xs" by blast
  show "xs ! j \<in> set (others i xs)" if "j < length xs" "j \<noteq> i"
  proof -
    have "xs ! j \<noteq> xs ! i" using that assms by (simp add: nth_eq_iff_index_eq)
    moreover have "xs ! j \<in> set xs" using that(1) by simp
    ultimately show ?thesis using s by blast
  qed
qed

lemma diffs_zero: "a \<in> set as \<Longrightarrow> diffs a as = 0"
  by (induction as) auto

lemma coprime_diffs: "(\<And>a. a \<in> set as \<Longrightarrow> coprime p (x - a)) \<Longrightarrow> coprime (diffs x as) p"
  by (induction as) (auto simp: coprime_commute)

lemma peval_sum: "peval (foldr padd (map f is') []) x = (\<Sum>i\<leftarrow>is'. peval (f i) x)"
  by (induction is') simp_all

lemma length_sum: "(\<And>i. i \<in> set is' \<Longrightarrow> length (f i) \<le> n) \<Longrightarrow> length (foldr padd (map f is') []) \<le> n"
  by (induction is') simp_all

lemma sum_list_single:
  fixes f :: "nat \<Rightarrow> int"
  assumes "m < n" and "\<And>i. i < n \<Longrightarrow> i \<noteq> m \<Longrightarrow> f i = 0"
  shows "(\<Sum>i\<leftarrow>[0..<n]. f i) = f m"
proof -
  have "(\<Sum>i\<leftarrow>[0..<n]. f i) = (\<Sum>i<n. f i)" by (simp add: interv_sum_list_conv_sum_set_nat atLeast0LessThan)
  also have "\<dots> = (\<Sum>i<n. if i = m then f m else 0)" using assms(2) by (intro sum.cong) auto
  also have "\<dots> = f m" using assms(1) by simp
  finally show ?thesis .
qed

lemma sum_mod_cong:
  fixes f :: "nat \<Rightarrow> int"
  assumes "\<And>i. f i mod p = g i mod p"
  shows "(\<Sum>i\<leftarrow>is'. f i) mod p = (\<Sum>i\<leftarrow>is'. g i) mod p"
proof (induction is')
  case (Cons i is')
  from mod_add_cong [OF assms [of i] Cons.IH] show ?case by simp
qed simp

lemma interpolation:
  fixes p :: int
  assumes "1 < p" and "distinct xs" and "length cs \<le> length xs"
    and "\<And>x y. x \<in> set xs \<Longrightarrow> y \<in> set xs \<Longrightarrow> x \<noteq> y \<Longrightarrow> coprime p (x - y)"
  shows "add_points p (map (\<lambda>x. (x, peval cs x mod p)) xs) [0..<length xs] 0 = Some (peval cs 0 mod p)"
proof -
  let ?ps = "map (\<lambda>x. (x, peval cs x mod p)) xs" and ?n = "length xs"
  have fst: "map fst ?ps = xs" by (simp add: comp_def)
  let ?d = "\<lambda>i. diffs (xs ! i) (others i xs)" and ?y = "\<lambda>i. peval cs (xs ! i) mod p"
  have cop: "coprime (?d i) p" if "i < ?n" for i
  proof (rule coprime_diffs)
    fix a
    assume a: "a \<in> set (others i xs)"
    with others_props [OF that assms(2)] have "a \<in> set xs" "a \<noteq> xs ! i" by auto
    with assms(4) [of "xs ! i" a] that show "coprime p (xs ! i - a)" by simp
  qed
  have "\<exists>w. mod_inverse (?d i mod p) p = Some w \<and> p dvd ?d i * w - 1" if "i < ?n" for i
  proof -
    have "coprime (?d i mod p) p" using cop [OF that] by (simp only: coprime_iff_gcd_eq_1 gcd_mod_same)
    then obtain w where w: "mod_inverse (?d i mod p) p = Some w" "p dvd (?d i mod p) * w - 1"
      using mod_inverse_Some assms(1) by metis
    from w(2) have "(?d i mod p) * w mod p = 1 mod p" by (simp add: mod_eq_dvd_iff)
    then have "p dvd ?d i * w - 1" by (simp add: mod_mult_left_eq mod_eq_dvd_iff)
    with w(1) show ?thesis by blast
  qed
  then obtain w where w: "\<And>i. i < ?n \<Longrightarrow> mod_inverse (?d i mod p) p = Some (w i) \<and> p dvd ?d i * w i - 1"
    by metis
  define L where "L = foldr padd (map (\<lambda>i. pscale (?y i * w i) (foldr pfactor (others i xs) [1])) [0..<?n]) []"
  have L: "peval L x = (\<Sum>i\<leftarrow>[0..<?n]. ?y i * w i * diffs x (others i xs))" for x
    by (simp add: L_def peval_sum peval_basis comp_def)
  have "length L \<le> ?n"
    unfolding L_def using others_props(1) [OF _ assms(2)] by (intro length_sum) (simp add: peval_basis)
  then have len: "length (padd cs (pscale (- 1) L)) \<le> ?n" using assms(3) by simp
  have "p dvd peval (padd cs (pscale (- 1) L)) x" if x: "x \<in> set xs" for x
  proof -
    obtain m where m: "m < ?n" "x = xs ! m" using x by (metis in_set_conv_nth)
    have "peval L x = ?y m * w m * ?d m"
      unfolding L using others_props(3) [OF _ assms(2)] m
      by (subst sum_list_single [of m]) (auto simp: diffs_zero)
    moreover have "p dvd ?y m * (?d m * w m - 1)" using w [OF m(1)] by simp
    ultimately have "p dvd peval L x - ?y m" by (simp add: algebra_simps)
    moreover have "p dvd peval cs x - ?y m" by (simp add: m(2) mod_eq_dvd_iff [symmetric])
    ultimately have "p dvd (peval cs x - ?y m) - (peval L x - ?y m)" by (rule dvd_diff [rotated])
    then show ?thesis by simp
  qed
  from many_roots [OF len this assms(2,4)] have "p dvd peval cs 0 - peval L 0" by simp
  then have zero: "peval L 0 mod p = peval cs 0 mod p" by (metis mod_eq_dvd_iff)
  have "add_points p ?ps [0..<?n] (0 mod p)
      = Some ((0 + (\<Sum>i\<leftarrow>[0..<?n]. snd (?ps ! i) * fst (weight_parts p (map fst ?ps) i) * w i)) mod p)"
    using w by (intro add_points_sum assms(1)) (simp only: fst weight_parts_diffs [OF assms(1)] snd_conv set_upt atLeastLessThan_iff)
  moreover have "(\<Sum>i\<leftarrow>[0..<?n]. snd (?ps ! i) * fst (weight_parts p (map fst ?ps) i) * w i) mod p = peval L 0 mod p"
  proof -
    have "(?y i * (diffs 0 (others i xs) mod p) * w i) mod p = (?y i * w i * diffs 0 (others i xs)) mod p" for i
      using mod_mult_right_eq [of "?y i * w i" "diffs 0 (others i xs)" p] by (simp only: ac_simps)
    then have "(\<Sum>i\<leftarrow>is'. ?y i * (diffs 0 (others i xs) mod p) * w i) mod p
        = (\<Sum>i\<leftarrow>is'. ?y i * w i * diffs 0 (others i xs)) mod p" for is'
      by (intro sum_mod_cong)
    moreover have "(\<Sum>i\<leftarrow>[0..<?n]. snd (?ps ! i) * fst (weight_parts p (map fst ?ps) i) * w i)
        = (\<Sum>i\<leftarrow>[0..<?n]. ?y i * (diffs 0 (others i xs) mod p) * w i)"
      unfolding fst weight_parts_diffs [OF assms(1)] by (intro arg_cong [of _ _ sum_list] map_cong) simp_all
    ultimately show ?thesis by (simp add: L)
  qed
  ultimately show ?thesis using zero by simp
qed

section \<open>The text of a share reads back\<close>

lemma hex_char_props:
  assumes "d < 16"
  shows "hex_value (hex_char d) = Some d" "\<not> is_space (hex_char d)" "hex_char d \<noteq> CHR ''-''"
    "hex_char d \<notin> {CHR ''x'', CHR ''X''}" "hex_char d \<noteq> CHR ''+''"
proof -
  have "(of_char (hex_char d) :: nat) = (if d < 10 then 48 + d else 87 + d)"
    using assms by (simp add: hex_char_def)
  then show "hex_value (hex_char d) = Some d" "\<not> is_space (hex_char d)" "hex_char d \<noteq> CHR ''-''"
    "hex_char d \<notin> {CHR ''x'', CHR ''X''}" "hex_char d \<noteq> CHR ''+''"
    using assms by (auto simp: hex_value_def is_space_def split: if_splits)
qed

lemma str_hex_chars: "c \<in> set (str_hex n) \<Longrightarrow> \<exists>d<16. c = hex_char d"
proof (induction n rule: str_hex.induct)
  case (1 n)
  then show ?case
    by (cases "n < 16") (auto simp: str_hex.simps [of n] intro: exI [of _ "n mod 16"])
qed

lemma scan_str_hex: "scan_hex 0 b (str_hex n @ rest) = scan_hex n True rest"
proof (induction n arbitrary: rest rule: str_hex.induct)
  case (1 n)
  show ?case
  proof (cases "n < 16")
    case True
    then show ?thesis by (simp add: str_hex.simps [of n] hex_char_props(1))
  next
    case False
    then have "scan_hex 0 b (str_hex (n div 16) @ hex_char (n mod 16) # rest)
        = scan_hex (n div 16) True (hex_char (n mod 16) # rest)" using 1 by simp
    with False show ?thesis by (simp add: str_hex.simps [of n] hex_char_props(1))
  qed
qed

lemma str_hex_nonempty: "str_hex n \<noteq> []"
  by (simp add: str_hex.simps [of n])

lemma parse_str_hex: "parse_hex (str_hex n) = Some (int n)"
proof -
  have s: "strip (str_hex n) = str_hex n"
    by (rule strip_no_space) (auto dest!: str_hex_chars simp: hex_char_props)
  obtain c cs where c: "str_hex n = c # cs" using str_hex_nonempty by (meson neq_Nil_conv)
  then have "c \<noteq> CHR ''+''" using str_hex_chars [of c n] hex_char_props(5) by auto
  moreover have "scan_prefixed (c # cs) = scan_hex 0 False (c # cs)"
  proof (cases cs)
    case (Cons x xs)
    then have "x \<notin> {CHR ''x'', CHR ''X''}" using str_hex_chars [of x n] c hex_char_props(4) by auto
    with Cons show ?thesis by simp
  qed simp
  moreover have "scan_hex 0 False (c # cs) = Some n" using scan_str_hex [of False n "[]"] c by simp
  ultimately show ?thesis using s c by (simp add: parse_hex_def)
qed

lemma split_on_none: "c \<notin> set s \<Longrightarrow> split_on c s = [s]"
  by (induction s) auto

lemma split_on_part: "c \<notin> set s \<Longrightarrow> split_on c (s @ c # t) = s # split_on c t"
  by (induction s) auto

lemma strip_share_text:
  assumes "0 \<le> x"
  shows "strip (share_text x y) = share_text x y"
proof (rule strip_no_space)
  fix c
  assume c: "c \<in> set (share_text x y)"
  have dx: "c \<in> set (str_int x) \<Longrightarrow> \<exists>d<10. c = digit_char d" for c
    using assms(1) str_nat_digits by (auto simp: str_int_def)
  from c consider "c \<in> set ''fvs1-''" | "c \<in> set (str_int x)" | "c = CHR ''-''" | "c \<in> set (str_hex (nat y))"
    by (auto simp: share_text_def)
  then show "\<not> is_space c"
  proof cases
    case 1
    then show ?thesis by (auto simp: is_space_def)
  next
    case 2
    with dx obtain d where "d < 10" "c = digit_char d" by blast
    then show ?thesis by simp
  next
    case 3
    then show ?thesis by (simp add: is_space_def)
  next
    case 4
    with str_hex_chars [of c "nat y"] hex_char_props(2) show ?thesis by auto
  qed
qed

lemma parse_share_text:
  assumes "0 \<le> x" and "0 \<le> y"
  shows "parse_share (share_text x y) = Inr (x, y)"
proof -
  have dx: "c \<in> set (str_int x) \<Longrightarrow> \<exists>d<10. c = digit_char d" for c
    using assms(1) str_nat_digits by (auto simp: str_int_def)
  then have x: "CHR ''-'' \<notin> set (str_int x)" using digit_char_not_sign(1) by metis
  have y: "CHR ''-'' \<notin> set (str_hex (nat y))"
    using str_hex_chars hex_char_props(3) by metis
  have strip: "strip (share_text x y) = share_text x y" by (rule strip_share_text [OF assms(1)])
  have "split_on (CHR ''-'') (share_text x y) = [''fvs1'', str_int x, str_hex (nat y)]"
    using split_on_part [of "CHR ''-''" "''fvs1''" "str_int x @ CHR ''-'' # str_hex (nat y)"]
      split_on_part [OF x, of "str_hex (nat y)"] split_on_none [OF y]
    by (simp add: share_text_def)
  then show ?thesis using assms(2) by (simp add: parse_share_def strip parse_str_hex)
qed

section \<open>The bytes of the secret read back\<close>

lemma bytes_value_snoc: "bytes_value (bs @ [c]) = 256 * bytes_value bs + int (of_char c)"
  by (simp add: bytes_value_def)

lemma bytes_value_nonneg: "0 \<le> bytes_value bs"
  by (induction bs rule: rev_induct) (simp_all add: bytes_value_snoc, simp add: bytes_value_def)

lemma char_one: "char_of (Suc 0) = CHR 0x01"
  by code_simp

lemma nat_bytes_value:
  "bs \<noteq> [] \<Longrightarrow> hd bs = CHR 0x01 \<Longrightarrow> nat_bytes (nat (bytes_value bs)) = bs \<and> 0 < bytes_value bs"
proof (induction bs rule: rev_induct)
  case (snoc c bs)
  have lt: "(of_char c :: nat) < 256" by (rule nat_of_char_less_256)
  let ?n = "nat (bytes_value bs)"
  have v: "nat (bytes_value (bs @ [c])) = 256 * ?n + of_char c"
    using bytes_value_nonneg [of bs] by (simp add: bytes_value_snoc nat_add_distrib nat_mult_distrib)
  have d: "(256 * ?n + of_char c) div 256 = ?n" "(256 * ?n + of_char c) mod 256 = (of_char c :: nat)"
    using lt by simp_all
  show ?case
  proof (cases "bs = []")
    case True
    with snoc.prems have "c = CHR 0x01" by simp
    with True show ?thesis by (simp add: bytes_value_def nat_bytes.simps [of 0] nat_bytes.simps [of "Suc 0"] char_one)
  next
    case False
    with snoc have "nat_bytes ?n = bs" "0 < bytes_value bs" by simp_all
    then show ?thesis
      unfolding v using d bytes_value_snoc [of bs c] by (simp add: nat_bytes.simps [of "256 * ?n + of_char c"])
  qed
qed simp

lemma open_sealed:
  assumes "secret \<noteq> []" and "\<And>x. length (digest x) \<ge> 8"
  shows "open_secret digest (sealed_value digest secret) = Inr secret"
proof -
  let ?raw = "CHR 0x01 # secret @ take 8 (digest secret)"
  have "nat_bytes (nat (sealed_value digest secret)) = ?raw"
    using nat_bytes_value [of ?raw] by (simp add: sealed_value_def)
  moreover have "length (take 8 (digest secret)) = 8" using assms(2) by (simp add: min_absorb2)
  moreover have "0 < length secret" using assms(1) by simp
  ultimately show ?thesis by (simp add: open_secret_def Let_def)
qed

section \<open>Recovery\<close>

definition small_primes :: "int list" where
  "small_primes =
     [2, 3, 5, 7, 11, 13, 17, 19, 23, 29, 31, 37, 41, 43, 47, 53, 59, 61, 67, 71, 73, 79, 83,
      89, 97, 101, 103, 107, 109, 113, 127, 131, 137, 139, 149, 151, 157, 163, 167, 173, 179,
      181, 191, 193, 197, 199, 211, 223, 227, 229, 233, 239, 241, 251]"

text \<open>\<open>2 ^ 521\<close> modulo \<open>q\<close>, by squaring.\<close>

definition power_521 :: "int \<Rightarrow> int" where
  "power_521 q =
     (let s = (\<lambda>x. x * x mod q); a = 256 mod q in s (s (s (s (s (s a))))) * a * 2 mod q)"

lemma power_521: "power_521 q = 2 ^ 521 mod q"
proof -
  have s: "(2 ^ k mod q) * (2 ^ k mod q) mod q = 2 ^ (k + k) mod q" for k
    by (simp add: power_add mod_mult_eq)
  have "power_521 q = (2 ^ 512 mod q) * (2 ^ 8 mod q) * 2 mod q"
    using s [of 8] s [of 16] s [of 32] s [of 64] s [of 128] s [of 256]
    by (simp only: power_521_def Let_def) simp
  also have "\<dots> = 2 ^ 512 * 2 ^ 8 * 2 mod q" by (metis mod_mult_eq mod_mult_left_eq)
  also have "\<dots> = 2 ^ 521 mod q" by (simp only: power_Suc2 [symmetric] power_add [symmetric]) simp
  finally show ?thesis .
qed

lemma small_primes_fail: "list_all (\<lambda>q. power_521 q \<noteq> 1) small_primes"
  unfolding small_primes_def by code_simp

lemma small_primes_divide: "list_all (\<lambda>g. list_ex (\<lambda>q. g mod q = 0) small_primes) [2..254]"
  unfolding small_primes_def by code_simp

lemma small_primes_large: "list_all (\<lambda>q. 1 < q) small_primes"
  unfolding small_primes_def by code_simp

lemma coprime_small:
  assumes "0 < \<bar>d\<bar>" and "\<bar>d\<bar> < 255"
  shows "coprime shamir_prime d"
proof (rule ccontr)
  assume "\<not> coprime shamir_prime d"
  then have "gcd shamir_prime d \<noteq> 1" by (simp add: coprime_iff_gcd_eq_1)
  moreover have "0 < gcd shamir_prime d" using assms(1) by simp
  moreover have "gcd shamir_prime d \<le> \<bar>d\<bar>" using assms(1) by (intro zdvd_imp_le) auto
  ultimately have "2 \<le> gcd shamir_prime d" "gcd shamir_prime d \<le> 254" using assms(2) by linarith+
  then have "gcd shamir_prime d \<in> set [2..254]" by (simp only: set_upto atLeastAtMost_iff)
  from bspec [OF small_primes_divide [unfolded list_all_iff] this] obtain q
    where q: "q \<in> set small_primes" "gcd shamir_prime d mod q = 0" unfolding list_ex_iff by (elim bexE)
  from q(2) have "q dvd gcd shamir_prime d" by (simp only: dvd_eq_mod_eq_0)
  then have "q dvd shamir_prime" by (rule dvd_trans) (rule gcd_dvd1)
  then have "2 ^ 521 mod q = 1 mod q" unfolding shamir_prime_def by (simp only: mod_eq_dvd_iff)
  moreover have "1 < q" by (rule bspec [OF small_primes_large [unfolded list_all_iff] q(1)])
  then have "1 mod q = 1" by simp
  ultimately have "power_521 q = 1" by (simp only: power_521)
  with bspec [OF small_primes_fail [unfolded list_all_iff] q(1)] show False by (rule notE)
qed

lemma parse_shares_points:
  "list_all (\<lambda>x. 0 \<le> x) xs \<Longrightarrow> (\<And>x. 0 \<le> f x) \<Longrightarrow>
     parse_shares (map (\<lambda>x. share_text x (f x)) xs) = Inr (map (\<lambda>x. (x, f x)) xs)"
  by (induction xs) (simp_all add: parse_share_text)

lemma recover_secret:
  assumes "split_secret digest secret n k random = Inr shares" and "length random = nat (k - 1)"
    and "secret \<noteq> []" and "\<And>x. 8 \<le> length (digest x)"
    and "distinct chosen" and "set chosen \<subseteq> {1..n}" and "nat k \<le> length chosen"
  shows "combine_shares digest (map (\<lambda>x. shares ! nat (x - 1)) chosen) = Inr secret"
proof -
  let ?v = "sealed_value digest secret"
  from assms(1) have k: "1 \<le> k" "k \<le> n" "n \<le> 255" and v: "?v < shamir_prime"
    and shares: "shares = map (\<lambda>x. share_text x (horner shamir_prime (?v # random) x)) [1..n]"
    by (auto simp: split_secret_def Let_def split: if_splits)
  have p: "1 < shamir_prime" by (simp add: shamir_prime_def)
  let ?f = "\<lambda>x. peval (?v # random) x mod shamir_prime"
  have "map (\<lambda>x. shares ! nat (x - 1)) chosen = map (\<lambda>x. share_text x (?f x)) chosen"
  proof (rule map_cong)
    fix x
    assume "x \<in> set chosen"
    with assms(6) have "1 \<le> x" "x \<le> n" by auto
    then have "[1..n] ! nat (x - 1) = x" "nat (x - 1) < length [1..n]" by (simp_all add: nth_upto)
    then show "shares ! nat (x - 1) = share_text x (?f x)" by (simp add: shares horner_peval)
  qed simp
  moreover have "parse_shares (map (\<lambda>x. share_text x (?f x)) chosen) = Inr (map (\<lambda>x. (x, ?f x)) chosen)"
    using assms(6) p by (intro parse_shares_points) (auto simp: list_all_iff)
  moreover have "add_points shamir_prime (map (\<lambda>x. (x, ?f x)) chosen) [0..<length chosen] 0
      = Some (peval (?v # random) 0 mod shamir_prime)"
  proof (rule interpolation [OF p assms(5)])
    show "length (?v # random) \<le> length chosen" using assms(2,7) k(1) by simp
    fix x y
    assume "x \<in> set chosen" "y \<in> set chosen" "x \<noteq> y"
    then have "1 \<le> x" "x \<le> 255" "1 \<le> y" "y \<le> 255" "x \<noteq> y" using assms(6) k(3) by force+
    then show "coprime shamir_prime (x - y)" by (intro coprime_small) linarith+
  qed
  moreover have "peval (?v # random) 0 mod shamir_prime = ?v"
    using v by (simp add: sealed_value_def bytes_value_nonneg)
  moreover have "card (set (map fst (map (\<lambda>x. (x, ?f x)) chosen))) = length chosen"
    using assms(5) by (simp add: comp_def distinct_card)
  moreover have "open_secret digest ?v = Inr secret" by (rule open_sealed [OF assms(3,4)])
  ultimately show ?thesis by (simp only: combine_shares_def length_map) simp
qed

text \<open>
  Any selection of at least the threshold of the shares a key was split into, in any
  order, gives back exactly the key: no share is special and none is needed beyond the
  threshold.
\<close>

theorem shares_recover_secret:
  assumes "split_secret digest secret n k random = Inr shares" and "length random = nat (k - 1)"
    and "secret \<noteq> []" and "\<And>x. 8 \<le> length (digest x)"
    and "distinct chosen" and "set chosen \<subseteq> {1..n}" and "nat k \<le> length chosen"
  shows "combine_shares digest (map (\<lambda>x. shares ! nat (x - 1)) chosen) = Inr secret"
  using assms by (rule recover_secret)

theorem shares_recover_secret_witness:
  "\<exists>shares. split_secret (\<lambda>_. replicate 32 (CHR ''h'')) ''key'' 3 2 [12345] = Inr shares
     \<and> combine_shares (\<lambda>_. replicate 32 (CHR ''h'')) [shares ! 2, shares ! 0] = Inr ''key''"
proof -
  let ?d = "\<lambda>_ :: string. replicate 32 (CHR ''h'')"
  have "sealed_value ?d ''key'' < shamir_prime"
    by (simp add: sealed_value_def bytes_value_def shamir_prime_def numeral_eq_Suc)
  then obtain shares where s: "split_secret ?d ''key'' 3 2 [12345] = Inr shares"
    by (simp add: split_secret_def Let_def)
  have "combine_shares ?d (map (\<lambda>x. shares ! nat (x - 1)) [3, 1]) = Inr ''key''"
    by (rule shares_recover_secret [OF s]) simp_all
  with s show ?thesis by simp
qed

end
