(* ===== verification/Merkle.thy ===== *)
theory Merkle
  imports Shamir
begin

text \<open>
  core/crypto.py: the Merkle tree over the trackers of the ballots, its inclusion proofs
  and their verification. Hashes are hexadecimal text, as in the code; \<open>digest\<close> is SHA-256
  from bytes to 32 bytes. \<open>None\<close> is the \<open>ValueError\<close> of \<open>bytes.fromhex\<close>.
\<close>

section \<open>Hexadecimal text\<close>

definition to_hex :: "string \<Rightarrow> string" where
  "to_hex bs = concat (map (\<lambda>c. [hex_char (of_char c div 16), hex_char (of_char c mod 16)]) bs)"

fun from_hex :: "string \<Rightarrow> string option" where
  "from_hex [] = Some []"
| "from_hex [c] = (if is_space c then Some [] else None)"
| "from_hex (c # d # cs) =
     (if is_space c then from_hex (d # cs)
      else case (hex_value c, hex_value d) of
        (Some a, Some b) \<Rightarrow> map_option ((#) (char_of (16 * a + b))) (from_hex cs)
      | _ \<Rightarrow> None)"

section \<open>Hashing\<close>

definition sha256_text :: "(string \<Rightarrow> string) \<Rightarrow> string \<Rightarrow> string" where
  "sha256_text digest x = to_hex (digest x)"

definition hash_pair :: "(string \<Rightarrow> string) \<Rightarrow> string \<Rightarrow> string \<Rightarrow> string option" where
  "hash_pair digest l r =
     (case (from_hex l, from_hex r) of
        (Some a, Some b) \<Rightarrow> Some (sha256_text digest (a @ b))
      | _ \<Rightarrow> None)"

definition leaf_hash :: "(string \<Rightarrow> string) \<Rightarrow> string \<Rightarrow> string option" where
  "leaf_hash digest v = map_option (\<lambda>b. sha256_text digest (CHR 0x00 # b)) (from_hex v)"

section \<open>The tree\<close>

definition pad_level :: "string list \<Rightarrow> string list" where
  "pad_level level = (if odd (length level) then level @ [last level] else level)"

fun pairs :: "'a list \<Rightarrow> ('a \<times> 'a) list" where
  "pairs (x # y # zs) = (x, y) # pairs zs"
| "pairs _ = []"

definition next_level :: "(string \<Rightarrow> string) \<Rightarrow> string list \<Rightarrow> string list option" where
  "next_level digest level = those (map (\<lambda>(l, r). hash_pair digest l r) (pairs (pad_level level)))"

lemma length_pairs: "length (pairs xs) = length xs div 2"
  by (induction xs rule: pairs.induct) simp_all

lemma those_length: "those xs = Some ys \<Longrightarrow> length ys = length xs"
  by (induction xs arbitrary: ys) (auto split: option.splits)

lemma next_level_length:
  assumes "next_level digest level = Some up"
  shows "length up = (length level + 1) div 2"
proof -
  have "length up = length (pad_level level) div 2"
    using those_length [OF assms [unfolded next_level_def]] by (simp add: length_pairs)
  then show ?thesis by (simp add: pad_level_def split: if_splits)
qed

function climb :: "(string \<Rightarrow> string) \<Rightarrow> string list \<Rightarrow> string option" where
  "climb digest level =
     (if 1 < length level
      then (case next_level digest level of None \<Rightarrow> None | Some up \<Rightarrow> climb digest up)
      else Some (hd level))"
  by pat_completeness auto
termination
  by (relation "measure (\<lambda>(_, level). length level)") (auto dest: next_level_length)

declare climb.simps [simp del]

definition merkle_root :: "(string \<Rightarrow> string) \<Rightarrow> string list \<Rightarrow> string option" where
  "merkle_root digest leaves =
     (case those (map (leaf_hash digest) leaves) of
        None \<Rightarrow> None
      | Some [] \<Rightarrow> Some (sha256_text digest [])
      | Some level \<Rightarrow> climb digest level)"

section \<open>Inclusion proofs\<close>

record proof_step =
  ps_hash :: string
  ps_left :: bool

function climb_proof :: "(string \<Rightarrow> string) \<Rightarrow> string list \<Rightarrow> nat \<Rightarrow> proof_step list option" where
  "climb_proof digest level index =
     (if 1 < length level
      then
        (let padded = pad_level level; sibling = (if even index then index + 1 else index - 1);
             step = \<lparr>ps_hash = padded ! sibling, ps_left = sibling < index\<rparr>
         in case next_level digest level of
              None \<Rightarrow> None
            | Some up \<Rightarrow> map_option ((#) step) (climb_proof digest up (index div 2)))
      else Some [])"
  by pat_completeness auto
termination
  by (relation "measure (\<lambda>(_, level, _). length level)") (auto dest: next_level_length)

declare climb_proof.simps [simp del]

definition merkle_proof :: "(string \<Rightarrow> string) \<Rightarrow> string list \<Rightarrow> nat \<Rightarrow> proof_step list option" where
  "merkle_proof digest leaves index =
     (case those (map (leaf_hash digest) leaves) of
        None \<Rightarrow> None
      | Some level \<Rightarrow> climb_proof digest level index)"

fun follow :: "(string \<Rightarrow> string) \<Rightarrow> string \<Rightarrow> proof_step list \<Rightarrow> string option" where
  "follow digest current [] = Some current"
| "follow digest current (step # steps) =
     (case (if ps_left step then hash_pair digest (ps_hash step) current
            else hash_pair digest current (ps_hash step)) of
        None \<Rightarrow> None
      | Some up \<Rightarrow> follow digest up steps)"

definition verify_merkle_proof :: "(string \<Rightarrow> string) \<Rightarrow> string \<Rightarrow> proof_step list \<Rightarrow> string \<Rightarrow> bool option" where
  "verify_merkle_proof digest v steps rt =
     (case leaf_hash digest v of
        None \<Rightarrow> None
      | Some current \<Rightarrow> map_option (\<lambda>h. h = rt) (follow digest current steps))"

section \<open>Digests as text\<close>

lemma from_to_hex: "from_hex (to_hex bs) = Some bs"
proof (induction bs)
  case (Cons c bs)
  have lt: "(of_char c :: nat) < 256" by (rule nat_of_char_less_256)
  then have d: "(of_char c :: nat) div 16 < 16" by (simp add: less_mult_imp_div_less)
  have "char_of (16 * (of_char c div 16) + of_char c mod 16 :: nat) = c" by (simp add: mult_div_mod_eq)
  with Cons d show ?case by (simp add: to_hex_def hex_char_props(1,2))
qed (simp add: to_hex_def)

lemma digest_text: "from_hex (sha256_text digest x) = Some (digest x)"
  by (simp add: sha256_text_def from_to_hex)

lemma sha256_text_eq: "sha256_text digest x = sha256_text digest y \<longleftrightarrow> digest x = digest y"
  by (metis digest_text option.inject sha256_text_def)

definition hashes :: "(string \<Rightarrow> string) \<Rightarrow> string list \<Rightarrow> bool" where
  "hashes digest level \<longleftrightarrow> list_all (\<lambda>h. \<exists>x. h = sha256_text digest x) level"

lemma those_some: "(\<And>x. x \<in> set xs \<Longrightarrow> f x \<noteq> None) \<Longrightarrow> those (map f xs) = Some (map (the \<circ> f) xs)"
proof (induction xs)
  case (Cons x xs)
  moreover obtain y where "f x = Some y" using Cons.prems [of x] by auto
  ultimately show ?case by simp
qed simp

lemma those_nth: "those xs = Some ys \<Longrightarrow> i < length xs \<Longrightarrow> xs ! i = Some (ys ! i)"
  by (induction xs arbitrary: ys i) (auto simp: nth_Cons split: option.splits nat.splits)

lemma pairs_nth: "Suc (2 * i) < length xs \<Longrightarrow> pairs xs ! i = (xs ! (2 * i), xs ! Suc (2 * i))"
  by (induction xs arbitrary: i rule: pairs.induct) (auto simp: nth_Cons split: nat.splits)

lemma pad_level_props:
  assumes "hashes digest level" and "level \<noteq> []"
  shows "hashes digest (pad_level level)" "even (length (pad_level level))"
    "i < length level \<Longrightarrow> pad_level level ! i = level ! i" "length level \<le> length (pad_level level)"
    "set (pad_level level) = set level"
  using assms by (auto simp: pad_level_def hashes_def list_all_iff nth_append)

lemma hash_pair_hashes:
  assumes "hashes digest [l, r]"
  shows "\<exists>x y. l = sha256_text digest x \<and> r = sha256_text digest y
    \<and> hash_pair digest l r = Some (sha256_text digest (digest x @ digest y))"
proof -
  from assms obtain x y where "l = sha256_text digest x" "r = sha256_text digest y" by (auto simp: hashes_def)
  then show ?thesis by (intro exI [of _ x] exI [of _ y]) (simp add: hash_pair_def digest_text)
qed

lemma next_level_some:
  assumes "hashes digest level" and "level \<noteq> []"
  obtains up where "next_level digest level = Some up" "hashes digest up"
    "length up = (length level + 1) div 2"
    "\<And>i. i < length up \<Longrightarrow>
       hash_pair digest (pad_level level ! (2 * i)) (pad_level level ! Suc (2 * i)) = Some (up ! i)
       \<and> Suc (2 * i) < length (pad_level level)"
proof -
  note pad = pad_level_props [OF assms]
  have in_pairs: "(l, r) \<in> set (pairs xs) \<Longrightarrow> l \<in> set xs \<and> r \<in> set xs" for l r and xs :: "string list"
    by (induction xs rule: pairs.induct) auto
  have "hash_pair digest l r \<noteq> None \<and> (\<exists>z. the (hash_pair digest l r) = sha256_text digest z)"
    if "(l, r) \<in> set (pairs (pad_level level))" for l r
  proof -
    have "hashes digest [l, r]" using in_pairs [OF that] pad(1) by (simp add: hashes_def list_all_iff)
    from hash_pair_hashes [OF this] show ?thesis by auto
  qed
  note some = this
  let ?up = "map (the \<circ> (\<lambda>(l, r). hash_pair digest l r)) (pairs (pad_level level))"
  have up: "next_level digest level = Some ?up"
    unfolding next_level_def using some by (intro those_some) auto
  moreover have "hashes digest ?up" using some by (force simp: hashes_def list_all_iff)
  moreover have "hash_pair digest (pad_level level ! (2 * i)) (pad_level level ! Suc (2 * i)) = Some (?up ! i)
      \<and> Suc (2 * i) < length (pad_level level)" if "i < length ?up" for i
  proof -
    have i: "i < length (pairs (pad_level level))" using that by simp
    with pad(2) have "Suc (2 * i) < length (pad_level level)" by (simp add: length_pairs)
    with those_nth [OF up [unfolded next_level_def], of i] i show ?thesis by (simp add: pairs_nth)
  qed
  ultimately show ?thesis using next_level_length [OF up] that by blast
qed

section \<open>Proofs verify\<close>

lemma climb_follow:
  assumes "hashes digest level" and "i < length level"
  shows "\<exists>steps rt. climb_proof digest level i = Some steps \<and> climb digest level = Some rt
    \<and> follow digest (level ! i) steps = Some rt"
  using assms
proof (induction "length level" arbitrary: level i rule: less_induct)
  case less
  have ne: "level \<noteq> []" using less.prems(2) by auto
  note pad = pad_level_props [OF less.prems(1) ne]
  show ?case
  proof (cases "1 < length level")
    case False
    with less.prems(2) have "i = 0" "length level = 1" by auto
    then show ?thesis
      by (auto simp: climb.simps climb_proof.simps length_Suc_conv)
  next
    case True
    obtain up where up: "next_level digest level = Some up" "hashes digest up"
      "length up = (length level + 1) div 2"
      "\<And>i. i < length up \<Longrightarrow>
         hash_pair digest (pad_level level ! (2 * i)) (pad_level level ! Suc (2 * i)) = Some (up ! i)
         \<and> Suc (2 * i) < length (pad_level level)"
      using next_level_some [OF less.prems(1) ne] by metis
    have "length up < length level" "i div 2 < length up" using up(3) True less.prems(2) by auto
    with less.hyps up(2) obtain steps rt where ih: "climb_proof digest up (i div 2) = Some steps"
      "climb digest up = Some rt" "follow digest (up ! (i div 2)) steps = Some rt" by blast
    let ?sib = "if even i then i + 1 else i - 1"
    have hop: "(if ?sib < i then hash_pair digest (pad_level level ! ?sib) (level ! i)
           else hash_pair digest (level ! i) (pad_level level ! ?sib)) = Some (up ! (i div 2))"
    proof (cases "even i")
      case True
      then have "2 * (i div 2) = i" by simp
      with True up(4) [OF \<open>i div 2 < length up\<close>] pad(3) [OF less.prems(2)] show ?thesis by simp
    next
      case False
      then have "2 * (i div 2) = i - 1" "Suc (2 * (i div 2)) = i" "i \<noteq> 0" by presburger+
      with False up(4) [OF \<open>i div 2 < length up\<close>] pad(3) [OF less.prems(2)] show ?thesis by simp
    qed
    have "follow digest (level ! i) (\<lparr>ps_hash = pad_level level ! ?sib, ps_left = ?sib < i\<rparr> # steps) = Some rt"
      using hop ih(3) by (cases "?sib < i") (simp_all del: split_paired_All)
    with ih True up(1) show ?thesis
      by (simp add: climb.simps [of _ level] climb_proof.simps [of _ level] Let_def)
  qed
qed

text \<open>
  Every tracker on the bulletin board has an inclusion proof that verifies against the
  published root, at every position of a board of any size.
\<close>

theorem inclusion_proof_verifies:
  assumes "i < length leaves" and "\<And>v. v \<in> set leaves \<Longrightarrow> from_hex v \<noteq> None"
  shows "\<exists>steps rt. merkle_proof digest leaves i = Some steps \<and> merkle_root digest leaves = Some rt
    \<and> verify_merkle_proof digest (leaves ! i) steps rt = Some True"
proof -
  have all: "leaf_hash digest v \<noteq> None" if "v \<in> set leaves" for v
    using assms(2) [OF that] by (simp add: leaf_hash_def)
  then have level: "those (map (leaf_hash digest) leaves) = Some (map (the \<circ> leaf_hash digest) leaves)"
    (is "_ = Some ?level") by (rule those_some)
  have "hashes digest ?level"
    using assms(2) by (force simp: hashes_def list_all_iff leaf_hash_def)
  with assms(1) climb_follow [of digest ?level i] obtain steps rt where
    c: "climb_proof digest ?level i = Some steps" "climb digest ?level = Some rt"
      "follow digest (?level ! i) steps = Some rt" by auto
  have "leaf_hash digest (leaves ! i) = Some (?level ! i)" using all [of "leaves ! i"] assms(1) by auto
  moreover have "merkle_root digest leaves = Some rt"
    using c(2) level assms(1) by (cases leaves) (simp_all add: merkle_root_def)
  ultimately show ?thesis using c level by (simp add: merkle_proof_def verify_merkle_proof_def)
qed

section \<open>Only a tracker of the board verifies\<close>

text \<open>What is hashed for the leaves and nodes of the tree, and along a proof.\<close>

function tree_inputs :: "(string \<Rightarrow> string) \<Rightarrow> string list \<Rightarrow> string set" where
  "tree_inputs digest level =
     (if 1 < length level
      then {a @ b |l r a b. (l, r) \<in> set (pairs (pad_level level)) \<and> from_hex l = Some a \<and> from_hex r = Some b}
           \<union> (case next_level digest level of None \<Rightarrow> {} | Some up \<Rightarrow> tree_inputs digest up)
      else {})"
  by pat_completeness auto
termination
  by (relation "measure (\<lambda>(_, level). length level)") (auto dest: next_level_length)

declare tree_inputs.simps [simp del]

definition leaf_inputs :: "string list \<Rightarrow> string set" where
  "leaf_inputs leaves = {CHR 0x00 # b |v b. v \<in> set leaves \<and> from_hex v = Some b}"

fun proof_inputs :: "(string \<Rightarrow> string) \<Rightarrow> string \<Rightarrow> proof_step list \<Rightarrow> string set" where
  "proof_inputs digest current [] = {}"
| "proof_inputs digest current (step # steps) =
     (let (l, r) = (if ps_left step then (ps_hash step, current) else (current, ps_hash step)) in
      case (from_hex l, from_hex r) of
        (Some a, Some b) \<Rightarrow> insert (a @ b) (proof_inputs digest (sha256_text digest (a @ b)) steps)
      | _ \<Rightarrow> {})"

definition collides :: "(string \<Rightarrow> string) \<Rightarrow> string set \<Rightarrow> string set \<Rightarrow> bool" where
  "collides digest xs ys \<longleftrightarrow> (\<exists>x\<in>xs. \<exists>y\<in>ys. x \<noteq> y \<and> digest x = digest y)"

lemma same_length_append: "a @ b = c @ d \<Longrightarrow> length a = length c \<or> length b = length d \<Longrightarrow> a = c \<and> b = d"
  by (auto simp: append_eq_append_conv) 

text \<open>One step down: if the result of hashing a pair is on a level, its parts are on the level below.\<close>

lemma step_down:
  assumes len: "\<And>x. length (digest x) = 32" and level: "hashes digest level" "1 < length level"
    and up: "next_level digest level = Some us"
    and pair: "hash_pair digest l r = Some h" "h \<in> set us"
    and current: "sha256_text digest z = (if left then r else l)"
    and ok: "\<not> collides digest ({a @ b |a b. from_hex l = Some a \<and> from_hex r = Some b}) (tree_inputs digest level)"
  shows "(if left then r else l) \<in> set level"
proof -
  obtain i where i: "i < length us" "h = us ! i" using pair(2) by (metis in_set_conv_nth)
  have ne: "level \<noteq> []" using level(2) by auto
  note pad = pad_level_props [OF level(1) ne]
  obtain us' where us': "next_level digest level = Some us'"
    "\<And>i. i < length us' \<Longrightarrow>
       hash_pair digest (pad_level level ! (2 * i)) (pad_level level ! Suc (2 * i)) = Some (us' ! i)
       \<and> Suc (2 * i) < length (pad_level level)"
    using next_level_some [OF level(1) ne] by metis
  with up have [simp]: "us' = us" by simp
  let ?l = "pad_level level ! (2 * i)" and ?r = "pad_level level ! Suc (2 * i)"
  have node: "hash_pair digest ?l ?r = Some h" "Suc (2 * i) < length (pad_level level)"
    using us'(2) [of i] i by simp_all
  have lr: "?l \<in> set level" "?r \<in> set level" using node(2) pad(5) by (metis Suc_lessD nth_mem)+
  obtain x where x: "?l = sha256_text digest x" using lr(1) level(1) unfolding hashes_def list_all_iff by blast
  obtain y where y: "?r = sha256_text digest y" using lr(2) level(1) unfolding hashes_def list_all_iff by blast
  note xy = x y
  have in_tree: "digest x @ digest y \<in> tree_inputs digest level"
  proof -
    have "(?l, ?r) \<in> set (pairs (pad_level level))"
      using nth_mem [of i "pairs (pad_level level)"] node(2) pad(2) by (simp add: length_pairs pairs_nth)
    moreover have "from_hex ?l = Some (digest x)" "from_hex ?r = Some (digest y)"
      by (simp_all only: xy digest_text)
    ultimately have "\<exists>l r a b. digest x @ digest y = a @ b \<and> (l, r) \<in> set (pairs (pad_level level))
        \<and> from_hex l = Some a \<and> from_hex r = Some b" by blast
    then show ?thesis using level(2) by (subst tree_inputs.simps) simp
  qed
  obtain a b where ab: "from_hex l = Some a" "from_hex r = Some b" "h = sha256_text digest (a @ b)"
    using pair(1) by (auto simp: hash_pair_def split: option.splits)
  have "digest (a @ b) = digest (digest x @ digest y)"
    using node(1) ab(3) xy by (simp add: hash_pair_def digest_text sha256_text_eq)
  with ok in_tree ab(1,2) have eq: "a @ b = digest x @ digest y" unfolding collides_def by blast
  show ?thesis
  proof (cases left)
    case True
    with current ab(2) have "b = digest z" by (metis digest_text option.inject)
    with eq len have "b = digest y" using same_length_append by metis
    with True current xy(2) \<open>b = digest z\<close> lr(2) show ?thesis by (metis sha256_text_eq)
  next
    case False
    with current ab(1) have "a = digest z" by (metis digest_text option.inject)
    with eq len have "a = digest x" using same_length_append by metis
    with False current xy(1) \<open>a = digest z\<close> lr(1) show ?thesis by (metis sha256_text_eq)
  qed
qed

fun tree_depth :: "nat \<Rightarrow> nat" where
  "tree_depth n = (if n \<le> 1 then 0 else Suc (tree_depth ((n + 1) div 2)))"

declare tree_depth.simps [simp del]

lemma collides_mono: "collides digest xs ys \<Longrightarrow> xs \<subseteq> xs' \<Longrightarrow> ys \<subseteq> ys' \<Longrightarrow> collides digest xs' ys'"
  by (auto simp: collides_def)

lemma not_collides_mono: "\<not> collides digest xs' ys' \<Longrightarrow> xs \<subseteq> xs' \<Longrightarrow> ys \<subseteq> ys' \<Longrightarrow> \<not> collides digest xs ys"
  by (auto simp: collides_def)

lemma not_collides_eq: "\<not> collides digest xs ys \<Longrightarrow> x \<in> xs \<Longrightarrow> y \<in> ys \<Longrightarrow> digest x = digest y \<Longrightarrow> x = y"
  by (auto simp: collides_def)

lemma tree_inputs_up: "1 < length level \<Longrightarrow> next_level digest level = Some up \<Longrightarrow>
    tree_inputs digest up \<subseteq> tree_inputs digest level"
  by (subst (2) tree_inputs.simps) auto

lemma follow_step:
  assumes "follow digest c (step # steps) = Some rt"
  defines "l \<equiv> (if ps_left step then ps_hash step else c)" and "r \<equiv> (if ps_left step then c else ps_hash step)"
  obtains a b where "from_hex l = Some a" "from_hex r = Some b" "hash_pair digest l r = Some (sha256_text digest (a @ b))"
    "follow digest (sha256_text digest (a @ b)) steps = Some rt"
    "proof_inputs digest c (step # steps) = insert (a @ b) (proof_inputs digest (sha256_text digest (a @ b)) steps)"
  using assms by (auto simp: hash_pair_def split: option.splits if_splits)

text \<open>A proof as long as the tree is deep starts on the level it claims.\<close>

lemma on_level:
  assumes len: "\<And>x. length (digest x) = 32"
  shows "hashes digest level \<Longrightarrow> level \<noteq> [] \<Longrightarrow> tree_depth (length level) = length steps \<Longrightarrow>
    climb digest level = Some rt \<Longrightarrow> follow digest c steps = Some rt \<Longrightarrow> c = sha256_text digest z \<Longrightarrow>
    \<not> collides digest (proof_inputs digest c steps) (tree_inputs digest level) \<Longrightarrow> c \<in> set level"
proof (induction steps arbitrary: level c z)
  case Nil
  then have "length level \<le> 1" by (simp add: tree_depth.simps [of "length level"] split: if_splits)
  with Nil.prems(2,4,5) hd_in_set [of level] show ?case by (simp add: climb.simps [of digest level])
next
  case (Cons step steps)
  from Cons.prems(3) have long: "1 < length level" "tree_depth ((length level + 1) div 2) = length steps"
    by (simp_all add: tree_depth.simps [of "length level"] split: if_splits)
  obtain up where up: "next_level digest level = Some up" "hashes digest up" "length up = (length level + 1) div 2"
    using next_level_some [OF Cons.prems(1,2)] by metis
  obtain a b where ab: "from_hex (if ps_left step then ps_hash step else c) = Some a"
    "from_hex (if ps_left step then c else ps_hash step) = Some b"
    "hash_pair digest (if ps_left step then ps_hash step else c) (if ps_left step then c else ps_hash step)
       = Some (sha256_text digest (a @ b))"
    "follow digest (sha256_text digest (a @ b)) steps = Some rt"
    "proof_inputs digest c (step # steps) = insert (a @ b) (proof_inputs digest (sha256_text digest (a @ b)) steps)"
    using follow_step [OF Cons.prems(5)] by metis
  have "sha256_text digest (a @ b) \<in> set up"
  proof (rule Cons.IH [OF up(2)])
    show "up \<noteq> []" using up(3) long(1) by auto
    show "climb digest up = Some rt" using Cons.prems(4) long(1) up(1) by (simp add: climb.simps [of digest level])
    show "\<not> collides digest (proof_inputs digest (sha256_text digest (a @ b)) steps) (tree_inputs digest up)"
      using Cons.prems(7) unfolding ab(5)
      by (rule not_collides_mono [OF _ subset_insertI tree_inputs_up [OF long(1) up(1)]])
  qed (use up(3) long(2) ab(4) in simp_all)
  moreover have "\<not> collides digest {a @ b} (tree_inputs digest level)"
    using Cons.prems(7) unfolding ab(5) by (rule not_collides_mono) simp_all
  moreover have "{x @ y |x y. from_hex (if ps_left step then ps_hash step else c) = Some x
      \<and> from_hex (if ps_left step then c else ps_hash step) = Some y} = {a @ b}"
    unfolding ab(1,2) by auto
  ultimately have "(if ps_left step then (if ps_left step then c else ps_hash step)
      else (if ps_left step then ps_hash step else c)) \<in> set level"
    using Cons.prems(6)
    by (intro step_down [OF len Cons.prems(1) long(1) up(1) ab(3), where z = z]) simp_all
  then show ?case by (simp split: if_splits)
qed

text \<open>Levels of the tree above the leaves, and the rest of a proof that is too long.\<close>

lemma upper_level:
  "hashes digest level \<Longrightarrow> level \<noteq> [] \<Longrightarrow> climb digest level = Some rt \<Longrightarrow> m < tree_depth (length level) \<Longrightarrow>
    \<exists>us. hashes digest us \<and> us \<noteq> [] \<and> climb digest us = Some rt \<and> tree_depth (length us) = m
      \<and> tree_inputs digest us \<subseteq> tree_inputs digest level
      \<and> (\<forall>h\<in>set us. \<exists>w\<in>tree_inputs digest level. h = sha256_text digest w)"
proof (induction "length level" arbitrary: level rule: less_induct)
  case less
  from less.prems(4) have long: "1 < length level"
    by (auto simp: tree_depth.simps [of "length level"] split: if_splits)
  obtain up where up: "next_level digest level = Some up" "hashes digest up" "length up = (length level + 1) div 2"
    "\<And>i. i < length up \<Longrightarrow>
       hash_pair digest (pad_level level ! (2 * i)) (pad_level level ! Suc (2 * i)) = Some (up ! i)
       \<and> Suc (2 * i) < length (pad_level level)"
    using next_level_some [OF less.prems(1,2)] by metis
  have shorter: "length up < length level" and ne: "up \<noteq> []" using up(3) long by auto
  have climb: "climb digest up = Some rt" using less.prems(3) long up(1) by (simp add: climb.simps [of digest level])
  have d: "tree_depth (length level) = Suc (tree_depth (length up))"
    using long up(3) by (simp add: tree_depth.simps [of "length level"])
  note sub = tree_inputs_up [OF long up(1)]
  show ?case
  proof (cases "tree_depth (length up) = m")
    case True
    have "\<exists>w\<in>tree_inputs digest level. h = sha256_text digest w" if h: "h \<in> set up" for h
    proof -
      obtain i where i: "i < length up" "h = up ! i" using h by (metis in_set_conv_nth)
      let ?l = "pad_level level ! (2 * i)" and ?r = "pad_level level ! Suc (2 * i)"
      have node: "hash_pair digest ?l ?r = Some h" "Suc (2 * i) < length (pad_level level)" using up(4) [OF i(1)] i(2) by simp_all
      have "(?l, ?r) \<in> set (pairs (pad_level level))"
        using nth_mem [of i "pairs (pad_level level)"] node(2) pad_level_props(2) [OF less.prems(1,2)]
        by (simp add: length_pairs pairs_nth)
      moreover from node(1) obtain a b where ab: "from_hex ?l = Some a" "from_hex ?r = Some b" "h = sha256_text digest (a @ b)"
        by (auto simp: hash_pair_def split: option.splits)
      ultimately have "a @ b \<in> tree_inputs digest level" using long
        by (subst tree_inputs.simps) (simp, blast)
      with ab(3) show ?thesis by blast
    qed
    with True up(2) ne climb sub show ?thesis by blast
  next
    case False
    with less.prems(4) d have "m < tree_depth (length up)" by simp
    from less.hyps [OF shorter up(2) ne climb this] sub show ?thesis by blast
  qed
qed

lemma longer_proof:
  "follow digest c steps = Some rt \<Longrightarrow> m < length steps \<Longrightarrow>
    \<exists>c' steps' w. follow digest c' steps' = Some rt \<and> length steps' = m
      \<and> proof_inputs digest c' steps' \<subseteq> proof_inputs digest c steps
      \<and> w \<in> proof_inputs digest c steps \<and> c' = sha256_text digest w"
proof (induction steps arbitrary: c)
  case (Cons step steps)
  obtain a b where ab: "follow digest (sha256_text digest (a @ b)) steps = Some rt"
    "proof_inputs digest c (step # steps) = insert (a @ b) (proof_inputs digest (sha256_text digest (a @ b)) steps)"
    using follow_step [OF Cons.prems(1)] by metis
  show ?case
  proof (cases "length steps = m")
    case True
    with ab show ?thesis by blast
  next
    case False
    with Cons.prems(2) have "m < length steps" by simp
    from Cons.IH [OF ab(1) this] ab(2) show ?thesis by blast
  qed
qed simp

lemma proof_inputs_long:
  assumes len: "\<And>x. length (digest x) = 32" and "\<And>s. s \<in> set steps \<Longrightarrow> \<exists>b. from_hex (ps_hash s) = Some b \<and> length b = 32"
    and "c = sha256_text digest z" and "w \<in> proof_inputs digest c steps"
  shows "length w = 64"
  using assms(2-)
proof (induction steps arbitrary: c z)
  case (Cons step steps)
  obtain b where b: "from_hex (ps_hash step) = Some b" "length b = 32" using Cons.prems(1) by auto
  let ?x = "if ps_left step then b @ digest z else digest z @ b"
  have "proof_inputs digest c (step # steps) = insert ?x (proof_inputs digest (sha256_text digest ?x) steps)"
    using b Cons.prems(2) by (simp add: digest_text)
  with Cons.prems(3) Cons.IH [of "sha256_text digest ?x" ?x] Cons.prems(1) b len show ?case by auto
qed simp

lemma tree_inputs_long:
  assumes len: "\<And>x. length (digest x) = 32"
  shows "hashes digest level \<Longrightarrow> level \<noteq> [] \<Longrightarrow> w \<in> tree_inputs digest level \<Longrightarrow> length w = 64"
proof (induction "length level" arbitrary: level rule: less_induct)
  case less
  then have long: "1 < length level" by (subst (asm) tree_inputs.simps) (simp split: if_splits)
  obtain up where up: "next_level digest level = Some up" "hashes digest up" "length up = (length level + 1) div 2"
    using next_level_some [OF less.prems(1,2)] by metis
  have part: "length a = 32" if "h \<in> set level" "from_hex h = Some a" for h a
  proof -
    from that(1) less.prems(1) obtain x where "h = sha256_text digest x" unfolding hashes_def list_all_iff by blast
    with that(2) len show ?thesis by (simp add: digest_text) metis
  qed
  have in_pairs: "(l, r) \<in> set (pairs xs) \<Longrightarrow> l \<in> set xs \<and> r \<in> set xs" for l r and xs :: "string list"
    by (induction xs rule: pairs.induct) auto
  from less.prems(3) long up(1) consider l r a b where "w = a @ b" "(l, r) \<in> set (pairs (pad_level level))"
      "from_hex l = Some a" "from_hex r = Some b"
    | "w \<in> tree_inputs digest up"
    by (subst (asm) tree_inputs.simps) auto
  then show ?case
  proof cases
    case 1
    from in_pairs [OF 1(2)] pad_level_props(5) [OF less.prems(1,2)] have "l \<in> set level" "r \<in> set level" by auto
    with part 1 show ?thesis by simp
  next
    case 2
    have "length up < length level" "up \<noteq> []" using up(3) long by auto
    with less.hyps up(2) 2 show ?thesis by blast
  qed
qed

text \<open>
  C17: An inclusion proof proves inclusion: if a proof made of hashes verifies for a tracker
  against the root of the board, the tracker is on the board, or else two different inputs
  with the same SHA-256 can be read off the proof and the board. This holds for proofs of
  any length: leaves and nodes are hashed differently, so neither passes for the other.
\<close>

theorem inclusion_proof_sound:
  assumes "\<And>x. length (digest x) = 32" and "leaves \<noteq> []"
    and "\<And>v. v \<in> set leaves \<Longrightarrow> \<exists>b. from_hex v = Some b \<and> length b = 32"
    and "from_hex v = Some b" and "length b = 32"
    and "\<And>s. s \<in> set steps \<Longrightarrow> \<exists>h. from_hex (ps_hash s) = Some h \<and> length h = 32"
    and "merkle_root digest leaves = Some rt" and "verify_merkle_proof digest v steps rt = Some True"
  defines "level \<equiv> map (the \<circ> leaf_hash digest) leaves"
  shows "(\<exists>u\<in>set leaves. from_hex u = Some b) \<or>
    collides digest (insert (CHR 0x00 # b) (proof_inputs digest (sha256_text digest (CHR 0x00 # b)) steps))
      (leaf_inputs leaves \<union> tree_inputs digest level)"
proof (rule disjCI)
  assume no: "\<not> collides digest (insert (CHR 0x00 # b) (proof_inputs digest (sha256_text digest (CHR 0x00 # b)) steps))
      (leaf_inputs leaves \<union> tree_inputs digest level)"
  let ?z = "CHR 0x00 # b"
  let ?c = "sha256_text digest ?z"
  have leaf: "leaf_hash digest u \<noteq> None" if "u \<in> set leaves" for u using assms(3) [OF that] by (auto simp: leaf_hash_def)
  then have lv: "those (map (leaf_hash digest) leaves) = Some level" unfolding level_def by (rule those_some)
  have entry: "\<exists>x\<in>leaf_inputs leaves. h = sha256_text digest x \<and> length x = 33" if h: "h \<in> set level" for h
  proof -
    obtain u where u: "u \<in> set leaves" "h = the (leaf_hash digest u)" using h by (auto simp: level_def)
    obtain x where x: "from_hex u = Some x" "length x = 32" using assms(3) [OF u(1)] by blast
    with u have "CHR 0x00 # x \<in> leaf_inputs leaves" "h = sha256_text digest (CHR 0x00 # x)"
      by (auto simp: leaf_inputs_def leaf_hash_def)
    with x(2) show ?thesis by (intro bexI [of _ "CHR 0x00 # x"]) simp_all
  qed
  have hashes: "hashes digest level" unfolding hashes_def list_all_iff using entry by blast
  have ne: "level \<noteq> []" using assms(2) by (simp add: level_def)
  note hashes = hashes ne
  have climb: "climb digest level = Some rt"
    using assms(7) lv hashes(2) by (cases level) (simp_all add: merkle_root_def)
  have follow: "follow digest ?c steps = Some rt"
    using assms(4,8) by (auto simp: verify_merkle_proof_def leaf_hash_def)
  have plong: "length w = 64" if "w \<in> proof_inputs digest ?c steps" for w
    by (rule proof_inputs_long [OF assms(1) _ refl that]) (rule assms(6))
  note tlong = tree_inputs_long [OF assms(1) hashes]
  consider "tree_depth (length level) = length steps" | "length steps < tree_depth (length level)"
    | "tree_depth (length level) < length steps" by linarith
  then show "\<exists>u\<in>set leaves. from_hex u = Some b"
  proof cases
    case 1
    have "?c \<in> set level"
      by (rule on_level [OF assms(1) hashes 1 climb follow refl]) (rule not_collides_mono [OF no subset_insertI Un_upper2])
    from entry [OF this] obtain x where x: "x \<in> leaf_inputs leaves" "digest ?z = digest x"
      unfolding sha256_text_eq by blast
    have "?z = x" by (rule not_collides_eq [OF no _ _ x(2)]) (simp_all add: x(1))
    with x(1) show ?thesis by (auto simp: leaf_inputs_def)
  next
    case 2
    then obtain us where us: "hashes digest us" "us \<noteq> []" "climb digest us = Some rt"
      "tree_depth (length us) = length steps" "tree_inputs digest us \<subseteq> tree_inputs digest level"
      "\<forall>h\<in>set us. \<exists>w\<in>tree_inputs digest level. h = sha256_text digest w"
      using upper_level [OF hashes climb] by blast
    have "?c \<in> set us"
      by (rule on_level [OF assms(1) us(1,2,4,3) follow refl]) (rule not_collides_mono [OF no], use us(5) in auto)
    from bspec [OF us(6) this] obtain w where w: "w \<in> tree_inputs digest level" "digest ?z = digest w"
      unfolding sha256_text_eq by blast
    with tlong assms(5) have "?z \<noteq> w" by fastforce
    moreover have "?z = w" by (rule not_collides_eq [OF no _ _ w(2)]) (simp_all add: w(1))
    ultimately show ?thesis ..
  next
    case 3
    from longer_proof [OF follow 3] obtain c' steps' w where c': "follow digest c' steps' = Some rt"
      "length steps' = tree_depth (length level)" "proof_inputs digest c' steps' \<subseteq> proof_inputs digest ?c steps"
      "w \<in> proof_inputs digest ?c steps" "c' = sha256_text digest w" by blast
    have "c' \<in> set level"
      by (rule on_level [OF assms(1) hashes c'(2)[symmetric] climb c'(1,5)]) (rule not_collides_mono [OF no], use c'(3) in auto)
    from entry [OF this] obtain x where x: "x \<in> leaf_inputs leaves" "digest w = digest x" "length x = 33"
      unfolding c'(5) sha256_text_eq by blast
    with plong [OF c'(4)] have "w \<noteq> x" by auto
    moreover have "w = x" by (rule not_collides_eq [OF no _ _ x(2)]) (simp_all add: x(1) c'(4))
    ultimately show ?thesis ..
  qed
qed

section \<open>Worked example\<close>

definition ex_digest :: "string \<Rightarrow> string" where
  "ex_digest x = take 32 (x @ replicate 32 (CHR ''.''))"

definition ex_trackers :: "string list" where
  "ex_trackers = map to_hex [replicate 32 (CHR ''a''), replicate 32 (CHR ''b''), replicate 32 (CHR ''c'')]"

lemma ex_trackers_ok: "v \<in> set ex_trackers \<Longrightarrow> \<exists>b. from_hex v = Some b \<and> length b = 32"
  by (auto simp: ex_trackers_def from_to_hex)

theorem inclusion_proof_verifies_witness:
  "\<exists>steps rt. merkle_proof ex_digest ex_trackers 2 = Some steps \<and> merkle_root ex_digest ex_trackers = Some rt
     \<and> verify_merkle_proof ex_digest (ex_trackers ! 2) steps rt = Some True"
  by (rule inclusion_proof_verifies) (simp add: ex_trackers_def, use ex_trackers_ok in fastforce)

theorem inclusion_proof_sound_witness:
  "(\<exists>u\<in>set [to_hex (replicate 32 (CHR ''a''))]. from_hex u = Some (replicate 32 (CHR ''a'')))
    \<or> collides ex_digest (insert (CHR 0x00 # replicate 32 (CHR ''a'')) {})
        (leaf_inputs [to_hex (replicate 32 (CHR ''a''))]
         \<union> tree_inputs ex_digest (map (the \<circ> leaf_hash ex_digest) [to_hex (replicate 32 (CHR ''a''))]))"
proof -
  let ?b = "replicate 32 (CHR ''a'')"
  have "merkle_root ex_digest [to_hex ?b] = Some (sha256_text ex_digest (CHR 0x00 # ?b))"
    by (simp add: merkle_root_def leaf_hash_def from_to_hex climb.simps)
  moreover have "verify_merkle_proof ex_digest (to_hex ?b) [] (sha256_text ex_digest (CHR 0x00 # ?b)) = Some True"
    by (simp add: verify_merkle_proof_def leaf_hash_def from_to_hex)
  ultimately show ?thesis
    using inclusion_proof_sound [of ex_digest "[to_hex ?b]" "to_hex ?b" ?b "[]"]
    by (simp add: ex_digest_def from_to_hex)
qed

end
