(* ===== verification/Base64.thy ===== *)
theory Base64
  imports Prelude
begin

text \<open>
  \<open>b64e\<close> and \<open>b64d\<close> of core/crypto.py: the URL-safe base64 text of keys, signatures and
  sealed blobs, without padding. Bytes are characters. Decoding follows the standard
  library's lenient mode: characters outside the alphabet are skipped, decoding stops at
  a complete padding, and a group that is not complete at the end is an error (\<open>None\<close>).
\<close>

definition b64_char :: "nat \<Rightarrow> char" where
  "b64_char d =
     (if d < 26 then char_of (65 + d) else if d < 52 then char_of (71 + d)
      else if d < 62 then char_of (d - 4) else if d = 62 then CHR ''-'' else CHR ''_'')"

definition b64_value :: "char \<Rightarrow> nat option" where
  "b64_value c =
     (let n = (of_char c :: nat) in
      if 65 \<le> n \<and> n \<le> 90 then Some (n - 65)
      else if 97 \<le> n \<and> n \<le> 122 then Some (n - 71)
      else if 48 \<le> n \<and> n \<le> 57 then Some (n + 4)
      else if n = 45 \<or> n = 43 then Some 62
      else if n = 95 \<or> n = 47 then Some 63
      else None)"

fun sextets :: "nat list \<Rightarrow> nat list" where
  "sextets [] = []"
| "sextets [a] = [a div 4, a mod 4 * 16]"
| "sextets [a, b] = [a div 4, a mod 4 * 16 + b div 16, b mod 16 * 4]"
| "sextets (a # b # c # rest) =
     a div 4 # (a mod 4 * 16 + b div 16) # (b mod 16 * 4 + c div 64) # c mod 64 # sextets rest"

definition b64e :: "string \<Rightarrow> string" where
  "b64e data = map b64_char (sextets (map of_char data))"

text \<open>The state of the decoder: characters of the group read, bits left over, padding seen.\<close>

fun decode64 :: "nat \<Rightarrow> nat \<Rightarrow> nat \<Rightarrow> string \<Rightarrow> string option" where
  "decode64 q left pads [] = (if q = 0 then Some [] else None)"
| "decode64 q left pads (c # cs) =
     (if c = CHR ''='' then
        (if 2 \<le> q \<and> 4 \<le> q + Suc pads then Some []
         else decode64 q left (if 2 \<le> q then Suc pads else pads) cs)
      else case b64_value c of
        None \<Rightarrow> decode64 q left pads cs
      | Some v \<Rightarrow>
          if q = 0 then decode64 1 v 0 cs
          else if q = 1 then map_option ((#) (char_of (left * 4 + v div 16))) (decode64 2 (v mod 16) 0 cs)
          else if q = 2 then map_option ((#) (char_of (left * 16 + v div 4))) (decode64 3 (v mod 4) 0 cs)
          else map_option ((#) (char_of (left * 64 + v))) (decode64 0 0 0 cs))"

definition b64_padding :: "nat \<Rightarrow> string" where
  "b64_padding n = replicate ((4 - n mod 4) mod 4) (CHR ''='')"

definition b64d :: "string \<Rightarrow> string option" where
  "b64d text =
     (let t = strip text in
      if list_ex (\<lambda>c. 128 \<le> (of_char c :: nat)) t then None
      else decode64 0 0 0 (t @ b64_padding (length t)))"

section \<open>Decoding what was encoded\<close>

lemma of_b64_char:
  "d < 64 \<Longrightarrow> (of_char (b64_char d) :: nat) =
    (if d < 26 then 65 + d else if d < 52 then 71 + d else if d < 62 then d - 4 else if d = 62 then 45 else 95)"
  by (auto simp: b64_char_def)

lemma b64_char_props:
  assumes "d < 64"
  shows "b64_value (b64_char d) = Some d" "b64_char d \<noteq> CHR ''=''" "\<not> is_space (b64_char d)"
    "(of_char (b64_char d) :: nat) < 128"
proof -
  show "b64_value (b64_char d) = Some d" using assms by (auto simp: b64_value_def Let_def of_b64_char)
  have "(of_char (b64_char d) :: nat) \<noteq> of_char (CHR ''='')" using assms by (auto simp: of_b64_char)
  then show "b64_char d \<noteq> CHR ''=''" by metis
  show "\<not> is_space (b64_char d)" using assms by (auto simp: is_space_def of_b64_char)
  show "(of_char (b64_char d) :: nat) < 128" using assms by (auto simp: of_b64_char)
qed

lemma sextets_small: "(\<And>b. b \<in> set bs \<Longrightarrow> b < 256) \<Longrightarrow> d \<in> set (sextets bs) \<Longrightarrow> d < 64"
proof (induction bs rule: sextets.induct)
  case (3 a b)
  have "a < 256" "a mod 4 \<le> 3" "b div 16 \<le> 15" "b mod 16 \<le> 15" using 3(1) [of a] 3(1) [of b] by auto
  then have "a div 4 < 64" "a mod 4 * 16 + b div 16 < 64" "b mod 16 * 4 < 64" by simp_all
  with 3(2) show ?case by auto
next
  case (4 a b c rest)
  have "a < 256" "a mod 4 \<le> 3" "b div 16 \<le> 15" "b mod 16 \<le> 15" "c div 64 \<le> 3"
    using 4(2) [of a] 4(2) [of b] 4(2) [of c] by auto
  then have "a div 4 < 64" "a mod 4 * 16 + b div 16 < 64" "b mod 16 * 4 + c div 64 < 64" by simp_all
  with 4 show ?case by auto
qed auto

lemma join_bits:
  fixes a b c :: nat
  shows "b < 256 \<Longrightarrow> a div 4 * 4 + (a mod 4 * 16 + b div 16) div 16 = a"
    "b < 256 \<Longrightarrow> c < 256 \<Longrightarrow> (a mod 4 * 16 + b div 16) mod 16 * 16 + (b mod 16 * 4 + c div 64) div 4 = b"
    "c < 256 \<Longrightarrow> (b mod 16 * 4 + c div 64) mod 4 * 64 + c mod 64 = c"
    "a div 4 * 4 + a mod 4 * 16 div 16 = a"
    "b < 256 \<Longrightarrow> (a mod 4 * 16 + b div 16) mod 16 * 16 + b mod 16 * 4 div 4 = b"
proof -
  have high: "x < 256 \<Longrightarrow> x div 16 < 16" "x < 256 \<Longrightarrow> x div 64 < 4" for x :: nat by simp_all
  show "b < 256 \<Longrightarrow> a div 4 * 4 + (a mod 4 * 16 + b div 16) div 16 = a" using high(1) [of b] by simp
  show "b < 256 \<Longrightarrow> c < 256 \<Longrightarrow> (a mod 4 * 16 + b div 16) mod 16 * 16 + (b mod 16 * 4 + c div 64) div 4 = b"
    using high(1) [of b] high(2) [of c] by simp
  show "c < 256 \<Longrightarrow> (b mod 16 * 4 + c div 64) mod 4 * 64 + c mod 64 = c" using high(2) [of c] by simp
  show "a div 4 * 4 + a mod 4 * 16 div 16 = a" by simp
  show "b < 256 \<Longrightarrow> (a mod 4 * 16 + b div 16) mod 16 * 16 + b mod 16 * 4 div 4 = b"
    using high(1) [of b] by simp
qed

lemma decode_sextets:
  "(\<And>b. b \<in> set bs \<Longrightarrow> b < 256) \<Longrightarrow>
    decode64 0 left pads (map b64_char (sextets bs) @ b64_padding (length (sextets bs))) = Some (map char_of bs)"
proof (induction bs arbitrary: left pads rule: sextets.induct)
  case 1
  then show ?case by (simp add: b64_padding_def)
next
  case (2 a)
  then have "a div 4 < 64" "a mod 4 * 16 < 64" by auto
  then show ?case
    by (simp add: b64_padding_def b64_char_props numeral_2_eq_2 join_bits(4) [unfolded numeral_2_eq_2] del: of_char_of)
next
  case (3 a b)
  then have lt: "a div 4 < 64" "a mod 4 * 16 + b div 16 < 64" "b mod 16 * 4 < 64" "b < 256" "a < 256"
    using sextets_small [of "[a, b]"] by auto
  then show ?case using join_bits(1) [of b a] join_bits(5) [of b a]
    by (simp add: b64_padding_def b64_char_props)
next
  case (4 a b c rest)
  have lt: "a div 4 < 64" "a mod 4 * 16 + b div 16 < 64" "b mod 16 * 4 + c div 64 < 64" "c mod 64 < 64"
    using sextets_small [of "[a, b, c]"] 4(2) by auto
  have small: "a < 256" "b < 256" "c < 256" using 4(2) by auto
  have pad: "b64_padding (Suc (Suc (Suc (Suc n)))) = b64_padding n" for n
  proof -
    have "Suc (Suc (Suc (Suc n))) mod 4 = n mod 4" by presburger
    then show ?thesis unfolding b64_padding_def by (rule arg_cong)
  qed
  have "decode64 0 0 0 (map b64_char (sextets rest) @ b64_padding (length (sextets rest))) = Some (map char_of rest)"
    using 4 by simp
  with lt small join_bits(1) [of b a] join_bits(2) [of b c a] join_bits(3) [of c b] show ?case
    by (simp add: b64_char_props pad)
qed

lemma b64_roundtrip [simp]: "b64d (b64e data) = Some data"
proof -
  let ?bs = "map of_char data :: nat list"
  have small: "b < 256" if "b \<in> set ?bs" for b using that nat_of_char_less_256 by auto
  then have d: "d < 64" if "d \<in> set (sextets ?bs)" for d using sextets_small [OF _ that] by blast
  have plain: "\<not> is_space c \<and> (of_char c :: nat) < 128" if "c \<in> set (b64e data)" for c
    using that d b64_char_props(3,4) by (auto simp: b64e_def)
  then have "strip (b64e data) = b64e data" by (intro strip_no_space) blast
  moreover have "\<not> list_ex (\<lambda>c. 128 \<le> (of_char c :: nat)) (b64e data)"
    using plain by (auto simp: list_ex_iff not_le)
  moreover have "decode64 0 0 0 (b64e data @ b64_padding (length (b64e data))) = Some (map char_of ?bs)"
    using decode_sextets [of ?bs 0 0] small by (simp add: b64e_def)
  ultimately show ?thesis by (simp add: b64d_def Let_def comp_def)
qed

end
