(* ===== verification/Crypto.thy ===== *)
theory Crypto
  imports Base64 Audit_Chain Merkle Shamir
begin

text \<open>
  core/crypto.py around its primitives, and core/fields.py: key-encryption keys, data keys
  and the envelope in which a column is stored, blind indexes, platform signatures, sealed
  ballots and passphrase backups.

  The primitives are the parameter \<open>crypto\<close>: SHA-256, HMAC, HKDF, scrypt, AES-GCM, X25519
  and Ed25519. What the proofs need of them is named where they are used: \<open>aead_ok\<close>
  (decryption undoes encryption under the same key, nonce and associated data; a tag of
  16 bytes) and \<open>dh_ok\<close> (both sides of a key exchange agree). Random values are arguments.
  Settings are the record \<open>config\<close>; a KMS provider, whose client is not in the repository,
  is an argument. The process-wide caches of keys are not modelled: every use reads the
  table. \<open>iso_text\<close> is \<open>isoformat\<close> of a point in time.
\<close>

record crypto = codec +
  iso_text :: "int \<Rightarrow> string"
  sha_raw :: "string \<Rightarrow> string"
  hmac_hex :: "string \<Rightarrow> string \<Rightarrow> string"
  hkdf :: "string \<Rightarrow> string \<Rightarrow> string"
  scrypt :: "string \<Rightarrow> string \<Rightarrow> string"
  aes_seal :: "string \<Rightarrow> string \<Rightarrow> string \<Rightarrow> string \<Rightarrow> string"
  aes_open :: "string \<Rightarrow> string \<Rightarrow> string \<Rightarrow> string \<Rightarrow> string option"
  x_public :: "string \<Rightarrow> string"
  x_exchange :: "string \<Rightarrow> string \<Rightarrow> string"
  ed_public :: "string \<Rightarrow> string"
  ed_sign :: "string \<Rightarrow> string \<Rightarrow> string"
  ed_verify :: "string \<Rightarrow> string \<Rightarrow> string \<Rightarrow> bool"
  pem_key :: "string \<Rightarrow> string option"

record config =
  cf_secret :: string
  cf_blind_key :: "string option"
  cf_signing_key :: "string option"
  cf_previous_keys :: "string list"
  cf_field_keys :: "string option"

datatype key_error =
    Bad_base64 | Bad_kek_length string | No_active_kek | Unknown_kek string | Unwrap_failed
  | Provider_missing string | Unknown_data_key | Not_authentic | Bad_public_key | Truncated
  | Bad_signing_key | Wrong_passphrase

section \<open>Tokens and access codes\<close>

definition access_alphabet :: string where
  "access_alphabet =
     filter (\<lambda>c. c \<notin> set ''0O1IL'') (map char_of [65..<91::nat] @ map char_of [48..<58::nat])"

text \<open>\<open>access_code\<close> and \<open>numeric_code\<close>, from the positions the CSPRNG chooses.\<close>

definition access_code :: "nat list \<Rightarrow> string" where
  "access_code choices = map (\<lambda>i. access_alphabet ! (i mod length access_alphabet)) choices"

definition numeric_code :: "nat list \<Rightarrow> string" where
  "numeric_code choices = map (\<lambda>i. digit_char (i mod 10)) choices"

definition keyed_hash :: "'a crypto_scheme \<Rightarrow> config \<Rightarrow> string \<Rightarrow> string \<Rightarrow> string" where
  "keyed_hash K cf scope value = hmac_hex K (cf_secret cf) (scope @ CHR '':'' # value)"

definition sha256_hex :: "'a crypto_scheme \<Rightarrow> string \<Rightarrow> string" where
  "sha256_hex K data = sha256_text (sha_raw K) data"

section \<open>Key-encryption keys\<close>

text \<open>What the code asks of a provider of key-encryption keys.\<close>

record provider =
  pr_name :: string
  pr_wrap :: "string \<Rightarrow> string \<Rightarrow> key_error + string \<times> string"
  pr_unwrap :: "string \<Rightarrow> string \<Rightarrow> key_error + string"

definition partition_at :: "char \<Rightarrow> string \<Rightarrow> string \<times> string" where
  "partition_at c s = (takeWhile (\<lambda>x. x \<noteq> c) s, drop 1 (dropWhile (\<lambda>x. x \<noteq> c) s))"

fun read_keks :: "string list \<Rightarrow> (string \<times> string) list \<Rightarrow> key_error + (string \<times> string) list" where
  "read_keks [] keys = Inr keys"
| "read_keks (item # items) keys =
     (if strip item = [] then read_keks items keys
      else
        let (kid, material) = partition_at (CHR '':'') (strip item)
        in case b64d material of
             None \<Rightarrow> Inl Bad_base64
           | Some key \<Rightarrow>
               if length key \<noteq> 32 then Inl (Bad_kek_length kid)
               else read_keks items ((strip kid, key) # keys))"

text \<open>\<open>LocalKeyProvider.__init__\<close>: the keys (the last one of a name counts) and the active one.\<close>

definition local_keys :: "'a crypto_scheme \<Rightarrow> config \<Rightarrow> key_error + (string \<times> string) list \<times> string" where
  "local_keys K cf =
     (let dev = hkdf K (cf_secret cf) ''flexyvotes-dev-kek'' in
      case cf_field_keys cf of
        None \<Rightarrow> Inr ([(''dev'', dev)], ''dev'')
      | Some [] \<Rightarrow> Inr ([(''dev'', dev)], ''dev'')
      | Some spec \<Rightarrow>
          (case read_keks (split_on (CHR '','') spec) [] of
             Inl e \<Rightarrow> Inl e
           | Inr keys \<Rightarrow>
               Inr (keys @ [(''dev'', dev)],
                    strip (fst (partition_at (CHR '':'') (fst (partition_at (CHR '','') spec)))))))"

definition local_wrap ::
  "'a crypto_scheme \<Rightarrow> (string \<times> string) list \<Rightarrow> string \<Rightarrow> string \<Rightarrow> string \<Rightarrow> key_error + string \<times> string" where
  "local_wrap K keys active dek nonce =
     (case map_of keys active of
        None \<Rightarrow> Inl No_active_kek
      | Some kek \<Rightarrow> Inr (active, b64e (nonce @ aes_seal K kek nonce dek active)))"

definition local_unwrap ::
  "'a crypto_scheme \<Rightarrow> (string \<times> string) list \<Rightarrow> string \<Rightarrow> string \<Rightarrow> key_error + string" where
  "local_unwrap K keys kid wrapped =
     (case map_of keys kid of
        None \<Rightarrow> Inl (Unknown_kek kid)
      | Some kek \<Rightarrow>
          (case b64d wrapped of
             None \<Rightarrow> Inl Bad_base64
           | Some raw \<Rightarrow>
               (case aes_open K kek (take 12 raw) (drop 12 raw) kid of
                  None \<Rightarrow> Inl Unwrap_failed
                | Some dek \<Rightarrow> Inr dek)))"

definition local_provider :: "'a crypto_scheme \<Rightarrow> config \<Rightarrow> key_error + provider" where
  "local_provider K cf =
     (case local_keys K cf of
        Inl e \<Rightarrow> Inl e
      | Inr (keys, active) \<Rightarrow>
          Inr \<lparr>pr_name = ''local'', pr_wrap = local_wrap K keys active, pr_unwrap = local_unwrap K keys\<rparr>)"

text \<open>\<open>kms\<close> is the KMS provider when one is configured.\<close>

definition key_provider :: "'a crypto_scheme \<Rightarrow> config \<Rightarrow> provider option \<Rightarrow> key_error + provider" where
  "key_provider K cf kms = (case kms of Some p \<Rightarrow> Inr p | None \<Rightarrow> local_provider K cf)"

definition provider_for ::
  "'a crypto_scheme \<Rightarrow> config \<Rightarrow> provider option \<Rightarrow> string \<Rightarrow> key_error + provider" where
  "provider_for K cf kms name =
     (case key_provider K cf kms of
        Inl e \<Rightarrow> Inl e
      | Inr active \<Rightarrow>
          if name = [] \<or> name = pr_name active then Inr active
          else if name = ''local'' then local_provider K cf
          else Inl (Provider_missing name))"

section \<open>Data keys\<close>

record data_key =
  dk_id :: int
  dk_purpose :: string
  dk_kek :: string
  dk_wrapped :: string
  dk_provider :: string
  dk_active :: bool
  dk_created :: int

definition unwrap_data_key ::
  "'a crypto_scheme \<Rightarrow> config \<Rightarrow> provider option \<Rightarrow> data_key \<Rightarrow> key_error + string" where
  "unwrap_data_key K cf kms k =
     (case provider_for K cf kms (dk_provider k) of
        Inl e \<Rightarrow> Inl e
      | Inr p \<Rightarrow> pr_unwrap p (dk_kek k) (dk_wrapped k))"

text \<open>The key the database would give the next row.\<close>

definition next_pk :: "('r \<Rightarrow> int) \<Rightarrow> 'r list \<Rightarrow> int" where
  "next_pk key rows = fold max (map key rows) 0 + 1"

definition create_data_key ::
  "'a crypto_scheme \<Rightarrow> config \<Rightarrow> provider option \<Rightarrow> int \<Rightarrow> string \<Rightarrow> string \<Rightarrow> string
    \<Rightarrow> data_key list \<Rightarrow> key_error + data_key \<times> data_key list" where
  "create_data_key K cf kms now purpose dek nonce rows =
     (case key_provider K cf kms of
        Inl e \<Rightarrow> Inl e
      | Inr p \<Rightarrow>
          (case pr_wrap p dek nonce of
             Inl e \<Rightarrow> Inl e
           | Inr (kid, wrapped) \<Rightarrow>
               (let k = \<lparr>dk_id = next_pk dk_id rows, dk_purpose = purpose, dk_kek = kid, dk_wrapped = wrapped,
                         dk_provider = pr_name p, dk_active = True, dk_created = now\<rparr>
                in Inr (k, update_where (\<lambda>r. dk_purpose r = purpose \<and> dk_active r)
                             (\<lambda>r. r\<lparr>dk_active := False\<rparr>) rows @ [k]))))"

text \<open>\<open>active_data_key\<close>: the latest active key of the purpose, created when there is none.\<close>

definition active_data_key ::
  "'a crypto_scheme \<Rightarrow> config \<Rightarrow> provider option \<Rightarrow> int \<Rightarrow> string \<Rightarrow> string \<Rightarrow> string
    \<Rightarrow> data_key list \<Rightarrow> key_error + (data_key \<times> string) \<times> data_key list" where
  "active_data_key K cf kms now purpose dek nonce rows =
     (case sort_key (\<lambda>k. - dk_created k) (filter (\<lambda>k. dk_purpose k = purpose \<and> dk_active k) rows) of
        k # _ \<Rightarrow>
          (case unwrap_data_key K cf kms k of Inl e \<Rightarrow> Inl e | Inr d \<Rightarrow> Inr ((k, d), rows))
      | [] \<Rightarrow>
          (case create_data_key K cf kms now purpose dek nonce rows of
             Inl e \<Rightarrow> Inl e
           | Inr (k, rows') \<Rightarrow>
               (case unwrap_data_key K cf kms k of Inl e \<Rightarrow> Inl e | Inr d \<Rightarrow> Inr ((k, d), rows'))))"

text \<open>The rewrap command: every data key wrapped anew with the active key-encryption key.\<close>

fun rewrap :: "'a crypto_scheme \<Rightarrow> config \<Rightarrow> provider option \<Rightarrow> (int \<Rightarrow> string) \<Rightarrow> data_key list \<Rightarrow> key_error + data_key list" where
  "rewrap K cf kms nonce [] = Inr []"
| "rewrap K cf kms nonce (k # ks) =
     (case unwrap_data_key K cf kms k of
        Inl e \<Rightarrow> Inl e
      | Inr dek \<Rightarrow>
          (case key_provider K cf kms of
             Inl e \<Rightarrow> Inl e
           | Inr p \<Rightarrow>
               (case pr_wrap p dek (nonce (dk_id k)) of
                  Inl e \<Rightarrow> Inl e
                | Inr (kid, wrapped) \<Rightarrow>
                    (case rewrap K cf kms nonce ks of
                       Inl e \<Rightarrow> Inl e
                     | Inr ks' \<Rightarrow>
                         Inr (k\<lparr>dk_kek := kid, dk_wrapped := wrapped, dk_provider := pr_name p\<rparr> # ks')))))"

section \<open>The envelope of a column\<close>

definition envelope_prefix :: string where
  "envelope_prefix = ''fv1$''"

definition is_encrypted :: "string \<Rightarrow> bool" where
  "is_encrypted value \<longleftrightarrow> starts_with envelope_prefix value"

record fresh_values =
  fr_dek :: string
  fr_wrap_nonce :: string
  fr_nonce :: string

definition encrypt_str ::
  "'a crypto_scheme \<Rightarrow> config \<Rightarrow> provider option \<Rightarrow> int \<Rightarrow> fresh_values \<Rightarrow> string \<Rightarrow> string
    \<Rightarrow> string option \<Rightarrow> data_key list \<Rightarrow> key_error + string option \<times> data_key list" where
  "encrypt_str K cf kms now r purpose aad plaintext rows =
     (case plaintext of
        None \<Rightarrow> Inr (None, rows)
      | Some text \<Rightarrow>
          (case active_data_key K cf kms now purpose (fr_dek r) (fr_wrap_nonce r) rows of
             Inl e \<Rightarrow> Inl e
           | Inr ((k, dek), rows') \<Rightarrow>
               Inr (Some (envelope_prefix @ str_int (dk_id k) @ CHR ''$''
                          # b64e (fr_nonce r @ aes_seal K dek (fr_nonce r) text aad)), rows')))"

definition decrypt_str ::
  "'a crypto_scheme \<Rightarrow> config \<Rightarrow> provider option \<Rightarrow> string \<Rightarrow> string option \<Rightarrow> data_key list \<Rightarrow> key_error + string option" where
  "decrypt_str K cf kms aad token rows =
     (case token of
        None \<Rightarrow> Inr None
      | Some t \<Rightarrow>
          if t = [] \<or> \<not> is_encrypted t then Inr (Some t)
          else
            let (_, rest) = partition_at (CHR ''$'') t; (key_id, payload) = partition_at (CHR ''$'') rest
            in if CHR ''$'' \<notin> set rest then Inl Unknown_data_key
               else case Option.bind (parse_int key_id) (\<lambda>i. first_where (\<lambda>k. dk_id k = i) rows) of
                 None \<Rightarrow> Inl Unknown_data_key
               | Some k \<Rightarrow>
                   (case b64d payload of
                      None \<Rightarrow> Inl Bad_base64
                    | Some raw \<Rightarrow>
                        (case unwrap_data_key K cf kms k of
                           Inl e \<Rightarrow> Inl e
                         | Inr dek \<Rightarrow>
                             (case aes_open K dek (take 12 raw) (drop 12 raw) aad of
                                None \<Rightarrow> Inl Not_authentic
                              | Some text \<Rightarrow> Inr (Some text)))))"

definition data_key_id_of :: "string \<Rightarrow> int option option" where
  "data_key_id_of t =
     (if \<not> is_encrypted t then Some None
      else map_option Some (parse_int (fst (partition_at (CHR ''$'') (snd (partition_at (CHR ''$'') t))))))"

text \<open>\<open>EncryptedTextField\<close>: what is written to the column and what is read back.\<close>

definition get_prep_value ::
  "'a crypto_scheme \<Rightarrow> config \<Rightarrow> provider option \<Rightarrow> int \<Rightarrow> fresh_values \<Rightarrow> string
    \<Rightarrow> string option \<Rightarrow> data_key list \<Rightarrow> key_error + string option \<times> data_key list" where
  "get_prep_value K cf kms now r aad value rows =
     (case value of
        None \<Rightarrow> Inr (None, rows)
      | Some t \<Rightarrow>
          if t = [] \<or> is_encrypted t then Inr (Some t, rows)
          else encrypt_str K cf kms now r ''default'' aad (Some t) rows)"

definition from_db_value ::
  "'a crypto_scheme \<Rightarrow> config \<Rightarrow> provider option \<Rightarrow> string \<Rightarrow> string option \<Rightarrow> data_key list \<Rightarrow> key_error + string option" where
  "from_db_value K cf kms aad value rows =
     (if value = None \<or> value = Some [] then Inr value else decrypt_str K cf kms aad value rows)"

section \<open>Blind indexes and signatures\<close>

definition blind_index_key :: "'a crypto_scheme \<Rightarrow> config \<Rightarrow> string option" where
  "blind_index_key K cf =
     (case cf_blind_key cf of
        Some (c # cs) \<Rightarrow> b64d (c # cs)
      | _ \<Rightarrow> Some (hkdf K (cf_secret cf) ''flexyvotes-blind-index''))"

definition blind_index :: "'a crypto_scheme \<Rightarrow> config \<Rightarrow> string \<Rightarrow> string option \<Rightarrow> key_error + string" where
  "blind_index K cf purpose value =
     (case value of
        None \<Rightarrow> Inr []
      | Some v \<Rightarrow>
          if strip v = [] then Inr []
          else case blind_index_key K cf of
            None \<Rightarrow> Inl Bad_base64
          | Some key \<Rightarrow> Inr (hmac_hex K key (purpose @ CHR '':'' # lower (strip v))))"

definition signing_key :: "'a crypto_scheme \<Rightarrow> config \<Rightarrow> key_error + string" where
  "signing_key K cf =
     (case cf_signing_key cf of
        Some (c # cs) \<Rightarrow>
          if starts_with ''-----BEGIN'' (c # cs)
          then (case pem_key K (c # cs) of None \<Rightarrow> Inl Bad_signing_key | Some k \<Rightarrow> Inr k)
          else (case b64d (c # cs) of
                  None \<Rightarrow> Inl Bad_base64
                | Some k \<Rightarrow> if length k = 32 then Inr k else Inl Bad_signing_key)
      | _ \<Rightarrow> Inr (hkdf K (cf_secret cf) ''flexyvotes-dev-signing-key''))"

definition public_key_b64 :: "'a crypto_scheme \<Rightarrow> config \<Rightarrow> key_error + string" where
  "public_key_b64 K cf =
     (case signing_key K cf of Inl e \<Rightarrow> Inl e | Inr k \<Rightarrow> Inr (b64e (ed_public K k)))"

definition key_fingerprint :: "'a crypto_scheme \<Rightarrow> string \<Rightarrow> key_error + string" where
  "key_fingerprint K public =
     (case b64d public of None \<Rightarrow> Inl Bad_base64 | Some raw \<Rightarrow> Inr (take 16 (sha256_hex K raw)))"

definition sign :: "'a crypto_scheme \<Rightarrow> config \<Rightarrow> string \<Rightarrow> key_error + string" where
  "sign K cf payload =
     (case signing_key K cf of Inl e \<Rightarrow> Inl e | Inr k \<Rightarrow> Inr (b64e (ed_sign K k payload)))"

definition verify_signature :: "'a crypto_scheme \<Rightarrow> string \<Rightarrow> string \<Rightarrow> string \<Rightarrow> bool" where
  "verify_signature K payload signature public =
     (case (b64d public, b64d signature) of
        (Some p, Some s) \<Rightarrow> length p = 32 \<and> ed_verify K p s payload
      | _ \<Rightarrow> False)"

definition trusted_public_keys :: "'a crypto_scheme \<Rightarrow> config \<Rightarrow> key_error + string list" where
  "trusted_public_keys K cf =
     (case public_key_b64 K cf of Inl e \<Rightarrow> Inl e | Inr p \<Rightarrow> Inr (p # cf_previous_keys cf))"

section \<open>Sealed ballots\<close>

definition ballot_info :: string where
  "ballot_info = ''flexyvotes-ballot-v1''"

definition seal :: "'a crypto_scheme \<Rightarrow> string \<times> string \<Rightarrow> string \<Rightarrow> string \<Rightarrow> string \<Rightarrow> key_error + string" where
  "seal K = (\<lambda>(ephemeral, nonce) public plaintext aad.
     case b64d public of
       None \<Rightarrow> Inl Bad_base64
     | Some recipient \<Rightarrow>
         if length recipient \<noteq> 32 then Inl Bad_public_key
         else
           let eph = x_public K ephemeral;
               key = hkdf K (x_exchange K ephemeral recipient @ eph @ recipient) ballot_info
           in Inr (b64e (eph @ nonce @ aes_seal K key nonce plaintext aad)))"

definition unseal :: "'a crypto_scheme \<Rightarrow> string \<Rightarrow> string \<Rightarrow> string \<Rightarrow> key_error + string" where
  "unseal K private blob aad =
     (case b64d blob of
        None \<Rightarrow> Inl Bad_base64
      | Some raw \<Rightarrow>
          if length raw < 32 + 12 + 16 then Inl Truncated
          else
            let eph = take 32 raw; nonce = take 12 (drop 32 raw); ct = drop 44 raw; recipient = x_public K private;
                key = hkdf K (x_exchange K private eph @ eph @ recipient) ballot_info
            in case aes_open K key nonce ct aad of None \<Rightarrow> Inl Not_authentic | Some text \<Rightarrow> Inr text)"

section \<open>Backups\<close>

definition encrypt_with_passphrase :: "'a crypto_scheme \<Rightarrow> string \<times> string \<Rightarrow> string \<Rightarrow> string \<Rightarrow> string" where
  "encrypt_with_passphrase K = (\<lambda>(salt, nonce) data passphrase.
     b64e (salt @ nonce @ aes_seal K (scrypt K salt passphrase) nonce data ''flexyvotes-key-backup''))"

definition decrypt_with_passphrase :: "'a crypto_scheme \<Rightarrow> string \<Rightarrow> string \<Rightarrow> key_error + string" where
  "decrypt_with_passphrase K blob passphrase =
     (case b64d blob of
        None \<Rightarrow> Inl Bad_base64
      | Some raw \<Rightarrow>
          (case aes_open K (scrypt K (take 16 raw) passphrase) (take 12 (drop 16 raw)) (drop 28 raw)
                  ''flexyvotes-key-backup'' of
             None \<Rightarrow> Inl Wrong_passphrase
           | Some data \<Rightarrow> Inr data))"

section \<open>Primitives for the examples\<close>

definition ex_crypto :: crypto where
  "ex_crypto =
     \<lparr>sha_hex = to_hex, float_repr = ratio_text, stamp = str_int, iso_text = str_int,
      sha_raw = (\<lambda>x. take 32 (x @ replicate 32 (CHR ''.''))),
      hmac_hex = (\<lambda>k m. to_hex (k @ CHR '':'' # m)), hkdf = (\<lambda>k i. take 32 (k @ replicate 32 (CHR ''.''))),
      scrypt = (\<lambda>s p. s @ p), aes_seal = (\<lambda>k n p a. p @ replicate 16 (CHR ''#'')),
      aes_open = (\<lambda>k n c a. Some (take (length c - 16) c)),
      x_public = (\<lambda>a. take 32 (a @ replicate 32 (CHR ''.''))), x_exchange = (\<lambda>a b. []),
      ed_public = (\<lambda>k. take 32 (k @ replicate 32 (CHR ''.''))), ed_sign = (\<lambda>k m. m), ed_verify = (\<lambda>p s m. s = m),
      pem_key = (\<lambda>_. None)\<rparr>"

definition ex_config :: config where
  "ex_config =
     \<lparr>cf_secret = ''secret'', cf_blind_key = None, cf_signing_key = None, cf_previous_keys = [], cf_field_keys = None\<rparr>"

end
