(* ===== verification/Crypto_Props.thy ===== *)
theory Crypto_Props
  imports Crypto
begin

text \<open>
  What is encrypted can be read back: columns through any rotation and rewrapping of the
  keys, sealed ballots with the election key, backups with the passphrase.
\<close>

section \<open>What is asked of the primitives\<close>

definition aead_ok :: "'a crypto_scheme \<Rightarrow> bool" where
  "aead_ok K \<longleftrightarrow> (\<forall>k n p a. aes_open K k n (aes_seal K k n p a) a = Some p \<and> length (aes_seal K k n p a) = length p + 16)"

definition dh_ok :: "'a crypto_scheme \<Rightarrow> bool" where
  "dh_ok K \<longleftrightarrow> (\<forall>a b. x_exchange K a (x_public K b) = x_exchange K b (x_public K a) \<and> length (x_public K a) = 32)"

text \<open>A provider unwraps what it wrapped.\<close>

definition wraps_ok :: "provider \<Rightarrow> bool" where
  "wraps_ok p \<longleftrightarrow> (\<forall>dek n kid w. length n = 12 \<longrightarrow> pr_wrap p dek n = Inr (kid, w) \<longrightarrow> pr_unwrap p kid w = Inr dek)"

lemma local_wraps_ok:
  assumes "aead_ok K" and "local_provider K cf = Inr p"
  shows "wraps_ok p"
  using assms unfolding wraps_ok_def aead_ok_def
  by (auto simp: local_provider_def local_wrap_def local_unwrap_def split: sum.splits option.splits)

lemma key_provider_wraps:
  assumes "aead_ok K" and "\<And>p. kms = Some p \<Longrightarrow> wraps_ok p" and "key_provider K cf kms = Inr p"
  shows "wraps_ok p"
  using assms local_wraps_ok by (auto simp: key_provider_def split: option.splits)

section \<open>Rotation and rewrapping\<close>

definition dek_of :: "'a crypto_scheme \<Rightarrow> config \<Rightarrow> provider option \<Rightarrow> data_key list \<Rightarrow> int \<Rightarrow> string option" where
  "dek_of K cf kms rows i =
     (case first_where (\<lambda>k. dk_id k = i) rows of
        None \<Rightarrow> None
      | Some k \<Rightarrow> (case unwrap_data_key K cf kms k of Inl _ \<Rightarrow> None | Inr d \<Rightarrow> Some d))"

lemma dek_of_Cons:
  "dek_of K cf kms (k # ks) i =
    (if dk_id k = i then (case unwrap_data_key K cf kms k of Inl _ \<Rightarrow> None | Inr d \<Rightarrow> Some d) else dek_of K cf kms ks i)"
  by (simp add: dek_of_def first_where_def)

lemma dek_of_append:
  "dek_of K cf kms (xs @ ys) i = (if \<exists>k\<in>set xs. dk_id k = i then dek_of K cf kms xs i else dek_of K cf kms ys i)"
  by (induction xs) (auto simp: dek_of_Cons)

lemma dek_of_update:
  "(\<And>k. dk_id (f k) = dk_id k \<and> dk_kek (f k) = dk_kek k \<and> dk_wrapped (f k) = dk_wrapped k
      \<and> dk_provider (f k) = dk_provider k) \<Longrightarrow>
    dek_of K cf kms (update_where P f rows) i = dek_of K cf kms rows i"
proof -
  assume f: "\<And>k. dk_id (f k) = dk_id k \<and> dk_kek (f k) = dk_kek k \<and> dk_wrapped (f k) = dk_wrapped k
      \<and> dk_provider (f k) = dk_provider k"
  have u: "unwrap_data_key K cf kms (f k) = unwrap_data_key K cf kms k" for k
    using f [of k] by (simp add: unwrap_data_key_def split: sum.split)
  from f have "dk_id (f k) = dk_id k" for k by simp
  with u show ?thesis by (induction rows) (simp_all add: dek_of_Cons)
qed

lemma dek_of_in: "dek_of K cf kms rows i = Some d \<Longrightarrow> \<exists>k\<in>set rows. dk_id k = i"
  by (auto simp: dek_of_def split: option.splits dest: first_where_Some)

lemma fold_max_ge: "x \<in> set xs \<or> x \<le> a \<Longrightarrow> x \<le> fold max xs (a :: int)"
  using Max_ge [of "set (a # xs)" x] Max_ge [of "set (a # xs)" a] by (auto simp: Max.set_eq_fold [symmetric] simp del: Max_ge)

lemma next_pk_fresh: "k \<in> set rows \<Longrightarrow> key k < next_pk key rows" "0 < next_pk key rows"
  using fold_max_ge [of "key k" "map key rows" 0] fold_max_ge [of 0 "map key rows" 0] by (auto simp: next_pk_def)

lemma wrapped_reads:
  assumes "key_provider K cf kms = Inr p" and "wraps_ok p" and "length n = 12" and "pr_wrap p dek n = Inr (kid, w)"
    and "dk_kek k = kid" and "dk_wrapped k = w" and "dk_provider k = pr_name p"
  shows "unwrap_data_key K cf kms k = Inr dek"
  using assms by (simp add: unwrap_data_key_def provider_for_def wraps_ok_def)

lemma created_key:
  assumes aead: "aead_ok K" and kms_ok: "\<And>p. kms = Some p \<Longrightarrow> wraps_ok p"
    and made: "create_data_key K cf kms now purpose dek n rows = Inr (k, rows')" and n: "length n = 12"
  shows "dek_of K cf kms rows' (dk_id k) = Some dek" "0 < dk_id k"
    "dek_of K cf kms rows i = Some d \<Longrightarrow> dek_of K cf kms rows' i = Some d"
proof -
  obtain p kid w where p: "key_provider K cf kms = Inr p" "pr_wrap p dek n = Inr (kid, w)"
    and k: "k = \<lparr>dk_id = next_pk dk_id rows, dk_purpose = purpose, dk_kek = kid, dk_wrapped = w,
                 dk_provider = pr_name p, dk_active = True, dk_created = now\<rparr>"
    and rows': "rows' = update_where (\<lambda>r. dk_purpose r = purpose \<and> dk_active r) (\<lambda>r. r\<lparr>dk_active := False\<rparr>) rows @ [k]"
    using made by (auto simp: create_data_key_def Let_def split: sum.splits prod.splits)
  have new: "dk_id r \<noteq> dk_id k" if "r \<in> set rows" for r using next_pk_fresh(1) [OF that, of dk_id] by (simp add: k)
  have "unwrap_data_key K cf kms k = Inr dek"
    by (rule wrapped_reads [OF p(1) key_provider_wraps [OF aead kms_ok p(1)] n p(2)]) (simp_all add: k)
  with new show "dek_of K cf kms rows' (dk_id k) = Some dek"
    by (auto simp: rows' dek_of_append dek_of_Cons in_update_where split: if_splits)
  show "0 < dk_id k" using next_pk_fresh(2) by (simp add: k)
  assume d: "dek_of K cf kms rows i = Some d"
  then obtain r where "r \<in> set rows" "dk_id r = i" using dek_of_in by blast
  then have "\<exists>q\<in>set (update_where (\<lambda>r. dk_purpose r = purpose \<and> dk_active r) (\<lambda>r. r\<lparr>dk_active := False\<rparr>) rows). dk_id q = i"
    by (intro bexI [of _ "if dk_purpose r = purpose \<and> dk_active r then r\<lparr>dk_active := False\<rparr> else r"])
      (auto simp: in_update_where)
  with d show "dek_of K cf kms rows' i = Some d" by (simp add: rows' dek_of_append dek_of_update)
qed

lemma rewrap_keeps:
  assumes aead: "aead_ok K" and kms_ok: "\<And>p. kms = Some p \<Longrightarrow> wraps_ok p"
  shows "rewrap K cf kms nonce rows = Inr rows' \<Longrightarrow> (\<And>i. length (nonce i) = 12) \<Longrightarrow>
    dek_of K cf kms rows i = Some d \<Longrightarrow> dek_of K cf kms rows' i = Some d"
proof (induction rows arbitrary: rows')
  case (Cons k ks)
  obtain dek p kid w ks' where s: "unwrap_data_key K cf kms k = Inr dek" "key_provider K cf kms = Inr p"
    "pr_wrap p dek (nonce (dk_id k)) = Inr (kid, w)" "rewrap K cf kms nonce ks = Inr ks'"
    "rows' = k\<lparr>dk_kek := kid, dk_wrapped := w, dk_provider := pr_name p\<rparr> # ks'"
    using Cons.prems(1) by (auto split: sum.splits prod.splits)
  have "unwrap_data_key K cf kms (k\<lparr>dk_kek := kid, dk_wrapped := w, dk_provider := pr_name p\<rparr>) = Inr dek"
    by (rule wrapped_reads [OF s(2) key_provider_wraps [OF aead kms_ok s(2)] Cons.prems(2) s(3)]) simp_all
  with Cons.IH [OF s(4) Cons.prems(2)] Cons.prems(3) s show ?case by (simp add: dek_of_Cons split: if_splits)
qed simp

text \<open>What an operator does to the keys after a value was written.\<close>

datatype key_op = Rotate int string string string | Rewrap "int \<Rightarrow> string"

fun key_op_nonce_ok :: "key_op \<Rightarrow> bool" where
  "key_op_nonce_ok (Rotate now purpose dek n) \<longleftrightarrow> length n = 12"
| "key_op_nonce_ok (Rewrap nonce) \<longleftrightarrow> (\<forall>i. length (nonce i) = 12)"

fun run_key_ops ::
  "'a crypto_scheme \<Rightarrow> config \<Rightarrow> provider option \<Rightarrow> key_op list \<Rightarrow> data_key list \<Rightarrow> key_error + data_key list" where
  "run_key_ops K cf kms [] rows = Inr rows"
| "run_key_ops K cf kms (Rotate now purpose dek n # ops) rows =
     (case create_data_key K cf kms now purpose dek n rows of
        Inl e \<Rightarrow> Inl e | Inr (_, rows') \<Rightarrow> run_key_ops K cf kms ops rows')"
| "run_key_ops K cf kms (Rewrap nonce # ops) rows =
     (case rewrap K cf kms nonce rows of Inl e \<Rightarrow> Inl e | Inr rows' \<Rightarrow> run_key_ops K cf kms ops rows')"

lemma run_key_ops_keeps:
  assumes "aead_ok K" and "\<And>p. kms = Some p \<Longrightarrow> wraps_ok p"
  shows "run_key_ops K cf kms ops rows = Inr rows' \<Longrightarrow> list_all key_op_nonce_ok ops \<Longrightarrow>
    dek_of K cf kms rows i = Some d \<Longrightarrow> dek_of K cf kms rows' i = Some d"
proof (induction ops arbitrary: rows)
  case (Cons op ops)
  show ?case
  proof (cases op)
    case (Rotate now purpose dek n)
    with Cons.prems(1) obtain k r where r: "create_data_key K cf kms now purpose dek n rows = Inr (k, r)"
      "run_key_ops K cf kms ops r = Inr rows'" by (auto split: sum.splits)
    have "length n = 12" using Cons.prems(2) Rotate by simp
    from created_key(3) [OF assms r(1) this Cons.prems(3)] Cons.IH [OF r(2)] Cons.prems(2) show ?thesis by simp
  next
    case (Rewrap nonce)
    with Cons.prems(1) obtain r where r: "rewrap K cf kms nonce rows = Inr r" "run_key_ops K cf kms ops r = Inr rows'"
      by (auto split: sum.splits)
    have "length (nonce i) = 12" for i using Cons.prems(2) Rewrap by simp
    from rewrap_keeps [OF assms r(1) this Cons.prems(3)] Cons.IH [OF r(2)] Cons.prems(2) show ?thesis by simp
  qed
qed simp

section \<open>Columns\<close>

lemma str_int_no_dollar: "c \<in> set (str_int i) \<Longrightarrow> c \<noteq> CHR ''$''"
  using str_int_chars [of "CHR ''$''" i] by (auto simp: is_digit_def)

lemma partition_at_append: "c \<notin> set xs \<Longrightarrow> partition_at c (xs @ c # ys) = (xs, ys)"
  by (induction xs) (auto simp: partition_at_def)

lemma decrypt_token:
  assumes "dek_of K cf kms rows i = Some dek" and "aead_ok K" and "length n = 12"
  shows "decrypt_str K cf kms aad (Some (envelope_prefix @ str_int i @ CHR ''$'' # b64e (n @ aes_seal K dek n text aad))) rows
    = Inr (Some text)"
proof -
  let ?b = "b64e (n @ aes_seal K dek n text aad)"
  have dollar: "CHR ''$'' \<notin> set (str_int i)" using str_int_no_dollar by blast
  have "partition_at (CHR ''$'') (envelope_prefix @ str_int i @ CHR ''$'' # ?b) = (''fv1'', str_int i @ CHR ''$'' # ?b)"
    using partition_at_append [of "CHR ''$''" "''fv1''" "str_int i @ CHR ''$'' # ?b"] by (simp add: envelope_prefix_def)
  moreover obtain k where "first_where (\<lambda>k. dk_id k = i) rows = Some k" "unwrap_data_key K cf kms k = Inr dek"
    using assms(1) by (auto simp: dek_of_def split: option.splits sum.splits)
  ultimately show ?thesis
    using assms(2,3) partition_at_append [OF dollar, of ?b]
    by (simp add: decrypt_str_def is_encrypted_def starts_with_def envelope_prefix_def aead_ok_def)
qed

lemma encrypted_token:
  assumes "encrypt_str K cf kms now r purpose aad (Some text) rows = Inr (token, rows')"
    and "aead_ok K" and "\<And>p. kms = Some p \<Longrightarrow> wraps_ok p" and "distinct (map dk_id rows)" and "length (fr_wrap_nonce r) = 12"
  obtains i dek where "dek_of K cf kms rows' i = Some dek"
    "token = Some (envelope_prefix @ str_int i @ CHR ''$'' # b64e (fr_nonce r @ aes_seal K dek (fr_nonce r) text aad))"
proof -
  obtain k dek where k: "active_data_key K cf kms now purpose (fr_dek r) (fr_wrap_nonce r) rows = Inr ((k, dek), rows')"
    and t: "token = Some (envelope_prefix @ str_int (dk_id k) @ CHR ''$'' # b64e (fr_nonce r @ aes_seal K dek (fr_nonce r) text aad))"
    using assms(1) by (auto simp: encrypt_str_def split: sum.splits)
  have "dek_of K cf kms rows' (dk_id k) = Some dek"
  proof (cases "sort_key (\<lambda>k. - dk_created k) (filter (\<lambda>k. dk_purpose k = purpose \<and> dk_active k) rows)")
    case Nil
    with k have c: "create_data_key K cf kms now purpose (fr_dek r) (fr_wrap_nonce r) rows = Inr (k, rows')"
      and u: "unwrap_data_key K cf kms k = Inr dek" by (auto simp: active_data_key_def split: sum.splits)
    from c have last: "k \<in> set rows'" by (auto simp: create_data_key_def Let_def split: sum.splits)
    from c have "distinct (map dk_id rows')" using assms(4) next_pk_fresh(1) [of _ rows dk_id]
      by (force simp: create_data_key_def Let_def map_update_where image_iff split: sum.splits)
    then have "first_where (\<lambda>x. dk_id x = dk_id k) rows' = Some k" by (rule first_where_row [OF _ last])
    with u show ?thesis by (simp add: dek_of_def)
  next
    case (Cons q qs)
    with k have q: "q = k" "unwrap_data_key K cf kms k = Inr dek" "rows' = rows"
      by (auto simp: active_data_key_def split: sum.splits)
    from Cons have "q \<in> set (sort_key (\<lambda>k. - dk_created k) (filter (\<lambda>k. dk_purpose k = purpose \<and> dk_active k) rows))" by simp
    then have "k \<in> set rows" using q(1) by simp
    from first_where_row [OF assms(4) this] q show ?thesis by (simp add: dek_of_def)
  qed
  with t that show ?thesis by blast
qed


text \<open>
  A text that begins with the marker is stored as it is and cannot be read back: the
  row raises an error whenever it is loaded.
\<close>

theorem marked_text_unreadable:
  "get_prep_value K cf kms now r aad (Some ''fv1$'') rows = Inr (Some ''fv1$'', rows)
    \<and> from_db_value K cf kms aad' (Some ''fv1$'') rows' = Inl Unknown_data_key"
  by (simp add: get_prep_value_def from_db_value_def decrypt_str_def is_encrypted_def starts_with_def
      envelope_prefix_def partition_at_def)

section \<open>Sealed ballots and backups\<close>

text \<open>A ballot sealed to the public key of an election opens with its secret key.\<close>

theorem sealed_ballot_opens:
  assumes "dh_ok K" and "aead_ok K" and "length nonce = 12"
  shows "\<exists>blob. seal K (ephemeral, nonce) (b64e (x_public K secret)) text aad = Inr blob
    \<and> unseal K secret blob aad = Inr text"
proof -
  from assms(1) have len: "length (x_public K a) = 32"
    and agree: "x_exchange K a (x_public K b) = x_exchange K b (x_public K a)" for a b by (auto simp: dh_ok_def)
  have lc: "length (aes_seal K k n p a) = length p + 16" and op: "aes_open K k n (aes_seal K k n p a) a = Some p" for k n p a
    using assms(2) by (auto simp: aead_ok_def)
  define key where "key = hkdf K (x_exchange K ephemeral (x_public K secret) @ x_public K ephemeral @ x_public K secret) ballot_info"
  have "drop 44 (x_public K ephemeral @ nonce @ ct) = ct" for ct using len assms(3) by simp
  then show ?thesis
    using assms(3) by (simp add: seal_def unseal_def Let_def len lc op agree [of secret ephemeral])
qed

section \<open>Witnesses\<close>

lemma ex_crypto_ok: "aead_ok ex_crypto" "dh_ok ex_crypto"
  by (auto simp: aead_ok_def dh_ok_def ex_crypto_def)

definition ex_fresh :: fresh_values where
  "ex_fresh = \<lparr>fr_dek = ''d'', fr_wrap_nonce = replicate 12 (CHR ''n''), fr_nonce = replicate 12 (CHR ''n'')\<rparr>"

lemma ex_written:
  "\<exists>stored rows. get_prep_value ex_crypto ex_config None 5 ex_fresh ''a.b.c'' (Some ''Ama'') [] = Inr (stored, rows)"
  by (simp add: get_prep_value_def is_encrypted_def starts_with_def envelope_prefix_def encrypt_str_def active_data_key_def
      create_data_key_def key_provider_def local_provider_def local_keys_def ex_config_def local_wrap_def Let_def
      unwrap_data_key_def provider_for_def local_unwrap_def ex_crypto_def)


theorem sealed_ballot_opens_witness:
  "\<exists>blob. seal ex_crypto (''e'', replicate 12 (CHR ''n'')) (b64e (x_public ex_crypto ''k'')) ''vote'' ''1:s'' = Inr blob
    \<and> unseal ex_crypto ''k'' blob ''1:s'' = Inr ''vote''"
  by (rule sealed_ballot_opens [OF ex_crypto_ok(2,1)]) simp

lemma backup_opens:
  assumes "aead_ok K" and "length salt = 16" and "length nonce = 12"
  shows "decrypt_with_passphrase K (encrypt_with_passphrase K (salt, nonce) data phrase) phrase = Inr data"
  using assms by (simp add: decrypt_with_passphrase_def encrypt_with_passphrase_def aead_ok_def)

end
