(* ===== verification/Election_Db.thy ===== *)
theory Election_Db
  imports Ballots Eligibility Rbac Crypto
begin

text \<open>
  The database of one election, as elections/models.py declares it: the election with its
  rows (Election_Model), vote authorizations, the ballot key, ballots, signed configuration
  snapshots, results, certifications, dual-approval requests and disputes, together with
  the users' roles, the audit entries written and the background tasks queued.

  The operations of the components take the database and return it changed, or an error; a
  request that fails is rolled back, so an error carries no database unless the code
  commits something before it raises, which the components say. A model instance the
  caller holds is the row of the database; where the code goes on using an instance that
  was read earlier, the instance is an argument.
\<close>

section \<open>Rows\<close>

datatype authorization_status = ISSUED | CONSUMED | REVOKED | EXPIRED

record authorization =
  va_id :: int
  va_election :: int
  va_voter :: int
  va_token_hash :: string
  va_status :: authorization_status
  va_method :: string
  va_style :: "int list"
  va_issued :: int
  va_expires :: int
  va_consumed :: "int option"

record election_key =
  ek_public :: string
  ek_fingerprint :: string
  ek_custody :: custody
  ek_wrapped :: "string option"
  ek_threshold :: int
  ek_shares :: int

record ballot =
  ba_id :: string
  ba_election :: int
  ba_ciphertext :: string
  ba_tracker :: string
  ba_style_hash :: string
  ba_constituency :: "int option"

record snapshot =
  sn_version :: int
  sn_reason :: string
  sn_config :: json
  sn_hash :: string
  sn_signature :: string
  sn_public :: string
  sn_key_id :: string
  sn_created_by :: "int option"

datatype result_kind = OFFICIAL | RECOUNT | INDEPENDENT

datatype result_status = PENDING_REVIEW | RESULT_APPROVED | RESULT_REJECTED | SUPERSEDED | INFORMATIONAL

record election_result =
  er_id :: int
  er_kind :: result_kind
  er_status :: result_status
  er_data :: json
  er_hash :: string
  er_root :: string
  er_ballots :: int
  er_eligible :: int
  er_cast :: int
  er_tallied_by :: "int option"
  er_tallied_at :: int
  er_reviewed_by :: "int option"
  er_reviewed_at :: "int option"
  er_notes :: string

record certification =
  ce_id :: int
  ce_result :: int
  ce_payload :: json
  ce_payload_hash :: string
  ce_signature :: string
  ce_public :: string
  ce_key_id :: string
  ce_tallied_by :: "int option"
  ce_certified_by :: "int option"
  ce_certified_at :: int
  ce_revoked_at :: "int option"
  ce_revoked_reason :: string

datatype approval_action =
  UNFREEZE | EXTEND_VOTING | REOPEN_VOTING | BULK_CREDENTIAL_RESET | DECERTIFY | RELEASE_LEGAL_HOLD | REFUND

datatype approval_status =
  REQ_PENDING | REQ_APPROVED | REQ_REJECTED | REQ_EXECUTED | REQ_FAILED | REQ_CANCELLED | REQ_EXPIRED

datatype approval_payload = No_payload | Freeze_scope string | New_end "int option" | Refund_of string

record approval_request =
  rq_id :: int
  rq_action :: approval_action
  rq_payload :: approval_payload
  rq_reason :: string
  rq_status :: approval_status
  rq_requested_by :: int
  rq_decided_by :: "int option"
  rq_decided_at :: "int option"
  rq_note :: string
  rq_executed_at :: "int option"
  rq_expires :: int

datatype dispute_status = DISPUTE_OPEN | UNDER_REVIEW | UPHELD | DISMISSED | DISPUTE_WITHDRAWN

record dispute =
  di_id :: int
  di_status :: dispute_status
  di_filed_by :: "int option"
  di_category :: string
  di_role :: string
  di_resolution :: string
  di_resolved_by :: "int option"
  di_resolved_at :: "int option"

definition dispute_is_open :: "dispute \<Rightarrow> bool" where
  "dispute_is_open d \<longleftrightarrow> di_status d \<in> {DISPUTE_OPEN, UNDER_REVIEW}"

text \<open>A row of the vote ledger, \<open>VoteTransaction\<close> of voting/models.py; the payment is its reference.\<close>

datatype ledger_status = LEDGER_PENDING | LEDGER_SUCCESS | LEDGER_FAILED | LEDGER_REVERSED

record ledger_vote =
  lv_reference :: string
  lv_payment :: "string option"
  lv_candidate :: int
  lv_votes :: int
  lv_status :: ledger_status
  lv_main :: bool
  lv_amount :: rat

definition lv_success :: "ledger_vote \<Rightarrow> bool" where
  "lv_success v \<longleftrightarrow> lv_status v = LEDGER_SUCCESS"

section \<open>Background tasks and the database\<close>

datatype task =
    Notify_voting_opened int
  | Auto_tally int
  | Notify_results_published int
  | Send_vote_confirmation int int
  | Notify_approvers int

record election_db =
  db_election :: election
  db_key :: "election_key option"
  db_authorizations :: "authorization list"
  db_ballots :: "ballot list"
  db_snapshots :: "snapshot list"
  db_results :: "election_result list"
  db_certifications :: "certification list"
  db_requests :: "approval_request list"
  db_disputes :: "dispute list"
  db_ledger :: "ledger_vote list"
  db_tenancy :: tenancy
  db_log :: "audit_note list"
  db_tasks :: "task list"

abbreviation db_event :: "election_db \<Rightarrow> event" where
  "db_event db \<equiv> the_event (db_election db)"

definition update_event :: "(event \<Rightarrow> event) \<Rightarrow> election_db \<Rightarrow> election_db" where
  "update_event f db = db\<lparr>db_election := (db_election db)\<lparr>the_event := f (db_event db)\<rparr>\<rparr>"

definition update_voters :: "(voter list \<Rightarrow> voter list) \<Rightarrow> election_db \<Rightarrow> election_db" where
  "update_voters f db = db\<lparr>db_election := (db_election db)\<lparr>voters := f (voters (db_election db))\<rparr>\<rparr>"

definition update_trustees :: "(trustee_share list \<Rightarrow> trustee_share list) \<Rightarrow> election_db \<Rightarrow> election_db" where
  "update_trustees f db = db\<lparr>db_election := (db_election db)\<lparr>trustees := f (trustees (db_election db))\<rparr>\<rparr>"

abbreviation db_voters :: "election_db \<Rightarrow> voter list" where
  "db_voters db \<equiv> voters (db_election db)"

abbreviation db_trustees :: "election_db \<Rightarrow> trustee_share list" where
  "db_trustees db \<equiv> trustees (db_election db)"

definition log_note :: "audit_note \<Rightarrow> election_db \<Rightarrow> election_db" where
  "log_note n db = db\<lparr>db_log := db_log db @ [n]\<rparr>"

definition queue_task :: "task \<Rightarrow> election_db \<Rightarrow> election_db" where
  "queue_task t db = db\<lparr>db_tasks := db_tasks db @ [t]\<rparr>"

text \<open>An audit entry about the election itself.\<close>

definition event_note :: "string \<Rightarrow> account option \<Rightarrow> election_db \<Rightarrow> audit_note" where
  "event_note t actor db =
     plain_note t (map_option us_id actor) (Some (ev_id (db_event db), ev_org (db_event db)))"

definition note_about :: "string \<Rightarrow> account option \<Rightarrow> string \<times> string \<Rightarrow> election_db \<Rightarrow> audit_note" where
  "note_about t actor target db = (event_note t actor db)\<lparr>an_target := Some target\<rparr>"

definition voter_target :: "voter \<Rightarrow> string \<times> string" where
  "voter_target v = (''elections.Voter'', str_int (vo_id v))"

lemma update_event_simps [simp]:
  "db_event (update_event f db) = f (db_event db)"
  "db_voters (update_event f db) = db_voters db"
  "db_trustees (update_event f db) = db_trustees db"
  "positions (db_election (update_event f db)) = positions (db_election db)"
  "candidates (db_election (update_event f db)) = candidates (db_election db)"
  "rules (db_election (update_event f db)) = rules (db_election db)"
  "db_key (update_event f db) = db_key db"
  "db_authorizations (update_event f db) = db_authorizations db"
  "db_ballots (update_event f db) = db_ballots db"
  "db_snapshots (update_event f db) = db_snapshots db"
  "db_results (update_event f db) = db_results db"
  "db_certifications (update_event f db) = db_certifications db"
  "db_requests (update_event f db) = db_requests db"
  "db_disputes (update_event f db) = db_disputes db"
  "db_ledger (update_event f db) = db_ledger db"
  "db_tenancy (update_event f db) = db_tenancy db"
  "db_log (update_event f db) = db_log db"
  "db_tasks (update_event f db) = db_tasks db"
  by (simp_all add: update_event_def)

lemma update_voters_simps [simp]:
  "db_voters (update_voters g db) = g (db_voters db)"
  "db_event (update_voters g db) = db_event db"
  "db_trustees (update_voters g db) = db_trustees db"
  "positions (db_election (update_voters g db)) = positions (db_election db)"
  "candidates (db_election (update_voters g db)) = candidates (db_election db)"
  "rules (db_election (update_voters g db)) = rules (db_election db)"
  "db_key (update_voters g db) = db_key db"
  "db_authorizations (update_voters g db) = db_authorizations db"
  "db_ballots (update_voters g db) = db_ballots db"
  "db_snapshots (update_voters g db) = db_snapshots db"
  "db_results (update_voters g db) = db_results db"
  "db_certifications (update_voters g db) = db_certifications db"
  "db_requests (update_voters g db) = db_requests db"
  "db_disputes (update_voters g db) = db_disputes db"
  "db_ledger (update_voters g db) = db_ledger db"
  "db_tenancy (update_voters g db) = db_tenancy db"
  "db_log (update_voters g db) = db_log db"
  "db_tasks (update_voters g db) = db_tasks db"
  by (simp_all add: update_voters_def)

lemma update_trustees_simps [simp]:
  "db_trustees (update_trustees h db) = h (db_trustees db)"
  "db_event (update_trustees h db) = db_event db"
  "db_voters (update_trustees h db) = db_voters db"
  "db_key (update_trustees h db) = db_key db"
  "db_authorizations (update_trustees h db) = db_authorizations db"
  "db_ballots (update_trustees h db) = db_ballots db"
  "db_snapshots (update_trustees h db) = db_snapshots db"
  "db_results (update_trustees h db) = db_results db"
  "db_certifications (update_trustees h db) = db_certifications db"
  "db_requests (update_trustees h db) = db_requests db"
  "db_disputes (update_trustees h db) = db_disputes db"
  "db_ledger (update_trustees h db) = db_ledger db"
  "db_tenancy (update_trustees h db) = db_tenancy db"
  "db_log (update_trustees h db) = db_log db"
  "db_tasks (update_trustees h db) = db_tasks db"
  by (simp_all add: update_trustees_def)

lemma log_note_simps [simp]:
  "db_log (log_note n db) = db_log db @ [n]"
  "db_election (log_note n db) = db_election db"
  "db_key (log_note n db) = db_key db"
  "db_authorizations (log_note n db) = db_authorizations db"
  "db_ballots (log_note n db) = db_ballots db"
  "db_snapshots (log_note n db) = db_snapshots db"
  "db_results (log_note n db) = db_results db"
  "db_certifications (log_note n db) = db_certifications db"
  "db_requests (log_note n db) = db_requests db"
  "db_disputes (log_note n db) = db_disputes db"
  "db_ledger (log_note n db) = db_ledger db"
  "db_tenancy (log_note n db) = db_tenancy db"
  "db_tasks (log_note n db) = db_tasks db"
  by (simp_all add: log_note_def)

lemma queue_task_simps [simp]:
  "db_tasks (queue_task t db) = db_tasks db @ [t]"
  "db_election (queue_task t db) = db_election db"
  "db_key (queue_task t db) = db_key db"
  "db_authorizations (queue_task t db) = db_authorizations db"
  "db_ballots (queue_task t db) = db_ballots db"
  "db_snapshots (queue_task t db) = db_snapshots db"
  "db_results (queue_task t db) = db_results db"
  "db_certifications (queue_task t db) = db_certifications db"
  "db_requests (queue_task t db) = db_requests db"
  "db_disputes (queue_task t db) = db_disputes db"
  "db_ledger (queue_task t db) = db_ledger db"
  "db_tenancy (queue_task t db) = db_tenancy db"
  "db_log (queue_task t db) = db_log db"
  by (simp_all add: queue_task_def)

section \<open>What an operation is run with\<close>

text \<open>The primitives, the settings, and the private key and coefficients it may generate.\<close>

record env =
  en_crypto :: crypto
  en_config :: config
  en_key :: "string \<times> int list"

section \<open>Example\<close>

definition ex_tenancy :: tenancy where
  "ex_tenancy = \<lparr>tn_roles = role_definitions, tn_assignments = [], tn_organizations = [], tn_log = []\<rparr>"

definition ex_operator :: account where
  "ex_operator = \<lparr>us_id = 1, us_name = ''operator'', us_authenticated = True, us_active = True, us_superuser = True, us_staff = True\<rparr>"

definition ex_db :: election_db where
  "ex_db =
     \<lparr>db_election = ex_election, db_key = None, db_authorizations = [], db_ballots = [], db_snapshots = [],
      db_results = [], db_certifications = [], db_requests = [], db_disputes = [], db_ledger = [],
      db_tenancy = ex_tenancy, db_log = [], db_tasks = []\<rparr>"

definition ex_env :: env where
  "ex_env = \<lparr>en_crypto = ex_crypto, en_config = ex_config, en_key = (replicate 32 (CHR ''k''), [7])\<rparr>"

end
