(* ===== verification/Keys.thy ===== *)
theory Keys
  imports Election_Db
begin

text \<open>
  elections/keys.py: the key pair of an election. Under \<open>SYSTEM\<close> custody the private key is
  kept (in an encrypted column); under \<open>TRUSTEES\<close> custody it is split between the trustees,
  each collects a share once, and the tally needs the threshold of them to be submitted.

  The private key and the random coefficients of the shares are arguments. A share that was
  wiped is \<open>None\<close> in its column; combining it raises an \<open>AttributeError\<close> (\<open>Share_missing\<close>).
\<close>

datatype custody_error =
    Trustees_not_configured
  | Trustees_fixed
  | Not_a_trustee
  | Share_collected
  | Share_invalid
  | No_ballot_key
  | Shares_required int nat
  | Share_missing
  | Key_differs
  | Bad_key_text
  | Split_failed crypto_error
  | Key_failed key_error

section \<open>Generating the key\<close>

definition give_share :: "crypto \<Rightarrow> trustee_share \<times> string \<Rightarrow> trustee_share list \<Rightarrow> trustee_share list" where
  "give_share K = (\<lambda>(t, share) rows.
     update_where (\<lambda>r. ts_trustee r = ts_trustee t)
       (\<lambda>r. r\<lparr>ts_hash := sha256_hex K share, ts_pending := Some share\<rparr>) rows)"

definition key_note :: "account option \<Rightarrow> election_db \<Rightarrow> audit_note" where
  "key_note actor db = note_about ''BALLOT_KEY_GENERATED'' actor (''elections.ElectionKey'', str_int (ev_id (db_event db))) db"

definition ensure_election_key ::
  "crypto \<Rightarrow> string \<times> int list \<Rightarrow> account option \<Rightarrow> election_db \<Rightarrow> custody_error + election_db" where
  "ensure_election_key K = (\<lambda>(secret, random) actor db.
     if db_key db \<noteq> None then Inr db
     else
       let ev = db_event db; pub = b64e (x_public K secret) in
       case key_fingerprint K pub of
         Inl e \<Rightarrow> Inl (Key_failed e)
       | Inr fp \<Rightarrow>
           let key = \<lparr>ek_public = pub, ek_fingerprint = fp, ek_custody = ev_custody ev, ek_wrapped = None,
                      ek_threshold = 0, ek_shares = 0\<rparr>
           in if ev_custody ev = TRUSTEES then
                let ts = sort_key ts_index (db_trustees db); n = int (length ts) in
                if n < 2 \<or> \<not> (1 \<le> ev_threshold ev \<and> ev_threshold ev \<le> n) then Inl Trustees_not_configured
                else (case split_secret (sha_raw K) secret n (ev_threshold ev) random of
                  Inl e \<Rightarrow> Inl (Split_failed e)
                | Inr shares \<Rightarrow>
                    let db' = update_trustees (fold (give_share K) (zip ts shares)) db
                    in Inr (log_note (key_note actor db)
                         (db'\<lparr>db_key := Some (key\<lparr>ek_threshold := ev_threshold ev, ek_shares := n\<rparr>)\<rparr>)))
              else Inr (log_note (key_note actor db)
                     (db\<lparr>db_key := Some (key\<lparr>ek_wrapped := Some (b64e secret)\<rparr>)\<rparr>)))"

section \<open>Trustees\<close>

definition add_trustee :: "account \<Rightarrow> account option \<Rightarrow> election_db \<Rightarrow> custody_error + election_db" where
  "add_trustee user actor db =
     (if db_key db \<noteq> None then Inl Trustees_fixed
      else if exists_where (\<lambda>t. ts_trustee t = us_id user) (db_trustees db) then Inr db
      else
        let i = fold max (map ts_index (db_trustees db)) 0 + 1
        in Inr (log_note (note_about ''TRUSTEE_ADDED'' actor (''auth.User'', str_int (us_id user)) db)
             (update_trustees (\<lambda>rows. rows @
                [\<lparr>ts_trustee = us_id user, ts_index = i, ts_hash = [], ts_pending = None, ts_collected = None,
                  ts_submitted = None, ts_submitted_at = None\<rparr>]) db)))"

definition share_note :: "string \<Rightarrow> account \<Rightarrow> election_db \<Rightarrow> audit_note" where
  "share_note t user db = note_about t (Some user) (''elections.TrusteeShare'', str_int (us_id user)) db"

definition collect_share :: "int \<Rightarrow> account \<Rightarrow> election_db \<Rightarrow> custody_error + string \<times> election_db" where
  "collect_share now user db =
     (case first_where (\<lambda>t. ts_trustee t = us_id user) (db_trustees db) of
        None \<Rightarrow> Inl Not_a_trustee
      | Some t \<Rightarrow>
          if ts_collected t \<noteq> None \<or> ts_pending t = None \<or> ts_pending t = Some [] then Inl Share_collected
          else Inr (the (ts_pending t),
                 log_note (share_note ''TRUSTEE_SHARE_COLLECTED'' user db)
                   (update_trustees (update_where (\<lambda>r. ts_trustee r = us_id user)
                      (\<lambda>r. r\<lparr>ts_pending := None, ts_collected := Some now\<rparr>)) db)))"

text \<open>A rejected share is logged before the error is raised, outside any transaction.\<close>

definition submit_share :: "crypto \<Rightarrow> int \<Rightarrow> account \<Rightarrow> string \<Rightarrow> election_db \<Rightarrow> custody_error option \<times> election_db" where
  "submit_share K now user value db =
     (case first_where (\<lambda>t. ts_trustee t = us_id user) (db_trustees db) of
        None \<Rightarrow> (Some Not_a_trustee, db)
      | Some t \<Rightarrow>
          if sha256_hex K (strip value) \<noteq> ts_hash t
          then (Some Share_invalid,
                log_note ((share_note ''TRUSTEE_SHARE_REJECTED'' user db)\<lparr>an_result := ''FAILURE''\<rparr>) db)
          else (None,
                log_note (share_note ''TRUSTEE_SHARE_SUBMITTED'' user db)
                  (update_trustees (update_where (\<lambda>r. ts_trustee r = us_id user)
                     (\<lambda>r. r\<lparr>ts_submitted := Some (strip value), ts_submitted_at := Some now\<rparr>)) db)))"

definition shares_status :: "election_db \<Rightarrow> int \<times> nat \<times> nat" where
  "shares_status db =
     (case db_key db of Some k \<Rightarrow> ek_threshold k | None \<Rightarrow> ev_threshold (db_event db),
      count_where (\<lambda>t. ts_submitted_at t \<noteq> None) (db_trustees db), length (db_trustees db))"

section \<open>The key for the tally\<close>

definition submitted_shares :: "election_db \<Rightarrow> string option list" where
  "submitted_shares db = map ts_submitted (filter (\<lambda>t. ts_submitted_at t \<noteq> None) (db_trustees db))"

definition check_derived :: "crypto \<Rightarrow> election_key \<Rightarrow> string \<Rightarrow> custody_error + string" where
  "check_derived K key secret =
     (if length secret \<noteq> 32 then Inl Bad_key_text
      else if b64e (x_public K secret) \<noteq> ek_public key then Inl Key_differs
      else Inr secret)"

definition private_key_for_tally :: "crypto \<Rightarrow> election_db \<Rightarrow> custody_error + string" where
  "private_key_for_tally K db =
     (case db_key db of
        None \<Rightarrow> Inl No_ballot_key
      | Some key \<Rightarrow>
          if ek_custody key = TRUSTEES then
            let shares = submitted_shares db in
            if int (length shares) < ek_threshold key then Inl (Shares_required (ek_threshold key) (length shares))
            else (case those (take (nat (ek_threshold key)) shares) of
              None \<Rightarrow> Inl Share_missing
            | Some texts \<Rightarrow>
                (case combine_shares (sha_raw K) texts of
                   Inl e \<Rightarrow> Inl (Split_failed e)
                 | Inr secret \<Rightarrow> check_derived K key secret))
          else (case ek_wrapped key of
            None \<Rightarrow> Inl Share_missing
          | Some w \<Rightarrow> (case b64d w of None \<Rightarrow> Inl Bad_key_text | Some secret \<Rightarrow> check_derived K key secret)))"

definition wipe_submitted_shares :: "election_db \<Rightarrow> election_db" where
  "wipe_submitted_shares db = update_trustees (map (\<lambda>t. t\<lparr>ts_submitted := None\<rparr>)) db"

end
