(* ===== verification/Keys_Props.thy ===== *)
theory Keys_Props
  imports Keys
begin

text \<open>
  Trustee custody: whatever the trustees do with their shares after the key was generated,
  the tally gets the election's private key as soon as the threshold has been submitted,
  and what is not a share of the key never counts as one.
\<close>

section \<open>What the trustees do\<close>

datatype trustee_request = Collect int account | Submit int account string

fun trustee_step :: "crypto \<Rightarrow> trustee_request \<Rightarrow> election_db \<Rightarrow> election_db" where
  "trustee_step K (Collect now user) db = (case collect_share now user db of Inl _ \<Rightarrow> db | Inr (_, db') \<Rightarrow> db')"
| "trustee_step K (Submit now user value) db = snd (submit_share K now user value db)"

definition run_trustees :: "crypto \<Rightarrow> trustee_request list \<Rightarrow> election_db \<Rightarrow> election_db" where
  "run_trustees K rs db = fold (trustee_step K) rs db"

section \<open>Distributing the shares\<close>

definition with_share :: "crypto \<Rightarrow> (int \<rightharpoonup> string) \<Rightarrow> trustee_share \<Rightarrow> trustee_share" where
  "with_share K m r =
     (case m (ts_trustee r) of None \<Rightarrow> r | Some s \<Rightarrow> r\<lparr>ts_hash := sha256_hex K s, ts_pending := Some s\<rparr>)"

lemma fold_give_share:
  "length shares = length ts \<Longrightarrow> distinct (map ts_trustee ts) \<Longrightarrow>
    fold (give_share K) (zip ts shares) rows = map (with_share K (map_of (zip (map ts_trustee ts) shares))) rows"
proof (induction shares ts arbitrary: rows rule: list_induct2)
  case Nil
  then show ?case by (simp add: with_share_def)
next
  case (Cons s shares t ts)
  have fresh: "ts_trustee t \<notin> dom (map_of (zip (map ts_trustee ts) shares))"
    using Cons.prems Cons.hyps by (simp add: dom_map_of_zip)
  have "fold (give_share K) (zip (t # ts) (s # shares)) rows
      = map (with_share K (map_of (zip (map ts_trustee ts) shares))) (give_share K (t, s) rows)"
    using Cons by simp
  also have "\<dots> = map (with_share K (map_of (zip (map ts_trustee (t # ts)) (s # shares)))) rows"
    using fresh by (auto simp: give_share_def update_where_def with_share_def domIff split: option.splits)
  finally show ?case .
qed

lemma trustee_with_share [simp]: "ts_trustee (with_share K m r) = ts_trustee r" "ts_submitted_at (with_share K m r) = ts_submitted_at r"
  by (simp_all add: with_share_def split: option.split)

section \<open>The state after the key was generated\<close>

text \<open>Every row has the hash of its trustee's share; what was submitted has that hash.\<close>

definition row_ok :: "crypto \<Rightarrow> (int \<rightharpoonup> string) \<Rightarrow> trustee_share \<Rightarrow> bool" where
  "row_ok K m r \<longleftrightarrow>
     (case m (ts_trustee r) of None \<Rightarrow> False | Some s \<Rightarrow> ts_hash r = sha256_hex K s)
     \<and> (ts_submitted_at r \<noteq> None \<longrightarrow> (case ts_submitted r of None \<Rightarrow> False | Some v \<Rightarrow> sha256_hex K v = ts_hash r))"

lemma step_trustees:
  "db_key (trustee_step K q db) = db_key db
    \<and> map ts_trustee (db_trustees (trustee_step K q db)) = map ts_trustee (db_trustees db)
    \<and> (list_all (row_ok K m) (db_trustees db) \<and> distinct (map ts_trustee (db_trustees db))
        \<longrightarrow> list_all (row_ok K m) (db_trustees (trustee_step K q db)))"
proof (cases q)
  case (Collect now user)
  have "row_ok K m (r\<lparr>ts_pending := None, ts_collected := Some now\<rparr>) = row_ok K m r" for r
    by (simp add: row_ok_def split: option.split)
  with Collect show ?thesis
    by (auto simp: collect_share_def map_update_where split: option.split intro: list_all_update_where)
next
  case (Submit now user share)
  show ?thesis
  proof (cases "first_where (\<lambda>t. ts_trustee t = us_id user) (db_trustees db)")
    case None
    with Submit show ?thesis by (simp add: submit_share_def)
  next
    case (Some t)
    show ?thesis
    proof (cases "sha256_hex K (strip share) = ts_hash t")
      case False
      with Submit Some show ?thesis by (simp add: submit_share_def)
    next
      case True
      have same: "r = t" if "distinct (map ts_trustee (db_trustees db))" "r \<in> set (db_trustees db)" "ts_trustee r = us_id user" for r
        using first_where_unique [OF Some that(1), of r] that by simp
      have "row_ok K m (t\<lparr>ts_submitted := Some (strip share), ts_submitted_at := Some now\<rparr>)" if "row_ok K m t"
        using that True by (simp add: row_ok_def split: option.splits)
      with True Submit Some same show ?thesis
        by (auto simp: submit_share_def map_update_where intro!: list_all_update_where)
    qed
  qed
qed

lemma run_trustees_keeps:
  "list_all (row_ok K m) (db_trustees db) \<Longrightarrow> distinct (map ts_trustee (db_trustees db)) \<Longrightarrow>
    db_key (run_trustees K rs db) = db_key db
    \<and> map ts_trustee (db_trustees (run_trustees K rs db)) = map ts_trustee (db_trustees db)
    \<and> list_all (row_ok K m) (db_trustees (run_trustees K rs db))"
  unfolding run_trustees_def
proof (induction rs arbitrary: db)
  case (Cons q rs)
  from Cons.IH [of "trustee_step K q db"] step_trustees [of K q db m] Cons.prems show ?case by simp
qed simp

lemma generated_key:
  assumes "ensure_election_key K (secret, random) actor db = Inr db'" and "db_key db = None"
    and "ev_custody (db_event db) = TRUSTEES"
    and "distinct (map ts_trustee (db_trustees db))" and "\<And>t. t \<in> set (db_trustees db) \<Longrightarrow> ts_submitted_at t = None"
  obtains shares key where "split_secret (sha_raw K) secret (int (length (db_trustees db))) (ev_threshold (db_event db)) random = Inr shares"
    "db_key db' = Some key" "ek_public key = b64e (x_public K secret)" "ek_custody key = TRUSTEES"
    "ek_threshold key = ev_threshold (db_event db)" "map ts_trustee (db_trustees db') = map ts_trustee (db_trustees db)"
    "list_all (row_ok K (map_of (zip (map ts_trustee (sort_key ts_index (db_trustees db))) shares))) (db_trustees db')"
proof -
  let ?ts = "sort_key ts_index (db_trustees db)"
  from assms(1-3) obtain shares key where s:
    "split_secret (sha_raw K) secret (int (length ?ts)) (ev_threshold (db_event db)) random = Inr shares"
    "db_key db' = Some key" "ek_public key = b64e (x_public K secret)" "ek_custody key = TRUSTEES"
    "ek_threshold key = ev_threshold (db_event db)"
    "db_trustees db' = fold (give_share K) (zip ?ts shares) (db_trustees db)"
    by (auto simp: ensure_election_key_def Let_def split: if_splits sum.splits)
  have n: "length shares = length ?ts" using s(1) by (auto simp: split_secret_def Let_def split: if_splits)
  have d: "distinct (map ts_trustee ?ts)" using assms(4) by (metis distinct_map distinct_sort mset_sort set_sort mset_map mset_eq_imp_distinct_iff)
  note rows = s(6) [unfolded fold_give_share [OF n d]]
  let ?m = "map_of (zip (map ts_trustee ?ts) shares)"
  have ids: "\<exists>s. ?m (ts_trustee t) = Some s" if "t \<in> set (db_trustees db)" for t
    using that n by (metis (no_types, lifting) domD dom_map_of_zip image_eqI length_map list.set_map set_sort)
  have "list_all (row_ok K ?m) (db_trustees db')"
    using ids assms(5) unfolding rows by (fastforce simp: list_all_iff row_ok_def with_share_def)
  moreover have "map ts_trustee (db_trustees db') = map ts_trustee (db_trustees db)" unfolding rows by simp
  ultimately show ?thesis using that s(1-5) by simp
qed

section \<open>Recovering the key\<close>

lemma submitted_positions:
  assumes "list_all (row_ok K (map_of (zip ids shares))) rows" and "length ids = length shares"
    and "\<not> collides (sha_raw K) {v. \<exists>r\<in>set rows. ts_submitted r = Some v} (set shares)"
  shows "\<exists>g. \<forall>r\<in>set (filter (\<lambda>t. ts_submitted_at t \<noteq> None) rows).
    g r < length ids \<and> ids ! g r = ts_trustee r \<and> ts_submitted r = Some (shares ! g r)"
proof (rule bchoice, rule ballI)
  fix r
  assume "r \<in> set (filter (\<lambda>t. ts_submitted_at t \<noteq> None) rows)"
  then have r: "r \<in> set rows" "ts_submitted_at r \<noteq> None" by auto
  with assms(1) obtain s v where sv: "map_of (zip ids shares) (ts_trustee r) = Some s" "ts_hash r = sha256_hex K s"
    "ts_submitted r = Some v" "sha256_hex K v = ts_hash r"
    by (fastforce simp: list_all_iff row_ok_def split: option.splits)
  from map_of_SomeD [OF sv(1)] obtain i where i: "i < length ids" "ids ! i = ts_trustee r" "shares ! i = s"
    using assms(2) by (auto simp: in_set_zip)
  have "sha_raw K v = sha_raw K s" using sv(2,4) by (simp add: sha256_hex_def sha256_text_eq)
  moreover have "s \<in> set shares" using i assms(2) by (metis nth_mem)
  ultimately have "v = s" using not_collides_eq [OF assms(3)] r(1) sv(3) by blast
  with i sv(3) show "\<exists>i. i < length ids \<and> ids ! i = ts_trustee r \<and> ts_submitted r = Some (shares ! i)" by blast
qed

lemma those_map_Some: "(\<And>x. x \<in> set xs \<Longrightarrow> f x = Some (g x)) \<Longrightarrow> those (map f xs) = Some (map g xs)"
  by (induction xs) auto

text \<open>
  C16: Any threshold of trustees can open the election and nobody can spoil it: after the
  key was split, whatever the trustees collect and submit, once as many shares as the
  threshold are in, the tally gets exactly the private key that was generated, unless two
  texts with the same SHA-256 were produced, one submitted and one a share.
\<close>

theorem trustees_recover_key:
  assumes "ensure_election_key K (secret, random) actor db = Inr db1" and "db_key db = None"
    and "ev_custody (db_event db) = TRUSTEES" and "distinct (map ts_trustee (db_trustees db))"
    and "\<And>t. t \<in> set (db_trustees db) \<Longrightarrow> ts_submitted_at t = None"
    and "length secret = 32" and "length random = nat (ev_threshold (db_event db) - 1)"
    and "\<And>x. 8 \<le> length (sha_raw K x)"
    and "run_trustees K rs db1 = db2" and "ev_threshold (db_event db) \<le> int (length (submitted_shares db2))"
  shows "private_key_for_tally K db2 = Inr secret \<or>
    (\<exists>shares. split_secret (sha_raw K) secret (int (length (db_trustees db))) (ev_threshold (db_event db)) random = Inr shares
       \<and> collides (sha_raw K) {v. \<exists>r\<in>set (db_trustees db2). ts_submitted r = Some v} (set shares))"
proof -
  let ?ids = "map ts_trustee (sort_key ts_index (db_trustees db))"
  obtain shares key where g: "split_secret (sha_raw K) secret (int (length (db_trustees db))) (ev_threshold (db_event db)) random = Inr shares"
    "db_key db1 = Some key" "ek_public key = b64e (x_public K secret)" "ek_custody key = TRUSTEES"
    "ek_threshold key = ev_threshold (db_event db)" "map ts_trustee (db_trustees db1) = map ts_trustee (db_trustees db)"
    "list_all (row_ok K (map_of (zip ?ids shares))) (db_trustees db1)"
    using generated_key [OF assms(1-5)] by metis
  have k: "1 \<le> ev_threshold (db_event db)" "length ?ids = length shares" "length shares = length (db_trustees db)"
    using g(1) by (auto simp: split_secret_def Let_def split: if_splits)
  have "distinct (map ts_trustee (db_trustees db1))" using g(6) assms(4) by simp
  from run_trustees_keeps [OF g(7) this, of rs] have ok: "db_key db2 = Some key"
    "map ts_trustee (db_trustees db2) = map ts_trustee (db_trustees db)"
    "list_all (row_ok K (map_of (zip ?ids shares))) (db_trustees db2)" using g(2,6) assms(9) by auto
  show ?thesis
  proof (cases "collides (sha_raw K) {v. \<exists>r\<in>set (db_trustees db2). ts_submitted r = Some v} (set shares)")
    case True
    with g(1) show ?thesis by blast
  next
    case False
    let ?R = "filter (\<lambda>t. ts_submitted_at t \<noteq> None) (db_trustees db2)" and ?k = "nat (ek_threshold key)"
    obtain f where f: "\<And>r. r \<in> set ?R \<Longrightarrow> f r < length ?ids \<and> ?ids ! f r = ts_trustee r \<and> ts_submitted r = Some (shares ! f r)"
      using submitted_positions [OF ok(3) k(2) False] by blast
    let ?xs = "take ?k ?R"
    have xs: "r \<in> set ?R" if "r \<in> set ?xs" for r using that by (rule in_set_takeD)
    have len: "length ?xs = ?k" using assms(10) g(5) by (simp add: submitted_shares_def)
    have "distinct (map ts_trustee ?R)" using ok(2) assms(4) by (metis distinct_map_filter)
    then have "distinct (map ts_trustee ?xs)" by (metis distinct_take take_map)
    then have d: "distinct ?xs" "inj_on ts_trustee (set ?xs)" by (simp_all add: distinct_map)
    have "inj_on (\<lambda>r. int (f r) + 1) (set ?xs)"
    proof (rule inj_onI)
      fix q r
      assume qr: "q \<in> set ?xs" "r \<in> set ?xs" "int (f q) + 1 = int (f r) + 1"
      then have "f q = f r" by simp
      then have "ts_trustee q = ts_trustee r" using f [OF xs [OF qr(1)]] f [OF xs [OF qr(2)]] by simp
      then show "q = r" by (rule inj_onD [OF d(2) _ qr(1,2)])
    qed
    with d(1) have dist: "distinct (map (\<lambda>r. int (f r) + 1) ?xs)" by (simp only: distinct_map)
    have "combine_shares (sha_raw K) (map (\<lambda>x. shares ! nat (x - 1)) (map (\<lambda>r. int (f r) + 1) ?xs)) = Inr secret"
    proof (rule recover_secret [OF g(1) assms(7) _ assms(8) dist])
      show "secret \<noteq> []" using assms(6) by auto
      show "set (map (\<lambda>r. int (f r) + 1) ?xs) \<subseteq> {1..int (length (db_trustees db))}"
      proof
        fix x
        assume "x \<in> set (map (\<lambda>r. int (f r) + 1) ?xs)"
        then obtain r where "r \<in> set ?xs" "x = int (f r) + 1" by auto
        with f [OF xs] k(2,3) show "x \<in> {1..int (length (db_trustees db))}" by fastforce
      qed
      show "nat (ev_threshold (db_event db)) \<le> length (map (\<lambda>r. int (f r) + 1) ?xs)" using len g(5) by simp
    qed
    moreover have "those (take ?k (submitted_shares db2)) = Some (map (\<lambda>r. shares ! f r) ?xs)"
      unfolding submitted_shares_def take_map using f xs by (intro those_map_Some) blast
    ultimately have "private_key_for_tally K db2 = check_derived K key secret"
      using ok(1) g(4,5) assms(10) by (simp add: private_key_for_tally_def Let_def comp_def)
    with g(3) assms(6) show ?thesis by (simp add: check_derived_def)
  qed
qed

text \<open>
  The official tally wipes the submitted shares but not the time of submission, so
  every later tally or recount of the election counts them as submitted and fails on a
  share that is no longer there, instead of asking the trustees for it.
\<close>

theorem wiped_shares_fail:
  assumes "db_key db = Some key" and "ek_custody key = TRUSTEES" and "1 \<le> ek_threshold key"
    and "ek_threshold key \<le> int (length (submitted_shares db))"
  shows "private_key_for_tally K (wipe_submitted_shares db) = Inl Share_missing"
proof -
  have w: "submitted_shares (wipe_submitted_shares db) = replicate (length (submitted_shares db)) None"
    by (simp add: submitted_shares_def wipe_submitted_shares_def filter_map comp_def map_replicate_const)
  moreover have "db_key (wipe_submitted_shares db) = Some key" using assms(1) by (simp add: wipe_submitted_shares_def)
  moreover obtain n where "nat (ek_threshold key) = Suc n" using assms(3) by (metis Suc_pred' int_one_le_iff_zero_less zero_less_nat_eq)
  moreover obtain m where "length (submitted_shares db) = Suc m" using assms(3,4) by (cases "length (submitted_shares db)") auto
  ultimately show ?thesis using assms(2,4) by (simp add: private_key_for_tally_def Let_def)
qed

section \<open>Witnesses\<close>

definition ex_trustee :: "int \<Rightarrow> trustee_share" where
  "ex_trustee i =
     \<lparr>ts_trustee = i, ts_index = i, ts_hash = [], ts_pending = None, ts_collected = None, ts_submitted = None,
      ts_submitted_at = None\<rparr>"

definition trustee_db :: election_db where
  "trustee_db =
     update_trustees (\<lambda>_. [ex_trustee 1, ex_trustee 2])
       (update_event (\<lambda>ev. ev\<lparr>ev_custody := TRUSTEES, ev_threshold := 1\<rparr>) ex_db)"

abbreviation ex_secret :: string where
  "ex_secret \<equiv> replicate 32 (CHR ''k'')"

lemma bytes_value_less: "bytes_value s < 256 ^ length s"
proof (induction s rule: rev_induct)
  case (snoc c s)
  have "int (of_char c :: nat) < 256" using nat_of_char_less_256 [of c] by linarith
  moreover have "bytes_value s + 1 \<le> 256 ^ length s" using snoc by simp
  ultimately have "256 * bytes_value s + int (of_char c) < 256 * 256 ^ length s" by linarith
  then show ?case by (simp add: bytes_value_snoc)
qed (simp add: bytes_value_def)

lemma ex_split: "split_secret (sha_raw ex_crypto) ex_secret 2 1 [] =
    Inr [share_text 1 (horner shamir_prime [sealed_value (sha_raw ex_crypto) ex_secret] 1),
         share_text 2 (horner shamir_prime [sealed_value (sha_raw ex_crypto) ex_secret] 2)]"
proof -
  let ?t = "CHR 0x01 # ex_secret @ take 8 (sha_raw ex_crypto ex_secret)"
  have "length ?t = 41" by (simp add: ex_crypto_def)
  then have "bytes_value ?t < 256 ^ 41" using bytes_value_less [of ?t] by simp
  also have "\<dots> < shamir_prime" by (simp add: shamir_prime_def)
  finally have "sealed_value (sha_raw ex_crypto) ex_secret < shamir_prime" by (simp add: sealed_value_def)
  then show ?thesis by (simp add: split_secret_def Let_def upto.simps)
qed

theorem trustees_recover_key_witness:
  "\<exists>db1 db2 v. ensure_election_key ex_crypto (ex_secret, []) None trustee_db = Inr db1
    \<and> db2 = run_trustees ex_crypto [Submit 5 (ex_operator\<lparr>us_id := 1\<rparr>) v] db1
    \<and> (private_key_for_tally ex_crypto db2 = Inr ex_secret
       \<or> (\<exists>shares. split_secret (sha_raw ex_crypto) ex_secret 2 1 [] = Inr shares
            \<and> collides (sha_raw ex_crypto) {v. \<exists>r\<in>set (db_trustees db2). ts_submitted r = Some v} (set shares)))"
proof -
  let ?v = "share_text 1 (horner shamir_prime [sealed_value (sha_raw ex_crypto) ex_secret] 1)"
  have t: "db_key trustee_db = None" "ev_custody (db_event trustee_db) = TRUSTEES" "ev_threshold (db_event trustee_db) = 1"
    "db_trustees trustee_db = [ex_trustee 1, ex_trustee 2]"
    by (simp_all add: trustee_db_def ex_db_def)
  have index: "ts_index (ex_trustee i) = i" for i by (simp add: ex_trustee_def)
  obtain fp where fp: "key_fingerprint ex_crypto (b64e (x_public ex_crypto ex_secret)) = Inr fp"
    by (simp add: key_fingerprint_def)
  obtain db1 where e: "ensure_election_key ex_crypto (ex_secret, []) None trustee_db = Inr db1"
    "db_trustees db1 = fold (give_share ex_crypto) (zip [ex_trustee 1, ex_trustee 2]
      [?v, share_text 2 (horner shamir_prime [sealed_value (sha_raw ex_crypto) ex_secret] 2)]) [ex_trustee 1, ex_trustee 2]"
    using t fp ex_split by (simp add: ensure_election_key_def Let_def index)
  let ?q = "Submit 5 (ex_operator\<lparr>us_id := 1\<rparr>) ?v"
  have "length (submitted_shares (run_trustees ex_crypto [?q] db1)) = 1"
    unfolding run_trustees_def
    by (simp add: submit_share_def e(2) give_share_def ex_trustee_def first_where_def strip_share_text submitted_shares_def)
  then have "private_key_for_tally ex_crypto (run_trustees ex_crypto [?q] db1) = Inr ex_secret \<or>
    (\<exists>shares. split_secret (sha_raw ex_crypto) ex_secret (int (length (db_trustees trustee_db))) (ev_threshold (db_event trustee_db)) [] = Inr shares
       \<and> collides (sha_raw ex_crypto) {v. \<exists>r\<in>set (db_trustees (run_trustees ex_crypto [?q] db1)). ts_submitted r = Some v} (set shares))"
    by (intro trustees_recover_key [OF e(1) t(1,2)]) (auto simp: t ex_trustee_def ex_crypto_def)
  with e(1) t show ?thesis by (intro exI [of _ db1] exI [of _ "run_trustees ex_crypto [?q] db1"] exI [of _ ?v]) simp
qed

definition ex_key :: election_key where
  "ex_key =
     \<lparr>ek_public = [], ek_fingerprint = [], ek_custody = TRUSTEES, ek_wrapped = None, ek_threshold = 1, ek_shares = 2\<rparr>"

theorem wiped_shares_fail_witness:
  "private_key_for_tally ex_crypto (wipe_submitted_shares
      (update_trustees (\<lambda>_. [(ex_trustee 1)\<lparr>ts_submitted := Some ''s'', ts_submitted_at := Some 4\<rparr>])
        (ex_db\<lparr>db_key := Some ex_key\<rparr>))) = Inl Share_missing"
  by (rule wiped_shares_fail [of _ ex_key]) (simp_all add: submitted_shares_def ex_key_def)

end
