(* ===== verification/Configuration.thy ===== *)
theory Configuration
  imports Election_Db
begin

text \<open>
  elections/integrity.py, signed configuration: the document that fixes everything voters
  and counters rely on, its snapshot (hash and platform signature) at approval, and the
  verification of a snapshot. Enumerations appear as the text the database stores.
\<close>

section \<open>Stored values\<close>

definition mode_text :: "voting_mode \<Rightarrow> string" where
  "mode_text m = (case m of PAY_TO_VOTE \<Rightarrow> ''Pay to Vote'' | CODE_VOTING \<Rightarrow> ''Code Voting'')"

definition code_mode_text :: "code_mode \<Rightarrow> string" where
  "code_mode_text m = (case m of STANDARD \<Rightarrow> ''Standard'' | STUDENT_ID \<Rightarrow> ''Student ID'')"

definition visibility_text :: "visibility \<Rightarrow> string" where
  "visibility_text v = (case v of LIVE \<Rightarrow> ''LIVE'' | AFTER_CLOSE \<Rightarrow> ''AFTER_CLOSE'' | AFTER_PUBLISH \<Rightarrow> ''AFTER_PUBLISH'')"

definition custody_text :: "custody \<Rightarrow> string" where
  "custody_text c = (case c of SYSTEM \<Rightarrow> ''SYSTEM'' | TRUSTEES \<Rightarrow> ''TRUSTEES'')"

definition ballot_type_text :: "ballot_type \<Rightarrow> string" where
  "ballot_type_text t =
     (case t of SINGLE \<Rightarrow> ''SINGLE'' | FPTP \<Rightarrow> ''FPTP'' | MULTIPLE \<Rightarrow> ''MULTIPLE'' | APPROVAL \<Rightarrow> ''APPROVAL''
      | RANKED \<Rightarrow> ''RANKED'' | SCORE \<Rightarrow> ''SCORE'' | REFERENDUM \<Rightarrow> ''REFERENDUM'')"

definition candidate_status_text :: "candidate_status \<Rightarrow> string" where
  "candidate_status_text s =
     (case s of ACTIVE \<Rightarrow> ''ACTIVE'' | WITHDRAWN \<Rightarrow> ''WITHDRAWN'' | DISQUALIFIED \<Rightarrow> ''DISQUALIFIED''
      | ELIMINATED \<Rightarrow> ''ELIMINATED'')"

definition rule_kind_text :: "rule_kind \<Rightarrow> string" where
  "rule_kind_text k =
     (case k of In_constituency \<Rightarrow> ''CONSTITUENCY'' | ATTRIBUTE_EQUALS \<Rightarrow> ''ATTRIBUTE_EQUALS''
      | ATTRIBUTE_IN \<Rightarrow> ''ATTRIBUTE_IN'' | ATTRIBUTE_NOT_IN \<Rightarrow> ''ATTRIBUTE_NOT_IN''
      | EMAIL_DOMAIN \<Rightarrow> ''EMAIL_DOMAIN'' | VERIFIED_EMAIL \<Rightarrow> ''VERIFIED_EMAIL'' | VERIFIED_PHONE \<Rightarrow> ''VERIFIED_PHONE'')"

definition voter_status_text :: "voter_status \<Rightarrow> string" where
  "voter_status_text s =
     (case s of ELIGIBLE \<Rightarrow> ''ELIGIBLE'' | VERIFIED \<Rightarrow> ''VERIFIED'' | VOTED \<Rightarrow> ''VOTED''
      | SUSPENDED \<Rightarrow> ''SUSPENDED'' | INELIGIBLE \<Rightarrow> ''INELIGIBLE'')"

definition status_text :: "event_status \<Rightarrow> string" where
  "status_text s =
     (case s of DRAFT \<Rightarrow> ''DRAFT'' | REVIEW \<Rightarrow> ''REVIEW'' | APPROVED \<Rightarrow> ''APPROVED'' | SCHEDULED \<Rightarrow> ''SCHEDULED''
      | OPEN \<Rightarrow> ''OPEN'' | PAUSED \<Rightarrow> ''PAUSED'' | CLOSED \<Rightarrow> ''CLOSED'' | TALLYING \<Rightarrow> ''TALLYING''
      | CERTIFIED \<Rightarrow> ''CERTIFIED'' | PUBLISHED \<Rightarrow> ''PUBLISHED'' | ARCHIVED \<Rightarrow> ''ARCHIVED'')"

text \<open>\<open>str\<close> of a decimal with two places, as the database returns money and percentages.\<close>

definition decimal_text :: "rat \<Rightarrow> string" where
  "decimal_text r =
     (let n = nat \<lfloor>\<bar>r\<bar> * 100\<rfloor>
      in (if r < 0 then ''-'' else '''') @ str_nat (n div 100) @ ''.''
         @ [digit_char (n div 10 mod 10), digit_char (n mod 10)])"

section \<open>The document\<close>

definition election_section :: "crypto \<Rightarrow> event \<Rightarrow> json" where
  "election_section K ev = JObj
     [(''id'', JInt (ev_id ev)), (''title'', JStr (ev_title ev)), (''mode'', JStr (mode_text (ev_mode ev))),
      (''code_mode'', JStr (code_mode_text (ev_code_mode ev))), (''start'', JStr (iso_text K (ev_start ev))),
      (''end'', JStr (iso_text K (ev_end ev))), (''timezone'', JStr (ev_timezone ev)),
      (''currency'', JStr (ev_currency ev)), (''results_visibility'', JStr (visibility_text (ev_visibility ev))),
      (''auth_methods'', JList (map JStr (sort (ev_auth_methods ev)))),
      (''require_second_factor'', JBool (ev_second_factor ev)),
      (''self_registration'', JBool (ev_self_registration ev)), (''dual_approval'', JBool (ev_dual_approval ev)),
      (''key_custody'', JStr (custody_text (ev_custody ev))), (''trustee_threshold'', JInt (ev_threshold ev)),
      (''vote_price'', JStr (decimal_text (ev_price ev))), (''max_votes_per_voter'', opt_int (ev_max_per_voter ev)),
      (''record_constituency_on_ballot'', JBool (ev_record_constituency ev)),
      (''min_anonymity_set'', JInt (ev_min_anonymity ev))]"

definition position_section :: "candidate list \<Rightarrow> position \<Rightarrow> json" where
  "position_section cs p = JObj
     [(''id'', JInt (pos_id p)), (''name'', JStr (pos_name p)), (''type'', JStr (ballot_type_text (pos_type p))),
      (''min'', JInt (pos_min p)), (''max'', JInt (pos_max p)), (''seats'', JInt (pos_seats p)),
      (''max_score'', JInt (pos_max_score p)), (''abstain'', JBool (pos_abstain p)),
      (''threshold'', JStr (decimal_text (pos_threshold p))),
      (''constituency'', opt_int (map_option co_id (pos_constituency p))),
      (''candidates'', JList (map (\<lambda>c. JObj
         [(''id'', JInt (ca_id c)), (''name'', JStr (ca_name c)), (''status'', JStr (candidate_status_text (ca_status c)))])
         (sort_key ca_id (candidates_of cs p))))]"

definition rule_section :: "rule \<Rightarrow> json" where
  "rule_section r = JObj
     [(''id'', JInt (ru_id r)), (''kind'', JStr (rule_kind_text (ru_kind r))), (''position'', opt_int (ru_position r)),
      (''attribute'', JStr (ru_attribute r)), (''values'', JList (ru_values r)),
      (''constituency'', opt_int (map_option co_id (ru_constituency r))), (''active'', JBool (ru_active r))]"

fun join_with :: "string \<Rightarrow> string list \<Rightarrow> string" where
  "join_with sep [] = []"
| "join_with sep [x] = x"
| "join_with sep (x # xs) = x @ sep @ join_with sep xs"

definition roll_section :: "crypto \<Rightarrow> voter list \<Rightarrow> json" where
  "roll_section K vs =
     (let roll = sort (List.map_filter vo_credential_hash vs) in JObj
       [(''count'', JInt (int (length vs))),
        (''credentials_digest'', JStr (sha256_hex K (join_with ''|'' roll))),
        (''statuses'', JObj (map (\<lambda>s. (voter_status_text s, JInt (int (count_where (\<lambda>v. vo_status v = s) vs))))
           [ELIGIBLE, VERIFIED, VOTED, SUSPENDED, INELIGIBLE]))])"

definition configuration_document :: "crypto \<Rightarrow> election \<Rightarrow> json" where
  "configuration_document K el = JObj
     [(''election'', election_section K (the_event el)),
      (''positions'', JList (map (position_section (candidates el)) (sort_key pos_id (positions el)))),
      (''uncategorized_candidates'', JList (map (\<lambda>c. JObj [(''id'', JInt (ca_id c)), (''name'', JStr (ca_name c))])
         (sort_key ca_id (filter (\<lambda>c. ca_category c = None) (candidates el))))),
      (''eligibility_rules'', JList (map rule_section (sort_key ru_id (rules el)))),
      (''voter_roll'', roll_section K (voters el))]"

section \<open>Signed snapshots\<close>

definition next_version :: "snapshot list \<Rightarrow> int" where
  "next_version rows = fold max (map sn_version rows) 0 + 1"

definition snapshot_configuration ::
  "env \<Rightarrow> account option \<Rightarrow> string \<Rightarrow> election_db \<Rightarrow> key_error + election_db" where
  "snapshot_configuration E actor reason db =
     (let K = en_crypto E; doc = configuration_document K (db_election db);
          encoded = canonical_json (float_repr K) doc; v = next_version (db_snapshots db) in
      case public_key_b64 K (en_config E) of
        Inl e \<Rightarrow> Inl e
      | Inr pub \<Rightarrow>
          (case sign K (en_config E) encoded of
             Inl e \<Rightarrow> Inl e
           | Inr sig \<Rightarrow>
               (case key_fingerprint K pub of
                  Inl e \<Rightarrow> Inl e
                | Inr fp \<Rightarrow>
                    Inr (log_note (note_about ''ELECTION_CONFIG_SIGNED'' actor
                           (''elections.ElectionConfigSnapshot'', str_int v) db)
                      (db\<lparr>db_snapshots := db_snapshots db @
                         [\<lparr>sn_version = v, sn_reason = reason, sn_config = doc, sn_hash = sha256_hex K encoded,
                           sn_signature = sig, sn_public = pub, sn_key_id = fp,
                           sn_created_by = map_option us_id actor\<rparr>]\<rparr>)))))"

definition verify_snapshot :: "crypto \<Rightarrow> snapshot \<Rightarrow> bool" where
  "verify_snapshot K s =
     (let encoded = canonical_json (float_repr K) (sn_config s)
      in sha256_hex K encoded = sn_hash s \<and> verify_signature K encoded (sn_signature s) (sn_public s))"

definition latest_snapshot :: "election_db \<Rightarrow> snapshot option" where
  "latest_snapshot db =
     (case sort_key (\<lambda>s. - sn_version s) (db_snapshots db) of s # _ \<Rightarrow> Some s | [] \<Rightarrow> None)"

section \<open>What a snapshot proves\<close>

definition signatures_ok :: "crypto \<Rightarrow> bool" where
  "signatures_ok K \<longleftrightarrow> (\<forall>k m. length (ed_public K k) = 32 \<and> ed_verify K (ed_public K k) (ed_sign K k m) m)"

lemma snapshot_fields:
  assumes "snapshot_configuration E actor reason db = Inr db'"
  shows "\<exists>s. db_snapshots db' = db_snapshots db @ [s] \<and> sn_config s = configuration_document (en_crypto E) (db_election db)
      \<and> sn_version s = next_version (db_snapshots db)
      \<and> sn_hash s = sha256_hex (en_crypto E) (canonical_json (float_repr (en_crypto E)) (sn_config s))
      \<and> public_key_b64 (en_crypto E) (en_config E) = Inr (sn_public s)
      \<and> sign (en_crypto E) (en_config E) (canonical_json (float_repr (en_crypto E)) (sn_config s)) = Inr (sn_signature s)"
    "db_election db' = db_election db" "db_key db' = db_key db" "db_authorizations db' = db_authorizations db"
    "db_ballots db' = db_ballots db" "db_tenancy db' = db_tenancy db" "db_certifications db' = db_certifications db"
    "db_results db' = db_results db" "db_disputes db' = db_disputes db" "db_requests db' = db_requests db"
    "db_ledger db' = db_ledger db"
  using assms by (auto simp: snapshot_configuration_def Let_def log_note_def split: sum.splits)

lemma signature_verifies:
  assumes "signatures_ok K" and "public_key_b64 K cf = Inr pub" and "sign K cf payload = Inr sig"
  shows "verify_signature K payload sig pub"
  using assms by (auto simp: signatures_ok_def public_key_b64_def sign_def verify_signature_def split: sum.splits)


section \<open>Witness\<close>

lemma ex_signatures: "signatures_ok ex_crypto"
  by (auto simp: signatures_ok_def ex_crypto_def)

lemma ex_snapshot: "\<exists>db'. snapshot_configuration ex_env actor reason db = Inr db'"
  by (simp add: snapshot_configuration_def Let_def public_key_b64_def sign_def signing_key_def key_fingerprint_def
      ex_env_def ex_config_def)


end
