(* ===== verification/Lifecycle.thy ===== *)
theory Lifecycle
  imports Keys Configuration Contracts
begin

text \<open>
  elections/lifecycle.py: the state machine of an election. The table of actions, their
  guards and effects, \<open>transition\<close> (state check, permission check, guard, effect, audit
  entry and the tasks queued on commit, in the code's order), the time-based transitions of
  \<open>tick\<close>, and which edits a state allows.

  A guard may itself change the database (opening an election without a key generates
  one). \<open>ev\<close> in \<open>tick\<close>, \<open>edit_policy\<close> and \<open>require_editable\<close> is the instance the caller
  holds; \<open>transition\<close> reads the row again under a lock.
\<close>

datatype lifecycle_error =
    Unknown_action string
  | Wrong_state event_status
  | Fix_first "config_problem list"
  | Same_person
  | End_in_past
  | Voting_over
  | Legal_hold
  | Open_disputes
  | Not_editable
  | Access access_error
  | Custody custody_error
  | Signing key_error

text \<open>The exceptions of the class \<open>LifecycleError\<close>.\<close>

fun is_lifecycle_error :: "lifecycle_error \<Rightarrow> bool" where
  "is_lifecycle_error (Access _) = False"
| "is_lifecycle_error (Custody _) = False"
| "is_lifecycle_error (Signing _) = False"
| "is_lifecycle_error _ = True"

section \<open>The table of actions\<close>

datatype guard_fn = Guard_submit | Guard_approve | Guard_schedule | Guard_open | Guard_resume | Guard_archive

datatype effect_fn =
    Effect_submit | Effect_withdraw | Effect_approve | Effect_schedule | Effect_open | Effect_close
  | Effect_archive | Effect_publish

record action =
  la_name :: string
  la_sources :: "event_status list"
  la_target :: event_status
  la_perm :: string
  la_guard :: "guard_fn option"
  la_effect :: "effect_fn option"
  la_manual :: bool

definition act ::
  "string \<Rightarrow> event_status list \<Rightarrow> event_status \<Rightarrow> string \<Rightarrow> guard_fn option \<Rightarrow> effect_fn option \<Rightarrow> bool \<Rightarrow> action" where
  "act n ss t p g f m =
     \<lparr>la_name = n, la_sources = ss, la_target = t, la_perm = p, la_guard = g, la_effect = f, la_manual = m\<rparr>"

definition actions :: "action list" where
  "actions =
     [act ''submit'' [DRAFT] REVIEW ''election.submit'' (Some Guard_submit) (Some Effect_submit) True,
      act ''withdraw'' [REVIEW] DRAFT ''election.submit'' None (Some Effect_withdraw) True,
      act ''approve'' [REVIEW] APPROVED ''election.review'' (Some Guard_approve) (Some Effect_approve) True,
      act ''reject'' [REVIEW] DRAFT ''election.review'' None None True,
      act ''schedule'' [APPROVED] SCHEDULED ''election.publish'' (Some Guard_schedule) (Some Effect_schedule) True,
      act ''unschedule'' [SCHEDULED] APPROVED ''election.publish'' None None True,
      act ''open'' [SCHEDULED] OPEN ''election.publish'' (Some Guard_open) (Some Effect_open) True,
      act ''pause'' [OPEN] PAUSED ''election.pause'' None None True,
      act ''resume'' [PAUSED] OPEN ''election.pause'' (Some Guard_resume) None True,
      act ''close'' [OPEN, PAUSED] CLOSED ''election.close'' None (Some Effect_close) True,
      act ''start_tally'' [CLOSED] TALLYING ''results.tally'' None None True,
      act ''certify'' [TALLYING] CERTIFIED ''results.certify'' None None False,
      act ''publish'' [CERTIFIED] PUBLISHED ''results.publish'' None (Some Effect_publish) True,
      act ''archive'' [PUBLISHED, CLOSED, DRAFT] ARCHIVED ''election.archive'' (Some Guard_archive) (Some Effect_archive) True,
      act ''decertify'' [CERTIFIED, PUBLISHED] TALLYING ''results.certify'' None None False,
      act ''reopen_voting'' [CLOSED] OPEN ''election.close'' None (Some Effect_open) False]"

definition find_action :: "string \<Rightarrow> action option" where
  "find_action n = first_where (\<lambda>a. la_name a = n) actions"

definition available_actions :: "tenancy \<Rightarrow> account option \<Rightarrow> event \<Rightarrow> action list" where
  "available_actions db user ev =
     filter (\<lambda>a. la_manual a \<and> ev_status ev \<in> set (la_sources a)
       \<and> has_perm db user (la_perm a) (Election ev) = Inr True) actions"

section \<open>Guards and effects\<close>

definition ensure_key :: "env \<Rightarrow> account option \<Rightarrow> election_db \<Rightarrow> lifecycle_error + election_db" where
  "ensure_key E actor db =
     (case ensure_election_key (en_crypto E) (en_key E) actor db of
        Inl e \<Rightarrow> Inl (Custody e) | Inr db' \<Rightarrow> Inr db')"

fun run_guard :: "env \<Rightarrow> int \<Rightarrow> account option \<Rightarrow> guard_fn \<Rightarrow> election_db \<Rightarrow> lifecycle_error + election_db" where
  "run_guard E now actor Guard_submit db =
     (let ps = configuration_problems (db_election db) in if ps \<noteq> [] then Inl (Fix_first ps) else Inr db)"
| "run_guard E now actor Guard_approve db =
     (if ev_dual_approval (db_event db) \<and> actor \<noteq> None \<and> ev_submitted_by (db_event db) = map_option us_id actor
      then Inl Same_person else Inr db)"
| "run_guard E now actor Guard_schedule db =
     (let ps = configuration_problems (db_election db) in
      if ps \<noteq> [] then Inl (Fix_first ps)
      else if ev_end (db_event db) \<le> now then Inl End_in_past else Inr db)"
| "run_guard E now actor Guard_open db =
     (if ev_end (db_event db) \<le> now then Inl Voting_over
      else if is_institutional (db_event db) \<and> db_key db = None then ensure_key E actor db
      else Inr db)"
| "run_guard E now actor Guard_resume db =
     (if ev_end (db_event db) \<le> now then Inl Voting_over else Inr db)"
| "run_guard E now actor Guard_archive db =
     (if ev_legal_hold (db_event db) then Inl Legal_hold
      else if exists_where dispute_is_open (db_disputes db) then Inl Open_disputes
      else Inr db)"

definition open_event :: "int \<Rightarrow> event \<Rightarrow> event" where
  "open_event now ev =
     (let ev1 = ev\<lparr>ev_start := (if now < ev_start ev then now else ev_start ev),
                   ev_opened_at := (case ev_opened_at ev of Some t \<Rightarrow> Some t | None \<Rightarrow> Some now)\<rparr>
      in if is_institutional ev
         then ev1\<lparr>ev_config_frozen := True, ev_ballot_frozen := True, ev_candidates_frozen := True,
                  ev_voters_frozen := (if ev_self_registration ev then ev_voters_frozen ev else True)\<rparr>
         else ev1)"

definition close_event :: "int \<Rightarrow> event \<Rightarrow> event" where
  "close_event now ev =
     ev\<lparr>ev_closed_at := Some now, ev_end := (if now < ev_end ev then now else ev_end ev),
        ev_config_frozen := True, ev_ballot_frozen := True, ev_candidates_frozen := True, ev_voters_frozen := True\<rparr>"

fun run_effect :: "env \<Rightarrow> int \<Rightarrow> account option \<Rightarrow> effect_fn \<Rightarrow> election_db \<Rightarrow> lifecycle_error + election_db" where
  "run_effect E now actor Effect_submit db = Inr (update_event (\<lambda>ev. ev\<lparr>ev_submitted_by := map_option us_id actor\<rparr>) db)"
| "run_effect E now actor Effect_withdraw db = Inr (update_event (\<lambda>ev. ev\<lparr>ev_submitted_by := None\<rparr>) db)"
| "run_effect E now actor Effect_approve db =
     (case snapshot_configuration E actor ''APPROVED''
             (update_event (\<lambda>ev. ev\<lparr>ev_reviewed_by := map_option us_id actor\<rparr>) db) of
        Inl e \<Rightarrow> Inl (Signing e) | Inr db' \<Rightarrow> Inr db')"
| "run_effect E now actor Effect_schedule db =
     (if is_institutional (db_event db) then ensure_key E actor db else Inr db)"
| "run_effect E now actor Effect_open db = Inr (update_event (open_event now) db)"
| "run_effect E now actor Effect_close db = Inr (update_event (close_event now) db)"
| "run_effect E now actor Effect_archive db =
     Inr (update_event (\<lambda>ev. ev\<lparr>ev_archived_at := Some now, ev_active := False\<rparr>) db)"
| "run_effect E now actor Effect_publish db = Inr (update_event (\<lambda>ev. ev\<lparr>ev_published_at := Some now\<rparr>) db)"

section \<open>Transitions\<close>

definition after_transition :: "string \<Rightarrow> election_db \<Rightarrow> election_db" where
  "after_transition n db =
     (let i = ev_id (db_event db) in
      if n = ''open'' \<or> n = ''reopen_voting'' then queue_task (Notify_voting_opened i) db
      else if n = ''close'' then queue_task (Auto_tally i) db
      else if n = ''publish'' then queue_task (Notify_results_published i) db
      else db)"

definition pass_guard ::
  "env \<Rightarrow> int \<Rightarrow> account option \<Rightarrow> action \<Rightarrow> bool \<Rightarrow> election_db \<Rightarrow> lifecycle_error + election_db" where
  "pass_guard E now actor a skip_guard db =
     (case la_guard a of Some g \<Rightarrow> if skip_guard then Inr db else run_guard E now actor g db | None \<Rightarrow> Inr db)"

definition apply_effect ::
  "env \<Rightarrow> int \<Rightarrow> account option \<Rightarrow> action \<Rightarrow> election_db \<Rightarrow> lifecycle_error + election_db" where
  "apply_effect E now actor a db =
     (let db' = update_event (\<lambda>ev. ev\<lparr>ev_status := la_target a\<rparr>) db in
      case la_effect a of Some f \<Rightarrow> run_effect E now actor f db' | None \<Rightarrow> Inr db')"

definition transition_note :: "string \<Rightarrow> account option \<Rightarrow> string \<Rightarrow> election_db \<Rightarrow> audit_note" where
  "transition_note name actor reason db = (event_note (''ELECTION_'' @ upper name) actor db)\<lparr>an_reason := reason\<rparr>"

definition transition ::
  "env \<Rightarrow> int \<Rightarrow> string \<Rightarrow> account option \<Rightarrow> string \<Rightarrow> bool \<Rightarrow> (event \<Rightarrow> event) \<Rightarrow> bool \<Rightarrow> election_db
    \<Rightarrow> lifecycle_error + election_db" where
  "transition E now name actor reason system extra skip_guard db =
     (case find_action name of
        None \<Rightarrow> Inl (Unknown_action name)
      | Some a \<Rightarrow>
          if ev_status (db_event db) \<notin> set (la_sources a) then Inl (Wrong_state (ev_status (db_event db)))
          else
            case (if system then Inr () else check_perm (db_tenancy db) actor (la_perm a) (Election (db_event db))) of
              Inl e \<Rightarrow> Inl (Access e)
            | Inr _ \<Rightarrow>
                (case pass_guard E now actor a skip_guard db of
                   Inl e \<Rightarrow> Inl e
                 | Inr db1 \<Rightarrow>
                     (case apply_effect E now actor a db1 of
                        Inl e \<Rightarrow> Inl e
                      | Inr db2 \<Rightarrow>
                          (let db3 = update_event extra db2 in
                           Inr (after_transition name (log_note (transition_note name actor reason db3) db3))))))"

text \<open>A transition nobody asked for, with no further effect.\<close>

abbreviation system_transition :: "env \<Rightarrow> int \<Rightarrow> string \<Rightarrow> string \<Rightarrow> bool \<Rightarrow> election_db \<Rightarrow> lifecycle_error + election_db" where
  "system_transition E now name reason skip \<equiv> transition E now name None reason True (\<lambda>ev. ev) skip"

text \<open>
  \<open>tick\<close>: open at the start time, close at the end time. Errors of the lifecycle are
  swallowed, with what was done before kept; others are raised. The instance returned is
  the row after the last transition that succeeded.
\<close>

definition tick :: "env \<Rightarrow> int \<Rightarrow> event \<Rightarrow> election_db \<Rightarrow> lifecycle_error + event \<times> election_db" where
  "tick E now ev db =
     (let after_open =
            (if ev_status ev = SCHEDULED \<and> ev_start ev \<le> now
             then (case system_transition E now ''open'' ''Automatic opening at start time'' (ev_end ev \<le> now) db of
                     Inl e \<Rightarrow> Inl e | Inr db' \<Rightarrow> Inr (db_event db', db'))
             else Inr (ev, db))
      in case after_open of
           Inl e \<Rightarrow> if is_lifecycle_error e then Inr (ev, db) else Inl e
         | Inr (ev', db') \<Rightarrow>
             if ev_status ev' \<in> {OPEN, PAUSED} \<and> ev_end ev' \<le> now
             then (case system_transition E now ''close'' ''Automatic closing at end time'' False db' of
                     Inl e \<Rightarrow> if is_lifecycle_error e then Inr (ev', db') else Inl e
                   | Inr db'' \<Rightarrow> Inr (db_event db'', db''))
             else Inr (ev', db'))"

section \<open>Edits\<close>

definition locked_states :: "event_status list" where
  "locked_states = [CLOSED, TALLYING, CERTIFIED, PUBLISHED, ARCHIVED]"

datatype edit_verdict = Edit_locked | Edit_in_review | Edit_frozen | Edit_allowed | Edit_resets | Edit_while_voting | Edit_never

definition frozen_flag :: "event \<Rightarrow> string \<Rightarrow> bool" where
  "frozen_flag ev scope =
     (if scope = ''config'' then ev_config_frozen ev
      else if scope = ''ballot'' then ev_ballot_frozen ev
      else if scope = ''candidates'' \<or> scope = ''candidate_profile'' then ev_candidates_frozen ev
      else if scope = ''voters'' then ev_voters_frozen ev
      else False)"

definition edit_policy :: "event \<Rightarrow> string \<Rightarrow> edit_verdict" where
  "edit_policy ev scope =
     (let roll_or_profile = (scope = ''voters'' \<or> scope = ''candidate_profile'') in
      if ev_status ev \<in> set locked_states then Edit_locked
      else if ev_status ev = REVIEW then Edit_in_review
      else if frozen_flag ev scope then Edit_frozen
      else if ev_status ev = DRAFT then Edit_allowed
      else if ev_status ev \<in> {APPROVED, SCHEDULED} then (if roll_or_profile then Edit_allowed else Edit_resets)
      else if ev_status ev \<in> {OPEN, PAUSED} then
        (if roll_or_profile then Edit_allowed
         else if is_paid ev \<and> (scope = ''candidates'' \<or> scope = ''ballot'') then Edit_allowed
         else Edit_while_voting)
      else Edit_never)"

definition require_editable ::
  "event \<Rightarrow> string \<Rightarrow> account option \<Rightarrow> election_db \<Rightarrow> lifecycle_error + event \<times> election_db" where
  "require_editable ev scope actor db =
     (case edit_policy ev scope of
        Edit_allowed \<Rightarrow> Inr (ev, db)
      | Edit_resets \<Rightarrow>
          Inr (ev\<lparr>ev_status := DRAFT\<rparr>,
               log_note (event_note ''ELECTION_APPROVAL_RESET'' actor db)
                 (update_event (\<lambda>e. e\<lparr>ev_status := DRAFT, ev_reviewed_by := None\<rparr>) db))
      | _ \<Rightarrow> Inl Not_editable)"

end
