(* ===== verification/Lifecycle_Props.thy ===== *)
theory Lifecycle_Props
  imports Lifecycle
begin

text \<open>
  What the state machine of an election guarantees over any sequence of requests:
  \<open>life_step\<close> is one request (an action a user asks for, a tick, an edit), a request that
  fails changes nothing, and the runs are those of Contracts.
\<close>

datatype life_request =
    Ask int string "account option" string
  | Tick int
  | Edit string "account option"

fun life_step :: "env \<Rightarrow> life_request \<Rightarrow> election_db \<Rightarrow> lifecycle_error + election_db" where
  "life_step E (Ask now name actor reason) db = transition E now name actor reason False (\<lambda>ev. ev) False db"
| "life_step E (Tick now) db = (case tick E now (db_event db) db of Inl e \<Rightarrow> Inl e | Inr (_, db') \<Rightarrow> Inr db')"
| "life_step E (Edit scope actor) db =
     (case require_editable (db_event db) scope actor db of Inl e \<Rightarrow> Inl e | Inr (_, db') \<Rightarrow> Inr db')"

definition lifecycle_edge :: "event_status \<Rightarrow> event_status \<Rightarrow> bool" where
  "lifecycle_edge a b \<longleftrightarrow>
     list_ex (\<lambda>x. a \<in> set (la_sources x) \<and> b = la_target x) actions \<or> (a \<in> {APPROVED, SCHEDULED} \<and> b = DRAFT)"

section \<open>What a transition leaves\<close>

lemma find_action_in: "find_action n = Some a \<Longrightarrow> a \<in> set actions \<and> la_name a = n"
  unfolding find_action_def by (rule first_where_Some)

lemma ensure_key_keeps: "ensure_key E actor db = Inr db' \<Longrightarrow>
    db_event db' = db_event db \<and> db_voters db' = db_voters db \<and> db_authorizations db' = db_authorizations db
    \<and> db_ballots db' = db_ballots db \<and> db_certifications db' = db_certifications db \<and> db_results db' = db_results db
    \<and> db_requests db' = db_requests db \<and> db_tenancy db' = db_tenancy db \<and> db_ledger db' = db_ledger db \<and> db_key db' \<noteq> None"
  by (auto simp: ensure_key_def ensure_election_key_def Let_def split: sum.splits if_splits prod.splits)

lemma run_guard_keeps:
  "run_guard E now actor g db = Inr db' \<Longrightarrow>
    db_event db' = db_event db \<and> db_voters db' = db_voters db \<and> db_authorizations db' = db_authorizations db
    \<and> db_ballots db' = db_ballots db \<and> db_certifications db' = db_certifications db \<and> db_results db' = db_results db
    \<and> db_requests db' = db_requests db \<and> db_tenancy db' = db_tenancy db \<and> db_ledger db' = db_ledger db"
  by (cases g) (auto simp: Let_def split: if_splits dest: ensure_key_keeps)

lemma run_effect_keeps:
  "run_effect E now actor f db = Inr db' \<Longrightarrow>
    ev_status (db_event db') = ev_status (db_event db) \<and> db_voters db' = db_voters db
    \<and> db_authorizations db' = db_authorizations db \<and> db_ballots db' = db_ballots db
    \<and> db_certifications db' = db_certifications db \<and> db_results db' = db_results db
    \<and> db_requests db' = db_requests db \<and> db_tenancy db' = db_tenancy db \<and> db_ledger db' = db_ledger db"
  by (cases f)
    (auto simp: open_event_def close_event_def Let_def split: if_splits sum.splits dest: ensure_key_keeps snapshot_fields(2-))

lemma after_transition_keeps [simp]:
  "db_election (after_transition n db) = db_election db" "db_key (after_transition n db) = db_key db"
  "db_authorizations (after_transition n db) = db_authorizations db" "db_ballots (after_transition n db) = db_ballots db"
  "db_certifications (after_transition n db) = db_certifications db" "db_results (after_transition n db) = db_results db"
  "db_requests (after_transition n db) = db_requests db" "db_tenancy (after_transition n db) = db_tenancy db"
  "db_ledger (after_transition n db) = db_ledger db"
  by (simp_all add: after_transition_def Let_def)

lemma pass_guard_keeps: "pass_guard E now actor a skip db = Inr db' \<Longrightarrow>
    db_event db' = db_event db \<and> db_voters db' = db_voters db \<and> db_authorizations db' = db_authorizations db
    \<and> db_ballots db' = db_ballots db \<and> db_certifications db' = db_certifications db \<and> db_results db' = db_results db
    \<and> db_requests db' = db_requests db \<and> db_tenancy db' = db_tenancy db \<and> db_ledger db' = db_ledger db"
  unfolding pass_guard_def by (auto split: option.splits if_splits dest: run_guard_keeps)

lemma apply_effect_keeps: "apply_effect E now actor a db = Inr db' \<Longrightarrow>
    ev_status (db_event db') = la_target a \<and> db_voters db' = db_voters db
    \<and> db_authorizations db' = db_authorizations db \<and> db_ballots db' = db_ballots db
    \<and> db_certifications db' = db_certifications db \<and> db_results db' = db_results db
    \<and> db_requests db' = db_requests db \<and> db_tenancy db' = db_tenancy db \<and> db_ledger db' = db_ledger db"
  unfolding apply_effect_def Let_def by (auto split: option.splits dest: run_effect_keeps)

lemma transition_Inr:
  assumes "transition E now name actor reason system extra skip db = Inr db'"
  shows "\<exists>a db1 db2 n. find_action name = Some a \<and> ev_status (db_event db) \<in> set (la_sources a)
    \<and> (system \<or> check_perm (db_tenancy db) actor (la_perm a) (Election (db_event db)) = Inr ())
    \<and> pass_guard E now actor a skip db = Inr db1 \<and> apply_effect E now actor a db1 = Inr db2
    \<and> db' = after_transition name (log_note n (update_event extra db2))"
  using assms unfolding transition_def Let_def
  by (cases "find_action name"; cases "pass_guard E now actor (the (find_action name)) skip db")
    (auto split: if_splits sum.splits)

lemma transition_keeps:
  assumes "transition E now name actor reason system extra skip db = Inr db'"
  shows "db_voters db' = db_voters db" "db_authorizations db' = db_authorizations db" "db_ballots db' = db_ballots db"
    "db_certifications db' = db_certifications db" "db_results db' = db_results db" "db_requests db' = db_requests db"
    "db_tenancy db' = db_tenancy db" "db_ledger db' = db_ledger db"
  using transition_Inr [OF assms] by (auto dest!: pass_guard_keeps apply_effect_keeps)

lemma transition_status:
  assumes "transition E now name actor reason system extra skip db = Inr db'"
    and "\<And>ev. ev_status (extra ev) = ev_status ev"
  shows "\<exists>a. find_action name = Some a \<and> ev_status (db_event db) \<in> set (la_sources a)
    \<and> ev_status (db_event db') = la_target a"
  using transition_Inr [OF assms(1)] assms(2) by (auto dest!: pass_guard_keeps apply_effect_keeps)

lemma transition_edge:
  "transition E now name actor reason system (\<lambda>ev. ev) skip db = Inr db' \<Longrightarrow>
    lifecycle_edge (ev_status (db_event db)) (ev_status (db_event db'))"
  using transition_status [of E now name actor reason system "\<lambda>ev. ev" skip db db'] find_action_in
  by (fastforce simp: lifecycle_edge_def list_ex_iff)

section \<open>Time\<close>

lemma tick_Inr:
  assumes "tick E now (db_event db) db = Inr (ev', db')"
  shows "ev' = db_event db'"
    "lifecycle_edge\<^sup>*\<^sup>* (ev_status (db_event db)) (ev_status (db_event db'))"
  using assms
  by (auto simp: tick_def Let_def split: if_splits sum.splits
      dest!: transition_edge intro: converse_rtranclp_into_rtranclp)

lemma life_step_path:
  "life_step E r db = Inr db' \<Longrightarrow> lifecycle_edge\<^sup>*\<^sup>* (ev_status (db_event db)) (ev_status (db_event db'))"
proof (cases r)
  case (Ask now name actor reason)
  assume "life_step E r db = Inr db'"
  with Ask show ?thesis by (auto dest: transition_edge)
next
  case (Tick now)
  assume "life_step E r db = Inr db'"
  with Tick show ?thesis by (auto split: sum.splits dest: tick_Inr(2))
next
  case (Edit scope actor)
  assume "life_step E r db = Inr db'"
  with Edit show ?thesis
    by (auto simp: require_editable_def edit_policy_def Let_def lifecycle_edge_def split: sum.splits edit_verdict.splits if_splits
        intro!: r_into_rtranclp)
qed

interpretation life: status_graph "life_step E" "\<lambda>db. ev_status (db_event db)" lifecycle_edge for E
  by unfold_locales (rule life_step_path)


section \<open>Approval\<close>

definition past_approval :: "event_status list" where
  "past_approval = [APPROVED, SCHEDULED, OPEN, PAUSED, CLOSED, TALLYING, CERTIFIED, PUBLISHED]"

lemma tick_idle: "ev_status ev \<notin> {SCHEDULED, OPEN, PAUSED} \<Longrightarrow> tick E now ev db = Inr (ev, db)"
  by (simp add: tick_def Let_def)

lemma passing_actions: "list_all (\<lambda>a. \<forall>s\<in>set (la_sources a). s \<notin> set past_approval \<longrightarrow> la_target a \<in> set past_approval \<longrightarrow>
    a = act ''approve'' [REVIEW] APPROVED ''election.review'' (Some Guard_approve) (Some Effect_approve) True) actions"
  by (simp add: actions_def act_def past_approval_def)

lemma only_approve_passes:
  assumes "a \<in> set actions" and "s \<in> set (la_sources a)" and "s \<notin> set past_approval" and "la_target a \<in> set past_approval"
  shows "a = act ''approve'' [REVIEW] APPROVED ''election.review'' (Some Guard_approve) (Some Effect_approve) True"
  using passing_actions assms unfolding list_all_iff by blast

text \<open>The requests that lead past approval are approvals by a reviewer who did not submit.\<close>

definition approval :: "life_request \<times> election_db \<Rightarrow> bool" where
  "approval = (\<lambda>(r, s). case r of
       Ask now name actor reason \<Rightarrow>
         name = ''approve'' \<and> ev_status (db_event s) = REVIEW
         \<and> has_perm (db_tenancy s) actor ''election.review'' (Election (db_event s)) = Inr True
         \<and> (ev_dual_approval (db_event s) \<longrightarrow> actor = None \<or> ev_submitted_by (db_event s) \<noteq> map_option us_id actor)
     | _ \<Rightarrow> False)"

lemma step_past_approval:
  assumes "life_step E r s = Inr s'" and "ev_status (db_event s) \<notin> set past_approval"
    and "ev_status (db_event s') \<in> set past_approval"
  shows "approval (r, s)"
proof (cases r)
  case (Ask now name actor reason)
  then have t: "transition E now name actor reason False (\<lambda>ev. ev) False s = Inr s'" using assms(1) by simp
  obtain a db1 db2 n where a: "find_action name = Some a" "ev_status (db_event s) \<in> set (la_sources a)"
    "check_perm (db_tenancy s) actor (la_perm a) (Election (db_event s)) = Inr ()"
    "pass_guard E now actor a False s = Inr db1"
    using transition_Inr [OF t] by auto
  have "la_target a \<in> set past_approval" using transition_status [OF t] a(1) assms(3) by simp
  with a(2) find_action_in [OF a(1)] assms(2)
  have "a = act ''approve'' [REVIEW] APPROVED ''election.review'' (Some Guard_approve) (Some Effect_approve) True"
    by (intro only_approve_passes) auto
  moreover from this find_action_in [OF a(1)] have "name = ''approve''" by (simp add: act_def)
  ultimately show ?thesis using a(2-) Ask
    by (auto simp: approval_def act_def pass_guard_def check_perm_def split: sum.splits if_splits)
next
  case (Tick now)
  have "ev_status (db_event s) \<notin> {SCHEDULED, OPEN, PAUSED}" using assms(2) by (auto simp: past_approval_def)
  from tick_idle [OF this] Tick assms show ?thesis by simp
next
  case (Edit scope actor)
  with assms show ?thesis
    by (auto simp: require_editable_def past_approval_def split: sum.splits edit_verdict.splits)
qed

lemma run_needs_approval:
  assumes "run_attempts (life_step E) rs db = (hits, db')" and "ev_status (db_event db) = DRAFT"
    and "ev_status (db_event db') \<in> set past_approval"
  shows "\<exists>h\<in>set hits. approval h"
proof -
  have "ev_status (db_event db) \<notin> set past_approval" using assms(2) by (simp add: past_approval_def)
  from run_attempts_crossing [OF assms(1), of "\<lambda>s. ev_status (db_event s) \<in> set past_approval", OF this assms(3)]
  show ?thesis using step_past_approval by fastforce
qed

text \<open>
  C13: No election is ever open, counted or published without review: whatever requests are
  made from the draft on, one of them was an approval of the election in review by someone
  with the permission to review it, and, under dual approval, not by the person who
  submitted it.
\<close>

theorem voting_needs_approval:
  assumes "run_attempts (life_step E) rs db = (hits, db')" and "ev_status (db_event db) = DRAFT"
    and "ev_status (db_event db') \<in> set past_approval"
  shows "\<exists>h\<in>set hits. approval h"
  using assms by (rule run_needs_approval)

lemma run_attempts_split:
  "run_attempts f xs s = (hits, t) \<Longrightarrow> (x, s1) \<in> set hits \<Longrightarrow>
    \<exists>h1 h2 xs2 s2. hits = h1 @ (x, s1) # h2 \<and> f x s1 = Inr s2 \<and> run_attempts f xs2 s2 = (h2, t)"
proof (induction xs arbitrary: s hits)
  case (Cons y ys)
  show ?case
  proof (cases "f y s")
    case (Inl e)
    with Cons show ?thesis by simp
  next
    case (Inr s')
    then obtain d where d: "run_attempts f ys s' = (d, t)" and h: "hits = (y, s) # d"
      using Cons.prems(1) by (auto simp: case_prod_unfold Let_def prod_eq_iff)
    show ?thesis
    proof (cases "(x, s1) = (y, s)")
      case True
      with d h Inr show ?thesis by (intro exI [of _ "[]"] exI [of _ d] exI [of _ ys] exI [of _ s']) auto
    next
      case False
      with h Cons.prems(2) have "(x, s1) \<in> set d" by auto
      from Cons.IH [OF d this] show ?thesis unfolding h by (metis append_Cons)
    qed
  qed
qed simp

text \<open>
  What is voted on is what was approved: once the configuration, the ballot or the
  candidates of an institutional election are edited, the election gets past review again
  only by a new approval after the edit.
\<close>

theorem edits_need_new_approval:
  assumes "run_attempts (life_step E) rs db = (hits, db')" and "(Edit scope actor, s) \<in> set hits"
    and "scope \<in> {''config'', ''ballot'', ''candidates''}" and "is_institutional (db_event s)"
    and "ev_status (db_event db') \<in> set past_approval"
  shows "\<exists>before later. hits = before @ (Edit scope actor, s) # later \<and> (\<exists>h\<in>set later. approval h)"
proof -
  obtain h1 h2 rs2 s2 where h: "hits = h1 @ (Edit scope actor, s) # h2" "life_step E (Edit scope actor) s = Inr s2"
    "run_attempts (life_step E) rs2 s2 = (h2, db')"
    using run_attempts_split [OF assms(1,2)] by metis
  have "\<not> is_paid (db_event s)" using assms(4) by (simp add: is_institutional_def is_paid_def)
  moreover have "scope \<noteq> ''voters''" "scope \<noteq> ''candidate_profile''" using assms(3) by auto
  ultimately have "edit_policy (db_event s) scope = Edit_allowed \<Longrightarrow> ev_status (db_event s) = DRAFT"
    by (simp add: edit_policy_def split: if_splits)
  with h(2) have "ev_status (db_event s2) = DRAFT"
    by (auto simp: require_editable_def split: sum.splits edit_verdict.splits)
  from run_needs_approval [OF h(3) this assms(5)] h(1) show ?thesis by blast
qed

section \<open>The clock\<close>

lemma find_open: "find_action ''open'' =
    Some (act ''open'' [SCHEDULED] OPEN ''election.publish'' (Some Guard_open) (Some Effect_open) True)"
  by (simp add: find_action_def actions_def first_where_def act_def)

lemma find_close: "find_action ''close'' =
    Some (act ''close'' [OPEN, PAUSED] CLOSED ''election.close'' None (Some Effect_close) True)"
  by (simp add: find_action_def actions_def first_where_def act_def)

lemma find_reopen: "find_action ''reopen_voting'' =
    Some (act ''reopen_voting'' [CLOSED] OPEN ''election.close'' None (Some Effect_open) False)"
  by (simp add: find_action_def actions_def first_where_def act_def)

lemma find_certify: "find_action ''certify'' =
    Some (act ''certify'' [TALLYING] CERTIFIED ''results.certify'' None None False)"
  by (simp add: find_action_def actions_def first_where_def act_def)

lemma open_event_times: "ev_end (open_event now ev) = ev_end ev" "ev_status (open_event now ev) = ev_status ev"
  by (simp_all add: open_event_def Let_def)

lemma system_open:
  assumes "ev_status (db_event db) = SCHEDULED" and "db_key db \<noteq> None \<or> \<not> is_institutional (db_event db)"
  shows "\<exists>db'. system_transition E now ''open'' reason (ev_end (db_event db) \<le> now) db = Inr db'
    \<and> ev_status (db_event db') = OPEN \<and> ev_end (db_event db') = ev_end (db_event db)"
  using assms
  by (auto simp: transition_def find_open act_def pass_guard_def apply_effect_def Let_def open_event_times)

lemma system_close:
  assumes "ev_status (db_event db) \<in> {OPEN, PAUSED}"
  shows "\<exists>db'. system_transition E now ''close'' reason False db = Inr db' \<and> ev_status (db_event db') = CLOSED"
  using assms by (auto simp: transition_def find_close act_def pass_guard_def apply_effect_def Let_def close_event_def)

text \<open>
  C14: The clock is obeyed: a tick of an election that has its key always succeeds, and
  afterwards the election is not waiting past its start nor accepting ballots past its end,
  even when the scheduler missed the whole voting period.
\<close>

theorem tick_on_time:
  assumes "db_key db \<noteq> None \<or> \<not> is_institutional (db_event db)"
  shows "\<exists>db'. tick E now (db_event db) db = Inr (db_event db', db')
    \<and> \<not> (ev_status (db_event db') = SCHEDULED \<and> ev_start (db_event db') \<le> now)
    \<and> \<not> (ev_status (db_event db') \<in> {OPEN, PAUSED} \<and> ev_end (db_event db') \<le> now)"
proof -
  let ?r1 = "''Automatic opening at start time''" and ?r2 = "''Automatic closing at end time''"
  show ?thesis
  proof (cases "ev_status (db_event db) = SCHEDULED \<and> ev_start (db_event db) \<le> now")
    case True
    obtain db1 where d1: "system_transition E now ''open'' ?r1 (ev_end (db_event db) \<le> now) db = Inr db1"
      "ev_status (db_event db1) = OPEN" "ev_end (db_event db1) = ev_end (db_event db)"
      using system_open [OF conjunct1 [OF True] assms] by blast
    show ?thesis
    proof (cases "ev_end (db_event db1) \<le> now")
      case late: True
      obtain db2 where "system_transition E now ''close'' ?r2 False db1 = Inr db2" "ev_status (db_event db2) = CLOSED"
        using system_close [of db1 E now ?r2] d1(2) by blast
      with True d1 late show ?thesis by (intro exI [of _ db2]) (simp add: tick_def)
    next
      case False
      with True d1 show ?thesis by (intro exI [of _ db1]) (simp add: tick_def)
    qed
  next
    case waiting: False
    show ?thesis
    proof (cases "ev_status (db_event db) \<in> {OPEN, PAUSED} \<and> ev_end (db_event db) \<le> now")
      case True
      obtain db2 where "system_transition E now ''close'' ?r2 False db = Inr db2" "ev_status (db_event db2) = CLOSED"
        using system_close [of db E now ?r2] True by blast
      with True waiting show ?thesis by (intro exI [of _ db2]) (auto simp: tick_def)
    next
      case False
      with waiting show ?thesis by (intro exI [of _ db]) (auto simp: tick_def)
    qed
  qed
qed

section \<open>Actions that are not manual\<close>

text \<open>
  Dual control can be bypassed: \<open>transition\<close> does not look at \<open>manual\<close>, so a user with
  the permission to close an election re-opens closed voting, and one with the permission
  to certify certifies without any result, signature or approval request.
\<close>

theorem manual_not_enforced:
  assumes "(name, perm, from_status, to_status) \<in>
      {(''reopen_voting'', ''election.close'', CLOSED, OPEN), (''certify'', ''results.certify'', TALLYING, CERTIFIED)}"
    and "ev_status (db_event db) = from_status"
    and "has_perm (db_tenancy db) actor perm (Election (db_event db)) = Inr True"
  shows "\<exists>db'. transition E now name actor reason False (\<lambda>ev. ev) False db = Inr db'
    \<and> ev_status (db_event db') = to_status \<and> db_requests db' = db_requests db
    \<and> db_certifications db' = db_certifications db \<and> db_results db' = db_results db"
  using assms
  by (auto simp: transition_def find_reopen find_certify act_def check_perm_def pass_guard_def
      apply_effect_def Let_def open_event_times)

section \<open>Witnesses\<close>

definition draft_db :: election_db where
  "draft_db = update_event (\<lambda>ev. ev\<lparr>ev_status := DRAFT, ev_dual_approval := False\<rparr>) ex_db"

definition ex_requests :: "life_request list" where
  "ex_requests = [Edit ''ballot'' (Some ex_operator), Ask 5 ''submit'' (Some ex_operator) [], Ask 6 ''approve'' (Some ex_operator) []]"

lemma find_submit: "find_action ''submit'' =
    Some (act ''submit'' [DRAFT] REVIEW ''election.submit'' (Some Guard_submit) (Some Effect_submit) True)"
  by (simp add: find_action_def actions_def first_where_def act_def)

lemma find_approve: "find_action ''approve'' =
    Some (act ''approve'' [REVIEW] APPROVED ''election.review'' (Some Guard_approve) (Some Effect_approve) True)"
  by (simp add: find_action_def actions_def first_where_def act_def)

lemma operator_may: "p \<in> set permissions \<Longrightarrow> check_perm tn (Some ex_operator) p obj = Inr ()"
  by (simp add: check_perm_def has_perm_def user_permissions_def is_platform_admin_def ex_operator_def)

lemma draft_ok: "configuration_problems (db_election draft_db) = []"
  by (simp add: draft_db_def ex_db_def update_event_def configuration_problems_def ex_defs position_problems_def
      active_candidates_def candidates_of_def effective_limits_def is_referendum_def counts_marks_def is_institutional_def Let_def)

lemma run_three: "f a s = Inr s1 \<Longrightarrow> f b s1 = Inr s2 \<Longrightarrow> f c s2 = Inr s3 \<Longrightarrow>
    run_attempts f [a, b, c] s = ([(a, s), (b, s1), (c, s2)], s3)"
  by simp

lemma ex_run: "\<exists>db'. run_attempts (life_step ex_env) ex_requests draft_db
      = ([(ex_requests ! 0, draft_db), (ex_requests ! 1, draft_db), (ex_requests ! 2, submitted_db)], db')
    \<and> ev_status (db_event db') = APPROVED"
  if "submitted_db = (case life_step ex_env (ex_requests ! 1) draft_db of Inr db \<Rightarrow> db)"
proof -
  have draft: "ev_status (db_event draft_db) = DRAFT" "\<not> ev_dual_approval (db_event draft_db)"
    "edit_policy (db_event draft_db) ''ballot'' = Edit_allowed"
    by (simp_all add: draft_db_def ex_db_def ex_defs edit_policy_def locked_states_def frozen_flag_def)
  have one: "life_step ex_env (ex_requests ! 0) draft_db = Inr draft_db"
    using draft by (simp add: ex_requests_def require_editable_def)
  have "ex_requests ! 1 = Ask 5 ''submit'' (Some ex_operator) []" by (simp add: ex_requests_def)
  then have two: "life_step ex_env (ex_requests ! 1) draft_db = Inr submitted_db
      \<and> ev_status (db_event submitted_db) = REVIEW \<and> \<not> ev_dual_approval (db_event submitted_db)"
    using draft that by (simp add: transition_def find_submit act_def operator_may pass_guard_def draft_ok
        apply_effect_def Let_def permissions_def)
  obtain db1 where "snapshot_configuration ex_env (Some ex_operator) ''APPROVED''
      (update_event (\<lambda>ev. ev\<lparr>ev_reviewed_by := Some (us_id ex_operator)\<rparr>)
        (update_event (\<lambda>ev. ev\<lparr>ev_status := APPROVED\<rparr>) submitted_db)) = Inr db1"
    using ex_snapshot by blast
  moreover from this have "ev_status (db_event db1) = APPROVED" by (auto dest: snapshot_fields(2))
  moreover have "ex_requests ! 2 = Ask 6 ''approve'' (Some ex_operator) []" by (simp add: ex_requests_def)
  ultimately have "\<exists>db'. life_step ex_env (ex_requests ! 2) submitted_db = Inr db' \<and> ev_status (db_event db') = APPROVED"
    using two by (simp add: transition_def find_approve act_def operator_may pass_guard_def apply_effect_def Let_def permissions_def)
  moreover have "ex_requests = [ex_requests ! 0, ex_requests ! 1, ex_requests ! 2]" by (simp add: ex_requests_def)
  ultimately show ?thesis using one two by (metis (no_types, lifting) run_three)
qed

theorem voting_needs_approval_witness:
  "\<exists>hits db'. run_attempts (life_step ex_env) ex_requests draft_db = (hits, db') \<and> (\<exists>h\<in>set hits. approval h)"
proof -
  obtain hits db' where r: "run_attempts (life_step ex_env) ex_requests draft_db = (hits, db')"
    "ev_status (db_event db') = APPROVED" using ex_run by blast
  have "ev_status (db_event draft_db) = DRAFT" by (simp add: draft_db_def)
  from voting_needs_approval [OF r(1) this] r show ?thesis by (auto simp: past_approval_def)
qed

theorem edits_need_new_approval_witness:
  "\<exists>before later. (\<exists>h\<in>set later. approval h) \<and>
    fst (run_attempts (life_step ex_env) ex_requests draft_db) = before @ (Edit ''ballot'' (Some ex_operator), draft_db) # later"
proof -
  obtain s db' where r: "run_attempts (life_step ex_env) ex_requests draft_db
      = ([(ex_requests ! 0, draft_db), (ex_requests ! 1, draft_db), (ex_requests ! 2, s)], db')"
    "ev_status (db_event db') = APPROVED" using ex_run by blast
  have "is_institutional (db_event draft_db)" by (simp add: draft_db_def ex_db_def ex_defs is_institutional_def)
  with edits_need_new_approval [OF r(1), of "''ballot''" "Some ex_operator" draft_db] r show ?thesis
    by (auto simp: past_approval_def ex_requests_def)
qed

theorem tick_on_time_witness:
  "\<exists>db'. tick ex_env 50 (db_event (update_event (\<lambda>ev. ev\<lparr>ev_mode := PAY_TO_VOTE\<rparr>) ex_db))
      (update_event (\<lambda>ev. ev\<lparr>ev_mode := PAY_TO_VOTE\<rparr>) ex_db) = Inr (db_event db', db')
    \<and> \<not> (ev_status (db_event db') \<in> {OPEN, PAUSED} \<and> ev_end (db_event db') \<le> 50)"
  using tick_on_time [of "update_event (\<lambda>ev. ev\<lparr>ev_mode := PAY_TO_VOTE\<rparr>) ex_db" ex_env 50]
  by (auto simp: is_institutional_def)

theorem manual_not_enforced_witness:
  "\<exists>db'. transition ex_env 5 ''reopen_voting'' (Some ex_operator) [] False (\<lambda>ev. ev) False
      (update_event (\<lambda>ev. ev\<lparr>ev_status := CLOSED\<rparr>) ex_db) = Inr db' \<and> ev_status (db_event db') = OPEN \<and> db_requests db' = []"
  using manual_not_enforced [of "''reopen_voting''" "''election.close''" CLOSED OPEN
      "update_event (\<lambda>ev. ev\<lparr>ev_status := CLOSED\<rparr>) ex_db" "Some ex_operator" ex_env 5 "[]"]
  by (simp add: has_perm_def user_permissions_def is_platform_admin_def ex_operator_def permissions_def)
    (auto simp: ex_db_def)

end
