(* ===== verification/Casting.thy ===== *)
theory Casting
  imports Election_Db Contracts
begin

text \<open>
  elections/casting.py: a voter is issued an authorization bound to a random token of which
  only a hash is stored; whoever presents the token casts one ballot, which is validated,
  encrypted to the election key and stored without voter, authorization or time.

  The random values (token; padding, ephemeral key, nonce and id of the ballot row) are
  arguments. A unique constraint of the database that would be violated is the error
  \<open>Integrity\<close>. Times are microseconds.
\<close>

datatype cast_error =
    Paused
  | Not_open_yet
  | Voting_closed
  | Already_voted
  | Ineligible "ineligibility list"
  | No_positions_for_voter
  | Invalid_token
  | Token_expired
  | Record_cannot_vote
  | Invalid_ballot ballot_error
  | No_key
  | Seal_failed key_error
  | No_such_voter
  | Integrity

definition authorization_ttl :: int where
  "authorization_ttl = 30 * 60 * 1000000"

definition token_hash :: "env \<Rightarrow> string \<Rightarrow> string" where
  "token_hash E token = keyed_hash (en_crypto E) (en_config E) ''ballot-token'' token"

definition style_hash :: "env \<Rightarrow> event \<Rightarrow> int list \<Rightarrow> string" where
  "style_hash E ev style =
     sha256_hex (en_crypto E) (canonical_json (float_repr (en_crypto E))
       (JObj [(''election'', JInt (ev_id ev)), (''positions'', JList (map JInt (sort style)))]))"

definition ensure_accepting :: "int \<Rightarrow> event \<Rightarrow> cast_error + unit" where
  "ensure_accepting now ev =
     (if accepting_votes now ev then Inr ()
      else if ev_status ev = PAUSED then Inl Paused
      else if ev_status ev \<in> {SCHEDULED, APPROVED} \<or> now < ev_start ev then Inl Not_open_yet
      else Inl Voting_closed)"

section \<open>Authorizing a voter\<close>

definition issue_authorization ::
  "env \<Rightarrow> (json \<Rightarrow> string) \<Rightarrow> int \<Rightarrow> string \<Rightarrow> int \<Rightarrow> string \<Rightarrow> election_db \<Rightarrow> cast_error + string \<times> election_db" where
  "issue_authorization E text now token voter_id method db =
     (case ensure_accepting now (db_event db) of
        Inl e \<Rightarrow> Inl e
      | Inr _ \<Rightarrow>
          (case first_where (\<lambda>v. vo_id v = voter_id) (db_voters db) of
             None \<Rightarrow> Inl No_such_voter
           | Some v \<Rightarrow>
               if vo_status v = VOTED then Inl Already_voted
               else
                 let (ok, reasons) = election_eligibility text (db_election db) v;
                     style = ballot_style text (db_election db) v; h = token_hash E token
                 in if \<not> ok then Inl (Ineligible reasons)
                    else if style = [] then Inl No_positions_for_voter
                    else if exists_where (\<lambda>a. va_token_hash a = h) (db_authorizations db) then Inl Integrity
                    else
                      let a = \<lparr>va_id = next_pk va_id (db_authorizations db), va_election = ev_id (db_event db),
                               va_voter = voter_id, va_token_hash = h, va_status = ISSUED, va_method = method,
                               va_style = style, va_issued = now,
                               va_expires = min (now + authorization_ttl) (ev_end (db_event db)), va_consumed = None\<rparr>
                      in Inr (token, log_note (note_about ''VOTER_BALLOT_ISSUED'' None (voter_target v) db)
                           (db\<lparr>db_authorizations :=
                              update_where (\<lambda>x. va_voter x = voter_id \<and> va_status x = ISSUED)
                                (\<lambda>x. x\<lparr>va_status := REVOKED\<rparr>) (db_authorizations db) @ [a]\<rparr>))))"

definition authorization_for :: "env \<Rightarrow> string \<Rightarrow> election_db \<Rightarrow> authorization option" where
  "authorization_for E token db =
     (if token = [] then None
      else first_where (\<lambda>a. va_token_hash a = token_hash E token) (db_authorizations db))"

section \<open>Casting\<close>

fun choice_json :: "choice \<Rightarrow> json" where
  "choice_json None = JNull"
| "choice_json (Some (Marks ids)) = JList (map JInt ids)"
| "choice_json (Some (Scores kvs)) = JObj (map (\<lambda>(k, x). (k, JInt x)) kvs)"
| "choice_json (Some (Answer a)) = JStr a"

definition ballot_plaintext :: "event \<Rightarrow> int list \<Rightarrow> (string \<times> choice) list \<Rightarrow> string \<Rightarrow> json" where
  "ballot_plaintext ev style sels padding = JObj
     [(''v'', JInt 1), (''election'', JInt (ev_id ev)), (''style'', JList (map JInt (sort style))),
      (''selections'', JObj (map (\<lambda>(k, c). (k, choice_json c)) sels)), (''nonce'', JStr padding)]"

definition ballot_aad :: "event \<Rightarrow> string \<Rightarrow> string" where
  "ballot_aad ev s_hash = str_int (ev_id ev) @ CHR '':'' # s_hash"

record ballot_random =
  br_padding :: string
  br_seal :: "string \<times> string"
  br_id :: string

record receipt =
  rc_tracker :: string
  rc_cast_at :: int
  rc_election :: string
  rc_positions :: nat

text \<open>The row that is stored for the selections of a ballot.\<close>

definition seal_ballot ::
  "env \<Rightarrow> ballot_random \<Rightarrow> event \<Rightarrow> election_key \<Rightarrow> int list \<Rightarrow> (string \<times> choice) list \<Rightarrow> int option \<Rightarrow> key_error + ballot" where
  "seal_ballot E r ev key style sels constituency_id =
     (let s_hash = style_hash E ev style;
          plaintext = canonical_json (float_repr (en_crypto E)) (ballot_plaintext ev style sels (br_padding r))
      in case seal (en_crypto E) (br_seal r) (ek_public key) plaintext (ballot_aad ev s_hash) of
           Inl e \<Rightarrow> Inl e
         | Inr ct \<Rightarrow>
             Inr \<lparr>ba_id = br_id r, ba_election = ev_id ev, ba_ciphertext = ct,
                  ba_tracker = sha256_hex (en_crypto E) ct, ba_style_hash = s_hash,
                  ba_constituency = (if ev_record_constituency ev then constituency_id else None)\<rparr>)"

definition mark_voted :: "int \<Rightarrow> authorization \<Rightarrow> voter \<Rightarrow> election_db \<Rightarrow> election_db" where
  "mark_voted now a v db =
     log_note (note_about ''VOTER_VOTED'' None (voter_target v) db)
       (update_voters (update_where (\<lambda>x. vo_id x = vo_id v)
          (\<lambda>x. x\<lparr>vo_status := VOTED, vo_voted_at := Some now, vo_credential_text := None\<rparr>))
         (db\<lparr>db_authorizations := update_where (\<lambda>x. va_id x = va_id a)
            (\<lambda>x. x\<lparr>va_status := CONSUMED, va_consumed := Some now\<rparr>) (db_authorizations db)\<rparr>))"

text \<open>What is checked before a ballot is accepted: the authorization, the election, the voter.\<close>

definition admit :: "env \<Rightarrow> int \<Rightarrow> string \<Rightarrow> election_db \<Rightarrow> cast_error + authorization \<times> voter" where
  "admit E now token db =
     (case first_where (\<lambda>a. va_token_hash a = token_hash E token \<and> va_election a = ev_id (db_event db))
             (db_authorizations db) of
        None \<Rightarrow> Inl Invalid_token
      | Some a \<Rightarrow>
          if va_status a = CONSUMED then Inl Already_voted
          else if va_status a \<noteq> ISSUED \<or> va_expires a \<le> now then Inl Token_expired
          else (case ensure_accepting now (db_event db) of
            Inl e \<Rightarrow> Inl e
          | Inr _ \<Rightarrow>
              (case first_where (\<lambda>v. vo_id v = va_voter a) (db_voters db) of
                 None \<Rightarrow> Inl No_such_voter
               | Some v \<Rightarrow>
                   if vo_status v = VOTED then Inl Already_voted
                   else if \<not> can_vote v then Inl Record_cannot_vote
                   else Inr (a, v))))"

definition cast_ballot ::
  "env \<Rightarrow> int \<Rightarrow> ballot_random \<Rightarrow> string \<Rightarrow> json \<Rightarrow> election_db \<Rightarrow> cast_error + receipt \<times> election_db" where
  "cast_ballot E now r token payload db =
     (case admit E now token db of
        Inl e \<Rightarrow> Inl e
      | Inr (a, v) \<Rightarrow>
          (case validate_ballot (db_election db) (va_style a) payload of
             Inl e \<Rightarrow> Inl (Invalid_ballot e)
           | Inr sels \<Rightarrow>
               (case db_key db of
                  None \<Rightarrow> Inl No_key
                | Some key \<Rightarrow>
                    (case seal_ballot E r (db_event db) key (va_style a) sels (map_option co_id (vo_constituency v)) of
                       Inl e \<Rightarrow> Inl (Seal_failed e)
                     | Inr b \<Rightarrow>
                         if exists_where (\<lambda>x. ba_tracker x = ba_tracker b \<or> ba_id x = ba_id b) (db_ballots db)
                            \<or> exists_where (\<lambda>x. va_voter x = va_voter a \<and> va_status x = CONSUMED) (db_authorizations db)
                         then Inl Integrity
                         else Inr (\<lparr>rc_tracker = ba_tracker b, rc_cast_at = now, rc_election = ev_title (db_event db),
                                    rc_positions = length (va_style a)\<rparr>,
                                queue_task (Send_vote_confirmation (ev_id (db_event db)) (vo_id v))
                                  (mark_voted now a v (db\<lparr>db_ballots := db_ballots db @ [b]\<rparr>)))))))"

section \<open>The form\<close>

text \<open>A submitted form: field names with their values, in order; \<open>post.get\<close> is the last value.\<close>

type_synonym form = "(string \<times> string list) list"

definition post_get :: "form \<Rightarrow> string \<Rightarrow> string option" where
  "post_get post name = (case map_of post name of Some (x # xs) \<Rightarrow> Some (last (x # xs)) | _ \<Rightarrow> None)"

definition post_getlist :: "form \<Rightarrow> string \<Rightarrow> string list" where
  "post_getlist post name = (case map_of post name of Some xs \<Rightarrow> xs | None \<Rightarrow> [])"

definition position_key :: "position \<Rightarrow> string" where
  "position_key p = ''pos_'' @ str_int (pos_id p)"

text \<open>The fields of one position with a given infix, with the candidate at the end of their name.\<close>

definition fields_with :: "form \<Rightarrow> string \<Rightarrow> (string \<times> string) list" where
  "fields_with post stem =
     List.map_filter (\<lambda>(name, xs).
        if starts_with stem name \<and> xs \<noteq> [] \<and> last xs \<noteq> [] then Some (after_last (CHR ''_'') name, last xs) else None) post"

fun read_ranks :: "(string \<times> string) list \<Rightarrow> (int \<times> string) list option" where
  "read_ranks [] = Some []"
| "read_ranks ((c, x) # rest) =
     (case (parse_int x, read_ranks rest) of (Some i, Some rs) \<Rightarrow> Some ((i, c) # rs) | _ \<Rightarrow> None)"

datatype form_error = Invalid_rank int | Ranks_with_gaps int

definition field_payload :: "form \<Rightarrow> position \<Rightarrow> form_error + json" where
  "field_payload post p =
     (let key = position_key p in
      if post_get post (key @ ''_abstain'') = Some ''on'' then Inr JNull
      else if pos_type p = SCORE then
        Inr (JObj (foldl (\<lambda>acc (c, x). js_put c (JStr x) acc) [] (fields_with post (key @ ''_score_''))))
      else if pos_type p = RANKED then
        (case read_ranks (fields_with post (key @ ''_rank_'')) of
           None \<Rightarrow> Inl (Invalid_rank (pos_id p))
         | Some ranks \<Rightarrow>
             let sorted_ranks = sort ranks; numbers = map fst sorted_ranks
             in if numbers \<noteq> [1..int (length numbers)] then Inl (Ranks_with_gaps (pos_id p))
                else Inr (JList (map (JStr \<circ> snd) sorted_ranks)))
      else if pos_type p = REFERENDUM then
        Inr (JStr (case post_get post key of Some x \<Rightarrow> x | None \<Rightarrow> ''''))
      else Inr (JList (map JStr (post_getlist post key))))"

fun post_payload :: "form \<Rightarrow> position list \<Rightarrow> (string \<times> json) list \<Rightarrow> form_error + (string \<times> json) list" where
  "post_payload post [] acc = Inr acc"
| "post_payload post (p # ps) acc =
     (case field_payload post p of
        Inl e \<Rightarrow> Inl e
      | Inr j \<Rightarrow> post_payload post ps (js_put (str_int (pos_id p)) j acc))"

definition selections_from_post :: "election \<Rightarrow> int list \<Rightarrow> form \<Rightarrow> form_error + json" where
  "selections_from_post el style post =
     (case post_payload post (style_positions el style) [] of Inl e \<Rightarrow> Inl e | Inr kvs \<Rightarrow> Inr (JObj kvs))"

end
