(* ===== verification/Casting_Props.thy ===== *)
theory Casting_Props
  imports Casting Lifecycle_Props
begin

text \<open>
  One ballot per voter, over any sequence of authorizations, casts and lifecycle requests;
  as many ballots as voters who voted; and secrecy: what is stored about a voter does not
  depend on the choices, and the stored ballot does not depend on the voter.
\<close>

section \<open>A day of voting\<close>

datatype vote_request =
    Issue int string int string
  | Cast int ballot_random string json
  | Life life_request

datatype vote_error = Cast_failed cast_error | Life_failed lifecycle_error

fun vote_step :: "env \<Rightarrow> (json \<Rightarrow> string) \<Rightarrow> vote_request \<Rightarrow> election_db \<Rightarrow> vote_error + election_db" where
  "vote_step E shown (Issue now token voter how) db =
     (case issue_authorization E shown now token voter how db of
        Inl e \<Rightarrow> Inl (Cast_failed e) | Inr (_, db') \<Rightarrow> Inr db')"
| "vote_step E shown (Cast now r token payload) db =
     (case cast_ballot E now r token payload db of Inl e \<Rightarrow> Inl (Cast_failed e) | Inr (_, db') \<Rightarrow> Inr db')"
| "vote_step E shown (Life q) db = (case life_step E q db of Inl e \<Rightarrow> Inl (Life_failed e) | Inr db' \<Rightarrow> Inr db')"

text \<open>The voter whose ballot a request casts.\<close>

fun voter_of :: "env \<Rightarrow> vote_request \<Rightarrow> election_db \<Rightarrow> int option" where
  "voter_of E (Cast now r token payload) db =
     map_option va_voter (first_where (\<lambda>a. va_token_hash a = token_hash E token \<and> va_election a = ev_id (db_event db))
       (db_authorizations db))"
| "voter_of E _ db = None"

definition has_voted :: "int \<Rightarrow> election_db \<Rightarrow> bool" where
  "has_voted i db \<longleftrightarrow> exists_where (\<lambda>v. vo_id v = i \<and> vo_status v = VOTED) (db_voters db)"

definition roll_ok :: "election_db \<Rightarrow> bool" where
  "roll_ok db \<longleftrightarrow> distinct (map vo_id (db_voters db))"

section \<open>What the requests change\<close>

lemma admit_Inr:
  assumes "admit E now token db = Inr (a, v)"
  shows "first_where (\<lambda>a. va_token_hash a = token_hash E token \<and> va_election a = ev_id (db_event db)) (db_authorizations db) = Some a"
    "va_status a = ISSUED" "now < va_expires a" "accepting_votes now (db_event db)"
    "first_where (\<lambda>v. vo_id v = va_voter a) (db_voters db) = Some v" "vo_status v \<noteq> VOTED" "can_vote v"
  using assms by (auto simp: admit_def ensure_accepting_def split: option.splits if_splits sum.splits)

lemma cast_Inr:
  assumes "cast_ballot E now r token payload db = Inr (rc, db')"
  shows "\<exists>a v sels key b. admit E now token db = Inr (a, v)
    \<and> validate_ballot (db_election db) (va_style a) payload = Inr sels \<and> db_key db = Some key
    \<and> seal_ballot E r (db_event db) key (va_style a) sels (map_option co_id (vo_constituency v)) = Inr b
    \<and> rc = \<lparr>rc_tracker = ba_tracker b, rc_cast_at = now, rc_election = ev_title (db_event db), rc_positions = length (va_style a)\<rparr>
    \<and> db' = queue_task (Send_vote_confirmation (ev_id (db_event db)) (vo_id v))
         (mark_voted now a v (db\<lparr>db_ballots := db_ballots db @ [b]\<rparr>))"
  using assms unfolding cast_ballot_def by (auto split: sum.splits option.splits if_splits)

lemma mark_voted_simps [simp]:
  "db_voters (mark_voted now a v db) = update_where (\<lambda>x. vo_id x = vo_id v)
     (\<lambda>x. x\<lparr>vo_status := VOTED, vo_voted_at := Some now, vo_credential_text := None\<rparr>) (db_voters db)"
  "db_ballots (mark_voted now a v db) = db_ballots db" "db_event (mark_voted now a v db) = db_event db"
  "db_authorizations (mark_voted now a v db) = update_where (\<lambda>x. va_id x = va_id a)
     (\<lambda>x. x\<lparr>va_status := CONSUMED, va_consumed := Some now\<rparr>) (db_authorizations db)"
  by (simp_all add: mark_voted_def)

lemma issue_keeps:
  "issue_authorization E shown now token i how db = Inr (t, db') \<Longrightarrow>
    db_voters db' = db_voters db \<and> db_ballots db' = db_ballots db \<and> db_event db' = db_event db"
  by (auto simp: issue_authorization_def Let_def split: sum.splits option.splits if_splits prod.splits)

lemma transition_keeps_roll:
  "transition E now key actor reason system extra skip db = Inr db' \<Longrightarrow>
    db_voters db' = db_voters db \<and> db_ballots db' = db_ballots db"
  by (simp add: transition_keeps(1,3))

lemma tick_keeps:
  assumes "tick E now ev db = Inr (ev', db')"
  shows "db_voters db' = db_voters db \<and> db_ballots db' = db_ballots db"
  using assms by (auto simp: tick_def Let_def split: if_splits sum.splits dest!: transition_keeps_roll)

lemma life_keeps: "life_step E q db = Inr db' \<Longrightarrow> db_voters db' = db_voters db \<and> db_ballots db' = db_ballots db"
  by (cases q) (auto simp: require_editable_def split: sum.splits edit_verdict.splits dest: transition_keeps(1,3) tick_keeps)

lemma cast_voter:
  assumes "cast_ballot E now r token payload db = Inr (rc, db')"
  obtains v b where "voter_of E (Cast now r token payload) db = Some (vo_id v)" "v \<in> set (db_voters db)" "vo_status v \<noteq> VOTED"
    "db_voters db' = update_where (\<lambda>x. vo_id x = vo_id v)
       (\<lambda>x. x\<lparr>vo_status := VOTED, vo_voted_at := Some now, vo_credential_text := None\<rparr>) (db_voters db)"
    "db_ballots db' = db_ballots db @ [b]"
proof -
  from cast_Inr [OF assms] obtain a v b where a: "admit E now token db = Inr (a, v)"
    and db': "db' = queue_task (Send_vote_confirmation (ev_id (db_event db)) (vo_id v))
         (mark_voted now a v (db\<lparr>db_ballots := db_ballots db @ [b]\<rparr>))" by blast
  note * = admit_Inr [OF a] first_where_Some [OF admit_Inr(5) [OF a]]
  from * db' that [of v b] show ?thesis by simp
qed

section \<open>One ballot per voter\<close>

lemma exists_where_update:
  assumes "exists_where P rows" and "\<And>r. P r \<Longrightarrow> P (f r)"
  shows "exists_where P (update_where Q f rows)"
proof -
  from assms(1) obtain r where "r \<in> set rows" "P r" by auto
  with assms(2) have "(if Q r then f r else r) \<in> set (update_where Q f rows)" "P (if Q r then f r else r)"
    by (auto simp: in_update_where)
  then show ?thesis by auto
qed

interpretation votes: once_only "vote_step E shown" "voter_of E" roll_ok has_voted for E shown
proof
  fix db db' x k
  assume good: "roll_ok db" and step: "vote_step E shown x db = Inr db'"
  have voted: "roll_ok db' \<and> (has_voted i db \<longrightarrow> has_voted i db')
      \<and> (\<forall>k. voter_of E x db = Some k \<longrightarrow> \<not> has_voted k db \<and> has_voted k db')" for i
  proof (cases x)
    case (Issue now token voter how)
    with step have "db_voters db' = db_voters db" by (auto dest: issue_keeps split: sum.splits)
    with Issue good show ?thesis by (simp add: roll_ok_def has_voted_def)
  next
    case (Life q)
    with step have "db_voters db' = db_voters db" by (auto dest: life_keeps split: sum.splits)
    with Life good show ?thesis by (simp add: roll_ok_def has_voted_def)
  next
    case (Cast now r token payload)
    with step obtain rc where "cast_ballot E now r token payload db = Inr (rc, db')" by (auto split: sum.splits)
    then obtain v where v: "voter_of E x db = Some (vo_id v)" "v \<in> set (db_voters db)" "vo_status v \<noteq> VOTED"
      "db_voters db' = update_where (\<lambda>x. vo_id x = vo_id v)
         (\<lambda>x. x\<lparr>vo_status := VOTED, vo_voted_at := Some now, vo_credential_text := None\<rparr>) (db_voters db)"
      using cast_voter Cast by metis
    have "\<not> has_voted (vo_id v) db"
      using good v(2,3) unfolding has_voted_def roll_ok_def by (auto simp: distinct_map dest: inj_onD)
    moreover have "v\<lparr>vo_status := VOTED, vo_voted_at := Some now, vo_credential_text := None\<rparr> \<in> set (db_voters db')"
      unfolding v(4) in_update_where using v(2) by (intro bexI [of _ v]) simp_all
    then have "has_voted (vo_id v) db'" unfolding has_voted_def exists_where_iff by (intro bexI) simp_all
    moreover have "roll_ok db'" using good v(4) by (simp add: roll_ok_def map_update_where)
    moreover have "has_voted i db'" if "has_voted i db"
      using that unfolding has_voted_def v(4) by (rule exists_where_update) simp
    ultimately show ?thesis using v(1) by simp
  qed
  from voted show "roll_ok db'" by blast
  from voted show "voter_of E x db = Some k \<Longrightarrow> \<not> has_voted k db" by blast
  from voted show "voter_of E x db = Some k \<Longrightarrow> has_voted k db'" by blast
  from voted show "has_voted k db \<Longrightarrow> has_voted k db'" by blast
qed

text \<open>
  One voter, one ballot: whatever authorizations, ballots and lifecycle requests are
  sent, and however often tokens are replayed or reissued, no voter casts two ballots, and
  no voter who had voted casts another.
\<close>

theorem one_ballot_per_voter:
  assumes "run_attempts (vote_step E shown) xs db = (hits, db')" and "distinct (map vo_id (db_voters db))"
  shows "distinct (List.map_filter (\<lambda>(x, s). voter_of E x s) hits)
    \<and> (has_voted i db \<longrightarrow> i \<notin> set (List.map_filter (\<lambda>(x, s). voter_of E x s) hits) \<and> has_voted i db')"
  using votes.run_once [of db E shown xs hits db'] votes.run_spent [of db i E shown xs hits db'] assms
  by (auto simp: roll_ok_def votes.spent_by_def)

section \<open>As many ballots as votes\<close>

lemma count_voted_step:
  assumes "roll_ok db" and "vote_step E shown x db = Inr db'"
  shows "length (db_ballots db') + count_where (\<lambda>v. vo_status v = VOTED) (db_voters db)
    = length (db_ballots db) + count_where (\<lambda>v. vo_status v = VOTED) (db_voters db')"
proof (cases x)
  case (Issue now token voter how)
  with assms(2) show ?thesis by (auto dest: issue_keeps split: sum.splits)
next
  case (Life q)
  with assms(2) show ?thesis by (auto dest: life_keeps split: sum.splits)
next
  case (Cast now r token payload)
  with assms(2) obtain rc where "cast_ballot E now r token payload db = Inr (rc, db')" by (auto split: sum.splits)
  then obtain v b where v: "v \<in> set (db_voters db)" "vo_status v \<noteq> VOTED"
    "db_voters db' = update_where (\<lambda>x. vo_id x = vo_id v)
       (\<lambda>x. x\<lparr>vo_status := VOTED, vo_voted_at := Some now, vo_credential_text := None\<rparr>) (db_voters db)"
    "db_ballots db' = db_ballots db @ [b]"
    using cast_voter by metis
  have "count_where (\<lambda>v. vo_status v = VOTED) (db_voters db') = Suc (count_where (\<lambda>v. vo_status v = VOTED) (db_voters db))"
    unfolding v(3) using assms(1) v(1,2) by (intro count_where_flag_one) (simp_all add: roll_ok_def)
  with v(4) show ?thesis by simp
qed

text \<open>
  The ballot box matches the roll: at any time the number of ballots cast since the
  roll was clean equals the number of voters marked as having voted.
\<close>

theorem ballots_match_turnout:
  assumes "run_attempts (vote_step E shown) xs db = (hits, db')" and "distinct (map vo_id (db_voters db))"
    and "db_ballots db = []" and "\<And>v. v \<in> set (db_voters db) \<Longrightarrow> vo_status v \<noteq> VOTED"
  shows "length (db_ballots db') = count_where (\<lambda>v. vo_status v = VOTED) (db_voters db')"
proof -
  have "roll_ok db \<Longrightarrow> run_attempts (vote_step E shown) xs db = (hits, db') \<Longrightarrow>
      length (db_ballots db') + count_where (\<lambda>v. vo_status v = VOTED) (db_voters db)
        = length (db_ballots db) + count_where (\<lambda>v. vo_status v = VOTED) (db_voters db')"
  proof (induction xs arbitrary: db hits)
    case (Cons x xs)
    show ?case
    proof (cases "vote_step E shown x db")
      case (Inl e)
      with Cons show ?thesis by simp
    next
      case (Inr s)
      then obtain d where "run_attempts (vote_step E shown) xs s = (d, db')"
        using Cons.prems(2) by (auto simp: case_prod_unfold Let_def prod_eq_iff)
      with Cons.IH votes.keeps_good [OF Cons.prems(1) Inr] count_voted_step [OF Cons.prems(1) Inr] show ?thesis by fastforce
    qed
  qed simp
  moreover have "count_where (\<lambda>v. vo_status v = VOTED) (db_voters db) = 0"
    using assms(4) by (simp add: count_where_def filter_empty_conv)
  ultimately show ?thesis using assms(1-3) by (simp add: roll_ok_def)
qed

section \<open>Secrecy\<close>

lemma note_about_ballots [simp]: "note_about t actor target (db\<lparr>db_ballots := x\<rparr>) = note_about t actor target db"
  by (simp add: note_about_def event_note_def)

lemma seal_ballot_constituency:
  "\<not> ev_record_constituency ev \<Longrightarrow> seal_ballot E r ev key style sels c = seal_ballot E r ev key style sels c'"
  by (simp add: seal_ballot_def)


text \<open>
  The stored ballot does not depend on the voter: two voters with the same ballot style
  who make the same choices, with the same randomness, leave the same ballot row, whatever
  their records, their authorizations and the time, unless the election records
  constituencies.
\<close>

theorem ballot_does_not_name_voter:
  assumes "cast_ballot E now r token payload db = Inr (rc, db')" and "cast_ballot E now' r token' payload db = Inr (rc', db'')"
    and "\<not> ev_record_constituency (db_event db)"
    and "\<And>a v. admit E now token db = Inr (a, v) \<Longrightarrow> va_style a = style"
    and "\<And>a v. admit E now' token' db = Inr (a, v) \<Longrightarrow> va_style a = style"
  shows "db_ballots db' = db_ballots db''"
proof -
  obtain a v sels key b where 1: "admit E now token db = Inr (a, v)" "validate_ballot (db_election db) (va_style a) payload = Inr sels"
    "db_key db = Some key"
    "seal_ballot E r (db_event db) key (va_style a) sels (map_option co_id (vo_constituency v)) = Inr b"
    "db_ballots db' = db_ballots db @ [b]" using cast_Inr [OF assms(1)] by auto
  obtain a' v' sels' key' b' where 2: "admit E now' token' db = Inr (a', v')"
    "validate_ballot (db_election db) (va_style a') payload = Inr sels'" "db_key db = Some key'"
    "seal_ballot E r (db_event db) key' (va_style a') sels' (map_option co_id (vo_constituency v')) = Inr b'"
    "db_ballots db'' = db_ballots db @ [b']" using cast_Inr [OF assms(2)] by auto
  have "va_style a = va_style a'" using assms(4) [OF 1(1)] assms(5) [OF 2(1)] by simp
  with 1 2 have "b = b'" using seal_ballot_constituency [OF assms(3)] by (metis old.sum.inject(2) option.inject)
  with 1(5) 2(5) show ?thesis by simp
qed

section \<open>An example poll\<close>

definition ex_voter :: "int \<Rightarrow> voter" where
  "ex_voter i =
     \<lparr>vo_id = i, vo_election = 1, vo_identifier = None, vo_name = ''Ama'', vo_email = None, vo_email_index = [],
      vo_phone = None, vo_phone_index = [], vo_constituency = None, vo_attributes = [], vo_status = ELIGIBLE,
      vo_status_reason = [], vo_credential_hash = None, vo_credential_text = None, vo_credential_issued = None,
      vo_credential_version = 0, vo_email_verified = None, vo_phone_verified = None, vo_verified_at = None,
      vo_user = None, vo_sso_index = [], vo_source = MANUAL, vo_invited_at = None, vo_voted_at = None\<rparr>"

definition ex_authorization :: "int \<Rightarrow> string \<Rightarrow> authorization" where
  "ex_authorization i token =
     \<lparr>va_id = i, va_election = 1, va_voter = i, va_token_hash = token_hash ex_env token, va_status = ISSUED,
      va_method = ''CODE'', va_style = [7], va_issued = 9, va_expires = 20, va_consumed = None\<rparr>"

definition poll_key :: election_key where
  "poll_key =
     \<lparr>ek_public = b64e (x_public ex_crypto ''k''), ek_fingerprint = [], ek_custody = SYSTEM, ek_wrapped = None,
      ek_threshold = 0, ek_shares = 0\<rparr>"

definition poll_db :: election_db where
  "poll_db = update_voters (\<lambda>_. [ex_voter 1, ex_voter 2])
     (ex_db\<lparr>db_key := Some poll_key, db_authorizations := [ex_authorization 1 ''t'', ex_authorization 2 ''u'']\<rparr>)"

definition ex_random :: ballot_random where
  "ex_random = \<lparr>br_padding = ''p'', br_seal = (''e'', replicate 12 (CHR ''n'')), br_id = ''b''\<rparr>"

abbreviation ex_payload :: json where
  "ex_payload \<equiv> JObj [(str_int 7, JList [JInt 1, JInt 2])]"

abbreviation other_payload :: json where
  "other_payload \<equiv> JObj [(str_int 7, JList [JInt 2])]"

lemma poll_db_simps:
  "db_event poll_db = ex_event" "db_voters poll_db = [ex_voter 1, ex_voter 2]" "db_ballots poll_db = []"
  "db_key poll_db = Some poll_key" "db_authorizations poll_db = [ex_authorization 1 ''t'', ex_authorization 2 ''u'']"
  by (simp_all add: poll_db_def ex_db_def ex_election_def)

lemma poll_validate:
  "validate_ballot (db_election poll_db) [7] ex_payload = Inr [(str_int 7, Some (Marks [1, 2]))]"
  "validate_ballot (db_election poll_db) [7] other_payload = Inr [(str_int 7, Some (Marks [2]))]"
  by (simp_all add: poll_db_def update_voters_def ex_db_def validate_ballot_def style_positions_def normalize_selection_def
      normalize_marks_def js_get_def to_ids_def effective_limits_def blank_def ex_defs active_candidates_def candidates_of_def)

lemma ex_tokens: "token_hash ex_env ''t'' \<noteq> token_hash ex_env ''u''"
proof -
  have "to_hex ''secret:ballot-token:t'' \<noteq> to_hex ''secret:ballot-token:u''" by code_simp
  then show ?thesis by (simp add: token_hash_def ex_env_def keyed_hash_def ex_crypto_def ex_config_def)
qed

lemma poll_admits:
  "admit ex_env 12 ''t'' poll_db = Inr (ex_authorization 1 ''t'', ex_voter 1)"
  "admit ex_env 14 ''u'' poll_db = Inr (ex_authorization 2 ''u'', ex_voter 2)"
  using ex_tokens
  by (simp_all add: admit_def poll_db_simps first_where_def ex_authorization_def ensure_accepting_def accepting_votes_def
      ex_event_def ex_voter_def can_vote_def)

lemma poll_seals: "\<exists>b. seal_ballot ex_env ex_random ex_event poll_key [7] sels c = Inr b"
  by (simp add: seal_ballot_def seal_def poll_key_def ex_random_def ex_env_def ex_crypto_def Let_def ex_event_def)

lemma poll_cast:
  "\<exists>rc db'. cast_ballot ex_env 12 ex_random ''t'' ex_payload poll_db = Inr (rc, db')"
  "\<exists>rc db'. cast_ballot ex_env 14 ex_random ''u'' ex_payload poll_db = Inr (rc, db')"
  "\<exists>rc db'. cast_ballot ex_env 12 ex_random ''t'' other_payload poll_db = Inr (rc, db')"
  using poll_seals [of "[(str_int 7, Some (Marks [1, 2]))]" None] poll_seals [of "[(str_int 7, Some (Marks [2]))]" None]
  by (auto simp: cast_ballot_def poll_admits poll_validate poll_db_simps ex_authorization_def ex_voter_def)

definition ex_cast :: vote_request where
  "ex_cast = Cast 12 ex_random ''t'' ex_payload"

lemma poll_run: "\<exists>db'. run_attempts (vote_step ex_env (\<lambda>_. [])) [ex_cast] poll_db
    = ([(ex_cast, poll_db)], db')"
  using poll_cast(1) by (auto simp: ex_cast_def)

lemma poll_voter: "voter_of ex_env ex_cast poll_db = Some 1"
  using admit_Inr(1) [OF poll_admits(1)] by (simp add: ex_cast_def ex_authorization_def)

theorem one_ballot_per_voter_witness:
  "\<exists>hits db'. run_attempts (vote_step ex_env (\<lambda>_. [])) [ex_cast] poll_db = (hits, db')
    \<and> List.map_filter (\<lambda>(x, s). voter_of ex_env x s) hits = [1]
    \<and> distinct (List.map_filter (\<lambda>(x, s). voter_of ex_env x s) hits)"
proof -
  obtain db' where r: "run_attempts (vote_step ex_env (\<lambda>_. [])) [ex_cast] poll_db
    = ([(ex_cast, poll_db)], db')" using poll_run by blast
  have "distinct (map vo_id (db_voters poll_db))" by (simp add: poll_db_simps ex_voter_def)
  from one_ballot_per_voter [OF r this] have d: "distinct (List.map_filter (\<lambda>(x, s). voter_of ex_env x s)
    [(ex_cast, poll_db)])" by blast
  have "List.map_filter (\<lambda>(x, s). voter_of ex_env x s) [(ex_cast, poll_db)] = [1]"
    unfolding List.map_filter_simps case_prod_conv poll_voter by (simp del: voter_of.simps)
  with r d show ?thesis by (intro exI [of _ "[(ex_cast, poll_db)]"] exI [of _ db'] conjI)
qed

theorem ballots_match_turnout_witness:
  "\<exists>hits db'. run_attempts (vote_step ex_env (\<lambda>_. [])) [ex_cast] poll_db = (hits, db')
    \<and> hits \<noteq> [] \<and> length (db_ballots db') = count_where (\<lambda>v. vo_status v = VOTED) (db_voters db')"
proof -
  obtain db' where r: "run_attempts (vote_step ex_env (\<lambda>_. [])) [ex_cast] poll_db
    = ([(ex_cast, poll_db)], db')" using poll_run by blast
  have "length (db_ballots db') = count_where (\<lambda>v. vo_status v = VOTED) (db_voters db')"
    by (rule ballots_match_turnout [OF r]) (auto simp: poll_db_simps ex_voter_def)
  with r show ?thesis by (intro exI [of _ "[(ex_cast, poll_db)]"] exI [of _ db'] conjI) simp_all
qed


theorem ballot_does_not_name_voter_witness:
  "\<exists>rc db' rc' db''. cast_ballot ex_env 12 ex_random ''t'' ex_payload poll_db = Inr (rc, db')
    \<and> cast_ballot ex_env 14 ex_random ''u'' ex_payload poll_db = Inr (rc', db'') \<and> db_ballots db' = db_ballots db''"
proof -
  obtain rc db' rc' db'' where c: "cast_ballot ex_env 12 ex_random ''t'' ex_payload poll_db = Inr (rc, db')"
    "cast_ballot ex_env 14 ex_random ''u'' ex_payload poll_db = Inr (rc', db'')" using poll_cast by blast
  have "db_ballots db' = db_ballots db''"
    by (rule ballot_does_not_name_voter [OF c, of "[7]"])
      (auto simp: poll_db_simps poll_admits ex_event_def ex_authorization_def)
  with c show ?thesis by blast
qed

end
