(* ===== verification/Billing.thy ===== *)
theory Billing
  imports Election_Db
begin

text \<open>
  billing/service.py and billing/models.py: the plans, an organization's subscription,
  coupons, feature flags, plan limits, metered usage and invoices.

  Every operation takes the tables as a \<open>billing_db\<close>. A subscription names its plan by
  code and its coupon by code. \<open>organization._fv_subscription\<close>, a cache on the instance, is
  not modelled: the row is read. Dates are those of the UTC calendar, computed from the
  microseconds since 1970 as Python's \<open>datetime\<close> does. Amounts are exact; \<open>money\<close> is
  \<open>_money\<close>. An organization is its id.
\<close>

section \<open>Rows\<close>

record plan =
  pl_code :: string
  pl_name :: string
  pl_order :: int
  pl_currency :: string
  pl_monthly :: rat
  pl_annual :: rat
  pl_per_election :: rat
  pl_per_voter :: rat
  pl_included :: int
  pl_limits :: "(string \<times> int option) list"
  pl_features :: "string list"

datatype subscription_status = TRIALING | SUB_ACTIVE | PAST_DUE | CANCELED

datatype billing_cycle = MONTHLY | ANNUAL

record subscription =
  sb_org :: int
  sb_plan :: string
  sb_status :: subscription_status
  sb_cycle :: billing_cycle
  sb_trial_ends :: "int option"
  sb_start :: int
  sb_end :: int
  sb_cancel :: bool
  sb_coupon :: "string option"
  sb_coupon_applied :: "int option"

datatype coupon_kind = PERCENT_OFF | FIXED_OFF

record coupon =
  cp_code :: string
  cp_kind :: coupon_kind
  cp_value :: rat
  cp_duration :: "int option"
  cp_max :: "int option"
  cp_redemptions :: int
  cp_valid_until :: "int option"
  cp_active :: bool

datatype metric = ELECTION_CREATED | VOTERS_IMPORTED | BALLOTS_CAST | SMS_SENT | EMAILS_SENT

record usage_record =
  ur_org :: int
  ur_metric :: metric
  ur_quantity :: int
  ur_at :: int
  ur_invoice :: "string option"

datatype invoice_status = INVOICE_DRAFT | INVOICE_OPEN | INVOICE_PAID | INVOICE_VOID

datatype line_item = Plan_fee | Metered metric

record invoice_line =
  il_item :: line_item
  il_quantity :: int
  il_unit :: rat
  il_amount :: rat

record invoice =
  iv_number :: string
  iv_org :: int
  iv_status :: invoice_status
  iv_currency :: string
  iv_start :: int
  iv_end :: int
  iv_subtotal :: rat
  iv_discount :: rat
  iv_vat_rate :: rat
  iv_vat :: rat
  iv_levy_rate :: rat
  iv_levy :: rat
  iv_total :: rat
  iv_coupon :: "string option"
  iv_issued :: int
  iv_due :: int
  iv_paid :: "int option"
  iv_lines :: "invoice_line list"

record billing_db =
  bl_plans :: "plan list"
  bl_subscriptions :: "subscription list"
  bl_coupons :: "coupon list"
  bl_flags :: "(string \<times> bool) list"
  bl_overrides :: "((string \<times> int) \<times> bool) list"
  bl_usage :: "usage_record list"
  bl_invoices :: "invoice list"
  bl_log :: "audit_note list"

record billing_settings =
  bs_currency :: string
  bs_trial_days :: int
  bs_vat :: rat
  bs_levy :: rat

datatype billing_error = Unknown_plan | Over_limit string int | Invalid_coupon

section \<open>Plans\<close>

definition plan_of ::
  "string \<Rightarrow> string \<Rightarrow> int \<Rightarrow> rat \<Rightarrow> rat \<Rightarrow> rat \<Rightarrow> rat \<Rightarrow> int \<Rightarrow> (string \<times> int option) list \<Rightarrow> string list \<Rightarrow> string \<Rightarrow> plan" where
  "plan_of code name n monthly annual per_election per_voter included limits features currency =
     \<lparr>pl_code = code, pl_name = name, pl_order = n, pl_currency = currency, pl_monthly = monthly, pl_annual = annual,
      pl_per_election = per_election, pl_per_voter = per_voter, pl_included = included, pl_limits = limits,
      pl_features = features\<rparr>"

definition plan_limits :: "int option \<Rightarrow> int option \<Rightarrow> int option \<Rightarrow> (string \<times> int option) list" where
  "plan_limits elections roll staff =
     [(''max_active_elections'', elections), (''max_voters_per_election'', roll), (''max_staff'', staff)]"

definition plan_definitions :: "string \<Rightarrow> plan list" where
  "plan_definitions currency = map (\<lambda>p. p currency)
     [plan_of ''FREE'' ''Free'' 0 0 0 0 0 1000 (plan_limits (Some 3) (Some 1000) (Some 3))
        [''paid_voting'', ''institutional_elections'', ''exports''],
      plan_of ''PROFESSIONAL'' ''Professional'' 1 500 5000 100 (5 / 100) 5000
        (plan_limits (Some 10) (Some 20000) (Some 15))
        [''paid_voting'', ''institutional_elections'', ''exports'', ''sso'', ''sms_notifications'',
         ''constituency_results'', ''custom_branding'', ''api''],
      plan_of ''ENTERPRISE'' ''Enterprise'' 2 2500 25000 0 (2 / 100) 50000
        (plan_limits (Some 100) (Some 250000) (Some 200))
        [''paid_voting'', ''institutional_elections'', ''exports'', ''sso'', ''ldap'', ''sms_notifications'',
         ''whatsapp_notifications'', ''constituency_results'', ''custom_branding'', ''api'', ''dual_approval''],
      plan_of ''HIGH_ASSURANCE'' ''Government / High Assurance'' 3 7500 75000 0 (1 / 100) 500000
        (plan_limits None None None)
        [''paid_voting'', ''institutional_elections'', ''exports'', ''sso'', ''ldap'', ''sms_notifications'',
         ''whatsapp_notifications'', ''constituency_results'', ''custom_branding'', ''api'', ''dual_approval'',
         ''trustee_keys'', ''independent_audit'', ''legal_hold'']]"

text \<open>\<open>update_or_create\<close>, plan by plan.\<close>

definition put_plan :: "plan \<Rightarrow> plan list \<Rightarrow> plan list" where
  "put_plan p ps =
     (if exists_where (\<lambda>q. pl_code q = pl_code p) ps then update_where (\<lambda>q. pl_code q = pl_code p) (\<lambda>q. p) ps
      else ps @ [p])"

definition sync_plans :: "billing_settings \<Rightarrow> billing_db \<Rightarrow> billing_db" where
  "sync_plans S db = db\<lparr>bl_plans := fold put_plan (plan_definitions (bs_currency S)) (bl_plans db)\<rparr>"

definition find_plan :: "string \<Rightarrow> billing_db \<Rightarrow> plan option" where
  "find_plan code db = first_where (\<lambda>p. pl_code p = code) (bl_plans db)"

section \<open>The calendar\<close>

definition day_length :: int where
  "day_length = 86400 * 1000000"

text \<open>The proleptic Gregorian date of a day counted from 1 January 1970, and back.\<close>

definition civil_of :: "int \<Rightarrow> int \<times> int \<times> int" where
  "civil_of days =
     (let z = days + 719468; era = z div 146097; doe = z mod 146097;
          yoe = (doe - doe div 1460 + doe div 36524 - doe div 146096) div 365;
          doy = doe - (365 * yoe + yoe div 4 - yoe div 100);
          mp = (5 * doy + 2) div 153;
          m = (if mp < 10 then mp + 3 else mp - 9)
      in (yoe + era * 400 + (if m \<le> 2 then 1 else 0), m, doy - (153 * mp + 2) div 5 + 1))"

definition days_of :: "int \<Rightarrow> int \<Rightarrow> int \<Rightarrow> int" where
  "days_of y m d =
     (let y' = (if m \<le> 2 then y - 1 else y); era = y' div 400; yoe = y' mod 400;
          doy = (153 * (if 2 < m then m - 3 else m + 9) + 2) div 5 + d - 1
      in era * 146097 + yoe * 365 + yoe div 4 - yoe div 100 + doy - 719468)"

definition leap_year :: "int \<Rightarrow> bool" where
  "leap_year y \<longleftrightarrow> 4 dvd y \<and> (\<not> 100 dvd y \<or> 400 dvd y)"

definition month_days :: "int \<Rightarrow> int \<Rightarrow> int" where
  "month_days y m = (if m = 2 then (if leap_year y then 29 else 28) else if m \<in> {4, 6, 9, 11} then 30 else 31)"

definition add_months :: "int \<Rightarrow> int \<Rightarrow> int" where
  "add_months t n =
     (let (y, m, d) = civil_of (t div day_length); k = m - 1 + n;
          y' = y + k div 12; m' = k mod 12 + 1
      in days_of y' m' (min d (month_days y' m')) * day_length + t mod day_length)"

definition month_number :: "int \<Rightarrow> int" where
  "month_number t = (let (y, m, d) = civil_of (t div day_length) in y * 12 + m)"

section \<open>Subscriptions, features and limits\<close>

definition billing_note :: "string \<Rightarrow> int option \<Rightarrow> int \<Rightarrow> audit_note" where
  "billing_note t actor org = (plain_note t actor None)\<lparr>an_org := Some org\<rparr>"

definition log_billing :: "audit_note \<Rightarrow> billing_db \<Rightarrow> billing_db" where
  "log_billing n db = db\<lparr>bl_log := bl_log db @ [n]\<rparr>"

definition subscription_row :: "int \<Rightarrow> billing_db \<Rightarrow> subscription option" where
  "subscription_row org db = first_where (\<lambda>s. sb_org s = org) (bl_subscriptions db)"

definition put_subscription :: "subscription \<Rightarrow> billing_db \<Rightarrow> billing_db" where
  "put_subscription s db = db\<lparr>bl_subscriptions := update_where (\<lambda>r. sb_org r = sb_org s) (\<lambda>_. s) (bl_subscriptions db)\<rparr>"

definition get_subscription :: "billing_settings \<Rightarrow> int \<Rightarrow> int \<Rightarrow> billing_db \<Rightarrow> subscription \<times> billing_db" where
  "get_subscription S now org db =
     (case subscription_row org db of
        Some s \<Rightarrow> (s, db)
      | None \<Rightarrow>
          (let db' = (if find_plan ''FREE'' db = None then sync_plans S db else db);
               s = \<lparr>sb_org = org, sb_plan = ''FREE'', sb_status = SUB_ACTIVE, sb_cycle = MONTHLY, sb_trial_ends = None,
                    sb_start = now, sb_end = add_months now 1, sb_cancel = False, sb_coupon = None,
                    sb_coupon_applied = None\<rparr>
           in (s, db'\<lparr>bl_subscriptions := bl_subscriptions db' @ [s]\<rparr>)))"

definition start_trial ::
  "billing_settings \<Rightarrow> int \<Rightarrow> int \<Rightarrow> string \<Rightarrow> account option \<Rightarrow> billing_db \<Rightarrow> billing_error + subscription \<times> billing_db" where
  "start_trial S now org code actor db =
     (case find_plan code db of
        None \<Rightarrow> Inl Unknown_plan
      | Some p \<Rightarrow>
          (let (s, db') = get_subscription S now org db;
               ends = now + bs_trial_days S * day_length;
               s' = s\<lparr>sb_plan := code, sb_status := TRIALING, sb_trial_ends := Some ends, sb_start := now, sb_end := ends\<rparr>
           in Inr (s', log_billing (billing_note ''BILLING_TRIAL_STARTED'' (map_option us_id actor) org)
                         (put_subscription s' db'))))"

definition feature_enabled ::
  "billing_settings \<Rightarrow> int \<Rightarrow> int option \<Rightarrow> string \<Rightarrow> billing_db \<Rightarrow> bool" where
  "feature_enabled S now organization key db =
     (case organization of
        None \<Rightarrow> True
      | Some org \<Rightarrow>
          (case map_of (bl_overrides db) (key, org) of
             Some enabled \<Rightarrow> enabled
           | None \<Rightarrow>
               (let (s, db') = get_subscription S now org db in
                (sb_status s \<in> {SUB_ACTIVE, TRIALING}
                   \<and> (case find_plan (sb_plan s) db' of Some p \<Rightarrow> key \<in> set (pl_features p) | None \<Rightarrow> False))
                \<or> map_of (bl_flags db') key = Some True)))"

definition limit_value :: "billing_settings \<Rightarrow> int \<Rightarrow> int \<Rightarrow> string \<Rightarrow> billing_db \<Rightarrow> int option" where
  "limit_value S now org key db =
     (let (s, db') = get_subscription S now org db in
      case find_plan (sb_plan s) db' of
        None \<Rightarrow> None
      | Some p \<Rightarrow> (case map_of (pl_limits p) key of Some l \<Rightarrow> l | None \<Rightarrow> None))"

definition check_limit ::
  "billing_settings \<Rightarrow> int \<Rightarrow> int \<Rightarrow> string \<Rightarrow> int \<Rightarrow> billing_db \<Rightarrow> billing_error + unit" where
  "check_limit S now org key n db =
     (case limit_value S now org key db of
        None \<Rightarrow> Inr ()
      | Some l \<Rightarrow> if l < n then Inl (Over_limit key l) else Inr ())"

section \<open>Usage and invoices\<close>

definition record_usage :: "int \<Rightarrow> int option \<Rightarrow> metric \<Rightarrow> int \<Rightarrow> billing_db \<Rightarrow> billing_db" where
  "record_usage now organization m n db =
     (case organization of
        None \<Rightarrow> db
      | Some org \<Rightarrow>
          if n \<le> 0 then db
          else db\<lparr>bl_usage := bl_usage db @ [\<lparr>ur_org = org, ur_metric = m, ur_quantity = n, ur_at = now, ur_invoice = None\<rparr>]\<rparr>)"

definition used_in :: "int \<Rightarrow> int \<Rightarrow> int \<Rightarrow> usage_record \<Rightarrow> bool" where
  "used_in org t0 t1 u \<longleftrightarrow> ur_org u = org \<and> t0 \<le> ur_at u \<and> ur_at u < t1"

definition usage_total :: "int \<Rightarrow> int \<Rightarrow> int \<Rightarrow> metric \<Rightarrow> billing_db \<Rightarrow> int" where
  "usage_total org t0 t1 m db =
     sum_list (map ur_quantity (filter (\<lambda>u. used_in org t0 t1 u \<and> ur_metric u = m) (bl_usage db)))"

definition money :: "rat \<Rightarrow> rat" where
  "money = quantize_half_up 2"

definition invoice_line_of :: "line_item \<Rightarrow> int \<Rightarrow> rat \<Rightarrow> invoice_line" where
  "invoice_line_of item n price = \<lparr>il_item = item, il_quantity = n, il_unit = price, il_amount = money (of_int n * price)\<rparr>"

definition sms_unit_price :: rat where
  "sms_unit_price = 5 / 100"

definition usage_lines :: "plan \<Rightarrow> int \<Rightarrow> int \<Rightarrow> int \<Rightarrow> billing_db \<Rightarrow> invoice_line list" where
  "usage_lines p org t0 t1 db =
     (let elections = usage_total org t0 t1 ELECTION_CREATED db;
          billable = max 0 (usage_total org t0 t1 VOTERS_IMPORTED db - pl_included p);
          sms = usage_total org t0 t1 SMS_SENT db
      in (if elections \<noteq> 0 \<and> 0 < pl_per_election p then [invoice_line_of (Metered ELECTION_CREATED) elections (pl_per_election p)] else [])
       @ (if billable \<noteq> 0 \<and> 0 < pl_per_voter p then [invoice_line_of (Metered VOTERS_IMPORTED) billable (pl_per_voter p)] else [])
       @ (if sms \<noteq> 0 then [invoice_line_of (Metered SMS_SENT) sms sms_unit_price] else []))"

definition invoice_lines :: "plan \<Rightarrow> billing_cycle \<Rightarrow> bool \<Rightarrow> int \<Rightarrow> int \<Rightarrow> int \<Rightarrow> billing_db \<Rightarrow> invoice_line list" where
  "invoice_lines p cycle include_usage org t0 t1 db =
     (let base = (if cycle = ANNUAL then pl_annual p else pl_monthly p) in
      (if 0 < base then [invoice_line_of Plan_fee 1 base] else [])
      @ (if include_usage then usage_lines p org t0 t1 db else []))"

text \<open>The discount, and the coupon when it is used.\<close>

definition coupon_discount :: "int \<Rightarrow> subscription \<Rightarrow> rat \<Rightarrow> billing_db \<Rightarrow> rat \<times> string option" where
  "coupon_discount t0 s subtotal db =
     (case Option.bind (sb_coupon s) (\<lambda>code. first_where (\<lambda>c. cp_code c = code) (bl_coupons db)) of
        None \<Rightarrow> (0, None)
      | Some c \<Rightarrow>
          (let used = (case sb_coupon_applied s of None \<Rightarrow> 0 | Some t \<Rightarrow> month_number t0 - month_number t) in
           if cp_active c \<and> (case cp_duration c of None \<Rightarrow> True | Some n \<Rightarrow> used < n)
           then (min (money (case cp_kind c of PERCENT_OFF \<Rightarrow> subtotal * cp_value c / 100 | FIXED_OFF \<Rightarrow> cp_value c)) subtotal,
                 Some (cp_code c))
           else (0, None)))"

fun pad_to :: "nat \<Rightarrow> string \<Rightarrow> string" where
  "pad_to n s = replicate (n - length s) (CHR ''0'') @ s"

definition number_prefix :: "int \<Rightarrow> string" where
  "number_prefix now =
     (let (y, m, d) = civil_of (now div day_length)
      in ''INV-'' @ pad_to 4 (str_int y) @ pad_to 2 (str_int m) @ ''-'')"

text \<open>The sequence after the greatest number, as text, of the month.\<close>

definition next_invoice_number :: "int \<Rightarrow> billing_db \<Rightarrow> string" where
  "next_invoice_number now db =
     (let prefix = number_prefix now; ns = filter (starts_with prefix) (map iv_number (bl_invoices db));
          n = (if ns = [] then 1
               else case parse_int (after_last (CHR ''-'') (Max (set ns))) of Some k \<Rightarrow> k + 1 | None \<Rightarrow> 1)
      in prefix @ pad_to 5 (str_int n))"

definition invoice_for ::
  "billing_settings \<Rightarrow> int \<Rightarrow> int \<Rightarrow> plan \<Rightarrow> subscription \<Rightarrow> int \<Rightarrow> int \<Rightarrow> bool \<Rightarrow> billing_db \<Rightarrow> invoice" where
  "invoice_for S now org p s t0 t1 include_usage db =
     (let ls = invoice_lines p (sb_cycle s) include_usage org t0 t1 db;
          subtotal = sum_list (map il_amount ls);
          (discount, used) = coupon_discount t0 s subtotal db;
          taxable = subtotal - discount;
          levy = money (taxable * bs_levy S / 100);
          vat = money ((taxable + levy) * bs_vat S / 100);
          total = money (taxable + levy + vat)
      in \<lparr>iv_number = next_invoice_number now db, iv_org = org, iv_status = (if 0 < total then INVOICE_OPEN else INVOICE_PAID),
          iv_currency = pl_currency p, iv_start = t0, iv_end = t1, iv_subtotal = money subtotal, iv_discount = discount,
          iv_vat_rate = bs_vat S, iv_vat = vat, iv_levy_rate = bs_levy S, iv_levy = levy, iv_total = total,
          iv_coupon = used, iv_issued = now, iv_due = now + 7 * day_length,
          iv_paid = (if total = 0 then Some now else None), iv_lines = ls\<rparr>)"

definition generate_invoice ::
  "billing_settings \<Rightarrow> int \<Rightarrow> int \<Rightarrow> int \<Rightarrow> int \<Rightarrow> account option \<Rightarrow> bool \<Rightarrow> billing_db \<Rightarrow> billing_error + invoice \<times> billing_db" where
  "generate_invoice S now org t0 t1 actor include_usage db =
     (let (s, db1) = get_subscription S now org db in
      case find_plan (sb_plan s) db1 of
        None \<Rightarrow> Inl Unknown_plan
      | Some p \<Rightarrow>
          (let v = invoice_for S now org p s t0 t1 include_usage db1;
               billed = (if include_usage
                         then update_where (\<lambda>u. used_in org t0 t1 u \<and> ur_invoice u = None) (\<lambda>u. u\<lparr>ur_invoice := Some (iv_number v)\<rparr>)
                                (bl_usage db1)
                         else bl_usage db1)
           in Inr (v, log_billing (billing_note ''BILLING_INVOICE_ISSUED'' (map_option us_id actor) org)
                        (db1\<lparr>bl_invoices := bl_invoices db1 @ [v], bl_usage := billed\<rparr>))))"

section \<open>Changing plan, payment and renewal\<close>

definition redeem :: "int \<Rightarrow> string \<Rightarrow> subscription \<Rightarrow> billing_db \<Rightarrow> billing_error + subscription \<times> billing_db" where
  "redeem now code s db =
     (if code = [] then Inr (s, db)
      else case first_where (\<lambda>c. cp_code c = upper (strip code) \<and> cp_active c) (bl_coupons db) of
        None \<Rightarrow> Inl Invalid_coupon
      | Some c \<Rightarrow>
          if (case cp_valid_until c of Some t \<Rightarrow> t < now | None \<Rightarrow> False)
             \<or> (case cp_max c of Some n \<Rightarrow> n \<le> cp_redemptions c | None \<Rightarrow> False)
          then Inl Invalid_coupon
          else Inr (s\<lparr>sb_coupon := Some (cp_code c), sb_coupon_applied := Some now\<rparr>,
                    db\<lparr>bl_coupons := update_where (\<lambda>x. cp_code x = cp_code c)
                                       (\<lambda>x. x\<lparr>cp_redemptions := cp_redemptions c + 1\<rparr>) (bl_coupons db)\<rparr>))"

definition cycle_months :: "billing_cycle \<Rightarrow> int" where
  "cycle_months c = (if c = ANNUAL then 12 else 1)"

definition change_plan ::
  "billing_settings \<Rightarrow> int \<Rightarrow> int \<Rightarrow> string \<Rightarrow> account option \<Rightarrow> billing_cycle \<Rightarrow> string \<Rightarrow> billing_db
    \<Rightarrow> billing_error + (subscription \<times> invoice option) \<times> billing_db" where
  "change_plan S now org code actor cycle coupon_code db =
     (case find_plan code db of
        None \<Rightarrow> Inl Unknown_plan
      | Some p \<Rightarrow>
          (let (s, db1) = get_subscription S now org db in
           case redeem now coupon_code (s\<lparr>sb_plan := code, sb_cycle := cycle\<rparr>) db1 of
             Inl e \<Rightarrow> Inl e
           | Inr (s1, db2) \<Rightarrow>
               (let s2 = (if pl_monthly p = 0 then s1\<lparr>sb_status := SUB_ACTIVE\<rparr> else s1);
                    db3 = log_billing (billing_note ''BILLING_PLAN_CHANGED'' (map_option us_id actor) org) (put_subscription s2 db2)
                in if 0 < pl_monthly p \<and> sb_status s2 \<noteq> TRIALING
                   then (case generate_invoice S now org now (add_months now (cycle_months cycle)) actor False db3 of
                           Inl e \<Rightarrow> Inl e
                         | Inr (v, db4) \<Rightarrow>
                             (let s3 = s2\<lparr>sb_status := PAST_DUE\<rparr> in Inr ((s3, Some v), put_subscription s3 db4)))
                   else Inr ((s2, None), db3))))"

definition mark_invoice_paid :: "billing_settings \<Rightarrow> int \<Rightarrow> string \<Rightarrow> billing_db \<Rightarrow> billing_db" where
  "mark_invoice_paid S now number db =
     (case first_where (\<lambda>v. iv_number v = number) (bl_invoices db) of
        None \<Rightarrow> db
      | Some v \<Rightarrow>
          if iv_status v = INVOICE_PAID then db
          else
            (let db1 = db\<lparr>bl_invoices := update_where (\<lambda>x. iv_number x = number)
                            (\<lambda>x. x\<lparr>iv_status := INVOICE_PAID, iv_paid := Some now\<rparr>) (bl_invoices db)\<rparr>;
                 (s, db2) = get_subscription S now (iv_org v) db1;
                 s' = s\<lparr>sb_status := SUB_ACTIVE, sb_start := iv_start v, sb_end := max (sb_end s) (iv_end v)\<rparr>
             in log_billing (billing_note ''BILLING_INVOICE_PAID'' None (iv_org v)) (put_subscription s' db2)))"

definition renew_one :: "billing_settings \<Rightarrow> int \<Rightarrow> subscription \<Rightarrow> billing_db \<Rightarrow> billing_error + nat \<times> billing_db" where
  "renew_one S now s db =
     (if sb_cancel s then Inr (0, put_subscription (s\<lparr>sb_status := CANCELED\<rparr>) db)
      else
        (let t0 = sb_end s; t1 = add_months t0 (cycle_months (sb_cycle s)) in
         case generate_invoice S now (sb_org s) t0 t1 None True db of
           Inl e \<Rightarrow> Inl e
         | Inr (v, db1) \<Rightarrow>
             Inr (1, put_subscription (s\<lparr>sb_start := t0, sb_end := t1,
                        sb_trial_ends := (if sb_status s = TRIALING then None else sb_trial_ends s),
                        sb_status := (if iv_status v = INVOICE_PAID then SUB_ACTIVE else PAST_DUE)\<rparr>) db1)))"

fun renew_all :: "billing_settings \<Rightarrow> int \<Rightarrow> subscription list \<Rightarrow> billing_db \<Rightarrow> billing_error + nat \<times> billing_db" where
  "renew_all S now [] db = Inr (0, db)"
| "renew_all S now (s # ss) db =
     (case renew_one S now s db of
        Inl e \<Rightarrow> Inl e
      | Inr (n, db1) \<Rightarrow> (case renew_all S now ss db1 of Inl e \<Rightarrow> Inl e | Inr (m, db2) \<Rightarrow> Inr (n + m, db2)))"

definition renew_due_subscriptions :: "billing_settings \<Rightarrow> int \<Rightarrow> billing_db \<Rightarrow> billing_error + nat \<times> billing_db" where
  "renew_due_subscriptions S now db =
     renew_all S now (filter (\<lambda>s. sb_end s \<le> now \<and> sb_status s \<in> {SUB_ACTIVE, TRIALING, PAST_DUE}) (bl_subscriptions db)) db"

section \<open>Examples\<close>

definition ex_settings :: billing_settings where
  "ex_settings = \<lparr>bs_currency = ''GHS'', bs_trial_days = 14, bs_vat = 15, bs_levy = 6\<rparr>"

text \<open>An organization on the professional plan with a full discount, 9000 voters imported in the first period.\<close>

definition ex_billing :: billing_db where
  "ex_billing =
     \<lparr>bl_plans = plan_definitions ''GHS'',
      bl_subscriptions = [\<lparr>sb_org = 1, sb_plan = ''PROFESSIONAL'', sb_status = SUB_ACTIVE, sb_cycle = MONTHLY,
        sb_trial_ends = None, sb_start = 0, sb_end = 31 * day_length, sb_cancel = False, sb_coupon = None, sb_coupon_applied = None\<rparr>],
      bl_coupons = [\<lparr>cp_code = ''GIFT'', cp_kind = PERCENT_OFF, cp_value = 100, cp_duration = None, cp_max = Some 3,
        cp_redemptions = 0, cp_valid_until = None, cp_active = True\<rparr>],
      bl_flags = [], bl_overrides = [],
      bl_usage = [\<lparr>ur_org = 1, ur_metric = VOTERS_IMPORTED, ur_quantity = 9000, ur_at = 5, ur_invoice = None\<rparr>],
      bl_invoices = [], bl_log = []\<rparr>"

end
