(* ===== verification/Voters.thy ===== *)
theory Voters
  imports Lifecycle Casting Billing
begin

text \<open>
  elections/voters.py and the methods of \<open>Voter\<close> (elections/models.py): importing and
  adding voters, anonymous access codes, resetting credentials, status changes, removal,
  self-registration, invitations and turnout.

  The roll is the voter table of the election; an access code comes from the random
  choices given with the request. \<open>units\<close> are the code, the name and the row of every
  constituency of the organization, in table order, and \<open>valid_email\<close> is Django's
  \<open>validate_email\<close>. Reading the file (csv, openpyxl) happens before: a row is a
  \<open>roll_row\<close>. A blind index is made with a key that decodes (\<open>contact_index\<close>). Messages to
  voters are returned as a list instead of being queued.
\<close>

datatype voters_error =
    Roll_access access_error
  | Roll_closed lifecycle_error
  | Over_plan billing_error
  | Voted_already
  | Bad_status
  | No_self_registration
  | Registration_closed
  | Foreign_email
  | Bad_identifier
  | Already_registered
  | Import_failed string
  | Code_collision
  | Protected

section \<open>A voter's contact details and credential\<close>

definition contact_index :: "env \<Rightarrow> string \<Rightarrow> string \<Rightarrow> string" where
  "contact_index E purpose v =
     (case blind_index (en_crypto E) (en_config E) purpose (Some v) of Inr i \<Rightarrow> i | Inl _ \<Rightarrow> [])"

definition normalize_phone :: "string \<Rightarrow> string" where
  "normalize_phone phone =
     (let raw = filter (\<lambda>c. is_digit c \<or> c = CHR ''+'') phone in
      if starts_with ''+'' raw then raw
      else if starts_with ''00'' raw then CHR ''+'' # drop 2 raw
      else if starts_with ''0'' raw \<and> 10 \<le> length raw then ''+233'' @ drop 1 raw
      else if 11 \<le> length raw then CHR ''+'' # raw
      else raw)"

definition text_or_none :: "string \<Rightarrow> string option" where
  "text_or_none s = (if s = [] then None else Some s)"

definition set_email :: "env \<Rightarrow> string \<Rightarrow> voter \<Rightarrow> voter" where
  "set_email E email v =
     v\<lparr>vo_email := text_or_none (strip email),
       vo_email_index := (if strip email = [] then [] else contact_index E ''email'' (strip email))\<rparr>"

definition set_phone :: "env \<Rightarrow> string \<Rightarrow> voter \<Rightarrow> voter" where
  "set_phone E phone v =
     (let p = normalize_phone phone in
      v\<lparr>vo_phone := text_or_none p, vo_phone_index := (if p = [] then [] else contact_index E ''phone'' p)\<rparr>)"

definition hash_voting_code :: "env \<Rightarrow> int \<Rightarrow> string \<Rightarrow> string" where
  "hash_voting_code E event_id code =
     hmac_hex (en_crypto E) (cf_secret (en_config E)) (str_int event_id @ CHR '':'' # upper (strip code))"

definition set_credential :: "env \<Rightarrow> int \<Rightarrow> string \<Rightarrow> voter \<Rightarrow> voter" where
  "set_credential E now code v =
     v\<lparr>vo_credential_hash := Some (hash_voting_code E (vo_election v) code),
       vo_credential_text := Some (upper (strip code)), vo_credential_issued := Some now,
       vo_credential_version := vo_credential_version v + 1\<rparr>"

text \<open>\<open>issue_credential\<close> with the choices of \<open>access_code(10)\<close>.\<close>

definition issue_credential :: "env \<Rightarrow> int \<Rightarrow> nat list \<Rightarrow> voter \<Rightarrow> string \<times> voter" where
  "issue_credential E now choices v = (let code = access_code (take 10 choices) in (code, set_credential E now code v))"

definition new_voter :: "event \<Rightarrow> voter list \<Rightarrow> voter_source \<Rightarrow> voter" where
  "new_voter ev rows source =
     \<lparr>vo_id = next_pk vo_id rows, vo_election = ev_id ev, vo_identifier = None, vo_name = [], vo_email = None,
      vo_email_index = [], vo_phone = None, vo_phone_index = [], vo_constituency = None, vo_attributes = [],
      vo_status = ELIGIBLE, vo_status_reason = [], vo_credential_hash = None, vo_credential_text = None,
      vo_credential_issued = None, vo_credential_version = 0, vo_email_verified = None, vo_phone_verified = None,
      vo_verified_at = None, vo_user = None, vo_sso_index = [], vo_source = source, vo_invited_at = None,
      vo_voted_at = None\<rparr>"

text \<open>The two unique constraints of the table.\<close>

definition voter_clash :: "voter list \<Rightarrow> voter \<Rightarrow> bool" where
  "voter_clash rows v \<longleftrightarrow>
     exists_where (\<lambda>x. vo_id x \<noteq> vo_id v \<and> vo_election x = vo_election v
       \<and> ((vo_identifier v \<noteq> None \<and> vo_identifier x = vo_identifier v)
          \<or> (vo_credential_hash v \<noteq> None \<and> vo_credential_hash x = vo_credential_hash v))) rows"

definition save_voter :: "voter \<Rightarrow> voter list \<Rightarrow> voter list" where
  "save_voter v rows = update_where (\<lambda>x. vo_id x = vo_id v) (\<lambda>_. v) rows"

definition revoke_issued :: "int \<Rightarrow> election_db \<Rightarrow> election_db" where
  "revoke_issued i db =
     db\<lparr>db_authorizations := update_where (\<lambda>a. va_voter a = i \<and> va_status a = ISSUED)
          (\<lambda>a. a\<lparr>va_status := REVOKED\<rparr>) (db_authorizations db)\<rparr>"

section \<open>Who may change the roll\<close>

definition roll_access :: "string \<Rightarrow> account option \<Rightarrow> election_db \<Rightarrow> voters_error + unit" where
  "roll_access perm actor db =
     (case check_perm (db_tenancy db) actor perm (Election (db_event db)) of
        Inl e \<Rightarrow> Inl (Roll_access e) | Inr _ \<Rightarrow> Inr ())"

definition roll_editable :: "string \<Rightarrow> account option \<Rightarrow> election_db \<Rightarrow> voters_error + election_db" where
  "roll_editable perm actor db =
     (case roll_access perm actor db of
        Inl e \<Rightarrow> Inl e
      | Inr _ \<Rightarrow>
          (case require_editable (db_event db) ''voters'' actor db of
             Inl e \<Rightarrow> Inl (Roll_closed e) | Inr (_, db') \<Rightarrow> Inr db'))"

definition check_plan_limit ::
  "billing_settings \<Rightarrow> int \<Rightarrow> int \<Rightarrow> election_db \<Rightarrow> billing_db \<Rightarrow> voters_error + unit" where
  "check_plan_limit S now additional db bl =
     (case ev_org (db_event db) of
        None \<Rightarrow> Inr ()
      | Some org \<Rightarrow>
          (case check_limit S now org ''max_voters_per_election'' (int (length (db_voters db)) + additional) bl of
             Inl e \<Rightarrow> Inl (Over_plan e) | Inr _ \<Rightarrow> Inr ()))"

section \<open>Import\<close>

record roll_row =
  vr_identifier :: string
  vr_name :: string
  vr_email :: string
  vr_phone :: string
  vr_constituency :: string
  vr_attributes :: "(string \<times> json) list"

datatype row_problem = Bad_id_characters | Bad_email | Id_or_email_required | Unknown_constituency | Duplicate_row

record import_report =
  ip_created :: nat
  ip_updated :: nat
  ip_skipped :: nat
  ip_errors :: "(nat \<times> row_problem) list"
  ip_codes :: nat

record import_state =
  im_existing :: "(string \<times> voter) list"
  im_rows :: "voter list"
  im_report :: import_report

record import_setup =
  is_units :: "(string \<times> string \<times> constituency) list"
  is_valid_email :: "string \<Rightarrow> bool"
  is_source :: voter_source
  is_issue :: bool

definition max_import_rows :: nat where
  "max_import_rows = 100000"

definition identifier_char :: "char \<Rightarrow> bool" where
  "identifier_char c \<longleftrightarrow>
     (let n = of_char c :: nat in
      (65 \<le> n \<and> n \<le> 90) \<or> (97 \<le> n \<and> n \<le> 122) \<or> (48 \<le> n \<and> n \<le> 57) \<or> c \<in> set ''._/@-'')"

definition valid_identifier :: "string \<Rightarrow> bool" where
  "valid_identifier s \<longleftrightarrow> 1 \<le> length s \<and> length s \<le> 100 \<and> list_all identifier_char s"

text \<open>\<open>_constituency_lookup\<close>: codes and names in lower case, the later entry winning.\<close>

definition constituency_lookup :: "(string \<times> string \<times> constituency) list \<Rightarrow> string \<Rightarrow> constituency option" where
  "constituency_lookup units key =
     map_of (rev (concat (map (\<lambda>(code, name, c). [(lower code, c), (lower name, c)]) units))) key"

definition merge_attributes :: "(string \<times> json) list \<Rightarrow> (string \<times> json) list \<Rightarrow> (string \<times> json) list" where
  "merge_attributes old new = fold (\<lambda>(k, j) kvs. js_put k j kvs) new old"

definition row_error :: "nat \<Rightarrow> row_problem \<Rightarrow> import_state \<Rightarrow> import_state" where
  "row_error n p st = st\<lparr>im_report := (im_report st)\<lparr>ip_errors := ip_errors (im_report st) @ [(n, p)]\<rparr>\<rparr>"

text \<open>
  \<open>existing\<close> holds the instances read before the loop (and those created since); a voter
  found by email is read afresh.
\<close>

definition known_voter :: "env \<Rightarrow> string \<Rightarrow> string \<Rightarrow> import_state \<Rightarrow> voter option" where
  "known_voter E identifier email st =
     (if identifier \<noteq> [] then map_of (im_existing st) identifier
      else first_where (\<lambda>v. vo_email_index v = contact_index E ''email'' email) (im_rows st))"

definition updated_voter :: "env \<Rightarrow> roll_row \<Rightarrow> constituency option \<Rightarrow> voter \<Rightarrow> voter" where
  "updated_voter E r c v =
     (let v1 = v\<lparr>vo_name := (if vr_name r = [] then vo_name v else vr_name r)\<rparr>;
          v2 = (if strip (vr_email r) = [] then v1 else set_email E (strip (vr_email r)) v1);
          v3 = (if vr_phone r = [] then v2 else set_phone E (vr_phone r) v2)
      in v3\<lparr>vo_constituency := (case c of Some x \<Rightarrow> Some x | None \<Rightarrow> vo_constituency v),
            vo_attributes := merge_attributes (vo_attributes v) (vr_attributes r)\<rparr>)"

definition update_imported :: "env \<Rightarrow> roll_row \<Rightarrow> string \<Rightarrow> constituency option \<Rightarrow> voter \<Rightarrow> import_state \<Rightarrow> import_state" where
  "update_imported E r identifier c v st =
     (if vo_status v = VOTED
      then st\<lparr>im_report := (im_report st)\<lparr>ip_skipped := ip_skipped (im_report st) + 1\<rparr>\<rparr>
      else
        let v' = updated_voter E r c v in
        st\<lparr>im_existing := (if identifier = [] then im_existing st else (identifier, v') # im_existing st),
           im_rows := save_voter v' (im_rows st),
           im_report := (im_report st)\<lparr>ip_updated := ip_updated (im_report st) + 1\<rparr>\<rparr>)"

definition created_voter ::
  "env \<Rightarrow> int \<Rightarrow> import_setup \<Rightarrow> event \<Rightarrow> nat list \<Rightarrow> roll_row \<Rightarrow> string \<Rightarrow> constituency option \<Rightarrow> voter list \<Rightarrow> voter" where
  "created_voter E now I ev choices r identifier c rows =
     (let v1 = (new_voter ev rows (is_source I))\<lparr>vo_identifier := text_or_none identifier, vo_name := vr_name r,
                  vo_constituency := c, vo_attributes := vr_attributes r\<rparr>;
          v2 = set_email E (strip (vr_email r)) v1;
          v3 = (if vr_phone r = [] then v2 else set_phone E (vr_phone r) v2)
      in if is_issue I \<and> ''CODE'' \<in> set (ev_auth_methods ev) then snd (issue_credential E now choices v3) else v3)"

definition create_imported ::
  "env \<Rightarrow> int \<Rightarrow> import_setup \<Rightarrow> event \<Rightarrow> nat \<Rightarrow> nat list \<Rightarrow> roll_row \<Rightarrow> string \<Rightarrow> constituency option \<Rightarrow> import_state \<Rightarrow> import_state" where
  "create_imported E now I ev n choices r identifier c st =
     (let v = created_voter E now I ev choices r identifier c (im_rows st);
          issued = (is_issue I \<and> ''CODE'' \<in> set (ev_auth_methods ev));
          st1 = st\<lparr>im_report := (im_report st)\<lparr>ip_codes := ip_codes (im_report st) + (if issued then 1 else 0)\<rparr>\<rparr>
      in if voter_clash (im_rows st) v then row_error n Duplicate_row st1
         else st1\<lparr>im_rows := im_rows st @ [v],
                  im_existing := (if identifier = [] then im_existing st else (identifier, v) # im_existing st),
                  im_report := (im_report st1)\<lparr>ip_created := ip_created (im_report st1) + 1\<rparr>\<rparr>)"

definition import_row ::
  "env \<Rightarrow> int \<Rightarrow> import_setup \<Rightarrow> event \<Rightarrow> nat \<Rightarrow> nat list \<Rightarrow> roll_row \<Rightarrow> import_state \<Rightarrow> import_state" where
  "import_row E now I ev n choices r st =
     (let identifier = upper (strip (vr_identifier r)); email = strip (vr_email r);
          c = (if ev_org ev = None then None else constituency_lookup (is_units I) (lower (strip (vr_constituency r))))
      in if identifier \<noteq> [] \<and> \<not> valid_identifier identifier then row_error n Bad_id_characters st
         else if email \<noteq> [] \<and> \<not> is_valid_email I email then row_error n Bad_email st
         else if identifier = [] \<and> email = [] then row_error n Id_or_email_required st
         else if vr_constituency r \<noteq> [] \<and> c = None then row_error n Unknown_constituency st
         else
           let c' = (if vr_constituency r = [] then None else c) in
           case known_voter E identifier email st of
             Some v \<Rightarrow> update_imported E r identifier c' v st
           | None \<Rightarrow> create_imported E now I ev n choices r identifier c' st)"

fun import_rows ::
  "env \<Rightarrow> int \<Rightarrow> import_setup \<Rightarrow> event \<Rightarrow> nat \<Rightarrow> (nat list \<times> roll_row) list \<Rightarrow> import_state \<Rightarrow> import_state" where
  "import_rows E now I ev n [] st = st"
| "import_rows E now I ev n ((choices, r) # rows) st =
     import_rows E now I ev (n + 1) rows (import_row E now I ev n choices r st)"

definition empty_report :: import_report where
  "empty_report = \<lparr>ip_created = 0, ip_updated = 0, ip_skipped = 0, ip_errors = [], ip_codes = 0\<rparr>"

definition start_import :: "voter list \<Rightarrow> import_state" where
  "start_import rows =
     \<lparr>im_existing = rev (concat (map (\<lambda>v. case vo_identifier v of Some i \<Rightarrow> [(i, v)] | None \<Rightarrow> []) rows)),
      im_rows = rows, im_report = empty_report\<rparr>"

definition import_voters ::
  "env \<Rightarrow> billing_settings \<Rightarrow> int \<Rightarrow> import_setup \<Rightarrow> (nat list \<times> roll_row) list \<Rightarrow> account option \<Rightarrow> election_db \<Rightarrow> billing_db
    \<Rightarrow> voters_error + import_report \<times> election_db \<times> billing_db" where
  "import_voters E S now I rows actor db bl =
     (case roll_editable ''voter.import'' actor db of
        Inl e \<Rightarrow> Inl e
      | Inr db1 \<Rightarrow>
          (case check_plan_limit S now (int (length rows)) db1 bl of
             Inl e \<Rightarrow> Inl e
           | Inr _ \<Rightarrow>
               (let st = import_rows E now I (db_event db1) 2 rows (start_import (db_voters db1));
                    db2 = log_note (event_note ''VOTERS_IMPORTED'' actor db1) (update_voters (\<lambda>_. im_rows st) db1);
                    created = ip_created (im_report st)
                in Inr (im_report st, db2,
                        if created = 0 then bl
                        else record_usage now (ev_org (db_event db1)) VOTERS_IMPORTED (int created) bl))))"

text \<open>\<open>add_voter\<close>: the row that was asked for, or the newest one when it has no identifier.\<close>

definition add_voter ::
  "env \<Rightarrow> billing_settings \<Rightarrow> int \<Rightarrow> import_setup \<Rightarrow> nat list \<Rightarrow> roll_row \<Rightarrow> account option \<Rightarrow> election_db \<Rightarrow> billing_db
    \<Rightarrow> voters_error + voter option \<times> election_db \<times> billing_db" where
  "add_voter E S now I choices r actor db bl =
     (case import_voters E S now I [(choices, r)] actor db bl of
        Inl e \<Rightarrow> Inl e
      | Inr (report, db', bl') \<Rightarrow>
          if ip_errors report \<noteq> [] then Inl (Import_failed [])
          else Inr (if vr_identifier r \<noteq> []
                    then first_where (\<lambda>v. vo_identifier v = Some (upper (strip (vr_identifier r)))) (db_voters db')
                    else (if db_voters db' = [] then None
                          else first_where (\<lambda>v. vo_id v = next_pk vo_id (db_voters db') - 1) (db_voters db')),
                    db', bl'))"

section \<open>Access codes\<close>

text \<open>Up to five attempts to find a code nobody else has.\<close>

fun try_codes :: "env \<Rightarrow> int \<Rightarrow> event \<Rightarrow> nat list list \<Rightarrow> voter list \<Rightarrow> voter option" where
  "try_codes E now ev [] rows = None"
| "try_codes E now ev (choices # more_choices) rows =
     (let v = snd (issue_credential E now choices (new_voter ev rows CODES)) in
      if voter_clash rows v then try_codes E now ev more_choices rows else Some v)"

fun generate_rows :: "env \<Rightarrow> int \<Rightarrow> event \<Rightarrow> nat list list list \<Rightarrow> voter list \<Rightarrow> nat \<times> voter list" where
  "generate_rows E now ev [] rows = (0, rows)"
| "generate_rows E now ev (attempts # rest) rows =
     (case try_codes E now ev (take 5 attempts) rows of
        None \<Rightarrow> generate_rows E now ev rest rows
      | Some v \<Rightarrow> (let (n, rows') = generate_rows E now ev rest (rows @ [v]) in (n + 1, rows')))"

definition generate_anonymous_codes ::
  "env \<Rightarrow> billing_settings \<Rightarrow> int \<Rightarrow> int \<Rightarrow> nat list list list \<Rightarrow> account option \<Rightarrow> election_db \<Rightarrow> billing_db
    \<Rightarrow> voters_error + nat \<times> election_db" where
  "generate_anonymous_codes E S now wanted choices actor db bl =
     (case roll_editable ''voter.credentials'' actor db of
        Inl e \<Rightarrow> Inl e
      | Inr db1 \<Rightarrow>
          (let n = max 0 (min wanted 5000) in
           case check_plan_limit S now n db1 bl of
             Inl e \<Rightarrow> Inl e
           | Inr _ \<Rightarrow>
               (let (created, rows) = generate_rows E now (db_event db1) (take (nat n) choices) (db_voters db1)
                in Inr (created, log_note (event_note ''VOTER_CODES_GENERATED'' actor db1) (update_voters (\<lambda>_. rows) db1)))))"

text \<open>A new code for one voter; a collision with another voter's code raises.\<close>

definition reissue :: "env \<Rightarrow> int \<Rightarrow> nat list \<Rightarrow> voter \<Rightarrow> election_db \<Rightarrow> voters_error + string \<times> voter \<times> election_db" where
  "reissue E now choices v db =
     (let (code, v') = issue_credential E now choices v in
      if voter_clash (db_voters db) v' then Inl Code_collision
      else Inr (code, v', update_voters (save_voter v') (revoke_issued (vo_id v) db)))"

definition reset_credential ::
  "env \<Rightarrow> int \<Rightarrow> nat list \<Rightarrow> voter \<Rightarrow> account option \<Rightarrow> election_db \<Rightarrow> voters_error + string \<times> election_db" where
  "reset_credential E now choices voter actor db =
     (case roll_access ''voter.credentials'' actor db of
        Inl e \<Rightarrow> Inl e
      | Inr _ \<Rightarrow>
          if vo_status voter = VOTED then Inl Voted_already
          else
            (case first_where (\<lambda>v. vo_id v = vo_id voter) (db_voters db) of
               None \<Rightarrow> Inl (Import_failed ''DoesNotExist'')
             | Some v \<Rightarrow>
                 (case reissue E now choices v db of
                    Inl e \<Rightarrow> Inl e
                  | Inr (code, v', db') \<Rightarrow>
                      Inr (code, log_note (note_about ''VOTER_CREDENTIAL_RESET'' actor (voter_target v') db) db'))))"

text \<open>Each voter in a transaction of its own: what was done before a collision stays.\<close>

fun reset_each :: "env \<Rightarrow> int \<Rightarrow> (nat list \<times> voter) list \<Rightarrow> election_db \<Rightarrow> (voters_error + nat) \<times> election_db" where
  "reset_each E now [] db = (Inr 0, db)"
| "reset_each E now ((choices, listed) # rest) db =
     (case first_where (\<lambda>v. vo_id v = vo_id listed) (db_voters db) of
        None \<Rightarrow> (Inl (Import_failed ''DoesNotExist''), db)
      | Some v \<Rightarrow>
          (case reissue E now choices v db of
             Inl e \<Rightarrow> (Inl e, db)
           | Inr (_, _, db1) \<Rightarrow>
               (let (r, db2) = reset_each E now rest db1 in (map_sum id Suc r, db2))))"

definition unused_credentials :: "election_db \<Rightarrow> voter list" where
  "unused_credentials db = filter (\<lambda>v. vo_status v \<noteq> VOTED \<and> vo_credential_hash v \<noteq> None) (db_voters db)"

definition reset_all_unused_credentials ::
  "env \<Rightarrow> int \<Rightarrow> (int \<Rightarrow> nat list) \<Rightarrow> account option \<Rightarrow> election_db \<Rightarrow> (voters_error + nat) \<times> election_db" where
  "reset_all_unused_credentials E now choices actor db =
     (case reset_each E now (map (\<lambda>v. (choices (vo_id v), v)) (unused_credentials db)) db of
        (Inl e, db') \<Rightarrow> (Inl e, db')
      | (Inr n, db') \<Rightarrow> (Inr n, log_note (event_note ''VOTER_CREDENTIALS_BULK_RESET'' actor db') db'))"

section \<open>Status and removal\<close>

definition set_status ::
  "int \<Rightarrow> voter \<Rightarrow> voter_status \<Rightarrow> account option \<Rightarrow> string \<Rightarrow> election_db \<Rightarrow> voters_error + election_db" where
  "set_status now voter status actor reason db =
     (case roll_access ''voter.edit'' actor db of
        Inl e \<Rightarrow> Inl e
      | Inr _ \<Rightarrow>
          if vo_status voter = VOTED then Inl Voted_already
          else if status \<notin> {ELIGIBLE, VERIFIED, SUSPENDED, INELIGIBLE} then Inl Bad_status
          else
            let verified = (if status = VERIFIED \<and> vo_verified_at voter = None then Some now else vo_verified_at voter);
                db1 = update_voters (update_where (\<lambda>v. vo_id v = vo_id voter)
                  (\<lambda>v. v\<lparr>vo_status := status, vo_status_reason := take 255 reason, vo_verified_at := verified\<rparr>)) db;
                db2 = (if status \<in> {SUSPENDED, INELIGIBLE} then revoke_issued (vo_id voter) db1 else db1)
            in Inr (log_note ((note_about ''VOTER_STATUS_CHANGED'' actor (voter_target voter) db)\<lparr>an_reason := reason\<rparr>) db2))"

definition remove_voter :: "voter \<Rightarrow> account option \<Rightarrow> election_db \<Rightarrow> voters_error + election_db" where
  "remove_voter voter actor db =
     (case roll_editable ''voter.edit'' actor db of
        Inl e \<Rightarrow> Inl e
      | Inr db1 \<Rightarrow>
          if vo_status voter = VOTED
             \<or> exists_where (\<lambda>a. va_voter a = vo_id voter \<and> va_status a = CONSUMED) (db_authorizations db1)
          then Inl Voted_already
          else
            let db2 = log_note (note_about ''VOTER_REMOVED'' actor (voter_target voter) db1) db1;
                db3 = db2\<lparr>db_authorizations := filter (\<lambda>a. va_voter a \<noteq> vo_id voter) (db_authorizations db2)\<rparr>
            in Inr (update_voters (filter (\<lambda>v. vo_id v \<noteq> vo_id voter)) db3))"

definition clear_unvoted :: "account option \<Rightarrow> election_db \<Rightarrow> voters_error + nat \<times> election_db" where
  "clear_unvoted actor db =
     (case roll_editable ''voter.credentials'' actor db of
        Inl e \<Rightarrow> Inl e
      | Inr db1 \<Rightarrow>
          (let unvoted = (\<lambda>i. exists_where (\<lambda>v. vo_id v = i \<and> vo_status v \<noteq> VOTED) (db_voters db1));
               db2 = db1\<lparr>db_authorizations :=
                        filter (\<lambda>a. \<not> (unvoted (va_voter a) \<and> va_status a \<noteq> CONSUMED)) (db_authorizations db1)\<rparr>;
               n = count_where (\<lambda>v. vo_status v \<noteq> VOTED) (db_voters db1)
           in if exists_where (\<lambda>a. unvoted (va_voter a)) (db_authorizations db2) then Inl Protected
              else Inr (n, log_note (event_note ''VOTERS_CLEARED'' actor db2)
                        (update_voters (filter (\<lambda>v. vo_status v = VOTED)) db2))))"

end
