(* ===== verification/Request_Guards.thy ===== *)
theory Request_Guards
  imports Crypto Contracts
begin

text \<open>
  The guards a request passes: core/ratelimit.py (fixed-window counters in the cache),
  core/otp.py (one-time passcodes) and core/idempotency.py (idempotency keys).

  Times are microseconds, windows and limits seconds as in the code. A cache entry is a
  counter with its key; that entries expire after their window is over is not modelled,
  because a later window has a key of its own. What \<open>verify\<close> saves before it raises is
  kept, so its result comes with the table also when it fails.
\<close>

section \<open>Rate limits\<close>

type_synonym counters = "((string \<times> string \<times> int) \<times> int) list"

definition bucket_of :: "int \<Rightarrow> int \<Rightarrow> int" where
  "bucket_of now window = now div (window * 1000000)"

definition counter :: "string \<Rightarrow> string \<Rightarrow> int \<Rightarrow> counters \<Rightarrow> int" where
  "counter scope ident bucket cs = (case map_of cs (scope, ident, bucket) of Some n \<Rightarrow> n | None \<Rightarrow> 0)"

text \<open>Whether the attempt is allowed, the seconds to wait, and the counters.\<close>

definition hit :: "int \<Rightarrow> string \<Rightarrow> string \<Rightarrow> int \<Rightarrow> int \<Rightarrow> counters \<Rightarrow> (bool \<times> int) \<times> counters" where
  "hit now scope ident limit window cs =
     (let b = bucket_of now window; n = counter scope ident b cs + 1;
          wait = ((b + 1) * window * 1000000 - now) div 1000000 + 1
      in ((n \<le> limit, wait), ((scope, ident, b), n) # cs))"

definition peek :: "int \<Rightarrow> string \<Rightarrow> string \<Rightarrow> int \<Rightarrow> counters \<Rightarrow> int" where
  "peek now scope ident window cs = counter scope ident (bucket_of now window) cs"

definition reset_counter :: "int \<Rightarrow> string \<Rightarrow> string \<Rightarrow> int \<Rightarrow> counters \<Rightarrow> counters" where
  "reset_counter now scope ident window cs =
     filter (\<lambda>(k, n). k \<noteq> (scope, ident, bucket_of now window)) cs"

section \<open>One-time passcodes\<close>

datatype otp_channel = EMAIL | SMS

record otp_challenge =
  oc_id :: string
  oc_purpose :: string
  oc_subject_type :: string
  oc_subject :: string
  oc_channel :: otp_channel
  oc_hint :: string
  oc_hash :: string
  oc_attempts :: int
  oc_max_attempts :: int
  oc_expires :: int
  oc_consumed :: "int option"
  oc_created :: int

record otp_db =
  op_challenges :: "otp_challenge list"
  op_counters :: counters

datatype otp_error =
  No_contact | Too_many_requests | Sent_recently | No_longer_valid | Code_expired | Too_many_attempts | Wrong_code int

definition otp_ttl :: int where
  "otp_ttl = 10 * 60 * 1000000"

definition resend_cooldown :: int where
  "resend_cooldown = 60"

definition max_per_hour :: int where
  "max_per_hour = 6"

definition otp_hash :: "crypto \<Rightarrow> config \<Rightarrow> string \<Rightarrow> string \<Rightarrow> string" where
  "otp_hash K cf challenge_id code = keyed_hash K cf ''otp'' (challenge_id @ CHR '':'' # code)"

definition mask_email :: "string \<Rightarrow> string" where
  "mask_email email =
     (if CHR ''@'' \<notin> set email then []
      else let (name, domain) = partition_at (CHR ''@'') email
           in take 1 name @ replicate (max (length name - 1) 3) (CHR ''*'') @ CHR ''@'' # domain)"

definition mask_phone :: "string \<Rightarrow> string" where
  "mask_phone phone =
     (let digits = filter (\<lambda>c. is_digit c \<or> c = CHR ''+'') phone; n = length digits
      in if n < 4 then [] else take 4 digits @ replicate (max (n - 6) 2) (CHR ''*'') @ drop (n - 2) digits)"

text \<open>The challenge and the code that is sent; the attempt is counted even when it is refused.\<close>

definition issue_otp ::
  "crypto \<Rightarrow> config \<Rightarrow> int \<Rightarrow> nat list \<Rightarrow> string \<Rightarrow> string \<Rightarrow> string \<Rightarrow> string \<Rightarrow> otp_channel \<Rightarrow> string \<Rightarrow> otp_db
    \<Rightarrow> (otp_error + otp_challenge \<times> string) \<times> otp_db" where
  "issue_otp K cf now choices uuid purpose subject_type subject channel destination db =
     (if destination = [] then (Inl No_contact, db)
      else
        let ident = subject_type @ '':'' @ subject @ '':'' @ purpose;
            ((allowed, wait), cs) = hit now ''otp-issue'' ident max_per_hour 3600 (op_counters db);
            db1 = db\<lparr>op_counters := cs\<rparr>
        in if \<not> allowed then (Inl Too_many_requests, db1)
           else if exists_where (\<lambda>c. oc_subject_type c = subject_type \<and> oc_subject c = subject \<and> oc_purpose c = purpose
                     \<and> now - resend_cooldown * 1000000 \<le> oc_created c) (op_challenges db)
           then (Inl Sent_recently, db1)
           else
             let code = numeric_code (take 6 choices);
                 c = \<lparr>oc_id = uuid, oc_purpose = purpose, oc_subject_type = subject_type, oc_subject = subject,
                      oc_channel = channel, oc_hint = (if channel = EMAIL then mask_email destination else mask_phone destination),
                      oc_hash = otp_hash K cf uuid code, oc_attempts = 0, oc_max_attempts = 5, oc_expires = now + otp_ttl,
                      oc_consumed = None, oc_created = now\<rparr>
             in (Inr (c, code), db1\<lparr>op_challenges := op_challenges db1 @ [c]\<rparr>))"

definition verify_otp_code ::
  "crypto \<Rightarrow> config \<Rightarrow> int \<Rightarrow> string \<Rightarrow> string \<Rightarrow> string \<Rightarrow> string \<Rightarrow> string \<Rightarrow> otp_db
    \<Rightarrow> (otp_error + otp_challenge) \<times> otp_db" where
  "verify_otp_code K cf now challenge_id code purpose subject_type subject db =
     (let given = filter (\<lambda>x. x \<noteq> CHR '' '') (strip code) in
      case first_where (\<lambda>c. oc_id c = challenge_id \<and> oc_purpose c = purpose \<and> oc_subject_type c = subject_type
                            \<and> oc_subject c = subject) (op_challenges db) of
        None \<Rightarrow> (Inl No_longer_valid, db)
      | Some c \<Rightarrow>
          if oc_consumed c \<noteq> None then (Inl No_longer_valid, db)
          else if oc_expires c \<le> now then (Inl Code_expired, db)
          else if oc_max_attempts c \<le> oc_attempts c then (Inl Too_many_attempts, db)
          else
            let ok = (otp_hash K cf (oc_id c) given = oc_hash c);
                c' = c\<lparr>oc_attempts := oc_attempts c + 1, oc_consumed := (if ok then Some now else None)\<rparr>;
                db' = db\<lparr>op_challenges := update_where (\<lambda>x. oc_id x = oc_id c) (\<lambda>_. c') (op_challenges db)\<rparr>
            in if ok then (Inr c', db')
               else if oc_max_attempts c' - oc_attempts c' = 0 then (Inl Too_many_attempts, db')
               else (Inl (Wrong_code (oc_max_attempts c' - oc_attempts c')), db'))"

section \<open>Idempotency keys\<close>

datatype idem_state = IN_PROGRESS | COMPLETED

record idem_record =
  id_scope :: string
  id_key :: string
  id_hash :: string
  id_state :: idem_state
  id_status :: "int option"
  id_body :: "json option"
  id_expires :: int

datatype idem_error = Key_conflict | Key_in_progress

definition idem_ttl :: int where
  "idem_ttl = 24 * 3600 * 1000000"

definition request_fingerprint :: "crypto \<Rightarrow> json \<Rightarrow> string" where
  "request_fingerprint K payload = sha256_hex K (canonical_json (float_repr K) payload)"

definition ascii_alnum :: "char \<Rightarrow> bool" where
  "ascii_alnum c \<longleftrightarrow>
     (let n = of_char c :: nat in (48 \<le> n \<and> n \<le> 57) \<or> (65 \<le> n \<and> n \<le> 90) \<or> (97 \<le> n \<and> n \<le> 122))"

text \<open>\<open>isalnum\<close> on ASCII text.\<close>

definition valid_key :: "string \<Rightarrow> bool" where
  "valid_key key \<longleftrightarrow> 8 \<le> length key \<and> length key \<le> 128 \<and> list_all (\<lambda>c. ascii_alnum c \<or> c \<in> set ''-_:.'') key"

definition same_key :: "string \<Rightarrow> string \<Rightarrow> idem_record \<Rightarrow> bool" where
  "same_key scope key r \<longleftrightarrow> id_scope r = scope \<and> id_key r = key"

definition begin_key ::
  "crypto \<Rightarrow> int \<Rightarrow> int \<Rightarrow> string \<Rightarrow> string \<Rightarrow> json \<Rightarrow> idem_record list \<Rightarrow> idem_error + (idem_record \<times> bool) \<times> idem_record list" where
  "begin_key K ttl now scope key payload rows =
     (let fresh = \<lparr>id_scope = scope, id_key = key, id_hash = request_fingerprint K payload, id_state = IN_PROGRESS,
                   id_status = None, id_body = None, id_expires = now + ttl\<rparr>
      in case first_where (same_key scope key) rows of
           None \<Rightarrow> Inr ((fresh, False), rows @ [fresh])
         | Some r \<Rightarrow>
             if id_expires r \<le> now then Inr ((fresh, False), update_where (same_key scope key) (\<lambda>_. fresh) rows)
             else if id_hash r \<noteq> request_fingerprint K payload then Inl Key_conflict
             else if id_state r \<noteq> COMPLETED then Inl Key_in_progress
             else Inr ((r, True), rows))"

definition complete_key :: "idem_record \<Rightarrow> int \<Rightarrow> json \<Rightarrow> idem_record list \<Rightarrow> idem_record list" where
  "complete_key r status body rows =
     update_where (same_key (id_scope r) (id_key r))
       (\<lambda>x. x\<lparr>id_state := COMPLETED, id_status := Some status, id_body := Some body\<rparr>) rows"

definition abandon_key :: "idem_record \<Rightarrow> idem_record list \<Rightarrow> idem_record list" where
  "abandon_key r rows =
     filter (\<lambda>x. \<not> (same_key (id_scope r) (id_key r) x \<and> id_state x = IN_PROGRESS)) rows"

section \<open>What the guards allow\<close>

text \<open>A rate limit lets at most \<open>limit\<close> attempts through in a window.\<close>

fun attempts_allowed :: "string \<Rightarrow> string \<Rightarrow> int \<Rightarrow> int \<Rightarrow> int list \<Rightarrow> counters \<Rightarrow> nat" where
  "attempts_allowed scope ident limit window [] cs = 0"
| "attempts_allowed scope ident limit window (now # ts) cs =
     (let ((allowed, wait), cs') = hit now scope ident limit window cs
      in (if allowed then 1 else 0) + attempts_allowed scope ident limit window ts cs')"

lemma counter_cons [simp]:
  "counter s i b ((k, n) # cs) = (if k = (s, i, b) then n else counter s i b cs)"
  by (auto simp: counter_def)

theorem rate_limit_holds:
  assumes "\<forall>t\<in>set ts. bucket_of t window = b"
  shows "int (attempts_allowed scope ident limit window ts cs) \<le> max 0 (limit - counter scope ident b cs)"
  using assms
proof (induction ts arbitrary: cs)
  case (Cons t times)
  then have b: "bucket_of t window = b" by simp
  note ih = Cons.IH [of "((scope, ident, b), counter scope ident b cs + 1) # cs"]
  show ?case using ih Cons.prems by (simp add: hit_def b Let_def max_def split: if_splits)
qed simp

text \<open>How often the code of a challenge is compared, and how often it was right.\<close>

record otp_try =
  ot_now :: int
  ot_code :: string

fun otp_run :: "crypto \<Rightarrow> config \<Rightarrow> string \<Rightarrow> string \<Rightarrow> string \<Rightarrow> string \<Rightarrow> otp_try list \<Rightarrow> otp_db
    \<Rightarrow> (otp_error + otp_challenge) list \<times> otp_db" where
  "otp_run K cf challenge_id purpose subject_type subject [] db = ([], db)"
| "otp_run K cf challenge_id purpose subject_type subject (a # tries) db =
     (let (r, db1) = verify_otp_code K cf (ot_now a) challenge_id (ot_code a) purpose subject_type subject db;
          (rs, db2) = otp_run K cf challenge_id purpose subject_type subject tries db1
      in (r # rs, db2))"

fun right_code :: "otp_error + otp_challenge \<Rightarrow> bool" where
  "right_code (Inr _) = True"
| "right_code (Inl _) = False"

lemma found_after_save:
  assumes "first_where P rows = Some c" and "distinct (map oc_id rows)" and "P c'" and "oc_id c' = oc_id c"
  shows "first_where P (update_where (\<lambda>x. oc_id x = oc_id c) (\<lambda>_. c') rows) = Some c'"
  using assms(1,2)
proof (induction rows)
  case (Cons x rows)
  show ?case
  proof (cases "P x")
    case True
    with Cons.prems assms(3) show ?thesis by (simp add: first_where_def)
  next
    case False
    then have c: "first_where P rows = Some c" using Cons.prems by (simp add: first_where_def)
    then have "oc_id x \<noteq> oc_id c" using Cons.prems by (force dest: first_where_Some)
    with False Cons.IH [OF c] Cons.prems show ?thesis by (simp add: first_where_def)
  qed
qed (simp add: first_where_def)

abbreviation meant :: "string \<Rightarrow> string \<Rightarrow> string \<Rightarrow> string \<Rightarrow> otp_challenge \<Rightarrow> bool" where
  "meant i purpose subject_type subject c \<equiv>
     oc_id c = i \<and> oc_purpose c = purpose \<and> oc_subject_type c = subject_type \<and> oc_subject c = subject"

definition dead_challenge :: "int \<Rightarrow> otp_challenge \<Rightarrow> bool" where
  "dead_challenge now c \<longleftrightarrow> oc_consumed c \<noteq> None \<or> oc_expires c \<le> now \<or> oc_max_attempts c \<le> oc_attempts c"

lemma dead_stays_dead:
  assumes "first_where (meant i purpose st s) (op_challenges db) = Some c" and "dead_challenge now c"
    and "\<forall>a\<in>set tries. now \<le> ot_now a"
  shows "filter right_code (fst (otp_run K cf i purpose st s tries db)) = []"
  using assms
proof (induction tries arbitrary: db)
  case (Cons a tries)
  have "\<exists>e. verify_otp_code K cf (ot_now a) i (ot_code a) purpose st s db = (Inl e, db)"
    using Cons.prems by (auto simp: verify_otp_code_def dead_challenge_def Let_def)
  then obtain e where "verify_otp_code K cf (ot_now a) i (ot_code a) purpose st s db = (Inl e, db)" by blast
  with Cons.IH [OF Cons.prems(1,2)] Cons.prems(3) show ?case by (simp add: case_prod_unfold Let_def)
qed simp

lemma verify_alive:
  assumes "first_where (meant i purpose st s) (op_challenges db) = Some c" and "\<not> dead_challenge now c"
    and "distinct (map oc_id (op_challenges db))"
  shows "\<exists>r db1 c1. verify_otp_code K cf now i code purpose st s db = (r, db1)
    \<and> first_where (meant i purpose st s) (op_challenges db1) = Some c1
    \<and> map oc_id (op_challenges db1) = map oc_id (op_challenges db)
    \<and> oc_expires c1 = oc_expires c \<and> oc_max_attempts c1 = oc_max_attempts c \<and> oc_attempts c1 = oc_attempts c + 1
    \<and> (right_code r \<longleftrightarrow> oc_consumed c1 \<noteq> None)"
proof -
  define ok where "ok \<longleftrightarrow> otp_hash K cf (oc_id c) (filter (\<lambda>x. x \<noteq> CHR '' '') (strip code)) = oc_hash c"
  define c1 where "c1 = c\<lparr>oc_attempts := oc_attempts c + 1, oc_consumed := (if ok then Some now else None)\<rparr>"
  define db1 where "db1 = db\<lparr>op_challenges := update_where (\<lambda>x. oc_id x = oc_id c) (\<lambda>_. c1) (op_challenges db)\<rparr>"
  have c: "meant i purpose st s c" using assms(1) by (auto dest: first_where_Some)
  have found: "first_where (meant i purpose st s) (op_challenges db1) = Some c1"
    using found_after_save [OF assms(1,3)] c by (simp add: db1_def c1_def)
  have ids: "map oc_id (op_challenges db1) = map oc_id (op_challenges db)"
    by (auto simp: db1_def c1_def update_where_def)
  have "\<exists>r. verify_otp_code K cf now i code purpose st s db = (r, db1) \<and> (right_code r \<longleftrightarrow> ok)"
    using assms(1,2)
    by (auto simp: verify_otp_code_def dead_challenge_def Let_def ok_def db1_def c1_def)
  with found ids show ?thesis by (auto simp: c1_def)
qed


text \<open>A key that is in use is not claimed again before it expires.\<close>

lemma claimed:
  assumes "begin_key K ttl now scope key payload rows = Inr ((r, False), rows')"
  shows "first_where (same_key scope key) rows' = Some r \<and> id_expires r = now + ttl \<and> id_state r = IN_PROGRESS
    \<and> id_hash r = request_fingerprint K payload \<and> id_scope r = scope \<and> id_key r = key"
  using assms
  by (auto simp: begin_key_def Let_def same_key_def [abs_def] first_where_append first_where_put split: option.splits if_splits)

theorem key_claimed_once:
  assumes "begin_key K ttl now scope key payload rows = Inr ((r, False), rows')" and "now' < now + ttl"
  shows "begin_key K ttl' now' scope key payload' rows' \<in> {Inl Key_conflict, Inl Key_in_progress}"
  using claimed [OF assms(1)] assms(2) by (simp add: begin_key_def Let_def)

text \<open>Once it is completed the same request gets the recorded outcome, another one is refused.\<close>

theorem key_replays_outcome:
  assumes "begin_key K ttl now scope key payload rows = Inr ((r, False), rows')" and "now' < now + ttl"
  shows "begin_key K ttl' now' scope key payload' (complete_key r status body rows') =
    (if request_fingerprint K payload' = request_fingerprint K payload
     then Inr ((r\<lparr>id_state := COMPLETED, id_status := Some status, id_body := Some body\<rparr>, True), complete_key r status body rows')
     else Inl Key_conflict)"
  using claimed [OF assms(1)] assms(2)
  by (simp add: begin_key_def Let_def complete_key_def first_where_update same_key_def)

section \<open>Example\<close>

definition ex_challenge :: otp_challenge where
  "ex_challenge =
     \<lparr>oc_id = ''u'', oc_purpose = ''VOTER_LOGIN'', oc_subject_type = ''voter'', oc_subject = ''1'', oc_channel = EMAIL,
      oc_hint = [], oc_hash = otp_hash ex_crypto ex_config ''u'' ''123456'', oc_attempts = 0, oc_max_attempts = 5,
      oc_expires = 100, oc_consumed = None, oc_created = 0\<rparr>"

definition ex_tries :: "otp_try list" where
  "ex_tries = [\<lparr>ot_now = 1, ot_code = ''000000''\<rparr>, \<lparr>ot_now = 2, ot_code = '' 123 456''\<rparr>, \<lparr>ot_now = 3, ot_code = ''123456''\<rparr>]"


end
