(* ===== verification/Voter_Access.thy ===== *)
theory Voter_Access
  imports Voters Request_Guards Pyfloat
begin

text \<open>
  How voters reach an election: self-registration, lost codes, invitations and exports of
  elections/voters.py, and elections/voter_auth.py - sign-in with an access code, a
  passcode, a directory, single sign-on or a platform account, and the voter's session.

  A sign-in that fails is logged and then raises, so these operations return their result
  with the database. The answer of the directory (\<open>ldap_authenticate\<close>) and the verified
  claims of the identity provider are arguments; a platform account is its id, whether it
  is signed in, and its email address. The session is the table of signed-in elections
  kept under \<open>fv_voter\<close>; that the session key is cycled is not modelled.
\<close>

section \<open>Messages to voters\<close>

datatype notice_kind = Invitation | Registration

record notice =
  no_kind :: notice_kind
  no_channel :: otp_channel
  no_recipient :: string
  no_code :: string

section \<open>Self-service\<close>

text \<open>A new code goes only to the address on the roll.\<close>

definition resend_credential_public ::
  "env \<Rightarrow> int \<Rightarrow> nat list \<Rightarrow> string \<Rightarrow> election_db \<Rightarrow> voters_error + notice list \<times> election_db" where
  "resend_credential_public E now choices given db =
     (let identifier = upper (strip given) in
      if identifier = [] then Inr ([], db)
      else case first_where (\<lambda>v. vo_identifier v = Some identifier) (db_voters db) of
        None \<Rightarrow> Inr ([], log_note ((event_note ''VOTER_CODE_RESEND_REQUESTED'' None db)\<lparr>an_result := ''FAILURE''\<rparr>) db)
      | Some v \<Rightarrow>
          if vo_status v \<notin> {ELIGIBLE, VERIFIED}
          then Inr ([], log_note ((event_note ''VOTER_CODE_RESEND_REQUESTED'' None db)\<lparr>an_result := ''FAILURE''\<rparr>) db)
          else case vo_email v of
            None \<Rightarrow>
              Inr ([], log_note ((note_about ''VOTER_CODE_RESEND_REQUESTED'' None (voter_target v) db)\<lparr>an_result := ''FAILURE''\<rparr>) db)
          | Some email \<Rightarrow>
              if email = [] \<or> ''CODE'' \<notin> set (ev_auth_methods (db_event db))
              then Inr ([], log_note ((note_about ''VOTER_CODE_RESEND_REQUESTED'' None (voter_target v) db)\<lparr>an_result := ''FAILURE''\<rparr>) db)
              else case reissue E now choices v db of
                Inl e \<Rightarrow> Inl e
              | Inr (code, v', db') \<Rightarrow>
                  Inr ([\<lparr>no_kind = Invitation, no_channel = EMAIL, no_recipient = email, no_code = code\<rparr>],
                       log_note (note_about ''VOTER_CODE_RESENT'' None (voter_target v') db) db'))"

definition self_registered ::
  "env \<Rightarrow> int \<Rightarrow> nat list \<Rightarrow> string \<Rightarrow> string \<Rightarrow> string \<Rightarrow> string \<Rightarrow> election_db \<Rightarrow> string option \<times> voter" where
  "self_registered E now choices identifier email name phone db =
     (let v1 = (new_voter (db_event db) (db_voters db) SELF_REGISTRATION)
                 \<lparr>vo_identifier := text_or_none identifier, vo_name := name, vo_status := VERIFIED,
                  vo_email_verified := Some now, vo_verified_at := Some now\<rparr>;
          v2 = set_email E email v1;
          v3 = (if phone = [] then v2 else set_phone E phone v2)
      in if ''CODE'' \<in> set (ev_auth_methods (db_event db))
         then (let (code, v4) = issue_credential E now choices v3 in (Some code, v4))
         else (None, v3))"

definition self_register ::
  "env \<Rightarrow> billing_settings \<Rightarrow> int \<Rightarrow> nat list \<Rightarrow> string \<Rightarrow> string \<Rightarrow> string \<Rightarrow> string \<Rightarrow> election_db \<Rightarrow> billing_db
    \<Rightarrow> voters_error + voter \<times> notice list \<times> election_db" where
  "self_register E S now choices given email name phone db bl =
     (let ev = db_event db; domains = email_domain_list ev; identifier = upper (strip given) in
      if \<not> ev_self_registration ev then Inl No_self_registration
      else if ev_voters_frozen ev \<or> ev_status ev \<in> set locked_states then Inl Registration_closed
      else if domains \<noteq> [] \<and> lower (after_last (CHR ''@'') email) \<notin> set domains then Inl Foreign_email
      else if identifier \<noteq> [] \<and> \<not> valid_identifier identifier then Inl Bad_identifier
      else if exists_where (\<lambda>v. vo_email_index v = contact_index E ''email'' email) (db_voters db)
              \<or> (identifier \<noteq> [] \<and> exists_where (\<lambda>v. vo_identifier v = Some identifier) (db_voters db))
      then Inl Already_registered
      else case check_plan_limit S now 1 db bl of
        Inl e \<Rightarrow> Inl e
      | Inr _ \<Rightarrow>
          (let (code, v) = self_registered E now choices identifier email name phone db in
           if voter_clash (db_voters db) v then Inl Code_collision
           else Inr (v, [\<lparr>no_kind = Registration, no_channel = EMAIL, no_recipient = email,
                          no_code = (case code of Some c \<Rightarrow> c | None \<Rightarrow> [])\<rparr>],
                     log_note (note_about ''VOTER_SELF_REGISTERED'' None (voter_target v) db)
                       (update_voters (\<lambda>rows. rows @ [v]) db))))"

section \<open>Invitations, exports, turnout\<close>

definition invitation_for :: "(int \<Rightarrow> string option) \<Rightarrow> voter \<Rightarrow> notice list" where
  "invitation_for codes v =
     (let code = (case codes (vo_id v) of Some (c # cs) \<Rightarrow> c # cs
                  | _ \<Rightarrow> (case vo_credential_text v of Some c \<Rightarrow> c | None \<Rightarrow> []));
          to = (\<lambda>ch r. [\<lparr>no_kind = Invitation, no_channel = ch, no_recipient = r, no_code = code\<rparr>])
      in case vo_email v of
           Some (c # cs) \<Rightarrow> to EMAIL (c # cs)
         | _ \<Rightarrow> (case vo_phone v of Some (c # cs) \<Rightarrow> to SMS (c # cs) | _ \<Rightarrow> []))"

definition send_invitations ::
  "int \<Rightarrow> account option \<Rightarrow> voter list option \<Rightarrow> (int \<Rightarrow> string option) \<Rightarrow> election_db
    \<Rightarrow> voters_error + notice list \<times> election_db" where
  "send_invitations now actor chosen codes db =
     (case roll_access ''voter.credentials'' actor db of
        Inl e \<Rightarrow> Inl e
      | Inr _ \<Rightarrow>
          (let vs = (case chosen of Some xs \<Rightarrow> xs | None \<Rightarrow> filter (\<lambda>v. vo_status v \<noteq> VOTED) (db_voters db));
               ids = set (map vo_id vs)
           in Inr (concat (map (invitation_for codes) vs),
                   log_note (event_note ''VOTER_INVITATIONS_SENT'' actor db)
                     (update_voters (update_where (\<lambda>v. vo_id v \<in> ids) (\<lambda>v. v\<lparr>vo_invited_at := Some now\<rparr>)) db))))"

record credential_row =
  cr_identifier :: string
  cr_name :: string
  cr_email :: string
  cr_code :: string
  cr_status :: voter_status
  cr_voted_at :: "int option"

definition or_empty :: "string option \<Rightarrow> string" where
  "or_empty s = (case s of Some x \<Rightarrow> x | None \<Rightarrow> [])"

text \<open>Ordered by identifier and then key; a missing identifier sorts first.\<close>

definition export_credentials :: "account option \<Rightarrow> election_db \<Rightarrow> voters_error + credential_row list \<times> election_db" where
  "export_credentials actor db =
     (case roll_access ''voter.credentials'' actor db of
        Inl e \<Rightarrow> Inl e
      | Inr _ \<Rightarrow>
          Inr (map (\<lambda>v. \<lparr>cr_identifier = or_empty (vo_identifier v), cr_name = vo_name v, cr_email = or_empty (vo_email v),
                         cr_code = or_empty (vo_credential_text v), cr_status = vo_status v, cr_voted_at = vo_voted_at v\<rparr>)
                 (sort_key (\<lambda>v. (case vo_identifier v of None \<Rightarrow> (0::nat, []) | Some i \<Rightarrow> (1, i), vo_id v)) (db_voters db)),
               log_note (event_note ''VOTER_CREDENTIALS_EXPORTED'' actor db) db))"

record turnout_report =
  to_eligible :: int
  to_voted :: int
  to_total :: int
  to_percentage :: rat

definition turnout :: "election_db \<Rightarrow> turnout_report" where
  "turnout db =
     (let eligible = int (count_where (\<lambda>v. vo_status v \<notin> {SUSPENDED, INELIGIBLE}) (db_voters db));
          voted = int (count_where (\<lambda>v. vo_status v = VOTED) (db_voters db))
      in \<lparr>to_eligible = eligible, to_voted = voted, to_total = int (length (db_voters db)),
          to_percentage = pct voted eligible\<rparr>)"

definition credential_matches :: "env \<Rightarrow> election_db \<Rightarrow> voter \<Rightarrow> string \<Rightarrow> bool" where
  "credential_matches E db v code \<longleftrightarrow> or_empty (vo_credential_hash v) = hash_voting_code E (ev_id (db_event db)) code"

section \<open>Signing in\<close>

datatype auth_error =
    Auth_failed
  | Auth_voted
  | Auth_ineligible
  | Auth_no_contact
  | Auth_otp otp_error
  | Auth_not_configured
  | Auth_registration voters_error
  | Auth_login_required

type_synonym sign_in = "(auth_error + voter) \<times> election_db"

definition check_status :: "voter \<Rightarrow> auth_error + voter" where
  "check_status v =
     (if vo_status v = VOTED then Inl Auth_voted
      else if vo_status v \<in> {SUSPENDED, INELIGIBLE} then Inl Auth_ineligible
      else Inr v)"

definition fail_sign_in :: "election_db \<Rightarrow> sign_in" where
  "fail_sign_in db = (Inl Auth_failed, log_note ((event_note ''VOTER_AUTH_FAILED'' None db)\<lparr>an_result := ''FAILURE''\<rparr>) db)"

definition authenticate_code :: "env \<Rightarrow> string \<Rightarrow> string \<Rightarrow> election_db \<Rightarrow> sign_in" where
  "authenticate_code E given_identifier given_code db =
     (let code = upper (strip given_code); identifier = upper (strip given_identifier); ev = db_event db in
      if code = [] then fail_sign_in db
      else case first_where (\<lambda>v. vo_credential_hash v = Some (hash_voting_code E (ev_id ev) code)) (db_voters db) of
        None \<Rightarrow> fail_sign_in db
      | Some v \<Rightarrow>
          (let named = (ev_code_mode ev = STUDENT_ID \<or> or_empty (vo_identifier v) \<noteq> []) in
           if named \<and> ev_code_mode ev = STUDENT_ID \<and> identifier = [] then fail_sign_in db
           else if named \<and> identifier \<noteq> [] \<and> upper (or_empty (vo_identifier v)) \<noteq> identifier then fail_sign_in db
           else if \<not> credential_matches E db v code then fail_sign_in db
           else (check_status v, db)))"

definition find_voter :: "env \<Rightarrow> string \<Rightarrow> election_db \<Rightarrow> voter option" where
  "find_voter E given db =
     (let x = strip given in
      if x = [] then None
      else if CHR ''@'' \<in> set x then first_where (\<lambda>v. vo_email_index v = contact_index E ''email'' x) (db_voters db)
      else first_where (\<lambda>v. vo_identifier v = Some (upper x)) (db_voters db))"

definition start_otp ::
  "env \<Rightarrow> int \<Rightarrow> nat list \<Rightarrow> string \<Rightarrow> voter \<Rightarrow> otp_channel \<Rightarrow> string \<Rightarrow> otp_db
    \<Rightarrow> (auth_error + otp_challenge \<times> notice) \<times> otp_db" where
  "start_otp E now choices uuid v channel purpose o_db =
     (let destination = or_empty (if channel = EMAIL then vo_email v else vo_phone v) in
      if destination = [] then (Inl Auth_no_contact, o_db)
      else case issue_otp (en_crypto E) (en_config E) now choices uuid purpose ''voter'' (str_int (vo_id v)) channel destination o_db of
        (Inl e, o_db') \<Rightarrow> (Inl (Auth_otp e), o_db')
      | (Inr (c, code), o_db') \<Rightarrow>
          (Inr (c, \<lparr>no_kind = Invitation, no_channel = channel, no_recipient = destination, no_code = code\<rparr>), o_db'))"

definition verified_by_otp :: "int \<Rightarrow> otp_channel \<Rightarrow> voter \<Rightarrow> voter" where
  "verified_by_otp now channel v =
     (let v1 = (if channel = EMAIL \<and> vo_email_verified v = None then v\<lparr>vo_email_verified := Some now\<rparr> else v);
          v2 = (if channel = SMS \<and> vo_phone_verified v = None then v1\<lparr>vo_phone_verified := Some now\<rparr> else v1)
      in if vo_status v = ELIGIBLE then v2\<lparr>vo_status := VERIFIED, vo_verified_at := Some now\<rparr> else v2)"

text \<open>The columns \<open>verify_otp\<close> writes are those of the instance it was given.\<close>

definition verify_otp ::
  "env \<Rightarrow> int \<Rightarrow> voter \<Rightarrow> string \<Rightarrow> string \<Rightarrow> string \<Rightarrow> otp_db \<Rightarrow> election_db
    \<Rightarrow> (auth_error + otp_challenge) \<times> otp_db \<times> election_db" where
  "verify_otp E now v challenge_id code purpose o_db db =
     (case verify_otp_code (en_crypto E) (en_config E) now challenge_id code purpose ''voter'' (str_int (vo_id v)) o_db of
        (Inl e, o_db') \<Rightarrow>
          (Inl (Auth_otp e), o_db',
           log_note ((note_about ''VOTER_OTP_FAILED'' None (voter_target v) db)\<lparr>an_result := ''FAILURE''\<rparr>) db)
      | (Inr c, o_db') \<Rightarrow>
          (let v' = verified_by_otp now (oc_channel c) v in
           (Inr c, o_db',
            update_voters (update_where (\<lambda>x. vo_id x = vo_id v)
              (\<lambda>x. x\<lparr>vo_email_verified := vo_email_verified v', vo_phone_verified := vo_phone_verified v',
                     vo_status := vo_status v', vo_verified_at := vo_verified_at v'\<rparr>)) db)))"

record directory_answer =
  da_identifier :: string
  da_mail :: string

text \<open>\<open>None\<close>: no directory is configured; \<open>Some None\<close>: it refused the user.\<close>

definition authenticate_ldap :: "env \<Rightarrow> string \<Rightarrow> directory_answer option option \<Rightarrow> election_db \<Rightarrow> sign_in" where
  "authenticate_ldap E username answer db =
     (case answer of
        None \<Rightarrow> (Inl Auth_not_configured, db)
      | Some None \<Rightarrow> fail_sign_in db
      | Some (Some d) \<Rightarrow>
          (let identifier = upper (strip (if da_identifier d = [] then username else da_identifier d));
               found = (case first_where (\<lambda>v. vo_identifier v = Some identifier) (db_voters db) of
                          Some v \<Rightarrow> Some v
                        | None \<Rightarrow> if da_mail d = [] then None else find_voter E (da_mail d) db)
           in case found of None \<Rightarrow> fail_sign_in db | Some v \<Rightarrow> (check_status v, db)))"

record sso_claims =
  sc_issuer :: string
  sc_subject :: string
  sc_email :: string
  sc_email_verified :: bool
  sc_name :: string

definition link_sso :: "int \<Rightarrow> string \<Rightarrow> voter \<Rightarrow> voter" where
  "link_sso now subject_index v =
     v\<lparr>vo_sso_index := subject_index,
       vo_email_verified := (case vo_email_verified v of None \<Rightarrow> Some now | Some t \<Rightarrow> Some t)\<rparr>"

definition voter_from_sso ::
  "env \<Rightarrow> billing_settings \<Rightarrow> int \<Rightarrow> nat list \<Rightarrow> sso_claims \<Rightarrow> election_db \<Rightarrow> billing_db \<Rightarrow> sign_in" where
  "voter_from_sso E S now choices claims db bl =
     (let subject_index = contact_index E ''sso'' (sc_issuer claims @ CHR ''|'' # sc_subject claims);
          email = strip (sc_email claims); trusted = (email \<noteq> [] \<and> sc_email_verified claims) in
      case first_where (\<lambda>v. vo_sso_index v = subject_index) (db_voters db) of
        Some v \<Rightarrow> (check_status v, db)
      | None \<Rightarrow>
          (case (if trusted then first_where (\<lambda>v. vo_email_index v = contact_index E ''email'' email) (db_voters db) else None) of
             Some v \<Rightarrow>
               (let v' = link_sso now subject_index v in
                (check_status v',
                 update_voters (update_where (\<lambda>x. vo_id x = vo_id v)
                   (\<lambda>x. x\<lparr>vo_sso_index := vo_sso_index v', vo_email_verified := vo_email_verified v'\<rparr>)) db))
           | None \<Rightarrow>
               if trusted \<and> ev_self_registration (db_event db) then
                 (case self_register E S now choices [] email (sc_name claims) [] db bl of
                    Inl e \<Rightarrow> (Inl (Auth_registration e), db)
                  | Inr (v, _, db') \<Rightarrow>
                      (let v' = v\<lparr>vo_sso_index := subject_index, vo_source := SSO\<rparr> in
                       (check_status v', update_voters (save_voter v') db')))
               else fail_sign_in db))"

record platform_user =
  pu_id :: int
  pu_signed_in :: bool
  pu_email :: string

definition voter_for_account :: "env \<Rightarrow> platform_user \<Rightarrow> election_db \<Rightarrow> sign_in" where
  "voter_for_account E u db =
     (if \<not> pu_signed_in u then (Inl Auth_login_required, db)
      else case first_where (\<lambda>v. vo_user v = Some (pu_id u)) (db_voters db) of
        Some v \<Rightarrow> (check_status v, db)
      | None \<Rightarrow>
          (case (if pu_email u = [] then None
                 else first_where (\<lambda>v. vo_email_index v = contact_index E ''email'' (pu_email u)) (db_voters db)) of
             None \<Rightarrow> fail_sign_in db
           | Some v \<Rightarrow>
               if vo_user v = None
               then (check_status (v\<lparr>vo_user := Some (pu_id u)\<rparr>),
                     update_voters (update_where (\<lambda>x. vo_id x = vo_id v) (\<lambda>x. x\<lparr>vo_user := Some (pu_id u)\<rparr>)) db)
               else (check_status v, db)))"

section \<open>The voter's session\<close>

record voter_session =
  vs_voter :: int
  vs_method :: string
  vs_mfa :: bool
  vs_at :: int

type_synonym sessions = "int \<rightharpoonup> voter_session"

definition session_ttl :: int where
  "session_ttl = 20 * 60"

definition needs_second_factor :: "event \<Rightarrow> voter_session \<Rightarrow> bool" where
  "needs_second_factor ev s \<longleftrightarrow>
     ev_second_factor ev \<and> \<not> vs_mfa s \<and> vs_method s \<notin> {''EMAIL_OTP'', ''SMS_OTP''}"

definition seconds :: "int \<Rightarrow> int" where
  "seconds now = now div 1000000"

definition login_voter :: "int \<Rightarrow> voter \<Rightarrow> string \<Rightarrow> bool \<Rightarrow> sessions \<Rightarrow> election_db \<Rightarrow> sessions \<times> election_db" where
  "login_voter now v method second_factor ss db =
     (ss(ev_id (db_event db) \<mapsto> \<lparr>vs_voter = vo_id v, vs_method = method, vs_mfa = second_factor, vs_at = seconds now\<rparr>),
      log_note (note_about ''VOTER_AUTHENTICATED'' None (voter_target v) db) db)"

definition mark_second_factor :: "int \<Rightarrow> event \<Rightarrow> sessions \<Rightarrow> sessions" where
  "mark_second_factor now ev ss =
     (case ss (ev_id ev) of
        None \<Rightarrow> ss
      | Some s \<Rightarrow> ss(ev_id ev \<mapsto> s\<lparr>vs_mfa := True, vs_at := seconds now\<rparr>))"

definition current_voter :: "int \<Rightarrow> sessions \<Rightarrow> election_db \<Rightarrow> (voter \<times> voter_session) option" where
  "current_voter now ss db =
     (case ss (ev_id (db_event db)) of
        None \<Rightarrow> None
      | Some s \<Rightarrow>
          if session_ttl * 1000000 < now - vs_at s * 1000000 then None
          else map_option (\<lambda>v. (v, s)) (first_where (\<lambda>v. vo_id v = vs_voter s) (db_voters db)))"

definition logout_voter :: "event \<Rightarrow> sessions \<Rightarrow> sessions" where
  "logout_voter ev ss = ss(ev_id ev := None)"

end
