(* ===== verification/Voters_Props.thy ===== *)
theory Voters_Props
  imports Voter_Access Casting_Props Crypto_Props
begin

text \<open>
  A whole election campaign: votes, lifecycle requests and the management of the roll in
  any order. \<open>roll_step\<close> is one request to elections/voters.py or elections/voter_auth.py.
  Where the code goes on with a voter instance that was read earlier in the request (status
  changes, removal, passcodes), the instance is part of the request; it may be out of date,
  because another request may have come in between.
\<close>

type_synonym campaign = "election_db \<times> billing_db \<times> otp_db"

datatype roll_request =
    Import int import_setup "(nat list \<times> roll_row) list" "account option"
  | Generate int int "nat list list list" "account option"
  | Reset int "nat list" voter "account option"
  | Reset_all int "int \<Rightarrow> nat list" "account option"
  | Change_status int voter voter_status "account option" string
  | Remove voter "account option"
  | Clear "account option"
  | Resend int "nat list" string
  | Register int "nat list" string string string string
  | Invite int "account option" "voter list option" "int \<Rightarrow> string option"
  | Passcode int voter string string string
  | Single_sign_on int "nat list" sso_claims
  | Account_sign_in platform_user

fun roll_step :: "env \<Rightarrow> billing_settings \<Rightarrow> roll_request \<Rightarrow> campaign \<Rightarrow> voters_error + campaign" where
  "roll_step E S (Import now I rows actor) (db, bl, otps) =
     map_sum id (\<lambda>(report, db', bl'). (db', bl', otps)) (import_voters E S now I rows actor db bl)"
| "roll_step E S (Generate now n choices actor) (db, bl, otps) =
     map_sum id (\<lambda>(k, db'). (db', bl, otps)) (generate_anonymous_codes E S now n choices actor db bl)"
| "roll_step E S (Reset now choices v actor) (db, bl, otps) =
     map_sum id (\<lambda>(code, db'). (db', bl, otps)) (reset_credential E now choices v actor db)"
| "roll_step E S (Reset_all now choices actor) (db, bl, otps) =
     Inr (snd (reset_all_unused_credentials E now choices actor db), bl, otps)"
| "roll_step E S (Change_status now v status actor reason) (db, bl, otps) =
     map_sum id (\<lambda>db'. (db', bl, otps)) (set_status now v status actor reason db)"
| "roll_step E S (Remove v actor) (db, bl, otps) = map_sum id (\<lambda>db'. (db', bl, otps)) (remove_voter v actor db)"
| "roll_step E S (Clear actor) (db, bl, otps) = map_sum id (\<lambda>(n, db'). (db', bl, otps)) (clear_unvoted actor db)"
| "roll_step E S (Resend now choices given) (db, bl, otps) =
     map_sum id (\<lambda>(sent, db'). (db', bl, otps)) (resend_credential_public E now choices given db)"
| "roll_step E S (Register now choices given email name phone) (db, bl, otps) =
     map_sum id (\<lambda>(v, sent, db'). (db', bl, otps)) (self_register E S now choices given email name phone db bl)"
| "roll_step E S (Invite now actor chosen codes) (db, bl, otps) =
     map_sum id (\<lambda>(sent, db'). (db', bl, otps)) (send_invitations now actor chosen codes db)"
| "roll_step E S (Passcode now v challenge code purpose) (db, bl, otps) =
     (let (r, otps', db') = verify_otp E now v challenge code purpose otps db in Inr (db', bl, otps'))"
| "roll_step E S (Single_sign_on now choices claims) (db, bl, otps) =
     Inr (snd (voter_from_sso E S now choices claims db bl), bl, otps)"
| "roll_step E S (Account_sign_in u) (db, bl, otps) = Inr (snd (voter_for_account E u db), bl, otps)"

datatype campaign_request = Voting vote_request | Roll roll_request

datatype campaign_error = Voting_failed vote_error | Roll_failed voters_error

fun campaign_step ::
  "env \<Rightarrow> billing_settings \<Rightarrow> (json \<Rightarrow> string) \<Rightarrow> campaign_request \<Rightarrow> campaign \<Rightarrow> campaign_error + campaign" where
  "campaign_step E S shown (Voting q) (db, bl, otps) =
     map_sum Voting_failed (\<lambda>db'. (db', bl, otps)) (vote_step E shown q db)"
| "campaign_step E S shown (Roll q) s = map_sum Roll_failed id (roll_step E S q s)"

fun caster :: "env \<Rightarrow> campaign_request \<Rightarrow> campaign \<Rightarrow> int option" where
  "caster E (Voting q) (db, bl, otps) = voter_of E q db"
| "caster E (Roll q) s = None"

section \<open>Authorizations that were used\<close>

definition ballot_used :: "int \<Rightarrow> election_db \<Rightarrow> bool" where
  "ballot_used i db \<longleftrightarrow> exists_where (\<lambda>a. va_voter a = i \<and> va_status a = CONSUMED) (db_authorizations db)"

lemma row_unique: "distinct (map key rows) \<Longrightarrow> x \<in> set rows \<Longrightarrow> y \<in> set rows \<Longrightarrow> key x = key y \<Longrightarrow> x = y"
  by (metis distinct_map inj_onD)

lemma exists_where_update_same:
  "(\<And>r. Q r \<Longrightarrow> P (f r) = P r) \<Longrightarrow> exists_where P (update_where Q f rows) = exists_where P rows"
  by (induction rows) auto

lemma used_simps [simp]:
  "ballot_used i (log_note n db) = ballot_used i db" "ballot_used i (update_voters g db) = ballot_used i db"
  "ballot_used i (update_event h db) = ballot_used i db" "ballot_used i (queue_task task db) = ballot_used i db"
  by (simp_all add: ballot_used_def)

lemma revoke_issued_simps [simp]:
  "db_voters (revoke_issued i db) = db_voters db" "db_ballots (revoke_issued i db) = db_ballots db"
  "db_event (revoke_issued i db) = db_event db" "ballot_used k (revoke_issued i db) = ballot_used k db"
  using exists_where_update_same [of "\<lambda>a. va_voter a = i \<and> va_status a = ISSUED" "\<lambda>a. va_voter a = k \<and> va_status a = CONSUMED"
      "\<lambda>a. a\<lparr>va_status := REVOKED\<rparr>" "db_authorizations db"]
  by (simp_all add: revoke_issued_def ballot_used_def del: exists_where_iff)

lemma roll_editable_Inr:
  assumes "roll_editable perm actor db = Inr db'"
  shows "db_authorizations db' = db_authorizations db \<and> db_voters db' = db_voters db \<and> db_ballots db' = db_ballots db
    \<and> (\<forall>k. ballot_used k db' = ballot_used k db)"
  using assms
  by (auto simp: roll_editable_def require_editable_def split: sum.splits edit_verdict.splits)

lemma issue_credential_same: "issue_credential E now choices v = (code, v') \<Longrightarrow> vo_id v' = vo_id v \<and> vo_status v' = vo_status v"
  by (auto simp: issue_credential_def set_credential_def Let_def)

lemma reissue_Inr:
  assumes "reissue E now choices v db = Inr (code, v', db')"
  shows "db_voters db' = save_voter v' (db_voters db) \<and> db_ballots db' = db_ballots db \<and> ballot_used k db' = ballot_used k db
    \<and> vo_id v' = vo_id v \<and> vo_status v' = vo_status v"
  using assms by (auto simp: reissue_def split: if_splits prod.splits dest: issue_credential_same)

section \<open>The roll keeps who has voted\<close>

definition voted_ids :: "voter list \<Rightarrow> int list" where
  "voted_ids rows = map vo_id (filter (\<lambda>v. vo_status v = VOTED) rows)"

text \<open>The rows have keys of their own before and after, and the same voters have voted.\<close>

definition same_votes :: "voter list \<Rightarrow> voter list \<Rightarrow> bool" where
  "same_votes rows rows' \<longleftrightarrow> (distinct (map vo_id rows) \<longrightarrow> distinct (map vo_id rows') \<and> voted_ids rows' = voted_ids rows)"

lemma same_votes_refl [simp]: "same_votes rows rows"
  by (simp add: same_votes_def)

lemma same_votes_trans [trans]: "same_votes a b \<Longrightarrow> same_votes b c \<Longrightarrow> same_votes a c"
  by (simp add: same_votes_def)

lemma same_votes_update:
  assumes "\<And>x. x \<in> set rows \<Longrightarrow> P x \<Longrightarrow> vo_id (f x) = vo_id x \<and> (vo_status (f x) = VOTED \<longleftrightarrow> vo_status x = VOTED)"
  shows "same_votes rows (update_where P f rows)"
proof -
  have "map vo_id (update_where P f rows) = map vo_id rows \<and> voted_ids (update_where P f rows) = voted_ids rows"
    using assms by (induction rows) (auto simp: voted_ids_def)
  then show ?thesis by (simp add: same_votes_def)
qed

lemma same_votes_save:
  assumes "q \<in> set rows" "vo_id q = vo_id v" "vo_status q = vo_status v"
  shows "same_votes rows (save_voter v rows)"
proof -
  have "same_votes rows (save_voter v rows)" if d: "distinct (map vo_id rows)"
    unfolding save_voter_def
  proof (rule same_votes_update)
    fix x assume "x \<in> set rows" "vo_id x = vo_id v"
    with d assms have "x = q" using row_unique by metis
    with assms show "vo_id v = vo_id x \<and> (vo_status v = VOTED \<longleftrightarrow> vo_status x = VOTED)" by simp
  qed
  then show ?thesis by (auto simp: same_votes_def)
qed

lemma same_votes_append:
  "vo_id v = next_pk vo_id rows \<Longrightarrow> vo_status v \<noteq> VOTED \<Longrightarrow> same_votes rows (rows @ [v])"
  using next_pk_fresh(1) [of _ rows vo_id] by (fastforce simp: same_votes_def voted_ids_def)

lemma same_votes_filter:
  assumes "\<And>x. x \<in> set rows \<Longrightarrow> vo_status x = VOTED \<Longrightarrow> P x"
  shows "same_votes rows (filter P rows)"
proof -
  have "voted_ids (filter P rows) = voted_ids rows"
    using assms by (auto simp: voted_ids_def conj_commute intro!: filter_cong arg_cong [where f = "map vo_id"])
  then show ?thesis by (simp add: same_votes_def distinct_map_filter)
qed

section \<open>Import\<close>

definition instances_ok :: "import_state \<Rightarrow> bool" where
  "instances_ok st \<longleftrightarrow>
     (\<forall>(k, v)\<in>set (im_existing st). \<exists>x\<in>set (im_rows st). vo_id x = vo_id v \<and> vo_status x = vo_status v)"

lemma updated_voter_same [simp]: "vo_id (updated_voter E r c v) = vo_id v" "vo_status (updated_voter E r c v) = vo_status v"
  by (simp_all add: updated_voter_def set_email_def set_phone_def Let_def)

lemma created_voter_same [simp]:
  "vo_id (created_voter E now I ev choices r identifier c rows) = next_pk vo_id rows"
  "vo_status (created_voter E now I ev choices r identifier c rows) = ELIGIBLE"
  by (simp_all add: created_voter_def new_voter_def set_email_def set_phone_def issue_credential_def set_credential_def Let_def)

lemma row_error_same [simp]: "im_rows (row_error n p st) = im_rows st" "im_existing (row_error n p st) = im_existing st"
  by (simp_all add: row_error_def)

lemma instances_ok_error [simp]: "instances_ok (row_error n p st) = instances_ok st"
  by (simp add: instances_ok_def)

lemma update_imported_ok:
  assumes "instances_ok st" and q: "q \<in> set (im_rows st)" "vo_id q = vo_id v" "vo_status q = vo_status v"
    and d: "distinct (map vo_id (im_rows st))"
  shows "instances_ok (update_imported E r identifier c v st)
    \<and> same_votes (im_rows st) (im_rows (update_imported E r identifier c v st))"
proof (cases "vo_status v = VOTED")
  case True
  with assms(1) show ?thesis by (simp add: update_imported_def instances_ok_def)
next
  case False
  let ?v = "updated_voter E r c v"
  have new: "?v \<in> set (save_voter ?v (im_rows st))"
    using q by (auto simp: save_voter_def in_update_where intro!: bexI [of _ q])
  have "\<exists>y\<in>set (save_voter ?v (im_rows st)). vo_id y = vo_id w \<and> vo_status y = vo_status w"
    if w: "(k, w) \<in> set (im_existing st)" for k w
  proof -
    obtain x where x: "x \<in> set (im_rows st)" "vo_id x = vo_id w" "vo_status x = vo_status w"
      using assms(1) w by (force simp: instances_ok_def)
    show ?thesis
    proof (cases "vo_id x = vo_id v")
      case True
      with d q x have "x = q" using row_unique by metis
      with new x q show ?thesis by (intro bexI [of _ ?v]) auto
    next
      case False
      with x show ?thesis by (intro bexI [of _ x]) (auto simp: save_voter_def in_update_where intro!: bexI [of _ x])
    qed
  qed
  moreover have "\<exists>x\<in>set (save_voter ?v (im_rows st)). vo_id x = vo_id v \<and> vo_status x = vo_status v"
    using new by (intro bexI [of _ ?v]) simp_all
  ultimately have "instances_ok (update_imported E r identifier c v st)"
    using False by (auto simp: update_imported_def instances_ok_def Let_def)
  moreover have "same_votes (im_rows st) (save_voter ?v (im_rows st))" using q by (intro same_votes_save [of q]) auto
  ultimately show ?thesis using False by (simp add: update_imported_def Let_def)
qed

lemma create_imported_ok:
  assumes "instances_ok st"
  shows "instances_ok (create_imported E now I ev n choices r identifier c st)
    \<and> same_votes (im_rows st) (im_rows (create_imported E now I ev n choices r identifier c st))"
proof -
  let ?v = "created_voter E now I ev choices r identifier c (im_rows st)"
  have "same_votes (im_rows st) (im_rows st @ [?v])" by (intro same_votes_append) simp_all
  then show ?thesis using assms by (auto simp: create_imported_def instances_ok_def Let_def)
qed

lemma import_row_ok:
  assumes "instances_ok st" and "distinct (map vo_id (im_rows st))"
  shows "instances_ok (import_row E now I ev n choices r st)
    \<and> same_votes (im_rows st) (im_rows (import_row E now I ev n choices r st))"
proof -
  have known: "\<exists>q\<in>set (im_rows st). vo_id q = vo_id v \<and> vo_status q = vo_status v"
    if "known_voter E ident mail st = Some v" for ident mail v
    using that assms(1)
    by (auto simp: known_voter_def instances_ok_def split: if_splits dest!: map_of_SomeD first_where_Some)
  show ?thesis
  proof (cases "known_voter E (upper (strip (vr_identifier r))) (strip (vr_email r)) st")
    case None
    show ?thesis using create_imported_ok [OF assms(1)] assms(1)
      by (simp only: import_row_def Let_def None option.case) auto
  next
    case (Some v)
    obtain q where "q \<in> set (im_rows st)" "vo_id q = vo_id v" "vo_status q = vo_status v" using known [OF Some] by blast
    note u = update_imported_ok [OF assms(1) this assms(2)]
    show ?thesis using u assms(1)
      by (simp only: import_row_def Let_def Some option.case) auto
  qed
qed

lemma import_rows_ok:
  "instances_ok st \<Longrightarrow> distinct (map vo_id (im_rows st)) \<Longrightarrow> same_votes (im_rows st) (im_rows (import_rows E now I ev n rows st))"
proof (induction E now I ev n rows st rule: import_rows.induct)
  case (2 E now I ev n choices r rows st)
  note s = import_row_ok [OF 2(2,3), of E now I ev n choices r]
  then have "distinct (map vo_id (im_rows (import_row E now I ev n choices r st)))"
    using 2(3) by (simp add: same_votes_def)
  with s 2(1) show ?case by (auto intro: same_votes_trans)
qed simp

lemma start_import_ok: "instances_ok (start_import rows)"
  by (auto simp: start_import_def instances_ok_def split: option.splits)

lemma same_votes_import: "same_votes rows (im_rows (import_rows E now I ev n given (start_import rows)))"
  using import_rows_ok [OF start_import_ok [of rows], of E now I ev n given]
  by (auto simp: same_votes_def start_import_def)


section \<open>Codes\<close>

lemma try_codes_new:
  "try_codes E now ev attempts rows = Some v \<Longrightarrow> vo_id v = next_pk vo_id rows \<and> vo_status v = ELIGIBLE"
proof (induction attempts)
  case (Cons c cs)
  have "vo_id (snd (issue_credential E now c (new_voter ev rows CODES))) = next_pk vo_id rows"
      "vo_status (snd (issue_credential E now c (new_voter ev rows CODES))) = ELIGIBLE"
    by (simp_all add: issue_credential_def set_credential_def new_voter_def Let_def)
  with Cons show ?case by (auto simp: Let_def split: if_splits)
qed simp

lemma generate_rows_same: "generate_rows E now ev codes rows = (n, rows') \<Longrightarrow> same_votes rows rows'"
proof (induction codes arbitrary: rows n)
  case (Cons c cs)
  show ?case
  proof (cases "try_codes E now ev (take 5 c) rows")
    case (Some v)
    with Cons.prems obtain k where "generate_rows E now ev cs (rows @ [v]) = (k, rows')"
      by (auto simp: Let_def split: prod.splits)
    from Cons.IH [OF this] same_votes_append [of v rows] try_codes_new [OF Some]
    show ?thesis by (auto intro: same_votes_trans)
  qed (use Cons in simp)
qed simp

lemma reset_each_same:
  "reset_each E now listed db = (r, db') \<Longrightarrow> same_votes (db_voters db) (db_voters db') \<and> db_ballots db' = db_ballots db
    \<and> ballot_used i db' = ballot_used i db"
proof (induction E now listed db arbitrary: r rule: reset_each.induct)
  case (2 E now choices v0 rest db)
  show ?case
  proof (cases "first_where (\<lambda>v. vo_id v = vo_id v0) (db_voters db)")
    case (Some v)
    show ?thesis
    proof (cases "reissue E now choices v db")
      case (Inr x)
      obtain code v' db1 where x: "x = (code, v', db1)" by (cases x)
      note k = reissue_Inr [OF Inr [unfolded x], of i]
      have s: "same_votes (db_voters db) (db_voters db1)"
        using k first_where_Some [OF Some] by (simp add: same_votes_save [of v])
      obtain r2 where "reset_each E now rest db1 = (r2, db')"
        using 2(2) Some Inr x by (auto simp: Let_def split: prod.splits)
      from 2(1) [OF Some Inr x [symmetric] refl this] s k show ?thesis by (auto intro: same_votes_trans)
    qed (use 2 Some in simp)
  qed (use 2 in simp)
qed simp


section \<open>Every request keeps the ballots\<close>

text \<open>What no roll request does: touch the ballots, or forget a used authorization.\<close>

definition box_kept :: "election_db \<Rightarrow> election_db \<Rightarrow> bool" where
  "box_kept db db' \<longleftrightarrow> db_ballots db' = db_ballots db \<and> (\<forall>i. ballot_used i db \<longrightarrow> ballot_used i db')"

lemma import_kept:
  assumes "import_voters E S now I rows actor db bl = Inr (report, db', bl')"
  shows "box_kept db db' \<and> same_votes (db_voters db) (db_voters db')"
  using assms same_votes_import
  by (auto simp: import_voters_def box_kept_def Let_def split: sum.splits dest!: roll_editable_Inr)

lemma generate_kept:
  assumes "generate_anonymous_codes E S now n choices actor db bl = Inr (k, db')"
  shows "box_kept db db' \<and> same_votes (db_voters db) (db_voters db')"
  using assms generate_rows_same
  by (auto simp: generate_anonymous_codes_def box_kept_def Let_def split: sum.splits prod.splits dest!: roll_editable_Inr)

lemma reset_kept:
  assumes "reset_credential E now choices v0 actor db = Inr (code, db')"
  shows "box_kept db db' \<and> same_votes (db_voters db) (db_voters db')"
proof -
  obtain v v' db1 where v: "first_where (\<lambda>v. vo_id v = vo_id v0) (db_voters db) = Some v"
      "reissue E now choices v db = Inr (code, v', db1)" "db_voters db' = db_voters db1" "db_ballots db' = db_ballots db1"
      "\<And>i. ballot_used i db' = ballot_used i db1"
    using assms by (auto simp: reset_credential_def split: sum.splits if_splits option.splits)
  with reissue_Inr [OF v(2)] first_where_Some [OF v(1)] show ?thesis by (simp add: box_kept_def same_votes_save [of v])
qed

lemma reset_all_kept:
  "box_kept db (snd (reset_all_unused_credentials E now choices actor db))
    \<and> same_votes (db_voters db) (db_voters (snd (reset_all_unused_credentials E now choices actor db)))"
proof -
  obtain r db1 where r: "reset_each E now (map (\<lambda>v. (choices (vo_id v), v)) (unused_credentials db)) db = (r, db1)" by force
  with reset_each_same [OF r] show ?thesis
    by (cases r) (simp_all add: reset_all_unused_credentials_def box_kept_def)
qed

lemma status_kept:
  assumes "set_status now v status actor reason db = Inr db'"
  shows "box_kept db db' \<and> (v \<in> set (db_voters db) \<longrightarrow> same_votes (db_voters db) (db_voters db'))"
proof -
  let ?f = "\<lambda>x. x\<lparr>vo_status := status, vo_status_reason := take 255 reason,
      vo_verified_at := (if status = VERIFIED \<and> vo_verified_at v = None then Some now else vo_verified_at v)\<rparr>"
  have d: "vo_status v \<noteq> VOTED" "status \<noteq> VOTED" "db_voters db' = update_where (\<lambda>x. vo_id x = vo_id v) ?f (db_voters db)"
      "box_kept db db'"
    using assms by (auto simp: set_status_def Let_def box_kept_def split: sum.splits if_splits)
  have "same_votes (db_voters db) (db_voters db')" if v: "v \<in> set (db_voters db)"
  proof -
    have "same_votes (db_voters db) (db_voters db')" if "distinct (map vo_id (db_voters db))"
      unfolding d(3)
    proof (rule same_votes_update)
      fix x assume "x \<in> set (db_voters db)" "vo_id x = vo_id v"
      then have "x = v" using row_unique [OF that _ v] by blast
      then show "vo_id (?f x) = vo_id x \<and> (vo_status (?f x) = VOTED \<longleftrightarrow> vo_status x = VOTED)" using d(1,2) by simp
    qed
    then show ?thesis by (auto simp: same_votes_def)
  qed
  with d(4) show ?thesis by blast
qed

lemma remove_kept:
  assumes "remove_voter v actor db = Inr db'"
  shows "box_kept db db' \<and> (v \<in> set (db_voters db) \<longrightarrow> same_votes (db_voters db) (db_voters db'))"
proof -
  have d: "vo_status v \<noteq> VOTED" "db_voters db' = filter (\<lambda>x. vo_id x \<noteq> vo_id v) (db_voters db)" "db_ballots db' = db_ballots db"
      "\<forall>a\<in>set (db_authorizations db). va_voter a = vo_id v \<longrightarrow> va_status a \<noteq> CONSUMED"
      "db_authorizations db' = filter (\<lambda>a. va_voter a \<noteq> vo_id v) (db_authorizations db)"
    using assms by (auto simp: remove_voter_def Let_def split: sum.splits if_splits dest!: roll_editable_Inr)
  then have box: "box_kept db db'" by (force simp: box_kept_def ballot_used_def)
  have "same_votes (db_voters db) (db_voters db')" if v: "v \<in> set (db_voters db)"
  proof -
    have "same_votes (db_voters db) (db_voters db')" if "distinct (map vo_id (db_voters db))"
      unfolding d(2)
    proof (rule same_votes_filter)
      fix x assume "x \<in> set (db_voters db)" "vo_status x = VOTED"
      then show "vo_id x \<noteq> vo_id v" using row_unique [OF that _ v] d(1) by metis
    qed
    then show ?thesis by (auto simp: same_votes_def)
  qed
  with box show ?thesis by blast
qed

lemma clear_kept:
  assumes "clear_unvoted actor db = Inr (n, db')"
  shows "box_kept db db' \<and> same_votes (db_voters db) (db_voters db')"
  using assms
  by (auto simp: clear_unvoted_def Let_def box_kept_def ballot_used_def split: sum.splits if_splits dest!: roll_editable_Inr
      intro!: same_votes_filter)

lemma resend_kept:
  assumes "resend_credential_public E now choices given db = Inr (sent, db')"
  shows "box_kept db db' \<and> same_votes (db_voters db) (db_voters db')"
proof (cases "db_voters db' = db_voters db \<and> box_kept db db'")
  case False
  then obtain v code v' db1 where v: "first_where (\<lambda>v. vo_identifier v = Some (upper (strip given))) (db_voters db) = Some v"
      "reissue E now choices v db = Inr (code, v', db1)" "db_voters db' = db_voters db1" "db_ballots db' = db_ballots db1"
      "\<And>i. ballot_used i db' = ballot_used i db1"
    using assms by (auto simp: resend_credential_public_def Let_def box_kept_def split: sum.splits if_splits option.splits)
  with reissue_Inr [OF v(2)] first_where_Some [OF v(1)] show ?thesis by (simp add: box_kept_def same_votes_save [of v])
qed simp

lemma registered_new:
  "self_registered E now choices ident mail name phone db = (code, v) \<Longrightarrow>
    vo_id v = next_pk vo_id (db_voters db) \<and> vo_status v = VERIFIED"
  by (auto simp: self_registered_def new_voter_def set_email_def set_phone_def issue_credential_def set_credential_def Let_def
      split: if_splits)

lemma register_kept:
  assumes "self_register E S now choices given mail name phone db bl = Inr (v, sent, db')"
  shows "box_kept db db' \<and> same_votes (db_voters db) (db_voters db') \<and> v \<in> set (db_voters db') \<and> vo_status v = VERIFIED"
  using assms
  by (auto simp: self_register_def box_kept_def Let_def split: sum.splits if_splits prod.splits
      dest!: registered_new intro!: same_votes_append)

lemma invite_kept:
  assumes "send_invitations now actor chosen codes db = Inr (sent, db')"
  shows "box_kept db db' \<and> same_votes (db_voters db) (db_voters db')"
  using assms
  by (auto simp: send_invitations_def box_kept_def Let_def split: sum.splits intro!: same_votes_update)

lemma passcode_kept:
  assumes "verify_otp E now v challenge code purpose otps db = (r, otps', db')"
  shows "box_kept db db' \<and> (v \<in> set (db_voters db) \<longrightarrow> same_votes (db_voters db) (db_voters db'))"
proof (cases "db_voters db' = db_voters db")
  case True
  with assms show ?thesis
    by (auto simp: verify_otp_def box_kept_def Let_def split: prod.splits sum.splits)
next
  case False
  obtain channel where d: "box_kept db db'" "db_voters db' = update_where (\<lambda>x. vo_id x = vo_id v)
      (\<lambda>x. x\<lparr>vo_email_verified := vo_email_verified (verified_by_otp now channel v),
             vo_phone_verified := vo_phone_verified (verified_by_otp now channel v),
             vo_status := vo_status (verified_by_otp now channel v),
             vo_verified_at := vo_verified_at (verified_by_otp now channel v)\<rparr>) (db_voters db)"
    using assms False by (auto simp: verify_otp_def box_kept_def Let_def split: prod.splits sum.splits)
  have st: "vo_status (verified_by_otp now channel v) = VOTED \<longleftrightarrow> vo_status v = VOTED"
    by (simp add: verified_by_otp_def Let_def)
  have "same_votes (db_voters db) (db_voters db')" if v: "v \<in> set (db_voters db)"
  proof -
    have "same_votes (db_voters db) (db_voters db')" if "distinct (map vo_id (db_voters db))"
      unfolding d(2)
    proof (rule same_votes_update)
      fix x assume "x \<in> set (db_voters db)" "vo_id x = vo_id v"
      then have "x = v" using row_unique [OF that _ v] by blast
      with st show "vo_id (x\<lparr>vo_email_verified := vo_email_verified (verified_by_otp now channel v),
             vo_phone_verified := vo_phone_verified (verified_by_otp now channel v),
             vo_status := vo_status (verified_by_otp now channel v),
             vo_verified_at := vo_verified_at (verified_by_otp now channel v)\<rparr>) = vo_id x
        \<and> (vo_status (x\<lparr>vo_email_verified := vo_email_verified (verified_by_otp now channel v),
             vo_phone_verified := vo_phone_verified (verified_by_otp now channel v),
             vo_status := vo_status (verified_by_otp now channel v),
             vo_verified_at := vo_verified_at (verified_by_otp now channel v)\<rparr>) = VOTED \<longleftrightarrow> vo_status x = VOTED)" by simp
    qed
    then show ?thesis by (auto simp: same_votes_def)
  qed
  with d(1) show ?thesis by blast
qed

lemma sso_kept:
  "box_kept db (snd (voter_from_sso E S now choices claims db bl))
    \<and> same_votes (db_voters db) (db_voters (snd (voter_from_sso E S now choices claims db bl)))"
proof -
  define s where "s = contact_index E ''sso'' (sc_issuer claims @ CHR ''|'' # sc_subject claims)"
  define trusted where "trusted \<longleftrightarrow> strip (sc_email claims) \<noteq> [] \<and> sc_email_verified claims"
  define found where "found = (if trusted
      then first_where (\<lambda>v. vo_email_index v = contact_index E ''email'' (strip (sc_email claims))) (db_voters db) else None)"
  note sso = voter_from_sso_def [of E S now choices claims db bl, unfolded Let_def, folded s_def trusted_def, folded found_def]
  show ?thesis
  proof (cases "first_where (\<lambda>v. vo_sso_index v = s) (db_voters db)")
    case None
    show ?thesis
    proof (cases found)
      case (Some v)
      with None show ?thesis by (auto simp: sso box_kept_def intro!: same_votes_update)
    next
      case found: None
      show ?thesis
      proof (cases "trusted \<and> ev_self_registration (db_event db)")
        case True
        show ?thesis
        proof (cases "self_register E S now choices [] (strip (sc_email claims)) (sc_name claims) [] db bl")
          case (Inl e)
          with None found True show ?thesis by (simp add: sso box_kept_def)
        next
          case (Inr x)
          obtain v sent db1 where x: "x = (v, sent, db1)" by (cases x)
          note k = register_kept [OF Inr [unfolded x]]
          then have "same_votes (db_voters db1) (save_voter (v\<lparr>vo_sso_index := s, vo_source := SSO\<rparr>) (db_voters db1))"
            by (intro same_votes_save [of v]) simp_all
          with k None found True Inr x show ?thesis by (auto simp: sso box_kept_def intro: same_votes_trans)
        qed
      next
        case False
        with None found show ?thesis by (auto simp: sso fail_sign_in_def box_kept_def)
      qed
    qed
  qed (simp add: sso box_kept_def)
qed

lemma account_kept:
  "box_kept db (snd (voter_for_account E u db)) \<and> same_votes (db_voters db) (db_voters (snd (voter_for_account E u db)))"
  by (auto simp: voter_for_account_def fail_sign_in_def box_kept_def intro!: same_votes_update split: option.split)


text \<open>The instance a request carries, when it is the row of the table.\<close>

fun up_to_date :: "campaign_request \<Rightarrow> campaign \<Rightarrow> bool" where
  "up_to_date (Roll (Change_status now v status actor reason)) (db, s) = (v \<in> set (db_voters db))"
| "up_to_date (Roll (Remove v actor)) (db, s) = (v \<in> set (db_voters db))"
| "up_to_date (Roll (Passcode now v challenge code purpose)) (db, s) = (v \<in> set (db_voters db))"
| "up_to_date _ s = True"

lemma roll_step_kept:
  assumes "roll_step E S q (db, bl, otps) = Inr (db', bl', otps')"
  shows "box_kept db db' \<and> (up_to_date (Roll q) (db, bl, otps) \<longrightarrow> same_votes (db_voters db) (db_voters db'))"
proof (cases q)
  case (Import now I rows actor)
  with assms show ?thesis by (cases "import_voters E S now I rows actor db bl") (auto dest: import_kept)
next
  case (Generate now n choices actor)
  with assms show ?thesis by (cases "generate_anonymous_codes E S now n choices actor db bl") (auto dest: generate_kept)
next
  case (Reset now choices v actor)
  with assms show ?thesis by (cases "reset_credential E now choices v actor db") (auto dest: reset_kept)
next
  case (Reset_all now choices actor)
  with assms reset_all_kept show ?thesis by auto
next
  case (Change_status now v status actor reason)
  with assms show ?thesis by (cases "set_status now v status actor reason db") (auto dest: status_kept)
next
  case (Remove v actor)
  with assms show ?thesis by (cases "remove_voter v actor db") (auto dest: remove_kept)
next
  case (Clear actor)
  with assms show ?thesis by (cases "clear_unvoted actor db") (auto dest: clear_kept)
next
  case (Resend now choices given)
  with assms show ?thesis by (cases "resend_credential_public E now choices given db") (auto dest: resend_kept)
next
  case (Register now choices given mail name phone)
  with assms show ?thesis by (cases "self_register E S now choices given mail name phone db bl") (auto dest: register_kept)
next
  case (Invite now actor chosen codes)
  with assms show ?thesis by (cases "send_invitations now actor chosen codes db") (auto dest: invite_kept)
next
  case (Passcode now v challenge code purpose)
  with assms show ?thesis
    by (cases "verify_otp E now v challenge code purpose otps db") (auto dest: passcode_kept)
next
  case (Single_sign_on now choices claims)
  with assms sso_kept show ?thesis by auto
next
  case (Account_sign_in u)
  with assms account_kept show ?thesis by auto
qed

end
