(* ===== verification/Campaign_Props.thy ===== *)
theory Campaign_Props
  imports Voters_Props
begin

text \<open>
  What holds over a whole campaign (\<open>campaign_step\<close> of Voters_Props): one ballot per voter
  even when the roll is managed from instances that are out of date, the ballot box and
  the turnout, what resetting a code does, and two weaknesses of the sign-in.
\<close>

section \<open>One ballot per voter\<close>

lemma vote_step_used: "vote_step E shown q db = Inr db' \<Longrightarrow> ballot_used i db \<Longrightarrow> ballot_used i db'"
proof (cases q)
  case (Issue now token voter how)
  assume s: "vote_step E shown q db = Inr db'" and u: "ballot_used i db"
  obtain a where "db_authorizations db' = update_where (\<lambda>x. va_voter x = voter \<and> va_status x = ISSUED)
      (\<lambda>x. x\<lparr>va_status := REVOKED\<rparr>) (db_authorizations db) @ [a]"
    using s Issue by (auto simp: issue_authorization_def Let_def split: sum.splits option.splits if_splits prod.splits)
  moreover have "exists_where (\<lambda>a. va_voter a = i \<and> va_status a = CONSUMED)
      (update_where (\<lambda>x. va_voter x = voter \<and> va_status x = ISSUED) (\<lambda>x. x\<lparr>va_status := REVOKED\<rparr>) (db_authorizations db))"
    using u exists_where_update_same [of "\<lambda>x. va_voter x = voter \<and> va_status x = ISSUED"
        "\<lambda>a. va_voter a = i \<and> va_status a = CONSUMED" "\<lambda>x. x\<lparr>va_status := REVOKED\<rparr>" "db_authorizations db"]
    by (simp add: ballot_used_def del: exists_where_iff)
  ultimately show ?thesis by (auto simp: ballot_used_def)
next
  case (Life j)
  assume "vote_step E shown q db = Inr db'" "ballot_used i db"
  moreover have "life_step E l db = Inr db' \<Longrightarrow> db_authorizations db' = db_authorizations db" for l
    by (cases l) (auto simp: require_editable_def tick_def Let_def
        split: sum.splits edit_verdict.splits if_splits dest!: transition_keeps(2))
  ultimately show ?thesis using Life by (auto simp: ballot_used_def split: sum.splits)
next
  case (Cast now r token payload)
  assume s: "vote_step E shown q db = Inr db'" and u: "ballot_used i db"
  then obtain rc where "cast_ballot E now r token payload db = Inr (rc, db')" using Cast by (auto split: sum.splits)
  from cast_Inr [OF this] obtain a :: authorization where
    "db_authorizations db' = update_where (\<lambda>x. va_id x = va_id a)
        (\<lambda>x. x\<lparr>va_status := CONSUMED, va_consumed := Some now\<rparr>) (db_authorizations db)" by (elim exE conjE) simp
  moreover obtain p where p: "p \<in> set (db_authorizations db)" "va_voter p = i" "va_status p = CONSUMED"
    using u by (auto simp: ballot_used_def)
  ultimately have "(if va_id p = va_id a then p\<lparr>va_status := CONSUMED, va_consumed := Some now\<rparr> else p) \<in> set (db_authorizations db')"
    by (auto simp: in_update_where)
  then show ?thesis unfolding ballot_used_def exists_where_iff by (rule bexI [rotated]) (simp add: p)
qed

lemma cast_unused:
  assumes "cast_ballot E now r token payload db = Inr (rc, db')"
  shows "\<exists>i. voter_of E (Cast now r token payload) db = Some i \<and> \<not> ballot_used i db \<and> ballot_used i db'
    \<and> (\<exists>b. db_ballots db' = db_ballots db @ [b])"
proof -
  obtain a v sels key b where a: "admit E now token db = Inr (a, v)"
      "db' = queue_task (Send_vote_confirmation (ev_id (db_event db)) (vo_id v))
         (mark_voted now a v (db\<lparr>db_ballots := db_ballots db @ [b]\<rparr>))"
    using cast_Inr [OF assms] by blast
  have unused: "\<not> ballot_used (va_voter a) db"
    using assms a(1) by (auto simp: cast_ballot_def ballot_used_def split: sum.splits option.splits if_splits)
  note * = admit_Inr(1) [OF a(1)] first_where_Some [OF admit_Inr(1) [OF a(1)]]
  have "(\<lambda>x. x\<lparr>va_status := CONSUMED, va_consumed := Some now\<rparr>) a \<in> set (db_authorizations db')"
    using *(2) by (auto simp: a(2) in_update_where intro!: bexI [of _ a])
  then have "ballot_used (va_voter a) db'" unfolding ballot_used_def exists_where_iff by (rule bexI [rotated]) simp
  with unused * a(2) show ?thesis by simp
qed

interpretation campaign: once_only "campaign_step E S shown" "caster E" "\<lambda>s. True" "\<lambda>i s. ballot_used i (fst s)" for E S shown
proof
  fix s s' x k
  assume step: "campaign_step E S shown x s = Inr s'"
  obtain db bl otps where s: "s = (db, bl, otps)" by (cases s)
  obtain db' bl' otps' where s': "s' = (db', bl', otps')" by (cases s')
  show "ballot_used k (fst s) \<Longrightarrow> ballot_used k (fst s')"
  proof (cases x)
    case (Voting q)
    then show "ballot_used k (fst s) \<Longrightarrow> ballot_used k (fst s')" using step s s'
      by (cases "vote_step E shown q db") (auto dest: vote_step_used)
  next
    case (Roll q)
    then have "roll_step E S q (db, bl, otps) = Inr (db', bl', otps')"
      using step s s' by (cases "roll_step E S q (db, bl, otps)") auto
    from roll_step_kept [OF this] show "ballot_used k (fst s) \<Longrightarrow> ballot_used k (fst s')" by (simp add: s s' box_kept_def)
  qed
  assume k: "caster E x s = Some k"
  then obtain q where x: "x = Voting q" using s by (cases x) auto
  with k s obtain now r token payload where q: "q = Cast now r token payload" by (cases q) auto
  then obtain rc where "cast_ballot E now r token payload db = Inr (rc, db')"
    using step s s' x by (cases "cast_ballot E now r token payload db") auto
  from cast_unused [OF this] show "\<not> ballot_used k (fst s)" "ballot_used k (fst s')" using k s s' x q by auto
qed simp_all

lemma campaign_box:
  "run_attempts (campaign_step E S shown) xs s = (hits, t) \<Longrightarrow>
    length (db_ballots (fst t)) = length (db_ballots (fst s)) + length (List.map_filter (\<lambda>(x, s). caster E x s) hits)"
proof (induction xs arbitrary: s hits)
  case (Cons x xs)
  show ?case
  proof (cases "campaign_step E S shown x s")
    case (Inl e)
    with Cons show ?thesis by simp
  next
    case (Inr s1)
    obtain d where d: "run_attempts (campaign_step E S shown) xs s1 = (d, t)" "hits = (x, s) # d"
      using Cons.prems Inr by (auto simp: case_prod_unfold Let_def prod_eq_iff)
    obtain db bl otps where s: "s = (db, bl, otps)" by (cases s)
    obtain db1 bl1 otps1 where s1: "s1 = (db1, bl1, otps1)" by (cases s1)
    have "length (db_ballots db1) = length (db_ballots db) + (case caster E x s of None \<Rightarrow> 0 | Some i \<Rightarrow> 1)"
    proof (cases x)
      case (Voting q)
      then have v: "vote_step E shown q db = Inr db1" using Inr s s1 by (cases "vote_step E shown q db") auto
      show ?thesis
      proof (cases q)
        case (Issue now token voter how)
        with v Voting s show ?thesis by (auto dest: issue_keeps split: sum.splits)
      next
        case (Life l)
        with v Voting s show ?thesis by (auto dest: life_keeps split: sum.splits)
      next
        case (Cast now r token payload)
        with v obtain rc where "cast_ballot E now r token payload db = Inr (rc, db1)" by (auto split: sum.splits)
        from cast_unused [OF this] Cast Voting s show ?thesis by auto
      qed
    next
      case (Roll q)
      then have "roll_step E S q (db, bl, otps) = Inr (db1, bl1, otps1)"
        using Inr s s1 by (cases "roll_step E S q (db, bl, otps)") auto
      from roll_step_kept [OF this] Roll s show ?thesis by (simp add: box_kept_def)
    qed
    with Cons.IH [OF d(1)] d(2) s s1 show ?thesis by (simp add: List.map_filter_simps split: option.splits)
  qed
qed (simp add: List.map_filter_simps)

text \<open>
  C24: One voter, one ballot, whatever happens to the roll: authorizations, ballots,
  lifecycle requests, imports, code resets, status changes, removals, sign-ins - in any
  order, also from voter instances that are out of date - every ballot that gets into the
  box is from a different voter, and none is from a voter who had cast one before.
\<close>

theorem campaign_one_ballot:
  assumes "run_attempts (campaign_step E S shown) xs s = (hits, t)"
  shows "distinct (List.map_filter (\<lambda>(x, s). caster E x s) hits)
    \<and> length (db_ballots (fst t)) = length (db_ballots (fst s)) + length (List.map_filter (\<lambda>(x, s). caster E x s) hits)
    \<and> (ballot_used i (fst s) \<longrightarrow> i \<notin> set (List.map_filter (\<lambda>(x, s). caster E x s) hits))"
  using campaign.run_once [OF _ assms] campaign.run_spent [where k = i, OF TrueI _ assms] campaign_box [OF assms] assms
  by (auto simp: campaign.spent_by_def)

section \<open>The box and the turnout\<close>

lemma voted_ids_count: "length (voted_ids rows) = count_where (\<lambda>v. vo_status v = VOTED) rows"
  by (simp add: voted_ids_def count_where_def)

lemma campaign_turnout_step:
  assumes step: "campaign_step E S shown x s = Inr t" and ok: "roll_ok (fst s)" and fresh: "up_to_date x s"
  shows "roll_ok (fst t) \<and> length (db_ballots (fst t)) + length (voted_ids (db_voters (fst s)))
    = length (db_ballots (fst s)) + length (voted_ids (db_voters (fst t)))"
proof -
  obtain db bl otps where s: "s = (db, bl, otps)" by (cases s)
  obtain db1 bl1 otps1 where t: "t = (db1, bl1, otps1)" by (cases t)
  show ?thesis
  proof (cases x)
    case (Voting q)
    then have v: "vote_step E shown q db = Inr db1" using step s t by (cases "vote_step E shown q db") auto
    with ok s t count_voted_step [of db E shown q db1] votes.keeps_good [of db E shown q db1]
    show ?thesis by (simp add: voted_ids_count)
  next
    case (Roll q)
    then have "roll_step E S q (db, bl, otps) = Inr (db1, bl1, otps1)"
      using step s t by (cases "roll_step E S q (db, bl, otps)") auto
    from roll_step_kept [OF this] ok fresh Roll s t show ?thesis
      by (simp add: box_kept_def same_votes_def roll_ok_def)
  qed
qed

text \<open>
  C25: The ballot box matches the turnout: as long as requests work on current voter rows,
  voting, lifecycle requests and any management of the roll leave as many ballots as voters
  marked as having voted.
\<close>

theorem campaign_turnout:
  assumes "run_attempts (campaign_step E S shown) xs s = (hits, t)" and "\<And>x u. (x, u) \<in> set hits \<Longrightarrow> up_to_date x u"
    and "distinct (map vo_id (db_voters (fst s)))" and "db_ballots (fst s) = []"
    and "\<And>v. v \<in> set (db_voters (fst s)) \<Longrightarrow> vo_status v \<noteq> VOTED"
  shows "length (db_ballots (fst t)) = count_where (\<lambda>v. vo_status v = VOTED) (db_voters (fst t))"
proof -
  have "roll_ok (fst s) \<Longrightarrow> run_attempts (campaign_step E S shown) xs s = (hits, t) \<Longrightarrow>
      (\<And>x u. (x, u) \<in> set hits \<Longrightarrow> up_to_date x u) \<Longrightarrow>
      length (db_ballots (fst t)) + length (voted_ids (db_voters (fst s)))
        = length (db_ballots (fst s)) + length (voted_ids (db_voters (fst t)))"
  proof (induction xs arbitrary: s hits)
    case (Cons x xs)
    show ?case
    proof (cases "campaign_step E S shown x s")
      case (Inl e)
      with Cons show ?thesis by simp
    next
      case (Inr s1)
      then obtain d where d: "run_attempts (campaign_step E S shown) xs s1 = (d, t)" "hits = (x, s) # d"
        using Cons.prems(2) by (auto simp: case_prod_unfold Let_def prod_eq_iff)
      then have "up_to_date x s" using Cons.prems(3) by simp
      note st = campaign_turnout_step [OF Inr Cons.prems(1) this]
      have "length (db_ballots (fst t)) + length (voted_ids (db_voters (fst s1)))
          = length (db_ballots (fst s1)) + length (voted_ids (db_voters (fst t)))"
        using Cons.IH [OF _ d(1)] st Cons.prems(3) d(2) by simp
      with st show ?thesis by simp
    qed
  qed simp
  moreover have "voted_ids (db_voters (fst s)) = []" using assms(5) by (simp add: voted_ids_def filter_empty_conv)
  ultimately show ?thesis using assms(1-4) by (simp add: roll_ok_def voted_ids_count)
qed


section \<open>Old instances\<close>

text \<open>
  A passcode sign-in that overlaps a vote takes the vote off the turnout: when the
  voter's row was read before the ballot was cast and the passcode is accepted after it,
  the columns written back say \<open>VERIFIED\<close>, so the voter is no longer marked as having
  voted although the ballot is in the box.
\<close>

theorem stale_passcode_unmarks:
  assumes "cast_ballot E now r token payload db = Inr (rc, db1)" and "admit E now token db = Inr (a, v)"
    and "verify_otp E now' v challenge code purpose otps db1 = (Inr c, otps', db2)"
    and "distinct (map vo_id (db_voters db))"
  shows "\<not> has_voted (vo_id v) db2 \<and> length (db_ballots db2) = length (db_ballots db) + 1
    \<and> (\<exists>x\<in>set (db_voters db2). vo_id x = vo_id v \<and> vo_status x = VERIFIED)"
proof -
  obtain b where d: "db1 = queue_task (Send_vote_confirmation (ev_id (db_event db)) (vo_id v))
         (mark_voted now a v (db\<lparr>db_ballots := db_ballots db @ [b]\<rparr>))"
    using cast_Inr [OF assms(1)] assms(2) by auto
  note v = admit_Inr(6,7) [OF assms(2)] first_where_Some [OF admit_Inr(5) [OF assms(2)]]
  define w where "w = verified_by_otp now' (oc_channel c) v"
  have w: "vo_status w = VERIFIED" using v(2) by (auto simp: w_def verified_by_otp_def can_vote_def Let_def)
  let ?f = "\<lambda>x. x\<lparr>vo_email_verified := vo_email_verified w, vo_phone_verified := vo_phone_verified w,
      vo_status := vo_status w, vo_verified_at := vo_verified_at w\<rparr>"
  have rows: "db_voters db2 = update_where (\<lambda>x. vo_id x = vo_id v) ?f (db_voters db1)"
      "db_ballots db2 = db_ballots db @ [b]"
    using assms(3) by (auto simp: verify_otp_def Let_def d w_def split: prod.splits sum.splits)
  have "\<not> has_voted (vo_id v) db2"
  proof
    assume "has_voted (vo_id v) db2"
    then obtain y where y: "y \<in> set (db_voters db2)" "vo_id y = vo_id v" "vo_status y = VOTED" by (auto simp: has_voted_def)
    then obtain q where "y = (if vo_id q = vo_id v then ?f q else q)" unfolding rows(1) in_update_where by blast
    with y w show False by (cases "vo_id q = vo_id v") simp_all
  qed
  moreover have "v\<lparr>vo_status := VOTED, vo_voted_at := Some now, vo_credential_text := None\<rparr> \<in> set (db_voters db1)"
    using v(3) by (auto simp: d in_update_where intro!: bexI [of _ v])
  then obtain x where "x \<in> set (db_voters db1)" "vo_id x = vo_id v" by (rule that) simp
  then have "?f x \<in> set (db_voters db2)" by (auto simp: rows(1) in_update_where)
  then have "\<exists>y\<in>set (db_voters db2). vo_id y = vo_id v \<and> vo_status y = VERIFIED"
    using w \<open>vo_id x = vo_id v\<close> by (intro bexI [of _ "?f x"]) simp_all
  ultimately show ?thesis using rows(2) by simp
qed

section \<open>A new access code\<close>

text \<open>
  Resetting an access code locks the old one out: afterwards no ballot can be cast with
  an authorization the voter was given before, and the only code that signs the voter in is
  the new one (a code with the same keyed hash).
\<close>

theorem reset_locks_out:
  assumes "reset_credential E now choices v actor db = Inr (code, db')"
    and "\<And>x. x \<in> set (db_voters db) \<Longrightarrow> vo_election x = ev_id (db_event db)"
  shows "(admit E now' token db' = Inr (a, x) \<longrightarrow> va_voter a \<noteq> vo_id v)
    \<and> (authenticate_code E ident given db' = (Inr w, db'') \<and> vo_id w = vo_id v \<longrightarrow>
        hash_voting_code E (ev_id (db_event db)) (upper (strip given)) = hash_voting_code E (ev_id (db_event db)) code)"
proof -
  obtain u u' where u: "first_where (\<lambda>x. vo_id x = vo_id v) (db_voters db) = Some u"
      "issue_credential E now choices u = (code, u')" "db_voters db' = save_voter u' (db_voters db)"
      "db_event db' = db_event db" "db_authorizations db' = db_authorizations (revoke_issued (vo_id u) db)"
    using assms(1) by (auto simp: reset_credential_def reissue_def split: sum.splits if_splits option.splits prod.splits)
  note same = issue_credential_same [OF u(2)] first_where_Some [OF u(1)]
  have "va_voter a \<noteq> vo_id v" if a: "admit E now' token db' = Inr (a, x)"
  proof -
    have "a \<in> set (db_authorizations db')" using first_where_Some [OF admit_Inr(1) [OF a]] by simp
    then obtain q where "a = (if va_voter q = vo_id u \<and> va_status q = ISSUED then q\<lparr>va_status := REVOKED\<rparr> else q)"
      by (auto simp: u(5) revoke_issued_def in_update_where)
    with admit_Inr(2) [OF a] same show ?thesis by (cases "va_voter q = vo_id u \<and> va_status q = ISSUED") auto
  qed
  moreover have "hash_voting_code E (ev_id (db_event db)) (upper (strip given)) = hash_voting_code E (ev_id (db_event db)) code"
    if w: "authenticate_code E ident given db' = (Inr w, db'')" "vo_id w = vo_id v"
  proof -
    have hash: "w \<in> set (db_voters db')"
        "vo_credential_hash w = Some (hash_voting_code E (ev_id (db_event db)) (upper (strip given)))"
      using w(1) u(4) by (auto simp: authenticate_code_def Let_def fail_sign_in_def check_status_def
          dest!: first_where_Some split: if_splits option.splits)
    then obtain q where "w = (if vo_id q = vo_id u' then u' else q)" by (auto simp: u(3) save_voter_def in_update_where)
    then have "w = u'" using w(2) same by (cases "vo_id q = vo_id u'") auto
    moreover have "vo_credential_hash u' = Some (hash_voting_code E (ev_id (db_event db)) code)"
      using u(2) assms(2) [of u] same by (auto simp: issue_credential_def set_credential_def Let_def)
    ultimately show ?thesis using hash(2) by simp
  qed
  ultimately show ?thesis by blast
qed


section \<open>Platform accounts\<close>

text \<open>
  Signing in with a platform account takes the account's word for its email address:
  whoever registers an account (registration asks for no proof of the address) under the
  address of a voter who has not linked an account is signed in as that voter, and the
  voter's row is linked to that account.
\<close>

theorem account_email_trusted:
  assumes "pu_signed_in u" and "pu_email u \<noteq> []" and "\<And>x. x \<in> set (db_voters db) \<Longrightarrow> vo_user x \<noteq> Some (pu_id u)"
    and "find_voter E (pu_email u) db = Some v" and "CHR ''@'' \<in> set (pu_email u)" and "strip (pu_email u) = pu_email u"
    and "vo_user v = None" and "can_vote v"
  shows "\<exists>db' w. voter_for_account E u db = (Inr w, db') \<and> vo_id w = vo_id v
    \<and> (\<exists>x\<in>set (db_voters db'). vo_id x = vo_id v \<and> vo_user x = Some (pu_id u))"
proof -
  have none: "first_where (\<lambda>x. vo_user x = Some (pu_id u)) (db_voters db) = None"
    using assms(3) by (simp add: first_where_None)
  have v: "first_where (\<lambda>x. vo_email_index x = contact_index E ''email'' (pu_email u)) (db_voters db) = Some v"
    using assms(2,4-6) by (simp add: find_voter_def)
  have "v\<lparr>vo_user := Some (pu_id u)\<rparr> \<in> set (update_where (\<lambda>x. vo_id x = vo_id v) (\<lambda>x. x\<lparr>vo_user := Some (pu_id u)\<rparr>) (db_voters db))"
    using first_where_Some [OF v] by (auto simp: in_update_where intro!: bexI [of _ v])
  then have "\<exists>x\<in>set (update_where (\<lambda>x. vo_id x = vo_id v) (\<lambda>x. x\<lparr>vo_user := Some (pu_id u)\<rparr>) (db_voters db)).
      vo_id x = vo_id v \<and> vo_user x = Some (pu_id u)" by (rule bexI [rotated]) simp
  then show ?thesis
    using assms(1,2,7,8) none v by (auto simp: voter_for_account_def check_status_def can_vote_def)
qed

section \<open>Examples\<close>

definition ex_campaign :: campaign where
  "ex_campaign = (poll_db, ex_billing, \<lparr>op_challenges = [ex_challenge], op_counters = []\<rparr>)"

lemma ex_campaign_run:
  "\<exists>t. run_attempts (campaign_step ex_env ex_settings (\<lambda>_. [])) [Voting ex_cast] ex_campaign = ([(Voting ex_cast, ex_campaign)], t)"
  using poll_cast(1) by (auto simp: ex_campaign_def ex_cast_def)

lemma ex_caster: "caster ex_env (Voting ex_cast) ex_campaign = Some 1"
  using poll_voter by (simp add: ex_campaign_def del: voter_of.simps)

theorem campaign_one_ballot_witness:
  "\<exists>t. run_attempts (campaign_step ex_env ex_settings (\<lambda>_. [])) [Voting ex_cast] ex_campaign = ([(Voting ex_cast, ex_campaign)], t)
    \<and> length (db_ballots (fst t)) = 1"
proof -
  obtain t where t: "run_attempts (campaign_step ex_env ex_settings (\<lambda>_. [])) [Voting ex_cast] ex_campaign
      = ([(Voting ex_cast, ex_campaign)], t)" using ex_campaign_run by blast
  have "List.map_filter (\<lambda>(x, s). caster ex_env x s) [(Voting ex_cast, ex_campaign)] = [1]"
    unfolding List.map_filter_simps case_prod_conv ex_caster by simp
  with campaign_one_ballot [OF t] have "length (db_ballots (fst t)) = length (db_ballots (fst ex_campaign)) + 1" by simp
  with t show ?thesis by (auto simp: ex_campaign_def poll_db_simps)
qed

theorem campaign_turnout_witness:
  "\<exists>t. run_attempts (campaign_step ex_env ex_settings (\<lambda>_. [])) [Voting ex_cast] ex_campaign = ([(Voting ex_cast, ex_campaign)], t)
    \<and> length (db_ballots (fst t)) = count_where (\<lambda>v. vo_status v = VOTED) (db_voters (fst t))"
proof -
  obtain t where t: "run_attempts (campaign_step ex_env ex_settings (\<lambda>_. [])) [Voting ex_cast] ex_campaign
      = ([(Voting ex_cast, ex_campaign)], t)" using ex_campaign_run by blast
  have "length (db_ballots (fst t)) = count_where (\<lambda>v. vo_status v = VOTED) (db_voters (fst t))"
    by (intro campaign_turnout [OF t]) (auto simp: ex_campaign_def poll_db_simps ex_voter_def)
  with t show ?thesis by blast
qed

lemma ex_reset: "\<exists>code db'. reset_credential ex_env 5 (replicate 10 3) (ex_voter 1) (Some ex_operator) poll_db = Inr (code, db')"
  by (simp add: reset_credential_def roll_access_def operator_may permissions_def first_where_def poll_db_simps reissue_def
      issue_credential_def Let_def voter_clash_def ex_voter_def set_credential_def)

theorem reset_locks_out_witness:
  "\<exists>code db'. reset_credential ex_env 5 (replicate 10 3) (ex_voter 1) (Some ex_operator) poll_db = Inr (code, db')
    \<and> (\<forall>a x. admit ex_env 12 ''t'' db' = Inr (a, x) \<longrightarrow> va_voter a \<noteq> 1)"
proof -
  obtain code db' where r: "reset_credential ex_env 5 (replicate 10 3) (ex_voter 1) (Some ex_operator) poll_db = Inr (code, db')"
    using ex_reset by blast
  have same: "vo_election x = ev_id (db_event poll_db)" if "x \<in> set (db_voters poll_db)" for x
    using that by (auto simp: poll_db_simps ex_voter_def ex_event_def)
  have "va_voter a \<noteq> 1" if "admit ex_env 12 ''t'' db' = Inr (a, x)" for a x
    using reset_locks_out [OF r(1) same, of 12 "''t''" a x] that by (simp add: ex_voter_def)
  with r show ?thesis by blast
qed

end
