(* ===== verification/Billing_Props.thy ===== *)
theory Billing_Props
  imports Billing
begin

text \<open>
  What billing guarantees: the arithmetic of an invoice, the coupons, the limits of a plan,
  and what a renewal leaves out.
\<close>

section \<open>Amounts in cents\<close>

definition whole_cents :: "rat \<Rightarrow> bool" where
  "whole_cents x \<longleftrightarrow> (\<exists>k::int. x = of_int k / 100)"

lemma money_whole [simp]: "whole_cents (money x)"
  by (auto simp: whole_cents_def money_def quantize_half_up_def intro: exI [of _ "- k" for k])

lemma money_id: "whole_cents x \<Longrightarrow> money x = x"
  unfolding whole_cents_def money_def using quantize_cents [of 2] by (elim exE, hypsubst) simp

lemma whole_cents_add: "whole_cents x \<Longrightarrow> whole_cents y \<Longrightarrow> whole_cents (x + y)"
  by (auto simp: whole_cents_def) (metis add_divide_distrib of_int_add)

lemma whole_cents_diff: "whole_cents x \<Longrightarrow> whole_cents y \<Longrightarrow> whole_cents (x - y)"
  by (auto simp: whole_cents_def) (metis diff_divide_distrib of_int_diff)

lemma whole_cents_0 [simp]: "whole_cents 0"
  by (simp add: whole_cents_def exI [of _ 0])

lemma whole_cents_sum: "(\<And>x. x \<in> set xs \<Longrightarrow> whole_cents (f x)) \<Longrightarrow> whole_cents (sum_list (map f xs))"
  by (induction xs) (simp_all add: whole_cents_add)

lemma whole_cents_min: "whole_cents x \<Longrightarrow> whole_cents y \<Longrightarrow> whole_cents (min x y)"
  by (simp add: min_def)

lemma money_nonneg: "0 \<le> x \<Longrightarrow> 0 \<le> money x"
  by (simp add: money_def quantize_nonneg)

section \<open>Lines and discounts\<close>

definition plan_prices_ok :: "plan \<Rightarrow> bool" where
  "plan_prices_ok p \<longleftrightarrow> 0 \<le> pl_monthly p \<and> 0 \<le> pl_annual p \<and> 0 \<le> pl_per_election p \<and> 0 \<le> pl_per_voter p"

definition usage_ok :: "billing_db \<Rightarrow> bool" where
  "usage_ok db \<longleftrightarrow> list_all (\<lambda>u. 0 \<le> ur_quantity u) (bl_usage db)"

lemma usage_total_nonneg: "usage_ok db \<Longrightarrow> 0 \<le> usage_total org t0 t1 m db"
  by (auto simp: usage_total_def usage_ok_def list_all_iff intro!: sum_list_map_nonneg)

lemma line_amount [simp]: "il_amount (invoice_line_of item n price) = money (of_int n * price)"
  by (simp add: invoice_line_of_def)

lemma line_amounts_ok:
  assumes "usage_ok db" and "l \<in> set (invoice_lines p c b org t0 t1 db)"
  shows "0 \<le> il_amount l \<and> whole_cents (il_amount l)"
proof -
  note n = usage_total_nonneg [OF assms(1), of org t0 t1]
  show ?thesis
    using assms(2) n [of ELECTION_CREATED] n [of SMS_SENT]
    by (auto simp: invoice_lines_def usage_lines_def Let_def sms_unit_price_def
        intro!: money_nonneg mult_nonneg_nonneg split: if_splits)
qed

lemma coupon_discount_bounds:
  assumes "coupon_discount t0 s subtotal db = (discount, used)" and "0 \<le> subtotal" and "whole_cents subtotal"
    and "list_all (\<lambda>c. 0 \<le> cp_value c) (bl_coupons db)"
  shows "0 \<le> discount \<and> discount \<le> subtotal \<and> whole_cents discount"
proof -
  have "0 \<le> cp_value c" if "first_where P (bl_coupons db) = Some c" for P c
    using first_where_Some [OF that] assms(4) by (auto simp: list_all_iff)
  then show ?thesis
    using assms(1-3)
    by (auto simp: coupon_discount_def Let_def bind_eq_Some_conv whole_cents_min min_def
        split: option.splits if_splits coupon_kind.splits intro!: money_nonneg)
qed

text \<open>
  C22: An invoice adds up: the subtotal is the sum of its lines, the discount is between
  nothing and the subtotal, the total is what is left plus the levy plus the tax, all in
  whole cents and none negative, and the invoice counts as paid exactly when nothing is due.
\<close>

theorem invoice_adds_up:
  assumes "generate_invoice S now org t0 t1 actor include_usage db = Inr (v, db')"
    and "usage_ok db" and "list_all (\<lambda>c. 0 \<le> cp_value c) (bl_coupons db)" and "0 \<le> bs_levy S" and "0 \<le> bs_vat S"
  shows "iv_subtotal v = sum_list (map il_amount (iv_lines v)) \<and> 0 \<le> iv_discount v \<and> iv_discount v \<le> iv_subtotal v
    \<and> iv_total v = iv_subtotal v - iv_discount v + iv_levy v + iv_vat v \<and> 0 \<le> iv_total v
    \<and> (iv_status v = INVOICE_PAID \<longleftrightarrow> iv_total v = 0) \<and> v \<in> set (bl_invoices db')"
proof -
  obtain s db1 p where g: "get_subscription S now org db = (s, db1)" "v = invoice_for S now org p s t0 t1 include_usage db1"
      "v \<in> set (bl_invoices db')"
    using assms(1) by (auto simp: generate_invoice_def log_billing_def Let_def split: prod.splits option.splits)
  have same: "bl_usage db1 = bl_usage db" "bl_coupons db1 = bl_coupons db"
    using g(1) by (auto simp: get_subscription_def sync_plans_def Let_def split: option.splits)
  define ls where "ls = invoice_lines p (sb_cycle s) include_usage org t0 t1 db1"
  define sub where "sub = sum_list (map il_amount ls)"
  obtain discount used where d: "coupon_discount t0 s sub db1 = (discount, used)" by force
  have ls: "l \<in> set ls \<Longrightarrow> 0 \<le> il_amount l \<and> whole_cents (il_amount l)" for l
    using line_amounts_ok [of db1] assms(2) same(1) by (auto simp: ls_def usage_ok_def)
  then have sub: "0 \<le> sub" "whole_cents sub"
    by (auto simp: sub_def intro!: sum_list_map_nonneg whole_cents_sum)
  note b = coupon_discount_bounds [OF d sub, unfolded same(2), OF assms(3)]
  define taxable where "taxable = sub - discount"
  define levy where "levy = money (taxable * bs_levy S / 100)"
  define vat where "vat = money ((taxable + levy) * bs_vat S / 100)"
  have t: "0 \<le> taxable" "whole_cents taxable" using b sub by (simp_all add: taxable_def whole_cents_diff)
  have l: "0 \<le> levy" "whole_cents levy" using t assms(4) by (simp_all add: levy_def money_nonneg)
  have w: "0 \<le> vat" "whole_cents vat" using t l assms(5) by (simp_all add: vat_def money_nonneg)
  have total: "money (taxable + levy + vat) = taxable + levy + vat"
    using t l w by (intro money_id whole_cents_add)
  have v: "iv_subtotal v = sub" "iv_lines v = ls" "iv_discount v = discount" "iv_levy v = levy" "iv_vat v = vat"
      "iv_total v = taxable + levy + vat" "iv_status v = (if 0 < taxable + levy + vat then INVOICE_OPEN else INVOICE_PAID)"
    using d sub total
    by (simp_all add: g(2) invoice_for_def Let_def money_id flip: ls_def sub_def taxable_def levy_def vat_def)
  show ?thesis using b t l w g(3) by (auto simp: v sub_def taxable_def)
qed


section \<open>Renewal\<close>

lemma no_usage_total:
  "(\<And>u. u \<in> set (bl_usage db) \<Longrightarrow> ur_org u = org \<Longrightarrow> ur_at u < t0) \<Longrightarrow> usage_total org t0 t1 m db = 0"
  by (force simp: usage_total_def used_in_def filter_empty_conv intro!: arg_cong [where f = sum_list, of _ "[]", simplified])

lemma put_subscription_simps [simp]:
  "bl_usage (put_subscription s db) = bl_usage db" "bl_invoices (put_subscription s db) = bl_invoices db"
  "bl_plans (put_subscription s db) = bl_plans db" "bl_coupons (put_subscription s db) = bl_coupons db"
  by (simp_all add: put_subscription_def)

lemma put_subscription_row:
  "q \<in> set (bl_subscriptions db) \<Longrightarrow> sb_org q = sb_org r \<Longrightarrow> r \<in> set (bl_subscriptions (put_subscription r db))"
  by (auto simp: put_subscription_def in_update_where)

text \<open>
  Usage is not billed: a renewal invoices the period that begins when the last one ends,
  so what an organization used during the period that ran out - here everything recorded
  before its end - gets no line in the invoice, stays unbilled, and lies outside the new
  period of the subscription.
\<close>

theorem renewal_misses_usage:
  assumes due: "renew_one S now s db = Inr (n, db')" and s: "subscription_row (sb_org s) db = Some s" "\<not> sb_cancel s"
    and past: "\<And>u. u \<in> set (bl_usage db) \<Longrightarrow> ur_org u = sb_org s \<Longrightarrow> ur_at u < sb_end s"
    and included: "\<And>p. find_plan (sb_plan s) db = Some p \<Longrightarrow> 0 \<le> pl_included p"
  shows "(\<exists>v. bl_invoices db' = bl_invoices db @ [v] \<and> iv_org v = sb_org s
      \<and> (\<forall>l\<in>set (iv_lines v). il_item l = Plan_fee)) \<and> bl_usage db' = bl_usage db
    \<and> (\<exists>r\<in>set (bl_subscriptions db'). sb_org r = sb_org s \<and> sb_start r = sb_end s)"
proof -
  have get: "get_subscription S now (sb_org s) db = (s, db)" using s(1) by (simp add: get_subscription_def)
  obtain p where p: "find_plan (sb_plan s) db = Some p"
    using due s(2) get by (auto simp: renew_one_def generate_invoice_def Let_def split: option.splits)
  define t1 where "t1 = add_months (sb_end s) (cycle_months (sb_cycle s))"
  define v where "v = invoice_for S now (sb_org s) p s (sb_end s) t1 True db"
  have none: "usage_total (sb_org s) (sb_end s) t1 m db = 0" for m
    using past by (rule no_usage_total)
  have lines: "\<forall>l\<in>set (iv_lines v). il_item l = Plan_fee"
    using included [OF p]
    by (auto simp: v_def invoice_for_def invoice_lines_def usage_lines_def invoice_line_of_def Let_def none split: prod.splits)
  have same: "update_where (\<lambda>u. used_in (sb_org s) (sb_end s) t1 u \<and> ur_invoice u = None) f (bl_usage db) = bl_usage db" for f
    using past by (force simp: used_in_def intro: update_where_none)
  have row: "s \<in> set (bl_subscriptions db)" using s(1) by (auto simp: subscription_row_def dest: first_where_Some)
  obtain r db1 where r: "db' = put_subscription r db1" "sb_org r = sb_org s" "sb_start r = sb_end s"
      "bl_invoices db1 = bl_invoices db @ [v]" "bl_usage db1 = bl_usage db" "bl_subscriptions db1 = bl_subscriptions db"
    using due s(2) get p
    by (fastforce simp: renew_one_def generate_invoice_def Let_def log_billing_def same simp flip: t1_def v_def)
  have db': "bl_invoices db' = bl_invoices db @ [v]" "bl_usage db' = bl_usage db"
      "\<exists>r\<in>set (bl_subscriptions db'). sb_org r = sb_org s \<and> sb_start r = sb_end s"
    using r row put_subscription_row [of s db1 r] by auto
  have "iv_org v = sb_org s" by (auto simp: v_def invoice_for_def Let_def split: prod.splits)
  with lines db' show ?thesis by blast
qed


lemma put_row:
  "subscription_row org db = Some q \<Longrightarrow> sb_org q = org \<Longrightarrow> sb_org r = org \<Longrightarrow> bl_subscriptions db' = bl_subscriptions db
    \<Longrightarrow> subscription_row org (put_subscription r db') = Some r"
  by (simp add: subscription_row_def put_subscription_def first_where_put)

lemma planned:
  assumes "change_plan S now org code actor cycle coupon_code db = Inr ((s, Some v), db')" and s0: "subscription_row org db = Some s0"
  shows "\<exists>s2 db3 db4. generate_invoice S now org now (add_months now (cycle_months cycle)) actor False db3 = Inr (v, db4)
    \<and> s = s2\<lparr>sb_status := PAST_DUE\<rparr> \<and> db' = put_subscription s db4 \<and> subscription_row org db3 = Some s2
    \<and> bl_overrides db3 = bl_overrides db \<and> bl_flags db3 = bl_flags db"
proof -
  have get: "get_subscription S now org db = (s0, db)" using s0 by (simp add: get_subscription_def)
  have org: "sb_org s0 = org" using s0 by (auto simp: subscription_row_def dest: first_where_Some)
  obtain p s1 db1 where r: "find_plan code db = Some p" "redeem now coupon_code (s0\<lparr>sb_plan := code, sb_cycle := cycle\<rparr>) db = Inr (s1, db1)"
    using assms(1) get by (auto simp: change_plan_def split: option.splits sum.splits)
  have same: "sb_org s1 = org" "bl_subscriptions db1 = bl_subscriptions db" "bl_overrides db1 = bl_overrides db"
      "bl_flags db1 = bl_flags db"
    using r(2) org by (auto simp: redeem_def split: if_splits option.splits)
  define s2 where "s2 = (if pl_monthly p = 0 then s1\<lparr>sb_status := SUB_ACTIVE\<rparr> else s1)"
  define db3 where "db3 = log_billing (billing_note ''BILLING_PLAN_CHANGED'' (map_option us_id actor) org) (put_subscription s2 db1)"
  have "subscription_row org (put_subscription s2 db1) = Some s2"
    using s0 org same by (intro put_row [OF s0]) (simp_all add: s2_def)
  then have row: "subscription_row org db3 = Some s2" by (simp add: db3_def log_billing_def subscription_row_def)
  have db3: "bl_overrides db3 = bl_overrides db" "bl_flags db3 = bl_flags db"
    using same by (simp_all add: db3_def log_billing_def put_subscription_def)
  obtain db4 where "generate_invoice S now org now (add_months now (cycle_months cycle)) actor False db3 = Inr (v, db4)"
      "s = s2\<lparr>sb_status := PAST_DUE\<rparr>" "db' = put_subscription s db4"
    using assms(1) get r
    by (auto simp: change_plan_def Let_def db3_def s2_def split: if_splits sum.splits)
  then show ?thesis using row db3 by blast
qed

text \<open>
  A fully discounted plan stays blocked: when a coupon brings the invoice of a plan
  change to zero the invoice counts as paid, but the subscription is past due all the same,
  so no feature of the plan is available, and no payment can be made for the paid invoice
  to change that.
\<close>

theorem free_invoice_past_due:
  assumes "change_plan S now org code actor cycle coupon_code db = Inr ((s, Some v), db')" and "iv_status v = INVOICE_PAID"
    and "distinct (map iv_number (bl_invoices db'))" and "subscription_row org db \<noteq> None"
    and "map_of (bl_overrides db) (key, org) = None" and "map_of (bl_flags db) key = None"
  shows "sb_status s = PAST_DUE \<and> mark_invoice_paid S now' (iv_number v) db' = db' \<and> \<not> feature_enabled S now' (Some org) key db'"
proof -
  obtain s0 where s0: "subscription_row org db = Some s0" using assms(4) by auto
  obtain s2 db3 db4 where h: "generate_invoice S now org now (add_months now (cycle_months cycle)) actor False db3 = Inr (v, db4)"
      "s = s2\<lparr>sb_status := PAST_DUE\<rparr>" "db' = put_subscription s db4" "subscription_row org db3 = Some s2"
      "bl_overrides db3 = bl_overrides db" "bl_flags db3 = bl_flags db"
    using assms(1) s0 by (auto dest!: planned)
  obtain p where i: "db4 = log_billing (billing_note ''BILLING_INVOICE_ISSUED'' (map_option us_id actor) org)
      (db3\<lparr>bl_invoices := bl_invoices db3 @ [v], bl_usage := bl_usage db3\<rparr>)"
    using h(1,4) by (auto simp: generate_invoice_def get_subscription_def Let_def split: option.splits)
  have org: "sb_org s2 = org" using h(4) by (auto simp: subscription_row_def dest: first_where_Some)
  have row: "subscription_row org db' = Some s"
    using h(2,3,4) org by (simp, intro put_row) (simp_all add: i log_billing_def)
  have "v \<in> set (bl_invoices db')" using h(3) by (simp add: i log_billing_def)
  then have "first_where (\<lambda>x. iv_number x = iv_number v) (bl_invoices db') = Some v"
    using assms(3) first_where_row by metis
  then have "mark_invoice_paid S now' (iv_number v) db' = db'" using assms(2) by (simp add: mark_invoice_paid_def)
  moreover have "\<not> feature_enabled S now' (Some org) key db'"
    using assms(5,6) h row by (simp add: feature_enabled_def get_subscription_def i log_billing_def put_subscription_def)
  ultimately show ?thesis using h(2) by simp
qed


section \<open>Witnesses\<close>

lemma ex_subscribed:
  "subscription_row 1 ex_billing = Some (hd (bl_subscriptions ex_billing))" "find_plan ''PROFESSIONAL'' ex_billing \<noteq> None"
  "find_plan ''ENTERPRISE'' ex_billing \<noteq> None"
  by code_simp+

lemma ex_invoice: "\<exists>v db'. generate_invoice ex_settings 5 1 t0 t1 None b ex_billing = Inr (v, db')"
  using ex_subscribed
  by (auto simp: generate_invoice_def get_subscription_def Let_def ex_billing_def)

theorem invoice_adds_up_witness:
  "\<exists>v db'. generate_invoice ex_settings 5 1 0 (31 * day_length) None True ex_billing = Inr (v, db')
    \<and> iv_total v = iv_subtotal v - iv_discount v + iv_levy v + iv_vat v \<and> 0 \<le> iv_total v"
proof -
  obtain v db' where v: "generate_invoice ex_settings 5 1 0 (31 * day_length) None True ex_billing = Inr (v, db')"
    using ex_invoice by blast
  show ?thesis using invoice_adds_up [OF v] v by (force simp: usage_ok_def ex_billing_def ex_settings_def)
qed

theorem renewal_misses_usage_witness:
  "\<exists>n db'. renew_one ex_settings (31 * day_length) (hd (bl_subscriptions ex_billing)) ex_billing = Inr (n, db')
    \<and> bl_usage db' = bl_usage ex_billing \<and> ur_invoice (hd (bl_usage db')) = None"
proof -
  let ?s = "hd (bl_subscriptions ex_billing)"
  have s: "subscription_row (sb_org ?s) ex_billing = Some ?s" "\<not> sb_cancel ?s"
    using ex_subscribed by (simp_all add: ex_billing_def)
  obtain n db' where r: "renew_one ex_settings (31 * day_length) ?s ex_billing = Inr (n, db')"
    using s ex_subscribed
    by (auto simp: renew_one_def generate_invoice_def get_subscription_def Let_def ex_billing_def split: option.splits)
  have "ur_at u < sb_end ?s" if "u \<in> set (bl_usage ex_billing)" for u
    using that by (simp add: ex_billing_def day_length_def)
  moreover have "0 \<le> pl_included p" if "find_plan (sb_plan ?s) ex_billing = Some p" for p
    using first_where_Some [OF that [unfolded find_plan_def]] by (auto simp: ex_billing_def plan_definitions_def plan_of_def)
  ultimately have "bl_usage db' = bl_usage ex_billing" using renewal_misses_usage [OF r s] by simp
  with r show ?thesis by (simp add: ex_billing_def)
qed

end
