(* ===== verification/Json_Read.thy ===== *)
theory Json_Read
  imports Json Pyfloat
begin

text \<open>
  \<open>json.loads\<close>, which reads back the ballots and the results that \<open>canonical_json\<close> wrote.
  Text is UTF-8 without a byte order mark. A number that overflows a double is infinite;
  an integer of more than 4300 digits is refused, as the interpreter does. A lone
  surrogate of an escape is kept in its three-byte form.

  The readers take fuel and return the value with the text after it; \<open>loads\<close> gives as
  much fuel as any text of its length can use (\<open>fuel_enough\<close>). Main result: \<open>loads\<close> undoes \<open>render\<close> on values without
  floats (\<open>plain_json\<close>), the values of a ballot.
\<close>

section \<open>Lexical elements\<close>

definition is_json_space :: "char \<Rightarrow> bool" where
  "is_json_space c \<longleftrightarrow> (of_char c :: nat) \<in> {9, 10, 13, 32}"

definition skip_space :: "string \<Rightarrow> string" where
  "skip_space s = dropWhile is_json_space s"

text \<open>The text after a given character, white space before it skipped.\<close>

definition after :: "char \<Rightarrow> string \<Rightarrow> string option" where
  "after c s = (case skip_space s of [] \<Rightarrow> None | d # r \<Rightarrow> if d = c then Some r else None)"

fun hex_nibble :: "char \<Rightarrow> nat option" where
  "hex_nibble c =
     (let n = (of_char c :: nat)
      in if 48 \<le> n \<and> n \<le> 57 then Some (n - 48)
         else if 97 \<le> n \<and> n \<le> 102 then Some (n - 87)
         else if 65 \<le> n \<and> n \<le> 70 then Some (n - 55)
         else None)"

declare hex_nibble.simps [simp del]

fun read_hex4 :: "string \<Rightarrow> nat option" where
  "read_hex4 (a # b # c # d # r) =
     (case (hex_nibble a, hex_nibble b, hex_nibble c, hex_nibble d) of
        (Some w, Some x, Some y, Some z) \<Rightarrow> Some (((w * 16 + x) * 16 + y) * 16 + z)
      | _ \<Rightarrow> None)"
| "read_hex4 _ = None"

definition utf8 :: "nat \<Rightarrow> string" where
  "utf8 n =
     (if n < 0x80 then [char_of n]
      else if n < 0x800 then [char_of (0xC0 + n div 64), char_of (0x80 + n mod 64)]
      else if n < 0x10000 then
        [char_of (0xE0 + n div 4096), char_of (0x80 + n div 64 mod 64), char_of (0x80 + n mod 64)]
      else [char_of (0xF0 + n div 262144), char_of (0x80 + n div 4096 mod 64),
            char_of (0x80 + n div 64 mod 64), char_of (0x80 + n mod 64)])"

definition short_unescape :: "char \<Rightarrow> char option" where
  "short_unescape c =
     (if c \<in> {CHR 0x22, CHR 0x5C, CHR ''/''} then Some c
      else if c = CHR ''n'' then Some (CHR 0x0A) else if c = CHR ''r'' then Some (CHR 0x0D)
      else if c = CHR ''t'' then Some (CHR 0x09) else if c = CHR ''b'' then Some (CHR 0x08)
      else if c = CHR ''f'' then Some (CHR 0x0C) else None)"

text \<open>The low half of a surrogate pair, when the text goes on with one.\<close>

definition low_surrogate :: "string \<Rightarrow> nat option" where
  "low_surrogate r =
     (if take 2 r = [CHR 0x5C, CHR ''u''] then
        (case read_hex4 (drop 2 r) of
           Some n \<Rightarrow> if 0xDC00 \<le> n \<and> n \<le> 0xDFFF then Some n else None
         | None \<Rightarrow> None)
      else None)"

definition put_back :: "string \<Rightarrow> (string \<times> string) option \<Rightarrow> (string \<times> string) option" where
  "put_back p x = map_option (\<lambda>(t, r). (p @ t, r)) x"

fun read_string :: "string \<Rightarrow> (string \<times> string) option" where
  "read_string [] = None"
| "read_string (c # cs) =
     (if c = CHR 0x22 then Some ([], cs)
      else if (of_char c :: nat) < 32 then None
      else if c \<noteq> CHR 0x5C then put_back [c] (read_string cs)
      else (case cs of
          [] \<Rightarrow> None
        | e # r \<Rightarrow>
            if e \<noteq> CHR ''u'' then
              (case short_unescape e of None \<Rightarrow> None | Some x \<Rightarrow> put_back [x] (read_string r))
            else (case read_hex4 r of
                None \<Rightarrow> None
              | Some n \<Rightarrow>
                  if 0xD800 \<le> n \<and> n \<le> 0xDBFF \<and> low_surrogate (drop 4 r) \<noteq> None then
                    put_back (utf8 (0x10000 + (n - 0xD800) * 1024 + (the (low_surrogate (drop 4 r)) - 0xDC00)))
                      (read_string (drop 10 r))
                  else put_back (utf8 n) (read_string (drop 4 r)))))"

section \<open>Numbers and words\<close>

definition digits_of :: "string \<Rightarrow> string \<times> string" where
  "digits_of s = (takeWhile is_digit s, dropWhile is_digit s)"

definition digits_value :: "string \<Rightarrow> nat" where
  "digits_value ds = foldl (\<lambda>n d. 10 * n + digit_value d) 0 ds"

definition float_of :: "rat \<Rightarrow> py_float" where
  "float_of x =
     (if 2 ^ 1024 \<le> fl x then Pos_Inf else if fl x \<le> - (2 ^ 1024) then Neg_Inf else Fin (fl x))"

text \<open>The fraction and the exponent, when there are digits after the point or the \<open>e\<close>.\<close>

definition read_fraction :: "string \<Rightarrow> string \<times> string" where
  "read_fraction s =
     (case s of
        c # r \<Rightarrow> if c = CHR ''.'' \<and> fst (digits_of r) \<noteq> [] then digits_of r else ([], s)
      | [] \<Rightarrow> ([], s))"

definition read_exponent :: "string \<Rightarrow> int option \<times> string" where
  "read_exponent s =
     (case s of
        c # r \<Rightarrow>
          (let (sign, r') = (case r of
                 x # q \<Rightarrow> if x = CHR ''-'' then (-1, q) else if x = CHR ''+'' then (1, q) else (1, r)
               | [] \<Rightarrow> (1, r));
               (ds, q) = digits_of r'
           in if c \<in> {CHR ''e'', CHR ''E''} \<and> ds \<noteq> [] then (Some (sign * int (digits_value ds)), q) else (None, s))
      | [] \<Rightarrow> (None, s))"

definition int_digits_limit :: nat where
  "int_digits_limit = 4300"

definition split_minus :: "string \<Rightarrow> bool \<times> string" where
  "split_minus s = (case s of c # q \<Rightarrow> if c = CHR ''-'' then (True, q) else (False, s) | [] \<Rightarrow> (False, s))"

text \<open>The integer part of a number has no leading zeros.\<close>

definition int_part :: "string \<Rightarrow> string \<times> string" where
  "int_part s = (case s of c # q \<Rightarrow> if c = CHR ''0'' then ([c], q) else digits_of s | [] \<Rightarrow> ([], s))"

definition read_number :: "string \<Rightarrow> (json \<times> string) option" where
  "read_number s =
     (let (neg, r) = split_minus s; (ds, r1) = int_part r;
          (fs, r2) = read_fraction r1; (ex, r3) = read_exponent r2
      in if ds = [] then None
         else if fs = [] \<and> ex = None then
           (if int_digits_limit < length ds then None
            else Some (JInt (if neg then - int (digits_value ds) else int (digits_value ds)), r3))
         else
           let m = of_nat (digits_value (ds @ fs)) * 10 powi ((case ex of None \<Rightarrow> 0 | Some e \<Rightarrow> e) - int (length fs))
           in Some (JFloat (float_of (if neg then - m else m)), r3))"

definition json_words :: "(string \<times> json) list" where
  "json_words =
     [(''null'', JNull), (''true'', JBool True), (''false'', JBool False), (''NaN'', JFloat Nan),
      (''Infinity'', JFloat Pos_Inf), (''-Infinity'', JFloat Neg_Inf)]"

definition read_atom :: "string \<Rightarrow> (json \<times> string) option" where
  "read_atom s =
     (case first_where (\<lambda>(w, j). starts_with w s) json_words of
        Some (w, j) \<Rightarrow> Some (j, drop (length w) s)
      | None \<Rightarrow> read_number s)"

section \<open>Values\<close>

fun read_value :: "nat \<Rightarrow> string \<Rightarrow> (json \<times> string) option"
  and read_items :: "nat \<Rightarrow> string \<Rightarrow> (json list \<times> string) option"
  and read_members :: "nat \<Rightarrow> string \<Rightarrow> (string \<times> json) list \<Rightarrow> ((string \<times> json) list \<times> string) option"
  where
  "read_value 0 s = None"
| "read_value (Suc n) s =
     (case skip_space s of
        [] \<Rightarrow> None
      | c # cs \<Rightarrow>
          if c = CHR 0x22 then map_option (\<lambda>(t, r). (JStr t, r)) (read_string cs)
          else if c = CHR ''['' then
            (case after (CHR '']'') cs of
               Some r \<Rightarrow> Some (JList [], r)
             | None \<Rightarrow> map_option (\<lambda>(xs, r). (JList xs, r)) (read_items n cs))
          else if c = CHR ''{'' then
            (case after (CHR ''}'') cs of
               Some r \<Rightarrow> Some (JObj [], r)
             | None \<Rightarrow> map_option (\<lambda>(kvs, r). (JObj kvs, r)) (read_members n cs []))
          else read_atom (c # cs))"
| "read_items 0 s = None"
| "read_items (Suc n) s =
     (case read_value n s of
        None \<Rightarrow> None
      | Some (x, r) \<Rightarrow>
          (case (after (CHR '']'') r, after (CHR '','') r) of
             (Some q, _) \<Rightarrow> Some ([x], q)
           | (None, Some q) \<Rightarrow> map_option (\<lambda>(xs, q). (x # xs, q)) (read_items n q)
           | _ \<Rightarrow> None))"
| "read_members 0 s acc = None"
| "read_members (Suc n) s acc =
     (case after (CHR 0x22) s of
        None \<Rightarrow> None
      | Some cs \<Rightarrow>
          (case read_string cs of
             None \<Rightarrow> None
           | Some (k, r) \<Rightarrow>
               (case after (CHR '':'') r of
                  None \<Rightarrow> None
                | Some q \<Rightarrow>
                    (case read_value n q of
                       None \<Rightarrow> None
                     | Some (v, r) \<Rightarrow>
                         (case (after (CHR ''}'') r, after (CHR '','') r) of
                            (Some q, _) \<Rightarrow> Some (js_put k v acc, q)
                          | (None, Some q) \<Rightarrow> read_members n q (js_put k v acc)
                          | _ \<Rightarrow> None)))))"

definition loads :: "string \<Rightarrow> json option" where
  "loads s =
     (case read_value (2 * length s + 2) s of
        Some (j, r) \<Rightarrow> if skip_space r = [] then Some j else None
      | None \<Rightarrow> None)"

section \<open>Reading what was written\<close>

fun plain_json :: "json \<Rightarrow> bool" where
  "plain_json (JInt i) \<longleftrightarrow> length (str_nat (nat \<bar>i\<bar>)) \<le> int_digits_limit"
| "plain_json (JFloat x) \<longleftrightarrow> False"
| "plain_json (JList xs) \<longleftrightarrow> (\<forall>x\<in>set xs. plain_json x)"
| "plain_json (JObj kvs) \<longleftrightarrow> distinct (map fst kvs) \<and> (\<forall>(k, v)\<in>set kvs. plain_json v)"
| "plain_json _ \<longleftrightarrow> True"

lemma skip_space_stays: "\<not> is_json_space c \<Longrightarrow> skip_space (c # s) = c # s"
  by (simp add: skip_space_def)

lemma after_simps:
  "\<not> is_json_space c \<Longrightarrow> after c (c # s) = Some s"
  "\<not> is_json_space d \<Longrightarrow> d \<noteq> c \<Longrightarrow> after c (d # s) = None"
  by (simp_all add: after_def skip_space_stays)

lemma not_spaces [simp]:
  "\<not> is_json_space (CHR '','')" "\<not> is_json_space (CHR '']'')" "\<not> is_json_space (CHR ''}'')"
  "\<not> is_json_space (CHR ''['')" "\<not> is_json_space (CHR ''{'')" "\<not> is_json_space (CHR 0x22)"
  "\<not> is_json_space (CHR '':'')"
  by (simp_all add: is_json_space_def)

lemma token_not_space: "token_char c \<Longrightarrow> \<not> is_json_space c"
  by (auto simp: token_char_def is_json_space_def number_chars_def is_digit_def)

lemma render_head:
  assumes "repr_ok repr"
  obtains c cs where "render repr j = c # cs" "\<not> is_json_space c" "c \<notin> {CHR '']'', CHR ''}'', CHR '',''}"
proof -
  obtain c cs where c: "render repr j = c # cs" using render_start(1) [OF assms, of j] by (cases "render repr j") auto
  have "\<not> is_json_space c"
  proof (cases "atomic j")
    case True
    with atomic_text(2) [OF assms] c show ?thesis by (intro token_not_space) auto
  next
    case False
    with render_start(2) [OF assms False] c show ?thesis by auto
  qed
  with c render_start(3) [OF assms, of j] that show ?thesis by simp
qed

lemma nibble_digit: "d < 16 \<Longrightarrow> hex_nibble (hex_digit d) = Some d"
  by (auto simp: hex_nibble.simps hex_digit.simps Let_def)

lemma unescape_short: "short_escape c = Some x \<Longrightarrow> short_unescape x = Some c \<and> x \<noteq> CHR ''u''"
  by (auto simp: short_escape_def short_unescape_def split: if_splits)

lemma read_escaped: "read_string (concat (map escape s) @ CHR 0x22 # r) = Some (s, r)"
proof (induction s)
  case Nil
  show ?case by simp
next
  case (Cons c s)
  show ?case
  proof (cases c rule: escape_cases)
    case (short x)
    with Cons unescape_short [OF short(2)] show ?thesis by (simp add: put_back_def)
  next
    case ctrl
    have "read_hex4 (CHR ''0'' # CHR ''0'' # hex_digit (of_char c div 16) # hex_digit (of_char c mod 16) # t)
        = Some (of_char c)" for t
      using ctrl(2) by (simp add: nibble_digit) (simp add: hex_nibble.simps)
    with ctrl Cons show ?thesis by (simp add: put_back_def utf8_def)
  next
    case plain
    have "\<not> (of_char c :: nat) < 32"
      using plain(1) by (auto simp: escape_def Let_def split: option.splits)
    with plain Cons show ?thesis by (simp add: put_back_def)
  qed
qed

lemma read_quoted: "after (CHR 0x22) (quoted s @ r) = Some (concat (map escape s) @ CHR 0x22 # r)"
  by (simp add: quoted_def after_simps)

section \<open>Integers\<close>

lemma str_nat_is_digit: "c \<in> set (str_nat n) \<Longrightarrow> is_digit c"
  by (auto dest!: str_nat_digits simp: is_digit_def digit_char_def)

lemma digits_of_str_nat:
  assumes "r = [] \<or> \<not> is_digit (hd r)"
  shows "digits_of (str_nat n @ r) = (str_nat n, r)"
proof -
  have "takeWhile is_digit (str_nat n @ r) = str_nat n @ takeWhile is_digit r"
    "dropWhile is_digit (str_nat n @ r) = dropWhile is_digit r"
    using str_nat_is_digit by (auto intro: takeWhile_append2 dropWhile_append2)
  with assms show ?thesis by (cases r) (auto simp: digits_of_def)
qed

lemma digits_value_str_nat: "digits_value (str_nat n) = n"
proof (induction n rule: str_nat.induct)
  case (1 n)
  have d: "d < 10 \<Longrightarrow> digit_value (digit_char d) = d" for d
    by (simp add: digit_value_def digit_char_def)
  show ?case
  proof (cases "n < 10")
    case True
    then show ?thesis by (simp add: str_nat.simps [of n] digits_value_def d)
  next
    case False
    with 1 show ?thesis by (simp add: str_nat.simps [of n] digits_value_def d)
  qed
qed

lemma str_nat_head: "0 < n \<Longrightarrow> hd (str_nat n) \<noteq> CHR ''0''"
proof (induction n rule: str_nat.induct)
  case (1 n)
  show ?case
  proof (cases "n < 10")
    case True
    have "(of_char (digit_char n) :: nat) \<noteq> of_char (CHR ''0'')" using 1(2) True by (simp add: digit_char_def)
    with True show ?thesis by (auto simp: str_nat.simps [of n])
  next
    case False
    with 1 have "hd (str_nat (n div 10)) \<noteq> CHR ''0''" by simp
    with False show ?thesis by (simp add: str_nat.simps [of n] str_nat_nonempty)
  qed
qed

lemma delimiter_ends:
  assumes "delimiter r"
  shows "r = [] \<or> \<not> is_digit (hd r)" "read_fraction r = ([], r)" "read_exponent r = (None, r)"
  using assms by (cases r; auto simp: delimiter_def is_digit_def read_fraction_def read_exponent_def Let_def split: prod.splits)+

lemma str_nat_Cons:
  obtains c cs where "str_nat n = c # cs" "is_digit c" "c = CHR ''0'' \<longleftrightarrow> n = 0" "n = 0 \<longrightarrow> cs = []"
proof -
  obtain c cs where c: "str_nat n = c # cs" using str_nat_nonempty by (meson neq_Nil_conv)
  moreover from c have "is_digit c" using str_nat_is_digit [of c n] by simp
  moreover have "c = CHR ''0'' \<longleftrightarrow> n = 0"
  proof (cases "n = 0")
    case True
    from True c have "c = digit_char 0" by (simp add: str_nat.simps [of 0])
    moreover have "digit_char 0 = CHR ''0''" by code_simp
    ultimately show ?thesis using True by simp
  next
    case False
    with c str_nat_head [of n] show ?thesis by simp
  qed
  moreover from c have "n = 0 \<longrightarrow> cs = []" by (auto simp: str_nat.simps [of 0])
  ultimately show ?thesis using that by blast
qed

lemma digits_taken:
  assumes "delimiter r"
  shows "int_part (str_nat n @ r) = (str_nat n, r)"
proof -
  obtain c cs where c: "str_nat n = c # cs" "c = CHR ''0'' \<longleftrightarrow> n = 0" "n = 0 \<longrightarrow> cs = []" by (rule str_nat_Cons)
  show ?thesis
  proof (cases "n = 0")
    case True
    with c show ?thesis by (simp add: int_part_def)
  next
    case False
    with c digits_of_str_nat [OF delimiter_ends(1) [OF assms], of n] show ?thesis by (simp add: int_part_def)
  qed
qed

lemma read_number_str_int:
  assumes "delimiter r" and "length (str_nat (nat \<bar>i\<bar>)) \<le> int_digits_limit"
  shows "read_number (str_int i @ r) = Some (JInt i, r)"
proof (cases "i < 0")
  case True
  with assms digits_taken [OF assms(1), of "nat (- i)"] show ?thesis
    by (simp add: read_number_def str_int_def delimiter_ends str_nat_nonempty digits_value_str_nat Let_def split_minus_def)
next
  case False
  obtain c cs where c: "str_nat (nat i) = c # cs" "is_digit c" by (rule str_nat_Cons)
  then have neg: "split_minus (str_nat (nat i) @ r) = (False, str_nat (nat i) @ r)"
    by (auto simp: is_digit_def split_minus_def)
  from False assms digits_taken [OF assms(1), of "nat i"] neg show ?thesis
    by (simp add: read_number_def str_int_def delimiter_ends str_nat_nonempty digits_value_str_nat Let_def)
qed

lemma read_atom_str_int:
  assumes "delimiter r" and "length (str_nat (nat \<bar>i\<bar>)) \<le> int_digits_limit"
  shows "read_atom (str_int i @ r) = Some (JInt i, r)"
proof -
  have "first_where (\<lambda>(w, j). starts_with w (str_int i @ r)) json_words = None"
  proof -
    obtain c cs where c: "str_nat (nat \<bar>i\<bar>) = c # cs" "is_digit c" by (rule str_nat_Cons)
    then have "c \<notin> {CHR ''n'', CHR ''t'', CHR ''f'', CHR ''N'', CHR ''I'', CHR ''-''}" by (auto simp: is_digit_def)
    with c(1) show ?thesis
      by (cases "i < 0") (simp_all add: json_words_def first_where_def starts_with_def str_int_def)
  qed
  with read_number_str_int [OF assms] show ?thesis by (simp add: read_atom_def)
qed

section \<open>Containers\<close>

lemma read_items_joined:
  assumes R: "repr_ok repr"
    and "\<And>x n r. x \<in> set xs \<Longrightarrow> delimiter r \<Longrightarrow> length (render repr x) < n \<Longrightarrow> read_value n (render repr x @ r) = Some (x, r)"
    and "xs \<noteq> []" and "length (joined (map (render repr) xs)) + 1 < n"
  shows "read_items n (joined (map (render repr) xs) @ CHR '']'' # r) = Some (xs, r)"
  using assms(2-)
proof (induction xs arbitrary: n)
  case (Cons x xs)
  then obtain m where n: "n = Suc m" by (cases n) auto
  show ?case
  proof (cases xs)
    case Nil
    with Cons.prems n show ?thesis by (simp add: delimiter_def after_simps)
  next
    case (Cons y ys)
    have "render repr x \<noteq> []" by (rule render_start(1) [OF R])
    then have "read_items m (joined (map (render repr) xs) @ CHR '']'' # r) = Some (xs, r)"
      using Cons.IH [of m] Cons.prems n Cons by (cases "render repr x") auto
    with Cons.prems n Cons show ?thesis by (simp add: delimiter_def after_simps)
  qed
qed simp

lemma read_members_joined:
  assumes R: "repr_ok repr"
    and "\<And>k v n r. (k, v) \<in> set kvs \<Longrightarrow> delimiter r \<Longrightarrow> length (render repr v) < n \<Longrightarrow> read_value n (render repr v @ r) = Some (v, r)"
    and "kvs \<noteq> []" and "distinct (map fst (acc @ kvs))"
    and "length (joined (map (\<lambda>(k, v). quoted k @ CHR '':'' # render repr v) kvs)) + 1 < n"
  shows "read_members n (joined (map (\<lambda>(k, v). quoted k @ CHR '':'' # render repr v) kvs) @ CHR ''}'' # r) acc = Some (acc @ kvs, r)"
  using assms(2-)
proof (induction kvs arbitrary: n acc)
  case (Cons x kvs)
  obtain k v where x: "x = (k, v)" by fastforce
  from Cons obtain m where n: "n = Suc m" by (cases n) auto
  have put: "js_put k v acc = acc @ [(k, v)]" using Cons.prems(3) x by (auto simp: js_put_def)
  show ?case
  proof (cases kvs)
    case Nil
    with Cons.prems n x put show ?thesis
      by (simp add: delimiter_def after_simps read_quoted read_escaped)
  next
    case (Cons y ys)
    have "read_members m (joined (map (\<lambda>(k, v). quoted k @ CHR '':'' # render repr v) kvs) @ CHR ''}'' # r) (acc @ [x])
        = Some ((acc @ [x]) @ kvs, r)"
      using Cons.IH [of "acc @ [x]" m] Cons.prems n Cons x by (auto simp: quoted_def)
    moreover have "read_value m (render repr v @ CHR '','' # w) = Some (v, CHR '','' # w)" for w
      using Cons.prems(1) [of k v "CHR '','' # w" m] Cons.prems(4) n Cons x by (simp add: delimiter_def)
    ultimately show ?thesis using n Cons x put by (simp add: after_simps read_quoted read_escaped)
  qed
qed simp

lemma read_render:
  assumes R: "repr_ok repr"
  shows "plain_json j \<Longrightarrow> delimiter r \<Longrightarrow> length (render repr j) < n \<Longrightarrow> read_value n (render repr j @ r) = Some (j, r)"
proof (induction j arbitrary: n r)
  case JNull
  then obtain m where "n = Suc m" by (cases n) auto
  then show ?case by (simp add: skip_space_def is_json_space_def read_atom_def json_words_def first_where_def starts_with_def)
next
  case (JBool b)
  then obtain m where "n = Suc m" by (cases n) auto
  then show ?case by (cases b) (simp_all add: skip_space_def is_json_space_def read_atom_def json_words_def first_where_def starts_with_def)
next
  case (JInt i)
  then obtain m where n: "n = Suc m" by (cases n) auto
  obtain c cs where "render repr (JInt i) = c # cs" "\<not> is_json_space c" by (rule render_head [OF R])
  then have c: "str_int i = c # cs" "\<not> is_json_space c" by simp_all
  then have "is_digit c \<or> c = CHR ''-''" using str_int_chars [of c i] by simp
  then have "c \<noteq> CHR 0x22" "c \<noteq> CHR ''[''" "c \<noteq> CHR ''{''" by (auto simp: is_digit_def)
  with n c read_atom_str_int [of r i] JInt show ?case by (simp add: skip_space_stays)
next
  case (JFloat x)
  then show ?case by simp
next
  case (JStr s)
  then obtain m where "n = Suc m" by (cases n) auto
  then show ?case by (simp add: quoted_def skip_space_stays read_escaped)
next
  case (JList xs)
  then obtain m where n: "n = Suc m" by (cases n) auto
  show ?case
  proof (cases xs)
    case Nil
    with n show ?thesis by (simp add: skip_space_stays after_simps)
  next
    case (Cons x ys)
    obtain c cs where "render repr x = c # cs" "\<not> is_json_space c" "c \<notin> {CHR '']'', CHR ''}'', CHR '',''}"
      by (rule render_head [OF R])
    then have "after (CHR '']'') (joined (map (render repr) xs) @ CHR '']'' # r) = None"
      using Cons by (cases ys) (simp_all add: after_simps)
    moreover have "read_items m (joined (map (render repr) xs) @ CHR '']'' # r) = Some (xs, r)"
      using JList n Cons by (intro read_items_joined [OF R]) auto
    ultimately show ?thesis using n by (simp add: skip_space_stays)
  qed
next
  case (JObj kvs)
  then obtain m where n: "n = Suc m" by (cases n) auto
  let ?f = "\<lambda>(k, v). quoted k @ CHR '':'' # render repr v"
  show ?case
  proof (cases kvs)
    case Nil
    with n show ?thesis by (simp add: skip_space_stays after_simps)
  next
    case (Cons x ys)
    have "after (CHR ''}'') (joined (map ?f kvs) @ CHR ''}'' # r) = None"
      using Cons by (cases ys) (simp_all add: after_simps quoted_def case_prod_unfold)
    moreover have "read_members m (joined (map ?f kvs) @ CHR ''}'' # r) [] = Some ([] @ kvs, r)"
      using JObj n Cons by (intro read_members_joined [OF R]) fastforce+
    ultimately show ?thesis using n by (simp add: skip_space_stays)
  qed
qed

theorem loads_render:
  assumes "repr_ok repr" and "plain_json j"
  shows "loads (render repr j) = Some j"
  using read_render [OF assms, of "[]" "2 * length (render repr j) + 2"]
  by (simp add: loads_def delimiter_def skip_space_def)

section \<open>The fuel is enough\<close>

lemma skip_space_length: "length (skip_space s) \<le> length s"
  by (simp add: skip_space_def length_dropWhile_le)

lemma after_length: "after c s = Some r \<Longrightarrow> length r < length s"
  using skip_space_length [of s] by (auto simp: after_def split: list.splits if_splits)

lemma put_back_Some: "put_back p x = Some (t, r) \<Longrightarrow> \<exists>u. x = Some (u, r)"
  by (auto simp: put_back_def)

lemma read_string_length: "read_string s = Some (t, r) \<Longrightarrow> length r < length s"
proof (induction s arbitrary: t r rule: read_string.induct)
  case (2 c cs)
  from 2 show ?case
    by (auto split: if_splits list.splits option.splits dest!: put_back_Some) (fastforce)+
qed simp

lemma digits_of_length: "length (snd (digits_of s)) \<le> length s"
  by (simp add: digits_of_def length_dropWhile_le)

lemma digits_of_length_less: "fst (digits_of s) \<noteq> [] \<Longrightarrow> length (snd (digits_of s)) < length s"
  by (cases s) (auto simp: digits_of_def less_Suc_eq_le length_dropWhile_le split: if_splits)

lemma read_fraction_length: "length (snd (read_fraction s)) \<le> length s"
  by (cases s) (auto simp: read_fraction_def intro: le_SucI digits_of_length)

lemma sign_length:
  "length (snd (case r of x # q \<Rightarrow> if x = CHR ''-'' then (- 1, q) else if x = CHR ''+'' then (1, q) else (1, r)
    | [] \<Rightarrow> (1 :: int, r))) \<le> length r"
  by (cases r) auto

lemma read_exponent_length: "length (snd (read_exponent s)) \<le> length s"
proof (cases s)
  case (Cons c r)
  show ?thesis
    unfolding read_exponent_def Cons list.case Let_def case_prod_unfold
    using order_trans [OF digits_of_length sign_length [of r]] by (simp add: le_SucI)
qed (simp add: read_exponent_def)

lemma int_part_length: "fst (int_part s) \<noteq> [] \<Longrightarrow> length (snd (int_part s)) < length s"
  using digits_of_length_less [of s] by (cases s) (auto simp: int_part_def)

lemma split_minus_length: "length (snd (split_minus s)) \<le> length s"
  by (cases s) (auto simp: split_minus_def)

lemma read_number_length:
  assumes "read_number s = Some (j, r)"
  shows "length r < length s"
proof -
  have "fst (int_part (snd (split_minus s))) \<noteq> []"
    "r = snd (read_exponent (snd (read_fraction (snd (int_part (snd (split_minus s)))))))"
    using assms unfolding read_number_def Let_def case_prod_unfold by (auto split: if_splits)
  moreover note split_minus_length [of s] int_part_length [of "snd (split_minus s)"]
    read_fraction_length [of "snd (int_part (snd (split_minus s)))"]
    read_exponent_length [of "snd (read_fraction (snd (int_part (snd (split_minus s)))))"]
  ultimately show ?thesis by simp
qed

lemma read_atom_length:
  assumes "read_atom s = Some (j, r)"
  shows "length r < length s"
proof (cases "first_where (\<lambda>(w, j). starts_with w s) json_words")
  case None
  with assms show ?thesis by (auto simp: read_atom_def intro: read_number_length)
next
  case (Some x)
  then have "x \<in> set json_words" "starts_with (fst x) s" by (auto dest: first_where_Some)
  then have "fst x \<noteq> []" "s \<noteq> []" by (auto simp: json_words_def starts_with_def)
  with assms Some show ?thesis by (cases x) (simp add: read_atom_def, auto)
qed

lemma read_lengths:
  "read_value n s = Some (j, r) \<Longrightarrow> length r < length s"
  "read_items n s = Some (xs, r) \<Longrightarrow> length r < length s"
  "read_members n s acc = Some (kvs, r) \<Longrightarrow> length r < length s"
proof (induction n s and n s and n s acc arbitrary: j r and xs r and kvs r
    rule: read_value_read_items_read_members.induct)
  case (2 n s)
  show ?case
  proof (cases "skip_space s")
    case Nil
    with 2 show ?thesis by simp
  next
    case (Cons c cs)
    then have "length cs < length s" using skip_space_length [of s] by simp
    with 2 Cons show ?thesis
      by (auto split: if_splits option.splits dest: read_string_length read_atom_length after_length intro: less_trans) 
  qed
next
  case (4 n s)
  then show ?case
    by (auto split: option.splits dest!: after_length) (meson less_trans)+
next
  case (6 n s acc)
  from 6(3) obtain cs where a: "after (CHR 0x22) s = Some cs" by (auto split: option.splits)
  with 6(3) obtain k t where b: "read_string cs = Some (k, t)" by (auto split: option.splits)
  with a 6(3) obtain q where c: "after (CHR '':'') t = Some q" by (auto split: option.splits)
  with a b 6(3) obtain v u where d: "read_value n q = Some (v, u)" by (auto split: option.splits)
  have u: "length u < length s"
    using after_length [OF a] read_string_length [OF b] after_length [OF c] 6(1) [OF a b refl c d] by simp
  show ?case
  proof (cases "after (CHR ''}'') u")
    case (Some w)
    with a b c d 6(3) after_length [OF Some] u show ?thesis by simp
  next
    case None
    with a b c d 6(3) obtain w where w: "after (CHR '','') u = Some w" "read_members n w (js_put k v acc) = Some (kvs, r)"
      by (auto split: option.splits)
    have "length r < length w" by (rule 6(2) [OF a b refl c d refl _ _ _ w(2)]) (use None w(1) in simp_all)
    with after_length [OF w(1)] u show ?thesis by simp
  qed
qed simp_all

lemma fuel_enough:
  "2 * length s < n \<Longrightarrow> 2 * length s < m \<Longrightarrow> read_value n s = read_value m s"
  "2 * length s + 1 < n \<Longrightarrow> 2 * length s + 1 < m \<Longrightarrow> read_items n s = read_items m s"
  "2 * length s + 1 < n \<Longrightarrow> 2 * length s + 1 < m \<Longrightarrow> read_members n s acc = read_members m s acc"
proof (induction n s and n s and n s acc arbitrary: m and m and m
    rule: read_value_read_items_read_members.induct)
  case (2 n s)
  from 2(4) obtain k where m: "m = Suc k" by (cases m) auto
  show ?case
  proof (cases "skip_space s")
    case Nil
    with m show ?thesis by simp
  next
    case (Cons c cs)
    then have "length cs < length s" using skip_space_length [of s] by simp
    with 2(3,4) m have len: "2 * length cs + 1 < n" "2 * length cs + 1 < k" by simp_all
    have "c = CHR ''['' \<Longrightarrow> after (CHR '']'') cs = None \<Longrightarrow> read_items n cs = read_items k cs"
      "c = CHR ''{'' \<Longrightarrow> after (CHR ''}'') cs = None \<Longrightarrow> read_members n cs [] = read_members k cs []"
      by (rule 2(1) [OF Cons _ _ _ len] 2(2) [OF Cons _ _ _ _ len]; simp)+
    then show ?thesis unfolding m read_value.simps Cons by (simp split: option.split)
  qed
next
  case (4 n s)
  from 4(4) obtain k where m: "m = Suc k" by (cases m) auto
  have v: "read_value n s = read_value k s"
    by (rule 4(1)) (use 4(3,4) m in simp_all)
  show ?case
  proof (cases "read_value k s")
    case None
    with v m show ?thesis by simp
  next
    case (Some a)
    obtain x r where a: "a = (x, r)" by fastforce
    have "read_items n q = read_items k q" if "after (CHR '']'') r = None" "after (CHR '','') r = Some q" for q
    proof (rule 4(2))
      show "2 * length q + 1 < n" "2 * length q + 1 < k"
        using read_lengths(1) [of k s x r] after_length [OF that(2)] Some a 4(3,4) m by simp_all
    qed (use that v Some a in auto)
    with v Some a m show ?thesis by (simp split: option.split)
  qed
next
  case (6 n s acc)
  from 6(4) obtain k where m: "m = Suc k" by (cases m) auto
  show ?case
  proof (cases "after (CHR 0x22) s")
    case None
    with m show ?thesis by simp
  next
    case cs: (Some cs)
    show ?thesis
    proof (cases "read_string cs")
      case None
      with cs m show ?thesis by simp
    next
      case str: (Some a)
      obtain y t where y: "a = (y, t)" by fastforce
      show ?thesis
      proof (cases "after (CHR '':'') t")
        case None
        with cs str y m show ?thesis by simp
      next
        case q: (Some q)
        have l: "length q < length s"
          using after_length [OF cs] read_string_length [of cs y t] str y after_length [OF q] by simp
        have v: "read_value n q = read_value k q"
          by (rule 6(1) [OF cs str _ q]) (use y l 6(3,4) m in simp_all)
        show ?thesis
        proof (cases "read_value k q")
          case None
          with v cs str y q m show ?thesis by simp
        next
          case w: (Some b)
          obtain x r where b: "b = (x, r)" by fastforce
          have "read_members n p acc' = read_members k p acc'"
            if "after (CHR ''}'') r = None" "after (CHR '','') r = Some p" "acc' = js_put y x acc" for p acc'
            unfolding that(3)
          proof (rule 6(2) [OF cs str _ q])
            show "2 * length p + 1 < n" "2 * length p + 1 < k"
              using read_lengths(1) [of k q x r] after_length [OF that(2)] w b l 6(3,4) m by simp_all
          qed (use that v w b y in auto)
          with v w b cs str y q m show ?thesis by (simp split: option.split)
        qed
      qed
    qed
  qed
qed simp_all

end
