(* ===== verification/Result_Data.thy ===== *)
theory Result_Data
  imports Json_Read Casting Keys Configuration
begin

text \<open>
  elections/results.py, the documents: the ballots are opened and read, the selections of
  each position counted by the algorithms of Tally, and everything is put into the JSON
  document that is hashed and certified. Paid elections count the ledger instead.

  A ballot that cannot be opened or read is invalid and never stops the count. A selection
  in a shape that casting never stores (a number, a list of texts) is the error
  \<open>Odd_selection\<close>; the code would count it as nothing or raise. \<open>order\<close> is the iteration
  order of Python's sets, \<open>places\<close> the rows of the constituency table as ids with names.
\<close>

datatype count_error = Odd_selection | Count_failed tally_error | Bad_tracker | Custody_failed custody_error

section \<open>The result of one position as a document\<close>

abbreviation jfloat :: "rat \<Rightarrow> json" where
  "jfloat r \<equiv> JFloat (Fin r)"

fun key_json :: "cand_key \<Rightarrow> json" where
  "key_json (CId i) = JInt i"
| "key_json (CAnswer a) = JStr a"

definition row_json :: "tally_row \<Rightarrow> json" where
  "row_json r =
     (let front = [(''candidate_id'', key_json (row_id r)), (''name'', JStr (row_name r)), (''votes'', JInt (row_votes r))];
          share = (''percentage'', jfloat (row_percentage r)); rank = (''rank'', JInt (row_rank r))
      in JObj (case row_extra r of
           Of_ballots p \<Rightarrow> front @ [share, rank, (''percentage_of_ballots'', jfloat p)]
         | Scoring average n \<Rightarrow> front @ [(''average'', jfloat average), share, rank, (''ballots_scoring'', JInt n)]
         | Plain \<Rightarrow> front @ [share, rank]
         | Is_elected b \<Rightarrow> front @ [share, rank, (''elected'', JBool b)]))"

fun outcome_fields :: "round_outcome \<Rightarrow> (string \<times> json) list" where
  "outcome_fields (Filled ids) =
     [(''elected'', JList (map JInt ids)), (''note'', JStr ''Remaining candidates fill the remaining seats.'')]"
| "outcome_fields (Elects i surplus) =
     (''elected'', JList [JInt i]) # (case surplus of Some x \<Rightarrow> [(''surplus_transferred'', jfloat x)] | None \<Rightarrow> [])"
| "outcome_fields (Eliminates i) = [(''eliminated'', JList [JInt i])]"

definition round_json :: "count_round \<Rightarrow> json" where
  "round_json r = JObj
     ([(''round'', JInt (round_no r)),
       (''tallies'', JObj (map (\<lambda>(c, x). (str_int c, jfloat x)) (round_tallies r))),
       (''exhausted'', jfloat (round_exhausted r))] @ outcome_fields (round_outcome r))"

definition tie_json :: "tie_break \<Rightarrow> json" where
  "tie_json t = JObj
     [(''round'', JInt (tie_round t)), (''tied'', JList (map JInt (tie_tied t))),
      (''eliminated'', JInt (tie_eliminated t)),
      (''method'', JStr (if tie_by_lot t then ''fewest first preferences, then lot'' else ''fewest first preferences''))]"

definition result_fields :: "tally_result \<Rightarrow> (string \<times> json) list" where
  "result_fields r =
     (let head = (''method'', JStr (res_method r));
          counts = [(''valid_ballots'', JInt (res_valid r)), (''abstentions'', JInt (res_abstentions r)),
                    (''total_votes'', JInt (res_total r))];
          rows = (''candidates'', JList (map row_json (res_rows r)));
          ends = [(''winners'', JList (map key_json (res_winners r))), (''ties'', JList (map key_json (res_ties r)))]
      in case res_details r of
           Plurality_details seats \<Rightarrow> [head, (''seats'', JInt seats)] @ counts @ [rows] @ ends
         | Score_details seats best \<Rightarrow> [head, (''seats'', JInt seats), (''max_score'', JInt best)] @ counts @ [rows] @ ends
         | Referendum_details yes no yes_pct no_pct threshold passed \<Rightarrow>
             [head] @ counts @ [(''yes'', JInt yes), (''no'', JInt no), (''yes_percentage'', jfloat yes_pct),
               (''no_percentage'', jfloat no_pct), (''threshold'', jfloat threshold), (''passed'', JBool passed), rows] @ ends
         | Ranked_details seats quota firsts rs ties \<Rightarrow>
             [head, (''seats'', JInt seats)] @ counts
             @ [(''quota'', case quota of None \<Rightarrow> JNull | Some q \<Rightarrow> jfloat q),
                (''first_preferences'', JObj (map (\<lambda>(c, n). (str_int c, JInt n)) firsts)),
                (''rounds'', JList (map round_json rs)), rows] @ ends
             @ [(''tie_breaks'', JList (map tie_json ties))])"

definition position_fields :: "position_result \<Rightarrow> (string \<times> json) list" where
  "position_fields p = result_fields (pr_result p)
     @ [(''position_id'', JInt (pr_id p)), (''position'', JStr (position_result.pr_name p)), (''ballot_type'', JStr (ballot_type_text (pr_type p)))]"

section \<open>Opening the ballots\<close>

definition position_specs :: "election \<Rightarrow> position_spec list" where
  "position_specs el = map (\<lambda>p.
     \<lparr>spec_id = pos_id p, spec_name = pos_name p, spec_type = pos_type p, spec_seats = pos_seats p,
      spec_max_score = pos_max_score p, spec_threshold = fl (pos_threshold p),
      spec_candidates = (if is_referendum p then []
        else map (\<lambda>c. \<lparr>cid = ca_id c, cname = ca_name c\<rparr>) (active_candidates (candidates el) p))\<rparr>) (positions el)"

text \<open>\<open>==\<close> with an integer: truth values and floats equal to it count.\<close>

fun equals_int :: "json \<Rightarrow> int \<Rightarrow> bool" where
  "equals_int (JInt i) n \<longleftrightarrow> i = n"
| "equals_int (JBool b) n \<longleftrightarrow> of_bool b = n"
| "equals_int (JFloat (Fin r)) n \<longleftrightarrow> r = of_int n"
| "equals_int _ n \<longleftrightarrow> False"

definition read_ballot :: "crypto \<Rightarrow> event \<Rightarrow> string \<Rightarrow> ballot \<Rightarrow> (string \<times> json) list option" where
  "read_ballot K ev secret b =
     (case unseal K secret (ba_ciphertext b) (ballot_aad ev (ba_style_hash b)) of
        Inl e \<Rightarrow> None
      | Inr plaintext \<Rightarrow>
          (case loads plaintext of
             Some (JObj kvs) \<Rightarrow>
               (case (js_get kvs ''election'', js_get kvs ''selections'') of
                  (Some i, Some (JObj sels)) \<Rightarrow> if equals_int i (ev_id ev) then Some sels else None
                | _ \<Rightarrow> None)
           | _ \<Rightarrow> None))"

record opened =
  op_selections :: "(string \<times> json) list"
  op_place :: "int option"
  op_tracker :: string

fun open_ballots :: "crypto \<Rightarrow> event \<Rightarrow> string \<Rightarrow> ballot list \<Rightarrow> opened list \<times> string list" where
  "open_ballots K ev secret [] = ([], [])"
| "open_ballots K ev secret (b # bs) =
     (let (valid, invalid) = open_ballots K ev secret bs in
      case read_ballot K ev secret b of
        Some sels \<Rightarrow> (\<lparr>op_selections = sels, op_place = ba_constituency b, op_tracker = ba_tracker b\<rparr> # valid, invalid)
      | None \<Rightarrow> (valid, ba_tracker b # invalid))"

definition decrypt_ballots :: "crypto \<Rightarrow> string \<Rightarrow> election_db \<Rightarrow> opened list \<times> string list" where
  "decrypt_ballots K secret db = open_ballots K (db_event db) secret (sort_key ba_tracker (db_ballots db))"

fun ints_of :: "json list \<Rightarrow> int list option" where
  "ints_of [] = Some []"
| "ints_of (JInt i # xs) = map_option ((#) i) (ints_of xs)"
| "ints_of _ = None"

fun scores_of :: "(string \<times> json) list \<Rightarrow> (string \<times> int) list option" where
  "scores_of [] = Some []"
| "scores_of ((k, JInt i) # kvs) = map_option ((#) (k, i)) (scores_of kvs)"
| "scores_of _ = None"

fun read_choice :: "json \<Rightarrow> choice option" where
  "read_choice JNull = Some None"
| "read_choice (JList xs) = map_option (\<lambda>ids. Some (Marks ids)) (ints_of xs)"
| "read_choice (JObj kvs) = map_option (\<lambda>kvs. Some (Scores kvs)) (scores_of kvs)"
| "read_choice (JStr a) = Some (Some (Answer a))"
| "read_choice _ = None"

section \<open>Counting a secret ballot\<close>

definition legacy_count :: "ledger_vote list \<Rightarrow> int \<Rightarrow> int" where
  "legacy_count ledger c = sum_list (map lv_votes (filter (\<lambda>v. lv_success v \<and> lv_candidate v = c) ledger))"

definition has_legacy :: "ledger_vote list \<Rightarrow> bool" where
  "has_legacy ledger = exists_where lv_success ledger"

text \<open>The selections of a position, each with the constituency of its ballot.\<close>

fun selections_for :: "string \<Rightarrow> opened list \<Rightarrow> (choice \<times> int option) list option" where
  "selections_for key [] = Some []"
| "selections_for key (x # xs) =
     (case js_get (op_selections x) key of
        None \<Rightarrow> selections_for key xs
      | Some j \<Rightarrow>
          (case (read_choice j, selections_for key xs) of
             (Some c, Some rest) \<Rightarrow> Some ((c, op_place x) # rest)
           | _ \<Rightarrow> None))"

definition legacy_marks :: "ledger_vote list \<Rightarrow> position_spec \<Rightarrow> choice list" where
  "legacy_marks ledger spec =
     (if has_legacy ledger \<and> spec_type spec \<in> {SINGLE, FPTP, MULTIPLE, APPROVAL} then
        concat (map (\<lambda>c. replicate (nat (legacy_count ledger (cid c))) (Some (Marks [cid c]))) (spec_candidates spec))
      else [])"

record counting =
  cg_sha :: "string \<Rightarrow> string"
  cg_order :: "int list \<Rightarrow> int list"
  cg_seed :: string

definition count_position :: "counting \<Rightarrow> position_spec \<Rightarrow> choice list \<Rightarrow> count_error + (string \<times> json) list" where
  "count_position G spec xs =
     (case tally_position (cg_sha G) (cg_order G) spec xs (cg_seed G) of
        Inl e \<Rightarrow> Inl (Count_failed e) | Inr r \<Rightarrow> Inr (position_fields r))"

fun count_all :: "counting \<Rightarrow> ledger_vote list \<Rightarrow> nat \<Rightarrow> opened list \<Rightarrow> position_spec list
    \<Rightarrow> count_error + (json \<times> position_spec \<times> (choice \<times> int option) list) list" where
  "count_all G ledger invalid valid [] = Inr []"
| "count_all G ledger invalid valid (spec # specs) =
     (case selections_for (str_int (spec_id spec)) valid of
        None \<Rightarrow> Inl Odd_selection
      | Some sels \<Rightarrow>
          (case count_position G spec (map fst sels @ legacy_marks ledger spec) of
             Inl e \<Rightarrow> Inl e
           | Inr doc \<Rightarrow>
               (case count_all G ledger invalid valid specs of
                  Inl e \<Rightarrow> Inl e
                | Inr rest \<Rightarrow>
                    Inr ((JObj (doc @ [(''invalid_ballots'', JInt (int invalid))]), spec, sels) # rest))))"

section \<open>Results by constituency\<close>

text \<open>What was cast in one place: the positions somebody there voted on, with the selections.\<close>

definition place_items :: "(position_spec \<times> (choice \<times> int option) list) list \<Rightarrow> int \<Rightarrow> (position_spec \<times> choice list) list" where
  "place_items counted place =
     List.map_filter (\<lambda>(spec, sels).
        (let here = map fst (filter (\<lambda>(c, p). p = Some place) sels)
         in if here = [] then None else Some (spec, here))) counted"

definition places_of :: "(position_spec \<times> (choice \<times> int option) list) list \<Rightarrow> int list" where
  "places_of counted = sort (remdups (concat (map (\<lambda>(spec, sels). List.map_filter snd sels) counted)))"

fun count_items :: "counting \<Rightarrow> (position_spec \<times> choice list) list \<Rightarrow> count_error + json list" where
  "count_items G [] = Inr []"
| "count_items G ((spec, xs) # items) =
     (case count_position G spec xs of
        Inl e \<Rightarrow> Inl e
      | Inr doc \<Rightarrow>
          (case count_items G items of Inl e \<Rightarrow> Inl e | Inr rest \<Rightarrow> Inr (JObj doc # rest)))"

definition place_name :: "(int \<times> string) list \<Rightarrow> int \<Rightarrow> string" where
  "place_name places i = (case map_of places i of Some n \<Rightarrow> n | None \<Rightarrow> ''?'')"

definition place_entry ::
  "counting \<Rightarrow> int \<Rightarrow> (int \<times> string) list \<Rightarrow> int \<Rightarrow> (position_spec \<times> choice list) list \<Rightarrow> count_error + json" where
  "place_entry G smallest places i items =
     (let here = foldr (\<lambda>(spec, xs) n. max (length xs) n) items 0;
          entry = [(''constituency_id'', JInt i), (''name'', JStr (place_name places i)), (''ballots'', JInt (int here))]
      in if int here < smallest then Inr (JObj (entry @ [(''suppressed'', JBool True)]))
         else (case count_items G items of
                 Inl e \<Rightarrow> Inl e
               | Inr rows \<Rightarrow> Inr (JObj (entry @ [(''positions'', JList rows)]))))"

fun place_entries ::
  "counting \<Rightarrow> int \<Rightarrow> (int \<times> string) list \<Rightarrow> (position_spec \<times> (choice \<times> int option) list) list \<Rightarrow> int list
    \<Rightarrow> count_error + json list" where
  "place_entries G smallest places counted [] = Inr []"
| "place_entries G smallest places counted (i # is) =
     (case place_entry G smallest places i (place_items counted i) of
        Inl e \<Rightarrow> Inl e
      | Inr j \<Rightarrow>
          (case place_entries G smallest places counted is of Inl e \<Rightarrow> Inl e | Inr js \<Rightarrow> Inr (j # js)))"

section \<open>The document of a secret-ballot election\<close>

definition org_name :: "election_db \<Rightarrow> string" where
  "org_name db =
     (case ev_org (db_event db) of
        None \<Rightarrow> []
      | Some i \<Rightarrow>
          (case first_where (\<lambda>g. og_id g = i) (tn_organizations (db_tenancy db)) of
             Some g \<Rightarrow> og_name g | None \<Rightarrow> []))"

definition election_header :: "string \<Rightarrow> election_db \<Rightarrow> string \<times> json" where
  "election_header mode db = (''election'', JObj
     [(''id'', JInt (ev_id (db_event db))), (''title'', JStr (ev_title (db_event db))), (''mode'', JStr mode),
      (''organization'', JStr (org_name db))])"

definition turnout_section :: "nat \<Rightarrow> nat \<Rightarrow> election_db \<Rightarrow> string \<times> json" where
  "turnout_section valid invalid db =
     (let eligible = int (eligible_voter_count (db_election db));
          voted = int (count_where (\<lambda>v. vo_status v = VOTED) (db_voters db))
      in (''turnout'', JObj
           [(''eligible_voters'', JInt eligible), (''votes_cast'', JInt voted),
            (''turnout_percentage'', jfloat (pct voted eligible)),
            (''ballots_counted'', JInt (int valid)), (''invalid_ballots'', JInt (int invalid)),
            (''legacy_votes'', JInt (sum_list (map lv_votes (filter lv_success (db_ledger db)))))]))"

definition bulletin_section :: "nat \<Rightarrow> string \<Rightarrow> string \<times> json" where
  "bulletin_section n rt = (''bulletin'', JObj [(''ballots'', JInt (int n)), (''root'', JStr rt)])"

definition counting_for :: "env \<Rightarrow> (int list \<Rightarrow> int list) \<Rightarrow> event \<Rightarrow> counting" where
  "counting_for E order ev = \<lparr>cg_sha = sha_hex (en_crypto E), cg_order = order, cg_seed = str_int (ev_id ev)\<rparr>"

definition institutional_tally ::
  "env \<Rightarrow> (int list \<Rightarrow> int list) \<Rightarrow> (int \<times> string) list \<Rightarrow> int \<Rightarrow> string \<Rightarrow> election_db \<Rightarrow> count_error + (string \<times> json) list" where
  "institutional_tally E order places now secret db =
     (let ev = db_event db; G = counting_for E order ev;
          (valid, invalid) = decrypt_ballots (en_crypto E) secret db;
          trackers = sort (map op_tracker valid @ invalid)
      in case count_all G (db_ledger db) (length invalid) valid (position_specs (db_election db)) of
           Inl e \<Rightarrow> Inl e
         | Inr counted \<Rightarrow>
             (case (if ev_record_constituency ev
                    then place_entries G (ev_min_anonymity ev) places (map snd counted) (places_of (map snd counted))
                    else Inr []) of
                Inl e \<Rightarrow> Inl e
              | Inr entries \<Rightarrow>
                  (case merkle_root (sha_raw (en_crypto E)) trackers of
                     None \<Rightarrow> Inl Bad_tracker
                   | Some rt \<Rightarrow>
                       Inr [election_header ''institutional'' db, (''positions'', JList (map fst counted)),
                            (''constituencies'', JList entries), turnout_section (length valid) (length invalid) db,
                            bulletin_section (length trackers) rt,
                            (''generated_at'', JStr (iso_text (en_crypto E) now))])))"

section \<open>The document of a paid election\<close>

record paid_row =
  pp_id :: int
  pp_name :: string
  pp_category :: "int option"
  pp_main :: int
  pp_tie :: int

definition paid_counts :: "election_db \<Rightarrow> paid_row list" where
  "paid_counts db = map (\<lambda>c.
     \<lparr>pp_id = ca_id c, pp_name = ca_name c, pp_category = ca_category c,
      pp_main = sum_list (map lv_votes (filter (\<lambda>v. lv_success v \<and> lv_main v \<and> lv_candidate v = ca_id c) (db_ledger db))),
      pp_tie = sum_list (map lv_votes (filter (\<lambda>v. lv_success v \<and> \<not> lv_main v \<and> lv_candidate v = ca_id c) (db_ledger db)))\<rparr>)
     (candidates (db_election db))"

definition group_name :: "position list \<Rightarrow> int option \<Rightarrow> string" where
  "group_name ps category =
     (case category of
        None \<Rightarrow> ''All contestants''
      | Some i \<Rightarrow>
          (case first_where (\<lambda>p. pos_id p = i) ps of
             Some p \<Rightarrow> if pos_name p = [] then ''All contestants'' else pos_name p
           | None \<Rightarrow> ''All contestants''))"

fun numbered :: "int \<Rightarrow> 'a list \<Rightarrow> (int \<times> 'a) list" where
  "numbered i [] = []"
| "numbered i (x # xs) = (i, x) # numbered (i + 1) xs"

definition paid_order :: "paid_row list \<Rightarrow> paid_row list" where
  "paid_order rows = sort_key (\<lambda>r. (- pp_main r, - pp_tie r, lower (pp_name r))) rows"

definition paid_winners :: "paid_row list \<Rightarrow> int list \<times> int list" where
  "paid_winners ordered =
     (case ordered of
        [] \<Rightarrow> ([], [])
      | r # _ \<Rightarrow>
          (let ties = map pp_id (filter (\<lambda>q. pp_main q = pp_main r \<and> pp_tie q = pp_tie r) ordered)
           in (if 0 < pp_main r then [pp_id r] else [], if 1 < length ties then ties else [])))"

definition paid_position :: "position list \<Rightarrow> int option \<Rightarrow> paid_row list \<Rightarrow> json" where
  "paid_position ps category rows =
     (let total = sum_list (map pp_main rows); ordered = paid_order rows; (winners, ties) = paid_winners ordered in
      JObj
       [(''position_id'', case category of None \<Rightarrow> JNull | Some i \<Rightarrow> JInt i), (''position'', JStr (group_name ps category)),
        (''ballot_type'', JStr ''PAID''), (''method'', JStr ''paid-plurality''), (''total_votes'', JInt total),
        (''valid_ballots'', JInt total), (''abstentions'', JInt 0),
        (''candidates'', JList (map (\<lambda>(i, r). JObj
           [(''candidate_id'', JInt (pp_id r)), (''name'', JStr (pp_name r)), (''votes'', JInt (pp_main r)),
            (''tie_breaker_votes'', JInt (pp_tie r)), (''percentage'', jfloat (pct (pp_main r) total)), (''rank'', JInt i)])
           (numbered 1 ordered))),
        (''winners'', JList (map JInt winners)), (''ties'', JList (map JInt ties))])"

definition first_seen :: "'a list \<Rightarrow> 'a list" where
  "first_seen xs = rev (remdups (rev xs))"

definition paid_revenue :: "election_db \<Rightarrow> string" where
  "paid_revenue db =
     (let amounts = map lv_amount (filter lv_success (db_ledger db)) in
      if sum_list amounts = 0 then ''0'' else decimal_text (sum_list amounts))"

definition paid_tally :: "env \<Rightarrow> int \<Rightarrow> election_db \<Rightarrow> count_error + (string \<times> json) list" where
  "paid_tally E now db =
     (let rows = paid_counts db; ps = positions (db_election db);
          group = (\<lambda>c. filter (\<lambda>r. pp_category r = c) rows);
          total = sum_list (map pp_main rows)
      in case merkle_root (sha_raw (en_crypto E)) [] of
           None \<Rightarrow> Inl Bad_tracker
         | Some rt \<Rightarrow>
             Inr [election_header ''paid'' db,
                  (''positions'', JList (map (\<lambda>c. paid_position ps c (group c)) (first_seen (map pp_category rows)))),
                  (''constituencies'', JList []),
                  (''turnout'', JObj [(''votes_cast'', JInt total), (''eligible_voters'', JNull), (''turnout_percentage'', JNull),
                     (''ballots_counted'', JInt total), (''invalid_ballots'', JInt 0)]),
                  (''revenue'', JObj [(''amount'', JStr (paid_revenue db)), (''currency'', JStr (ev_currency (db_event db)))]),
                  bulletin_section 0 rt, (''generated_at'', JStr (iso_text (en_crypto E) now))])"

definition compute_tally ::
  "env \<Rightarrow> (int list \<Rightarrow> int list) \<Rightarrow> (int \<times> string) list \<Rightarrow> int \<Rightarrow> election_db \<Rightarrow> count_error + (string \<times> json) list" where
  "compute_tally E order places now db =
     (if is_institutional (db_event db) then
        (case private_key_for_tally (en_crypto E) db of
           Inl e \<Rightarrow> Inl (Custody_failed e)
         | Inr secret \<Rightarrow> institutional_tally E order places now secret db)
      else paid_tally E now db)"

definition result_hash :: "env \<Rightarrow> (string \<times> json) list \<Rightarrow> string" where
  "result_hash E data =
     sha256_hex (en_crypto E) (canonical_json (float_repr (en_crypto E))
       (JObj (filter (\<lambda>(k, v). k \<noteq> ''generated_at'') data)))"

end
