(* ===== verification/Results.thy ===== *)
theory Results
  imports Result_Data Lifecycle
begin

text \<open>
  elections/results.py, the operations: the tally, its review and certification by a second
  person, rejection, decertification, recounts, what the public sees, inclusion proofs and
  the verification bundle.

  \<open>run_tally\<close> commits the transition to \<open>TALLYING\<close> before it counts, so it returns the
  database with the error. The stored data is \<open>json.loads(canonical_json(data))\<close>, the
  document with its keys sorted (\<open>loads_render\<close>; a float is read back from its own text).
  The five-second cache of live results is not modelled, and a recount is returned rather
  than stored, since nothing reads the table of recounts.
\<close>

datatype results_error =
    Results_access access_error
  | Results_lifecycle lifecycle_error
  | Not_closed
  | Count_error count_error
  | Not_pending
  | Not_awaiting
  | Second_person_needed
  | No_certification
  | Recount_too_early
  | Results_signing key_error

section \<open>The tally\<close>

text \<open>\<open>data[section][key]\<close> of a document, 0 for \<open>None\<close>, zero or a missing key.\<close>

fun section_value :: "(string \<times> json) list \<Rightarrow> string \<Rightarrow> string \<Rightarrow> json" where
  "section_value doc a b =
     (case js_get doc a of Some (JObj kvs) \<Rightarrow> (case js_get kvs b of Some j \<Rightarrow> j | None \<Rightarrow> JNull) | _ \<Rightarrow> JNull)"

fun number_or_0 :: "json \<Rightarrow> int" where
  "number_or_0 (JInt i) = i"
| "number_or_0 _ = 0"

fun text_of :: "json \<Rightarrow> string" where
  "text_of (JStr s) = s"
| "text_of _ = []"

definition stored_result ::
  "env \<Rightarrow> int \<Rightarrow> result_kind \<Rightarrow> account option \<Rightarrow> (string \<times> json) list \<Rightarrow> election_result list \<Rightarrow> election_result" where
  "stored_result E now kind actor data rows =
     \<lparr>er_id = next_pk er_id rows, er_kind = kind,
      er_status = (if kind = OFFICIAL then PENDING_REVIEW else INFORMATIONAL),
      er_data = sort_keys (JObj data), er_hash = result_hash E data,
      er_root = text_of (section_value data ''bulletin'' ''root''),
      er_ballots = number_or_0 (section_value data ''turnout'' ''ballots_counted''),
      er_eligible = number_or_0 (section_value data ''turnout'' ''eligible_voters''),
      er_cast = number_or_0 (section_value data ''turnout'' ''votes_cast''),
      er_tallied_by = map_option us_id actor, er_tallied_at = now, er_reviewed_by = None, er_reviewed_at = None,
      er_notes = []\<rparr>"

definition result_target :: "election_result \<Rightarrow> string \<times> string" where
  "result_target r = (''elections.ElectionResult'', str_int (er_id r))"

definition store_result ::
  "env \<Rightarrow> int \<Rightarrow> result_kind \<Rightarrow> account option \<Rightarrow> (string \<times> json) list \<Rightarrow> election_db \<Rightarrow> election_result \<times> election_db" where
  "store_result E now kind actor data db =
     (let r = stored_result E now kind actor data (db_results db);
          rows = (if kind = OFFICIAL
                  then update_where (\<lambda>x. er_kind x = kind \<and> er_status x = PENDING_REVIEW)
                         (\<lambda>x. x\<lparr>er_status := SUPERSEDED\<rparr>) (db_results db)
                  else db_results db);
          db1 = log_note (note_about ''RESULTS_TALLIED'' actor (result_target r) db) (db\<lparr>db_results := rows @ [r]\<rparr>)
      in (r, if is_institutional (db_event db) \<and> kind = OFFICIAL then wipe_submitted_shares db1 else db1))"

definition count_and_store ::
  "env \<Rightarrow> (int list \<Rightarrow> int list) \<Rightarrow> (int \<times> string) list \<Rightarrow> int \<Rightarrow> result_kind \<Rightarrow> account option \<Rightarrow> election_db
    \<Rightarrow> (results_error + election_result) \<times> election_db" where
  "count_and_store E order places now kind actor db =
     (case compute_tally E order places now db of
        Inl e \<Rightarrow> (Inl (Count_error e), db)
      | Inr data \<Rightarrow> (let (r, db') = store_result E now kind actor data db in (Inr r, db')))"

text \<open>The state an official tally needs, reached from \<open>CLOSED\<close> by a transition of its own.\<close>

definition enter_tally ::
  "env \<Rightarrow> int \<Rightarrow> account option \<Rightarrow> bool \<Rightarrow> election_db \<Rightarrow> results_error + election_db" where
  "enter_tally E now actor system db =
     (case (if system then Inr () else check_perm (db_tenancy db) actor ''results.tally'' (Election (db_event db))) of
        Inl e \<Rightarrow> Inl (Results_access e)
      | Inr _ \<Rightarrow>
          (case (if ev_status (db_event db) = CLOSED
                 then transition E now ''start_tally'' actor ''Tally started'' system (\<lambda>ev. ev) False db
                 else Inr db) of
             Inl e \<Rightarrow> Inl (Results_lifecycle e)
           | Inr db' \<Rightarrow> if ev_status (db_event db') \<noteq> TALLYING then Inl Not_closed else Inr db'))"

definition run_tally ::
  "env \<Rightarrow> (int list \<Rightarrow> int list) \<Rightarrow> (int \<times> string) list \<Rightarrow> int \<Rightarrow> account option \<Rightarrow> result_kind \<Rightarrow> bool \<Rightarrow> election_db
    \<Rightarrow> (results_error + election_result) \<times> election_db" where
  "run_tally E order places now actor kind system db =
     (if kind = OFFICIAL then
        (case enter_tally E now actor system db of
           Inl e \<Rightarrow> (Inl e, db)
         | Inr db' \<Rightarrow> count_and_store E order places now kind actor db')
      else count_and_store E order places now kind actor db)"

section \<open>Certification\<close>

definition certification_payload :: "env \<Rightarrow> int \<Rightarrow> election_result \<Rightarrow> election_db \<Rightarrow> json" where
  "certification_payload E now r db = JObj
     [(''platform'', JStr ''FlexyVotes''), (''election_id'', JInt (ev_id (db_event db))),
      (''election_title'', JStr (ev_title (db_event db))), (''organization'', JStr (org_name db)),
      (''result_hash'', JStr (er_hash r)), (''bulletin_root'', JStr (er_root r)),
      (''ballots_counted'', JInt (er_ballots r)), (''votes_cast'', JInt (er_cast r)),
      (''eligible_voters'', JInt (er_eligible r)),
      (''config_hash'', JStr (case latest_snapshot db of Some s \<Rightarrow> sn_hash s | None \<Rightarrow> [])),
      (''ballot_key_fingerprint'', JStr (case db_key db of Some k \<Rightarrow> ek_fingerprint k | None \<Rightarrow> [])),
      (''certified_at'', JStr (iso_text (en_crypto E) now))]"

definition signed_certification ::
  "env \<Rightarrow> int \<Rightarrow> election_result \<Rightarrow> account \<Rightarrow> election_db \<Rightarrow> key_error + certification" where
  "signed_certification E now r reviewer db =
     (let K = en_crypto E; payload = certification_payload E now r db;
          encoded = canonical_json (float_repr K) payload
      in case (sign K (en_config E) encoded, public_key_b64 K (en_config E)) of
           (Inl e, _) \<Rightarrow> Inl e
         | (Inr sig, Inl e) \<Rightarrow> Inl e
         | (Inr sig, Inr pub) \<Rightarrow>
             (case key_fingerprint K pub of
                Inl e \<Rightarrow> Inl e
              | Inr fp \<Rightarrow>
                  Inr \<lparr>ce_id = next_pk ce_id (db_certifications db), ce_result = er_id r, ce_payload = payload,
                       ce_payload_hash = sha256_hex K encoded, ce_signature = sig, ce_public = pub, ce_key_id = fp,
                       ce_tallied_by = er_tallied_by r, ce_certified_by = Some (us_id reviewer), ce_certified_at = now,
                       ce_revoked_at = None, ce_revoked_reason = []\<rparr>))"

definition certification_target :: "certification \<Rightarrow> string \<times> string" where
  "certification_target c = (''elections.ResultCertification'', str_int (ce_id c))"

definition may_certify :: "election_result \<Rightarrow> account \<Rightarrow> election_db \<Rightarrow> results_error + unit" where
  "may_certify r reviewer db =
     (case check_perm (db_tenancy db) (Some reviewer) ''results.approve'' (Election (db_event db)) of
        Inl e \<Rightarrow> Inl (Results_access e)
      | Inr _ \<Rightarrow>
          (case check_perm (db_tenancy db) (Some reviewer) ''results.certify'' (Election (db_event db)) of
             Inl e \<Rightarrow> Inl (Results_access e)
           | Inr _ \<Rightarrow>
               if er_kind r \<noteq> OFFICIAL \<or> er_status r \<noteq> PENDING_REVIEW then Inl Not_pending
               else if ev_status (db_event db) \<noteq> TALLYING then Inl Not_awaiting
               else if ev_dual_approval (db_event db) \<and> er_tallied_by r = Some (us_id reviewer) \<and> us_id reviewer \<noteq> 0
               then Inl Second_person_needed
               else Inr ()))"

definition update_result :: "int \<Rightarrow> (election_result \<Rightarrow> election_result) \<Rightarrow> election_db \<Rightarrow> election_db" where
  "update_result i f db = db\<lparr>db_results := update_where (\<lambda>x. er_id x = i) f (db_results db)\<rparr>"

definition approve_and_certify ::
  "env \<Rightarrow> int \<Rightarrow> election_result \<Rightarrow> account \<Rightarrow> string \<Rightarrow> election_db \<Rightarrow> results_error + certification \<times> election_db" where
  "approve_and_certify E now r reviewer notes db =
     (case may_certify r reviewer db of
        Inl e \<Rightarrow> Inl e
      | Inr _ \<Rightarrow>
          (case signed_certification E now r reviewer db of
             Inl e \<Rightarrow> Inl (Results_signing e)
           | Inr c \<Rightarrow>
               (let db1 = update_result (er_id r)
                      (\<lambda>x. x\<lparr>er_status := RESULT_APPROVED, er_reviewed_by := Some (us_id reviewer),
                             er_reviewed_at := Some now, er_notes := notes\<rparr>) db;
                    db2 = db1\<lparr>db_certifications := db_certifications db1 @ [c]\<rparr>
                in case transition E now ''certify'' (Some reviewer) (if notes = [] then ''Results certified'' else notes) False
                          (\<lambda>ev. ev\<lparr>ev_certified_at := Some now\<rparr>) False db2 of
                     Inl e \<Rightarrow> Inl (Results_lifecycle e)
                   | Inr db3 \<Rightarrow>
                       Inr (c, log_note (note_about ''RESULTS_CERTIFIED'' (Some reviewer) (certification_target c) db3) db3))))"

definition reject_result ::
  "int \<Rightarrow> election_result \<Rightarrow> account \<Rightarrow> string \<Rightarrow> election_db \<Rightarrow> results_error + election_db" where
  "reject_result now r reviewer notes db =
     (case check_perm (db_tenancy db) (Some reviewer) ''results.approve'' (Election (db_event db)) of
        Inl e \<Rightarrow> Inl (Results_access e)
      | Inr _ \<Rightarrow>
          if er_status r \<noteq> PENDING_REVIEW then Inl Not_pending
          else
            (let db1 = update_result (er_id r)
                   (\<lambda>x. x\<lparr>er_status := RESULT_REJECTED, er_reviewed_by := Some (us_id reviewer),
                          er_reviewed_at := Some now, er_notes := notes\<rparr>) db
             in Inr (log_note ((note_about ''RESULTS_REJECTED'' (Some reviewer) (result_target r) db)\<lparr>an_reason := notes\<rparr>) db1)))"

definition current_certification :: "election_db \<Rightarrow> certification option" where
  "current_certification db =
     first_where (\<lambda>c. ce_revoked_at c = None) (sort_key (\<lambda>c. - ce_certified_at c) (db_certifications db))"

definition revoke_certification ::
  "env \<Rightarrow> int \<Rightarrow> account option \<Rightarrow> string \<Rightarrow> election_db \<Rightarrow> results_error + election_db" where
  "revoke_certification E now actor reason db =
     (case current_certification db of
        None \<Rightarrow> Inl No_certification
      | Some c \<Rightarrow>
          (let db1 = update_result (ce_result c) (\<lambda>x. x\<lparr>er_status := SUPERSEDED\<rparr>)
                 (db\<lparr>db_certifications := update_where (\<lambda>x. ce_id x = ce_id c)
                    (\<lambda>x. x\<lparr>ce_revoked_at := Some now, ce_revoked_reason := reason\<rparr>) (db_certifications db)\<rparr>)
           in case transition E now ''decertify'' actor reason True (\<lambda>ev. ev) False db1 of
                Inl e \<Rightarrow> Inl (Results_lifecycle e)
              | Inr db2 \<Rightarrow>
                  Inr (log_note ((note_about ''RESULTS_DECERTIFIED'' actor (certification_target c) db2)\<lparr>an_reason := reason\<rparr>)
                         db2)))"

section \<open>Recounts\<close>

fun id_text :: "json \<Rightarrow> string" where
  "id_text (JInt i) = str_int i"
| "id_text (JStr s) = s"
| "id_text _ = ''None''"

fun field :: "json \<Rightarrow> string \<Rightarrow> json" where
  "field (JObj kvs) k = (case js_get kvs k of Some j \<Rightarrow> j | None \<Rightarrow> JNull)"
| "field _ k = JNull"

fun items_of :: "json \<Rightarrow> json list" where
  "items_of (JList xs) = xs"
| "items_of _ = []"

datatype difference =
    Missing_position json
  | Votes_differ json json "json option" json
  | Winners_differ json

text \<open>A dictionary built from a list: the last entry of a key counts.\<close>

definition dict_of :: "(string \<times> 'v) list \<Rightarrow> string \<Rightarrow> 'v option" where
  "dict_of kvs = map_of (rev kvs)"

definition candidate_differences :: "json \<Rightarrow> json \<Rightarrow> difference list" where
  "candidate_differences before after_recount =
     (let votes = dict_of (map (\<lambda>c. (id_text (field c ''candidate_id''), field c ''votes'')) (items_of (field before ''candidates'')))
      in List.map_filter (\<lambda>c.
           (let old = votes (id_text (field c ''candidate_id''))
            in if old \<noteq> Some (field c ''votes'')
               then Some (Votes_differ (field after_recount ''position'') (field c ''name'') old (field c ''votes''))
               else None)) (items_of (field after_recount ''candidates'')))"

definition winner_texts :: "json \<Rightarrow> string list" where
  "winner_texts p = sort (map id_text (items_of (field p ''winners'')))"

definition position_differences :: "(string \<Rightarrow> json option) \<Rightarrow> json \<Rightarrow> difference list" where
  "position_differences official p =
     (case official (id_text (field p ''position_id'')) of
        None \<Rightarrow> [Missing_position (field p ''position'')]
      | Some before \<Rightarrow>
          candidate_differences before p
          @ (if winner_texts before \<noteq> winner_texts p then [Winners_differ (field p ''position'')] else []))"

definition differences :: "json \<Rightarrow> json \<Rightarrow> difference list" where
  "differences official recounted =
     (let known = dict_of (map (\<lambda>p. (id_text (field p ''position_id''), p)) (items_of (field official ''positions'')))
      in concat (map (position_differences known) (items_of (field recounted ''positions''))))"

record recount_row =
  rr_independent :: bool
  rr_reason :: string
  rr_requested_by :: int
  rr_result :: int
  rr_compared_to :: "int option"
  rr_matches :: "bool option"
  rr_differences :: "difference list"

definition result_by_id :: "int \<Rightarrow> election_db \<Rightarrow> election_result option" where
  "result_by_id i db = first_where (\<lambda>r. er_id r = i) (db_results db)"

text \<open>What a recount is compared with: the certified result, or the latest tally still standing.\<close>

definition reference_result :: "election_db \<Rightarrow> election_result option" where
  "reference_result db =
     (case current_certification db of
        Some c \<Rightarrow> result_by_id (ce_result c) db
      | None \<Rightarrow> first_where (\<lambda>r. er_kind r = OFFICIAL \<and> er_status r \<noteq> SUPERSEDED)
                  (sort_key (\<lambda>r. - er_tallied_at r) (db_results db)))"

definition recount ::
  "env \<Rightarrow> (int list \<Rightarrow> int list) \<Rightarrow> (int \<times> string) list \<Rightarrow> int \<Rightarrow> account \<Rightarrow> bool \<Rightarrow> string \<Rightarrow> election_db
    \<Rightarrow> results_error + recount_row \<times> election_db" where
  "recount E order places now actor by_auditor reason db =
     (case check_perm (db_tenancy db) (Some actor) ''results.recount'' (Election (db_event db)) of
        Inl e \<Rightarrow> Inl (Results_access e)
      | Inr _ \<Rightarrow>
          if ev_status (db_event db) \<notin> {TALLYING, CERTIFIED, PUBLISHED, ARCHIVED} then Inl Recount_too_early
          else
            (case run_tally E order places now (Some actor) (if by_auditor then INDEPENDENT else RECOUNT) False db of
               (Inl e, _) \<Rightarrow> Inl e
             | (Inr r, db') \<Rightarrow>
                 (let ref = reference_result db;
                      row = \<lparr>rr_independent = by_auditor, rr_reason = reason, rr_requested_by = us_id actor,
                             rr_result = er_id r, rr_compared_to = map_option er_id ref,
                             rr_matches = map_option (\<lambda>x. er_hash x = er_hash r) ref,
                             rr_differences = (case ref of Some x \<Rightarrow> differences (er_data x) (er_data r) | None \<Rightarrow> [])\<rparr>
                  in Inr (row, log_note ((note_about ''RESULTS_RECOUNT'' (Some actor)
                        (''elections.Recount'', str_int (er_id r)) db)\<lparr>an_reason := reason\<rparr>) db'))))"

section \<open>What the public sees\<close>

record shown_results =
  sh_certified :: bool
  sh_data :: json
  sh_certification :: "certification option"

definition public_results :: "env \<Rightarrow> int \<Rightarrow> election_db \<Rightarrow> count_error + shown_results option" where
  "public_results E now db =
     (let certified =
            (if ev_status (db_event db) \<in> {PUBLISHED, ARCHIVED} then
               (case current_certification db of
                  Some c \<Rightarrow> map_option (\<lambda>r. (er_data r, c)) (result_by_id (ce_result c) db)
                | None \<Rightarrow> None)
             else None)
      in case certified of
           Some (data, c) \<Rightarrow> Inr (Some \<lparr>sh_certified = True, sh_data = data, sh_certification = Some c\<rparr>)
         | None \<Rightarrow>
             if is_paid (db_event db) \<and> results_are_public (db_event db) then
               (case paid_tally E now db of
                  Inl e \<Rightarrow> Inl e
                | Inr data \<Rightarrow> Inr (Some \<lparr>sh_certified = False, sh_data = JObj data, sh_certification = None\<rparr>))
             else Inr None)"

definition bulletin_trackers :: "election_db \<Rightarrow> string list" where
  "bulletin_trackers db = sort (map ba_tracker (db_ballots db))"

fun index_of :: "'a \<Rightarrow> 'a list \<Rightarrow> nat" where
  "index_of x [] = 0"
| "index_of x (y # ys) = (if x = y then 0 else Suc (index_of x ys))"

record inclusion =
  in_proof :: "(nat \<times> proof_step list) option"
  in_root :: string
  in_ballots :: nat

definition tracker_proof :: "env \<Rightarrow> string \<Rightarrow> election_db \<Rightarrow> count_error + inclusion" where
  "tracker_proof E tracker db =
     (let H = sha_raw (en_crypto E); trackers = bulletin_trackers db; t = lower (strip tracker)
      in case merkle_root H trackers of
           None \<Rightarrow> Inl Bad_tracker
         | Some rt \<Rightarrow>
             if t \<notin> set trackers then Inr \<lparr>in_proof = None, in_root = rt, in_ballots = length trackers\<rparr>
             else
               (let i = index_of t trackers in
                case merkle_proof H trackers i of
                  None \<Rightarrow> Inl Bad_tracker
                | Some steps \<Rightarrow> Inr \<lparr>in_proof = Some (i, steps), in_root = rt, in_ballots = length trackers\<rparr>))"

section \<open>The verification bundle\<close>

record bundle_config =
  bc_version :: int
  bc_config :: json
  bc_hash :: string
  bc_signature :: string
  bc_public :: string

record bundle_certificate =
  bk_payload :: json
  bk_hash :: string
  bk_signature :: string
  bk_public :: string
  bk_key_id :: string

record proof_bundle =
  bu_config :: "bundle_config option"
  bu_certificate :: "bundle_certificate option"
  bu_result :: "json option"
  bu_trackers :: "string list"
  bu_root :: string
  bu_keys :: "string list"

definition verification_bundle :: "env \<Rightarrow> election_db \<Rightarrow> results_error + proof_bundle" where
  "verification_bundle E db =
     (let K = en_crypto E; trackers = bulletin_trackers db; cert = current_certification db
      in case (merkle_root (sha_raw K) trackers, trusted_public_keys K (en_config E)) of
           (None, _) \<Rightarrow> Inl (Count_error Bad_tracker)
         | (Some rt, Inl e) \<Rightarrow> Inl (Results_signing e)
         | (Some rt, Inr keys) \<Rightarrow>
             Inr \<lparr>bu_config = map_option (\<lambda>s. \<lparr>bc_version = sn_version s, bc_config = sn_config s, bc_hash = sn_hash s,
                                bc_signature = sn_signature s, bc_public = sn_public s\<rparr>) (latest_snapshot db),
                  bu_certificate = map_option (\<lambda>c. \<lparr>bk_payload = ce_payload c, bk_hash = ce_payload_hash c,
                                bk_signature = ce_signature c, bk_public = ce_public c, bk_key_id = ce_key_id c\<rparr>) cert,
                  bu_result = (case cert of
                      Some c \<Rightarrow> if ev_status (db_event db) \<in> {PUBLISHED, ARCHIVED}
                                then map_option er_data (result_by_id (ce_result c) db) else None
                    | None \<Rightarrow> None),
                  bu_trackers = trackers, bu_root = rt, bu_keys = keys\<rparr>)"

datatype check_name =
    Configuration_hash
  | Configuration_signature
  | Certification_signature
  | Bulletin_root
  | Result_hash
  | Certified_configuration
  | Signing_key_trusted

fun json_fields :: "json \<Rightarrow> (string \<times> json) list" where
  "json_fields (JObj kvs) = kvs"
| "json_fields _ = []"

text \<open>
  The checks of a bundle, each with its outcome. A tracker that is not hexadecimal raises.
\<close>

definition verify_bundle :: "env \<Rightarrow> proof_bundle \<Rightarrow> count_error + (check_name \<times> bool) list" where
  "verify_bundle E b =
     (let K = en_crypto E; encode = canonical_json (float_repr K);
          config_checks =
            (case bu_config b of
               None \<Rightarrow> []
             | Some c \<Rightarrow>
                 [(Configuration_hash, sha256_hex K (encode (bc_config c)) = bc_hash c),
                  (Configuration_signature, verify_signature K (encode (bc_config c)) (bc_signature c) (bc_public c))])
      in case bu_certificate b of
           None \<Rightarrow> Inr config_checks
         | Some k \<Rightarrow>
             (case merkle_root (sha_raw K) (bu_trackers b) of
                None \<Rightarrow> Inl Bad_tracker
              | Some rt \<Rightarrow>
                  Inr (config_checks
                    @ [(Certification_signature, verify_signature K (encode (bk_payload k)) (bk_signature k) (bk_public k)),
                       (Bulletin_root, field (bk_payload k) ''bulletin_root'' = JStr rt)]
                    @ (case bu_result b of
                         None \<Rightarrow> []
                       | Some r \<Rightarrow> [(Result_hash, field (bk_payload k) ''result_hash'' = JStr (result_hash E (json_fields r)))])
                    @ (case bu_config b of
                         None \<Rightarrow> []
                       | Some c \<Rightarrow> [(Certified_configuration, field (bk_payload k) ''config_hash'' = JStr (bc_hash c))])
                    @ [(Signing_key_trusted, bk_public k \<in> set (bu_keys b))])))"

end
