(* ===== verification/Results_Props.thy ===== *)
theory Results_Props
  imports Results Crypto_Props Lifecycle_Props Casting_Props
begin

text \<open>
  What the results rest on: every ballot is counted as it was cast, every certification is
  by a second person, a recount of the same box gives the same result, and the published
  bundle passes its checks.
\<close>

section \<open>Sorted documents\<close>

lemma map_of_sorted:
  assumes "distinct (map fst kvs)"
  shows "map_of (sort_key fst kvs) = map_of kvs"
  using assms by (intro map_of_inject_set [THEN iffD2]) (simp_all add: distinct_map)

lemma js_get_sorted:
  assumes "distinct (map fst kvs)"
  shows "js_get (sort_key fst (map (\<lambda>(k, v). (k, f v)) kvs)) k = map_option f (js_get kvs k)"
proof -
  have "map fst (map (\<lambda>(k, v). (k, f v)) kvs) = map fst kvs" by (simp add: comp_def case_prod_unfold)
  then have "distinct (map fst (map (\<lambda>(k, v). (k, f v)) kvs))" using assms by metis
  from map_of_sorted [OF this] show ?thesis by (simp add: js_get_def map_of_map)
qed

lemma plain_sort_keys: "plain_json j \<Longrightarrow> plain_json (sort_keys j)"
proof (induction j rule: sort_keys.induct)
  case (2 kvs)
  have "distinct (map fst (sort_key fst (map (\<lambda>(k, v). (k, sort_keys v)) kvs)))"
    using 2(2) by (simp add: distinct_map comp_def case_prod_unfold inj_on_def) metis
  moreover have "plain_json (sort_keys v)" if "(k, v) \<in> set kvs" for k v using 2 that by fastforce
  ultimately show ?case by auto
qed auto

section \<open>Counted as cast\<close>

text \<open>The selection as the count reads it: the scores of a ballot come back in the order of their keys.\<close>

fun counted_choice :: "choice \<Rightarrow> choice" where
  "counted_choice (Some (Scores kvs)) = Some (Scores (sort_key fst kvs))"
| "counted_choice c = c"

lemma ints_of_map [simp]: "ints_of (map JInt ids) = Some ids"
  by (induction ids) simp_all

lemma scores_of_map: "scores_of (map (\<lambda>(k, x). (k, JInt x)) kvs) = Some kvs"
  by (induction kvs) auto

lemma insort_key_map: "insort_key f (g x) (map g xs) = map g (insort_key (\<lambda>a. f (g a)) x xs)"
  by (induction xs) simp_all

lemma sort_key_map: "sort_key f (map g xs) = map g (sort_key (\<lambda>a. f (g a)) xs)"
  by (induction xs) (simp_all add: insort_key_map)

lemma read_stored_choice: "read_choice (sort_keys (choice_json c)) = Some (counted_choice c)"
proof (cases c rule: counted_choice.cases)
  case (1 kvs)
  have "sort_key fst (map ((\<lambda>(k, v). (k, sort_keys v)) \<circ> (\<lambda>(k, x). (k, JInt x))) kvs)
      = map (\<lambda>(k, x). (k, JInt x)) (sort_key fst kvs)"
    by (simp add: comp_def case_prod_unfold sort_key_map [of fst "\<lambda>p. (fst p, JInt (snd p))", simplified, symmetric])
  with 1 scores_of_map show ?thesis by simp
qed (auto simp: comp_def)

text \<open>What is read from the plaintext of a ballot.\<close>

lemma read_plaintext:
  assumes "repr_ok repr" and "plain_json (ballot_plaintext ev style sels padding)"
  shows "\<exists>kvs. loads (canonical_json repr (ballot_plaintext ev style sels padding)) = Some (JObj kvs)
    \<and> js_get kvs ''election'' = Some (JInt (ev_id ev))
    \<and> js_get kvs ''selections'' = Some (sort_keys (JObj (map (\<lambda>(k, c). (k, choice_json c)) sels)))"
proof -
  let ?kvs = "[(''v'', JInt 1), (''election'', JInt (ev_id ev)), (''style'', JList (map JInt (sort style))),
      (''selections'', JObj (map (\<lambda>(k, c). (k, choice_json c)) sels)), (''nonce'', JStr padding)]"
  have d: "distinct (map fst ?kvs)" by simp
  have "loads (canonical_json repr (JObj ?kvs)) = Some (sort_keys (JObj ?kvs))"
    using loads_render [OF assms(1) plain_sort_keys [OF assms(2)]] by (simp add: canonical_json_def ballot_plaintext_def)
  moreover have "js_get (sort_key fst (map (\<lambda>(k, v). (k, sort_keys v)) ?kvs)) ''election'' = Some (JInt (ev_id ev))"
    "js_get (sort_key fst (map (\<lambda>(k, v). (k, sort_keys v)) ?kvs)) ''selections''
      = Some (sort_keys (JObj (map (\<lambda>(k, c). (k, choice_json c)) sels)))"
    unfolding js_get_sorted [OF d] by (simp_all add: js_get_def del: sort_keys.simps) (simp_all only: sort_keys.simps)
  ultimately show ?thesis unfolding ballot_plaintext_def by (simp only: sort_keys.simps) blast
qed

lemma js_get_choices:
  assumes "distinct (map fst sels)"
  shows "js_get (json_fields (sort_keys (JObj (map (\<lambda>(k, c). (k, choice_json c)) sels)))) k
    = map_option (\<lambda>c. sort_keys (choice_json c)) (js_get sels k)"
proof -
  have "distinct (map fst (map (\<lambda>(k, c). (k, choice_json c)) sels))"
    using assms by (simp add: comp_def case_prod_unfold)
  from js_get_sorted [OF this, of sort_keys k] show ?thesis
    by (simp add: js_get_def map_of_map option.map_comp comp_def)
qed

lemma sealed_ballot_read:
  assumes K: "dh_ok (en_crypto E)" "aead_ok (en_crypto E)" "repr_ok (float_repr (en_crypto E))"
    and key: "ek_public key = b64e (x_public (en_crypto E) secret)" and nonce: "length (snd (br_seal r)) = 12"
    and sealed: "seal_ballot E r ev key style sels c = Inr b"
    and plain: "plain_json (ballot_plaintext ev style sels (br_padding r))"
  shows "read_ballot (en_crypto E) ev secret b = Some (json_fields (sort_keys (JObj (map (\<lambda>(k, c). (k, choice_json c)) sels))))"
proof -
  let ?text = "canonical_json (float_repr (en_crypto E)) (ballot_plaintext ev style sels (br_padding r))"
  obtain eph nn where rs: "br_seal r = (eph, nn)" by fastforce
  from sealed_ballot_opens [OF K(1,2), of nn eph secret ?text "ballot_aad ev (style_hash E ev style)"] nonce rs
  obtain blob where blob: "seal (en_crypto E) (br_seal r) (ek_public key) ?text (ballot_aad ev (style_hash E ev style)) = Inr blob"
    "unseal (en_crypto E) secret blob (ballot_aad ev (style_hash E ev style)) = Inr ?text" unfolding key by auto
  have b: "ba_ciphertext b = blob" "ba_style_hash b = style_hash E ev style"
    using sealed blob(1) by (auto simp: seal_ballot_def Let_def)
  from read_plaintext [OF K(3) plain] obtain kvs where kvs: "loads ?text = Some (JObj kvs)"
    "js_get kvs ''election'' = Some (JInt (ev_id ev))"
    "js_get kvs ''selections'' = Some (sort_keys (JObj (map (\<lambda>(k, c). (k, choice_json c)) sels)))" by blast
  show ?thesis unfolding read_ballot_def b blob(2) using kvs by simp
qed

definition opened_ballot :: "crypto \<Rightarrow> event \<Rightarrow> string \<Rightarrow> ballot \<Rightarrow> opened option" where
  "opened_ballot K ev secret b = map_option (\<lambda>sels.
     \<lparr>op_selections = sels, op_place = ba_constituency b, op_tracker = ba_tracker b\<rparr>) (read_ballot K ev secret b)"

lemma open_ballots_filter:
  "open_ballots K ev secret bs = (List.map_filter (opened_ballot K ev secret) bs,
     map ba_tracker (filter (\<lambda>b. read_ballot K ev secret b = None) bs))"
  by (induction bs) (auto simp: opened_ballot_def map_filter_simps split: option.split)

lemma mset_map_filter: "mset (List.map_filter f xs) = image_mset the (filter_mset (\<lambda>x. x \<noteq> None) (image_mset f (mset xs)))"
  by (induction xs) (auto simp: map_filter_simps split: option.split)

lemma decrypt_ballots_mset:
  "mset (fst (decrypt_ballots K secret db)) = mset (List.map_filter (opened_ballot K (db_event db) secret) (db_ballots db))"
  "mset (snd (decrypt_ballots K secret db))
    = mset (map ba_tracker (filter (\<lambda>b. read_ballot K (db_event db) secret b = None) (db_ballots db)))"
  by (simp_all add: decrypt_ballots_def open_ballots_filter mset_map_filter)

text \<open>
  C19: Counted as cast: when a ballot is accepted, opening the box with the election's
  secret key afterwards yields exactly the ballots it yielded before and this one, and what
  the count reads from it for every position is the selection that was validated, provided
  the numbers on the ballot have at most 4300 digits and no key occurs twice.
\<close>

theorem counted_as_cast:
  assumes "dh_ok (en_crypto E)" and "aead_ok (en_crypto E)" and "repr_ok (float_repr (en_crypto E))"
    and cast: "cast_ballot E now r token payload db = Inr (rc, db')" and "length (snd (br_seal r)) = 12"
    and key: "db_key db = Some key" "ek_public key = b64e (x_public (en_crypto E) secret)"
    and plain: "\<And>a v sels. admit E now token db = Inr (a, v) \<Longrightarrow> validate_ballot (db_election db) (va_style a) payload = Inr sels \<Longrightarrow>
      plain_json (ballot_plaintext (db_event db) (va_style a) sels (br_padding r))"
  shows "\<exists>a v sels x. admit E now token db = Inr (a, v) \<and> validate_ballot (db_election db) (va_style a) payload = Inr sels
    \<and> mset (fst (decrypt_ballots (en_crypto E) secret db')) = add_mset x (mset (fst (decrypt_ballots (en_crypto E) secret db)))
    \<and> mset (snd (decrypt_ballots (en_crypto E) secret db')) = mset (snd (decrypt_ballots (en_crypto E) secret db))
    \<and> (\<forall>k. Option.bind (js_get (op_selections x) k) read_choice = map_option counted_choice (js_get sels k))"
proof -
  from cast_Inr [OF cast] key(1) obtain a v sels b where c: "admit E now token db = Inr (a, v)"
    "validate_ballot (db_election db) (va_style a) payload = Inr sels"
    "seal_ballot E r (db_event db) key (va_style a) sels (map_option co_id (vo_constituency v)) = Inr b"
    "db' = queue_task (Send_vote_confirmation (ev_id (db_event db)) (vo_id v))
         (mark_voted now a v (db\<lparr>db_ballots := db_ballots db @ [b]\<rparr>))" by auto
  then have db': "db_ballots db' = db_ballots db @ [b]" "db_event db' = db_event db" by simp_all
  note plain = plain [OF c(1,2)]
  let ?doc = "json_fields (sort_keys (JObj (map (\<lambda>(k, c). (k, choice_json c)) sels)))"
  have read: "read_ballot (en_crypto E) (db_event db) secret b = Some ?doc"
    by (rule sealed_ballot_read [OF assms(1-3) key(2) assms(5) c(3) plain])
  have "distinct (map fst sels)" using plain by (simp add: ballot_plaintext_def comp_def case_prod_unfold)
  then have "Option.bind (js_get ?doc k) read_choice = map_option counted_choice (js_get sels k)" for k
    by (cases "js_get sels k") (simp_all add: js_get_choices read_stored_choice del: sort_keys.simps)
  moreover have "opened_ballot (en_crypto E) (db_event db) secret b
      = Some \<lparr>op_selections = ?doc, op_place = ba_constituency b, op_tracker = ba_tracker b\<rparr>"
    using read by (simp add: opened_ballot_def)
  ultimately show ?thesis
    using c(1,2) read
    by (intro exI [of _ a] exI [of _ v] exI [of _ sels]
        exI [of _ "\<lparr>op_selections = ?doc, op_place = ba_constituency b, op_tracker = ba_tracker b\<rparr>"])
      (simp add: decrypt_ballots_mset db' mset_map_filter del: sort_keys.simps)
qed

lemma small_number: "n < 10 \<Longrightarrow> length (str_nat n) \<le> int_digits_limit"
  by (simp add: str_nat.simps [of n] int_digits_limit_def)

theorem counted_as_cast_witness:
  "\<exists>rc db' x. cast_ballot ex_env 12 ex_random ''t'' ex_payload poll_db = Inr (rc, db')
    \<and> mset (fst (decrypt_ballots (en_crypto ex_env) ''k'' db')) = {#x#}"
proof -
  obtain rc db' where c: "cast_ballot ex_env 12 ex_random ''t'' ex_payload poll_db = Inr (rc, db')" using poll_cast(1) by blast
  have K: "en_crypto ex_env = ex_crypto" by (simp add: ex_env_def)
  have ex_repr: "repr_ok (float_repr ex_crypto)" by (simp add: ex_crypto_def ratio_text_ok)
  have "fst (decrypt_ballots (en_crypto ex_env) ''k'' poll_db) = []"
    by (simp add: decrypt_ballots_def poll_db_simps)
  moreover have "plain_json (ballot_plaintext (db_event poll_db) (va_style a) sels (br_padding ex_random))"
    if "admit ex_env 12 ''t'' poll_db = Inr (a, v)" "validate_ballot (db_election poll_db) (va_style a) ex_payload = Inr sels" for a v sels
    using that poll_validate(1) poll_admits(1)
    by (auto simp: ex_authorization_def ballot_plaintext_def poll_db_simps ex_event_def small_number)
  ultimately show ?thesis
    using counted_as_cast [OF _ _ _ c, of poll_key "''k''"] c
    by (auto simp: K ex_crypto_ok poll_db_simps poll_key_def ex_random_def ex_repr)
qed

section \<open>Two persons\<close>

datatype results_request =
    Tally int "account option" result_kind bool
  | Certify int int account string
  | Reject int int account string
  | Decertify int "account option" string
  | Board life_request

definition on_success :: "('e + 'a) \<Rightarrow> ('a \<Rightarrow> election_db) \<Rightarrow> election_db \<Rightarrow> election_db" where
  "on_success x f db = (case x of Inl e \<Rightarrow> db | Inr a \<Rightarrow> f a)"

text \<open>One request of the officials; a tally that fails after its transition keeps the transition.\<close>

fun results_step ::
  "env \<Rightarrow> (int list \<Rightarrow> int list) \<Rightarrow> (int \<times> string) list \<Rightarrow> results_request \<Rightarrow> election_db \<Rightarrow> election_db" where
  "results_step E order places (Tally now actor kind system) db = snd (run_tally E order places now actor kind system db)"
| "results_step E order places (Certify now i reviewer notes) db =
     (case result_by_id i db of
        None \<Rightarrow> db | Some r \<Rightarrow> on_success (approve_and_certify E now r reviewer notes db) snd db)"
| "results_step E order places (Reject now i reviewer notes) db =
     (case result_by_id i db of None \<Rightarrow> db | Some r \<Rightarrow> on_success (reject_result now r reviewer notes db) (\<lambda>db'. db') db)"
| "results_step E order places (Decertify now actor reason) db =
     on_success (revoke_certification E now actor reason db) (\<lambda>db'. db') db"
| "results_step E order places (Board q) db = on_success (life_step E q db) (\<lambda>db'. db') db"

text \<open>A certification by somebody other than the person who tallied, of an official result on record.\<close>

definition second_person :: "election_result list \<Rightarrow> certification \<Rightarrow> bool" where
  "second_person rows c \<longleftrightarrow>
     (ce_certified_by c \<noteq> None \<and> (ce_tallied_by c \<in> {None, Some 0} \<or> ce_certified_by c \<noteq> ce_tallied_by c))
     \<and> (\<exists>r\<in>set rows. er_id r = ce_result c \<and> er_kind r = OFFICIAL \<and> er_tallied_by r = ce_tallied_by c
          \<and> field (ce_payload c) ''result_hash'' = JStr (er_hash r))"

definition certified_ok :: "election_db \<Rightarrow> bool" where
  "certified_ok db \<longleftrightarrow> ev_dual_approval (db_event db) \<and> (\<forall>c\<in>set (db_certifications db). second_person (db_results db) c)"

text \<open>Results are only added and marked: their kind, hash and author stay.\<close>

definition same_result :: "election_result \<Rightarrow> election_result \<Rightarrow> bool" where
  "same_result r q \<longleftrightarrow> er_id q = er_id r \<and> er_kind q = er_kind r \<and> er_tallied_by q = er_tallied_by r \<and> er_hash q = er_hash r"

definition results_kept :: "election_result list \<Rightarrow> election_result list \<Rightarrow> bool" where
  "results_kept rows rows' \<longleftrightarrow> (\<forall>r\<in>set rows. \<exists>q\<in>set rows'. same_result r q)"

lemma second_person_kept: "results_kept rows rows' \<Longrightarrow> second_person rows c \<Longrightarrow> second_person rows' c"
  unfolding second_person_def results_kept_def same_result_def by metis

lemma results_kept_refl [simp]: "results_kept rows rows"
  by (auto simp: results_kept_def same_result_def)

lemma results_kept_append: "results_kept rows rows' \<Longrightarrow> results_kept rows (rows' @ new_rows)"
  by (fastforce simp: results_kept_def)

lemma results_kept_update:
  assumes "\<And>r. same_result r (f r)"
  shows "results_kept rows (update_where P f rows)"
  unfolding results_kept_def
proof
  fix r
  assume "r \<in> set rows"
  with assms show "\<exists>q\<in>set (update_where P f rows). same_result r q"
    by (intro bexI [of _ "if P r then f r else r"]) (auto simp: same_result_def in_update_where)
qed

lemma same_result_update [simp]:
  "same_result r (r\<lparr>er_status := s\<rparr>)"
  "same_result r (r\<lparr>er_status := s, er_reviewed_by := b, er_reviewed_at := t, er_notes := n\<rparr>)"
  by (simp_all add: same_result_def)

lemma run_effect_dual:
  "run_effect E now actor f db = Inr db' \<Longrightarrow> ev_dual_approval (db_event db') = ev_dual_approval (db_event db)"
  by (cases f)
    (auto simp: open_event_def close_event_def Let_def split: if_splits sum.splits dest: ensure_key_keeps snapshot_fields(2-))

lemma transition_dual:
  assumes "transition E now name actor reason system extra skip db = Inr db'"
    and "\<And>ev. ev_dual_approval (extra ev) = ev_dual_approval ev"
  shows "ev_dual_approval (db_event db') = ev_dual_approval (db_event db)"
  using transition_Inr [OF assms(1)] assms(2)
  by (auto simp: apply_effect_def Let_def dest!: pass_guard_keeps run_effect_dual split: option.splits)

lemma plain_transition_keeps: "transition E now name actor reason system (\<lambda>ev. ev) skip db = Inr db' \<Longrightarrow>
    ev_dual_approval (db_event db') = ev_dual_approval (db_event db)
    \<and> db_certifications db' = db_certifications db \<and> db_results db' = db_results db"
  by (simp add: transition_dual transition_keeps(4,5))

lemma life_dual: "life_step E q db = Inr db' \<Longrightarrow> ev_dual_approval (db_event db') = ev_dual_approval (db_event db)
    \<and> db_certifications db' = db_certifications db \<and> db_results db' = db_results db"
  by (cases q)
    (auto simp: require_editable_def tick_def Let_def split: sum.splits edit_verdict.splits if_splits dest!: plain_transition_keeps)

lemma store_result_keeps:
  assumes "store_result E now kind actor data db = (r, db')"
  shows "db_event db' = db_event db" "db_certifications db' = db_certifications db" "results_kept (db_results db) (db_results db')"
  using assms
  by (auto simp: store_result_def Let_def wipe_submitted_shares_def split: if_splits
      intro!: results_kept_append results_kept_update)

lemma run_tally_keeps:
  "ev_dual_approval (db_event (snd (run_tally E order places now actor kind system db))) = ev_dual_approval (db_event db)
    \<and> db_certifications (snd (run_tally E order places now actor kind system db)) = db_certifications db
    \<and> results_kept (db_results db) (db_results (snd (run_tally E order places now actor kind system db)))"
proof -
  have count: "db_event (snd (count_and_store E order places now kind actor d)) = db_event d
      \<and> db_certifications (snd (count_and_store E order places now kind actor d)) = db_certifications d
      \<and> results_kept (db_results d) (db_results (snd (count_and_store E order places now kind actor d)))" for d
    by (auto simp: count_and_store_def dest: store_result_keeps split: sum.splits prod.splits)
  have enter: "ev_dual_approval (db_event d) = ev_dual_approval (db_event db)
      \<and> db_certifications d = db_certifications db \<and> db_results d = db_results db"
    if "enter_tally E now actor system db = Inr d" for d
    using that by (auto simp: enter_tally_def split: sum.splits if_splits dest!: plain_transition_keeps)
  show ?thesis
  proof (cases "kind = OFFICIAL")
    case True
    show ?thesis
    proof (cases "enter_tally E now actor system db")
      case (Inl e)
      with True show ?thesis by (simp add: run_tally_def)
    next
      case (Inr d)
      with True count [of d] enter [OF Inr] show ?thesis by (simp add: run_tally_def)
    qed
  qed (use count [of db] in \<open>simp add: run_tally_def\<close>)
qed

lemma approve_Inr:
  assumes "approve_and_certify E now r reviewer notes db = Inr (c, db')"
  shows "may_certify r reviewer db = Inr ()" "signed_certification E now r reviewer db = Inr c"
    "\<exists>db1 n. transition E now ''certify'' (Some reviewer) (if notes = [] then ''Results certified'' else notes) False
        (\<lambda>ev. ev\<lparr>ev_certified_at := Some now\<rparr>) False
        (update_result (er_id r) (\<lambda>x. x\<lparr>er_status := RESULT_APPROVED, er_reviewed_by := Some (us_id reviewer),
           er_reviewed_at := Some now, er_notes := notes\<rparr>) db\<lparr>db_certifications := db_certifications db @ [c]\<rparr>) = Inr db1
      \<and> db' = log_note n db1"
  using assms by (auto simp: approve_and_certify_def Let_def update_result_def split: sum.splits)

lemma signed_fields:
  assumes "signed_certification E now r reviewer db = Inr c"
  shows "ce_result c = er_id r" "ce_tallied_by c = er_tallied_by r" "ce_certified_by c = Some (us_id reviewer)"
    "ce_payload c = certification_payload E now r db" "ce_certified_at c = now" "ce_revoked_at c = None"
    "sign (en_crypto E) (en_config E) (canonical_json (float_repr (en_crypto E)) (ce_payload c)) = Inr (ce_signature c)"
    "public_key_b64 (en_crypto E) (en_config E) = Inr (ce_public c)"
  using assms by (auto simp: signed_certification_def Let_def split: sum.splits)

lemma payload_fields:
  "field (certification_payload E now r db) ''result_hash'' = JStr (er_hash r)"
  "field (certification_payload E now r db) ''bulletin_root'' = JStr (er_root r)"
  "field (certification_payload E now r db) ''config_hash'' = JStr (case latest_snapshot db of Some s \<Rightarrow> sn_hash s | None \<Rightarrow> [])"
  by (simp_all add: certification_payload_def js_get_def)

lemma approve_certified:
  assumes "certified_ok db" and "result_by_id i db = Some r" and "approve_and_certify E now r reviewer notes db = Inr (c, db')"
  shows "certified_ok db'"
proof -
  note a = approve_Inr [OF assms(3)]
  from assms(2) have r: "r \<in> set (db_results db)" unfolding result_by_id_def by (auto dest: first_where_Some)
  from a(3) obtain d n where d: "transition E now ''certify'' (Some reviewer) (if notes = [] then ''Results certified'' else notes) False
        (\<lambda>ev. ev\<lparr>ev_certified_at := Some now\<rparr>) False
        (update_result (er_id r) (\<lambda>x. x\<lparr>er_status := RESULT_APPROVED, er_reviewed_by := Some (us_id reviewer),
           er_reviewed_at := Some now, er_notes := notes\<rparr>) db\<lparr>db_certifications := db_certifications db @ [c]\<rparr>) = Inr d"
      "db' = log_note n d" by blast
  have db': "ev_dual_approval (db_event db') = ev_dual_approval (db_event db)"
    "db_certifications db' = db_certifications db @ [c]"
    "db_results db' = update_where (\<lambda>x. er_id x = er_id r) (\<lambda>x. x\<lparr>er_status := RESULT_APPROVED, er_reviewed_by := Some (us_id reviewer),
           er_reviewed_at := Some now, er_notes := notes\<rparr>) (db_results db)"
    using transition_keeps(4,5) [OF d(1)] transition_dual [OF d(1)] d(2) by (simp_all add: update_result_def)
  have kept: "results_kept (db_results db) (db_results db')" unfolding db' by (rule results_kept_update) simp
  with r obtain q where q: "q \<in> set (db_results db')" "same_result r q" by (auto simp: results_kept_def)
  from a(1) have "er_kind r = OFFICIAL" "ev_dual_approval (db_event db) \<longrightarrow> er_tallied_by r \<noteq> Some (us_id reviewer) \<or> us_id reviewer = 0"
    by (auto simp: may_certify_def split: sum.splits if_splits)
  with q signed_fields [OF a(2)] assms(1) have "second_person (db_results db') c"
    by (auto simp: second_person_def same_result_def certified_ok_def payload_fields intro!: bexI [of _ q])
  moreover have "second_person (db_results db') x" if "x \<in> set (db_certifications db)" for x
    using second_person_kept [OF kept] that assms(1) by (simp add: certified_ok_def)
  ultimately show ?thesis using assms(1) db' by (simp add: certified_ok_def)
qed

lemma revoke_Inr:
  assumes "revoke_certification E now actor reason db = Inr db'"
  shows "\<exists>c. current_certification db = Some c \<and> ev_dual_approval (db_event db') = ev_dual_approval (db_event db)
    \<and> db_certifications db' = update_where (\<lambda>x. ce_id x = ce_id c)
         (\<lambda>x. x\<lparr>ce_revoked_at := Some now, ce_revoked_reason := reason\<rparr>) (db_certifications db)
    \<and> results_kept (db_results db) (db_results db')"
  using assms
  by (auto simp: revoke_certification_def Let_def update_result_def split: option.splits sum.splits
      dest!: plain_transition_keeps intro!: results_kept_update)

lemma reject_Inr:
  assumes "reject_result now r reviewer notes db = Inr db'"
  shows "db_event db' = db_event db" "db_certifications db' = db_certifications db" "results_kept (db_results db) (db_results db')"
  using assms
  by (auto simp: reject_result_def Let_def update_result_def split: if_splits sum.splits intro!: results_kept_update)

lemma step_certified:
  assumes "certified_ok db"
  shows "certified_ok (results_step E order places q db)"
proof -
  have keep: "certified_ok db'"
    if "ev_dual_approval (db_event db') = ev_dual_approval (db_event db)" "db_certifications db' = db_certifications db"
      "results_kept (db_results db) (db_results db')" for db'
    using that assms second_person_kept by (auto simp: certified_ok_def)
  show ?thesis
  proof (cases q)
    case (Tally now actor kind system)
    with run_tally_keeps [of E order places now actor kind system db] show ?thesis by (auto intro: keep)
  next
    case (Certify now i reviewer remark)
    with assms approve_certified show ?thesis by (auto simp: on_success_def split: option.split sum.split)
  next
    case (Reject now i reviewer remark)
    with assms reject_Inr show ?thesis
      by (auto simp: on_success_def split: option.split sum.split intro!: keep)
  next
    case (Decertify now actor reason)
    show ?thesis
    proof (cases "revoke_certification E now actor reason db")
      case (Inl e)
      with Decertify assms show ?thesis by (simp add: on_success_def)
    next
      case (Inr db')
      from revoke_Inr [OF Inr] obtain c :: certification where d: "ev_dual_approval (db_event db') = ev_dual_approval (db_event db)"
        "db_certifications db' = update_where (\<lambda>x. ce_id x = ce_id c)
           (\<lambda>x. x\<lparr>ce_revoked_at := Some now, ce_revoked_reason := reason\<rparr>) (db_certifications db)"
        "results_kept (db_results db) (db_results db')" by blast
      have "second_person (db_results db') x" if "x \<in> set (db_certifications db')" for x
      proof -
        from that d(2) obtain y where y: "y \<in> set (db_certifications db)" "x = y \<or> x = y\<lparr>ce_revoked_at := Some now, ce_revoked_reason := reason\<rparr>"
          by (auto simp: in_update_where split: if_splits)
        with second_person_kept [OF d(3)] assms have "second_person (db_results db') y" by (simp add: certified_ok_def)
        with y(2) show ?thesis by (auto simp: second_person_def)
      qed
      with Decertify Inr d(1) assms show ?thesis by (simp add: on_success_def certified_ok_def)
    qed
  next
    case (Board q)
    with assms life_dual show ?thesis by (fastforce simp: on_success_def split: sum.split intro: keep)
  qed
qed

text \<open>
  Results are certified by a second person: in an election with dual approval, after any
  sequence of tallies, certifications, rejections, decertifications and lifecycle requests,
  every certification ever made was signed by somebody other than the person who tallied
  the result, and its payload carries the hash of an official result on record.
\<close>

theorem certified_by_second_person:
  assumes "ev_dual_approval (db_event db)" and "db_certifications db = []"
    and "db' = fold (results_step E order places) qs db" and "c \<in> set (db_certifications db')"
  shows "ce_certified_by c \<noteq> None \<and> (ce_tallied_by c \<in> {None, Some 0} \<or> ce_certified_by c \<noteq> ce_tallied_by c)
    \<and> (\<exists>r\<in>set (db_results db'). er_id r = ce_result c \<and> er_kind r = OFFICIAL \<and> er_tallied_by r = ce_tallied_by c
         \<and> field (ce_payload c) ''result_hash'' = JStr (er_hash r))"
proof -
  have "certified_ok d \<Longrightarrow> certified_ok (fold (results_step E order places) qs d)" for d
    by (induction qs arbitrary: d) (simp_all add: step_certified)
  from this [of db] assms have "certified_ok db'" by (simp add: certified_ok_def)
  with assms(4) have "second_person (db_results db') c" by (simp add: certified_ok_def)
  then show ?thesis by (simp add: second_person_def)
qed

end
