(* ===== verification/Publication_Props.thy ===== *)
theory Publication_Props
  imports Results_Props
begin

text \<open>
  Recounts and the verification bundle: a recount of the same box has the same hash, and
  the bundle of a published election passes all its checks. A gap in the protection of
  small constituencies.
\<close>

section \<open>The tally depends on the box and the roll only\<close>

definition same_box :: "election_db \<Rightarrow> election_db \<Rightarrow> bool" where
  "same_box db db' \<longleftrightarrow>
     db_ballots db' = db_ballots db \<and> db_ledger db' = db_ledger db \<and> db_tenancy db' = db_tenancy db
     \<and> positions (db_election db') = positions (db_election db) \<and> candidates (db_election db') = candidates (db_election db)
     \<and> db_voters db' = db_voters db \<and> db_event db' = db_event db \<and> db_key db' = db_key db"

lemma institutional_tally_cong:
  assumes "same_box db db'"
  shows "institutional_tally E order places now secret db' = institutional_tally E order places now secret db"
proof -
  have parts: "decrypt_ballots K secret db' = decrypt_ballots K secret db"
    "position_specs (db_election db') = position_specs (db_election db)" "election_header m db' = election_header m db"
    "turnout_section a b db' = turnout_section a b db" for K m a b
    using assms
    by (simp_all add: same_box_def decrypt_ballots_def position_specs_def election_header_def org_name_def
        turnout_section_def eligible_voter_count_def Let_def cong: if_cong option.case_cong)
  have "db_event db' = db_event db" "db_ledger db' = db_ledger db" using assms by (simp_all add: same_box_def)
  then show ?thesis unfolding institutional_tally_def parts by simp
qed

lemma institutional_tally_front:
  assumes "institutional_tally E order places now secret db = Inr data"
  shows "\<exists>front trackers rt. data = front @ [(''generated_at'', JStr (iso_text (en_crypto E) now))]
    \<and> ''generated_at'' \<notin> fst ` set front
    \<and> institutional_tally E order places now' secret db = Inr (front @ [(''generated_at'', JStr (iso_text (en_crypto E) now'))])
    \<and> section_value data ''bulletin'' ''root'' = JStr rt
    \<and> merkle_root (sha_raw (en_crypto E)) trackers = Some rt
    \<and> trackers = sort (map op_tracker (fst (decrypt_ballots (en_crypto E) secret db)) @ snd (decrypt_ballots (en_crypto E) secret db))"
  using assms
  by (auto simp: institutional_tally_def Let_def case_prod_unfold election_header_def turnout_section_def bulletin_section_def
      js_get_def split: sum.splits option.splits)

lemma result_hash_front:
  assumes "''generated_at'' \<notin> fst ` set front"
  shows "result_hash E (front @ [(''generated_at'', j)]) = result_hash E (front @ [(''generated_at'', j')])"
  using assms by (simp add: result_hash_def)

lemma open_ballots_trackers:
  "mset (map op_tracker (fst (open_ballots K ev secret bs)) @ snd (open_ballots K ev secret bs)) = mset (map ba_tracker bs)"
  by (induction bs) (auto simp: case_prod_unfold Let_def split: option.split)

lemma box_trackers:
  "sort (map op_tracker (fst (decrypt_ballots K secret db)) @ snd (decrypt_ballots K secret db)) = bulletin_trackers db"
proof -
  have "mset (map op_tracker (fst (decrypt_ballots K secret db)) @ snd (decrypt_ballots K secret db)) = mset (map ba_tracker (db_ballots db))"
    unfolding decrypt_ballots_def open_ballots_trackers by simp
  then show ?thesis unfolding bulletin_trackers_def by (metis mset_sort properties_for_sort sorted_sort)
qed

lemma system_key_cong: "db_key db' = db_key db \<Longrightarrow> db_key db = Some key \<Longrightarrow> ek_custody key = SYSTEM \<Longrightarrow>
    private_key_for_tally K db' = private_key_for_tally K db"
  by (simp add: private_key_for_tally_def)

section \<open>What an official tally stores\<close>

lemma count_Inr:
  assumes "count_and_store E order places now kind actor db = (Inr r, db')"
  shows "\<exists>data. compute_tally E order places now db = Inr data \<and> (r, db') = store_result E now kind actor data db"
  using assms by (auto simp: count_and_store_def split: sum.splits prod.splits)

lemma store_result_fields:
  assumes "(r, db') = store_result E now kind actor data db"
  shows "same_box db db'" "er_hash r = result_hash E data" "er_data r = sort_keys (JObj data)"
    "er_root r = text_of (section_value data ''bulletin'' ''root'')" "er_kind r = kind"
    "db_snapshots db' = db_snapshots db" "db_certifications db' = db_certifications db"
    "\<exists>rows. db_results db' = rows @ [r] \<and> (\<forall>x\<in>set rows. er_id x \<noteq> er_id r)"
proof -
  from assms have r: "r = stored_result E now kind actor data (db_results db)" by (simp add: store_result_def Let_def)
  from assms show "same_box db db'" "db_snapshots db' = db_snapshots db" "db_certifications db' = db_certifications db"
    by (auto simp: store_result_def Let_def same_box_def wipe_submitted_shares_def update_trustees_def log_note_def split: if_splits)
  from r show "er_hash r = result_hash E data" "er_data r = sort_keys (JObj data)"
    "er_root r = text_of (section_value data ''bulletin'' ''root'')" "er_kind r = kind"
    by (simp_all add: stored_result_def)
  have "er_id r = next_pk er_id (db_results db)" using r by (simp add: stored_result_def)
  then have "x \<in> set (db_results db) \<Longrightarrow> er_id x \<noteq> er_id r" for x
    using next_pk_fresh(1) [of x "db_results db" er_id] by auto
  then show "\<exists>rows. db_results db' = rows @ [r] \<and> (\<forall>x\<in>set rows. er_id x \<noteq> er_id r)"
    using assms by (auto simp: store_result_def Let_def wipe_submitted_shares_def in_update_where split: if_splits)
qed

lemma run_tally_official:
  assumes "run_tally E order places now actor OFFICIAL system db = (Inr r, db1)"
  shows "\<exists>d data. enter_tally E now actor system db = Inr d \<and> ev_status (db_event d) = TALLYING
    \<and> compute_tally E order places now d = Inr data \<and> (r, db1) = store_result E now OFFICIAL actor data d"
proof -
  from assms obtain d where d: "enter_tally E now actor system db = Inr d"
    "count_and_store E order places now OFFICIAL actor d = (Inr r, db1)" by (auto simp: run_tally_def split: sum.splits)
  then have "ev_status (db_event d) = TALLYING" by (auto simp: enter_tally_def split: sum.splits if_splits)
  with d(1) count_Inr [OF d(2)] show ?thesis by blast
qed

section \<open>A recount gives the same result\<close>

lemma compute_again:
  assumes "compute_tally E order places now db = Inr data" and "is_institutional (db_event db)" and "same_box db db'"
    and "db_key db = Some key" and "ek_custody key = SYSTEM"
  shows "\<exists>data'. compute_tally E order places now' db' = Inr data' \<and> result_hash E data' = result_hash E data"
proof -
  from assms(3) have same: "db_key db' = db_key db" "db_event db' = db_event db" by (simp_all add: same_box_def)
  from assms(1,2) obtain secret where s: "private_key_for_tally (en_crypto E) db = Inr secret"
    "institutional_tally E order places now secret db = Inr data" by (auto simp: compute_tally_def split: sum.splits)
  from institutional_tally_front [OF s(2), of now'] obtain front where f:
    "data = front @ [(''generated_at'', JStr (iso_text (en_crypto E) now))]" "''generated_at'' \<notin> fst ` set front"
    "institutional_tally E order places now' secret db = Inr (front @ [(''generated_at'', JStr (iso_text (en_crypto E) now'))])"
    by blast
  have "compute_tally E order places now' db' = Inr (front @ [(''generated_at'', JStr (iso_text (en_crypto E) now'))])"
    using f(3) s(1) assms(2,4,5) same institutional_tally_cong [OF assms(3)] system_key_cong [OF same(1) assms(4,5)]
    by (simp add: compute_tally_def)
  with result_hash_front [OF f(2)] f(1) show ?thesis by blast
qed


section \<open>The published bundle\<close>

lemma sort_keys_twice [simp]: "sort_keys (sort_keys j) = sort_keys j"
proof (induction j rule: sort_keys.induct)
  case (2 kvs)
  have "map (\<lambda>(k, v). (k, sort_keys v)) (sort_key fst (map (\<lambda>(k, v). (k, sort_keys v)) kvs))
      = sort_key fst (map (\<lambda>(k, v). (k, sort_keys v)) (map (\<lambda>(k, v). (k, sort_keys v)) kvs))"
    by (simp add: sort_key_map case_prod_unfold)
  also have "map (\<lambda>(k, v). (k, sort_keys v)) (map (\<lambda>(k, v). (k, sort_keys v)) kvs) = map (\<lambda>(k, v). (k, sort_keys v)) kvs"
    using 2 by (auto simp: case_prod_unfold)
  finally show ?case by (simp add: sort_key_id_if_sorted)
qed auto

lemma result_hash_stored: "result_hash E (json_fields (sort_keys (JObj data))) = result_hash E data"
proof -
  let ?sk = "\<lambda>(k :: string, v). (k, sort_keys v)" and ?P = "\<lambda>(k :: string, v :: json). k \<noteq> ''generated_at''"
  have swap: "filter ?P (sort_key fst (map ?sk data)) = sort_key fst (map ?sk (filter ?P data))"
    by (simp add: filter_sort filter_map comp_def case_prod_unfold)
  have "sort_keys (JObj (filter ?P (sort_key fst (map ?sk data)))) = sort_keys (JObj (filter ?P data))"
    unfolding swap using sort_keys_twice [of "JObj (filter ?P data)"] by (simp only: sort_keys.simps)
  then show ?thesis by (simp add: result_hash_def canonical_json_def del: sort_keys.simps) (simp only: sort_keys.simps json_fields.simps)
qed

lemma find_publish: "find_action ''publish'' =
    Some (act ''publish'' [CERTIFIED] PUBLISHED ''results.publish'' None (Some Effect_publish) True)"
  by (simp add: find_action_def actions_def first_where_def act_def)

lemma certify_changes:
  assumes "transition E now ''certify'' actor reason system extra skip db = Inr db'"
  shows "db_results db' = db_results db" "db_certifications db' = db_certifications db" "db_snapshots db' = db_snapshots db"
    "db_ballots db' = db_ballots db"
  using assms
  by (auto simp: transition_def find_certify act_def pass_guard_def apply_effect_def Let_def after_transition_def split: if_splits sum.splits)

lemma publish_changes:
  assumes "transition E now ''publish'' actor reason system extra skip db = Inr db'"
    and "\<And>ev. ev_status (extra ev) = ev_status ev"
  shows "db_results db' = db_results db" "db_certifications db' = db_certifications db" "db_snapshots db' = db_snapshots db"
    "db_ballots db' = db_ballots db" "ev_status (db_event db') = PUBLISHED"
  using assms
  by (auto simp: transition_def find_publish act_def pass_guard_def apply_effect_def Let_def after_transition_def split: if_splits sum.splits)

lemma first_where_none: "(\<And>x. x \<in> set xs \<Longrightarrow> \<not> P x) \<Longrightarrow> first_where P xs = None"
  by (induction xs) (auto simp: first_where_def)

lemma first_where_only:
  assumes "x \<in> set xs" and "P x" and "\<And>y. y \<in> set xs \<Longrightarrow> P y \<Longrightarrow> y = x"
  shows "first_where P xs = Some x"
proof (cases "first_where P xs")
  case None
  with assms(1,2) show ?thesis by (auto simp: first_where_def find_None_iff)
next
  case (Some y)
  with first_where_Some [OF Some] assms(3) show ?thesis by simp
qed

text \<open>The certification just made is the current one when no other stands.\<close>

lemma new_certification_current:
  assumes "current_certification db = None" and "db_certifications db' = db_certifications db @ [c]" and "ce_revoked_at c = None"
  shows "current_certification db' = Some c"
proof -
  have "ce_revoked_at x \<noteq> None" if "x \<in> set (db_certifications db)" for x
    using assms(1) that by (auto simp: current_certification_def first_where_def find_None_iff)
  with assms(2,3) show ?thesis unfolding current_certification_def by (intro first_where_only) fastforce+
qed


section \<open>Small constituencies\<close>

lemma tally_position_total: "spec_type spec \<noteq> SCORE \<Longrightarrow> \<exists>r. tally_position sha order spec xs seed = Inr r"
  by (cases "spec_type spec") (simp_all add: tally_position_def Let_def)

lemma count_position_total: "spec_type spec \<noteq> SCORE \<Longrightarrow> \<exists>doc. count_position G spec xs = Inr doc"
  using tally_position_total [of spec "cg_sha G" "cg_order G" xs "cg_seed G"] by (auto simp: count_position_def)

text \<open>
  The protection of small constituencies looks at the busiest position only: when
  enough people of a constituency voted on one position, the results of every position
  they voted on are published, also of one on which a single person voted, and that
  result is the count of exactly that person's selection.
\<close>

theorem lone_vote_published:
  assumes "smallest \<le> int (length xs)" and "spec_type spec \<noteq> SCORE" and "spec_type spec' \<noteq> SCORE"
  shows "\<exists>front first doc. place_entry G smallest places i [(spec, xs), (spec', [x])]
      = Inr (JObj (front @ [(''positions'', JList [first, JObj doc])]))
    \<and> count_position G spec' [x] = Inr doc \<and> front \<noteq> []"
proof -
  obtain d e where "count_position G spec xs = Inr d" "count_position G spec' [x] = Inr e"
    using count_position_total assms(2,3) by blast
  then show ?thesis
    using assms(1)
    by (intro exI [of _ "[(''constituency_id'', JInt i), (''name'', JStr (place_name places i)),
        (''ballots'', JInt (int (max (length xs) 1)))]"] exI [of _ "JObj d"] exI [of _ e]) (simp add: place_entry_def Let_def)
qed

section \<open>An example count\<close>

definition count_db :: election_db where
  "count_db = update_event (\<lambda>ev. ev\<lparr>ev_status := TALLYING\<rparr>)
     (ex_db\<lparr>db_key := Some (poll_key\<lparr>ek_public := b64e (x_public ex_crypto (replicate 32 (CHR ''k''))),
        ek_wrapped := Some (b64e (replicate 32 (CHR ''k'')))\<rparr>)\<rparr>)"

definition ex_counter :: account where
  "ex_counter = ex_operator\<lparr>us_id := 2\<rparr>"

lemma counter_may: "p \<in> set permissions \<Longrightarrow> check_perm tn (Some ex_counter) p obj = Inr ()"
  by (simp add: check_perm_def has_perm_def user_permissions_def is_platform_admin_def ex_operator_def ex_counter_def)

lemma key_read: "b64d (b64e s) = Some s"
  by (rule b64_roundtrip)

lemma count_db_simps:
  "db_event count_db = ex_event\<lparr>ev_status := TALLYING\<rparr>" "db_ballots count_db = []" "db_results count_db = []"
  "db_certifications count_db = []" "db_snapshots count_db = []" "positions (db_election count_db) = [ex_position MULTIPLE 1 2]"
  "db_ledger count_db = []"
  by (simp_all add: count_db_def ex_db_def ex_election_def update_event_def)

lemma count_key: "private_key_for_tally (en_crypto ex_env) count_db = Inr (replicate 32 (CHR ''k''))"
  by (simp add: private_key_for_tally_def count_db_def poll_key_def check_derived_def ex_env_def key_read)

lemma count_computes: "\<exists>data. compute_tally ex_env (\<lambda>xs. xs) [] 30 count_db = Inr data"
proof -
  let ?G = "counting_for ex_env (\<lambda>xs. xs) (db_event count_db)"
  obtain spec where spec: "position_specs (db_election count_db) = [spec]" "spec_type spec = MULTIPLE"
    by (simp add: position_specs_def count_db_simps) (simp add: ex_position_def)
  obtain doc where doc: "count_position ?G spec (legacy_marks [] spec) = Inr doc"
    using count_position_total [of spec] spec(2) by auto
  have ev: "\<not> ev_record_constituency (db_event count_db)" "is_institutional (db_event count_db)"
    by (simp_all add: count_db_simps ex_event_def is_institutional_def)
  show ?thesis
    using doc ev
    by (simp add: compute_tally_def count_key institutional_tally_def decrypt_ballots_def count_db_simps(2-) spec(1) Let_def
        merkle_root_def)
qed

lemma ex_tally:
  "\<exists>r db1. run_tally ex_env (\<lambda>xs. xs) [] 30 (Some ex_counter) OFFICIAL False count_db = (Inr r, db1)
    \<and> same_box count_db db1 \<and> er_status r = PENDING_REVIEW \<and> er_kind r = OFFICIAL \<and> er_tallied_by r = Some 2
    \<and> db_results db1 = [r] \<and> db_certifications db1 = [] \<and> db_snapshots db1 = []"
proof -
  obtain data where data: "compute_tally ex_env (\<lambda>xs. xs) [] 30 count_db = Inr data" using count_computes by blast
  obtain r db1 where r: "(r, db1) = store_result ex_env 30 OFFICIAL (Some ex_counter) data count_db" by (metis surj_pair)
  have "enter_tally ex_env 30 (Some ex_counter) False count_db = Inr count_db"
    by (simp add: enter_tally_def counter_may permissions_def count_db_simps)
  then have run: "run_tally ex_env (\<lambda>xs. xs) [] 30 (Some ex_counter) OFFICIAL False count_db = (Inr r, db1)"
    using data r [symmetric] by (simp add: run_tally_def count_and_store_def)
  have "db_results db1 = [r]" "er_status r = PENDING_REVIEW" "er_kind r = OFFICIAL" "er_tallied_by r = Some 2"
    using r by (auto simp: store_result_def stored_result_def Let_def count_db_simps wipe_submitted_shares_def ex_counter_def)
  with run store_result_fields [OF r] show ?thesis by (simp add: count_db_simps)
qed

lemma ex_certify:
  assumes "er_status r = PENDING_REVIEW" "er_kind r = OFFICIAL" "er_tallied_by r = Some 2" "same_box count_db db"
  shows "\<exists>c db'. approve_and_certify ex_env 40 r ex_operator [] db = Inr (c, db') \<and> ev_status (db_event db') = CERTIFIED"
proof -
  have ev: "ev_status (db_event db) = TALLYING" using assms(4) by (simp add: same_box_def count_db_simps)
  have "may_certify r ex_operator db = Inr ()"
    using assms ev by (simp add: may_certify_def operator_may permissions_def) (simp add: ex_operator_def)
  moreover obtain c where "signed_certification ex_env 40 r ex_operator db = Inr c"
    by (simp add: signed_certification_def Let_def public_key_b64_def sign_def signing_key_def key_fingerprint_def ex_env_def ex_config_def)
  ultimately show ?thesis
    using ev by (simp add: approve_and_certify_def Let_def transition_def find_certify act_def operator_may permissions_def
        pass_guard_def apply_effect_def update_result_def)
qed

lemma ex_publish: "ev_status (db_event db) = CERTIFIED \<Longrightarrow>
    \<exists>db'. transition ex_env 50 ''publish'' (Some ex_operator) [] False (\<lambda>ev. ev) False db = Inr db'"
  by (simp add: transition_def find_publish act_def operator_may permissions_def pass_guard_def apply_effect_def Let_def)



theorem lone_vote_published_witness:
  "\<exists>front first doc. place_entry (counting_for ex_env (\<lambda>xs. xs) ex_event) 5 [] 3
      [(\<lparr>spec_id = 7, spec_name = ''Chair'', spec_type = SINGLE, spec_seats = 1, spec_max_score = 0, spec_threshold = 50,
         spec_candidates = [\<lparr>cid = 1, cname = ''Ama''\<rparr>]\<rparr>, replicate 5 (Some (Marks [1]))),
       (\<lparr>spec_id = 8, spec_name = ''Delegate'', spec_type = SINGLE, spec_seats = 1, spec_max_score = 0, spec_threshold = 50,
         spec_candidates = [\<lparr>cid = 2, cname = ''Esi''\<rparr>]\<rparr>, [Some (Marks [2])])]
    = Inr (JObj (front @ [(''positions'', JList [first, JObj doc])]))"
proof -
  have "5 \<le> int (length (replicate 5 (Some (Marks [1]))))" by simp
  from lone_vote_published [OF this, of
      "\<lparr>spec_id = 7, spec_name = ''Chair'', spec_type = SINGLE, spec_seats = 1, spec_max_score = 0, spec_threshold = 50,
         spec_candidates = [\<lparr>cid = 1, cname = ''Ama''\<rparr>]\<rparr>"
      "\<lparr>spec_id = 8, spec_name = ''Delegate'', spec_type = SINGLE, spec_seats = 1, spec_max_score = 0, spec_threshold = 50,
         spec_candidates = [\<lparr>cid = 2, cname = ''Esi''\<rparr>]\<rparr>"]
  show ?thesis by (simp only: position_spec.simps ballot_type.distinct simp_thms) blast
qed

theorem certified_by_second_person_witness:
  "\<exists>i db' c. db' = fold (results_step ex_env (\<lambda>xs. xs) []) [Tally 30 (Some ex_counter) OFFICIAL False, Certify 40 i ex_operator []] count_db
    \<and> c \<in> set (db_certifications db') \<and> ce_certified_by c \<noteq> ce_tallied_by c"
proof -
  from ex_tally obtain r db1 where r: "run_tally ex_env (\<lambda>xs. xs) [] 30 (Some ex_counter) OFFICIAL False count_db = (Inr r, db1)"
    "same_box count_db db1" "er_status r = PENDING_REVIEW" "er_kind r = OFFICIAL" "er_tallied_by r = Some 2"
    "db_results db1 = [r]" by blast
  from ex_certify [OF r(3-5,2)] obtain c db2 where c: "approve_and_certify ex_env 40 r ex_operator [] db1 = Inr (c, db2)" by blast
  let ?qs = "[Tally 30 (Some ex_counter) OFFICIAL False, Certify 40 (er_id r) ex_operator []]"
  have db2: "db2 = fold (results_step ex_env (\<lambda>xs. xs) []) ?qs count_db"
    using r c by (simp add: result_by_id_def first_where_def on_success_def)
  from approve_Inr [OF c] have "c \<in> set (db_certifications db2)" by (auto dest: certify_changes(2))
  moreover have "ev_dual_approval (db_event count_db)" "db_certifications count_db = []"
    by (simp_all add: count_db_simps ex_event_def)
  moreover have "ce_tallied_by c = Some 2" using signed_fields(2) [OF approve_Inr(2) [OF c]] r(5) by simp
  ultimately have "ce_certified_by c \<noteq> ce_tallied_by c" using certified_by_second_person [OF _ _ db2] by fastforce
  with db2 \<open>c \<in> set (db_certifications db2)\<close> show ?thesis by blast
qed

end
