(* ===== verification/Pay_Model.thy ===== *)
theory Pay_Model
  imports Request_Guards Voters Json_Read
begin

text \<open>
  The rows of paid voting: payments/models.py, fraud/models.py and \<open>TicketPurchase\<close> of
  voting/models.py, and the state the payment components share.

  A payment is known by its reference, a refund and a fraud alert by its number. The
  payments are those of one election (\<open>py_event\<close> is its id) and of subscription invoices
  (\<open>py_event\<close> is None). Amounts are exact decimals, times microseconds. Of a payment's
  history the messages and the copied gateway data are left out. The database of the
  election (with the vote ledger and the audit entries) and the billing tables are part of
  the state, because payments credit votes and settle invoices.
\<close>

section \<open>Rows\<close>

datatype pay_status =
    PAY_INITIALIZED | PAY_PENDING | PAY_SUCCESS | PAY_FAILED | PAY_ABANDONED | PAY_REVERSED | PAY_REFUNDED
  | PAY_PARTIALLY_REFUNDED | PAY_DISPUTED

datatype pay_purpose = VOTE | INVOICE

record payment =
  py_ref :: string
  py_key :: "string option"
  py_purpose :: pay_purpose
  py_event :: "int option"
  py_candidate :: "int option"
  py_package :: "int option"
  py_discount :: "string option"
  py_invoice :: "string option"
  py_votes :: int
  py_bonus :: int
  py_unit :: rat
  py_gross :: rat
  py_discount_amount :: rat
  py_amount :: rat
  py_currency :: string
  py_email :: string
  py_email_index :: string
  py_phone :: string
  py_phone_index :: string
  py_name :: string
  py_channel :: string
  py_status :: pay_status
  py_gateway_status :: string
  py_gateway_id :: string
  py_url :: string
  py_access_code :: string
  py_card :: string
  py_country :: string
  py_last4 :: string
  py_brand :: string
  py_bank :: string
  py_gateway_ip :: "string option"
  py_fees :: "rat option"
  py_paid_at :: "int option"
  py_risk :: "int option"
  py_decision :: string
  py_held :: bool
  py_hold_reason :: string
  py_ip :: "string option"
  py_device :: string
  py_user_agent :: string
  py_verified_at :: "int option"
  py_credited_at :: "int option"
  py_credited :: bool
  py_refunded :: rat
  py_created :: int

definition py_total :: "payment \<Rightarrow> int" where
  "py_total p = py_votes p + py_bonus p"

text \<open>\<open>int((amount * 100).quantize(Decimal('1')))\<close>: \<open>quantize\<close> rounds half to even.\<close>

definition minor_units :: "rat \<Rightarrow> int" where
  "minor_units a = round_even (a * 100)"

definition amount_minor :: "payment \<Rightarrow> int" where
  "amount_minor p = minor_units (py_amount p)"

text \<open>The vote packages of the election are rows of Election_Model; this is \<open>VotePackage.is_available\<close>.\<close>

definition within_time :: "int \<Rightarrow> int option \<Rightarrow> int option \<Rightarrow> bool" where
  "within_time now starts ends \<longleftrightarrow>
     (case starts of Some t \<Rightarrow> t \<le> now | None \<Rightarrow> True) \<and> (case ends of Some t \<Rightarrow> now < t | None \<Rightarrow> True)"

definition package_available :: "int \<Rightarrow> vote_package \<Rightarrow> bool" where
  "package_available now k \<longleftrightarrow> vp_active k \<and> within_time now (vp_starts k) (vp_ends k)"

datatype discount_kind = PERCENT | FIXED | BONUS_VOTES

record discount_code =
  dc_org :: "int option"
  dc_event :: "int option"
  dc_code :: string
  dc_kind :: discount_kind
  dc_value :: rat
  dc_max :: "int option"
  dc_per_payer :: "int option"
  dc_min :: "rat option"
  dc_starts :: "int option"
  dc_ends :: "int option"
  dc_active :: bool
  dc_redemptions :: int

definition discount_available :: "int \<Rightarrow> discount_code \<Rightarrow> bool" where
  "discount_available now d \<longleftrightarrow>
     dc_active d \<and> within_time now (dc_starts d) (dc_ends d)
     \<and> (case dc_max d of Some n \<Rightarrow> dc_redemptions d < n | None \<Rightarrow> True)"

text \<open>An entry of the append-only history; an ignored transition has no statuses.\<close>

record payment_event =
  pe_payment :: string
  pe_from :: "pay_status option"
  pe_to :: "pay_status option"
  pe_source :: string
  pe_actor :: "int option"

datatype webhook_status = WH_RECEIVED | WH_PROCESSED | WH_IGNORED | WH_FAILED

record webhook_event =
  wh_hash :: string
  wh_type :: string
  wh_reference :: string
  wh_status :: webhook_status
  wh_attempts :: int
  wh_processed_at :: "int option"

datatype refund_status = RF_REQUESTED | RF_APPROVED | RF_PROCESSING | RF_PROCESSED | RF_FAILED | RF_REJECTED

record refund =
  rf_id :: int
  rf_payment :: string
  rf_amount :: rat
  rf_reason :: string
  rf_status :: refund_status
  rf_reverse :: bool
  rf_gateway_id :: string
  rf_requested_by :: int
  rf_approved_by :: "int option"
  rf_requested_at :: int
  rf_processed_at :: "int option"
  rf_error :: string

datatype ticket_status = TICKET_PENDING | TICKET_SUCCESS | TICKET_FAILED

record ticket_purchase =
  tp_reference :: string
  tp_price :: rat
  tp_quantity :: int
  tp_status :: ticket_status
  tp_purchased :: int

definition expected_amount :: "ticket_purchase \<Rightarrow> rat" where
  "expected_amount t = tp_price t * of_int (tp_quantity t)"

section \<open>Fraud alerts and block lists\<close>

datatype fraud_kind =
    FRAUD_PAYMENT | FRAUD_VOTE | FRAUD_VOTER_LOGIN | FRAUD_STAFF_LOGIN | FRAUD_REGISTRATION | FRAUD_ANOMALY | FRAUD_CHARGEBACK

datatype decision = ALLOW | MONITOR | CHALLENGE | HOLD

datatype alert_status = ALERT_OPEN | ALERT_CONFIRMED | ALERT_DISMISSED

record fraud_event =
  fe_id :: int
  fe_kind :: fraud_kind
  fe_decision :: decision
  fe_score :: int
  fe_signals :: "(string \<times> int) list"
  fe_event :: "int option"
  fe_payment :: "string option"
  fe_candidate :: "int option"
  fe_ip :: "string option"
  fe_device :: string
  fe_status :: alert_status
  fe_reviewed_by :: "int option"
  fe_reviewed_at :: "int option"
  fe_created :: int

datatype block_kind = BLOCK_IP | BLOCK_CIDR | BLOCK_EMAIL | BLOCK_EMAIL_DOMAIN | BLOCK_PHONE | BLOCK_DEVICE | BLOCK_CARD | BLOCK_ANONYMIZER

record block_entry =
  bk_kind :: block_kind
  bk_value :: string
  bk_org :: "int option"
  bk_active :: bool
  bk_expires :: "int option"
  bk_created_by :: "int option"

section \<open>The state\<close>

record pay_db =
  pd_election :: election_db
  pd_billing :: billing_db
  pd_payments :: "payment list"
  pd_history :: "payment_event list"
  pd_refunds :: "refund list"
  pd_webhooks :: "webhook_event list"
  pd_discounts :: "discount_code list"
  pd_tickets :: "ticket_purchase list"
  pd_alerts :: "fraud_event list"
  pd_blocks :: "block_entry list"
  pd_counters :: counters

text \<open>
  The settings, the keyed SHA-512 of the gateway's signatures, Python's \<open>ipaddress\<close> (is the
  address in the network; None when the network is malformed), Django's \<open>parse_datetime\<close>
  the list of disposable mail domains (a data file), and \<open>allowed_countries\<close> of the election.
\<close>

record pay_settings =
  ps_env :: env
  ps_billing :: billing_settings
  ps_fake :: bool
  ps_secret :: string
  ps_monitor_at :: int
  ps_challenge_at :: int
  ps_hold_at :: int
  ps_flag_proxies :: bool
  ps_refund_threshold :: rat
  ps_abandon_minutes :: int
  ps_captcha :: bool
  ps_hmac512 :: "string \<Rightarrow> string \<Rightarrow> string"
  ps_in_network :: "string \<Rightarrow> string \<Rightarrow> bool option"
  ps_address_ok :: "string \<Rightarrow> bool"
  ps_parse_time :: "string \<Rightarrow> int option"
  ps_disposable :: "string list"
  ps_countries :: "string list"

abbreviation pd_event :: "pay_db \<Rightarrow> event" where
  "pd_event db \<equiv> db_event (pd_election db)"

abbreviation pd_tenancy :: "pay_db \<Rightarrow> tenancy" where
  "pd_tenancy db \<equiv> db_tenancy (pd_election db)"

abbreviation pd_ledger :: "pay_db \<Rightarrow> ledger_vote list" where
  "pd_ledger db \<equiv> db_ledger (pd_election db)"

definition payment_row :: "string \<Rightarrow> pay_db \<Rightarrow> payment option" where
  "payment_row r db = first_where (\<lambda>p. py_ref p = r) (pd_payments db)"

definition change_payment :: "string \<Rightarrow> (payment \<Rightarrow> payment) \<Rightarrow> pay_db \<Rightarrow> pay_db" where
  "change_payment r f db = db\<lparr>pd_payments := update_where (\<lambda>p. py_ref p = r) f (pd_payments db)\<rparr>"

definition refund_row :: "int \<Rightarrow> pay_db \<Rightarrow> refund option" where
  "refund_row i db = first_where (\<lambda>r. rf_id r = i) (pd_refunds db)"

definition change_refund :: "int \<Rightarrow> (refund \<Rightarrow> refund) \<Rightarrow> pay_db \<Rightarrow> pay_db" where
  "change_refund i f db = db\<lparr>pd_refunds := update_where (\<lambda>r. rf_id r = i) f (pd_refunds db)\<rparr>"

definition change_election :: "(election_db \<Rightarrow> election_db) \<Rightarrow> pay_db \<Rightarrow> pay_db" where
  "change_election f db = db\<lparr>pd_election := f (pd_election db)\<rparr>"

definition change_ledger :: "(ledger_vote list \<Rightarrow> ledger_vote list) \<Rightarrow> pay_db \<Rightarrow> pay_db" where
  "change_ledger f db = change_election (\<lambda>e. e\<lparr>db_ledger := f (db_ledger e)\<rparr>) db"

definition record_pay :: "payment_event \<Rightarrow> pay_db \<Rightarrow> pay_db" where
  "record_pay e db = db\<lparr>pd_history := pd_history db @ [e]\<rparr>"

text \<open>An entry about a payment that is not a change of status.\<close>

definition pay_note :: "string \<Rightarrow> string \<Rightarrow> account option \<Rightarrow> payment_event" where
  "pay_note r source actor =
     \<lparr>pe_payment = r, pe_from = None, pe_to = None, pe_source = source, pe_actor = map_option us_id actor\<rparr>"

text \<open>\<open>payment.event\<close> as the subject of a permission: an invoice payment has none.\<close>

definition pay_subject :: "payment \<Rightarrow> pay_db \<Rightarrow> subject" where
  "pay_subject p db = (if py_event p = None then Anything else Election (pd_event db))"

text \<open>An audit entry about a row, for the payment's election if it has one.\<close>

definition pay_audit :: "string \<Rightarrow> account option \<Rightarrow> bool \<Rightarrow> pay_db \<Rightarrow> pay_db" where
  "pay_audit t actor with_event db =
     change_election (log_note
       (plain_note t (map_option us_id actor)
          (if with_event then Some (ev_id (pd_event db), ev_org (pd_event db)) else None))) db"

lemma change_payment_simps [simp]:
  "pd_election (change_payment r f db) = pd_election db"
  "pd_billing (change_payment r f db) = pd_billing db"
  "pd_payments (change_payment r f db) = update_where (\<lambda>p. py_ref p = r) f (pd_payments db)"
  "pd_history (change_payment r f db) = pd_history db"
  "pd_refunds (change_payment r f db) = pd_refunds db"
  "pd_webhooks (change_payment r f db) = pd_webhooks db"
  "pd_discounts (change_payment r f db) = pd_discounts db"
  "pd_tickets (change_payment r f db) = pd_tickets db"
  "pd_alerts (change_payment r f db) = pd_alerts db"
  "pd_blocks (change_payment r f db) = pd_blocks db"
  "pd_counters (change_payment r f db) = pd_counters db"
  by (simp_all add: change_payment_def)

lemma change_refund_simps [simp]:
  "pd_election (change_refund i g db) = pd_election db"
  "pd_billing (change_refund i g db) = pd_billing db"
  "pd_payments (change_refund i g db) = pd_payments db"
  "pd_history (change_refund i g db) = pd_history db"
  "pd_refunds (change_refund i g db) = update_where (\<lambda>x. rf_id x = i) g (pd_refunds db)"
  "pd_webhooks (change_refund i g db) = pd_webhooks db"
  "pd_discounts (change_refund i g db) = pd_discounts db"
  "pd_tickets (change_refund i g db) = pd_tickets db"
  "pd_alerts (change_refund i g db) = pd_alerts db"
  "pd_blocks (change_refund i g db) = pd_blocks db"
  "pd_counters (change_refund i g db) = pd_counters db"
  by (simp_all add: change_refund_def)

lemma change_election_simps [simp]:
  "pd_election (change_election h db) = h (pd_election db)"
  "pd_billing (change_election h db) = pd_billing db"
  "pd_payments (change_election h db) = pd_payments db"
  "pd_history (change_election h db) = pd_history db"
  "pd_refunds (change_election h db) = pd_refunds db"
  "pd_webhooks (change_election h db) = pd_webhooks db"
  "pd_discounts (change_election h db) = pd_discounts db"
  "pd_tickets (change_election h db) = pd_tickets db"
  "pd_alerts (change_election h db) = pd_alerts db"
  "pd_blocks (change_election h db) = pd_blocks db"
  "pd_counters (change_election h db) = pd_counters db"
  by (simp_all add: change_election_def)

lemma record_pay_simps [simp]:
  "pd_election (record_pay e db) = pd_election db"
  "pd_billing (record_pay e db) = pd_billing db"
  "pd_payments (record_pay e db) = pd_payments db"
  "pd_history (record_pay e db) = pd_history db @ [e]"
  "pd_refunds (record_pay e db) = pd_refunds db"
  "pd_webhooks (record_pay e db) = pd_webhooks db"
  "pd_discounts (record_pay e db) = pd_discounts db"
  "pd_tickets (record_pay e db) = pd_tickets db"
  "pd_alerts (record_pay e db) = pd_alerts db"
  "pd_blocks (record_pay e db) = pd_blocks db"
  "pd_counters (record_pay e db) = pd_counters db"
  by (simp_all add: record_pay_def)

lemma change_ledger_simps [simp]:
  "pd_billing (change_ledger l db) = pd_billing db"
  "pd_payments (change_ledger l db) = pd_payments db"
  "pd_history (change_ledger l db) = pd_history db"
  "pd_refunds (change_ledger l db) = pd_refunds db"
  "pd_webhooks (change_ledger l db) = pd_webhooks db"
  "pd_discounts (change_ledger l db) = pd_discounts db"
  "pd_tickets (change_ledger l db) = pd_tickets db"
  "pd_alerts (change_ledger l db) = pd_alerts db"
  "pd_blocks (change_ledger l db) = pd_blocks db"
  "pd_counters (change_ledger l db) = pd_counters db"
  "db_ledger (pd_election (change_ledger l db)) = l (pd_ledger db)"
  "db_election (pd_election (change_ledger l db)) = db_election (pd_election db)"
  "db_tenancy (pd_election (change_ledger l db)) = pd_tenancy db"
  by (simp_all add: change_ledger_def)

lemma pay_audit_simps [simp]:
  "pd_billing (pay_audit t a b db) = pd_billing db"
  "pd_payments (pay_audit t a b db) = pd_payments db"
  "pd_history (pay_audit t a b db) = pd_history db"
  "pd_refunds (pay_audit t a b db) = pd_refunds db"
  "pd_webhooks (pay_audit t a b db) = pd_webhooks db"
  "pd_discounts (pay_audit t a b db) = pd_discounts db"
  "pd_tickets (pay_audit t a b db) = pd_tickets db"
  "pd_alerts (pay_audit t a b db) = pd_alerts db"
  "pd_blocks (pay_audit t a b db) = pd_blocks db"
  "pd_counters (pay_audit t a b db) = pd_counters db"
  "db_ledger (pd_election (pay_audit t a b db)) = pd_ledger db"
  "db_election (pd_election (pay_audit t a b db)) = db_election (pd_election db)"
  "db_tenancy (pd_election (pay_audit t a b db)) = pd_tenancy db"
  by (simp_all add: pay_audit_def)

end
