(* ===== verification/Fraud.thy ===== *)
theory Fraud
  imports Pay_Model
begin

text \<open>
  fraud/engine.py: the risk assessment of an attempt, its weighted signals, the decision,
  the block lists and the alerts it leaves, and \<open>add_block\<close> of fraud/service.py.

  What the code reads off the HTTP request is a \<open>request_info\<close>. The velocity counters are
  those of the rate limits. The text of a signal is left out; the scan for anomalies is not
  modelled (the ledger rows carry no time here).
\<close>

section \<open>What is assessed\<close>

record request_info =
  ri_ip :: "string option"
  ri_device :: string
  ri_agent :: string
  ri_relayed :: bool
  ri_human :: bool

record attempt =
  at_kind :: fraud_kind
  at_request :: "request_info option"
  at_event :: "event option"
  at_candidate :: "int option"
  at_email :: string
  at_phone :: string
  at_device :: string
  at_ip :: "string option"
  at_card :: string
  at_country :: string
  at_amount :: "rat option"
  at_votes :: int
  at_payment :: "string option"
  at_count :: bool

record assessment =
  as_score :: int
  as_decision :: decision
  as_signals :: "(string \<times> int) list"
  as_alert :: "int option"

definition held :: "assessment \<Rightarrow> bool" where
  "held r \<longleftrightarrow> as_decision r = HOLD"

definition challenged :: "assessment \<Rightarrow> bool" where
  "challenged r \<longleftrightarrow> as_decision r = CHALLENGE"

definition decide_risk :: "pay_settings \<Rightarrow> int \<Rightarrow> decision" where
  "decide_risk S points =
     (if ps_hold_at S \<le> points then HOLD
      else if ps_challenge_at S \<le> points then CHALLENGE
      else if ps_monitor_at S \<le> points then MONITOR
      else ALLOW)"

fun kind_name :: "fraud_kind \<Rightarrow> string" where
  "kind_name FRAUD_PAYMENT = ''PAYMENT''"
| "kind_name FRAUD_VOTE = ''VOTE''"
| "kind_name FRAUD_VOTER_LOGIN = ''VOTER_LOGIN''"
| "kind_name FRAUD_STAFF_LOGIN = ''STAFF_LOGIN''"
| "kind_name FRAUD_REGISTRATION = ''REGISTRATION''"
| "kind_name FRAUD_ANOMALY = ''ANOMALY''"
| "kind_name FRAUD_CHARGEBACK = ''CHARGEBACK''"

definition bot_markers :: "string list" where
  "bot_markers =
     [''curl/'', ''python-requests'', ''python-urllib'', ''wget'', ''go-http-client'', ''httpclient'', ''okhttp'',
      ''java/'', ''headlesschrome'', ''phantomjs'', ''selenium'', ''puppeteer'', ''playwright'', ''scrapy'',
      ''spider'', ''crawler'', ''libwww'', ''httpie'', ''postman'']"

fun contains :: "string \<Rightarrow> string \<Rightarrow> bool" where
  "contains w s = (starts_with w s \<or> (case s of [] \<Rightarrow> False | _ # s' \<Rightarrow> contains w s'))"

declare contains.simps [simp del]

section \<open>Block lists\<close>

definition active_entries :: "int \<Rightarrow> int option \<Rightarrow> pay_db \<Rightarrow> block_entry list" where
  "active_entries now org db =
     filter (\<lambda>b. (bk_org b = None \<or> (org \<noteq> None \<and> bk_org b = org)) \<and> bk_active b
       \<and> (case bk_expires b of Some t \<Rightarrow> now \<le> t | None \<Rightarrow> True)) (pd_blocks db)"

definition blocklisted :: "int \<Rightarrow> block_kind \<Rightarrow> string \<Rightarrow> int option \<Rightarrow> pay_db \<Rightarrow> bool" where
  "blocklisted now kind v org db \<longleftrightarrow>
     v \<noteq> [] \<and> exists_where (\<lambda>b. bk_kind b = kind \<and> bk_value b = v) (active_entries now org db)"

definition ip_in_ranges :: "pay_settings \<Rightarrow> int \<Rightarrow> string option \<Rightarrow> block_kind list \<Rightarrow> int option \<Rightarrow> pay_db \<Rightarrow> bool" where
  "ip_in_ranges S now ip kinds org db \<longleftrightarrow>
     (case ip of
        None \<Rightarrow> False
      | Some a \<Rightarrow> a \<noteq> [] \<and> ps_address_ok S a
          \<and> exists_where (\<lambda>b. bk_kind b \<in> set kinds \<and> ps_in_network S a (bk_value b) = Some True) (active_entries now org db))"

definition or_blank :: "string option \<Rightarrow> string" where
  "or_blank s = (case s of Some x \<Rightarrow> x | None \<Rightarrow> [])"

section \<open>Signals\<close>

definition when_true :: "bool \<Rightarrow> string \<Rightarrow> int \<Rightarrow> (string \<times> int) list" where
  "when_true b code weight = (if b then [(code, weight)] else [])"

text \<open>The address, device and indexes the signals look at.\<close>

definition attempt_ip :: "attempt \<Rightarrow> string option" where
  "attempt_ip a =
     (if or_blank (at_ip a) \<noteq> [] then at_ip a else Option.bind (at_request a) ri_ip)"

definition attempt_device :: "attempt \<Rightarrow> string" where
  "attempt_device a =
     (if at_device a \<noteq> [] then at_device a else case at_request a of Some r \<Rightarrow> ri_device r | None \<Rightarrow> [])"

definition attempt_email :: "attempt \<Rightarrow> string" where
  "attempt_email a = lower (strip (at_email a))"

definition index_of_contact :: "pay_settings \<Rightarrow> string \<Rightarrow> string \<Rightarrow> string" where
  "index_of_contact S purpose v = (if v = [] then [] else contact_index (ps_env S) purpose v)"

definition email_domain :: "string \<Rightarrow> string" where
  "email_domain email = (if CHR ''@'' \<in> set email then after_last (CHR ''@'') email else [])"

definition block_signals :: "pay_settings \<Rightarrow> int \<Rightarrow> attempt \<Rightarrow> pay_db \<Rightarrow> (string \<times> int) list" where
  "block_signals S now a db =
     (let org = Option.bind (at_event a) ev_org; ip = attempt_ip a; domain = email_domain (attempt_email a);
          listed = (\<lambda>b. when_true b ''blocklisted'' 60)
      in listed (blocklisted now BLOCK_IP (or_blank ip) org db)
       @ listed (ip_in_ranges S now ip [BLOCK_CIDR] org db)
       @ listed (blocklisted now BLOCK_EMAIL (index_of_contact S ''email'' (attempt_email a)) org db)
       @ listed (blocklisted now BLOCK_PHONE (index_of_contact S ''phone'' (at_phone a)) org db)
       @ listed (blocklisted now BLOCK_DEVICE (attempt_device a) org db)
       @ listed (blocklisted now BLOCK_CARD (at_card a) org db)
       @ when_true (blocklisted now BLOCK_EMAIL_DOMAIN domain org db) ''blocklisted_domain'' 60
       @ (if ps_flag_proxies S
          then when_true (ip_in_ranges S now ip [BLOCK_ANONYMIZER] org db) ''anonymizer'' 25
             @ when_true (case at_request a of Some r \<Rightarrow> ri_relayed r | None \<Rightarrow> False) ''proxy_headers'' 10
          else []))"

definition identity_signals :: "pay_settings \<Rightarrow> attempt \<Rightarrow> (string \<times> int) list" where
  "identity_signals S a =
     when_true (email_domain (attempt_email a) \<in> set (ps_disposable S) \<and> email_domain (attempt_email a) \<noteq> []) ''disposable_email'' 35
     @ (case at_request a of
          None \<Rightarrow> []
        | Some r \<Rightarrow>
            if ri_agent r = [] then [(''missing_user_agent'', 15)]
            else when_true (list_ex (\<lambda>m. contains m (lower (ri_agent r))) bot_markers) ''automation_user_agent'' 30)"

text \<open>\<open>_count\<close>: raise a velocity counter and read it.\<close>

definition velocity :: "int \<Rightarrow> string \<Rightarrow> string \<Rightarrow> int \<Rightarrow> counters \<Rightarrow> int \<times> counters" where
  "velocity now scope ident window cs =
     (if ident = [] then (0, cs)
      else let cs' = snd (hit now (''fraud:'' @ scope) ident 1000000000 window cs)
           in (peek now (''fraud:'' @ scope) ident window cs', cs'))"

definition velocity_signals :: "pay_settings \<Rightarrow> int \<Rightarrow> attempt \<Rightarrow> counters \<Rightarrow> (string \<times> int) list \<times> counters" where
  "velocity_signals S now a cs =
     (if \<not> at_count a then ([], cs)
      else
        let k = kind_name (at_kind a);
            (by_ip, cs1) = velocity now (k @ '':ip'') (or_blank (attempt_ip a)) 600 cs;
            (by_device, cs2) = velocity now (k @ '':device'') (attempt_device a) 600 cs1;
            (by_email, cs3) = velocity now (k @ '':email'') (index_of_contact S ''email'' (attempt_email a)) 600 cs2
        in ((if 30 < by_ip then [(''ip_velocity_high'', 35)] else when_true (10 < by_ip) ''ip_velocity'' 20)
             @ when_true (10 < by_device) ''device_velocity'' 20
             @ when_true (15 < by_email) ''email_velocity'' 15, cs3))"

definition hours :: "int \<Rightarrow> int" where
  "hours n = n * 3600 * 1000000"

definition distinct_emails :: "(payment \<Rightarrow> bool) \<Rightarrow> pay_db \<Rightarrow> int" where
  "distinct_emails P db =
     int (length (remdups (map py_email_index (filter (\<lambda>p. P p \<and> py_email_index p \<noteq> []) (pd_payments db)))))"

definition recent_failures :: "int \<Rightarrow> string \<Rightarrow> string \<Rightarrow> pay_db \<Rightarrow> int" where
  "recent_failures now email device db =
     (let failed = (\<lambda>p. now - hours 1 \<le> py_created p \<and> py_status p \<in> {PAY_FAILED, PAY_ABANDONED});
          of_email = (if email = [] then 0 else count_where (\<lambda>p. failed p \<and> py_email_index p = email) (pd_payments db));
          of_device = (if device = [] then 0 else count_where (\<lambda>p. failed p \<and> py_device p = device) (pd_payments db))
      in int (max of_email of_device))"

definition charged_back :: "string \<Rightarrow> string \<Rightarrow> pay_db \<Rightarrow> bool" where
  "charged_back email mark db \<longleftrightarrow>
     exists_where (\<lambda>p. py_status p \<in> {PAY_DISPUTED, PAY_REVERSED}
       \<and> ((email \<noteq> [] \<and> py_email_index p = email) \<or> (mark \<noteq> [] \<and> py_card p = mark))) (pd_payments db)"

definition history_signals :: "pay_settings \<Rightarrow> int \<Rightarrow> attempt \<Rightarrow> pay_db \<Rightarrow> (string \<times> int) list" where
  "history_signals S now a db =
     (let email = index_of_contact S ''email'' (attempt_email a); device = attempt_device a; ip = attempt_ip a;
          failed = recent_failures now email device db;
          today = (\<lambda>p. now - hours 24 \<le> py_created p)
      in if at_kind a \<noteq> FRAUD_PAYMENT \<or> (email = [] \<and> device = []) then []
         else
           (if 6 \<le> failed then [(''repeated_failed_payments'', 25)] else when_true (3 \<le> failed) ''failed_payments'' 15)
           @ when_true (device \<noteq> [] \<and> 4 \<le> distinct_emails (\<lambda>p. today p \<and> py_device p = device) db) ''device_shared_by_accounts'' 25
           @ when_true (or_blank ip \<noteq> [] \<and> 8 \<le> distinct_emails (\<lambda>p. today p \<and> now - hours 1 \<le> py_created p \<and> py_ip p = ip) db)
               ''ip_shared_by_accounts'' 15
           @ when_true (charged_back email (at_card a) db) ''chargeback_history'' 50)"

definition limit_set :: "int option \<Rightarrow> int" where
  "limit_set n = (case n of Some k \<Rightarrow> k | None \<Rightarrow> 0)"

definition card_votes :: "event \<Rightarrow> string \<Rightarrow> pay_db \<Rightarrow> int" where
  "card_votes ev mark db =
     sum_list (map py_votes (filter (\<lambda>p. py_event p = Some (ev_id ev) \<and> py_card p = mark \<and> py_credited p) (pd_payments db)))"

definition card_signals :: "pay_settings \<Rightarrow> int \<Rightarrow> attempt \<Rightarrow> pay_db \<Rightarrow> (string \<times> int) list" where
  "card_signals S now a db =
     (if at_card a = [] then []
      else when_true (3 \<le> distinct_emails (\<lambda>p. py_card p = at_card a \<and> now - hours 24 \<le> py_created p) db) ''card_shared_by_accounts'' 30
         @ when_true (case at_event a of
               Some ev \<Rightarrow> limit_set (ev_max_per_voter ev) \<noteq> 0
                 \<and> limit_set (ev_max_per_voter ev) < card_votes ev (at_card a) db + at_votes a
             | None \<Rightarrow> False) ''card_vote_limit'' 85)
     @ when_true (at_country a \<noteq> [] \<and> at_event a \<noteq> None \<and> ps_countries S \<noteq> []
         \<and> upper (at_country a) \<notin> set (map upper (ps_countries S))) ''unexpected_country'' 20
     @ when_true (case at_amount a of Some m \<Rightarrow> 1000 \<le> m | None \<Rightarrow> False) ''high_amount'' 10"

definition burst_signals :: "int \<Rightarrow> attempt \<Rightarrow> counters \<Rightarrow> (string \<times> int) list \<times> counters" where
  "burst_signals now a cs =
     (case at_candidate a of
        Some c \<Rightarrow>
          if at_kind a = FRAUD_PAYMENT
          then (let (n, cs') = velocity now ''candidate-votes'' (str_int c) 300 cs
                in (when_true (200 < n) ''candidate_vote_burst'' 15, cs'))
          else ([], cs)
      | None \<Rightarrow> ([], cs))"

section \<open>The assessment\<close>

definition new_alert :: "fraud_event \<Rightarrow> pay_db \<Rightarrow> pay_db" where
  "new_alert e db = db\<lparr>pd_alerts := pd_alerts db @ [e\<lparr>fe_id := next_pk fe_id (pd_alerts db)\<rparr>]\<rparr>"

definition alert_for :: "int \<Rightarrow> attempt \<Rightarrow> int \<Rightarrow> decision \<Rightarrow> (string \<times> int) list \<Rightarrow> fraud_event" where
  "alert_for now a points d signals =
     \<lparr>fe_id = 0, fe_kind = at_kind a, fe_decision = d, fe_score = points, fe_signals = signals,
      fe_event = map_option ev_id (at_event a), fe_payment = at_payment a, fe_candidate = at_candidate a,
      fe_ip = attempt_ip a, fe_device = attempt_device a, fe_status = ALERT_OPEN, fe_reviewed_by = None,
      fe_reviewed_at = None, fe_created = now\<rparr>"

definition assess :: "pay_settings \<Rightarrow> int \<Rightarrow> attempt \<Rightarrow> pay_db \<Rightarrow> assessment \<times> pay_db" where
  "assess S now a db =
     (let (by_velocity, cs) = velocity_signals S now a (pd_counters db);
          (by_burst, cs') = burst_signals now a cs;
          signals = block_signals S now a db @ identity_signals S a @ by_velocity @ history_signals S now a db
                    @ card_signals S now a db @ by_burst;
          points = min 100 (sum_list (map snd signals));
          d = decide_risk S points;
          db1 = db\<lparr>pd_counters := cs'\<rparr>
      in if d = ALLOW then (\<lparr>as_score = points, as_decision = d, as_signals = signals, as_alert = None\<rparr>, db1)
         else (\<lparr>as_score = points, as_decision = d, as_signals = signals, as_alert = Some (next_pk fe_id (pd_alerts db))\<rparr>,
               new_alert (alert_for now a points d signals) db1))"

definition record_chargeback :: "int \<Rightarrow> payment \<Rightarrow> pay_db \<Rightarrow> pay_db" where
  "record_chargeback now p db =
     new_alert \<lparr>fe_id = 0, fe_kind = FRAUD_CHARGEBACK, fe_decision = HOLD, fe_score = 100, fe_signals = [(''chargeback'', 100)],
       fe_event = py_event p, fe_payment = Some (py_ref p), fe_candidate = py_candidate p, fe_ip = None, fe_device = [],
       fe_status = ALERT_OPEN, fe_reviewed_by = None, fe_reviewed_at = None, fe_created = now\<rparr> db"

section \<open>Blocking\<close>

datatype block_error = Value_required | Invalid_range

definition block_value :: "pay_settings \<Rightarrow> block_kind \<Rightarrow> string \<Rightarrow> bool \<Rightarrow> string" where
  "block_value S kind v raw =
     (let v = strip v in
      if raw \<and> kind = BLOCK_EMAIL then contact_index (ps_env S) ''email'' v
      else if raw \<and> kind = BLOCK_PHONE then contact_index (ps_env S) ''phone'' (normalize_phone v)
      else if kind = BLOCK_EMAIL_DOMAIN then lstrip_at (lower v)
      else v)"

definition add_block ::
  "pay_settings \<Rightarrow> block_kind \<Rightarrow> string \<Rightarrow> account option \<Rightarrow> bool \<Rightarrow> int option \<Rightarrow> int option \<Rightarrow> pay_db \<Rightarrow> block_error + pay_db" where
  "add_block S kind v actor raw expires org db =
     (let value = block_value S kind v raw in
      if value = [] then Inl Value_required
      else if kind \<in> {BLOCK_CIDR, BLOCK_ANONYMIZER, BLOCK_IP} \<and> ps_in_network S ''0.0.0.0'' value = None then Inl Invalid_range
      else
        let same = (\<lambda>b. bk_kind b = kind \<and> bk_value b = value \<and> bk_org b = org);
            e = \<lparr>bk_kind = kind, bk_value = value, bk_org = org, bk_active = True, bk_expires = expires,
                 bk_created_by = map_option us_id actor\<rparr>;
            rows = (if exists_where same (pd_blocks db) then update_where same (\<lambda>_. e) (pd_blocks db) else pd_blocks db @ [e])
        in Inr (pay_audit ''BLOCKLIST_ADDED'' actor False (db\<lparr>pd_blocks := rows\<rparr>)))"

end
