(* ===== verification/Quotes.thy ===== *)
theory Quotes
  imports Fraud
begin

text \<open>
  The pricing of payments/service.py: \<open>unit_price\<close>, discount codes, and \<open>quote\<close> with the
  limits per voter. A quote collects its errors; the first is what the payer is told.
\<close>

datatype quote_error =
    Not_paid | Wrong_election | Candidate_closed | Voting_closed | Package_unavailable | Too_few int | Too_many int
  | Price_missing | Bad_discount | Below_minimum rat | Discount_used | Nothing_to_pay
  | Voter_limit int int | Candidate_limit int | Category_limit int | Spend_limit rat | Package_limit int

record quote =
  qt_votes :: int
  qt_bonus :: int
  qt_unit :: rat
  qt_gross :: rat
  qt_discount :: rat
  qt_amount :: rat
  qt_package :: "vote_package option"
  qt_code :: "discount_code option"
  qt_errors :: "quote_error list"

definition empty_quote :: quote where
  "empty_quote =
     \<lparr>qt_votes = 0, qt_bonus = 0, qt_unit = 0, qt_gross = 0, qt_discount = 0, qt_amount = 0, qt_package = None,
      qt_code = None, qt_errors = []\<rparr>"

definition qt_total :: "quote \<Rightarrow> int" where
  "qt_total q = qt_votes q + qt_bonus q"

definition quote_fails :: "bool \<Rightarrow> quote_error \<Rightarrow> quote \<Rightarrow> quote" where
  "quote_fails b e q = (if b then q\<lparr>qt_errors := qt_errors q @ [e]\<rparr> else q)"

definition candidate_with :: "int \<Rightarrow> pay_db \<Rightarrow> candidate option" where
  "candidate_with i db = first_where (\<lambda>c. ca_id c = i) (candidates (db_election (pd_election db)))"

definition category_of :: "candidate \<Rightarrow> pay_db \<Rightarrow> position option" where
  "category_of c db =
     Option.bind (ca_category c) (\<lambda>i. first_where (\<lambda>p. pos_id p = i) (positions (db_election (pd_election db))))"

definition unit_price :: "candidate \<Rightarrow> pay_db \<Rightarrow> rat" where
  "unit_price c db =
     (case Option.bind (category_of c db) pos_price of Some x \<Rightarrow> x | None \<Rightarrow> ev_price (pd_event db))"

text \<open>\<open>_payer_scope\<close>: the payments of the election by this email or phone.\<close>

definition payer_scope :: "event \<Rightarrow> string \<Rightarrow> string \<Rightarrow> payment \<Rightarrow> bool" where
  "payer_scope ev email phone p \<longleftrightarrow>
     py_event p = Some (ev_id ev) \<and> ((email \<noteq> [] \<and> py_email_index p = email) \<or> (phone \<noteq> [] \<and> py_phone_index p = phone))"

definition find_discount :: "string \<Rightarrow> pay_db \<Rightarrow> discount_code option" where
  "find_discount code db =
     (if code = [] then None
      else case first_where (\<lambda>d. dc_code d = upper (strip code)) (pd_discounts db) of
        None \<Rightarrow> None
      | Some d \<Rightarrow>
          if dc_event d \<noteq> None \<and> dc_event d \<noteq> Some (ev_id (pd_event db)) then None
          else if dc_org d \<noteq> None \<and> dc_org d \<noteq> ev_org (pd_event db) then None
          else Some d)"

definition rat_set :: "rat option \<Rightarrow> rat" where
  "rat_set n = (case n of Some k \<Rightarrow> k | None \<Rightarrow> 0)"

text \<open>\<open>int(votes or 0)\<close> of the text of the form field, zero when it is not a number.\<close>

definition votes_asked :: "string \<Rightarrow> int" where
  "votes_asked t = (if t = [] then 0 else case parse_int t of Some n \<Rightarrow> n | None \<Rightarrow> 0)"

definition price_votes :: "event \<Rightarrow> rat \<Rightarrow> int \<Rightarrow> quote \<Rightarrow> quote" where
  "price_votes ev price votes q =
     (let least = max 1 (ev_min_per_payment ev);
          q1 = quote_fails (votes < least) (Too_few least) q;
          q2 = quote_fails (limit_set (ev_max_per_payment ev) \<noteq> 0 \<and> limit_set (ev_max_per_payment ev) < votes)
                 (Too_many (limit_set (ev_max_per_payment ev))) q1;
          q3 = quote_fails (price \<le> 0) Price_missing q2
      in q3\<lparr>qt_votes := max votes 0, qt_gross := quantize_half_up 2 (price * of_int (max votes 0))\<rparr>)"

text \<open>\<open>int\<close> of a decimal: towards zero.\<close>

definition whole_part :: "rat \<Rightarrow> int" where
  "whole_part r = (if r < 0 then \<lceil>r\<rceil> else \<lfloor>r\<rfloor>)"

definition apply_code :: "string \<Rightarrow> discount_code \<Rightarrow> pay_db \<Rightarrow> quote \<Rightarrow> quote" where
  "apply_code email d db q =
     (if rat_set (dc_min d) \<noteq> 0 \<and> qt_gross q < rat_set (dc_min d) then quote_fails True (Below_minimum (rat_set (dc_min d))) q
      else if limit_set (dc_per_payer d) \<noteq> 0 \<and> email \<noteq> []
        \<and> limit_set (dc_per_payer d) \<le> int (count_where (\<lambda>p. py_discount p = Some (dc_code d) \<and> py_email_index p = email
              \<and> py_status p = PAY_SUCCESS) (pd_payments db))
      then quote_fails True Discount_used q
      else
        let q1 = q\<lparr>qt_code := Some d\<rparr> in
        (case dc_kind d of
           PERCENT \<Rightarrow> q1\<lparr>qt_discount := quantize_half_up 2 (qt_gross q * min (dc_value d) 100 / 100)\<rparr>
         | FIXED \<Rightarrow> q1\<lparr>qt_discount := min (dc_value d) (qt_gross q)\<rparr>
         | BONUS_VOTES \<Rightarrow> q1\<lparr>qt_bonus := qt_bonus q + whole_part (dc_value d)\<rparr>))"

definition discounted :: "int \<Rightarrow> string \<Rightarrow> string \<Rightarrow> pay_db \<Rightarrow> quote \<Rightarrow> quote" where
  "discounted now code email db q =
     (case find_discount code db of
        None \<Rightarrow> quote_fails (code \<noteq> []) Bad_discount q
      | Some d \<Rightarrow> if discount_available now d then apply_code email d db q else quote_fails True Bad_discount q)"

definition round_cents :: "rat \<Rightarrow> rat" where
  "round_cents x = of_int (round_even (x * 100)) / 100"

definition amount_due :: "quote \<Rightarrow> quote" where
  "amount_due q =
     (let a = round_cents (max (qt_gross q - qt_discount q) 0) in
      quote_fails (a \<le> 0 \<and> qt_errors q = []) Nothing_to_pay (q\<lparr>qt_amount := a\<rparr>))"

section \<open>Limits per voter\<close>

text \<open>What the payer has already bought: only payments that succeeded and were credited.\<close>

definition prior_payments :: "string \<Rightarrow> string \<Rightarrow> pay_db \<Rightarrow> payment list" where
  "prior_payments email phone db =
     filter (\<lambda>p. payer_scope (pd_event db) email phone p \<and> py_status p = PAY_SUCCESS \<and> py_credited p) (pd_payments db)"

definition votes_bought :: "payment list \<Rightarrow> int" where
  "votes_bought ps = sum_list (map py_total ps)"

definition in_category :: "position \<Rightarrow> pay_db \<Rightarrow> payment \<Rightarrow> bool" where
  "in_category k db p \<longleftrightarrow>
     (case Option.bind (py_candidate p) (\<lambda>i. candidate_with i db) of
        Some c \<Rightarrow> ca_category c = Some (pos_id k) | None \<Rightarrow> False)"

definition exceeds :: "int option \<Rightarrow> payment list \<Rightarrow> quote \<Rightarrow> bool" where
  "exceeds limit ps q \<longleftrightarrow> limit_set limit \<noteq> 0 \<and> limit_set limit < votes_bought ps + qt_total q"

definition within_limits :: "candidate \<Rightarrow> payment list \<Rightarrow> pay_db \<Rightarrow> quote \<Rightarrow> quote" where
  "within_limits c prior db q =
     (let ev = pd_event db;
          q1 = quote_fails (exceeds (ev_max_per_voter ev) prior q) (Voter_limit (limit_set (ev_max_per_voter ev)) (votes_bought prior)) q;
          q2 = quote_fails (exceeds (ca_max_per_voter c) (filter (\<lambda>p. py_candidate p = Some (ca_id c)) prior) q)
                 (Candidate_limit (limit_set (ca_max_per_voter c))) q1;
          q3 = (case category_of c db of
                  None \<Rightarrow> q2
                | Some k \<Rightarrow> quote_fails (exceeds (pos_max_per_voter k) (filter (in_category k db) prior) q)
                              (Category_limit (limit_set (pos_max_per_voter k))) q2);
          q4 = quote_fails (rat_set (ev_max_spend ev) \<noteq> 0
                   \<and> rat_set (ev_max_spend ev) < sum_list (map py_amount prior) + qt_amount q)
                 (Spend_limit (rat_set (ev_max_spend ev))) q3
      in (case qt_package q of
            None \<Rightarrow> q4
          | Some k \<Rightarrow> quote_fails (limit_set (vp_max_per_payer k) \<noteq> 0
                          \<and> limit_set (vp_max_per_payer k) \<le> int (count_where (\<lambda>p. py_package p = Some (vp_id k)) prior))
                        (Package_limit (limit_set (vp_max_per_payer k))) q4))"

section \<open>The quote\<close>

definition phone_index_of :: "pay_settings \<Rightarrow> string \<Rightarrow> string" where
  "phone_index_of S phone = (if phone = [] then [] else contact_index (ps_env S) ''phone'' (normalize_phone phone))"

definition finish_quote ::
  "pay_settings \<Rightarrow> int \<Rightarrow> candidate \<Rightarrow> string \<Rightarrow> string \<Rightarrow> string \<Rightarrow> pay_db \<Rightarrow> quote \<Rightarrow> quote" where
  "finish_quote S now c code email phone db q =
     (let email_ix = index_of_contact S ''email'' email; phone_ix = phone_index_of S phone;
          q1 = amount_due (discounted now code email_ix db q)
      in if email_ix = [] \<and> phone_ix = [] then q1 else within_limits c (prior_payments email_ix phone_ix db) db q1)"

definition make_quote ::
  "pay_settings \<Rightarrow> int \<Rightarrow> candidate \<Rightarrow> string \<Rightarrow> vote_package option \<Rightarrow> string \<Rightarrow> string \<Rightarrow> string \<Rightarrow> pay_db \<Rightarrow> quote" where
  "make_quote S now c votes package code email phone db =
     (let ev = pd_event db in
      if \<not> is_paid ev then quote_fails True Not_paid empty_quote
      else if ca_event c \<noteq> ev_id ev then quote_fails True Wrong_election empty_quote
      else
        let q = quote_fails (\<not> accepting_votes now ev) Voting_closed
                  (quote_fails (ca_status c \<noteq> ACTIVE) Candidate_closed empty_quote);
            q1 = q\<lparr>qt_unit := unit_price c db\<rparr>
        in case package of
             None \<Rightarrow> finish_quote S now c code email phone db (price_votes ev (unit_price c db) (votes_asked votes) q1)
           | Some k \<Rightarrow>
               if vp_event k \<noteq> ev_id ev \<or> \<not> package_available now k then quote_fails True Package_unavailable q1
               else finish_quote S now c code email phone db
                      (q1\<lparr>qt_package := Some k, qt_votes := vp_votes k, qt_bonus := vp_bonus k, qt_gross := vp_price k\<rparr>))"

lemma quote_fails_errors [simp]:
  "qt_errors (quote_fails b e q) = qt_errors q @ (if b then [e] else [])"
  by (simp add: quote_fails_def)

lemma quote_fails_same [simp]:
  "qt_votes (quote_fails b e q) = qt_votes q" "qt_bonus (quote_fails b e q) = qt_bonus q"
  "qt_unit (quote_fails b e q) = qt_unit q" "qt_gross (quote_fails b e q) = qt_gross q"
  "qt_discount (quote_fails b e q) = qt_discount q" "qt_amount (quote_fails b e q) = qt_amount q"
  "qt_package (quote_fails b e q) = qt_package q" "qt_code (quote_fails b e q) = qt_code q"
  "qt_total (quote_fails b e q) = qt_total q" "exceeds l ps (quote_fails b e q) = exceeds l ps q"
  by (simp_all add: quote_fails_def qt_total_def exceeds_def)

end
