(* ===== verification/Payments.thy ===== *)
theory Payments
  imports Quotes
begin

text \<open>
  The core of payments/service.py: the payment state machine, applying what the gateway
  says, crediting and reversing votes, checkout, held payments and tickets.

  An answer of the gateway is a \<open>charge\<close>: the fields the code reads of Paystack's documented
  JSON object, absent and null texts being the empty text. What the gateway answers is an
  argument of the operation that asks it; None is a \<open>PaystackError\<close>. A function of the
  code that returns the payment returns the changed tables here; an operation that commits
  rows before it raises returns them with its error.
\<close>

section \<open>The payment state machine\<close>

definition allowed_transitions :: "(pay_status \<times> pay_status list) list" where
  "allowed_transitions =
     [(PAY_INITIALIZED, [PAY_PENDING, PAY_SUCCESS, PAY_FAILED, PAY_ABANDONED]),
      (PAY_PENDING, [PAY_SUCCESS, PAY_FAILED, PAY_ABANDONED]),
      (PAY_ABANDONED, [PAY_SUCCESS, PAY_FAILED]),
      (PAY_FAILED, [PAY_SUCCESS]),
      (PAY_SUCCESS, [PAY_REFUNDED, PAY_PARTIALLY_REFUNDED, PAY_REVERSED, PAY_DISPUTED]),
      (PAY_PARTIALLY_REFUNDED, [PAY_REFUNDED, PAY_DISPUTED, PAY_REVERSED]),
      (PAY_DISPUTED, [PAY_SUCCESS, PAY_REVERSED, PAY_REFUNDED]),
      (PAY_REVERSED, []),
      (PAY_REFUNDED, [])]"

definition may_move :: "pay_status \<Rightarrow> pay_status \<Rightarrow> bool" where
  "may_move a b \<longleftrightarrow> b \<in> set (case map_of allowed_transitions a of Some bs \<Rightarrow> bs | None \<Rightarrow> [])"

definition status_entry :: "string \<Rightarrow> pay_status \<Rightarrow> pay_status \<Rightarrow> string \<Rightarrow> account option \<Rightarrow> payment_event" where
  "status_entry r a b source actor =
     \<lparr>pe_payment = r, pe_from = Some a, pe_to = Some b, pe_source = source, pe_actor = map_option us_id actor\<rparr>"

text \<open>\<open>transition\<close>: whether the status changed, and the tables.\<close>

definition pay_transition :: "string \<Rightarrow> pay_status \<Rightarrow> string \<Rightarrow> account option \<Rightarrow> pay_db \<Rightarrow> bool \<times> pay_db" where
  "pay_transition r to source actor db =
     (case payment_row r db of
        None \<Rightarrow> (False, db)
      | Some p \<Rightarrow>
          if py_status p = to then (False, db)
          else if \<not> may_move (py_status p) to then (False, record_pay (pay_note r source actor) db)
          else (True, record_pay (status_entry r (py_status p) to source actor)
                        (change_payment r (\<lambda>x. x\<lparr>py_status := to\<rparr>) db)))"

section \<open>Votes\<close>

definition ledger_entry :: "payment \<Rightarrow> int \<Rightarrow> ledger_vote" where
  "ledger_entry p c =
     \<lparr>lv_reference = py_ref p, lv_payment = Some (py_ref p), lv_candidate = c, lv_votes = py_total p,
      lv_status = LEDGER_SUCCESS, lv_main = True, lv_amount = py_amount p\<rparr>"

text \<open>The unique columns of the ledger: the payment and the reference.\<close>

definition ledger_clash :: "string \<Rightarrow> pay_db \<Rightarrow> bool" where
  "ledger_clash r db \<longleftrightarrow> exists_where (\<lambda>l. lv_payment l = Some r \<or> lv_reference l = r) (pd_ledger db)"

definition redeem_code :: "string option \<Rightarrow> pay_db \<Rightarrow> pay_db" where
  "redeem_code code db =
     (case code of
        None \<Rightarrow> db
      | Some k \<Rightarrow> db\<lparr>pd_discounts := update_where (\<lambda>d. dc_code d = k) (\<lambda>d. d\<lparr>dc_redemptions := dc_redemptions d + 1\<rparr>)
                                     (pd_discounts db)\<rparr>)"

definition credit_votes :: "int \<Rightarrow> string \<Rightarrow> account option \<Rightarrow> pay_db \<Rightarrow> pay_db" where
  "credit_votes now r actor db =
     (case payment_row r db of
        None \<Rightarrow> db
      | Some p \<Rightarrow>
          if py_credited p \<or> py_status p \<noteq> PAY_SUCCESS \<or> py_held p then db
          else
            (case py_candidate p of
               None \<Rightarrow> db
             | Some c \<Rightarrow>
                 if ledger_clash r db then db
                 else record_pay (pay_note r ''CREDIT'' actor)
                        (redeem_code (py_discount p)
                          (change_payment r (\<lambda>x. x\<lparr>py_credited := True, py_credited_at := Some now\<rparr>)
                            (change_ledger (\<lambda>ls. ls @ [ledger_entry p c]) db)))))"

definition reverse_votes :: "string \<Rightarrow> account option \<Rightarrow> pay_db \<Rightarrow> pay_db" where
  "reverse_votes r actor db =
     (let counted = (\<lambda>l. lv_payment l = Some r \<and> lv_status l = LEDGER_SUCCESS) in
      if exists_where counted (pd_ledger db)
      then record_pay (pay_note r ''REVERSE'' actor)
             (change_ledger (update_where counted (\<lambda>l. l\<lparr>lv_status := LEDGER_REVERSED\<rparr>)) db)
      else db)"

section \<open>What the gateway says\<close>

record charge =
  ch_status :: string
  ch_amount :: int
  ch_currency :: string
  ch_channel :: string
  ch_card :: string
  ch_last4 :: string
  ch_brand :: string
  ch_bank :: string
  ch_country :: string
  ch_id :: string
  ch_ip :: string
  ch_fees :: "rat option"
  ch_paid_at :: string

definition charge_fields :: "pay_settings \<Rightarrow> int \<Rightarrow> charge \<Rightarrow> payment \<Rightarrow> payment" where
  "charge_fields S now ch p =
     p\<lparr>py_gateway_status := take 30 (lower (ch_status ch)),
       py_channel := take 30 (if ch_channel ch = [] then py_channel p else ch_channel ch),
       py_card := take 100 (ch_card ch), py_last4 := take 4 (ch_last4 ch), py_brand := take 30 (ch_brand ch),
       py_bank := take 80 (ch_bank ch), py_country := take 4 (ch_country ch), py_gateway_id := take 40 (ch_id ch),
       py_gateway_ip := (if ch_ip ch = [] then None else Some (ch_ip ch)),
       py_fees := (case ch_fees ch of Some f \<Rightarrow> Some (round_cents (f / 100)) | None \<Rightarrow> py_fees p),
       py_paid_at := (if ch_paid_at ch = [] then None else ps_parse_time S (ch_paid_at ch)),
       py_verified_at := Some now\<rparr>"

definition amount_ok :: "charge \<Rightarrow> payment \<Rightarrow> bool" where
  "amount_ok ch p \<longleftrightarrow> ch_amount ch = amount_minor p"

definition currency_ok :: "charge \<Rightarrow> payment \<Rightarrow> bool" where
  "currency_ok ch p \<longleftrightarrow>
     upper (if ch_currency ch = [] then py_currency p else ch_currency ch) = upper (py_currency p)"

text \<open>A success with another amount or currency is held and reported.\<close>

definition hold_mismatch :: "int \<Rightarrow> payment \<Rightarrow> pay_db \<Rightarrow> pay_db" where
  "hold_mismatch now p db =
     new_alert \<lparr>fe_id = 0, fe_kind = FRAUD_PAYMENT, fe_decision = HOLD, fe_score = 90, fe_signals = [(''amount_mismatch'', 90)],
         fe_event = py_event p, fe_payment = Some (py_ref p), fe_candidate = py_candidate p, fe_ip = None, fe_device = [],
         fe_status = ALERT_OPEN, fe_reviewed_by = None, fe_reviewed_at = None, fe_created = now\<rparr>
       (change_payment (py_ref p) (\<lambda>x. x\<lparr>py_held := True, py_hold_reason := ''Amount/currency mismatch''\<rparr>) db)"

definition paid_attempt :: "payment \<Rightarrow> pay_db \<Rightarrow> attempt" where
  "paid_attempt p db =
     \<lparr>at_kind = FRAUD_PAYMENT, at_request = None, at_event = (if py_event p = None then None else Some (pd_event db)),
      at_candidate = py_candidate p, at_email = py_email p, at_phone = py_phone p, at_device = py_device p, at_ip = py_ip p,
      at_card = py_card p, at_country = py_country p, at_amount = None, at_votes = py_total p, at_payment = Some (py_ref p),
      at_count = False\<rparr>"

fun decision_text :: "decision \<Rightarrow> string" where
  "decision_text ALLOW = ''ALLOW''"
| "decision_text MONITOR = ''MONITOR''"
| "decision_text CHALLENGE = ''CHALLENGE''"
| "decision_text HOLD = ''HOLD''"

definition risk_fields :: "assessment \<Rightarrow> payment \<Rightarrow> payment" where
  "risk_fields a p =
     (let before = limit_set (py_risk p); risk = max before (as_score a) in
      p\<lparr>py_risk := Some risk,
        py_decision := (if risk \<le> as_score a then decision_text (as_decision a) else py_decision p),
        py_held := (if held a then True else py_held p),
        py_hold_reason := (if held a then ''Risk score after payment'' else py_hold_reason p)\<rparr>)"

definition assess_paid :: "pay_settings \<Rightarrow> int \<Rightarrow> payment \<Rightarrow> pay_db \<Rightarrow> pay_db" where
  "assess_paid S now p db =
     (let (a, db') = assess S now (paid_attempt p db) db in change_payment (py_ref p) (risk_fields a) db')"

text \<open>What follows a confirmed success: the hold, then the votes or the invoice.\<close>

definition settle_votes :: "pay_settings \<Rightarrow> int \<Rightarrow> string \<Rightarrow> bool \<Rightarrow> account option \<Rightarrow> pay_db \<Rightarrow> pay_db" where
  "settle_votes S now r matches actor db =
     (case payment_row r db of
        None \<Rightarrow> db
      | Some p \<Rightarrow>
          if py_purpose p = VOTE \<and> \<not> py_held p then credit_votes now r actor db
          else if py_purpose p = INVOICE \<and> matches
          then (case py_invoice p of
                  Some n \<Rightarrow> db\<lparr>pd_billing := mark_invoice_paid (ps_billing S) now n (pd_billing db)\<rparr>
                | None \<Rightarrow> db)
          else db)"

definition settle :: "pay_settings \<Rightarrow> int \<Rightarrow> string \<Rightarrow> charge \<Rightarrow> account option \<Rightarrow> pay_db \<Rightarrow> pay_db" where
  "settle S now r ch actor db =
     (case payment_row r db of
        None \<Rightarrow> db
      | Some p \<Rightarrow>
          let matches = (amount_ok ch p \<and> currency_ok ch p);
              db1 = (if \<not> matches then hold_mismatch now p db
                     else if py_purpose p = VOTE \<and> \<not> py_held p \<and> \<not> py_credited p then assess_paid S now p db
                     else db)
          in settle_votes S now r matches actor db1)"

definition status_of :: "string \<Rightarrow> pay_db \<Rightarrow> pay_status option" where
  "status_of r db = map_option py_status (payment_row r db)"

definition apply_gateway_result ::
  "pay_settings \<Rightarrow> int \<Rightarrow> string \<Rightarrow> charge \<Rightarrow> string \<Rightarrow> account option \<Rightarrow> pay_db \<Rightarrow> pay_db" where
  "apply_gateway_result S now r ch source actor db =
     (if payment_row r db = None then db
      else
        let said = lower (ch_status ch) in
        if said = ''success'' then
          (let (changed, db1) = pay_transition r PAY_SUCCESS source actor (change_payment r (charge_fields S now ch) db)
           in if \<not> changed \<and> status_of r db1 \<noteq> Some PAY_SUCCESS then db1 else settle S now r ch actor db1)
        else if said = ''failed'' then snd (pay_transition r PAY_FAILED source actor db)
        else if said = ''abandoned'' then snd (pay_transition r PAY_ABANDONED source actor db)
        else if said = ''reversed'' then
          (let (changed, db1) = pay_transition r PAY_REVERSED source actor db
           in if changed then reverse_votes r actor db1 else db1)
        else snd (pay_transition r PAY_PENDING source actor
                    (change_payment r (\<lambda>p. p\<lparr>py_gateway_status := take 30 said\<rparr>) db)))"

section \<open>Tickets\<close>

definition apply_ticket_result :: "string \<Rightarrow> charge \<Rightarrow> pay_db \<Rightarrow> pay_db" where
  "apply_ticket_result r ch db =
     (let put = (\<lambda>st. db\<lparr>pd_tickets := update_where (\<lambda>t. tp_reference t = r) (\<lambda>t. t\<lparr>tp_status := st\<rparr>) (pd_tickets db)\<rparr>);
          said = lower (ch_status ch)
      in case first_where (\<lambda>t. tp_reference t = r) (pd_tickets db) of
           None \<Rightarrow> db
         | Some t \<Rightarrow>
             if tp_status t \<noteq> TICKET_PENDING then db
             else if said = ''success'' then
               (if ch_amount ch \<noteq> minor_units (expected_amount t) then db else put TICKET_SUCCESS)
             else if said \<in> {''failed'', ''abandoned'', ''reversed''} then put TICKET_FAILED
             else db)"

definition verify_and_apply ::
  "pay_settings \<Rightarrow> int \<Rightarrow> string \<Rightarrow> charge option \<Rightarrow> string \<Rightarrow> account option \<Rightarrow> pay_db \<Rightarrow> pay_db" where
  "verify_and_apply S now r answer source actor db =
     (case answer of
        None \<Rightarrow> db
      | Some ch \<Rightarrow>
          if payment_row r db \<noteq> None then apply_gateway_result S now r ch source actor db
          else apply_ticket_result r ch db)"

section \<open>Held payments\<close>

definition release_held_payment :: "int \<Rightarrow> string \<Rightarrow> account \<Rightarrow> pay_db \<Rightarrow> pay_db" where
  "release_held_payment now r analyst db =
     (let db1 = change_payment r (\<lambda>p. p\<lparr>py_held := False, py_hold_reason := []\<rparr>) db;
          db2 = credit_votes now r (Some analyst) (record_pay (pay_note r ''REVIEW'' (Some analyst)) db1)
      in pay_audit ''PAYMENT_HOLD_RELEASED'' (Some analyst) (Option.bind (payment_row r db) py_event \<noteq> None) db2)"

end
