(* ===== verification/Checkout.thy ===== *)
theory Checkout
  imports Payments
begin

text \<open>
  The beginning of a payment: \<open>initiate_vote_payment\<close> and \<open>initiate_invoice_payment\<close> of
  payments/service.py. The reference is drawn by the CSPRNG, so the positions it chooses
  are an argument, as is the gateway's answer: the checkout address and the access code, or
  None for a \<open>PaystackError\<close>. What was saved before a refusal stays saved.
\<close>

datatype pay_error =
    Unconfigured | Key_reused | Quote_refused quote_error | Contact_missing | Challenge_needed | Reference_taken
  | Gateway_refused | Nothing_awaits_payment | Not_refundable | Bad_refund_amount rat | Same_refund_person
  | Pay_access access_error | No_such_refund | Already_reviewed | Review_block block_error

record checkout =
  ck_candidate :: candidate
  ck_votes :: string
  ck_package :: "vote_package option"
  ck_code :: string
  ck_email :: string
  ck_phone :: string
  ck_name :: string
  ck_key :: string
  ck_channel :: string
  ck_request :: request_info
  ck_choices :: "nat list"
  ck_answer :: "(string \<times> string) option"

definition pay_configured :: "pay_settings \<Rightarrow> bool" where
  "pay_configured S \<longleftrightarrow> ps_fake S \<or> ps_secret S \<noteq> []"

definition new_reference :: "nat list \<Rightarrow> string" where
  "new_reference choices = ''FV-'' @ access_code (take 14 choices)"

definition set_payer :: "pay_settings \<Rightarrow> string \<Rightarrow> string \<Rightarrow> payment \<Rightarrow> payment" where
  "set_payer S email phone p =
     (let e = lower (strip email); t = normalize_phone phone in
      p\<lparr>py_email := e, py_email_index := index_of_contact S ''email'' e, py_phone := t,
        py_phone_index := index_of_contact S ''phone'' t\<rparr>)"

definition blank_payment :: "int \<Rightarrow> string \<Rightarrow> pay_purpose \<Rightarrow> string \<Rightarrow> request_info \<Rightarrow> payment" where
  "blank_payment now r purpose currency q =
     \<lparr>py_ref = r, py_key = None, py_purpose = purpose, py_event = None, py_candidate = None, py_package = None,
      py_discount = None, py_invoice = None, py_votes = 0, py_bonus = 0, py_unit = 0, py_gross = 0, py_discount_amount = 0,
      py_amount = 0, py_currency = currency, py_email = [], py_email_index = [], py_phone = [], py_phone_index = [],
      py_name = [], py_channel = [], py_status = PAY_INITIALIZED, py_gateway_status = [], py_gateway_id = [], py_url = [],
      py_access_code = [], py_card = [], py_country = [], py_last4 = [], py_brand = [], py_bank = [], py_gateway_ip = None,
      py_fees = None, py_paid_at = None, py_risk = None, py_decision = [], py_held = False, py_hold_reason = [],
      py_ip = ri_ip q, py_device = ri_device q, py_user_agent = ri_agent q, py_verified_at = None, py_credited_at = None,
      py_credited = False, py_refunded = 0, py_created = now\<rparr>"

definition checkout_attempt :: "checkout \<Rightarrow> quote \<Rightarrow> pay_db \<Rightarrow> attempt" where
  "checkout_attempt ck q db =
     \<lparr>at_kind = FRAUD_PAYMENT, at_request = Some (ck_request ck), at_event = Some (pd_event db),
      at_candidate = Some (ca_id (ck_candidate ck)), at_email = ck_email ck, at_phone = ck_phone ck, at_device = [],
      at_ip = None, at_card = [], at_country = [], at_amount = Some (qt_amount q), at_votes = qt_total q,
      at_payment = None, at_count = True\<rparr>"

definition vote_payment :: "pay_settings \<Rightarrow> int \<Rightarrow> checkout \<Rightarrow> quote \<Rightarrow> assessment \<Rightarrow> pay_db \<Rightarrow> payment" where
  "vote_payment S now ck q risk db =
     set_payer S (ck_email ck) (ck_phone ck)
       ((blank_payment now (new_reference (ck_choices ck)) VOTE (ev_currency (pd_event db)) (ck_request ck))
          \<lparr>py_key := (if ck_key ck = [] then None else Some (ck_key ck)), py_event := Some (ev_id (pd_event db)),
           py_candidate := Some (ca_id (ck_candidate ck)), py_package := map_option vp_id (qt_package q),
           py_discount := map_option dc_code (qt_code q), py_votes := qt_votes q, py_bonus := qt_bonus q,
           py_unit := qt_unit q, py_gross := qt_gross q, py_discount_amount := qt_discount q, py_amount := qt_amount q,
           py_name := take 150 (ck_name ck), py_channel := ck_channel ck, py_risk := Some (as_score risk),
           py_decision := decision_text (as_decision risk), py_held := held risk,
           py_hold_reason := (if held risk then ''Risk score at checkout'' else [])\<rparr>)"

definition opening_entry :: "string \<Rightarrow> payment_event" where
  "opening_entry r = (pay_note r ''INIT'' None)\<lparr>pe_to := Some PAY_INITIALIZED\<rparr>"

text \<open>The payment row with its first history entry; the alert of the assessment now names it.\<close>

definition insert_payment :: "payment \<Rightarrow> int option \<Rightarrow> pay_db \<Rightarrow> pay_db" where
  "insert_payment p alert db =
     record_pay (opening_entry (py_ref p))
       (db\<lparr>pd_payments := pd_payments db @ [p],
          pd_alerts := (case alert of
              None \<Rightarrow> pd_alerts db
            | Some i \<Rightarrow> update_where (\<lambda>e. fe_id e = i) (\<lambda>e. e\<lparr>fe_payment := Some (py_ref p)\<rparr>) (pd_alerts db))\<rparr>)"

text \<open>What the answer of the gateway does to the new payment.\<close>

definition open_checkout :: "string \<Rightarrow> (string \<times> string) option \<Rightarrow> pay_db \<Rightarrow> (pay_error + string) \<times> pay_db" where
  "open_checkout r answer db =
     (case answer of
        None \<Rightarrow> (Inl Gateway_refused, snd (pay_transition r PAY_FAILED ''INIT'' None db))
      | Some (url, code) \<Rightarrow>
          (Inr r, snd (pay_transition r PAY_PENDING ''INIT'' None
                    (change_payment r (\<lambda>p. p\<lparr>py_url := url, py_access_code := code\<rparr>) db))))"

text \<open>
  The database refuses a reference that is taken; the code then looks for a payment with
  the same key, and without a key for the newest one that has none.
\<close>

definition same_key_payment :: "string \<Rightarrow> pay_db \<Rightarrow> pay_error + string" where
  "same_key_payment key db =
     (case first_where (\<lambda>p. py_key p = (if key = [] then None else Some key)) (rev (pd_payments db)) of
        Some p \<Rightarrow> Inr (py_ref p) | None \<Rightarrow> Inl Reference_taken)"

definition start_payment :: "pay_settings \<Rightarrow> int \<Rightarrow> checkout \<Rightarrow> quote \<Rightarrow> pay_db \<Rightarrow> (pay_error + string) \<times> pay_db" where
  "start_payment S now ck q db =
     (let (risk, db1) = assess S now (checkout_attempt ck q db) db; r = new_reference (ck_choices ck) in
      if challenged risk \<and> ps_captcha S \<and> \<not> ri_human (ck_request ck) then (Inl Challenge_needed, db1)
      else if payment_row r db1 \<noteq> None then (same_key_payment (ck_key ck) db1, db1)
      else open_checkout r (ck_answer ck) (insert_payment (vote_payment S now ck q risk db1) (as_alert risk) db1))"

definition keyed_payment :: "string \<Rightarrow> pay_db \<Rightarrow> payment option" where
  "keyed_payment key db =
     (if key = [] then None else first_where (\<lambda>p. py_key p = Some key) (pd_payments db))"

definition initiate_vote_payment :: "pay_settings \<Rightarrow> int \<Rightarrow> checkout \<Rightarrow> pay_db \<Rightarrow> (pay_error + string) \<times> pay_db" where
  "initiate_vote_payment S now ck db =
     (if \<not> pay_configured S then (Inl Unconfigured, db)
      else case keyed_payment (ck_key ck) db of
        Some p \<Rightarrow>
          if py_event p \<noteq> Some (ev_id (pd_event db)) \<or> py_candidate p \<noteq> Some (ca_id (ck_candidate ck))
          then (Inl Key_reused, db) else (Inr (py_ref p), db)
      | None \<Rightarrow>
          (let q = make_quote S now (ck_candidate ck) (ck_votes ck) (ck_package ck) (ck_code ck) (ck_email ck) (ck_phone ck) db
           in case qt_errors q of
                e # _ \<Rightarrow> (Inl (Quote_refused e), db)
              | [] \<Rightarrow>
                  if ck_email ck = [] \<and> ck_phone ck = [] then (Inl Contact_missing, db)
                  else start_payment S now ck q db))"

section \<open>Invoices\<close>

text \<open>The newest payment of the invoice still under way, when it has an address to return to.\<close>

definition payable_again :: "string \<Rightarrow> pay_db \<Rightarrow> payment option" where
  "payable_again number db =
     (case first_where (\<lambda>p. py_invoice p = Some number \<and> py_status p \<in> {PAY_INITIALIZED, PAY_PENDING}) (rev (pd_payments db)) of
        Some p \<Rightarrow> if py_url p = [] then None else Some p
      | None \<Rightarrow> None)"

definition invoice_payment :: "pay_settings \<Rightarrow> int \<Rightarrow> invoice \<Rightarrow> string \<Rightarrow> string \<Rightarrow> request_info \<Rightarrow> payment" where
  "invoice_payment S now v email r q =
     set_payer S email []
       ((blank_payment now r INVOICE (iv_currency v) q)
          \<lparr>py_invoice := Some (iv_number v), py_gross := iv_total v, py_amount := iv_total v\<rparr>)"

definition initiate_invoice_payment ::
  "pay_settings \<Rightarrow> int \<Rightarrow> string \<Rightarrow> string \<Rightarrow> request_info \<Rightarrow> nat list \<Rightarrow> (string \<times> string) option \<Rightarrow> pay_db
    \<Rightarrow> (pay_error + string) \<times> pay_db" where
  "initiate_invoice_payment S now number email q choices answer db =
     (if \<not> pay_configured S then (Inl Unconfigured, db)
      else case first_where (\<lambda>v. iv_number v = number) (bl_invoices (pd_billing db)) of
        None \<Rightarrow> (Inl Nothing_awaits_payment, db)
      | Some v \<Rightarrow>
          if iv_status v \<noteq> INVOICE_OPEN \<or> iv_total v \<le> 0 then (Inl Nothing_awaits_payment, db)
          else
            (case payable_again number db of
               Some p \<Rightarrow> (Inr (py_ref p), db)
             | None \<Rightarrow>
                 (let r = new_reference choices in
                  if payment_row r db \<noteq> None then (Inl Reference_taken, db)
                  else open_checkout r answer (insert_payment (invoice_payment S now v email r q) None db))))"

end
