(* ===== verification/Refund_Ops.thy ===== *)
theory Refund_Ops
  imports Checkout
begin

text \<open>
  A refund from its approval to its completion: \<open>approve_refund\<close> and \<open>_complete_refund\<close> of
  payments/service.py. The gateway's answer is the id of its refund, or None for an error.
\<close>

definition complete_refund :: "int \<Rightarrow> int \<Rightarrow> pay_db \<Rightarrow> pay_db" where
  "complete_refund now i db =
     (case refund_row i db of
        None \<Rightarrow> db
      | Some f \<Rightarrow>
          if rf_status f = RF_PROCESSED then db
          else
            (case payment_row (rf_payment f) db of
               None \<Rightarrow> db
             | Some p \<Rightarrow>
                 (let r = rf_payment f; refunded = py_refunded p + rf_amount f;
                      db1 = change_payment r (\<lambda>x. x\<lparr>py_refunded := refunded\<rparr>)
                              (change_refund i (\<lambda>x. x\<lparr>rf_status := RF_PROCESSED, rf_processed_at := Some now\<rparr>) db);
                      to = (if py_amount p \<le> refunded then PAY_REFUNDED else PAY_PARTIALLY_REFUNDED);
                      db2 = snd (pay_transition r to ''REFUND'' None db1);
                      db3 = (if rf_reverse f then reverse_votes r None db2 else db2)
                  in pay_audit ''REFUND_PROCESSED'' None (py_event p \<noteq> None) db3)))"

definition may_approve_refund :: "account \<Rightarrow> refund \<Rightarrow> payment \<Rightarrow> pay_db \<Rightarrow> pay_error + unit" where
  "may_approve_refund approver f p db =
     (case check_perm (pd_tenancy db) (Some approver) ''refund.approve'' (pay_subject p db) of
        Inl e \<Rightarrow> Inl (Pay_access e)
      | Inr _ \<Rightarrow> if us_id approver = rf_requested_by f then Inl Same_refund_person else Inr ())"

definition submit_refund :: "pay_settings \<Rightarrow> int \<Rightarrow> refund \<Rightarrow> payment \<Rightarrow> account \<Rightarrow> string option \<Rightarrow> pay_db \<Rightarrow> pay_db" where
  "submit_refund S now f p approver answer db =
     (let note = pay_note (rf_payment f) ''REFUND'' (Some approver);
          db1 = change_refund (rf_id f) (\<lambda>x. x\<lparr>rf_status := RF_APPROVED, rf_approved_by := Some (us_id approver)\<rparr>) db
      in case answer of
           None \<Rightarrow> record_pay note (change_refund (rf_id f) (\<lambda>x. x\<lparr>rf_status := RF_FAILED, rf_error := ''Gateway refused refund''\<rparr>) db1)
         | Some g \<Rightarrow>
             (let db2 = pay_audit ''REFUND_APPROVED'' (Some approver) (py_event p \<noteq> None)
                    (record_pay note (change_refund (rf_id f) (\<lambda>x. x\<lparr>rf_status := RF_PROCESSING, rf_gateway_id := take 40 g\<rparr>) db1))
              in if ps_fake S then complete_refund now (rf_id f) db2 else db2))"

definition approve_refund ::
  "pay_settings \<Rightarrow> int \<Rightarrow> int \<Rightarrow> account \<Rightarrow> bool \<Rightarrow> string option \<Rightarrow> pay_db \<Rightarrow> pay_error + pay_db" where
  "approve_refund S now i approver via_approval answer db =
     (case refund_row i db of
        None \<Rightarrow> Inl No_such_refund
      | Some f \<Rightarrow>
          (case payment_row (rf_payment f) db of
             None \<Rightarrow> Inl No_such_refund
           | Some p \<Rightarrow>
               (case (if via_approval then Inr () else may_approve_refund approver f p db) of
                  Inl e \<Rightarrow> Inl e
                | Inr _ \<Rightarrow> if rf_status f \<noteq> RF_REQUESTED then Inr db else Inr (submit_refund S now f p approver answer db))))"

end
