(* ===== verification/Approvals.thy ===== *)
theory Approvals
  imports Refund_Ops Results
begin

text \<open>
  elections/integrity.py, the controls over an election that need a second person: freezes
  and the dual-approval requests with the actions they execute.

  A request is checked, stored, and either executed at once (an election that does not
  require dual approval) or decided later by somebody else. An action runs in a
  transaction: when it raises, the request is marked failed and nothing else of it stays.
  The database is the one of the payments, because a refund is one of the actions.
\<close>

datatype control_error =
    Control_access access_error | Reason_missing | Already_decided | Request_expired | Own_request | Freeze_locked
  | Unknown_scope | Bad_time | Not_later | Cannot_extend | Results_certified | Control_lifecycle lifecycle_error
  | Control_roll voters_error | Control_results results_error | Control_refund pay_error | Bad_payload

section \<open>Freezes\<close>

definition freeze_scopes :: "string list" where
  "freeze_scopes = [''config'', ''ballot'', ''candidates'', ''voters'']"

definition set_frozen :: "string \<Rightarrow> bool \<Rightarrow> event \<Rightarrow> event" where
  "set_frozen scope b ev =
     (if scope = ''config'' then ev\<lparr>ev_config_frozen := b\<rparr>
      else if scope = ''ballot'' then ev\<lparr>ev_ballot_frozen := b\<rparr>
      else if scope = ''candidates'' then ev\<lparr>ev_candidates_frozen := b\<rparr>
      else if scope = ''voters'' then ev\<lparr>ev_voters_frozen := b\<rparr>
      else ev)"

definition freeze :: "string \<Rightarrow> account option \<Rightarrow> election_db \<Rightarrow> control_error + election_db" where
  "freeze scope actor db =
     (case check_perm (db_tenancy db) actor ''election.freeze'' (Election (db_event db)) of
        Inl e \<Rightarrow> Inl (Control_access e)
      | Inr _ \<Rightarrow>
          if scope \<notin> set freeze_scopes then Inl Unknown_scope
          else if frozen_flag (db_event db) scope then Inr db
          else Inr (log_note (event_note ''ELECTION_FROZEN'' actor db) (update_event (set_frozen scope True) db)))"

section \<open>Actions\<close>

fun action_perm :: "approval_action \<Rightarrow> string" where
  "action_perm UNFREEZE = ''election.freeze''"
| "action_perm EXTEND_VOTING = ''election.close''"
| "action_perm REOPEN_VOTING = ''election.close''"
| "action_perm BULK_CREDENTIAL_RESET = ''voter.credentials''"
| "action_perm DECERTIFY = ''results.certify''"
| "action_perm RELEASE_LEGAL_HOLD = ''dispute.manage''"
| "action_perm REFUND = ''refund.create''"

fun action_name :: "approval_action \<Rightarrow> string" where
  "action_name UNFREEZE = ''UNFREEZE''"
| "action_name EXTEND_VOTING = ''EXTEND_VOTING''"
| "action_name REOPEN_VOTING = ''REOPEN_VOTING''"
| "action_name BULK_CREDENTIAL_RESET = ''BULK_CREDENTIAL_RESET''"
| "action_name DECERTIFY = ''DECERTIFY''"
| "action_name RELEASE_LEGAL_HOLD = ''RELEASE_LEGAL_HOLD''"
| "action_name REFUND = ''REFUND''"

definition exec_unfreeze :: "approval_payload \<Rightarrow> election_db \<Rightarrow> control_error + election_db" where
  "exec_unfreeze payload db =
     (case payload of
        Freeze_scope scope \<Rightarrow>
          if scope \<in> set freeze_scopes then Inr (update_event (set_frozen scope False) db) else Inl Unknown_scope
      | _ \<Rightarrow> Inl Bad_payload)"

definition payload_time :: "approval_payload \<Rightarrow> control_error + int" where
  "payload_time payload =
     (case payload of New_end (Some t) \<Rightarrow> Inr t | New_end None \<Rightarrow> Inl Bad_time | _ \<Rightarrow> Inl Bad_payload)"

definition exec_extend :: "int \<Rightarrow> approval_payload \<Rightarrow> election_db \<Rightarrow> control_error + election_db" where
  "exec_extend now payload db =
     (case payload_time payload of
        Inl e \<Rightarrow> Inl e
      | Inr t \<Rightarrow>
          if t \<le> now \<or> t \<le> ev_end (db_event db) then Inl Not_later
          else if ev_status (db_event db) \<notin> {OPEN, PAUSED, SCHEDULED} then Inl Cannot_extend
          else Inr (update_event (\<lambda>ev. ev\<lparr>ev_end := t\<rparr>) db))"

definition exec_reopen ::
  "env \<Rightarrow> int \<Rightarrow> approval_request \<Rightarrow> account \<Rightarrow> election_db \<Rightarrow> control_error + election_db" where
  "exec_reopen E now q approver db =
     (case payload_time (rq_payload q) of
        Inl e \<Rightarrow> Inl e
      | Inr t \<Rightarrow>
          if t \<le> now then Inl Not_later
          else if exists_where (\<lambda>r. er_status r = RESULT_APPROVED) (db_results db) then Inl Results_certified
          else
            (case transition E now ''reopen_voting'' (Some approver) (rq_reason q) True
                    (\<lambda>ev. ev\<lparr>ev_end := t, ev_closed_at := None\<rparr>) False db of
               Inl e \<Rightarrow> Inl (Control_lifecycle e) | Inr db' \<Rightarrow> Inr db'))"

definition exec_bulk_reset ::
  "env \<Rightarrow> int \<Rightarrow> (int \<Rightarrow> nat list) \<Rightarrow> account \<Rightarrow> election_db \<Rightarrow> control_error + election_db" where
  "exec_bulk_reset E now choices approver db =
     (case reset_all_unused_credentials E now choices (Some approver) db of
        (Inl e, _) \<Rightarrow> Inl (Control_roll e) | (Inr n, db') \<Rightarrow> Inr db')"

definition exec_decertify ::
  "env \<Rightarrow> int \<Rightarrow> approval_request \<Rightarrow> account \<Rightarrow> election_db \<Rightarrow> control_error + election_db" where
  "exec_decertify E now q approver db =
     (case revoke_certification E now (Some approver) (rq_reason q) db of
        Inl e \<Rightarrow> Inl (Control_results e) | Inr db' \<Rightarrow> Inr db')"

definition exec_release_hold :: "election_db \<Rightarrow> control_error + election_db" where
  "exec_release_hold db = Inr (update_event (\<lambda>ev. ev\<lparr>ev_legal_hold := False\<rparr>) db)"

text \<open>The random choices and the answer of the gateway an action may need.\<close>

record exec_input =
  xi_choices :: "int \<Rightarrow> nat list"
  xi_refund :: "string option"

definition exec_refund ::
  "pay_settings \<Rightarrow> int \<Rightarrow> exec_input \<Rightarrow> approval_payload \<Rightarrow> account \<Rightarrow> pay_db \<Rightarrow> control_error + pay_db" where
  "exec_refund S now x payload approver db =
     (case payload of
        Refund_of i \<Rightarrow>
          (case first_where (\<lambda>f. str_int (rf_id f) = i) (pd_refunds db) of
             None \<Rightarrow> Inl (Control_refund No_such_refund)
           | Some f \<Rightarrow>
               (case approve_refund S now (rf_id f) approver True (xi_refund x) db of
                  Inl e \<Rightarrow> Inl (Control_refund e) | Inr db' \<Rightarrow> Inr db'))
      | _ \<Rightarrow> Inl Bad_payload)"

text \<open>An action on the election's tables.\<close>

definition on_election :: "(election_db \<Rightarrow> control_error + election_db) \<Rightarrow> pay_db \<Rightarrow> control_error + pay_db" where
  "on_election f db =
     (case f (pd_election db) of Inl e \<Rightarrow> Inl e | Inr e' \<Rightarrow> Inr (change_election (\<lambda>_. e') db))"

definition run_action ::
  "pay_settings \<Rightarrow> int \<Rightarrow> exec_input \<Rightarrow> approval_request \<Rightarrow> account \<Rightarrow> pay_db \<Rightarrow> control_error + pay_db" where
  "run_action S now x q approver db =
     (let E = ps_env S in
      case rq_action q of
        UNFREEZE \<Rightarrow> on_election (exec_unfreeze (rq_payload q)) db
      | EXTEND_VOTING \<Rightarrow> on_election (exec_extend now (rq_payload q)) db
      | REOPEN_VOTING \<Rightarrow> on_election (exec_reopen E now q approver) db
      | BULK_CREDENTIAL_RESET \<Rightarrow> on_election (exec_bulk_reset E now (xi_choices x) approver) db
      | DECERTIFY \<Rightarrow> on_election (exec_decertify E now q approver) db
      | RELEASE_LEGAL_HOLD \<Rightarrow> on_election exec_release_hold db
      | REFUND \<Rightarrow> exec_refund S now x (rq_payload q) approver db)"

section \<open>Requests\<close>

definition request_row :: "int \<Rightarrow> pay_db \<Rightarrow> approval_request option" where
  "request_row i db = first_where (\<lambda>q. rq_id q = i) (db_requests (pd_election db))"

definition change_request :: "int \<Rightarrow> (approval_request \<Rightarrow> approval_request) \<Rightarrow> pay_db \<Rightarrow> pay_db" where
  "change_request i f db =
     change_election (\<lambda>e. e\<lparr>db_requests := update_where (\<lambda>q. rq_id q = i) f (db_requests e)\<rparr>) db"

definition request_note :: "string \<Rightarrow> approval_request \<Rightarrow> account \<Rightarrow> string \<Rightarrow> string \<Rightarrow> pay_db \<Rightarrow> pay_db" where
  "request_note ending q actor outcome reason db =
     change_election (\<lambda>e. log_note
       ((note_about (''APPROVAL_'' @ action_name (rq_action q) @ CHR ''_'' # ending) (Some actor)
          (''elections.ApprovalRequest'', str_int (rq_id q)) e)\<lparr>an_result := outcome, an_reason := reason\<rparr>) e) db"

definition execute :: "pay_settings \<Rightarrow> int \<Rightarrow> exec_input \<Rightarrow> approval_request \<Rightarrow> account \<Rightarrow> pay_db \<Rightarrow> pay_db" where
  "execute S now x q approver db =
     (case run_action S now x q approver db of
        Inl e \<Rightarrow> request_note ''EXECUTED'' q approver ''FAILURE'' (rq_reason q)
                  (change_request (rq_id q) (\<lambda>r. r\<lparr>rq_status := REQ_FAILED\<rparr>) db)
      | Inr db' \<Rightarrow> request_note ''EXECUTED'' q approver ''SUCCESS'' (rq_reason q)
                    (change_request (rq_id q) (\<lambda>r. r\<lparr>rq_status := REQ_EXECUTED, rq_executed_at := Some now\<rparr>) db'))"

definition request_ttl :: int where
  "request_ttl = 3 * 24 * 3600 * 1000000"

definition new_request ::
  "int \<Rightarrow> approval_action \<Rightarrow> approval_payload \<Rightarrow> string \<Rightarrow> account \<Rightarrow> pay_db \<Rightarrow> approval_request" where
  "new_request now action payload reason requester db =
     \<lparr>rq_id = next_pk rq_id (db_requests (pd_election db)), rq_action = action, rq_payload = payload, rq_reason = strip reason,
      rq_status = REQ_PENDING, rq_requested_by = us_id requester, rq_decided_by = None, rq_decided_at = None, rq_note = [],
      rq_executed_at = None, rq_expires = now + request_ttl\<rparr>"

definition request_approval ::
  "pay_settings \<Rightarrow> int \<Rightarrow> exec_input \<Rightarrow> approval_action \<Rightarrow> approval_payload \<Rightarrow> string \<Rightarrow> account \<Rightarrow> pay_db
    \<Rightarrow> control_error + int \<times> pay_db" where
  "request_approval S now x action payload reason requester db =
     (case check_perm (pd_tenancy db) (Some requester) (action_perm action) (Election (pd_event db)) of
        Inl e \<Rightarrow> Inl (Control_access e)
      | Inr _ \<Rightarrow>
          if strip reason = [] then Inl Reason_missing
          else
            let q = new_request now action payload reason requester db;
                db1 = request_note ''REQUESTED'' q requester ''SUCCESS'' reason
                        (change_election (\<lambda>e. e\<lparr>db_requests := db_requests e @ [q]\<rparr>) db)
            in if \<not> ev_dual_approval (pd_event db)
               then (let q' = q\<lparr>rq_decided_by := Some (us_id requester), rq_decided_at := Some now,
                              rq_note := ''Dual approval not required for this election.'', rq_status := REQ_APPROVED\<rparr>
                     in Inr (rq_id q, execute S now x q' requester (change_request (rq_id q) (\<lambda>_. q') db1)))
               else Inr (rq_id q, change_election (queue_task (Notify_approvers (rq_id q))) db1))"

definition unfreeze ::
  "pay_settings \<Rightarrow> int \<Rightarrow> exec_input \<Rightarrow> string \<Rightarrow> string \<Rightarrow> account \<Rightarrow> pay_db \<Rightarrow> control_error + int \<times> pay_db" where
  "unfreeze S now x scope reason actor db =
     (case check_perm (pd_tenancy db) (Some actor) ''election.freeze'' (Election (pd_event db)) of
        Inl e \<Rightarrow> Inl (Control_access e)
      | Inr _ \<Rightarrow>
          if ev_status (pd_event db) \<in> set locked_states then Inl Freeze_locked
          else request_approval S now x UNFREEZE (Freeze_scope scope) reason actor db)"

text \<open>\<open>q\<close> is the row; a request past its time is marked expired before the error is raised.\<close>

definition decide_request ::
  "pay_settings \<Rightarrow> int \<Rightarrow> exec_input \<Rightarrow> int \<Rightarrow> account \<Rightarrow> bool \<Rightarrow> string \<Rightarrow> pay_db \<Rightarrow> (control_error + unit) \<times> pay_db" where
  "decide_request S now x i approver approve note db =
     (case request_row i db of
        None \<Rightarrow> (Inl Already_decided, db)
      | Some q \<Rightarrow>
          if rq_status q \<noteq> REQ_PENDING then (Inl Already_decided, db)
          else if rq_expires q \<le> now then (Inl Request_expired, change_request i (\<lambda>r. r\<lparr>rq_status := REQ_EXPIRED\<rparr>) db)
          else
            (case check_perm (pd_tenancy db) (Some approver) ''approval.decide'' (Election (pd_event db)) of
               Inl e \<Rightarrow> (Inl (Control_access e), db)
             | Inr _ \<Rightarrow>
                 if us_id approver = rq_requested_by q then (Inl Own_request, db)
                 else
                   let q' = q\<lparr>rq_decided_by := Some (us_id approver), rq_decided_at := Some now, rq_note := note,
                              rq_status := (if approve then REQ_APPROVED else REQ_REJECTED)\<rparr>;
                       db1 = request_note (if approve then ''APPROVED'' else ''REJECTED'') q' approver ''SUCCESS'' note
                               (change_request i (\<lambda>_. q') db)
                   in (Inr (), if approve then execute S now x q' approver db1 else db1)))"

definition set_legal_hold ::
  "pay_settings \<Rightarrow> int \<Rightarrow> exec_input \<Rightarrow> bool \<Rightarrow> string \<Rightarrow> account \<Rightarrow> pay_db \<Rightarrow> control_error + pay_db" where
  "set_legal_hold S now x enabled reason actor db =
     (if enabled
      then (case check_perm (pd_tenancy db) (Some actor) ''dispute.manage'' (Election (pd_event db)) of
              Inl e \<Rightarrow> Inl (Control_access e)
            | Inr _ \<Rightarrow>
                Inr (change_election (\<lambda>e. log_note ((event_note ''LEGAL_HOLD_SET'' (Some actor) e)\<lparr>an_reason := reason\<rparr>)
                       (update_event (\<lambda>ev. ev\<lparr>ev_legal_hold := True\<rparr>) e)) db))
      else (case request_approval S now x RELEASE_LEGAL_HOLD No_payload reason actor db of
              Inl e \<Rightarrow> Inl e | Inr (_, db') \<Rightarrow> Inr db'))"

end
