(* ===== verification/Refunds.thy ===== *)
theory Refunds
  imports Approvals
begin

text \<open>
  Asking for a refund, rejecting a held payment (payments/service.py) and the analyst's
  review of a fraud alert (fraud/service.py).

  A refund above the threshold asks for the approval of a second person; the approval of a
  refund of an invoice payment, which belongs to no election, is left out (the refund stays
  requested). A refusal that comes after the refund row was saved leaves the row.
\<close>

definition new_refund :: "int \<Rightarrow> payment \<Rightarrow> rat \<Rightarrow> string \<Rightarrow> account \<Rightarrow> bool \<Rightarrow> pay_db \<Rightarrow> refund" where
  "new_refund now p amount reason actor reverse db =
     \<lparr>rf_id = next_pk rf_id (pd_refunds db), rf_payment = py_ref p, rf_amount = amount, rf_reason = reason,
      rf_status = RF_REQUESTED, rf_reverse = reverse, rf_gateway_id = [], rf_requested_by = us_id actor, rf_approved_by = None,
      rf_requested_at = now, rf_processed_at = None, rf_error = []\<rparr>"

definition refundable :: "rat \<Rightarrow> payment \<Rightarrow> control_error + unit" where
  "refundable amount p =
     (if py_status p \<notin> {PAY_SUCCESS, PAY_PARTIALLY_REFUNDED, PAY_DISPUTED} then Inl (Control_refund Not_refundable)
      else if amount \<le> 0 \<or> py_amount p - py_refunded p < amount
      then Inl (Control_refund (Bad_refund_amount (py_amount p - py_refunded p)))
      else Inr ())"

text \<open>What follows the request: a second person's approval, or the requester's own.\<close>

definition pursue_refund ::
  "pay_settings \<Rightarrow> int \<Rightarrow> exec_input \<Rightarrow> refund \<Rightarrow> payment \<Rightarrow> account \<Rightarrow> pay_db \<Rightarrow> (control_error + int) \<times> pay_db" where
  "pursue_refund S now x f p actor db =
     (if ps_refund_threshold S < rf_amount f
      then (if py_event p = None then (Inr (rf_id f), db)
            else (case request_approval S now x REFUND (Refund_of (str_int (rf_id f))) (rf_reason f) actor db of
                    Inl e \<Rightarrow> (Inl e, db) | Inr (_, db') \<Rightarrow> (Inr (rf_id f), db')))
      else if has_perm (pd_tenancy db) (Some actor) ''refund.approve'' (pay_subject p db) = Inr True
      then (case approve_refund S now (rf_id f) actor True (xi_refund x) db of
              Inl e \<Rightarrow> (Inl (Control_refund e), db) | Inr db' \<Rightarrow> (Inr (rf_id f), db'))
      else (Inr (rf_id f), db))"

definition request_refund ::
  "pay_settings \<Rightarrow> int \<Rightarrow> exec_input \<Rightarrow> string \<Rightarrow> rat \<Rightarrow> string \<Rightarrow> account \<Rightarrow> bool \<Rightarrow> pay_db \<Rightarrow> (control_error + int) \<times> pay_db" where
  "request_refund S now x r asked reason actor reverse db =
     (case payment_row r db of
        None \<Rightarrow> (Inl (Control_refund No_such_refund), db)
      | Some p \<Rightarrow>
          (case check_perm (pd_tenancy db) (Some actor) ''refund.create'' (pay_subject p db) of
             Inl e \<Rightarrow> (Inl (Control_access e), db)
           | Inr _ \<Rightarrow>
               (let amount = round_cents asked in
                case refundable amount p of
                  Inl e \<Rightarrow> (Inl e, db)
                | Inr _ \<Rightarrow>
                    (let f = new_refund now p amount reason actor reverse db;
                         db1 = pay_audit ''REFUND_REQUESTED'' (Some actor) (py_event p \<noteq> None)
                           (record_pay (pay_note r ''REFUND'' (Some actor)) (db\<lparr>pd_refunds := pd_refunds db @ [f]\<rparr>))
                     in pursue_refund S now x f p actor db1))))"

definition reject_held_payment ::
  "pay_settings \<Rightarrow> int \<Rightarrow> exec_input \<Rightarrow> payment \<Rightarrow> account \<Rightarrow> string \<Rightarrow> pay_db \<Rightarrow> (control_error + unit) \<times> pay_db" where
  "reject_held_payment S now x p analyst notes db =
     (let db1 = pay_audit ''PAYMENT_HOLD_REJECTED'' (Some analyst) (py_event p \<noteq> None)
            (record_pay (pay_note (py_ref p) ''REVIEW'' (Some analyst)) db)
      in if py_status p = PAY_SUCCESS
            \<and> has_perm (pd_tenancy db) (Some analyst) ''refund.create'' (pay_subject p db) = Inr True
         then (case request_refund S now x (py_ref p) (py_amount p) (''Rejected by fraud review: '' @ notes) analyst True db1 of
                 (Inl e, db2) \<Rightarrow> (Inl e, db2) | (Inr _, db2) \<Rightarrow> (Inr (), db2))
         else (Inr (), db1))"

section \<open>The review of an alert\<close>

definition alert_row :: "int \<Rightarrow> pay_db \<Rightarrow> fraud_event option" where
  "alert_row i db = first_where (\<lambda>e. fe_id e = i) (pd_alerts db)"

definition block_if :: "pay_settings \<Rightarrow> bool \<Rightarrow> block_kind \<Rightarrow> string \<Rightarrow> account \<Rightarrow> bool \<Rightarrow> int option \<Rightarrow> pay_db \<Rightarrow> block_error + pay_db" where
  "block_if S b kind v analyst raw org db = (if b then add_block S kind v (Some analyst) raw None org db else Inr db)"

text \<open>The device of the alert, the card and the email of its payment.\<close>

definition block_subject ::
  "pay_settings \<Rightarrow> fraud_event \<Rightarrow> payment option \<Rightarrow> account \<Rightarrow> pay_db \<Rightarrow> block_error + pay_db" where
  "block_subject S e p analyst db =
     (let org = (if is_platform_admin analyst \<or> fe_event e = None then None else ev_org (pd_event db));
          mark = (case p of Some q \<Rightarrow> py_card q | None \<Rightarrow> []);
          email = (case p of Some q \<Rightarrow> py_email_index q | None \<Rightarrow> [])
      in case block_if S (fe_device e \<noteq> []) BLOCK_DEVICE (fe_device e) analyst True org db of
           Inl b \<Rightarrow> Inl b
         | Inr db1 \<Rightarrow>
             (case block_if S (mark \<noteq> []) BLOCK_CARD mark analyst True org db1 of
                Inl b \<Rightarrow> Inl b
              | Inr db2 \<Rightarrow> block_if S (email \<noteq> []) BLOCK_EMAIL email analyst False org db2))"

definition settle_held ::
  "pay_settings \<Rightarrow> int \<Rightarrow> exec_input \<Rightarrow> payment option \<Rightarrow> account \<Rightarrow> bool \<Rightarrow> string \<Rightarrow> pay_db \<Rightarrow> control_error + pay_db" where
  "settle_held S now x p analyst dismiss notes db =
     (case p of
        None \<Rightarrow> Inr db
      | Some q \<Rightarrow>
          if \<not> py_held q then Inr db
          else if dismiss then Inr (release_held_payment now (py_ref q) analyst db)
          else (case reject_held_payment S now x q analyst notes db of (Inl e, _) \<Rightarrow> Inl e | (Inr _, db') \<Rightarrow> Inr db'))"

definition review_alert ::
  "pay_settings \<Rightarrow> int \<Rightarrow> exec_input \<Rightarrow> int \<Rightarrow> account \<Rightarrow> bool \<Rightarrow> string \<Rightarrow> bool \<Rightarrow> pay_db \<Rightarrow> control_error + pay_db" where
  "review_alert S now x i analyst dismiss notes block db =
     (case alert_row i db of
        None \<Rightarrow> Inl (Control_refund Already_reviewed)
      | Some e \<Rightarrow>
          (case check_perm (pd_tenancy db) (Some analyst) ''fraud.review''
                  (if fe_event e = None then Anything else Election (pd_event db)) of
             Inl a \<Rightarrow> Inl (Control_access a)
           | Inr _ \<Rightarrow>
               if fe_status e \<noteq> ALERT_OPEN then Inl (Control_refund Already_reviewed)
               else
                 let p = Option.bind (fe_payment e) (\<lambda>r. payment_row r db);
                     db1 = db\<lparr>pd_alerts := update_where (\<lambda>y. fe_id y = i)
                             (\<lambda>y. y\<lparr>fe_status := (if dismiss then ALERT_DISMISSED else ALERT_CONFIRMED),
                                    fe_reviewed_by := Some (us_id analyst), fe_reviewed_at := Some now\<rparr>) (pd_alerts db)\<rparr>
                 in (case settle_held S now x p analyst dismiss notes db1 of
                       Inl err \<Rightarrow> Inl err
                     | Inr db2 \<Rightarrow>
                         (case (if \<not> dismiss \<and> block then block_subject S e p analyst db2 else Inr db2) of
                            Inl b \<Rightarrow> Inl (Control_refund (Review_block b))
                          | Inr db3 \<Rightarrow> Inr (pay_audit ''FRAUD_ALERT_REVIEWED'' (Some analyst) (fe_event e \<noteq> None) db3)))))"

end
