(* ===== verification/Webhooks.thy ===== *)
theory Webhooks
  imports Refunds
begin

text \<open>
  The gateway's notifications: \<open>handle_webhook\<close>, \<open>_dispatch_webhook\<close>, \<open>_webhook_refund\<close> and
  \<open>_webhook_dispute\<close> of payments/service.py, and the signature check of
  payments/paystack.py. The body is read by Json_Read.

  A value of a type the code cannot work with raises in the code; the readers below answer
  None then, and the webhook ends as failed with nothing changed. The text of a container or
  a float, which \<open>str\<close> would show, is replaced by a question mark: it is no reference.
\<close>

section \<open>Reading the data\<close>

type_synonym fields = "(string \<times> json) list"

fun falsy :: "json \<Rightarrow> bool" where
  "falsy JNull = True"
| "falsy (JBool b) = (\<not> b)"
| "falsy (JInt i) = (i = 0)"
| "falsy (JFloat x) = (x = Fin 0)"
| "falsy (JStr s) = (s = [])"
| "falsy (JList xs) = (xs = [])"
| "falsy (JObj kvs) = (kvs = [])"

text \<open>\<open>data.get(k)\<close>, with None for a missing or a false value (\<open>or\<close>).\<close>

definition given :: "string \<Rightarrow> fields \<Rightarrow> json option" where
  "given k kvs = (case js_get kvs k of Some j \<Rightarrow> if falsy j then None else Some j | None \<Rightarrow> None)"

definition text_given :: "string \<Rightarrow> fields \<Rightarrow> string option" where
  "text_given k kvs = (case given k kvs of None \<Rightarrow> Some [] | Some (JStr s) \<Rightarrow> Some s | Some _ \<Rightarrow> None)"

definition fields_given :: "string \<Rightarrow> fields \<Rightarrow> fields option" where
  "fields_given k kvs = (case given k kvs of None \<Rightarrow> Some [] | Some (JObj o1) \<Rightarrow> Some o1 | Some _ \<Rightarrow> None)"

fun shown_text :: "json \<Rightarrow> string" where
  "shown_text (JStr s) = s"
| "shown_text (JInt i) = str_int i"
| "shown_text JNull = ''None''"
| "shown_text (JBool b) = (if b then ''True'' else ''False'')"
| "shown_text _ = ''?''"

definition text_shown :: "string \<Rightarrow> fields \<Rightarrow> string" where
  "text_shown k kvs = (case given k kvs of Some j \<Rightarrow> shown_text j | None \<Rightarrow> [])"

text \<open>\<open>int(data.get(k) or 0)\<close>\<close>

definition int_given :: "string \<Rightarrow> fields \<Rightarrow> int option" where
  "int_given k kvs =
     (case given k kvs of
        None \<Rightarrow> Some 0
      | Some (JInt i) \<Rightarrow> Some i
      | Some (JStr s) \<Rightarrow> parse_int s
      | Some (JBool b) \<Rightarrow> Some 1
      | Some (JFloat (Fin r)) \<Rightarrow> Some (whole_part r)
      | Some _ \<Rightarrow> None)"

text \<open>The fees are an integer number of minor units.\<close>

definition fees_given :: "fields \<Rightarrow> rat option option" where
  "fees_given kvs =
     (case js_get kvs ''fees'' of
        None \<Rightarrow> Some None | Some JNull \<Rightarrow> Some None | Some (JInt i) \<Rightarrow> Some (Some (of_int i)) | Some _ \<Rightarrow> None)"

definition bare_charge :: "string \<Rightarrow> charge" where
  "bare_charge said =
     \<lparr>ch_status = said, ch_amount = 0, ch_currency = [], ch_channel = [], ch_card = [], ch_last4 = [], ch_brand = [],
      ch_bank = [], ch_country = [], ch_id = [], ch_ip = [], ch_fees = None, ch_paid_at = []\<rparr>"

definition paid_charge :: "string \<Rightarrow> fields \<Rightarrow> charge option" where
  "paid_charge said kvs =
     (case (fields_given ''authorization'' kvs, int_given ''amount'' kvs, fees_given kvs) of
        (Some auth, Some amount, Some fees) \<Rightarrow>
          (case (text_given ''currency'' kvs, text_given ''channel'' kvs, text_given ''signature'' auth, text_given ''last4'' auth,
                 text_given ''brand'' auth, text_given ''bank'' auth, text_given ''country_code'' auth) of
             (Some cur, Some channel, Some sig, Some last4, Some brand, Some bank, Some country) \<Rightarrow>
               Some \<lparr>ch_status = said, ch_amount = amount, ch_currency = cur, ch_channel = channel, ch_card = sig,
                     ch_last4 = last4, ch_brand = brand, ch_bank = bank, ch_country = country, ch_id = text_shown ''id'' kvs,
                     ch_ip = text_shown ''ip_address'' kvs, ch_fees = fees,
                     ch_paid_at = (if text_shown ''paid_at'' kvs = [] then text_shown ''paidAt'' kvs else text_shown ''paid_at'' kvs)\<rparr>
           | _ \<Rightarrow> None)
      | _ \<Rightarrow> None)"

text \<open>Only a success is looked at further.\<close>

definition charge_of :: "fields \<Rightarrow> charge option" where
  "charge_of kvs =
     (case text_given ''status'' kvs of
        None \<Rightarrow> None
      | Some said \<Rightarrow> if lower said = ''success'' then paid_charge said kvs else Some (bare_charge said))"

text \<open>For a ticket only the amount is read.\<close>

definition ticket_charge :: "fields \<Rightarrow> charge option" where
  "ticket_charge kvs =
     (case text_given ''status'' kvs of
        None \<Rightarrow> None
      | Some said \<Rightarrow>
          if lower said = ''success'' then map_option (\<lambda>n. (bare_charge said)\<lparr>ch_amount := n\<rparr>) (int_given ''amount'' kvs)
          else Some (bare_charge said))"

section \<open>Refunds and disputes\<close>

definition open_refund :: "string \<Rightarrow> pay_db \<Rightarrow> refund option" where
  "open_refund r db =
     first_where (\<lambda>f. rf_payment f = r \<and> rf_status f \<notin> {RF_PROCESSED, RF_REJECTED}) (rev (pd_refunds db))"

definition webhook_refund :: "int \<Rightarrow> string \<Rightarrow> fields \<Rightarrow> pay_db \<Rightarrow> (string \<times> pay_db) option" where
  "webhook_refund now event_type kvs db =
     (case fields_given ''transaction'' kvs of
        None \<Rightarrow> None
      | Some t \<Rightarrow>
          (let r = (if text_shown ''reference'' t = [] then text_shown ''transaction_reference'' kvs else text_shown ''reference'' t);
               note = (\<lambda>f. record_pay (pay_note (rf_payment f) ''WEBHOOK'' None))
           in case open_refund r db of
                None \<Rightarrow> Some (''ignored'', db)
              | Some f \<Rightarrow>
                  Some (''processed'',
                    if event_type = ''refund.processed'' then complete_refund now (rf_id f) db
                    else if event_type = ''refund.failed''
                    then note f (change_refund (rf_id f)
                           (\<lambda>x. x\<lparr>rf_status := RF_FAILED, rf_error := take 500 (text_shown ''status'' kvs)\<rparr>) db)
                    else note f db)))"

definition merchant_won :: "string \<Rightarrow> bool" where
  "merchant_won resolution \<longleftrightarrow>
     contains ''merchant'' resolution \<or> resolution = ''declined'' \<or> resolution = ''won''"

definition webhook_dispute :: "int \<Rightarrow> string \<Rightarrow> fields \<Rightarrow> string \<Rightarrow> pay_db \<Rightarrow> (string \<times> pay_db) option" where
  "webhook_dispute now event_type kvs reference db =
     (case (if reference = [] then fields_given ''transaction'' kvs else Some []) of
        None \<Rightarrow> None
      | Some t \<Rightarrow>
          (let r = (if reference = [] then text_shown ''reference'' t else reference) in
           case payment_row r db of
             None \<Rightarrow> Some (''ignored'', db)
           | Some p \<Rightarrow>
               (let resolution = lower (if text_shown ''resolution'' kvs = [] then text_shown ''status'' kvs else text_shown ''resolution'' kvs);
                    db1 =
                      (if event_type = ''charge.dispute.create'' then
                         (let (changed, d) = pay_transition r PAY_DISPUTED ''WEBHOOK'' None db
                          in if changed then record_chargeback now p (reverse_votes r None d) else d)
                       else if event_type = ''charge.dispute.resolve'' then
                         snd (pay_transition r (if merchant_won resolution then PAY_SUCCESS else PAY_REVERSED) ''WEBHOOK'' None db)
                       else db)
                in Some (''processed'', pay_audit ''PAYMENT_CHARGEBACK'' None (py_event p \<noteq> None) db1))))"

section \<open>Webhooks\<close>

definition is_ticket :: "string \<Rightarrow> pay_db \<Rightarrow> bool" where
  "is_ticket r db \<longleftrightarrow> exists_where (\<lambda>t. tp_reference t = r) (pd_tickets db)"

definition dispatch_webhook ::
  "pay_settings \<Rightarrow> int \<Rightarrow> string \<Rightarrow> fields \<Rightarrow> string \<Rightarrow> pay_db \<Rightarrow> (string \<times> pay_db) option" where
  "dispatch_webhook S now event_type kvs r db =
     (if event_type = ''charge.success'' then
        (if payment_row r db \<noteq> None
         then map_option (\<lambda>ch. (''processed'', apply_gateway_result S now r ch ''WEBHOOK'' None db)) (charge_of kvs)
         else if is_ticket r db
         then map_option (\<lambda>ch. (''processed'', apply_ticket_result r ch db)) (ticket_charge kvs)
         else Some (''ignored'', db))
      else if event_type = ''charge.failed'' then
        (if payment_row r db \<noteq> None
         then Some (''processed'', apply_gateway_result S now r (bare_charge ''failed'') ''WEBHOOK'' None db)
         else Some (''ignored'', db))
      else if starts_with ''refund.'' event_type then webhook_refund now event_type kvs db
      else if starts_with ''charge.dispute.'' event_type then webhook_dispute now event_type kvs r db
      else Some (''ignored'', db))"

definition fake_secret :: string where
  "fake_secret = ''sk_test_flexyvotes_local_simulator''"

definition secret_key :: "pay_settings \<Rightarrow> string" where
  "secret_key S = (if ps_fake S then fake_secret else ps_secret S)"

definition signature_ok :: "pay_settings \<Rightarrow> string \<Rightarrow> string \<Rightarrow> bool" where
  "signature_ok S body signature \<longleftrightarrow>
     secret_key S \<noteq> [] \<and> signature \<noteq> [] \<and> ps_hmac512 S (secret_key S) body = signature"

text \<open>The event, its data and its reference; None when reading them raises.\<close>

definition read_webhook :: "json \<Rightarrow> (string \<times> fields \<times> string) option" where
  "read_webhook j =
     (case j of
        JObj kvs \<Rightarrow>
          (case fields_given ''data'' kvs of
             None \<Rightarrow> None
           | Some data \<Rightarrow>
               (let e = take 60 (case js_get kvs ''event'' of Some v \<Rightarrow> shown_text v | None \<Rightarrow> []);
                    r = text_shown ''reference'' data
                in if r \<noteq> [] then Some (e, data, take 100 r)
                   else map_option (\<lambda>t. (e, data, take 100 (text_shown ''reference'' t))) (fields_given ''transaction'' data)))
      | _ \<Rightarrow> None)"

definition webhook_row :: "string \<Rightarrow> pay_db \<Rightarrow> webhook_event option" where
  "webhook_row h db = first_where (\<lambda>w. wh_hash w = h) (pd_webhooks db)"

definition change_webhook :: "string \<Rightarrow> (webhook_event \<Rightarrow> webhook_event) \<Rightarrow> pay_db \<Rightarrow> pay_db" where
  "change_webhook h f db = db\<lparr>pd_webhooks := update_where (\<lambda>w. wh_hash w = h) f (pd_webhooks db)\<rparr>"

text \<open>The row of the body: a new one, or the one of an earlier delivery counted once more.\<close>

definition receive_webhook :: "string \<Rightarrow> string \<Rightarrow> string \<Rightarrow> pay_db \<Rightarrow> pay_db" where
  "receive_webhook h event_type r db =
     (case webhook_row h db of
        None \<Rightarrow> db\<lparr>pd_webhooks := pd_webhooks db @ [\<lparr>wh_hash = h, wh_type = event_type, wh_reference = r,
                  wh_status = WH_RECEIVED, wh_attempts = 1, wh_processed_at = None\<rparr>]\<rparr>
      | Some w \<Rightarrow> change_webhook h (\<lambda>w. w\<lparr>wh_attempts := wh_attempts w + 1\<rparr>) db)"

definition seen_before :: "string \<Rightarrow> pay_db \<Rightarrow> bool" where
  "seen_before h db \<longleftrightarrow>
     (case webhook_row h db of Some w \<Rightarrow> wh_status w \<in> {WH_PROCESSED, WH_IGNORED} | None \<Rightarrow> False)"

definition process_webhook ::
  "pay_settings \<Rightarrow> int \<Rightarrow> string \<Rightarrow> string \<Rightarrow> fields \<Rightarrow> string \<Rightarrow> pay_db \<Rightarrow> (int \<times> string) \<times> pay_db" where
  "process_webhook S now h event_type kvs r db =
     (let stamp = (\<lambda>st. change_webhook h (\<lambda>w. w\<lparr>wh_status := st, wh_processed_at := Some now\<rparr>)) in
      case dispatch_webhook S now event_type kvs r db of
        None \<Rightarrow> ((500, ''failed''), stamp WH_FAILED db)
      | Some (outcome, db') \<Rightarrow>
          ((200, outcome), stamp (if outcome = ''ignored'' then WH_IGNORED else WH_PROCESSED) db'))"

definition handle_webhook :: "pay_settings \<Rightarrow> int \<Rightarrow> string \<Rightarrow> string \<Rightarrow> pay_db \<Rightarrow> (int \<times> string) \<times> pay_db" where
  "handle_webhook S now body signature db =
     (if \<not> signature_ok S body signature then
        ((401, ''invalid signature''),
         change_election (log_note ((plain_note ''WEBHOOK_SIGNATURE_INVALID'' None None)\<lparr>an_result := ''DENIED''\<rparr>)) db)
      else case loads body of
        None \<Rightarrow> ((400, ''malformed''), db)
      | Some j \<Rightarrow>
          (case read_webhook j of
             None \<Rightarrow> ((500, ''error''), db)
           | Some (event_type, kvs, r) \<Rightarrow>
               (let h = sha256_hex (en_crypto (ps_env S)) body; db1 = receive_webhook h event_type r db in
                if seen_before h db then ((200, ''duplicate''), db1)
                else process_webhook S now h event_type kvs r db1)))"

end
