(* ===== verification/Reconcile.thy ===== *)
theory Reconcile
  imports Webhooks
begin

text \<open>
  Reconciliation with the gateway and the expiry of abandoned payments (payments/service.py),
  and the revenue report.

  The transactions the gateway lists, page after page, are a list; \<open>gl_complete\<close> tells
  whether the last page came (an error of the gateway ends the run as failed). What the
  gateway answers for a reference is a function of the reference. A query set is evaluated
  when its loop begins, newest payment first.
\<close>

datatype item_kind = MISSING_LOCALLY | STATUS_MISMATCH | AMOUNT_MISMATCH | NOT_AT_GATEWAY | NOT_CREDITED

record recon_item =
  ri_kind :: item_kind
  ri_payment :: "string option"
  ri_reference :: string
  ri_auto :: bool

record recon_run =
  rr_checked :: int
  rr_items :: "recon_item list"
  rr_seen :: "string list"
  rr_completed :: bool

record gateway_list =
  gl_rows :: "(string \<times> charge) list"
  gl_complete :: bool

definition rr_resolved :: "recon_run \<Rightarrow> nat" where
  "rr_resolved run = count_where ri_auto (rr_items run)"

definition add_item :: "item_kind \<Rightarrow> string option \<Rightarrow> string \<Rightarrow> bool \<Rightarrow> recon_run \<Rightarrow> recon_run" where
  "add_item kind p r auto run =
     run\<lparr>rr_items := rr_items run @ [\<lparr>ri_kind = kind, ri_payment = p, ri_reference = r, ri_auto = auto\<rparr>]\<rparr>"

definition check_one :: "recon_run \<Rightarrow> recon_run" where
  "check_one run = run\<lparr>rr_checked := rr_checked run + 1\<rparr>"

text \<open>The statuses of a payment the gateway took money for.\<close>

definition money_taken :: "pay_status \<Rightarrow> bool" where
  "money_taken st \<longleftrightarrow> st \<in> {PAY_SUCCESS, PAY_PARTIALLY_REFUNDED, PAY_REFUNDED, PAY_DISPUTED}"

definition disagrees :: "string \<Rightarrow> pay_status \<Rightarrow> bool" where
  "disagrees said st \<longleftrightarrow>
     (said = ''success'') \<noteq> money_taken st \<or> (said \<in> {''failed'', ''abandoned''} \<and> st \<notin> {PAY_FAILED, PAY_ABANDONED})"

definition reconcile_unknown :: "string \<Rightarrow> charge \<Rightarrow> recon_run \<Rightarrow> pay_db \<Rightarrow> recon_run \<times> pay_db" where
  "reconcile_unknown r ch run db =
     (let said = lower (ch_status ch) in
      case first_where (\<lambda>t. tp_reference t = r) (pd_tickets db) of
        Some t \<Rightarrow> (run, if said = ''success'' \<and> tp_status t \<noteq> TICKET_SUCCESS then apply_ticket_result r ch db else db)
      | None \<Rightarrow> (if said = ''success'' then add_item MISSING_LOCALLY None r False run else run, db))"

definition reconcile_row ::
  "pay_settings \<Rightarrow> int \<Rightarrow> account option \<Rightarrow> string \<times> charge \<Rightarrow> recon_run \<times> pay_db \<Rightarrow> recon_run \<times> pay_db" where
  "reconcile_row S now actor row state =
     (let (r, ch) = row; (run, db) = state; said = lower (ch_status ch);
          run1 = (check_one run)\<lparr>rr_seen := r # rr_seen run\<rparr>
      in case payment_row r db of
           None \<Rightarrow> reconcile_unknown r ch run1 db
         | Some p \<Rightarrow>
             (let run2 = (if said = ''success'' \<and> \<not> amount_ok ch p then add_item AMOUNT_MISMATCH (Some r) r False run1 else run1) in
              if disagrees said (py_status p)
              then (let db' = apply_gateway_result S now r ch ''RECONCILE'' actor db
                    in (add_item STATUS_MISMATCH (Some r) r (status_of r db' \<noteq> Some (py_status p)) run2, db'))
              else (run2, db)))"

definition reconcile_stale ::
  "pay_settings \<Rightarrow> int \<Rightarrow> account option \<Rightarrow> (string \<Rightarrow> charge option) \<Rightarrow> payment \<Rightarrow> recon_run \<times> pay_db \<Rightarrow> recon_run \<times> pay_db" where
  "reconcile_stale S now actor answers p state =
     (let (run, db) = state; r = py_ref p;
          db' = verify_and_apply S now r (answers r) ''RECONCILE'' actor db; run1 = check_one run
      in (if status_of r db' \<noteq> Some (py_status p) then add_item STATUS_MISMATCH (Some r) r True run1 else run1, db'))"

definition reconcile_uncredited :: "int \<Rightarrow> account option \<Rightarrow> payment \<Rightarrow> recon_run \<times> pay_db \<Rightarrow> recon_run \<times> pay_db" where
  "reconcile_uncredited now actor p state =
     (let (run, db) = state; r = py_ref p; db' = credit_votes now r actor db; run1 = check_one run
      in (if length (pd_ledger db') \<noteq> length (pd_ledger db) then add_item NOT_CREDITED (Some r) r True run1 else run1, db'))"

definition reconcile_missing :: "(string \<Rightarrow> charge option) \<Rightarrow> payment \<Rightarrow> recon_run \<Rightarrow> recon_run" where
  "reconcile_missing answers p run =
     (let said = (case answers (py_ref p) of Some ch \<Rightarrow> lower (ch_status ch) | None \<Rightarrow> []) in
      if said \<noteq> ''success'' then add_item NOT_AT_GATEWAY (Some (py_ref p)) (py_ref p) False (check_one run) else check_one run)"

definition newest_first :: "(payment \<Rightarrow> bool) \<Rightarrow> pay_db \<Rightarrow> payment list" where
  "newest_first P db = rev (filter P (pd_payments db))"

definition awaiting :: "payment \<Rightarrow> bool" where
  "awaiting p \<longleftrightarrow> py_status p \<in> {PAY_INITIALIZED, PAY_PENDING}"

definition minutes :: "int \<Rightarrow> int" where
  "minutes n = n * 60 * 1000000"

text \<open>The four passes: the gateway's list, the payments left pending, the votes left uncredited, the unconfirmed.\<close>

definition reconcile_passes ::
  "pay_settings \<Rightarrow> int \<Rightarrow> int \<Rightarrow> int \<Rightarrow> account option \<Rightarrow> gateway_list \<Rightarrow> (string \<Rightarrow> charge option) \<Rightarrow> pay_db
    \<Rightarrow> recon_run \<times> pay_db" where
  "reconcile_passes S now t0 t1 actor gl answers db =
     (let start = (\<lparr>rr_checked = 0, rr_items = [], rr_seen = [], rr_completed = True\<rparr>, db);
          (run1, db1) = (if ps_fake S then start else fold (reconcile_row S now actor) (gl_rows gl) start)
      in if \<not> ps_fake S \<and> \<not> gl_complete gl then (run1\<lparr>rr_completed := False\<rparr>, db1)
         else
           let stale = newest_first (\<lambda>p. t0 \<le> py_created p \<and> py_created p \<le> t1 - minutes 5 \<and> awaiting p
                                         \<and> py_ref p \<notin> set (rr_seen run1)) db1;
               (run2, db2) = fold (reconcile_stale S now actor answers) (take 500 stale) (run1, db1);
               unpaid = newest_first (\<lambda>p. t0 \<le> py_created p \<and> py_status p = PAY_SUCCESS \<and> \<not> py_credited p \<and> \<not> py_held p
                                          \<and> py_purpose p = VOTE) db2;
               (run3, db3) = fold (reconcile_uncredited now actor) unpaid (run2, db2);
               missing = newest_first (\<lambda>p. t0 \<le> py_created p \<and> py_created p \<le> t1 \<and> py_status p = PAY_SUCCESS
                                           \<and> py_ref p \<notin> set (rr_seen run3)) db3
           in (if ps_fake S then run3 else fold (reconcile_missing answers) (take 200 missing) run3, db3))"

definition reconcile ::
  "pay_settings \<Rightarrow> int \<Rightarrow> int option \<Rightarrow> int option \<Rightarrow> account option \<Rightarrow> gateway_list \<Rightarrow> (string \<Rightarrow> charge option) \<Rightarrow> pay_db
    \<Rightarrow> recon_run \<times> pay_db" where
  "reconcile S now window_start window_end actor gl answers db =
     (let t1 = (case window_end of Some t \<Rightarrow> t | None \<Rightarrow> now);
          t0 = (case window_start of Some t \<Rightarrow> t | None \<Rightarrow> t1 - hours 24);
          (run, db') = reconcile_passes S now t0 t1 actor gl answers db
      in (run, change_election (log_note ((plain_note ''PAYMENTS_RECONCILED'' (map_option us_id actor) None)
                 \<lparr>an_result := (if rr_completed run then ''SUCCESS'' else ''FAILURE'')\<rparr>)) db'))"

section \<open>Abandoned payments\<close>

definition expire_one :: "pay_settings \<Rightarrow> int \<Rightarrow> (string \<Rightarrow> charge option) \<Rightarrow> payment \<Rightarrow> int \<times> pay_db \<Rightarrow> int \<times> pay_db" where
  "expire_one S now answers p state =
     (let (n, db) = state; r = py_ref p; db1 = verify_and_apply S now r (answers r) ''EXPIRY'' None db in
      if status_of r db1 \<in> {Some PAY_INITIALIZED, Some PAY_PENDING}
      then (n + 1, snd (pay_transition r PAY_ABANDONED ''EXPIRY'' None db1))
      else (n, db1))"

definition expire_ticket ::
  "pay_settings \<Rightarrow> int \<Rightarrow> (string \<Rightarrow> charge option) \<Rightarrow> ticket_purchase \<Rightarrow> pay_db \<Rightarrow> pay_db" where
  "expire_ticket S now answers t db =
     (let r = tp_reference t; db1 = verify_and_apply S now r (answers r) ''EXPIRY'' None db
      in db1\<lparr>pd_tickets := update_where (\<lambda>x. tp_reference x = r \<and> tp_status x = TICKET_PENDING)
                             (\<lambda>x. x\<lparr>tp_status := TICKET_FAILED\<rparr>) (pd_tickets db1)\<rparr>)"

definition overdue :: "pay_settings \<Rightarrow> int \<Rightarrow> payment \<Rightarrow> bool" where
  "overdue S now p \<longleftrightarrow> awaiting p \<and> py_created p < now - minutes (ps_abandon_minutes S)"

definition expire_abandoned :: "pay_settings \<Rightarrow> int \<Rightarrow> (string \<Rightarrow> charge option) \<Rightarrow> pay_db \<Rightarrow> int \<times> pay_db" where
  "expire_abandoned S now answers db =
     (let (n, db1) = fold (expire_one S now answers) (take 500 (newest_first (overdue S now) db)) (0, db);
          late = filter (\<lambda>t. tp_status t = TICKET_PENDING \<and> tp_purchased t < now - minutes (ps_abandon_minutes S)) (pd_tickets db1)
      in (n, fold (expire_ticket S now answers) (take 500 late) db1))"

section \<open>Revenue\<close>

text \<open>The totals of \<open>revenue_report\<close> over the vote payments of the election, and the payout per election.\<close>

record revenue =
  rv_gross :: rat
  rv_fees :: rat
  rv_refunds :: rat
  rv_net :: rat
  rv_votes :: int
  rv_payments :: nat
  rv_held :: nat

definition reported :: "int option \<Rightarrow> int option \<Rightarrow> pay_db \<Rightarrow> payment \<Rightarrow> bool" where
  "reported t0 t1 db p \<longleftrightarrow>
     py_event p = Some (ev_id (pd_event db)) \<and> py_purpose p = VOTE
     \<and> (case t0 of Some t \<Rightarrow> t \<le> py_created p | None \<Rightarrow> True) \<and> (case t1 of Some t \<Rightarrow> py_created p < t | None \<Rightarrow> True)"

definition revenue_report :: "int option \<Rightarrow> int option \<Rightarrow> pay_db \<Rightarrow> revenue" where
  "revenue_report t0 t1 db =
     (let ps = filter (reported t0 t1 db) (pd_payments db); ok = filter (\<lambda>p. money_taken (py_status p)) ps;
          gross = sum_list (map py_amount ok); refunds = sum_list (map py_refunded ok)
      in \<lparr>rv_gross = gross, rv_fees = sum_list (map (\<lambda>p. rat_set (py_fees p)) ok), rv_refunds = refunds,
          rv_net = gross - refunds, rv_votes = sum_list (map py_total ok), rv_payments = length ok,
          rv_held = count_where (\<lambda>p. py_held p \<and> py_status p = PAY_SUCCESS) ps\<rparr>)"

definition payout :: "rat \<Rightarrow> revenue \<Rightarrow> rat \<times> rat" where
  "payout fee_percentage v =
     (let fee = round_cents (rv_net v * fee_percentage / 100) in (fee, rv_net v - fee))"

end
