(* ===== verification/Pay_Moves.thy ===== *)
theory Pay_Moves
  imports Reconcile Lifecycle_Props
begin

text \<open>
  What the payment operations do, as elementary moves on the payments and the vote ledger.

  A \<open>calm\<close> change leaves the ledger alone and moves payments along the status graph; a
  \<open>credit\<close> adds the ledger row of a confirmed payment; a \<open>reversal\<close> takes the votes of a
  payment back while its status may change. Every operation is a sequence of moves, proved
  here once per operation; the properties of payments are inductions over moves.

  A payment is \<open>cleared\<close> when the gateway has taken the money and no hold is on it. Moves
  are relative to the evidence at hand: \<open>matched r a c\<close>, a confirmation of the gateway for
  reference \<open>r\<close> over amount \<open>a\<close> and currency \<open>c\<close>, and \<open>freed r\<close>, an analyst's release.
\<close>

section \<open>Moves\<close>

definition settled :: "pay_status \<Rightarrow> bool" where
  "settled st \<longleftrightarrow> money_taken st \<or> st = PAY_REVERSED"

definition cleared :: "payment \<Rightarrow> bool" where
  "cleared p \<longleftrightarrow> settled (py_status p) \<and> \<not> py_held p"

definition same_terms :: "payment \<Rightarrow> payment \<Rightarrow> bool" where
  "same_terms p q \<longleftrightarrow>
     py_ref q = py_ref p \<and> py_event q = py_event p \<and> py_candidate q = py_candidate p \<and> py_votes q = py_votes p
     \<and> py_bonus q = py_bonus p \<and> py_amount q = py_amount p \<and> py_currency q = py_currency p \<and> py_purpose q = py_purpose p
     \<and> py_created q = py_created p"

type_synonym evidence = "(string \<Rightarrow> rat \<Rightarrow> string \<Rightarrow> bool) \<times> (string \<Rightarrow> bool)"

definition row_calm :: "evidence \<Rightarrow> payment \<Rightarrow> payment \<Rightarrow> bool" where
  "row_calm V p q \<longleftrightarrow>
     same_terms p q \<and> py_credited q = py_credited p \<and> may_move\<^sup>*\<^sup>* (py_status p) (py_status q)
     \<and> (py_status q = PAY_DISPUTED \<longrightarrow> py_status p = PAY_DISPUTED)
     \<and> (cleared q \<longrightarrow> cleared p \<or> fst V (py_ref p) (py_amount p) (py_currency p) \<or> snd V (py_ref p))"

definition unstarted :: "payment \<Rightarrow> bool" where
  "unstarted p \<longleftrightarrow> py_status p = PAY_INITIALIZED \<and> \<not> py_credited p"

definition calm :: "evidence \<Rightarrow> pay_db \<Rightarrow> pay_db \<Rightarrow> bool" where
  "calm V db db' \<longleftrightarrow>
     pd_ledger db' = pd_ledger db
     \<and> (\<forall>r. case payment_row r db of
            Some p \<Rightarrow> \<exists>q. payment_row r db' = Some q \<and> row_calm V p q
          | None \<Rightarrow> (case payment_row r db' of
                Some q \<Rightarrow> \<exists>p. unstarted p \<and> py_ref p = r \<and> row_calm V p q
              | None \<Rightarrow> True))"

definition credits :: "string \<Rightarrow> pay_db \<Rightarrow> pay_db \<Rightarrow> bool" where
  "credits r db db' \<longleftrightarrow>
     (\<exists>p c q. payment_row r db = Some p \<and> \<not> py_credited p \<and> py_status p = PAY_SUCCESS \<and> \<not> py_held p
        \<and> py_candidate p = Some c \<and> \<not> ledger_clash r db \<and> pd_ledger db' = pd_ledger db @ [ledger_entry p c]
        \<and> payment_row r db' = Some q \<and> same_terms p q \<and> py_credited q \<and> py_status q = PAY_SUCCESS \<and> py_held q = py_held p)
     \<and> (\<forall>s. s \<noteq> r \<longrightarrow> payment_row s db' = payment_row s db)"

definition counted :: "string \<Rightarrow> ledger_vote \<Rightarrow> bool" where
  "counted r l \<longleftrightarrow> lv_payment l = Some r \<and> lv_status l = LEDGER_SUCCESS"

definition take_back :: "string \<Rightarrow> ledger_vote list \<Rightarrow> ledger_vote list" where
  "take_back r = update_where (counted r) (\<lambda>l. l\<lparr>lv_status := LEDGER_REVERSED\<rparr>)"

definition reverses :: "string \<Rightarrow> pay_db \<Rightarrow> pay_db \<Rightarrow> bool" where
  "reverses r db db' \<longleftrightarrow>
     pd_ledger db' = take_back r (pd_ledger db)
     \<and> (\<exists>p q. payment_row r db = Some p \<and> payment_row r db' = Some q \<and> same_terms p q \<and> py_credited q = py_credited p
         \<and> py_held q = py_held p \<and> (settled (py_status q) \<longrightarrow> settled (py_status p)) \<and> may_move\<^sup>*\<^sup>* (py_status p) (py_status q))
     \<and> (\<forall>s. s \<noteq> r \<longrightarrow> payment_row s db' = payment_row s db)"

inductive pay_move :: "evidence \<Rightarrow> pay_db \<Rightarrow> pay_db \<Rightarrow> bool" for V where
  calmly: "calm V db db' \<Longrightarrow> pay_move V db db'"
| crediting: "credits r db db' \<Longrightarrow> pay_move V db db'"
| reversing: "reverses r db db' \<Longrightarrow> pay_move V db db'"

abbreviation pay_moves :: "evidence \<Rightarrow> pay_db \<Rightarrow> pay_db \<Rightarrow> bool" where
  "pay_moves V \<equiv> (pay_move V)\<^sup>*\<^sup>*"

section \<open>The status graph\<close>

lemma may_move_simps [simp]:
  "may_move PAY_INITIALIZED b \<longleftrightarrow> b \<in> {PAY_PENDING, PAY_SUCCESS, PAY_FAILED, PAY_ABANDONED}"
  "may_move PAY_PENDING b \<longleftrightarrow> b \<in> {PAY_SUCCESS, PAY_FAILED, PAY_ABANDONED}"
  "may_move PAY_ABANDONED b \<longleftrightarrow> b \<in> {PAY_SUCCESS, PAY_FAILED}"
  "may_move PAY_FAILED b \<longleftrightarrow> b = PAY_SUCCESS"
  "may_move PAY_SUCCESS b \<longleftrightarrow> b \<in> {PAY_REFUNDED, PAY_PARTIALLY_REFUNDED, PAY_REVERSED, PAY_DISPUTED}"
  "may_move PAY_PARTIALLY_REFUNDED b \<longleftrightarrow> b \<in> {PAY_REFUNDED, PAY_DISPUTED, PAY_REVERSED}"
  "may_move PAY_DISPUTED b \<longleftrightarrow> b \<in> {PAY_SUCCESS, PAY_REVERSED, PAY_REFUNDED}"
  "\<not> may_move PAY_REVERSED b" "\<not> may_move PAY_REFUNDED b"
  by (auto simp: may_move_def allowed_transitions_def)

lemma settled_simps [simp]:
  "settled PAY_SUCCESS" "settled PAY_REFUNDED" "settled PAY_PARTIALLY_REFUNDED" "settled PAY_DISPUTED" "settled PAY_REVERSED"
  "\<not> settled PAY_INITIALIZED" "\<not> settled PAY_PENDING" "\<not> settled PAY_FAILED" "\<not> settled PAY_ABANDONED"
  by (simp_all add: settled_def money_taken_def)

lemma settled_stays: "may_move\<^sup>*\<^sup>* a b \<Longrightarrow> settled a \<Longrightarrow> settled b"
proof (induction rule: rtranclp_induct)
  case base
  then show ?case .
next
  case (step b c)
  then show ?case by (cases b; cases c) auto
qed

lemma unstarted_path: "may_move\<^sup>*\<^sup>* PAY_INITIALIZED b"
proof -
  have paid: "may_move\<^sup>*\<^sup>* PAY_INITIALIZED PAY_SUCCESS" by (rule r_into_rtranclp) simp
  consider "b = PAY_INITIALIZED" | "may_move PAY_INITIALIZED b" | "may_move PAY_SUCCESS b" by (cases b) simp_all
  then show ?thesis by cases (simp_all add: r_into_rtranclp rtranclp.rtrancl_into_rtrancl [OF paid])
qed

section \<open>Terms and calm rows\<close>

lemma same_terms_refl [simp]: "same_terms p p"
  by (simp add: same_terms_def)

lemma same_terms_trans: "same_terms p q \<Longrightarrow> same_terms q u \<Longrightarrow> same_terms p u"
  by (simp add: same_terms_def)

lemma row_calm_refl [simp]: "row_calm V p p"
  by (simp add: row_calm_def)

lemma row_calm_trans: "row_calm V p q \<Longrightarrow> row_calm V q u \<Longrightarrow> row_calm V p u"
  by (auto simp: row_calm_def same_terms_def)

lemma calm_refl [simp]: "calm V db db"
  by (auto simp: calm_def split: option.split)

lemma calm_trans:
  assumes "calm V a b" and "calm V b c"
  shows "calm V a c"
  unfolding calm_def
proof (intro conjI allI)
  show "pd_ledger c = pd_ledger a" using assms by (simp add: calm_def)
  fix r
  show "case payment_row r a of
            Some p \<Rightarrow> \<exists>q. payment_row r c = Some q \<and> row_calm V p q
          | None \<Rightarrow> (case payment_row r c of
                Some q \<Rightarrow> \<exists>p. unstarted p \<and> py_ref p = r \<and> row_calm V p q
              | None \<Rightarrow> True)"
    using assms [unfolded calm_def, THEN conjunct2, rule_format, of r]
    by (cases "payment_row r a"; cases "payment_row r b") (auto split: option.splits; blast intro: row_calm_trans)+
qed

text \<open>Operations that touch neither the payments nor the ledger.\<close>

lemma payment_row_cong: "pd_payments db' = pd_payments db \<Longrightarrow> payment_row r db' = payment_row r db"
  by (simp add: payment_row_def)

lemma calm_other: "pd_payments db' = pd_payments db \<Longrightarrow> pd_ledger db' = pd_ledger db \<Longrightarrow> calm V db db'"
  unfolding calm_def by (subst payment_row_cong, assumption)+ (auto split: option.split)

lemma payment_row_ref: "payment_row r db = Some p \<Longrightarrow> py_ref p = r"
  by (auto simp: payment_row_def dest: first_where_Some)

lemma payment_row_change:
  assumes "\<And>p. py_ref (f p) = py_ref p"
  shows "payment_row s (change_payment r f db) = map_option (\<lambda>p. if s = r then f p else p) (payment_row s db)"
proof -
  have "payment_row s (change_payment r f db) = map_option (\<lambda>p. if py_ref p = r then f p else p) (payment_row s db)"
    unfolding payment_row_def change_payment_simps by (rule first_where_update) (simp add: assms)
  then show ?thesis by (cases "payment_row s db") (simp_all add: payment_row_ref)
qed

lemma calm_change:
  assumes "\<And>p. py_ref (f p) = py_ref p" and "\<And>p. payment_row r db = Some p \<Longrightarrow> row_calm V p (f p)"
  shows "calm V db (change_payment r f db)"
  unfolding calm_def using assms(2) by (auto simp: payment_row_change [OF assms(1)] split: option.split)

lemma calm_row:
  assumes "payment_row r db = Some p" and "payment_row r db' = Some q" and "row_calm V p q"
    and "\<And>s. s \<noteq> r \<Longrightarrow> payment_row s db' = payment_row s db" and "pd_ledger db' = pd_ledger db"
  shows "calm V db db'"
  unfolding calm_def
proof (intro conjI allI)
  show "pd_ledger db' = pd_ledger db" by (rule assms(5))
  fix s
  show "case payment_row s db of
            Some p \<Rightarrow> \<exists>q. payment_row s db' = Some q \<and> row_calm V p q
          | None \<Rightarrow> (case payment_row s db' of
                Some q \<Rightarrow> \<exists>p. unstarted p \<and> py_ref p = s \<and> row_calm V p q
              | None \<Rightarrow> True)"
    using assms(1-4) by (cases "s = r") (auto split: option.split)
qed

section \<open>The parts of an operation\<close>

lemma payment_row_other [simp]:
  "payment_row r (record_pay e db) = payment_row r db"
  "payment_row r (pay_audit t a b db) = payment_row r db"
  "payment_row r (change_election h db) = payment_row r db"
  "payment_row r (change_ledger l db) = payment_row r db"
  "payment_row r (change_refund i g db) = payment_row r db"
  "payment_row r (redeem_code k db) = payment_row r db"
  "payment_row r (new_alert w db) = payment_row r db"
  "payment_row r (db\<lparr>pd_counters := cs\<rparr>) = payment_row r db"
  by (simp_all add: payment_row_def redeem_code_def new_alert_def split: option.split)

lemma ledger_other [simp]:
  "pd_ledger (redeem_code k db) = pd_ledger db" "pd_ledger (new_alert e db) = pd_ledger db"
  "pd_election (redeem_code k db) = pd_election db" "pd_election (new_alert e db) = pd_election db"
  "pd_payments (redeem_code k db) = pd_payments db" "pd_payments (new_alert e db) = pd_payments db"
  by (simp_all add: redeem_code_def new_alert_def split: option.split)

lemma assess_keeps [simp]:
  "pd_payments (snd (assess S now a db)) = pd_payments db" "pd_election (snd (assess S now a db)) = pd_election db"
  by (simp_all add: assess_def Let_def case_prod_unfold)

lemma assess_row [simp]: "payment_row r (snd (assess S now a db)) = payment_row r db"
  by (simp add: payment_row_def)

lemma transition_row:
  "payment_row s (snd (pay_transition r to source actor db))
    = (if s = r then map_option (\<lambda>p. if may_move (py_status p) to then p\<lparr>py_status := to\<rparr> else p) (payment_row r db)
       else payment_row s db)"
proof (cases "payment_row r db")
  case (Some p)
  moreover have "\<not> may_move to to" by (cases to) simp_all
  ultimately show ?thesis by (auto simp: pay_transition_def payment_row_change option.map_ident)
qed (auto simp: pay_transition_def)

lemma transition_ledger [simp]:
  "pd_election (snd (pay_transition r to source actor db)) = pd_election db"
  by (auto simp: pay_transition_def split: option.split)

lemma transition_changed:
  "fst (pay_transition r to source actor db) \<longleftrightarrow> (\<exists>p. payment_row r db = Some p \<and> may_move (py_status p) to)"
proof -
  have "\<not> may_move to to" by (cases to) simp_all
  then show ?thesis by (auto simp: pay_transition_def split: option.split)
qed

lemma calm_transition:
  assumes "to \<noteq> PAY_DISPUTED"
    and "\<And>p. payment_row r db = Some p \<Longrightarrow> may_move (py_status p) to \<Longrightarrow> settled to \<Longrightarrow> settled (py_status p)"
  shows "calm V db (snd (pay_transition r to source actor db))"
proof (cases "payment_row r db")
  case None
  then show ?thesis by (simp add: pay_transition_def)
next
  case (Some p)
  have "row_calm V p (if may_move (py_status p) to then p\<lparr>py_status := to\<rparr> else p)"
    using assms(1) assms(2) [OF Some] by (auto simp: row_calm_def same_terms_def cleared_def)
  with Some show ?thesis by (intro calm_row [OF Some]) (auto simp: transition_row)
qed

lemma calm_unsettled: "\<not> settled to \<Longrightarrow> calm V db (snd (pay_transition r to source actor db))"
  by (rule calm_transition) auto

lemma pay_moves_calm: "calm V db db' \<Longrightarrow> pay_moves V db db'"
  by (intro r_into_rtranclp pay_move.calmly)

lemma credit_moves: "pay_moves V db (credit_votes now r actor db)"
proof (cases "credit_votes now r actor db = db")
  case False
  then obtain p c where p: "payment_row r db = Some p" "\<not> py_credited p" "py_status p = PAY_SUCCESS" "\<not> py_held p"
      "py_candidate p = Some c" "\<not> ledger_clash r db"
    and eq: "credit_votes now r actor db = record_pay (pay_note r ''CREDIT'' actor) (redeem_code (py_discount p)
        (change_payment r (\<lambda>x. x\<lparr>py_credited := True, py_credited_at := Some now\<rparr>) (change_ledger (\<lambda>ls. ls @ [ledger_entry p c]) db)))"
    by (auto simp: credit_votes_def split: option.splits if_splits)
  have "credits r db (credit_votes now r actor db)"
    unfolding credits_def eq using p by (auto simp: payment_row_change same_terms_def option.map_ident)
  then show ?thesis by (intro r_into_rtranclp pay_move.crediting)
qed simp

lemma reverse_ledger: "pd_ledger (reverse_votes r actor db) = take_back r (pd_ledger db)"
proof -
  have eq: "(\<lambda>l. lv_payment l = Some r \<and> lv_status l = LEDGER_SUCCESS) = counted r" by (auto simp: counted_def)
  show ?thesis unfolding reverse_votes_def Let_def eq take_back_def
    by (auto intro!: update_where_none [symmetric])
qed

lemma reverse_row [simp]: "payment_row s (reverse_votes r actor db) = payment_row s db"
  by (simp add: reverse_votes_def Let_def)

lemma moved_back:
  assumes "payment_row r db = Some p" and "may_move (py_status p) to" and "settled (py_status p)"
    and "\<And>s. payment_row s db' = payment_row s (snd (pay_transition r to source actor db))"
    and "pd_ledger db' = take_back r (pd_ledger db)"
  shows "pay_moves V db db'"
proof -
  have "reverses r db db'"
    unfolding reverses_def assms(4,5) using assms(1-3) by (auto simp: transition_row same_terms_def)
  then show ?thesis by (intro r_into_rtranclp pay_move.reversing)
qed

lemma only_back:
  assumes "payment_row r db = Some p" and "\<And>s. payment_row s db' = payment_row s db" and "pd_ledger db' = take_back r (pd_ledger db)"
  shows "pay_moves V db db'"
proof -
  have "reverses r db db'" unfolding reverses_def assms(2,3) using assms(1) by auto
  then show ?thesis by (intro r_into_rtranclp pay_move.reversing)
qed

section \<open>The operations of the payment service\<close>

text \<open>\<open>ch\<close> confirms a payment of this amount and currency.\<close>

definition confirms :: "charge \<Rightarrow> rat \<Rightarrow> string \<Rightarrow> bool" where
  "confirms ch a c \<longleftrightarrow>
     lower (ch_status ch) = ''success'' \<and> ch_amount ch = minor_units a
     \<and> upper (if ch_currency ch = [] then c else ch_currency ch) = upper c"

lemma pay_moves_trans: "pay_moves V a b \<Longrightarrow> pay_moves V b c \<Longrightarrow> pay_moves V a c"
  by (rule rtranclp_trans)

lemma moves_other: "pd_payments db' = pd_payments db \<Longrightarrow> pd_ledger db' = pd_ledger db \<Longrightarrow> pay_moves V db db'"
  by (rule pay_moves_calm, rule calm_other)

lemma settle_votes_moves: "pay_moves V db (settle_votes S now r ok actor db)"
  unfolding settle_votes_def
  by (auto split: option.split intro!: moves_other credit_moves)

lemma settle_calm:
  assumes p: "payment_row r db = Some p"
    and q: "payment_row r db1 = Some q" "same_terms p q" "py_credited q = py_credited p" "py_held q = py_held p"
      "py_status q = PAY_SUCCESS" "may_move\<^sup>*\<^sup>* (py_status p) PAY_SUCCESS"
    and others: "\<And>s. s \<noteq> r \<Longrightarrow> payment_row s db1 = payment_row s db" "pd_ledger db1 = pd_ledger db"
    and V: "\<And>a c. confirms ch a c \<Longrightarrow> fst V r a c" and said: "lower (ch_status ch) = ''success''"
  shows "pay_moves V db (settle S now r ch actor db1)"
proof -
  define ok where "ok \<longleftrightarrow> amount_ok ch q \<and> currency_ok ch q"
  define db2 where "db2 = (if \<not> ok then hold_mismatch now q db1
       else if py_purpose q = VOTE \<and> \<not> py_held q \<and> \<not> py_credited q then assess_paid S now q db1 else db1)"
  have ref: "py_ref p = r" "py_ref q = r" using p q(1) by (auto dest: payment_row_ref)
  have evid: "fst V r (py_amount p) (py_currency p)" if ok
    using that q(2) said by (intro V) (auto simp: confirms_def ok_def amount_ok_def currency_ok_def amount_minor_def same_terms_def)
  have "\<exists>u. payment_row r db2 = Some u \<and> row_calm V p u"
  proof -
    consider "\<not> ok" | "ok" "db2 = assess_paid S now q db1" | "ok" "db2 = db1" unfolding db2_def by argo
    then show ?thesis
    proof cases
      case 1
      with q ref show ?thesis
        by (auto simp: db2_def hold_mismatch_def payment_row_change row_calm_def cleared_def same_terms_def)
    next
      case 2
      with q ref evid show ?thesis
        by (auto simp: assess_paid_def case_prod_unfold payment_row_change row_calm_def same_terms_def risk_fields_def Let_def)
    next
      case 3
      with q ref evid show ?thesis by (auto simp: row_calm_def same_terms_def)
    qed
  qed
  moreover have "payment_row s db2 = payment_row s db" if "s \<noteq> r" for s
    using that others(1) [OF that] ref
    by (auto simp: db2_def hold_mismatch_def assess_paid_def case_prod_unfold payment_row_change risk_fields_def Let_def option.map_ident)
  moreover have "pd_ledger db2 = pd_ledger db"
    using others(2) by (auto simp: db2_def hold_mismatch_def assess_paid_def case_prod_unfold Let_def)
  ultimately have "calm V db db2" using calm_row [OF p] by blast
  moreover have "settle S now r ch actor db1 = settle_votes S now r ok actor db2"
    by (simp add: settle_def q(1) ok_def db2_def)
  ultimately show ?thesis by (metis pay_moves_calm pay_moves_trans settle_votes_moves)
qed

lemma charge_fields_same [simp]:
  "py_ref (charge_fields S now ch p) = py_ref p" "same_terms p (charge_fields S now ch p)"
  "py_credited (charge_fields S now ch p) = py_credited p" "py_held (charge_fields S now ch p) = py_held p"
  "py_status (charge_fields S now ch p) = py_status p"
  by (simp_all add: charge_fields_def same_terms_def)

lemma calm_same:
  assumes "\<And>p. same_terms p (f p)" and "\<And>p. py_credited (f p) = py_credited p" and "\<And>p. py_held (f p) = py_held p"
    and "\<And>p. py_status (f p) = py_status p"
  shows "calm V db (change_payment r f db)"
  using assms by (intro calm_change) (auto simp: row_calm_def cleared_def same_terms_def)

lemma apply_success:
  assumes p: "payment_row r db = Some p" and said: "lower (ch_status ch) = ''success''"
    and V: "\<And>a c. confirms ch a c \<Longrightarrow> fst V r a c"
  shows "pay_moves V db (apply_gateway_result S now r ch source actor db)"
proof -
  define db0 where "db0 = change_payment r (charge_fields S now ch) db"
  define db1 where "db1 = snd (pay_transition r PAY_SUCCESS source actor db0)"
  have row: "payment_row r db0 = Some (charge_fields S now ch p)" using p by (simp add: db0_def payment_row_change)
  have "calm V db db0" unfolding db0_def by (rule calm_same) simp_all
  have result: "apply_gateway_result S now r ch source actor db =
      (if \<not> fst (pay_transition r PAY_SUCCESS source actor db0) \<and> status_of r db1 \<noteq> Some PAY_SUCCESS then db1
       else settle S now r ch actor db1)"
    using p said by (simp add: apply_gateway_result_def Let_def case_prod_unfold db0_def db1_def)
  consider "may_move (py_status p) PAY_SUCCESS" | "py_status p = PAY_SUCCESS"
    | "\<not> may_move (py_status p) PAY_SUCCESS" "py_status p \<noteq> PAY_SUCCESS" by blast
  then show ?thesis
  proof cases
    case 3
    have "calm V db0 db1" unfolding db1_def using row 3(1) by (intro calm_transition) auto
    with \<open>calm V db db0\<close> have "calm V db db1" by (rule calm_trans)
    moreover have "apply_gateway_result S now r ch source actor db = db1"
      using row 3 by (simp add: result transition_changed status_of_def db1_def transition_row)
    ultimately show ?thesis by (simp add: pay_moves_calm)
  next
    case 1
    have "pay_moves V db (settle S now r ch actor db1)"
      using p 1 said V by (intro settle_calm [OF p, where q = "(charge_fields S now ch p)\<lparr>py_status := PAY_SUCCESS\<rparr>"]) (auto simp: db1_def db0_def transition_row payment_row_change option.map_ident same_terms_def charge_fields_def)
    with row 1 show ?thesis by (simp add: result transition_changed)
  next
    case 2
    have "pay_moves V db (settle S now r ch actor db1)"
      using p 2 said V by (intro settle_calm [OF p, where q = "(charge_fields S now ch p)\<lparr>py_status := PAY_SUCCESS\<rparr>"]) (auto simp: db1_def db0_def transition_row payment_row_change option.map_ident same_terms_def charge_fields_def)
    with row 2 show ?thesis by (simp add: result status_of_def db1_def transition_row)
  qed
qed

lemma apply_moves:
  assumes "\<And>a c. confirms ch a c \<Longrightarrow> fst V r a c"
  shows "pay_moves V db (apply_gateway_result S now r ch source actor db)"
proof (cases "payment_row r db")
  case None
  then show ?thesis by (simp add: apply_gateway_result_def)
next
  case (Some p)
  let ?st = "lower (ch_status ch)"
  consider "?st = ''success''" | "?st = ''reversed''" | "?st \<noteq> ''success''" "?st \<noteq> ''reversed''" by blast
  then show ?thesis
  proof cases
    case 1
    then show ?thesis using apply_success [OF Some] assms by blast
  next
    case 2
    show ?thesis
    proof (cases "may_move (py_status p) PAY_REVERSED")
      case True
      then have "settled (py_status p)" by (cases "py_status p") simp_all
      with True 2 Some show ?thesis
        by (intro moved_back [OF Some True, where source = source and actor = actor])
          (auto simp: apply_gateway_result_def case_prod_unfold transition_changed reverse_ledger)
    next
      case False
      with 2 Some show ?thesis
        by (auto simp: apply_gateway_result_def case_prod_unfold transition_changed intro!: pay_moves_calm calm_transition)
    qed
  next
    case 3
    have "calm V db (change_payment r (\<lambda>p. p\<lparr>py_gateway_status := take 30 ?st\<rparr>) db)"
      by (rule calm_same) (simp_all add: same_terms_def)
    with 3 Some show ?thesis
      by (auto simp: apply_gateway_result_def Let_def intro!: pay_moves_calm calm_unsettled calm_trans [OF _ calm_unsettled])
  qed
qed

lemma ticket_keeps [simp]:
  "pd_payments (apply_ticket_result r ch db) = pd_payments db" "pd_election (apply_ticket_result r ch db) = pd_election db"
  by (simp_all add: apply_ticket_result_def Let_def split: option.split)

lemma verify_moves:
  assumes "\<And>ch a c. answer = Some ch \<Longrightarrow> confirms ch a c \<Longrightarrow> fst V r a c"
  shows "pay_moves V db (verify_and_apply S now r answer source actor db)"
  using assms
  by (auto simp: verify_and_apply_def split: option.split intro!: apply_moves moves_other)

lemma release_moves:
  assumes "snd V r"
  shows "pay_moves V db (release_held_payment now r analyst db)"
proof -
  define db1 where "db1 = record_pay (pay_note r ''REVIEW'' (Some analyst))
      (change_payment r (\<lambda>p. p\<lparr>py_held := False, py_hold_reason := []\<rparr>) db)"
  have "calm V db (change_payment r (\<lambda>p. p\<lparr>py_held := False, py_hold_reason := []\<rparr>) db)"
    using assms by (intro calm_change) (auto simp: row_calm_def same_terms_def dest: payment_row_ref)
  moreover have "calm V (change_payment r (\<lambda>p. p\<lparr>py_held := False, py_hold_reason := []\<rparr>) db) db1"
    unfolding db1_def by (rule calm_other) simp_all
  ultimately have "pay_moves V db db1" by (intro pay_moves_calm) (rule calm_trans)
  also have "pay_moves V db1 (credit_votes now r (Some analyst) db1)" by (rule credit_moves)
  also have "pay_moves V (credit_votes now r (Some analyst) db1) (release_held_payment now r analyst db)"
    unfolding release_held_payment_def db1_def Let_def by (intro pay_moves_calm calm_other) simp_all
  finally show ?thesis .
qed

section \<open>Checkout\<close>

lemma insert_row:
  "payment_row (py_ref p) db = None \<Longrightarrow>
    payment_row s (insert_payment p i db) = (if s = py_ref p then Some p else payment_row s db)"
  by (cases "first_where (\<lambda>q. py_ref q = s) (pd_payments db)")
    (auto simp: payment_row_def insert_payment_def first_where_append dest: first_where_Some)

lemma calm_insert:
  assumes "payment_row (py_ref x) db = None" and "unstarted x"
  shows "calm V db (insert_payment x i db)"
  unfolding calm_def
proof (intro conjI allI)
  show "pd_ledger (insert_payment x i db) = pd_ledger db" by (simp add: insert_payment_def)
  fix s
  show "case payment_row s db of
            Some p \<Rightarrow> \<exists>q. payment_row s (insert_payment x i db) = Some q \<and> row_calm V p q
          | None \<Rightarrow> (case payment_row s (insert_payment x i db) of
                Some q \<Rightarrow> \<exists>p. unstarted p \<and> py_ref p = s \<and> row_calm V p q
              | None \<Rightarrow> True)"
    using assms row_calm_refl by (auto simp: insert_row split: option.split)
qed

lemma open_moves: "pay_moves V db (snd (open_checkout r answer db))"
proof -
  have "calm V db (change_payment r (\<lambda>p. p\<lparr>py_url := u, py_access_code := c\<rparr>) db)" for u c
    by (rule calm_same) (simp_all add: same_terms_def)
  then show ?thesis
    by (auto simp: open_checkout_def split: option.split intro!: pay_moves_calm calm_unsettled calm_trans [OF _ calm_unsettled])
qed

lemma set_payer_same [simp]:
  "py_ref (set_payer S e t p) = py_ref p" "py_status (set_payer S e t p) = py_status p" "py_credited (set_payer S e t p) = py_credited p"
  by (simp_all add: set_payer_def Let_def)

lemma open_new_moves:
  assumes "payment_row (py_ref p) db = None" and "unstarted p"
  shows "pay_moves V db (snd (open_checkout r answer (insert_payment p i db)))"
  using calm_insert [OF assms, THEN pay_moves_calm] open_moves by (rule pay_moves_trans)

lemma vote_checkout_moves: "pay_moves V db (snd (initiate_vote_payment S now ck db))"
proof -
  have "pay_moves V db (snd (start_payment S now ck q db))" for q
  proof -
    obtain risk db1 where a: "assess S now (checkout_attempt ck q db) db = (risk, db1)" by (cases "assess S now (checkout_attempt ck q db) db")
    then have same: "pd_payments db1 = pd_payments db" "pd_election db1 = pd_election db"
      using assess_keeps [of S now "checkout_attempt ck q db" db] by simp_all
    then have "pay_moves V db db1" by (intro moves_other) simp_all
    moreover have "pay_moves V db1 (snd (start_payment S now ck q db))"
      using a by (auto simp: start_payment_def Let_def vote_payment_def blank_payment_def unstarted_def intro!: open_new_moves)
    ultimately show ?thesis by (rule pay_moves_trans)
  qed
  then show ?thesis by (auto simp: initiate_vote_payment_def Let_def split: option.split list.split)
qed

lemma invoice_checkout_moves: "pay_moves V db (snd (initiate_invoice_payment S now n e q choices answer db))"
  by (auto simp: initiate_invoice_payment_def Let_def invoice_payment_def blank_payment_def unstarted_def
      split: option.split intro!: open_new_moves)

section \<open>Refunds, approvals and reviews\<close>

lemma complete_moves: "pay_moves V db (complete_refund now i db)"
proof (cases "complete_refund now i db = db")
  case False
  then obtain f p where f: "refund_row i db = Some f" and p: "payment_row (rf_payment f) db = Some p"
    by (auto simp: complete_refund_def split: option.splits if_splits)
  define r where "r = rf_payment f"
  define db1 where "db1 = change_payment r (\<lambda>x. x\<lparr>py_refunded := py_refunded p + rf_amount f\<rparr>)
      (change_refund i (\<lambda>x. x\<lparr>rf_status := RF_PROCESSED, rf_processed_at := Some now\<rparr>) db)"
  define to where "to = (if py_amount p \<le> py_refunded p + rf_amount f then PAY_REFUNDED else PAY_PARTIALLY_REFUNDED)"
  define db2 where "db2 = snd (pay_transition r to ''REFUND'' None db1)"
  have "calm V db (change_refund i (\<lambda>x. x\<lparr>rf_status := RF_PROCESSED, rf_processed_at := Some now\<rparr>) db)"
    by (rule calm_other) simp_all
  moreover have "calm V (change_refund i (\<lambda>x. x\<lparr>rf_status := RF_PROCESSED, rf_processed_at := Some now\<rparr>) db) db1"
    unfolding db1_def by (rule calm_same) (simp_all add: same_terms_def)
  moreover have "settled st" if "may_move st to" for st
    using that unfolding to_def by (cases st) (auto split: if_splits)
  then have "calm V db1 db2" unfolding db2_def by (intro calm_transition) (auto simp: to_def)
  ultimately have "pay_moves V db db2" by (meson calm_trans pay_moves_calm)
  moreover have "\<exists>u. payment_row r db2 = Some u"
    using p by (auto simp: db2_def db1_def r_def transition_row payment_row_change)
  then have "pay_moves V db2 (if rf_reverse f then reverse_votes r None db2 else db2)"
    by (auto intro!: only_back simp: reverse_ledger)
  moreover have "pay_moves V (if rf_reverse f then reverse_votes r None db2 else db2) (complete_refund now i db)"
    using False by (intro moves_other) (auto simp: complete_refund_def f p db2_def db1_def to_def r_def Let_def)
  ultimately show ?thesis by (meson pay_moves_trans)
qed simp

lemma submit_moves: "pay_moves V db (submit_refund S now f p approver answer db)"
proof (cases answer)
  case None
  then show ?thesis by (auto simp: submit_refund_def Let_def intro!: moves_other)
next
  case (Some g)
  define db2 where "db2 = pay_audit ''REFUND_APPROVED'' (Some approver) (py_event p \<noteq> None)
      (record_pay (pay_note (rf_payment f) ''REFUND'' (Some approver))
        (change_refund (rf_id f) (\<lambda>x. x\<lparr>rf_status := RF_PROCESSING, rf_gateway_id := take 40 g\<rparr>)
          (change_refund (rf_id f) (\<lambda>x. x\<lparr>rf_status := RF_APPROVED, rf_approved_by := Some (us_id approver)\<rparr>) db)))"
  have "pay_moves V db db2" unfolding db2_def by (rule moves_other) simp_all
  moreover have "pay_moves V db2 (submit_refund S now f p approver answer db)"
    using complete_moves by (simp add: submit_refund_def Some db2_def Let_def)
  ultimately show ?thesis by (rule pay_moves_trans)
qed

lemma approve_moves: "approve_refund S now i approver via answer db = Inr db' \<Longrightarrow> pay_moves V db db'"
  by (auto simp: approve_refund_def split: option.splits sum.splits if_splits intro: submit_moves)


end
