(* ===== verification/Control_Moves.thy ===== *)
theory Control_Moves
  imports Pay_Moves
begin

text \<open>
  Approvals, refunds, reviews, webhooks, reconciliation and expiry as sequences of the moves
  of Pay_Moves.
\<close>

section \<open>Approvals\<close>

text \<open>The approval actions on the election leave the ledger to the payments.\<close>

lemma election_moves: "db_ledger e' = pd_ledger db \<Longrightarrow> pay_moves V db (change_election (\<lambda>_. e') db)"
  by (rule moves_other) simp_all

lemma reissue_ledger: "reissue E now choices v db = Inr (a, b, db') \<Longrightarrow> db_ledger db' = db_ledger db"
  by (auto simp: reissue_def Let_def revoke_issued_def split: if_splits sum.splits prod.splits)

lemma reset_each_ledger: "reset_each E now vs db = (x, db') \<Longrightarrow> db_ledger db' = db_ledger db"
proof (induction E now vs db arbitrary: x db' rule: reset_each.induct)
  case (2 E now choices listed rest db)
  show ?case
  proof (cases "first_where (\<lambda>v. vo_id v = vo_id listed) (db_voters db)")
    case None
    with "2.prems" show ?thesis by simp
  next
    case (Some v)
    show ?thesis
    proof (cases "reissue E now choices v db")
      case (Inl e)
      with "2.prems" Some show ?thesis by simp
    next
      case (Inr t)
      obtain c w db1 where t: "t = (c, w, db1)" by (cases t)
      have "db_ledger (snd (reset_each E now rest db1)) = db_ledger db1" using "2.IH" [OF Some Inr t [symmetric] refl] by (metis prod.collapse)
      moreover have "db' = snd (reset_each E now rest db1)"
        using "2.prems" Some Inr t by (simp add: Let_def case_prod_unfold)
      ultimately show ?thesis using reissue_ledger [OF Inr [unfolded t]] by simp
    qed
  qed
qed simp

lemma bulk_reset_ledger: "exec_bulk_reset E now choices approver db = Inr db' \<Longrightarrow> db_ledger db' = db_ledger db"
  by (auto simp: exec_bulk_reset_def reset_all_unused_credentials_def split: prod.splits sum.splits dest!: reset_each_ledger)

lemma decertify_ledger: "exec_decertify E now q approver db = Inr db' \<Longrightarrow> db_ledger db' = db_ledger db"
  by (auto simp: exec_decertify_def revoke_certification_def update_result_def Let_def split: option.splits sum.splits dest!: transition_keeps(8))

lemma exec_ledger:
  "exec_unfreeze payload db = Inr db' \<Longrightarrow> db_ledger db' = db_ledger db"
  "exec_extend now payload db = Inr db' \<Longrightarrow> db_ledger db' = db_ledger db"
  "exec_reopen E now q approver db = Inr db' \<Longrightarrow> db_ledger db' = db_ledger db"
  "exec_release_hold db = Inr db' \<Longrightarrow> db_ledger db' = db_ledger db"
  by (auto simp: exec_unfreeze_def exec_extend_def exec_reopen_def exec_release_hold_def
      split: approval_payload.splits sum.splits if_splits dest!: transition_keeps(8))

lemma on_election_moves:
  assumes "on_election f db = Inr db'" and "\<And>e. f (pd_election db) = Inr e \<Longrightarrow> db_ledger e = pd_ledger db"
  shows "pay_moves V db db'"
  using assms by (auto simp: on_election_def split: sum.splits intro: election_moves)

lemma run_action_moves:
  assumes "run_action S now x q approver db = Inr db'"
  shows "pay_moves V db db'"
proof (cases "rq_action q")
  case REFUND
  with assms show ?thesis
    by (auto simp: run_action_def exec_refund_def split: approval_payload.splits option.splits sum.splits intro: approve_moves)
qed (use assms in \<open>auto simp: run_action_def exec_ledger bulk_reset_ledger decertify_ledger elim!: on_election_moves\<close>)

lemma request_keeps [simp]:
  "pd_payments (request_note ending q actor outcome reason db) = pd_payments db"
  "pd_ledger (request_note ending q actor outcome reason db) = pd_ledger db"
  "pd_payments (change_request i f db) = pd_payments db"
  "pd_ledger (change_request i f db) = pd_ledger db"
  by (simp_all add: request_note_def change_request_def)

lemma execute_moves: "pay_moves V db (execute S now x q approver db)"
proof (cases "run_action S now x q approver db")
  case (Inl e)
  then show ?thesis by (auto simp: execute_def intro!: moves_other)
next
  case (Inr db')
  have "pay_moves V db db'" by (rule run_action_moves [OF Inr])
  moreover have "pay_moves V db' (execute S now x q approver db)"
    by (auto simp: execute_def Inr intro!: moves_other)
  ultimately show ?thesis by (rule pay_moves_trans)
qed

lemma execute_from: "pd_payments db1 = pd_payments db \<Longrightarrow> pd_ledger db1 = pd_ledger db \<Longrightarrow> pay_moves V db (execute S now x q a db1)"
  by (rule pay_moves_trans [OF moves_other execute_moves])

lemma request_approval_moves:
  "request_approval S now x action payload reason requester db = Inr (i, db') \<Longrightarrow> pay_moves V db db'"
  unfolding request_approval_def Let_def
  by (auto split: sum.splits if_splits intro!: execute_from intro: moves_other)

lemma decide_moves: "pay_moves V db (snd (decide_request S now x i approver approve note db))"
  unfolding decide_request_def Let_def
  by (auto split: option.split sum.split intro!: execute_from intro: moves_other)

section \<open>Refunds and reviews\<close>

lemma pursue_moves: "pay_moves V db (snd (pursue_refund S now x f p actor db))"
  by (auto simp: pursue_refund_def split: sum.split intro: request_approval_moves approve_moves)

lemma refund_request_moves: "pay_moves V db (snd (request_refund S now x r asked reason actor reverse db))"
  unfolding request_refund_def Let_def
  by (auto split: option.split sum.split intro!: pay_moves_trans [OF moves_other pursue_moves])

lemma reject_moves: "pay_moves V db (snd (reject_held_payment S now x p analyst notes db))"
proof -
  define db1 where "db1 = pay_audit ''PAYMENT_HOLD_REJECTED'' (Some analyst) (py_event p \<noteq> None)
      (record_pay (pay_note (py_ref p) ''REVIEW'' (Some analyst)) db)"
  have "pay_moves V db db1" unfolding db1_def by (rule moves_other) simp_all
  moreover have "pay_moves V db1 (snd (reject_held_payment S now x p analyst notes db))"
    using refund_request_moves [of V db1 S now x "py_ref p" "py_amount p" "''Rejected by fraud review: '' @ notes" analyst True]
    by (auto simp: reject_held_payment_def Let_def db1_def split: prod.split sum.split)
  ultimately show ?thesis by (rule pay_moves_trans)
qed

lemma settle_held_moves:
  assumes "settle_held S now x p analyst dismiss notes db = Inr db'" and "\<And>q. p = Some q \<Longrightarrow> dismiss \<Longrightarrow> snd V (py_ref q)"
  shows "pay_moves V db db'"
proof (cases p)
  case (Some q)
  show ?thesis
  proof (cases "py_held q \<and> \<not> dismiss")
    case True
    then have "db' = snd (reject_held_payment S now x q analyst notes db)"
      using assms(1) Some by (auto simp: settle_held_def split: prod.splits sum.splits)
    then show ?thesis using reject_moves by simp
  next
    case False
    with assms Some show ?thesis by (auto simp: settle_held_def split: if_splits intro: release_moves)
  qed
qed (use assms in \<open>simp add: settle_held_def\<close>)

lemma block_keeps: "block_if S b kind v analyst raw org db = Inr db' \<Longrightarrow> pd_payments db' = pd_payments db \<and> pd_ledger db' = pd_ledger db"
  by (auto simp: block_if_def add_block_def Let_def split: if_splits)

lemma block_subject_keeps:
  "block_subject S e p analyst db = Inr db' \<Longrightarrow> pd_payments db' = pd_payments db \<and> pd_ledger db' = pd_ledger db"
  unfolding block_subject_def Let_def by (auto split: sum.splits dest!: block_keeps)

text \<open>A dismissed alert frees the payment it names.\<close>

definition frees :: "int \<Rightarrow> bool \<Rightarrow> pay_db \<Rightarrow> string \<Rightarrow> bool" where
  "frees i dismiss db r \<longleftrightarrow> dismiss \<and> (\<exists>e. alert_row i db = Some e \<and> fe_payment e = Some r)"

lemma review_Inr:
  assumes "review_alert S now x i analyst dismiss notes block db = Inr db'"
  shows "\<exists>e p db1 db2 db3. alert_row i db = Some e \<and> p = Option.bind (fe_payment e) (\<lambda>r. payment_row r db)
    \<and> pd_election db1 = pd_election db \<and> pd_payments db1 = pd_payments db
    \<and> settle_held S now x p analyst dismiss notes db1 = Inr db2
    \<and> (if \<not> dismiss \<and> block then block_subject S e p analyst db2 else Inr db2) = Inr db3
    \<and> db' = pay_audit ''FRAUD_ALERT_REVIEWED'' (Some analyst) (fe_event e \<noteq> None) db3"
proof -
  obtain e where e: "alert_row i db = Some e" using assms by (auto simp: review_alert_def split: option.splits)
  define p where "p = Option.bind (fe_payment e) (\<lambda>r. payment_row r db)"
  define db1 where "db1 = db\<lparr>pd_alerts := update_where (\<lambda>y. fe_id y = i)
                             (\<lambda>y. y\<lparr>fe_status := (if dismiss then ALERT_DISMISSED else ALERT_CONFIRMED),
                                    fe_reviewed_by := Some (us_id analyst), fe_reviewed_at := Some now\<rparr>) (pd_alerts db)\<rparr>"
  obtain db2 db3 where "settle_held S now x p analyst dismiss notes db1 = Inr db2"
    "(if \<not> dismiss \<and> block then block_subject S e p analyst db2 else Inr db2) = Inr db3"
    "db' = pay_audit ''FRAUD_ALERT_REVIEWED'' (Some analyst) (fe_event e \<noteq> None) db3"
    using assms e unfolding review_alert_def Let_def p_def [symmetric] db1_def [symmetric]
    by (auto simp: p_def db1_def split: sum.splits if_splits)
  moreover have "pd_election db1 = pd_election db" "pd_payments db1 = pd_payments db" by (simp_all add: db1_def)
  ultimately show ?thesis using e p_def by blast
qed

lemma review_moves:
  assumes ran: "review_alert S now x i analyst dismiss notes block db = Inr db'" and V: "\<And>r. frees i dismiss db r \<Longrightarrow> snd V r"
  shows "pay_moves V db db'"
proof -
  obtain e p db1 db2 db3 where e: "alert_row i db = Some e" "p = Option.bind (fe_payment e) (\<lambda>r. payment_row r db)"
    and 1: "pd_election db1 = pd_election db" "pd_payments db1 = pd_payments db"
    and 2: "settle_held S now x p analyst dismiss notes db1 = Inr db2"
    and 3: "(if \<not> dismiss \<and> block then block_subject S e p analyst db2 else Inr db2) = Inr db3"
    and 4: "db' = pay_audit ''FRAUD_ALERT_REVIEWED'' (Some analyst) (fe_event e \<noteq> None) db3"
    using review_Inr [OF ran] by blast
  have "snd V (py_ref q)" if "p = Some q" and dismiss for q
    using that e by (intro V) (auto simp: frees_def payment_row_ref split: Option.bind_splits)
  with 2 have "pay_moves V db1 db2" by (rule settle_held_moves)
  moreover have "pay_moves V db db1" using 1 by (intro moves_other) simp_all
  moreover have "pay_moves V db2 db'"
    using 3 unfolding 4 by (intro moves_other) (auto split: if_splits dest: block_subject_keeps)
  ultimately show ?thesis by (meson pay_moves_trans)
qed

section \<open>Webhooks\<close>

lemma then_other:
  "pay_moves V a b \<Longrightarrow> pd_payments c = pd_payments b \<Longrightarrow> pd_ledger c = pd_ledger b \<Longrightarrow> pay_moves V a c"
  by (rule pay_moves_trans [OF _ moves_other])

text \<open>
  What a notification of the gateway confirms: a success over an amount, or the end of a
  dispute the merchant won, which the code takes for a success over any amount.
\<close>

definition dispute_reference :: "fields \<Rightarrow> string \<Rightarrow> string option" where
  "dispute_reference kvs reference =
     (if reference = [] then map_option (text_shown ''reference'') (fields_given ''transaction'' kvs) else Some reference)"

definition reports :: "string \<Rightarrow> fields \<Rightarrow> string \<Rightarrow> string \<Rightarrow> rat \<Rightarrow> string \<Rightarrow> bool" where
  "reports event_type kvs reference r a c \<longleftrightarrow>
     (event_type = ''charge.success'' \<and> reference = r \<and> (\<exists>ch. charge_of kvs = Some ch \<and> confirms ch a c))
     \<or> (event_type = ''charge.dispute.resolve'' \<and> dispute_reference kvs reference = Some r)"

definition notified :: "pay_settings \<Rightarrow> string \<Rightarrow> string \<Rightarrow> string \<Rightarrow> rat \<Rightarrow> string \<Rightarrow> bool" where
  "notified S body signature r a c \<longleftrightarrow>
     signature_ok S body signature
     \<and> (\<exists>j e kvs reference. loads body = Some j \<and> read_webhook j = Some (e, kvs, reference) \<and> reports e kvs reference r a c)"

lemma calm_confirmed:
  assumes "to \<noteq> PAY_DISPUTED" and "\<And>a c. fst V r a c"
  shows "calm V db (snd (pay_transition r to source actor db))"
proof (cases "payment_row r db")
  case None
  then show ?thesis by (simp add: pay_transition_def)
next
  case (Some p)
  have "row_calm V p (if may_move (py_status p) to then p\<lparr>py_status := to\<rparr> else p)"
    using assms Some by (auto simp: row_calm_def same_terms_def dest: payment_row_ref)
  with Some show ?thesis by (intro calm_row [OF Some]) (auto simp: transition_row)
qed

lemma transition_idle:
  "\<not> fst (pay_transition r to source actor db) \<Longrightarrow>
    pd_payments (snd (pay_transition r to source actor db)) = pd_payments db"
  by (auto simp: pay_transition_def split: option.splits if_splits)

lemma webhook_refund_moves:
  "webhook_refund now event_type kvs db = Some (w, db') \<Longrightarrow> pay_moves V db db'"
  unfolding webhook_refund_def Let_def
  by (auto split: option.splits if_splits intro: complete_moves moves_other)

lemma dispute_opens:
  assumes p: "payment_row r db = Some p"
  shows "pay_moves V db (let (changed, d) = pay_transition r PAY_DISPUTED ''WEBHOOK'' None db
                         in if changed then record_chargeback now p (reverse_votes r None d) else d)"
proof (cases "may_move (py_status p) PAY_DISPUTED")
  case True
  then have "settled (py_status p)" by (cases "py_status p") simp_all
  with True show ?thesis
    by (intro moved_back [OF p True, where source = "''WEBHOOK''" and actor = None])
      (auto simp: case_prod_unfold transition_changed p record_chargeback_def reverse_ledger)
next
  case False
  then have "\<not> fst (pay_transition r PAY_DISPUTED ''WEBHOOK'' None db)" by (simp add: transition_changed p)
  from transition_idle [OF this] this show ?thesis by (auto simp: case_prod_unfold intro!: moves_other)
qed

lemma webhook_dispute_moves:
  assumes ran: "webhook_dispute now event_type kvs reference db = Some (w, db')"
    and V: "\<And>r a c. event_type = ''charge.dispute.resolve'' \<Longrightarrow> dispute_reference kvs reference = Some r \<Longrightarrow> fst V r a c"
  shows "pay_moves V db db'"
proof -
  obtain t where t: "(if reference = [] then fields_given ''transaction'' kvs else Some []) = Some t"
    using ran by (auto simp: webhook_dispute_def split: option.splits)
  define r where "r = (if reference = [] then text_shown ''reference'' t else reference)"
  have r: "dispute_reference kvs reference = Some r"
    using t by (auto simp: dispute_reference_def r_def split: if_splits)
  show ?thesis
  proof (cases "payment_row r db")
    case None
    with ran t show ?thesis by (auto simp: webhook_dispute_def r_def [symmetric] Let_def)
  next
    case (Some p)
    consider "event_type = ''charge.dispute.create''" | "event_type = ''charge.dispute.resolve''"
      | "event_type \<noteq> ''charge.dispute.create''" "event_type \<noteq> ''charge.dispute.resolve''" by blast
    then have "\<exists>db1. pay_moves V db db1 \<and> db' = pay_audit ''PAYMENT_CHARGEBACK'' None (py_event p \<noteq> None) db1"
    proof cases
      case 1
      with ran t Some have "db' = pay_audit ''PAYMENT_CHARGEBACK'' None (py_event p \<noteq> None)
          (let (changed, d) = pay_transition r PAY_DISPUTED ''WEBHOOK'' None db
           in if changed then record_chargeback now p (reverse_votes r None d) else d)"
        by (simp add: webhook_dispute_def r_def [symmetric] Let_def)
      with dispute_opens [OF Some] show ?thesis by blast
    next
      case 2
      have "pay_moves V db (snd (pay_transition r to ''WEBHOOK'' None db))" if "to \<noteq> PAY_DISPUTED" for to
        using that V [OF 2 r] by (intro pay_moves_calm calm_confirmed)
      with ran t Some 2 show ?thesis by (auto simp: webhook_dispute_def r_def [symmetric] Let_def split: if_splits)
    next
      case 3
      with ran t Some show ?thesis by (auto simp: webhook_dispute_def r_def [symmetric] Let_def)
    qed
    then show ?thesis by (auto intro: then_other)
  qed
qed

lemma dispatch_moves:
  assumes ran: "dispatch_webhook S now event_type kvs r db = Some (w, db')"
    and V: "\<And>s a c. reports event_type kvs r s a c \<Longrightarrow> fst V s a c"
  shows "pay_moves V db db'"
proof -
  consider "event_type = ''charge.success''" | "event_type = ''charge.failed''"
    | "event_type \<noteq> ''charge.success''" "event_type \<noteq> ''charge.failed''" by blast
  then show ?thesis
  proof cases
    case 1
    with ran V show ?thesis
      by (auto simp: dispatch_webhook_def reports_def split: if_splits intro!: apply_moves intro: moves_other)
  next
    case 2
    have "\<not> confirms (bare_charge ''failed'') a c" for a c by (simp add: confirms_def bare_charge_def lower_def)
    with ran 2 show ?thesis
      by (auto simp: dispatch_webhook_def split: if_splits intro!: apply_moves)
  next
    case 3
    with ran V show ?thesis
      by (auto simp: dispatch_webhook_def reports_def split: if_splits
          intro: webhook_refund_moves elim!: webhook_dispute_moves)
  qed
qed

lemma receive_keeps [simp]:
  "pd_payments (receive_webhook h e r db) = pd_payments db" "pd_election (receive_webhook h e r db) = pd_election db"
  "pd_payments (change_webhook h f db) = pd_payments db" "pd_election (change_webhook h f db) = pd_election db"
  by (simp_all add: receive_webhook_def change_webhook_def split: option.split)

lemma webhook_moves:
  assumes "\<And>r a c. notified S body signature r a c \<Longrightarrow> fst V r a c"
  shows "pay_moves V db (snd (handle_webhook S now body signature db))"
proof -
  consider (unsigned) "\<not> signature_ok S body signature" | (garbled) "loads body = None"
    | (unread) j where "loads body = Some j" "read_webhook j = None"
    | (read) j e kvs r where "signature_ok S body signature" "loads body = Some j" "read_webhook j = Some (e, kvs, r)"
    by (metis option.exhaust prod.exhaust)
  then show ?thesis
  proof cases
    case unsigned
    then show ?thesis by (auto simp: handle_webhook_def intro!: moves_other)
  next
    case garbled
    then show ?thesis by (auto simp: handle_webhook_def intro!: moves_other)
  next
    case unread
    then show ?thesis by (auto simp: handle_webhook_def intro!: moves_other)
  next
    case read
    define h where "h = sha256_hex (en_crypto (ps_env S)) body"
    define db1 where "db1 = receive_webhook h e r db"
    have V: "fst V s a c" if "reports e kvs r s a c" for s a c using assms that read by (auto simp: notified_def)
    have "pay_moves V db db1" unfolding db1_def by (rule moves_other) simp_all
    moreover have "pay_moves V db1 (snd (process_webhook S now h e kvs r db1))"
    proof (cases "dispatch_webhook S now e kvs r db1")
      case None
      then show ?thesis by (auto simp: process_webhook_def intro!: moves_other)
    next
      case (Some t)
      obtain w db2 where t: "t = (w, db2)" by (cases t)
      have "pay_moves V db1 db2" using Some t V dispatch_moves by blast
      then show ?thesis by (auto simp: process_webhook_def Some t Let_def intro: then_other)
    qed
    ultimately have "pay_moves V db (snd (process_webhook S now h e kvs r db1))" by (rule pay_moves_trans)
    with \<open>pay_moves V db db1\<close> read show ?thesis by (simp add: handle_webhook_def h_def db1_def Let_def)
  qed
qed

section \<open>Reconciliation and expiry\<close>

text \<open>A pass is a fold whose steps are moves on the database it carries along.\<close>

lemma fold_moves:
  assumes "\<And>x s. x \<in> set xs \<Longrightarrow> pay_moves V (snd s) (snd (f x s))"
  shows "pay_moves V (snd s) (snd (fold f xs s))"
  using assms
proof (induction xs arbitrary: s)
  case (Cons x xs)
  have "pay_moves V (snd s) (snd (f x s))" using Cons.prems by simp
  moreover have "pay_moves V (snd (f x s)) (snd (fold f xs (f x s)))" using Cons by simp
  ultimately show ?case by (simp add: pay_moves_trans)
qed simp

lemma row_moves:
  assumes "\<And>a c. confirms (snd row) a c \<Longrightarrow> fst V (fst row) a c"
  shows "pay_moves V (snd s) (snd (reconcile_row S now actor row s))"
  using assms
  by (auto simp: reconcile_row_def reconcile_unknown_def Let_def case_prod_unfold split: option.split
      intro!: apply_moves intro: moves_other)

lemma stale_moves:
  assumes "\<And>ch a c. answers (py_ref p) = Some ch \<Longrightarrow> confirms ch a c \<Longrightarrow> fst V (py_ref p) a c"
  shows "pay_moves V (snd s) (snd (reconcile_stale S now actor answers p s))"
  using assms by (auto simp: reconcile_stale_def Let_def case_prod_unfold intro!: verify_moves)

lemma uncredited_moves: "pay_moves V (snd s) (snd (reconcile_uncredited now actor p s))"
  by (auto simp: reconcile_uncredited_def Let_def case_prod_unfold intro!: credit_moves)

lemma expire_one_moves:
  assumes "\<And>ch a c. answers (py_ref p) = Some ch \<Longrightarrow> confirms ch a c \<Longrightarrow> fst V (py_ref p) a c"
  shows "pay_moves V (snd s) (snd (expire_one S now answers p s))"
proof -
  have "pay_moves V (snd s) (verify_and_apply S now (py_ref p) (answers (py_ref p)) ''EXPIRY'' None (snd s))"
    using assms by (rule verify_moves)
  then show ?thesis
    by (auto simp: expire_one_def Let_def case_prod_unfold intro!: pay_moves_trans [OF _ pay_moves_calm [OF calm_unsettled]])
qed

lemma expire_ticket_moves:
  assumes "\<And>ch a c. answers (tp_reference t) = Some ch \<Longrightarrow> confirms ch a c \<Longrightarrow> fst V (tp_reference t) a c"
  shows "pay_moves V db (expire_ticket S now answers t db)"
  unfolding expire_ticket_def Let_def using assms by (intro then_other [OF verify_moves]) simp_all

text \<open>What the gateway told a reconciliation: a row of its list, or an answer about a reference.\<close>

definition told :: "(string \<times> charge) list \<Rightarrow> (string \<Rightarrow> charge option) \<Rightarrow> string \<Rightarrow> rat \<Rightarrow> string \<Rightarrow> bool" where
  "told rows answers r a c \<longleftrightarrow> (\<exists>ch. ((r, ch) \<in> set rows \<or> answers r = Some ch) \<and> confirms ch a c)"

lemma reconcile_moves:
  assumes V: "\<And>r a c. told (gl_rows gl) answers r a c \<Longrightarrow> fst V r a c"
  shows "pay_moves V db (snd (reconcile S now t0 t1 actor gl answers db))"
proof -
  have row: "pay_moves V d (snd s) \<Longrightarrow> pay_moves V d (snd (fold (reconcile_row S now actor) (gl_rows gl) s))" for s d
    by (erule pay_moves_trans) (intro fold_moves row_moves V, force simp: told_def)
  have stale: "pay_moves V d (snd s) \<Longrightarrow> pay_moves V d (snd (fold (reconcile_stale S now actor answers) ps s))" for s ps d
    by (erule pay_moves_trans) (intro fold_moves stale_moves V, auto simp: told_def)
  have unpaid: "pay_moves V d (snd s) \<Longrightarrow> pay_moves V d (snd (fold (reconcile_uncredited now actor) ps s))" for s ps d
    by (erule pay_moves_trans) (intro fold_moves uncredited_moves)
  have "pay_moves V db (snd (reconcile_passes S now u0 u1 actor gl answers db))" for u0 u1
    unfolding reconcile_passes_def Let_def case_prod_unfold prod.collapse
    by (cases "ps_fake S"; cases "gl_complete gl") (simp_all add: row stale unpaid)
  then show ?thesis
    unfolding reconcile_def Let_def case_prod_unfold snd_conv by (rule then_other) simp_all
qed

lemma expire_tickets_moves:
  assumes V: "\<And>r a c. told [] answers r a c \<Longrightarrow> fst V r a c"
  shows "pay_moves V d (fold (expire_ticket S now answers) ts d)"
proof (induction ts arbitrary: d)
  case (Cons t ts)
  have "pay_moves V d (expire_ticket S now answers t d)" by (intro expire_ticket_moves V) (auto simp: told_def)
  with Cons show ?case by (simp add: pay_moves_trans)
qed simp

lemma expire_moves:
  assumes V: "\<And>r a c. told [] answers r a c \<Longrightarrow> fst V r a c"
  shows "pay_moves V db (snd (expire_abandoned S now answers db))"
proof -
  have ones: "pay_moves V (snd s) (snd (fold (expire_one S now answers) ps s))" for s :: "int \<times> pay_db" and ps
    by (intro fold_moves expire_one_moves V) (auto simp: told_def)
  show ?thesis
    unfolding expire_abandoned_def Let_def case_prod_unfold snd_conv
    using ones [of "(0, db)"] by (intro pay_moves_trans [OF _ expire_tickets_moves] V) simp_all
qed

end
