(* ===== verification/Pay_Requests.thy ===== *)
theory Pay_Requests
  imports Control_Moves
begin

text \<open>
  All requests that touch payments, one after the other: checkout, the payer's return, the
  gateway's notifications, the analysts, refunds, approvals, reconciliation and expiry.

  A request that is refused with an exception leaves the database as it was. \<open>brings\<close> is
  the evidence a request carries that money was paid, \<open>releases\<close> the payment an analyst's
  request takes off hold.
\<close>

datatype pay_request =
    Pay_votes checkout
  | Pay_invoice string string request_info "nat list" "(string \<times> string) option"
  | Returned string "charge option" string "account option"
  | Notified string string
  | Review int account bool string bool exec_input
  | Ask_refund string rat string account bool exec_input
  | Approve_refund int account "string option"
  | Ask_approval approval_action approval_payload string account exec_input
  | Decide int account bool string exec_input
  | Reconciled "int option" "int option" "account option" gateway_list "string \<Rightarrow> charge option"
  | Expired "string \<Rightarrow> charge option"

definition kept :: "'s \<Rightarrow> 'e + 's \<Rightarrow> 's" where
  "kept s r = (case r of Inl _ \<Rightarrow> s | Inr s' \<Rightarrow> s')"

fun serve :: "pay_settings \<Rightarrow> int \<times> pay_request \<Rightarrow> pay_db \<Rightarrow> pay_db" where
  "serve S (now, Pay_votes ck) db = snd (initiate_vote_payment S now ck db)"
| "serve S (now, Pay_invoice number email q choices answer) db =
     snd (initiate_invoice_payment S now number email q choices answer db)"
| "serve S (now, Returned r answer source actor) db = verify_and_apply S now r answer source actor db"
| "serve S (now, Notified body signature) db = snd (handle_webhook S now body signature db)"
| "serve S (now, Review i analyst dismiss notes block x) db =
     kept db (review_alert S now x i analyst dismiss notes block db)"
| "serve S (now, Ask_refund r amount reason actor reverse x) db =
     snd (request_refund S now x r amount reason actor reverse db)"
| "serve S (now, Approve_refund i approver answer) db = kept db (approve_refund S now i approver False answer db)"
| "serve S (now, Ask_approval action payload reason requester x) db =
     kept db (map_sum id snd (request_approval S now x action payload reason requester db))"
| "serve S (now, Decide i approver ok note x) db = snd (decide_request S now x i approver ok note db)"
| "serve S (now, Reconciled t0 t1 actor gl answers) db = snd (reconcile S now t0 t1 actor gl answers db)"
| "serve S (now, Expired answers) db = snd (expire_abandoned S now answers db)"

fun brings :: "pay_settings \<Rightarrow> pay_request \<Rightarrow> string \<Rightarrow> rat \<Rightarrow> string \<Rightarrow> bool" where
  "brings S (Returned s answer source actor) r a c \<longleftrightarrow> s = r \<and> (\<exists>ch. answer = Some ch \<and> confirms ch a c)"
| "brings S (Notified body signature) r a c \<longleftrightarrow> notified S body signature r a c"
| "brings S (Reconciled t0 t1 actor gl answers) r a c \<longleftrightarrow> told (gl_rows gl) answers r a c"
| "brings S (Expired answers) r a c \<longleftrightarrow> told [] answers r a c"
| "brings S _ r a c \<longleftrightarrow> False"

fun releases :: "pay_request \<Rightarrow> pay_db \<Rightarrow> string \<Rightarrow> bool" where
  "releases (Review i analyst dismiss notes block x) db r \<longleftrightarrow> frees i dismiss db r"
| "releases _ db r \<longleftrightarrow> False"

definition evidence_of :: "pay_settings \<Rightarrow> int \<times> pay_request \<Rightarrow> pay_db \<Rightarrow> evidence" where
  "evidence_of S q db = (brings S (snd q), releases (snd q) db)"

lemma kept_simps [simp]: "kept s (Inl e) = s" "kept s (Inr t) = t"
  by (simp_all add: kept_def)

lemma kept_moves: "(\<And>db'. r = Inr db' \<Longrightarrow> pay_moves V db db') \<Longrightarrow> pay_moves V db (kept db r)"
  by (cases r) simp_all

theorem serve_moves: "pay_moves (evidence_of S q db) db (serve S q db)"
proof -
  obtain now r where q: "q = (now, r)" by (cases q)
  have V: "fst (evidence_of S q db) = brings S r" "snd (evidence_of S q db) = releases r db"
    by (simp_all add: evidence_of_def q)
  show ?thesis
  proof (cases r)
    case (Returned s answer source actor)
    then show ?thesis using V by (auto simp: q intro!: verify_moves)
  next
    case (Notified body signature)
    then show ?thesis using V by (auto simp: q intro!: webhook_moves)
  next
    case (Review i analyst dismiss noted block x)
    then show ?thesis using V by (auto simp: q intro!: kept_moves elim!: review_moves)
  next
    case (Ask_approval action payload reason requester x)
    then show ?thesis
      by (cases "request_approval S now x action payload reason requester db") (auto simp: q intro: request_approval_moves)
  next
    case (Reconciled t0 t1 actor gl answers)
    then show ?thesis using V by (auto simp: q intro!: reconcile_moves)
  next
    case (Expired answers)
    then show ?thesis using V by (auto simp: q intro!: expire_moves)
  qed (auto simp: q vote_checkout_moves invoice_checkout_moves refund_request_moves decide_moves
      intro!: kept_moves elim!: approve_moves)
qed

definition pay_step :: "pay_settings \<Rightarrow> int \<times> pay_request \<Rightarrow> pay_db \<Rightarrow> unit + pay_db" where
  "pay_step S q db = Inr (serve S q db)"

section \<open>The life of one payment\<close>

text \<open>A payment keeps its terms; once settled it stays settled and once cleared it was cleared with evidence.\<close>

lemma move_row:
  assumes "pay_move V db db'" and "payment_row r db = Some p"
  shows "\<exists>q. payment_row r db' = Some q \<and> same_terms p q \<and> may_move\<^sup>*\<^sup>* (py_status p) (py_status q)
    \<and> (py_credited p \<longrightarrow> py_credited q)"
  using assms(1)
proof cases
  case calmly
  with assms(2) show ?thesis by (fastforce simp: calm_def row_calm_def dest: spec [of _ r])
next
  case (crediting s)
  with assms(2) show ?thesis by (cases "s = r") (auto simp: credits_def)
next
  case (reversing s)
  with assms(2) show ?thesis by (cases "s = r") (auto simp: reverses_def)
qed

lemma moves_row:
  "pay_moves V db db' \<Longrightarrow> payment_row r db = Some p \<Longrightarrow>
    \<exists>q. payment_row r db' = Some q \<and> same_terms p q \<and> may_move\<^sup>*\<^sup>* (py_status p) (py_status q) \<and> (py_credited p \<longrightarrow> py_credited q)"
proof (induction rule: rtranclp_induct)
  case base
  then show ?case by auto
next
  case (step b c)
  then obtain q where q: "payment_row r b = Some q" "same_terms p q" "may_move\<^sup>*\<^sup>* (py_status p) (py_status q)"
      "py_credited p \<longrightarrow> py_credited q"
    by blast
  from move_row [OF step.hyps(2) q(1)] q(2-) show ?case by (metis rtranclp_trans same_terms_trans)
qed

end
