(* ===== verification/Payments_Props.thy ===== *)
theory Payments_Props
  imports Pay_Requests
begin

text \<open>
  The properties of the payments: votes are credited only on evidence, the ledger agrees
  with the payments and refines a book of accounts, and statuses follow their graph.
\<close>

section \<open>Votes for money\<close>

definition paid_in :: "string \<Rightarrow> rat \<Rightarrow> string \<Rightarrow> pay_db \<Rightarrow> bool" where
  "paid_in r a c db \<longleftrightarrow>
     (\<exists>p. payment_row r db = Some p \<and> py_amount p = a \<and> py_currency p = c \<and> (py_credited p \<or> cleared p))"

lemma calm_paid_in:
  assumes "calm V db db'" and "paid_in r a c db'"
  shows "paid_in r a c db \<or> fst V r a c \<or> snd V r"
proof -
  obtain q where q: "payment_row r db' = Some q" "py_amount q = a" "py_currency q = c" "py_credited q \<or> cleared q"
    using assms(2) by (auto simp: paid_in_def)
  show ?thesis
  proof (cases "payment_row r db")
    case (Some p)
    then have "row_calm V p q" "py_ref p = r" using assms(1) q(1) by (auto simp: calm_def payment_row_ref dest: spec [of _ r])
    with q Some show ?thesis by (auto simp: row_calm_def same_terms_def paid_in_def)
  next
    case None
    then obtain p where "unstarted p" "py_ref p = r" "row_calm V p q"
      using assms(1) q(1) by (auto simp: calm_def dest!: spec [of _ r])
    with q show ?thesis by (auto simp: row_calm_def same_terms_def unstarted_def cleared_def)
  qed
qed

lemma move_paid_in:
  assumes "pay_move V db db'" and "paid_in r a c db'"
  shows "paid_in r a c db \<or> fst V r a c \<or> snd V r"
  using assms(1)
proof cases
  case calmly
  then show ?thesis using assms(2) by (rule calm_paid_in)
next
  case (crediting s)
  with assms(2) show ?thesis
    by (cases "s = r") (auto simp: credits_def paid_in_def same_terms_def cleared_def)
next
  case (reversing s)
  with assms(2) show ?thesis
    by (cases "s = r") (auto simp: reverses_def paid_in_def same_terms_def cleared_def)
qed

lemma moves_paid_in:
  "pay_moves V db db' \<Longrightarrow> paid_in r a c db' \<Longrightarrow> paid_in r a c db \<or> fst V r a c \<or> snd V r"
  by (induction rule: rtranclp_induct) (use move_paid_in in blast)+

lemma unsettled_stays_unpaid:
  assumes "payment_row r db = Some p" and "\<not> py_credited p" and "\<not> cleared p"
  shows "\<not> paid_in r a c db"
  using assms by (simp add: paid_in_def)


section \<open>The book of accounts\<close>

text \<open>
  Abstractly, the ledger is a book with one account per payment reference: empty, then once
  filled with votes for a candidate, then at most once emptied again.
\<close>

datatype account_state = No_votes | Counting int int | Taken_back int int

inductive account_step :: "account_state \<Rightarrow> account_state \<Rightarrow> bool" where
  "account_step No_votes (Counting c n)"
| "account_step (Counting c n) (Taken_back c n)"

inductive_simps account_step_simps: "account_step a b"

inductive book_step :: "(string \<Rightarrow> account_state) \<Rightarrow> (string \<Rightarrow> account_state) \<Rightarrow> bool" where
  "account_step (A r) a \<Longrightarrow> book_step A (A(r := a))"

definition rows_for :: "string \<Rightarrow> ledger_vote list \<Rightarrow> ledger_vote list" where
  "rows_for r ls = filter (\<lambda>l. lv_payment l = Some r) ls"

definition account_of :: "ledger_vote list \<Rightarrow> account_state" where
  "account_of ls =
     (case ls of
        [] \<Rightarrow> No_votes
      | l # _ \<Rightarrow> if lv_status l = LEDGER_SUCCESS then Counting (lv_candidate l) (lv_votes l) else Taken_back (lv_candidate l) (lv_votes l))"

definition the_book :: "pay_db \<Rightarrow> string \<Rightarrow> account_state" where
  "the_book db r = account_of (rows_for r (pd_ledger db))"

lemma rows_take_back:
  "rows_for s (take_back r ls) = (if s = r then take_back r (rows_for r ls) else rows_for s ls)"
  by (induction ls) (auto simp: rows_for_def take_back_def update_where_def counted_def)

lemma no_clash_rows: "\<not> ledger_clash r db \<Longrightarrow> rows_for r (pd_ledger db) = []"
  by (auto simp: ledger_clash_def rows_for_def filter_empty_conv exists_where_def list_ex_iff)

lemma rows_append: "rows_for s (ls @ [ledger_entry p c]) = rows_for s ls @ (if s = py_ref p then [ledger_entry p c] else [])"
  by (simp add: rows_for_def ledger_entry_def)

lemma account_of_entry [simp]: "account_of [] = No_votes" "account_of [ledger_entry p c] = Counting c (py_total p)"
  by (simp_all add: account_of_def ledger_entry_def)

lemma move_book:
  assumes "pay_move V db db'"
  shows "book_step\<^sup>*\<^sup>* (the_book db) (the_book db')"
  using assms
proof cases
  case calmly
  then have "pd_ledger db' = pd_ledger db" unfolding calm_def by (rule conjunct1)
  then have "the_book db' = the_book db" by (simp add: the_book_def fun_eq_iff)
  then show ?thesis by simp
next
  case (crediting r)
  then obtain p c where p: "payment_row r db = Some p" "\<not> ledger_clash r db" "pd_ledger db' = pd_ledger db @ [ledger_entry p c]"
    by (auto simp: credits_def)
  then have "py_ref p = r" by (simp add: payment_row_ref)
  have "the_book db' = (the_book db)(r := Counting c (py_total p))"
    using p \<open>py_ref p = r\<close> no_clash_rows [OF p(2)]
    by (auto simp: the_book_def fun_eq_iff rows_append)
  moreover have "account_step (the_book db r) (Counting c (py_total p))"
    using no_clash_rows [OF p(2)] by (simp add: the_book_def account_of_def account_step.intros)
  ultimately show ?thesis by (metis book_step.intros r_into_rtranclp)
next
  case (reversing r)
  then have l: "pd_ledger db' = take_back r (pd_ledger db)" by (simp add: reverses_def)
  define a where "a = account_of (take_back r (rows_for r (pd_ledger db)))"
  have upd: "the_book db' = (the_book db)(r := a)"
    by (auto simp: the_book_def fun_eq_iff l rows_take_back a_def)
  have "a = the_book db r \<or> account_step (the_book db r) a"
  proof (cases "rows_for r (pd_ledger db)")
    case (Cons x xs)
    then have "lv_payment x = Some r" by (auto simp: rows_for_def filter_eq_Cons_iff)
    with Cons show ?thesis
      by (auto simp: a_def the_book_def account_of_def take_back_def update_where_def counted_def account_step.simps)
  qed (simp add: a_def the_book_def take_back_def update_where_def)
  then show ?thesis using upd by (metis book_step.intros fun_upd_triv r_into_rtranclp rtranclp.rtrancl_refl)
qed

lemma moves_book: "pay_moves V db db' \<Longrightarrow> book_step\<^sup>*\<^sup>* (the_book db) (the_book db')"
  by (induction rule: rtranclp_induct) (auto dest: move_book)

interpretation book: status_graph "pay_step S" the_book book_step for S
  by unfold_locales (auto simp: pay_step_def intro: moves_book [OF serve_moves])

lemma book_account: "book_step\<^sup>*\<^sup>* A B \<Longrightarrow> account_step\<^sup>*\<^sup>* (A r) (B r)"
proof (induction rule: rtranclp_induct)
  case (step B C)
  from step.hyps(2) show ?case
  proof cases
    case (1 s a)
    with step.IH show ?thesis by (cases "s = r") (auto intro: rtranclp.rtrancl_into_rtrancl)
  qed
qed simp

lemma account_path:
  "account_step\<^sup>*\<^sup>* a b \<longleftrightarrow> a = b \<or> account_step a b \<or> (\<exists>c n. a = No_votes \<and> b = Taken_back c n)"
proof
  assume "account_step\<^sup>*\<^sup>* a b"
  then show "a = b \<or> account_step a b \<or> (\<exists>c n. a = No_votes \<and> b = Taken_back c n)"
    by (induction rule: rtranclp_induct) (auto simp: account_step.simps)
next
  assume "a = b \<or> account_step a b \<or> (\<exists>c n. a = No_votes \<and> b = Taken_back c n)"
  then show "account_step\<^sup>*\<^sup>* a b"
    by (metis account_step.intros r_into_rtranclp rtranclp.rtrancl_into_rtrancl rtranclp.rtrancl_refl)
qed


section \<open>The ledger and the payments\<close>

text \<open>The rows of a payment, counted or taken back; a disputed payment counts no votes.\<close>

definition balanced :: "string \<Rightarrow> pay_db \<Rightarrow> bool" where
  "balanced r db \<longleftrightarrow>
     (case payment_row r db of
        None \<Rightarrow> rows_for r (pd_ledger db) = []
      | Some p \<Rightarrow>
          if \<not> py_credited p then rows_for r (pd_ledger db) = []
          else settled (py_status p)
            \<and> (case py_candidate p of
                 None \<Rightarrow> False
               | Some c \<Rightarrow> rows_for r (pd_ledger db) = [(ledger_entry p c)\<lparr>lv_status := LEDGER_REVERSED\<rparr>]
                          \<or> (rows_for r (pd_ledger db) = [ledger_entry p c] \<and> py_status p \<noteq> PAY_DISPUTED)))"

lemma entry_terms: "same_terms p q \<Longrightarrow> ledger_entry q c = ledger_entry p c"
  by (simp add: same_terms_def ledger_entry_def py_total_def)

lemma take_back_entry [simp]:
  "take_back r [] = []"
  "py_ref p = r \<Longrightarrow> take_back r [ledger_entry p c] = [(ledger_entry p c)\<lparr>lv_status := LEDGER_REVERSED\<rparr>]"
  "take_back r [(ledger_entry p c)\<lparr>lv_status := LEDGER_REVERSED\<rparr>] = [(ledger_entry p c)\<lparr>lv_status := LEDGER_REVERSED\<rparr>]"
  by (simp_all add: take_back_def update_where_def counted_def ledger_entry_def)

lemma balanced_same:
  "balanced r db \<Longrightarrow> payment_row r db' = payment_row r db \<Longrightarrow> rows_for r (pd_ledger db') = rows_for r (pd_ledger db) \<Longrightarrow> balanced r db'"
  by (simp only: balanced_def)

lemma calm_balanced:
  assumes "calm V db db'" and "balanced r db"
  shows "balanced r db'"
proof -
  have ledger: "pd_ledger db' = pd_ledger db" using assms(1) unfolding calm_def by (rule conjunct1)
  have row: "case payment_row r db of
            Some p \<Rightarrow> \<exists>q. payment_row r db' = Some q \<and> row_calm V p q
          | None \<Rightarrow> (case payment_row r db' of
                Some q \<Rightarrow> \<exists>p. unstarted p \<and> py_ref p = r \<and> row_calm V p q
              | None \<Rightarrow> True)"
    using assms(1) by (simp add: calm_def)
  show ?thesis
  proof (cases "payment_row r db")
    case None
    then show ?thesis using row assms(2) ledger
      by (auto simp: balanced_def row_calm_def unstarted_def split: option.splits)
  next
    case (Some p)
    then obtain q where q: "payment_row r db' = Some q" "row_calm V p q" using row by auto
    then have "settled (py_status p) \<Longrightarrow> settled (py_status q)" by (auto simp: row_calm_def intro: settled_stays)
    moreover have "py_candidate q = py_candidate p" "ledger_entry q = ledger_entry p" "py_credited q = py_credited p"
        "py_status q = PAY_DISPUTED \<Longrightarrow> py_status p = PAY_DISPUTED"
      using q(2) by (auto simp: row_calm_def same_terms_def fun_eq_iff intro: entry_terms)
    ultimately show ?thesis using assms(2) Some q(1) ledger by (auto simp: balanced_def split: option.splits if_splits)
  qed
qed

lemma move_balanced:
  assumes "pay_move V db db'" and "balanced r db"
  shows "balanced r db'"
  using assms(1)
proof cases
  case calmly
  then show ?thesis using assms(2) by (rule calm_balanced)
next
  case (crediting s)
  show ?thesis
  proof (cases "s = r")
    case True
    from crediting obtain p c q where h: "payment_row r db = Some p" "py_candidate p = Some c" "\<not> ledger_clash r db"
        "pd_ledger db' = pd_ledger db @ [ledger_entry p c]" "payment_row r db' = Some q" "same_terms p q" "py_credited q"
        "py_status q = PAY_SUCCESS"
      unfolding credits_def True by blast
    then have "py_ref p = r" "py_candidate q = Some c" by (simp_all add: payment_row_ref same_terms_def)
    then show ?thesis using h no_clash_rows [OF h(3)] entry_terms [OF h(6)]
      by (simp add: balanced_def rows_append)
  next
    case False
    obtain p c where p: "payment_row s db = Some p" "pd_ledger db' = pd_ledger db @ [ledger_entry p c]"
      and row: "payment_row r db' = payment_row r db"
      using crediting False by (auto simp: credits_def)
    then have rows: "rows_for r (pd_ledger db') = rows_for r (pd_ledger db)" using False by (simp add: rows_append payment_row_ref)
    show ?thesis by (rule balanced_same [OF assms(2) row rows])
  qed
next
  case (reversing s)
  show ?thesis
  proof (cases "s = r")
    case True
    from reversing obtain p q where h: "payment_row r db = Some p" "payment_row r db' = Some q" "same_terms p q"
        "py_credited q = py_credited p" "may_move\<^sup>*\<^sup>* (py_status p) (py_status q)" "pd_ledger db' = take_back r (pd_ledger db)"
      unfolding reverses_def True by blast
    then have "py_ref p = r" "py_candidate q = py_candidate p" "ledger_entry q = ledger_entry p"
      by (auto simp: payment_row_ref same_terms_def fun_eq_iff intro: entry_terms)
    then show ?thesis using h assms(2) settled_stays [OF h(5)]
      by (auto simp: balanced_def rows_take_back split: option.splits if_splits)
  next
    case False
    with reversing show ?thesis
      by (intro balanced_same [OF assms(2)]) (simp_all add: reverses_def rows_take_back)
  qed
qed

lemma moves_balanced: "pay_moves V db db' \<Longrightarrow> balanced r db \<Longrightarrow> balanced r db'"
  by (induction rule: rtranclp_induct) (auto dest: move_balanced)

text \<open>C28: The ledger always agrees with the payments: a credited payment, and no other, has
  exactly one ledger row, which names its candidate, its votes with the bonus and its amount;
  its money was taken, and a disputed payment counts no votes.\<close>

theorem ledger_agrees_with_payments:
  assumes "run_attempts (pay_step S) qs db = (hits, t)" and "balanced r db"
  shows "balanced r t"
proof -
  have "balanced r (snd (run_attempts (pay_step S) qs db))"
    using assms(2)
    by (induction qs arbitrary: db) (auto simp: pay_step_def case_prod_unfold Let_def intro: moves_balanced [OF serve_moves])
  then show ?thesis using assms(1) by simp
qed

section \<open>Statuses\<close>

inductive status_step :: "pay_status option \<Rightarrow> pay_status option \<Rightarrow> bool" where
  "status_step None (Some PAY_INITIALIZED)"
| "may_move a b \<Longrightarrow> status_step (Some a) (Some b)"

inductive_simps status_step_simps: "status_step a b"

lemma status_path: "may_move\<^sup>*\<^sup>* a b \<Longrightarrow> status_step\<^sup>*\<^sup>* (Some a) (Some b)"
  by (induction rule: rtranclp_induct) (auto intro: status_step.intros rtranclp.rtrancl_into_rtrancl)

lemma move_status: 
  assumes "pay_move V db db'"
  shows "status_step\<^sup>*\<^sup>* (status_of r db) (status_of r db')"
proof (cases "payment_row r db")
  case (Some p)
  then obtain q where "payment_row r db' = Some q" "may_move\<^sup>*\<^sup>* (py_status p) (py_status q)"
    using move_row [OF assms] by blast
  with Some show ?thesis by (simp add: status_of_def status_path)
next
  case None
  have "status_step\<^sup>*\<^sup>* None (Some st)" for st
    using status_step.intros(1) status_path [OF unstarted_path] by (rule converse_rtranclp_into_rtranclp)
  with None show ?thesis by (cases "payment_row r db'") (auto simp: status_of_def)
qed

lemma moves_status: "pay_moves V db db' \<Longrightarrow> status_step\<^sup>*\<^sup>* (status_of r db) (status_of r db')"
  by (induction rule: rtranclp_induct) (auto intro: rtranclp_trans move_status)

interpretation paylife: status_graph "pay_step S" "status_of r" status_step for S r
  by unfold_locales (auto simp: pay_step_def intro: moves_status [OF serve_moves])

text \<open>A payment's status only moves along the transitions the service allows, whatever
  requests are served; a refund in full and a reversal are final, and a payment that is ever
  disputed or partially refunded had succeeded before.\<close>

theorem payment_status_path:
  assumes "run_attempts (pay_step S) qs db = (hits, t)"
  shows "status_step\<^sup>*\<^sup>* (status_of r db) (status_of r t)
    \<and> (status_of r db \<in> {Some PAY_REFUNDED, Some PAY_REVERSED} \<longrightarrow> status_of r t = status_of r db)
    \<and> (status_of r t = Some PAY_PARTIALLY_REFUNDED \<longrightarrow> status_of r db = status_of r t
       \<or> status_step\<^sup>*\<^sup>* (status_of r db) (Some PAY_SUCCESS))"
proof -
  have final: "status_of r t = status_of r db" if "status_of r db \<in> {Some PAY_REFUNDED, Some PAY_REVERSED}"
    using that by (intro paylife.run_final [OF assms]) (auto simp: status_step_simps)
  have "c = Some PAY_SUCCESS" if "status_step c (Some PAY_PARTIALLY_REFUNDED)" for c
    using that by cases (rename_tac a, case_tac a, simp_all)
  then have "status_step\<^sup>*\<^sup>* (status_of r db) (Some PAY_SUCCESS)"
    if "status_of r t = Some PAY_PARTIALLY_REFUNDED" "status_of r db \<noteq> Some PAY_PARTIALLY_REFUNDED"
    using that by (intro paylife.run_through [OF assms])
  then show ?thesis using paylife.run_path [OF assms, of r] final by auto
qed

section \<open>Witnesses\<close>

definition ex_pay_settings :: pay_settings where
  "ex_pay_settings =
     \<lparr>ps_env = ex_env, ps_billing = ex_settings, ps_fake = False, ps_secret = ''sk'', ps_monitor_at = 30, ps_challenge_at = 50,
      ps_hold_at = 80, ps_flag_proxies = True, ps_refund_threshold = 100, ps_abandon_minutes = 60, ps_captcha = False,
      ps_hmac512 = (\<lambda>k b. k @ b), ps_in_network = (\<lambda>a n. Some (a = n)), ps_address_ok = (\<lambda>a. True),
      ps_parse_time = (\<lambda>t. None), ps_disposable = [], ps_countries = []\<rparr>"

definition ex_payment :: payment where
  "ex_payment =
     (blank_payment 0 ''FV-1'' VOTE ''GHS'' \<lparr>ri_ip = None, ri_device = [], ri_agent = [], ri_relayed = False, ri_human = True\<rparr>)
       \<lparr>py_event := Some 1, py_candidate := Some 3, py_votes := 10, py_amount := 5, py_status := PAY_PENDING\<rparr>"

definition ex_pay_db :: pay_db where
  "ex_pay_db =
     \<lparr>pd_election = ex_db, pd_billing = ex_billing, pd_payments = [ex_payment], pd_history = [], pd_refunds = [], pd_webhooks = [],
      pd_discounts = [], pd_tickets = [], pd_alerts = [], pd_blocks = [], pd_counters = []\<rparr>"

definition ex_charge :: charge where
  "ex_charge = (bare_charge ''success'')\<lparr>ch_amount := 500, ch_currency := ''GHS''\<rparr>"

definition ex_return :: "int \<times> pay_request" where
  "ex_return = (9, Returned ''FV-1'' (Some ex_charge) ''RETURN'' None)"

definition ex_paid_db :: pay_db where
  "ex_paid_db = serve ex_pay_settings ex_return ex_pay_db"

lemma ex_pay_run: "run_attempts (pay_step ex_pay_settings) [ex_return] ex_pay_db = ([(ex_return, ex_pay_db)], ex_paid_db)"
  by (simp add: pay_step_def ex_paid_db_def)

lemma ex_row: "payment_row ''FV-1'' ex_pay_db = Some ex_payment"
  by (simp add: payment_row_def ex_pay_db_def ex_payment_def blank_payment_def)

lemma ex_paid_row:
  "case payment_row ''FV-1'' ex_paid_db of
     Some p \<Rightarrow> py_credited p \<and> py_status p = PAY_SUCCESS \<and> py_amount p = 5 \<and> py_currency p = ''GHS'' | None \<Rightarrow> False"
  by code_simp



theorem ledger_agrees_with_payments_witness:
  "balanced ''FV-1'' ex_pay_db \<and> balanced ''FV-1'' ex_paid_db
    \<and> rows_for ''FV-1'' (pd_ledger ex_pay_db) = [] \<and> rows_for ''FV-1'' (pd_ledger ex_paid_db) \<noteq> []"
proof -
  have 0: "rows_for ''FV-1'' (pd_ledger ex_pay_db) = []" by (simp add: rows_for_def ex_pay_db_def ex_db_def)
  then have 1: "balanced ''FV-1'' ex_pay_db" by (simp add: balanced_def ex_row ex_payment_def blank_payment_def)
  then have 2: "balanced ''FV-1'' ex_paid_db" using ledger_agrees_with_payments [OF ex_pay_run] by blast
  with ex_paid_row have "rows_for ''FV-1'' (pd_ledger ex_paid_db) \<noteq> []" by (auto simp: balanced_def split: option.splits)
  with 0 1 2 show ?thesis by blast
qed

theorem payment_status_path_witness:
  "status_step\<^sup>*\<^sup>* (Some PAY_PENDING) (Some PAY_SUCCESS)"
  using payment_status_path [OF ex_pay_run, of "''FV-1''"] ex_paid_row
  by (auto simp: status_of_def ex_row ex_payment_def blank_payment_def split: option.splits)

end
