(* ===== verification/Quote_Props.thy ===== *)
theory Quote_Props
  imports Payments_Props
begin

text \<open>
  What a new payment was priced at: the quote it came from had no error, so the election was
  open, the amount is positive and adds up, and the payer was within the limits counted.
\<close>

section \<open>A quote without errors\<close>

text \<open>The limits per voter, over the payments the code looks at.\<close>

definition limit_ok :: "int option \<Rightarrow> payment list \<Rightarrow> quote \<Rightarrow> bool" where
  "limit_ok limit ps q \<longleftrightarrow> limit_set limit = 0 \<or> votes_bought ps + qt_total q \<le> limit_set limit"

definition within_all_limits :: "candidate \<Rightarrow> payment list \<Rightarrow> pay_db \<Rightarrow> quote \<Rightarrow> bool" where
  "within_all_limits c ps db q \<longleftrightarrow>
     limit_ok (ev_max_per_voter (pd_event db)) ps q
     \<and> limit_ok (ca_max_per_voter c) (filter (\<lambda>p. py_candidate p = Some (ca_id c)) ps) q
     \<and> (rat_set (ev_max_spend (pd_event db)) = 0
        \<or> sum_list (map py_amount ps) + qt_amount q \<le> rat_set (ev_max_spend (pd_event db)))"

definition adds_up :: "quote \<Rightarrow> bool" where
  "adds_up q \<longleftrightarrow> 0 < qt_amount q \<and> qt_amount q = round_cents (max (qt_gross q - qt_discount q) 0)"

lemma exceeds_ok: "exceeds limit ps q \<longleftrightarrow> \<not> limit_ok limit ps q"
  by (auto simp: exceeds_def limit_ok_def)

lemma within_limits_ok:
  assumes "qt_errors (within_limits c ps db q) = []"
  shows "qt_errors q = []" "within_all_limits c ps db q"
    "qt_amount (within_limits c ps db q) = qt_amount q" "qt_total (within_limits c ps db q) = qt_total q"
    "qt_gross (within_limits c ps db q) = qt_gross q" "qt_discount (within_limits c ps db q) = qt_discount q"
    "qt_votes (within_limits c ps db q) = qt_votes q"
proof -
  show "qt_errors q = []" "within_all_limits c ps db q"
    using assms
    by (auto simp: within_limits_def within_all_limits_def exceeds_ok Let_def limit_ok_def not_less split: option.splits if_splits)
  show "qt_amount (within_limits c ps db q) = qt_amount q" "qt_total (within_limits c ps db q) = qt_total q"
    "qt_gross (within_limits c ps db q) = qt_gross q" "qt_discount (within_limits c ps db q) = qt_discount q"
    "qt_votes (within_limits c ps db q) = qt_votes q"
    by (simp_all add: within_limits_def Let_def split: option.split)
qed

lemma amount_due_ok:
  assumes "qt_errors (amount_due q) = []"
  shows "qt_errors q = []" "adds_up (amount_due q)" "qt_votes (amount_due q) = qt_votes q" "qt_total (amount_due q) = qt_total q"
  using assms by (auto simp: amount_due_def adds_up_def quote_fails_def Let_def qt_total_def split: if_splits)

lemma discounted_errors: "qt_errors (discounted now code email db q) = [] \<Longrightarrow> qt_errors q = []"
  by (auto simp: discounted_def apply_code_def Let_def quote_fails_def split: option.splits if_splits discount_kind.splits)

lemma discounted_votes: "qt_votes (discounted now code email db q) = qt_votes q"
  by (auto simp: discounted_def apply_code_def Let_def quote_fails_def split: option.splits if_splits discount_kind.splits)

definition payer_known :: "pay_settings \<Rightarrow> string \<Rightarrow> string \<Rightarrow> bool" where
  "payer_known S email phone \<longleftrightarrow> index_of_contact S ''email'' email \<noteq> [] \<or> phone_index_of S phone \<noteq> []"

lemma finish_ok:
  assumes "qt_errors (finish_quote S now c code email phone db q) = []"
  shows "qt_errors q = []" "adds_up (finish_quote S now c code email phone db q)"
    "qt_votes (finish_quote S now c code email phone db q) = qt_votes q"
    "payer_known S email phone \<longrightarrow> within_all_limits c
       (prior_payments (index_of_contact S ''email'' email) (phone_index_of S phone) db) db
       (finish_quote S now c code email phone db q)"
proof -
  define d where "d = amount_due (discounted now code (index_of_contact S ''email'' email) db q)"
  define ps where "ps = prior_payments (index_of_contact S ''email'' email) (phone_index_of S phone) db"
  have f: "finish_quote S now c code email phone db q = (if payer_known S email phone then within_limits c ps db d else d)"
    by (simp add: finish_quote_def Let_def d_def ps_def payer_known_def)
  have none: "qt_errors d = []"
    using assms within_limits_ok(1) [of c ps db d] unfolding f by (cases "payer_known S email phone") simp_all
  note due = amount_due_ok [OF none [unfolded d_def], folded d_def]
  show "qt_errors q = []" using due(1) by (rule discounted_errors)
  have same: "qt_votes d = qt_votes q" using due(3) by (simp add: discounted_votes)
  have "adds_up (within_limits c ps db d) = adds_up d"
    "within_all_limits c ps db (within_limits c ps db d) = within_all_limits c ps db d" if "payer_known S email phone"
    using within_limits_ok(3-) [of c ps db d] assms that unfolding f
    by (simp_all add: adds_up_def within_all_limits_def limit_ok_def)
  moreover have "within_all_limits c ps db d" "qt_votes (within_limits c ps db d) = qt_votes d" if "payer_known S email phone"
    using within_limits_ok(2,7) [of c ps db d] assms that unfolding f by simp_all
  ultimately show "adds_up (finish_quote S now c code email phone db q)" "qt_votes (finish_quote S now c code email phone db q) = qt_votes q"
    "payer_known S email phone \<longrightarrow> within_all_limits c ps db (finish_quote S now c code email phone db q)"
    using due(2) same unfolding f by simp_all
qed

lemma quote_ok:
  assumes "q = make_quote S now c votes package code email phone db" and "qt_errors q = []"
  shows "is_paid (pd_event db)" "ca_event c = ev_id (pd_event db)" "ca_status c = ACTIVE" "accepting_votes now (pd_event db)"
    "adds_up q"
    "payer_known S email phone \<longrightarrow> within_all_limits c
       (prior_payments (index_of_contact S ''email'' email) (phone_index_of S phone) db) db q"
    "package = None \<longrightarrow> max 1 (ev_min_per_payment (pd_event db)) \<le> qt_votes q
       \<and> (limit_set (ev_max_per_payment (pd_event db)) = 0 \<or> qt_votes q \<le> limit_set (ev_max_per_payment (pd_event db)))"
proof -
  let ?ev = "pd_event db"
  define q0 where "q0 = quote_fails (\<not> accepting_votes now ?ev) Voting_closed (quote_fails (ca_status c \<noteq> ACTIVE) Candidate_closed empty_quote)"
  define q1 where "q1 = q0\<lparr>qt_unit := unit_price c db\<rparr>"
  show paid: "is_paid ?ev" and here: "ca_event c = ev_id ?ev" using assms by (auto simp: make_quote_def Let_def split: if_splits)
  obtain q2 where q2: "q = finish_quote S now c code email phone db q2" "qt_errors q2 = [] \<Longrightarrow> qt_errors q1 = []"
    and asked: "package = None \<Longrightarrow> q2 = price_votes ?ev (unit_price c db) (votes_asked votes) q1"
  proof (cases package)
    case None
    with that [of "price_votes ?ev (unit_price c db) (votes_asked votes) q1"] assms paid here show thesis
      unfolding make_quote_def Let_def q0_def [symmetric] q1_def [symmetric] by (simp add: price_votes_def Let_def)
  next
    case (Some k)
    with that [of "q1\<lparr>qt_package := Some k, qt_votes := vp_votes k, qt_bonus := vp_bonus k, qt_gross := vp_price k\<rparr>"]
      assms paid here show thesis
      unfolding make_quote_def Let_def q0_def [symmetric] q1_def [symmetric] by (simp split: if_splits)
  qed
  note fin = finish_ok [OF assms(2) [unfolded q2(1)], folded q2(1)]
  have "qt_errors q0 = []" using q2(2) [OF fin(1)] by (simp add: q1_def)
  then show "ca_status c = ACTIVE" "accepting_votes now ?ev" by (auto simp: q0_def split: if_splits)
  show "adds_up q" "payer_known S email phone \<longrightarrow> within_all_limits c
       (prior_payments (index_of_contact S ''email'' email) (phone_index_of S phone) db) db q"
    using fin(2,4) by simp_all
  show "package = None \<longrightarrow> max 1 (ev_min_per_payment ?ev) \<le> qt_votes q
       \<and> (limit_set (ev_max_per_payment ?ev) = 0 \<or> qt_votes q \<le> limit_set (ev_max_per_payment ?ev))"
  proof
    assume "package = None"
    from asked [OF this] fin(1) show "max 1 (ev_min_per_payment ?ev) \<le> qt_votes q
       \<and> (limit_set (ev_max_per_payment ?ev) = 0 \<or> qt_votes q \<le> limit_set (ev_max_per_payment ?ev))"
      unfolding fin(3) by (auto simp: price_votes_def Let_def not_less split: if_splits)
  qed
qed

section \<open>Checkout\<close>

lemma blank_fields [simp]:
  "py_amount (vote_payment S now ck q risk db) = qt_amount q" "py_votes (vote_payment S now ck q risk db) = qt_votes q"
  "py_bonus (vote_payment S now ck q risk db) = qt_bonus q" "py_ref (vote_payment S now ck q risk db) = new_reference (ck_choices ck)"
  "py_candidate (vote_payment S now ck q risk db) = Some (ca_id (ck_candidate ck))"
  "py_credited (vote_payment S now ck q risk db) = False"
  by (simp_all add: vote_payment_def blank_payment_def set_payer_def Let_def)

lemma opened_row:
  assumes "payment_row (py_ref p) db = None" and "open_checkout (py_ref p) answer (insert_payment p i db) = (Inr r, db')"
  shows "\<exists>u c. r = py_ref p \<and> payment_row r db' = Some ((p\<lparr>py_url := u, py_access_code := c\<rparr>)
    \<lparr>py_status := (if may_move (py_status p) PAY_PENDING then PAY_PENDING else py_status p)\<rparr>)"
  using assms(2) insert_row [OF assms(1), of "py_ref p" i]
  by (auto simp: open_checkout_def transition_row payment_row_change split: option.splits prod.splits intro!: exI)

text \<open>A checkout that starts a new payment prices it right: the election was a paid one,
  open for votes, the candidate active in it; the amount is positive and is the gross price
  less the discount, rounded to cents; the number of votes asked lies within the limits per
  payment; and votes and spend together with what the payer's credited payments already hold
  stay within the limits of the election and the candidate.\<close>

theorem checkout_priced:
  assumes "initiate_vote_payment S now ck db = (Inr r, db')" and "payment_row r db = None"
  shows "\<exists>q p. q = make_quote S now (ck_candidate ck) (ck_votes ck) (ck_package ck) (ck_code ck) (ck_email ck) (ck_phone ck) db
    \<and> payment_row r db' = Some p \<and> py_amount p = qt_amount q \<and> py_votes p = qt_votes q \<and> py_candidate p = Some (ca_id (ck_candidate ck))
    \<and> \<not> py_credited p
    \<and> is_paid (pd_event db) \<and> accepting_votes now (pd_event db)
    \<and> ca_event (ck_candidate ck) = ev_id (pd_event db) \<and> ca_status (ck_candidate ck) = ACTIVE
    \<and> adds_up q
    \<and> (ck_package ck = None \<longrightarrow> max 1 (ev_min_per_payment (pd_event db)) \<le> qt_votes q
         \<and> (limit_set (ev_max_per_payment (pd_event db)) = 0 \<or> qt_votes q \<le> limit_set (ev_max_per_payment (pd_event db))))
    \<and> (payer_known S (ck_email ck) (ck_phone ck) \<longrightarrow> within_all_limits (ck_candidate ck)
         (prior_payments (index_of_contact S ''email'' (ck_email ck)) (phone_index_of S (ck_phone ck)) db) db q)"
proof -
  define q where "q = make_quote S now (ck_candidate ck) (ck_votes ck) (ck_package ck) (ck_code ck) (ck_email ck) (ck_phone ck) db"
  have keyed: "keyed_payment (ck_key ck) db = None"
  proof (rule ccontr)
    assume "keyed_payment (ck_key ck) db \<noteq> None"
    then obtain p where p: "keyed_payment (ck_key ck) db = Some p" by blast
    then have "p \<in> set (pd_payments db)" by (auto simp: keyed_payment_def dest: first_where_Some split: if_splits)
    moreover have "py_ref p = r" using assms(1) p by (auto simp: initiate_vote_payment_def split: if_splits)
    ultimately show False using assms(2) by (auto simp: payment_row_def first_where_None)
  qed
  have none: "qt_errors q = []" and started: "start_payment S now ck q db = (Inr r, db')"
    using assms(1) keyed unfolding initiate_vote_payment_def Let_def q_def [symmetric]
    by (auto split: list.splits if_splits)
  obtain risk db1 where a: "assess S now (checkout_attempt ck q db) db = (risk, db1)"
    by (cases "assess S now (checkout_attempt ck q db) db")
  have same: "pd_payments db1 = pd_payments db" using assess_keeps(1) [of S now "checkout_attempt ck q db" db] a by simp
  let ?p = "vote_payment S now ck q risk db1"
  have fresh: "payment_row (py_ref ?p) db1 = None"
  proof (rule ccontr)
    assume "payment_row (py_ref ?p) db1 \<noteq> None"
    then have "same_key_payment (ck_key ck) db1 = Inr r" using started a by (auto simp: start_payment_def Let_def split: if_splits)
    then obtain p where "p \<in> set (pd_payments db1)" "py_ref p = r"
      by (auto simp: same_key_payment_def dest: first_where_Some split: option.splits)
    then show False using assms(2) same by (auto simp: payment_row_def first_where_None)
  qed
  then have "open_checkout (py_ref ?p) (ck_answer ck) (insert_payment ?p (as_alert risk) db1) = (Inr r, db')"
    using started a by (auto simp: start_payment_def Let_def split: if_splits)
  from opened_row [OF fresh this] obtain p where p: "payment_row r db' = Some p" "py_amount p = qt_amount q"
      "py_votes p = qt_votes q" "py_candidate p = Some (ca_id (ck_candidate ck))" "\<not> py_credited p"
    by auto
  note ok = quote_ok [OF q_def none]
  show ?thesis unfolding q_def [symmetric]
    by (intro exI [of _ q] exI [of _ p] conjI refl) (fact p ok)+
qed

section \<open>Witness\<close>

definition ex_paid_event :: pay_db where
  "ex_paid_event = ex_pay_db\<lparr>pd_election := update_event (\<lambda>ev. ev\<lparr>ev_mode := PAY_TO_VOTE, ev_max_per_voter := Some 100\<rparr>) ex_db,
     pd_payments := []\<rparr>"

definition ex_checkout :: checkout where
  "ex_checkout =
     \<lparr>ck_candidate = ex_candidate 1, ck_votes = ''20'', ck_package = None, ck_code = [], ck_email = [], ck_phone = ''0241234567'',
      ck_name = ''Kofi'', ck_key = [], ck_channel = ''card'',
      ck_request = \<lparr>ri_ip = None, ri_device = [], ri_agent = ''Mozilla'', ri_relayed = False, ri_human = True\<rparr>,
      ck_choices = replicate 14 0, ck_answer = Some (''https://pay'', ''code'')\<rparr>"

lemma ex_quote:
  "qt_errors (make_quote ex_pay_settings 15 (ex_candidate 1) ''20'' None [] [] ''0241234567'' ex_paid_event) = []"
proof -
  have "parse_int ''20'' = Some 20" by code_simp
  moreover have "prior_payments e p ex_paid_event = []" for e p by (simp add: prior_payments_def ex_paid_event_def)
  moreover have "pd_event ex_paid_event = ex_event\<lparr>ev_mode := PAY_TO_VOTE, ev_max_per_voter := Some 100\<rparr>"
    "category_of (ex_candidate 1) ex_paid_event = Some (ex_position MULTIPLE 1 2)"
    by (simp_all add: ex_paid_event_def ex_db_def ex_defs category_of_def first_where_def update_event_def)
  moreover have "unit_price (ex_candidate 1) ex_paid_event = 1" by code_simp
  moreover have "quantize_half_up 2 20 = 20" "round_cents 20 = 20" by code_simp+
  moreover have "ca_id (ex_candidate 1) = 1" "ca_event (ex_candidate 1) = 1" "ca_status (ex_candidate 1) = ACTIVE"
      "ca_max_per_voter (ex_candidate 1) = None" "pos_max_per_voter (ex_position MULTIPLE 1 2) = None"
    by (simp_all add: ex_candidate_def ex_position_def)
  ultimately show ?thesis
    by (simp add: make_quote_def finish_quote_def within_limits_def price_votes_def amount_due_def discounted_def find_discount_def
        Let_def index_of_contact_def exceeds_def votes_bought_def qt_total_def limit_set_def rat_set_def votes_asked_def
        empty_quote_def is_paid_def accepting_votes_def ex_event_def quote_fails_def)
qed

lemma ex_checkout_runs:
  "fst (initiate_vote_payment ex_pay_settings 15 ex_checkout ex_paid_event) = Inr (new_reference (replicate 14 0))"
proof -
  have "payment_row r ex_paid_event = None" for r
    by (simp add: payment_row_def first_where_def ex_paid_event_def)
  moreover have "\<not> ps_captcha ex_pay_settings" "pay_configured ex_pay_settings"
    by (simp_all add: ex_pay_settings_def pay_configured_def)
  ultimately show ?thesis
    using ex_quote
    by (simp add: initiate_vote_payment_def keyed_payment_def ex_checkout_def Let_def start_payment_def case_prod_unfold
        open_checkout_def)
qed

theorem checkout_priced_witness:
  "\<exists>db' p. initiate_vote_payment ex_pay_settings 15 ex_checkout ex_paid_event = (Inr (new_reference (replicate 14 0)), db')
    \<and> payment_row (new_reference (replicate 14 0)) db' = Some p \<and> 0 < py_amount p \<and> py_candidate p = Some 1"
proof -
  obtain db' where run: "initiate_vote_payment ex_pay_settings 15 ex_checkout ex_paid_event = (Inr (new_reference (replicate 14 0)), db')"
    using ex_checkout_runs by (metis prod.collapse)
  have "payment_row (new_reference (replicate 14 0)) ex_paid_event = None"
    by (simp add: payment_row_def first_where_def ex_paid_event_def)
  from checkout_priced [OF run this] obtain q p where "payment_row (new_reference (replicate 14 0)) db' = Some p"
      "py_amount p = qt_amount q" "adds_up q" "py_candidate p = Some (ca_id (ck_candidate ex_checkout))"
    by blast
  moreover have "ca_id (ck_candidate ex_checkout) = 1" by (simp add: ex_checkout_def ex_candidate_def)
  ultimately show ?thesis using run unfolding adds_up_def by metis
qed

end
