(* ===== verification/Pay_Frame.thy ===== *)
theory Pay_Frame
  imports Pay_Requests
begin

text \<open>
  What the payment operations leave alone, stated once as a contract: a view of the database
  that none of the elementary updates changes is changed by no operation. It is interpreted
  for the election without its vote ledger and its audit log, and for the gateway's
  notifications.
\<close>

section \<open>A view of the database the payments do not change\<close>

locale unpaid_view =
  fixes view :: "pay_db \<Rightarrow> 'v"
  assumes keeps_history [simp]: "view (record_pay e db) = view db"
    and keeps_payment [simp]: "view (change_payment r f db) = view db"
    and keeps_refund [simp]: "view (change_refund i g db) = view db"
    and keeps_ledger [simp]: "view (change_ledger h db) = view db"
    and keeps_note [simp]: "view (change_election (log_note n) db) = view db"
    and keeps_audit [simp]: "view (pay_audit action actor b db) = view db"
    and keeps_payments [simp]: "view (db\<lparr>pd_payments := ps\<rparr>) = view db"
    and keeps_alerts [simp]: "view (db\<lparr>pd_alerts := es\<rparr>) = view db"
    and keeps_discounts [simp]: "view (db\<lparr>pd_discounts := ds\<rparr>) = view db"
    and keeps_tickets [simp]: "view (db\<lparr>pd_tickets := ts\<rparr>) = view db"
    and keeps_counters [simp]: "view (db\<lparr>pd_counters := cs\<rparr>) = view db"
    and keeps_billing [simp]: "view (db\<lparr>pd_billing := bl\<rparr>) = view db"
begin

lemma keeps_code [simp]: "view (redeem_code k db) = view db"
  by (simp add: redeem_code_def split: option.split)

lemma keeps_alert [simp]: "view (new_alert e db) = view db" "view (record_chargeback now p db) = view db"
  by (simp_all add: new_alert_def record_chargeback_def)

lemma keeps_assess [simp]: "view (snd (assess S now a db)) = view db"
  by (simp add: assess_def Let_def case_prod_unfold)

lemma keeps_transition [simp]: "view (snd (pay_transition r to source actor db)) = view db"
  by (simp add: pay_transition_def split: option.split)

lemma keeps_credit [simp]: "view (credit_votes now r actor db) = view db"
  by (simp add: credit_votes_def split: option.split)

lemma keeps_reverse [simp]: "view (reverse_votes r actor db) = view db"
  by (simp add: reverse_votes_def Let_def)

lemma keeps_settle [simp]: "view (settle S now r ch actor db) = view db"
proof -
  have "view (hold_mismatch now p d) = view d" "view (assess_paid S now p d) = view d" for p d
    by (simp_all add: hold_mismatch_def assess_paid_def Let_def case_prod_unfold)
  then show ?thesis by (simp add: settle_def settle_votes_def Let_def split: option.split)
qed

lemma keeps_result [simp]: "view (apply_gateway_result S now r ch source actor db) = view db"
  by (simp add: apply_gateway_result_def Let_def case_prod_unfold)

lemma keeps_ticket [simp]: "view (apply_ticket_result r ch db) = view db"
  by (simp add: apply_ticket_result_def Let_def split: option.split)

lemma keeps_verify [simp]: "view (verify_and_apply S now r answer source actor db) = view db"
  by (simp add: verify_and_apply_def split: option.split)

lemma keeps_release [simp]: "view (release_held_payment now r analyst db) = view db"
  by (simp add: release_held_payment_def Let_def)

lemma keeps_open [simp]: "view (snd (open_checkout r answer (insert_payment p i db))) = view db"
  by (auto simp: open_checkout_def insert_payment_def split: option.split)

lemma keeps_vote_checkout [simp]: "view (snd (initiate_vote_payment S now ck db)) = view db"
proof -
  have "view (snd (start_payment S now ck q db)) = view db" for q
    by (simp add: start_payment_def Let_def case_prod_unfold)
  then show ?thesis by (simp add: initiate_vote_payment_def Let_def split: option.split list.split)
qed

lemma keeps_invoice_checkout [simp]: "view (snd (initiate_invoice_payment S now n e q choices answer db)) = view db"
  by (simp add: initiate_invoice_payment_def Let_def split: option.split)

lemma keeps_complete [simp]: "view (complete_refund now i db) = view db"
  by (simp add: complete_refund_def Let_def split: option.split)

lemma keeps_approve: "approve_refund S now i approver via answer db = Inr db' \<Longrightarrow> view db' = view db"
  by (auto simp: approve_refund_def submit_refund_def Let_def split: option.splits sum.splits if_splits)

lemma keeps_dispatch: "dispatch_webhook S now e kvs r db = Some (w, db') \<Longrightarrow> view db' = view db"
proof -
  have "webhook_refund now e kvs db = Some (v, d) \<Longrightarrow> view d = view db" for v d
    by (auto simp: webhook_refund_def Let_def split: option.splits if_splits)
  moreover have "webhook_dispute now e kvs r db = Some (v, d) \<Longrightarrow> view d = view db" for v d
    by (auto simp: webhook_dispute_def Let_def case_prod_unfold split: option.splits if_splits)
  moreover assume "dispatch_webhook S now e kvs r db = Some (w, db')"
  ultimately show ?thesis by (auto simp: dispatch_webhook_def split: if_splits)
qed

lemma keeps_fold: "(\<And>x s. view (snd (f x s)) = view (snd s)) \<Longrightarrow> view (snd (fold f xs s)) = view (snd s)"
  by (induction xs arbitrary: s) simp_all

lemma keeps_reconcile [simp]: "view (snd (reconcile S now t0 t1 actor gl answers db)) = view db"
proof -
  have "view (snd (fold (reconcile_row S now actor) rows s)) = view (snd s)" for rows s
    by (rule keeps_fold) (simp add: reconcile_row_def reconcile_unknown_def Let_def case_prod_unfold split: option.split)
  moreover have "view (snd (fold (reconcile_stale S now actor answers) ps s)) = view (snd s)" for ps s
    by (rule keeps_fold) (simp add: reconcile_stale_def Let_def case_prod_unfold)
  moreover have "view (snd (fold (reconcile_uncredited now actor) ps s)) = view (snd s)" for ps s
    by (rule keeps_fold) (simp add: reconcile_uncredited_def Let_def case_prod_unfold)
  ultimately have "view (snd (reconcile_passes S now u0 u1 actor gl answers db)) = view db" for u0 u1
    unfolding reconcile_passes_def Let_def case_prod_unfold prod.collapse
    by (cases "ps_fake S"; cases "gl_complete gl") simp_all
  then show ?thesis by (simp add: reconcile_def Let_def case_prod_unfold)
qed

lemma keeps_expire [simp]: "view (snd (expire_abandoned S now answers db)) = view db"
proof -
  have "view (snd (fold (expire_one S now answers) ps s)) = view (snd s)" for ps and s :: "int \<times> pay_db"
    by (rule keeps_fold) (simp add: expire_one_def Let_def case_prod_unfold)
  moreover have "view (fold (expire_ticket S now answers) ts d) = view d" for ts d
    by (induction ts arbitrary: d) (simp_all add: expire_ticket_def Let_def)
  ultimately show ?thesis by (simp add: expire_abandoned_def Let_def case_prod_unfold)
qed

end

text \<open>A view that does not look at the notifications either.\<close>

locale unnotified_view = unpaid_view +
  assumes keeps_webhooks [simp]: "view (db\<lparr>pd_webhooks := ws\<rparr>) = view db"
begin

lemma keeps_webhook_row [simp]: "view (change_webhook h f db) = view db" "view (receive_webhook h e r db) = view db"
  by (simp_all add: change_webhook_def receive_webhook_def split: option.split)

lemma keeps_webhook [simp]: "view (snd (handle_webhook S now body signature db)) = view db"
proof -
  have "view (snd (process_webhook S now h e kvs r d)) = view d" for h e kvs r d
    by (auto simp: process_webhook_def Let_def split: option.split dest: keeps_dispatch)
  then show ?thesis by (auto simp: handle_webhook_def Let_def split: option.split)
qed

end

section \<open>The election and the log of notifications\<close>

definition rest_of_election :: "pay_db \<Rightarrow> election_db" where
  "rest_of_election db = (pd_election db)\<lparr>db_ledger := [], db_log := []\<rparr>"

interpretation election: unnotified_view rest_of_election
  by unfold_locales (simp_all add: rest_of_election_def change_ledger_def pay_audit_def log_note_def Let_def)

interpretation notices: unpaid_view pd_webhooks
  by unfold_locales simp_all

end
