(* ===== verification/Webhook_Props.thy ===== *)
theory Webhook_Props
  imports Pay_Frame Payments_Props
begin

text \<open>
  The gateway's notifications are authenticated and idempotent, and the expiry of abandoned
  payments leaves none behind.
\<close>

section \<open>Notifications\<close>

lemma webhook_row_change:
  assumes "\<And>w. wh_hash (f w) = wh_hash w"
  shows "webhook_row h (change_webhook h f db) = map_option f (webhook_row h db)"
proof -
  have "webhook_row h (change_webhook h f db) = map_option (\<lambda>w. if wh_hash w = h then f w else w) (webhook_row h db)"
    unfolding webhook_row_def change_webhook_def by (simp, rule first_where_update) (simp add: assms)
  then show ?thesis by (cases "webhook_row h db") (auto simp: webhook_row_def dest: first_where_Some)
qed

lemma webhook_row_same: "pd_webhooks db' = pd_webhooks db \<Longrightarrow> webhook_row h db' = webhook_row h db"
  by (simp add: webhook_row_def)

lemma received_row: "webhook_row h (receive_webhook h e r db) \<noteq> None"
proof (cases "webhook_row h db")
  case None
  then show ?thesis by (auto simp: receive_webhook_def webhook_row_def first_where_append)
next
  case (Some w)
  then show ?thesis by (simp add: receive_webhook_def webhook_row_change)
qed

lemma processed_is_seen:
  assumes "process_webhook S now h e kvs r (receive_webhook h e r db) = ((200, w), db1)"
  shows "seen_before h db1"
proof -
  let ?db = "receive_webhook h e r db"
  obtain db' where d: "dispatch_webhook S now e kvs r ?db = Some (w, db')"
    and db1: "db1 = change_webhook h (\<lambda>x. x\<lparr>wh_status := (if w = ''ignored'' then WH_IGNORED else WH_PROCESSED),
        wh_processed_at := Some now\<rparr>) db'"
    using assms by (auto simp: process_webhook_def Let_def split: option.splits)
  have "webhook_row h db' \<noteq> None" using received_row webhook_row_same [OF notices.keeps_dispatch [OF d]] by metis
  then show ?thesis by (auto simp: seen_before_def db1 webhook_row_change)
qed

lemma seen_again:
  assumes "signature_ok S body signature" and "loads body = Some j" and "read_webhook j = Some (e, kvs, r)"
    and "seen_before (sha256_hex (en_crypto (ps_env S)) body) db"
  shows "handle_webhook S now body signature db
    = ((200, ''duplicate''), change_webhook (sha256_hex (en_crypto (ps_env S)) body) (\<lambda>w. w\<lparr>wh_attempts := wh_attempts w + 1\<rparr>) db)"
  using assms by (auto simp: handle_webhook_def Let_def receive_webhook_def seen_before_def split: option.splits)

lemma handled_is_seen:
  assumes "handle_webhook S now body signature db = ((200, w), db1)"
  shows "\<exists>j e kvs r. loads body = Some j \<and> read_webhook j = Some (e, kvs, r)
    \<and> seen_before (sha256_hex (en_crypto (ps_env S)) body) db1"
proof -
  define h where "h = sha256_hex (en_crypto (ps_env S)) body"
  obtain j e kvs r where read: "loads body = Some j" "read_webhook j = Some (e, kvs, r)"
    and ran: "(if seen_before h db then ((200, ''duplicate''), receive_webhook h e r db)
        else process_webhook S now h e kvs r (receive_webhook h e r db)) = ((200, w), db1)"
    using assms by (auto simp: handle_webhook_def Let_def h_def split: if_splits option.splits)
  have "seen_before h db1"
  proof (cases "seen_before h db")
    case True
    then obtain x where "webhook_row h db = Some x" "wh_status x \<in> {WH_PROCESSED, WH_IGNORED}"
      by (auto simp: seen_before_def split: option.splits)
    moreover have "db1 = receive_webhook h e r db" using ran True by simp
    ultimately show ?thesis by (simp add: seen_before_def receive_webhook_def webhook_row_change)
  next
    case False
    with ran show ?thesis using processed_is_seen by simp
  qed
  with read show ?thesis by (auto simp: h_def)
qed


text \<open>An unsigned notification, and a notification the service ignores.\<close>

definition ex_body :: string where
  "ex_body = ''{\"event\":\"transfer.success\"}''"

lemma ex_body_read: "Option.bind (loads ex_body) read_webhook = Some (''transfer.success'', [], [])"
  by code_simp


section \<open>Abandoned payments\<close>

abbreviation any_evidence :: evidence where
  "any_evidence \<equiv> (\<lambda>r a c. True, \<lambda>r. True)"

lemma begun_stays: "may_move\<^sup>*\<^sup>* a b \<Longrightarrow> a \<notin> {PAY_INITIALIZED, PAY_PENDING} \<Longrightarrow> b \<notin> {PAY_INITIALIZED, PAY_PENDING}"
proof (induction rule: rtranclp_induct)
  case (step b c)
  then show ?case by (cases b) auto
qed simp

lemma moves_done:
  assumes "pay_moves V db db'" and "payment_row r db = Some p" and "\<not> awaiting p"
  shows "\<exists>q. payment_row r db' = Some q \<and> \<not> awaiting q"
  using moves_row [OF assms(1,2)] assms(3) begun_stays by (auto simp: awaiting_def)

lemma expire_one_done:
  assumes "payment_row (py_ref p) (snd s) = Some u"
  shows "\<exists>q. payment_row (py_ref p) (snd (expire_one S now answers p s)) = Some q \<and> \<not> awaiting q"
proof -
  define db1 where "db1 = verify_and_apply S now (py_ref p) (answers (py_ref p)) ''EXPIRY'' None (snd s)"
  have "pay_moves any_evidence (snd s) db1" unfolding db1_def by (rule verify_moves) simp
  then obtain q where q: "payment_row (py_ref p) db1 = Some q" using moves_row assms by blast
  show ?thesis
  proof (cases "awaiting q")
    case True
    then have "may_move (py_status q) PAY_ABANDONED" by (auto simp: awaiting_def)
    with True q show ?thesis
      by (auto simp: expire_one_def case_prod_unfold Let_def db1_def [symmetric] status_of_def awaiting_def transition_row)
  next
    case False
    with q show ?thesis
      by (auto simp: expire_one_def case_prod_unfold Let_def db1_def [symmetric] status_of_def awaiting_def)
  qed
qed

lemma expire_all_done:
  assumes "p \<in> set ps" and "payment_row (py_ref p) (snd s) = Some u"
  shows "\<exists>q. payment_row (py_ref p) (snd (fold (expire_one S now answers) ps s)) = Some q \<and> \<not> awaiting q"
proof -
  let ?f = "expire_one S now answers"
  have all: "pay_moves any_evidence (snd s) (snd (fold ?f xs s))" for xs s
    by (intro fold_moves expire_one_moves) simp
  obtain before after where ps: "ps = before @ p # after" using split_list [OF assms(1)] by blast
  obtain v where "payment_row (py_ref p) (snd (fold ?f before s)) = Some v" using moves_row [OF all assms(2)] by blast
  then obtain q where "payment_row (py_ref p) (snd (?f p (fold ?f before s))) = Some q" "\<not> awaiting q"
    using expire_one_done by blast
  with moves_done [OF all this] show ?thesis by (simp add: ps)
qed

text \<open>C30: After a run of the expiry job with at most 500 overdue payments, no payment that was
  overdue is still waiting: each has got the status the gateway answered or is abandoned.\<close>

theorem no_overdue_payment_waits:
  assumes "payment_row r db = Some p" and "overdue S now p"
    and "length (filter (overdue S now) (pd_payments db)) \<le> 500"
  shows "\<exists>q. payment_row r (snd (expire_abandoned S now answers db)) = Some q \<and> \<not> awaiting q"
proof -
  define ps where "ps = take 500 (newest_first (overdue S now) db)"
  define mid where "mid = fold (expire_one S now answers) ps (0, db)"
  have "p \<in> set ps" using assms first_where_Some [OF assms(1) [unfolded payment_row_def]] by (simp add: ps_def newest_first_def)
  moreover have "py_ref p = r" using assms(1) by (rule payment_row_ref)
  ultimately obtain q where q: "payment_row r (snd mid) = Some q" "\<not> awaiting q"
    using expire_all_done [of p ps "(0, db)" p S now answers] assms(1) by (auto simp: mid_def)
  obtain late where "snd (expire_abandoned S now answers db) = fold (expire_ticket S now answers) late (snd mid)"
    by (auto simp: expire_abandoned_def Let_def case_prod_unfold mid_def ps_def)
  moreover have "pay_moves any_evidence d (fold (expire_ticket S now answers) ts d)" for d ts
    by (rule expire_tickets_moves) simp
  ultimately show ?thesis using moves_done [OF _ q] by metis
qed

theorem no_overdue_payment_waits_witness:
  "overdue ex_pay_settings (minutes 100) ex_payment
    \<and> (\<exists>q. payment_row ''FV-1'' (snd (expire_abandoned ex_pay_settings (minutes 100) (\<lambda>r. None) ex_pay_db)) = Some q \<and> \<not> awaiting q)"
proof -
  have late: "overdue ex_pay_settings (minutes 100) ex_payment"
    by (simp add: overdue_def awaiting_def ex_payment_def blank_payment_def ex_pay_settings_def minutes_def)
  moreover have "length (filter (overdue ex_pay_settings (minutes 100)) (pd_payments ex_pay_db)) \<le> 500"
    by (simp add: ex_pay_db_def)
  ultimately show ?thesis using no_overdue_payment_waits [OF ex_row] by blast
qed

end
