(* ===== verification/Approvals_Props.thy ===== *)
theory Approvals_Props
  imports Pay_Frame
begin

text \<open>
  The rule of two persons: in an election that requires dual approval nothing of the election
  changes through the controls, refunds and payments unless somebody decided about another
  person's request.
\<close>

text \<open>The election without its ledger, its log, its approval requests and its queued tasks.\<close>

definition substance :: "pay_db \<Rightarrow> election_db" where
  "substance db = (rest_of_election db)\<lparr>db_requests := [], db_tasks := []\<rparr>"

interpretation control: unnotified_view substance
  by unfold_locales (simp_all add: substance_def)

lemma substance_election: "pd_election db' = pd_election db \<Longrightarrow> substance db' = substance db"
  by (simp add: substance_def rest_of_election_def)

lemma substance_requests [simp]:
  "substance (change_request i f db) = substance db"
  "substance (request_note ending q actor outcome reason db) = substance db"
  "substance (change_election (\<lambda>e. e\<lparr>db_requests := h e\<rparr>) db) = substance db"
  "substance (change_election (queue_task t) db) = substance db"
  "substance (db\<lparr>pd_blocks := bs\<rparr>) = substance db" "substance (db\<lparr>pd_refunds := rs\<rparr>) = substance db"
  by (simp_all add: substance_def rest_of_election_def change_request_def request_note_def queue_task_def log_note_def)

lemma substance_row: "db_election (substance db) = db_election (pd_election db)"
  by (simp add: substance_def rest_of_election_def)

lemma substance_event:
  assumes "substance db' = substance db"
  shows "pd_event db' = pd_event db"
proof -
  have "db_election (pd_election db') = db_election (pd_election db)" by (metis assms substance_row)
  then show ?thesis by simp
qed

lemma substance_dual: "substance db' = substance db \<Longrightarrow> ev_dual_approval (pd_event db') = ev_dual_approval (pd_event db)"
  by (drule substance_event) simp

section \<open>Asking changes nothing\<close>

lemma asking_keeps:
  assumes "ev_dual_approval (pd_event db)"
    and "request_approval S now x action payload reason requester db = Inr (i, db')"
  shows "substance db' = substance db"
  using assms by (auto simp: request_approval_def Let_def split: sum.splits if_splits)

lemma refund_keeps:
  assumes "ev_dual_approval (pd_event db)"
  shows "substance (snd (request_refund S now x r asked reason actor reverse db)) = substance db"
proof -
  have "substance (snd (pursue_refund S now x f p actor d)) = substance d" if "ev_dual_approval (pd_event d)" for f p d
  proof -
    have "substance (snd (case request_approval S now x a pl r actor d of
        Inl e \<Rightarrow> (Inl e, d) | Inr (_, d') \<Rightarrow> (Inr i, d'))) = substance d" for a pl r and i :: int
      using asking_keeps [OF that, of S now x a pl r actor] by (simp split: sum.split prod.split)
    moreover have "substance (snd (case approve_refund S now i actor True n d of
        Inl e \<Rightarrow> (Inl (Control_refund e), d) | Inr d' \<Rightarrow> (Inr i, d'))) = substance d" for i n
      by (simp add: control.keeps_approve split: sum.split)
    ultimately show ?thesis by (simp only: pursue_refund_def split: if_split) simp
  qed
  moreover have "ev_dual_approval (pd_event (pay_audit t a b (record_pay e (db\<lparr>pd_refunds := rs\<rparr>))))" for t a b e rs
    using assms by (simp add: pay_audit_def)
  ultimately show ?thesis
    unfolding request_refund_def Let_def by (auto split: option.split sum.split)
qed

lemma reject_keeps:
  assumes "ev_dual_approval (pd_event db)"
  shows "substance (snd (reject_held_payment S now x p analyst notes db)) = substance db"
proof -
  have "ev_dual_approval (pd_event (pay_audit t a b (record_pay e db)))" for t a b e
    using assms by (simp add: pay_audit_def)
  from refund_keeps [OF this] show ?thesis
    by (simp add: reject_held_payment_def Let_def case_prod_unfold split: sum.split)
qed

lemma block_substance: "block_subject S e p analyst db = Inr db' \<Longrightarrow> substance db' = substance db"
proof -
  have "substance d' = substance d" if "block_if S b kind v analyst raw org d = Inr d'" for b kind v raw org d d'
    using that by (auto simp: block_if_def add_block_def Let_def split: if_splits)
  moreover assume "block_subject S e p analyst db = Inr db'"
  ultimately show ?thesis unfolding block_subject_def Let_def by (auto split: sum.splits; metis)
qed

lemma settle_held_keeps:
  assumes "ev_dual_approval (pd_event db)" and "settle_held S now x p analyst dismiss notes db = Inr db'"
  shows "substance db' = substance db"
  using assms(2) reject_keeps [OF assms(1)]
  by (auto simp: settle_held_def case_prod_unfold split: option.splits if_splits sum.splits)

lemma review_keeps:
  assumes dual: "ev_dual_approval (pd_event db)" and ran: "review_alert S now x i analyst dismiss notes block db = Inr db'"
  shows "substance db' = substance db"
proof -
  obtain e p db1 db2 db3 n where h: "pd_election db1 = pd_election db"
      "settle_held S now x p analyst dismiss notes db1 = Inr db2"
      "(if \<not> dismiss \<and> block then block_subject S e p analyst db2 else Inr db2) = Inr db3"
      "db' = pay_audit ''FRAUD_ALERT_REVIEWED'' (Some analyst) n db3"
    using review_Inr [OF ran] by blast
  have "substance db2 = substance db1" using dual h(1) by (intro settle_held_keeps [OF _ h(2)]) simp
  moreover have "substance db3 = substance db2" using h(3) by (auto split: if_splits dest: block_substance)
  ultimately show ?thesis using h(4) substance_election [OF h(1)] by simp
qed

section \<open>Deciding needs another person\<close>

definition second_decision :: "int \<Rightarrow> pay_request \<Rightarrow> pay_db \<Rightarrow> bool" where
  "second_decision now x db \<longleftrightarrow>
     (case x of
        Decide i approver approve note input \<Rightarrow>
          approve \<and> has_perm (pd_tenancy db) (Some approver) ''approval.decide'' (Election (pd_event db)) = Inr True
          \<and> (case request_row i db of
               Some q \<Rightarrow> rq_status q = REQ_PENDING \<and> now < rq_expires q \<and> rq_requested_by q \<noteq> us_id approver
             | None \<Rightarrow> False)
      | _ \<Rightarrow> False)"

lemma deciding_keeps:
  "\<not> second_decision now (Decide i approver approve note x) db \<Longrightarrow>
    substance (snd (decide_request S now x i approver approve note db)) = substance db"
proof (cases "request_row i db")
  case (Some q)
  assume no: "\<not> second_decision now (Decide i approver approve note x) db"
  show ?thesis
  proof (cases "rq_status q = REQ_PENDING \<and> now < rq_expires q \<and> rq_requested_by q \<noteq> us_id approver
      \<and> check_perm (pd_tenancy db) (Some approver) ''approval.decide'' (Election (pd_event db)) = Inr ()")
    case True
    with no Some have "\<not> approve" by (auto simp: second_decision_def check_perm_def split: sum.splits if_splits)
    with Some True show ?thesis by (simp add: decide_request_def Let_def)
  next
    case False
    with Some show ?thesis by (auto simp: decide_request_def split: sum.split)
  qed
qed (simp add: decide_request_def)

lemma serve_substance:
  assumes dual: "ev_dual_approval (pd_event db)" and "\<not> second_decision (fst q) (snd q) db"
  shows "substance (serve S q db) = substance db"
proof -
  obtain now r where q: "q = (now, r)" by (cases q)
  show ?thesis
  proof (cases r)
    case (Review i analyst dismiss noted block x)
    then show ?thesis using review_keeps [OF dual]
      by (cases "review_alert S now x i analyst dismiss noted block db") (auto simp: q)
  next
    case (Approve_refund i approver answer)
    then show ?thesis
      by (cases "approve_refund S now i approver False answer db") (auto simp: q dest: control.keeps_approve)
  next
    case (Ask_approval action payload reason requester x)
    then show ?thesis using asking_keeps [OF dual]
      by (cases "request_approval S now x action payload reason requester db") (auto simp: q)
  next
    case (Decide i approver approve remark x)
    then show ?thesis using assms(2) by (simp add: q deciding_keeps)
  qed (simp_all add: q refund_keeps dual)
qed


section \<open>Witness\<close>

definition ex_hold_request :: approval_request where
  "ex_hold_request =
     \<lparr>rq_id = 1, rq_action = RELEASE_LEGAL_HOLD, rq_payload = No_payload, rq_reason = ''settled'', rq_status = REQ_PENDING,
      rq_requested_by = 2, rq_decided_by = None, rq_decided_at = None, rq_note = [], rq_executed_at = None, rq_expires = 50\<rparr>"

definition ex_held_db :: pay_db where
  "ex_held_db =
     \<lparr>pd_election = (update_event (\<lambda>ev. ev\<lparr>ev_dual_approval := True, ev_legal_hold := True\<rparr>) ex_db)\<lparr>db_requests := [ex_hold_request]\<rparr>,
      pd_billing = ex_billing, pd_payments = [], pd_history = [], pd_refunds = [], pd_webhooks = [],
      pd_discounts = [], pd_tickets = [], pd_alerts = [], pd_blocks = [], pd_counters = []\<rparr>"

definition ex_decision :: pay_request where
  "ex_decision = Decide 1 ex_operator True [] \<lparr>xi_choices = (\<lambda>i. []), xi_refund = None\<rparr>"

lemma released: "\<not> ev_legal_hold (pd_event (serve S (5, ex_decision) ex_held_db))"
proof -
  have "check_perm (pd_tenancy ex_held_db) (Some ex_operator) ''approval.decide'' x = Inr ()" for x
    by (simp add: ex_held_db_def ex_db_def operator_may permissions_def)
  moreover have "request_row 1 ex_held_db = Some ex_hold_request"
    by (simp add: request_row_def ex_held_db_def ex_hold_request_def first_where_def)
  ultimately show ?thesis
    by (simp add: ex_decision_def decide_request_def Let_def ex_hold_request_def ex_operator_def execute_def run_action_def
        on_election_def exec_release_hold_def request_note_def change_request_def)
qed


end
