(* ===== verification/Accounts.thy ===== *)
theory Accounts
  imports Request_Guards Fraud
begin

text \<open>
  core/auth.py, with the rows of core/models.py it keeps and the receivers of core/signals.py:
  the accounts of staff and organizers. Lockout after failed sign-ins, the two steps of a
  sign-in, known devices, authenticator codes, recovery codes, passkeys and API tokens.

  The browser's session is a \<open>web_session\<close>; Django's \<open>login\<close> gives it a new key, and empties it
  when somebody else was signed in. The password check of Django, the code an authenticator
  shows (\<open>pyotp\<close>), its validators and the verification of passkeys (\<open>webauthn\<close>) are parameters. The cache of used
  authenticator codes keeps an entry with the time it was added.
\<close>

section \<open>Rows\<close>

record login_user =
  lu_account :: account
  lu_email :: string
  lu_password :: string

record user_security =
  se_user :: int
  se_secret :: "string option"
  se_confirmed :: "int option"
  se_recovery :: "string list"
  se_failed :: int
  se_locked :: "int option"
  se_last_failed :: "int option"
  se_last_ip :: "string option"
  se_enforced :: bool

record passkey =
  wk_id :: int
  wk_user :: int
  wk_credential :: string
  wk_key :: string
  wk_count :: int
  wk_name :: string
  wk_used :: "int option"

record user_session =
  ut_id :: int
  ut_key :: string
  ut_user :: int
  ut_ip :: "string option"
  ut_agent :: string
  ut_seen :: int
  ut_ended :: "int option"
  ut_revoked :: bool

record known_device =
  kd_id :: int
  kd_user :: int
  kd_hash :: string
  kd_label :: string
  kd_ip :: "string option"
  kd_seen :: int

record api_token =
  tk_id :: int
  tk_user :: int
  tk_org :: "int option"
  tk_name :: string
  tk_prefix :: string
  tk_hash :: string
  tk_used :: "int option"
  tk_expires :: "int option"
  tk_revoked :: "int option"

datatype factor = Totp | Passkey | Recovery | Email_code

datatype reason = New_device | Failed_attempts | High_risk

record pending_login =
  pe_user :: int
  pe_at :: int
  pe_methods :: "factor list"
  pe_reasons :: "reason list"

record web_session =
  ws_key :: "string option"
  ws_user :: "int option"
  ws_pending :: "pending_login option"
  ws_stepup :: "string option"
  ws_totp :: "string option"
  ws_register :: "string option"
  ws_challenge :: "string option"

record account_db =
  ac_users :: "login_user list"
  ac_security :: "user_security list"
  ac_passkeys :: "passkey list"
  ac_sessions :: "user_session list"
  ac_devices :: "known_device list"
  ac_tokens :: "api_token list"
  ac_used :: "(int \<times> int \<times> int) list"
  ac_otp :: otp_db
  ac_notices :: "(int \<times> string) list"
  ac_log :: "audit_note list"

record login_env =
  le_crypto :: crypto
  le_config :: config
  le_pay :: pay_settings
  le_max_failures :: int
  le_lockout :: int
  le_enforce_mfa :: bool
  le_check :: "string \<Rightarrow> string \<Rightarrow> bool"
  le_make :: "string \<Rightarrow> string"
  le_email_ok :: "string \<Rightarrow> bool"
  le_strong :: "string \<Rightarrow> string \<Rightarrow> string \<Rightarrow> bool"
  le_totp :: "string \<Rightarrow> int \<Rightarrow> string"
  le_raw_id :: "string \<Rightarrow> string option"
  le_assert :: "string \<Rightarrow> string \<Rightarrow> string \<Rightarrow> int \<Rightarrow> int option"
  le_attest :: "string \<Rightarrow> string \<Rightarrow> (string \<times> string \<times> int) option"

definition blank_session :: web_session where
  "blank_session = \<lparr>ws_key = None, ws_user = None, ws_pending = None, ws_stepup = None, ws_totp = None, ws_register = None,
     ws_challenge = None\<rparr>"

definition user_named :: "string \<Rightarrow> account_db \<Rightarrow> login_user option" where
  "user_named name db = first_where (\<lambda>u. us_name (lu_account u) = name) (ac_users db)"

abbreviation lu_id :: "login_user \<Rightarrow> int" where
  "lu_id u \<equiv> us_id (lu_account u)"

definition user_named_like :: "string \<Rightarrow> account_db \<Rightarrow> bool" where
  "user_named_like name db \<longleftrightarrow> exists_where (\<lambda>u. lower (us_name (lu_account u)) = lower name) (ac_users db)"

definition user_with_email :: "string \<Rightarrow> account_db \<Rightarrow> login_user option" where
  "user_with_email email db =
     first_where (\<lambda>u. lower (lu_email u) = lower email \<and> us_active (lu_account u)) (ac_users db)"

definition user_with_id :: "int \<Rightarrow> account_db \<Rightarrow> login_user option" where
  "user_with_id i db = first_where (\<lambda>u. lu_id u = i \<and> us_active (lu_account u)) (ac_users db)"

definition security_row :: "int \<Rightarrow> account_db \<Rightarrow> user_security option" where
  "security_row i db = first_where (\<lambda>s. se_user s = i) (ac_security db)"

definition blank_security :: "int \<Rightarrow> user_security" where
  "blank_security i = \<lparr>se_user = i, se_secret = None, se_confirmed = None, se_recovery = [], se_failed = 0, se_locked = None,
     se_last_failed = None, se_last_ip = None, se_enforced = False\<rparr>"

definition security_for :: "int \<Rightarrow> account_db \<Rightarrow> user_security \<times> account_db" where
  "security_for i db =
     (case security_row i db of
        Some s \<Rightarrow> (s, db)
      | None \<Rightarrow> (blank_security i, db\<lparr>ac_security := ac_security db @ [blank_security i]\<rparr>))"

definition change_security :: "int \<Rightarrow> (user_security \<Rightarrow> user_security) \<Rightarrow> account_db \<Rightarrow> account_db" where
  "change_security i f db = (snd (security_for i db))
     \<lparr>ac_security := update_where (\<lambda>s. se_user s = i) f (ac_security (snd (security_for i db)))\<rparr>"

definition account_note :: "string \<Rightarrow> int \<Rightarrow> string \<Rightarrow> account_db \<Rightarrow> account_db" where
  "account_note t i outcome db =
     db\<lparr>ac_log := ac_log db @ [(plain_note t (Some i) None)\<lparr>an_target := Some (''auth.User'', str_int i), an_result := outcome\<rparr>]\<rparr>"

definition notify_user :: "login_user \<Rightarrow> string \<Rightarrow> account_db \<Rightarrow> account_db" where
  "notify_user u template db = db\<lparr>ac_notices := ac_notices db @ [(lu_id u, template)]\<rparr>"

section \<open>Lockout\<close>

definition locked_now :: "int \<Rightarrow> user_security \<Rightarrow> bool" where
  "locked_now now s \<longleftrightarrow> (case se_locked s of Some t \<Rightarrow> now < t | None \<Rightarrow> False)"

definition is_locked :: "int \<Rightarrow> string \<Rightarrow> account_db \<Rightarrow> bool" where
  "is_locked now name db \<longleftrightarrow>
     (case user_named name db of
        None \<Rightarrow> False
      | Some u \<Rightarrow> (case security_row (lu_id u) db of None \<Rightarrow> False | Some s \<Rightarrow> locked_now now s))"

definition lock_seconds :: "login_env \<Rightarrow> int \<Rightarrow> int" where
  "lock_seconds E failures = min (le_lockout E * 2 ^ nat (failures div le_max_failures E - 1)) (24 * 3600)"

definition register_failure :: "login_env \<Rightarrow> int \<Rightarrow> string \<Rightarrow> account_db \<Rightarrow> account_db" where
  "register_failure E now name db =
     (case user_named name db of
        None \<Rightarrow> db
      | Some u \<Rightarrow>
          let i = lu_id u; n = se_failed (fst (security_for i db)) + 1;
              counted = change_security i (\<lambda>s. s\<lparr>se_failed := n, se_last_failed := Some now\<rparr>) db
          in if n < le_max_failures E then counted
             else change_security i (\<lambda>s. s\<lparr>se_locked := Some (now + lock_seconds E n * 1000000)\<rparr>)
                    (notify_user u ''security_alert'' (account_note ''ACCOUNT_LOCKED'' i ''DENIED'' counted)))"

section \<open>The first step\<close>

definition totp_enabled :: "user_security \<Rightarrow> bool" where
  "totp_enabled s \<longleftrightarrow> se_secret s \<notin> {None, Some []} \<and> se_confirmed s \<noteq> None"

definition mfa_methods :: "int \<Rightarrow> account_db \<Rightarrow> factor list" where
  "mfa_methods i db =
     (let sec = security_row i db
      in (case sec of Some s \<Rightarrow> if totp_enabled s then [Totp] else [] | None \<Rightarrow> [])
         @ (if exists_where (\<lambda>k. wk_user k = i) (ac_passkeys db) then [Passkey] else [])
         @ (case sec of Some s \<Rightarrow> if se_recovery s \<noteq> [] then [Recovery] else [] | None \<Rightarrow> []))"

definition staff_attempt :: "request_info \<Rightarrow> string \<Rightarrow> attempt" where
  "staff_attempt ri email =
     \<lparr>at_kind = FRAUD_STAFF_LOGIN, at_request = Some ri, at_event = None, at_candidate = None, at_email = email, at_phone = [],
      at_device = [], at_ip = None, at_card = [], at_country = [], at_amount = None, at_votes = 0, at_payment = None,
      at_count = False\<rparr>"

definition suspicious_reasons :: "login_env \<Rightarrow> int \<Rightarrow> request_info \<Rightarrow> login_user \<Rightarrow> pay_db \<Rightarrow> account_db \<Rightarrow> reason list" where
  "suspicious_reasons E now ri u pay db =
     (let i = lu_id u; known = filter (\<lambda>d. kd_user d = i) (ac_devices db)
      in (if known \<noteq> [] \<and> \<not> exists_where (\<lambda>d. kd_hash d = ri_device ri) known then [New_device] else [])
         @ (case security_row i db of Some s \<Rightarrow> if 3 \<le> se_failed s then [Failed_attempts] else [] | None \<Rightarrow> [])
         @ (if ps_challenge_at (le_pay E) \<le> as_score (fst (assess (le_pay E) now (staff_attempt ri (lu_email u)) pay))
            then [High_risk] else []))"

definition remember_device :: "int \<Rightarrow> request_info \<Rightarrow> login_user \<Rightarrow> account_db \<Rightarrow> account_db" where
  "remember_device now ri u db =
     (let i = lu_id u; same = (\<lambda>d. kd_user d = i \<and> kd_hash d = ri_device ri)
      in if exists_where same (ac_devices db)
         then db\<lparr>ac_devices := update_where same (\<lambda>d. d\<lparr>kd_seen := now, kd_ip := ri_ip ri\<rparr>) (ac_devices db)\<rparr>
         else
           let db1 = db\<lparr>ac_devices := ac_devices db @ [\<lparr>kd_id = next_pk kd_id (ac_devices db), kd_user = i, kd_hash = ri_device ri,
                          kd_label = take 200 (ri_agent ri), kd_ip = ri_ip ri, kd_seen = now\<rparr>]\<rparr>
           in if exists_where (\<lambda>d. kd_user d = i) (ac_devices db)
              then account_note ''AUTH_NEW_DEVICE'' i ''SUCCESS'' (notify_user u ''security_alert'' db1)
              else db1)"

text \<open>The receiver of \<open>user_logged_in\<close>: the session is tracked and the failures are forgotten.\<close>

definition on_login :: "int \<Rightarrow> request_info \<Rightarrow> string \<Rightarrow> login_user \<Rightarrow> account_db \<Rightarrow> account_db" where
  "on_login now ri key u db =
     (let row = \<lparr>ut_id = next_pk ut_id (ac_sessions db), ut_key = key, ut_user = lu_id u, ut_ip = ri_ip ri, ut_agent = ri_agent ri, ut_seen = now, ut_ended = None,
                 ut_revoked = False\<rparr>;
          db1 = (if exists_where (\<lambda>t. ut_key t = key) (ac_sessions db)
                 then db\<lparr>ac_sessions := update_where (\<lambda>t. ut_key t = key)
                           (\<lambda>t. t\<lparr>ut_user := lu_id u, ut_ip := ri_ip ri, ut_agent := ri_agent ri\<rparr>) (ac_sessions db)\<rparr>
                 else db\<lparr>ac_sessions := ac_sessions db @ [row]\<rparr>)
      in account_note ''AUTH_LOGIN'' (lu_id u) ''SUCCESS''
           (change_security (lu_id u) (\<lambda>s. s\<lparr>se_failed := 0, se_locked := None, se_last_ip := ri_ip ri\<rparr>) db1))"

definition complete_login ::
  "int \<Rightarrow> request_info \<Rightarrow> string \<Rightarrow> login_user \<Rightarrow> web_session \<Rightarrow> account_db \<Rightarrow> web_session \<times> account_db" where
  "complete_login now ri key u s db =
     (let s1 = (if ws_user s \<notin> {None, Some (lu_id u)} then blank_session else s\<lparr>ws_pending := None, ws_stepup := None\<rparr>)
      in (s1\<lparr>ws_user := Some (lu_id u), ws_key := Some key\<rparr>,
          account_note ''AUTH_METHOD'' (lu_id u) ''SUCCESS'' (remember_device now ri u (on_login now ri key u db))))"

datatype outcome = Signed_in | Second_step

text \<open>The random values of a request: the new session key, the id of a challenge, the digits of its code.\<close>

record login_random =
  rn_key :: string
  rn_uuid :: string
  rn_digits :: "nat list"

definition await_factor :: "int \<Rightarrow> int \<Rightarrow> factor list \<Rightarrow> reason list \<Rightarrow> web_session \<Rightarrow> web_session" where
  "await_factor now i methods reasons s =
     s\<lparr>ws_pending := Some \<lparr>pe_user = i, pe_at = now div 1000000, pe_methods = methods, pe_reasons = reasons\<rparr>\<rparr>"

definition begin_login ::
  "login_env \<Rightarrow> int \<Rightarrow> request_info \<Rightarrow> login_random \<Rightarrow> pay_db \<Rightarrow> login_user \<Rightarrow> web_session \<Rightarrow> account_db
    \<Rightarrow> outcome \<times> web_session \<times> account_db" where
  "begin_login E now ri rn pay u s db =
     (let i = lu_id u; methods = mfa_methods i db; reasons = suspicious_reasons E now ri u pay db
      in if methods \<noteq> [] then (Second_step, await_factor now i methods reasons s, db)
         else if reasons = [] \<or> lu_email u = [] then (Signed_in, complete_login now ri (rn_key rn) u s db)
         else case issue_otp (le_crypto E) (le_config E) now (rn_digits rn) (rn_uuid rn) ''STAFF_STEPUP'' ''user'' (str_int i)
                     EMAIL (lu_email u) (ac_otp db) of
                (Inr (c, code), otp) \<Rightarrow>
                  (Second_step, await_factor now i [Email_code] reasons (s\<lparr>ws_stepup := Some (oc_id c)\<rparr>), db\<lparr>ac_otp := otp\<rparr>)
              | (Inl e, otp) \<Rightarrow> (Signed_in, complete_login now ri (rn_key rn) u s (db\<lparr>ac_otp := otp\<rparr>)))"

definition pending_ttl :: int where
  "pending_ttl = 300"

definition pending_user :: "int \<Rightarrow> web_session \<Rightarrow> account_db \<Rightarrow> (login_user \<times> pending_login) option" where
  "pending_user now s db =
     (case ws_pending s of
        None \<Rightarrow> None
      | Some p \<Rightarrow> if pending_ttl * 1000000 < now - pe_at p * 1000000 then None
                  else map_option (\<lambda>u. (u, p)) (user_with_id (pe_user p) db))"

section \<open>Authenticator codes and recovery codes\<close>

definition replay_window :: int where
  "replay_window = 120"

definition step_used :: "int \<Rightarrow> int \<Rightarrow> int \<Rightarrow> account_db \<Rightarrow> bool" where
  "step_used now i step db \<longleftrightarrow>
     exists_where (\<lambda>(j, k, added). j = i \<and> k = step \<and> now < added + replay_window * 1000000) (ac_used db)"

text \<open>The step of thirty seconds whose code was given, the previous one first.\<close>

definition totp_step :: "login_env \<Rightarrow> int \<Rightarrow> string \<Rightarrow> string \<Rightarrow> int option" where
  "totp_step E now secret code =
     first_where (\<lambda>k. le_totp E secret (k * 30) = code) (map (\<lambda>d. now div 1000000 div 30 + d) [-1, 0, 1])"

definition verify_totp :: "login_env \<Rightarrow> int \<Rightarrow> int \<Rightarrow> string option \<Rightarrow> string \<Rightarrow> account_db \<Rightarrow> bool \<times> account_db" where
  "verify_totp E now i given code db =
     (let (sec, db1) = security_for i db;
          secret = (case given of Some x \<Rightarrow> if x \<noteq> [] then x else (case se_secret sec of Some y \<Rightarrow> y | None \<Rightarrow> [])
                    | None \<Rightarrow> (case se_secret sec of Some y \<Rightarrow> y | None \<Rightarrow> []));
          typed = filter (\<lambda>c. c \<noteq> CHR '' '') (strip code)
      in if secret = [] \<or> typed = [] \<or> \<not> list_all is_digit typed then (False, db1)
         else case totp_step E now secret typed of
                None \<Rightarrow> (False, db1)
              | Some k \<Rightarrow> if step_used now i k db1 then (False, db1)
                          else (True, db1\<lparr>ac_used := ac_used db1 @ [(i, k, now)]\<rparr>))"

definition recovery_hash :: "login_env \<Rightarrow> string \<Rightarrow> string" where
  "recovery_hash E code = keyed_hash (le_crypto E) (le_config E) ''recovery'' code"

definition recovery_code :: "nat list \<times> nat list \<Rightarrow> string" where
  "recovery_code ab = access_code (fst ab) @ CHR ''-'' # access_code (snd ab)"

definition generate_recovery_codes ::
  "login_env \<Rightarrow> (nat list \<times> nat list) list \<Rightarrow> int \<Rightarrow> account_db \<Rightarrow> string list \<times> account_db" where
  "generate_recovery_codes E choices i db =
     (let codes = map recovery_code choices
      in (codes, account_note ''MFA_RECOVERY_CODES_GENERATED'' i ''SUCCESS''
                   (change_security i (\<lambda>s. s\<lparr>se_recovery := map (recovery_hash E) codes\<rparr>) db)))"

definition use_recovery_code :: "login_env \<Rightarrow> int \<Rightarrow> string \<Rightarrow> account_db \<Rightarrow> bool \<times> account_db" where
  "use_recovery_code E i code db =
     (let (sec, db1) = security_for i db; h = recovery_hash E (upper (strip code))
      in if h \<in> set (se_recovery sec)
         then (True, account_note ''MFA_RECOVERY_CODE_USED'' i ''SUCCESS''
                       (change_security i (\<lambda>s. s\<lparr>se_recovery := filter (\<lambda>c. c \<noteq> h) (se_recovery s)\<rparr>) db1))
         else (False, db1))"

section \<open>Passkeys\<close>

datatype passkey_error = Challenge_expired | Bad_answer | Unknown_passkey

text \<open>The challenge of the session is used up, whatever comes of it.\<close>

definition passkey_authenticate ::
  "login_env \<Rightarrow> int \<Rightarrow> int \<Rightarrow> string \<Rightarrow> web_session \<Rightarrow> account_db \<Rightarrow> (passkey_error + passkey) \<times> web_session \<times> account_db" where
  "passkey_authenticate E now i answer s db =
     (let s1 = s\<lparr>ws_challenge := None\<rparr> in
      case ws_challenge s of
        None \<Rightarrow> (Inl Challenge_expired, s1, db)
      | Some challenge \<Rightarrow>
          (case le_raw_id E answer of
             None \<Rightarrow> (Inl Bad_answer, s1, db)
           | Some raw \<Rightarrow>
               (case first_where (\<lambda>k. wk_user k = i \<and> wk_credential k = raw) (ac_passkeys db) of
                  None \<Rightarrow> (Inl Unknown_passkey, s1, db)
                | Some k \<Rightarrow>
                    (case le_assert E answer challenge (wk_key k) (wk_count k) of
                       None \<Rightarrow> (Inl Bad_answer, s1, db)
                     | Some n \<Rightarrow>
                         (Inr k, s1, db\<lparr>ac_passkeys := update_where (\<lambda>x. wk_id x = wk_id k)
                                          (\<lambda>x. x\<lparr>wk_count := n, wk_used := Some now\<rparr>) (ac_passkeys db)\<rparr>)))))"

definition passkey_register ::
  "login_env \<Rightarrow> int \<Rightarrow> string \<Rightarrow> string \<Rightarrow> web_session \<Rightarrow> account_db \<Rightarrow> (passkey_error + passkey) \<times> web_session \<times> account_db" where
  "passkey_register E i answer name s db =
     (let s1 = s\<lparr>ws_register := None\<rparr> in
      case ws_register s of
        None \<Rightarrow> (Inl Challenge_expired, s1, db)
      | Some challenge \<Rightarrow>
          (case le_attest E answer challenge of
             None \<Rightarrow> (Inl Bad_answer, s1, db)
           | Some (credential, key, n) \<Rightarrow>
               if exists_where (\<lambda>k. wk_credential k = credential) (ac_passkeys db) then (Inl Bad_answer, s1, db)
               else
                 let k = \<lparr>wk_id = next_pk wk_id (ac_passkeys db), wk_user = i, wk_credential = credential, wk_key = key,
                          wk_count = n, wk_name = take 80 (if name = [] then ''Passkey'' else name), wk_used = None\<rparr>
                 in (Inr k, s1, account_note ''MFA_PASSKEY_ADDED'' i ''SUCCESS''
                                  (db\<lparr>ac_passkeys := ac_passkeys db @ [k]\<rparr>))))"

section \<open>API tokens\<close>

definition create_api_token ::
  "login_env \<Rightarrow> int \<Rightarrow> string \<Rightarrow> int \<Rightarrow> string \<Rightarrow> int option \<Rightarrow> int \<Rightarrow> account_db \<Rightarrow> string \<times> account_db" where
  "create_api_token E now random i name org days db =
     (let raw = ''fv_'' @ random;
          t = \<lparr>tk_id = next_pk tk_id (ac_tokens db), tk_user = i, tk_org = org, tk_name = take 80 name, tk_prefix = take 10 raw,
               tk_hash = sha256_hex (le_crypto E) raw, tk_used = None,
               tk_expires = (if days = 0 then None else Some (now + days * 24 * 3600 * 1000000)), tk_revoked = None\<rparr>
      in (raw, db\<lparr>ac_tokens := ac_tokens db @ [t],
                  ac_log := ac_log db @ [(plain_note ''API_TOKEN_CREATED'' (Some i) None)
                    \<lparr>an_target := Some (''core.ApiToken'', str_int (tk_id t))\<rparr>]\<rparr>))"

definition token_valid :: "int \<Rightarrow> api_token \<Rightarrow> bool" where
  "token_valid now t \<longleftrightarrow> tk_revoked t = None \<and> (case tk_expires t of None \<Rightarrow> True | Some e \<Rightarrow> now < e)"

definition authenticate_api_token :: "login_env \<Rightarrow> int \<Rightarrow> string \<Rightarrow> account_db \<Rightarrow> api_token option \<times> account_db" where
  "authenticate_api_token E now raw db =
     (if \<not> starts_with ''fv_'' raw then (None, db)
      else case first_where (\<lambda>t. tk_hash t = sha256_hex (le_crypto E) raw) (ac_tokens db) of
             None \<Rightarrow> (None, db)
           | Some t \<Rightarrow>
               if \<not> token_valid now t \<or> user_with_id (tk_user t) db = None then (None, db)
               else (Some t, if (case tk_used t of None \<Rightarrow> True | Some was \<Rightarrow> 300 * 1000000 < now - was)
                             then db\<lparr>ac_tokens := update_where (\<lambda>x. tk_id x = tk_id t) (\<lambda>x. x\<lparr>tk_used := Some now\<rparr>) (ac_tokens db)\<rparr>
                             else db))"

definition revoke_api_token :: "int \<Rightarrow> int \<Rightarrow> int \<Rightarrow> account_db \<Rightarrow> account_db option" where
  "revoke_api_token now i token db =
     (case first_where (\<lambda>t. tk_id t = token \<and> tk_user t = i) (ac_tokens db) of
        None \<Rightarrow> None
      | Some t \<Rightarrow> Some (db\<lparr>ac_tokens := update_where (\<lambda>x. tk_id x = tk_id t) (\<lambda>x. x\<lparr>tk_revoked := Some now\<rparr>) (ac_tokens db),
                          ac_log := ac_log db @ [(plain_note ''API_TOKEN_REVOKED'' (Some i) None)
                            \<lparr>an_target := Some (''core.ApiToken'', str_int (tk_id t))\<rparr>]\<rparr>))"

end
