(* ===== verification/Web_Accounts.thy ===== *)
theory Web_Accounts
  imports Accounts
begin

text \<open>
  The pages of an account: \<open>login_view\<close>, \<open>register_view\<close> and \<open>logout_view\<close> of voting/views.py,
  core/views_account.py (second factor, single sign-on, security settings) and the session
  tracking of core/middleware.py that every request passes first.

  Several browsers share the tables. A request carries its kind of page and what the form
  says; the identity an SSO provider vouches for is part of the request. Revoking a session
  deletes its row of Django's session table, so the browser that had it finds itself signed out.
\<close>

record web =
  wb_browser :: "nat \<Rightarrow> web_session"
  wb_db :: account_db
  wb_pay :: pay_db

datatype web_request =
    Sign_in string string
  | Sign_in_sso string bool
  | Sign_up string string string
  | Sign_out
  | Give_factor string string
  | Ask_passkey string
  | Give_passkey string
  | Start_totp string
  | Confirm_totp string "(nat list \<times> nat list) list"
  | Stop_totp string
  | New_recovery_codes "(nat list \<times> nat list) list"
  | Delete_passkey int
  | Revoke_session int
  | Revoke_other_sessions
  | Forget_device int
  | Create_token string string
  | Revoke_token int
  | Ask_registration string
  | Add_passkey string string
  | Visit bool

datatype web_reply =
    Welcome | Ask_factor | Bad_credentials | Account_locked | Throttled | Login_expired | Factor_refused | Must_sign_in
  | Was_revoked | Must_enrol | Not_there | Refused_form | Page_shown

definition current_user :: "web_session \<Rightarrow> account_db \<Rightarrow> login_user option" where
  "current_user s db = (case ws_user s of None \<Rightarrow> None | Some i \<Rightarrow> user_with_id i db)"

definition strip_newlines :: "string \<Rightarrow> string" where
  "strip_newlines p =
     (let eol = (\<lambda>c. c = CHR 0x0A \<or> c = CHR 0x0D) in rev (dropWhile eol (rev (dropWhile eol p))))"

text \<open>Django's \<open>authenticate\<close> with its model backend.\<close>

definition authenticate :: "login_env \<Rightarrow> string \<Rightarrow> string \<Rightarrow> account_db \<Rightarrow> login_user option" where
  "authenticate E name password db =
     (case user_named name db of
        None \<Rightarrow> None
      | Some u \<Rightarrow> if le_check E password (lu_password u) \<and> us_active (lu_account u) then Some u else None)"

definition client :: "request_info \<Rightarrow> string" where
  "client ri = (case ri_ip ri of Some a \<Rightarrow> a | None \<Rightarrow> ''unknown'')"

definition count_hit :: "int \<Rightarrow> string \<Rightarrow> string \<Rightarrow> int \<Rightarrow> int \<Rightarrow> account_db \<Rightarrow> bool \<times> account_db" where
  "count_hit now scope ident limit window db =
     (let ((allowed, wait), cs) = hit now scope ident limit window (op_counters (ac_otp db))
      in (allowed, db\<lparr>ac_otp := (ac_otp db)\<lparr>op_counters := cs\<rparr>\<rparr>))"

section \<open>Signing in and out\<close>

definition first_step ::
  "login_env \<Rightarrow> int \<Rightarrow> request_info \<Rightarrow> login_random \<Rightarrow> pay_db \<Rightarrow> login_user \<Rightarrow> web_session \<Rightarrow> account_db
    \<Rightarrow> web_reply \<times> web_session \<times> account_db" where
  "first_step E now ri rn pay u s db =
     (case begin_login E now ri rn pay u s db of
        (Signed_in, s', db') \<Rightarrow> (Welcome, s', db')
      | (Second_step, s', db') \<Rightarrow> (Ask_factor, s', db'))"

definition failed_note :: "string \<Rightarrow> int option \<Rightarrow> account_db \<Rightarrow> account_db" where
  "failed_note t i db = db\<lparr>ac_log := ac_log db @ [(plain_note t i None)\<lparr>an_result := ''FAILURE''\<rparr>]\<rparr>"

definition login_view ::
  "login_env \<Rightarrow> int \<Rightarrow> request_info \<Rightarrow> login_random \<Rightarrow> pay_db \<Rightarrow> string \<Rightarrow> string \<Rightarrow> web_session \<Rightarrow> account_db
    \<Rightarrow> web_reply \<times> web_session \<times> account_db" where
  "login_view E now ri rn pay typed_name typed_password s db0 =
     (let (allowed, db) = count_hit now ''login'' (client ri) 10 60 db0;
          name = take 150 (strip typed_name); password = strip_newlines typed_password
      in if \<not> allowed then (Throttled, s, db)
         else if current_user s db \<noteq> None then (Page_shown, s, db)
         else if is_locked now name db then (Account_locked, s, db)
         else case authenticate E name password db of
                None \<Rightarrow> (Bad_credentials, s, register_failure E now name (failed_note ''AUTH_LOGIN_FAILED'' None db))
              | Some u \<Rightarrow> first_step E now ri rn pay u s db)"

definition sso_callback ::
  "login_env \<Rightarrow> int \<Rightarrow> request_info \<Rightarrow> login_random \<Rightarrow> pay_db \<Rightarrow> string \<Rightarrow> bool \<Rightarrow> web_session \<Rightarrow> account_db
    \<Rightarrow> web_reply \<times> web_session \<times> account_db" where
  "sso_callback E now ri rn pay claimed verified s db =
     (case (if strip claimed \<noteq> [] \<and> verified then user_with_email (strip claimed) db else None) of
        None \<Rightarrow> (Bad_credentials, s, failed_note ''SSO_NO_ACCOUNT'' None db)
      | Some u \<Rightarrow> first_step E now ri rn pay u s db)"

definition name_ok :: "string \<Rightarrow> bool" where
  "name_ok name \<longleftrightarrow>
     (let core = filter (\<lambda>c. c \<notin> set ''_.-'') name in core \<noteq> [] \<and> list_all ascii_alnum core)"

definition register_view ::
  "login_env \<Rightarrow> int \<Rightarrow> request_info \<Rightarrow> login_random \<Rightarrow> string \<Rightarrow> string \<Rightarrow> string \<Rightarrow> web_session \<Rightarrow> account_db
    \<Rightarrow> web_reply \<times> web_session \<times> account_db" where
  "register_view E now ri rn typed_name typed_email password s db0 =
     (let (allowed, db) = count_hit now ''register'' (client ri) 5 300 db0;
          name = take 150 (strip typed_name); email = strip typed_email
      in if \<not> allowed then (Throttled, s, db)
         else if \<not> ri_human ri \<or> \<not> name_ok name \<or> user_named_like name db \<or> \<not> le_email_ok E email \<or> password = []
                 \<or> \<not> le_strong E name email password
         then (Refused_form, s, db)
         else
           let i = next_pk lu_id (ac_users db);
               u = \<lparr>lu_account = \<lparr>us_id = i, us_name = name, us_authenticated = True, us_active = True, us_superuser = False,
                                   us_staff = False\<rparr>, lu_email = email, lu_password = le_make E password\<rparr>;
               db1 = account_note ''ORGANIZER_REGISTERED'' i ''SUCCESS'' (db\<lparr>ac_users := ac_users db @ [u]\<rparr>)
           in (Welcome, complete_login now ri (rn_key rn) u s db1))"

definition end_session :: "int \<Rightarrow> web_session \<Rightarrow> account_db \<Rightarrow> web_session \<times> account_db" where
  "end_session now s db =
     (let db1 = (case ws_key s of
                   None \<Rightarrow> db
                 | Some k \<Rightarrow> db\<lparr>ac_sessions := update_where (\<lambda>t. ut_key t = k) (\<lambda>t. t\<lparr>ut_ended := Some now\<rparr>) (ac_sessions db)\<rparr>)
      in (blank_session, case current_user s db of
                           None \<Rightarrow> db1
                         | Some u \<Rightarrow> account_note ''AUTH_LOGOUT'' (lu_id u) ''SUCCESS'' db1))"

section \<open>The second factor\<close>

definition check_factor ::
  "login_env \<Rightarrow> int \<Rightarrow> string \<Rightarrow> string \<Rightarrow> login_user \<Rightarrow> pending_login \<Rightarrow> web_session \<Rightarrow> account_db \<Rightarrow> bool \<times> account_db" where
  "check_factor E now how code u p s db =
     (let typed = strip code in
      if how = ''totp'' \<and> Totp \<in> set (pe_methods p) then verify_totp E now (lu_id u) None typed db
      else if how = ''recovery'' \<and> Recovery \<in> set (pe_methods p) then use_recovery_code E (lu_id u) typed db
      else if how = ''email'' \<and> Email_code \<in> set (pe_methods p) then
        (case ws_stepup s of
           None \<Rightarrow> (False, db)
         | Some challenge \<Rightarrow>
             (case verify_otp_code (le_crypto E) (le_config E) now challenge typed ''STAFF_STEPUP'' ''user'' (str_int (lu_id u))
                     (ac_otp db) of
                (Inr c, otp) \<Rightarrow> (True, db\<lparr>ac_otp := otp\<rparr>)
              | (Inl e, otp) \<Rightarrow> (False, db\<lparr>ac_otp := otp\<rparr>)))
      else (False, db))"

definition mfa_view ::
  "login_env \<Rightarrow> int \<Rightarrow> request_info \<Rightarrow> login_random \<Rightarrow> string \<Rightarrow> string \<Rightarrow> web_session \<Rightarrow> account_db
    \<Rightarrow> web_reply \<times> web_session \<times> account_db" where
  "mfa_view E now ri rn how code s db0 =
     (let (allowed, db) = count_hit now ''mfa'' (client ri) 10 60 db0
      in if \<not> allowed then (Throttled, s, db)
         else case pending_user now s db of
                None \<Rightarrow> (Login_expired, s, db)
              | Some (u, p) \<Rightarrow>
                  (case check_factor E now how code u p s db of
                     (True, db1) \<Rightarrow> (Welcome, complete_login now ri (rn_key rn) u s db1)
                   | (False, db1) \<Rightarrow>
                       (Factor_refused, s,
                        account_note ''AUTH_MFA_FAILED'' (lu_id u) ''FAILURE''
                          (register_failure E now (us_name (lu_account u)) db1))))"

definition passkey_options_view :: "int \<Rightarrow> string \<Rightarrow> web_session \<Rightarrow> account_db \<Rightarrow> web_reply \<times> web_session \<times> account_db" where
  "passkey_options_view now challenge s db =
     (case pending_user now s db of
        None \<Rightarrow> (Login_expired, s, db)
      | Some (u, p) \<Rightarrow> if Passkey \<in> set (pe_methods p) then (Page_shown, s\<lparr>ws_challenge := Some challenge\<rparr>, db)
                       else (Login_expired, s, db))"

definition passkey_view ::
  "login_env \<Rightarrow> int \<Rightarrow> request_info \<Rightarrow> login_random \<Rightarrow> string \<Rightarrow> web_session \<Rightarrow> account_db
    \<Rightarrow> web_reply \<times> web_session \<times> account_db" where
  "passkey_view E now ri rn answer s db =
     (case pending_user now s db of
        None \<Rightarrow> (Login_expired, s, db)
      | Some (u, p) \<Rightarrow>
          (case passkey_authenticate E now (lu_id u) answer s db of
             (Inr k, s1, db1) \<Rightarrow> (Welcome, complete_login now ri (rn_key rn) u s1 db1)
           | (Inl e, s1, db1) \<Rightarrow> (Factor_refused, s1, register_failure E now (us_name (lu_account u)) db1)))"

section \<open>Security settings\<close>

text \<open>The keys of the sessions that a revocation ends.\<close>

definition sessions_to_end :: "web_request \<Rightarrow> int \<Rightarrow> web_session \<Rightarrow> account_db \<Rightarrow> string list" where
  "sessions_to_end r i s db =
     map ut_key (filter (\<lambda>t. ut_user t = i \<and> ut_ended t = None \<and> \<not> ut_revoked t
       \<and> (case r of Revoke_session k \<Rightarrow> ut_id t = k | _ \<Rightarrow> Some (ut_key t) \<noteq> ws_key s)) (ac_sessions db))"

definition revoke_sessions :: "int \<Rightarrow> string list \<Rightarrow> int \<Rightarrow> account_db \<Rightarrow> account_db" where
  "revoke_sessions now keys i db =
     account_note ''AUTH_SESSIONS_REVOKED'' i ''SUCCESS''
       (db\<lparr>ac_sessions := update_where (\<lambda>t. ut_user t = i \<and> ut_ended t = None \<and> \<not> ut_revoked t \<and> ut_key t \<in> set keys)
             (\<lambda>t. t\<lparr>ut_revoked := True, ut_ended := Some now\<rparr>) (ac_sessions db)\<rparr>)"

fun security_action ::
  "login_env \<Rightarrow> int \<Rightarrow> web_request \<Rightarrow> login_user \<Rightarrow> web_session \<Rightarrow> account_db \<Rightarrow> web_reply \<times> web_session \<times> account_db" where
  "security_action E now (Start_totp secret) u s db = (Page_shown, s\<lparr>ws_totp := Some secret\<rparr>, db)"
| "security_action E now (Confirm_totp code choices) u s db =
     (case ws_totp s of
        None \<Rightarrow> (Factor_refused, s, db)
      | Some secret \<Rightarrow>
          if secret = [] then (Factor_refused, s, db)
          else (case verify_totp E now (lu_id u) (Some secret) code db of
                  (False, db1) \<Rightarrow> (Factor_refused, s, db1)
                | (True, db1) \<Rightarrow>
                    (Page_shown, s\<lparr>ws_totp := None\<rparr>,
                     account_note ''MFA_TOTP_ENABLED'' (lu_id u) ''SUCCESS''
                       (snd (generate_recovery_codes E choices (lu_id u)
                          (change_security (lu_id u) (\<lambda>x. x\<lparr>se_secret := Some secret, se_confirmed := Some now\<rparr>) db1))))))"
| "security_action E now (Stop_totp password) u s db =
     (if \<not> le_check E password (lu_password u) then (Bad_credentials, s, db)
      else (Page_shown, s, account_note ''MFA_TOTP_DISABLED'' (lu_id u) ''SUCCESS''
              (change_security (lu_id u) (\<lambda>x. x\<lparr>se_secret := None, se_confirmed := None\<rparr>) db)))"
| "security_action E now (New_recovery_codes choices) u s db =
     (Page_shown, s, snd (generate_recovery_codes E choices (lu_id u) db))"
| "security_action E now (Delete_passkey k) u s db =
     (if exists_where (\<lambda>x. wk_id x = k \<and> wk_user x = lu_id u) (ac_passkeys db)
      then (Page_shown, s, (account_note ''MFA_PASSKEY_REMOVED'' (lu_id u) ''SUCCESS'' db)
              \<lparr>ac_passkeys := filter (\<lambda>x. wk_id x \<noteq> k) (ac_passkeys db)\<rparr>)
      else (Not_there, s, db))"
| "security_action E now (Forget_device k) u s db =
     (Page_shown, s, db\<lparr>ac_devices := filter (\<lambda>d. \<not> (kd_user d = lu_id u \<and> kd_id d = k)) (ac_devices db)\<rparr>)"
| "security_action E now (Revoke_token k) u s db =
     (case revoke_api_token now (lu_id u) k db of None \<Rightarrow> (Not_there, s, db) | Some db1 \<Rightarrow> (Page_shown, s, db1))"
| "security_action E now (Ask_registration challenge) u s db = (Page_shown, s\<lparr>ws_register := Some challenge\<rparr>, db)"
| "security_action E now (Add_passkey answer name) u s db =
     (case passkey_register E (lu_id u) answer name s db of
        (Inr k, s1, db1) \<Rightarrow> (Page_shown, s1, db1)
      | (Inl e, s1, db1) \<Rightarrow> (Factor_refused, s1, db1))"
| "security_action E now r u s db = (Page_shown, s, db)"

text \<open>An API token belongs to the organization the user works in, whose plan must include the API.\<close>

definition token_view ::
  "login_env \<Rightarrow> int \<Rightarrow> string \<Rightarrow> string \<Rightarrow> login_user \<Rightarrow> pay_db \<Rightarrow> account_db \<Rightarrow> web_reply \<times> account_db \<times> pay_db" where
  "token_view E now random name u pay db =
     (case current_organization (pd_tenancy pay) (lu_account u) ''election.view'' None [] of
        Inl e \<Rightarrow> (Refused_form, db, pay)
      | Inr (org, ten) \<Rightarrow>
          (let pay1 = pay\<lparr>pd_election := (pd_election pay)\<lparr>db_tenancy := ten\<rparr>\<rparr> in
           if org \<noteq> None \<and> \<not> feature_enabled (ps_billing (le_pay E)) now org ''api'' (pd_billing pay) then (Refused_form, db, pay1)
           else (Page_shown, snd (create_api_token E now random (lu_id u) (take 80 (if name = [] then ''API token'' else name)) org 90 db),
                 pay1)))"

section \<open>The session middleware\<close>

definition touch_interval :: int where
  "touch_interval = 300"

definition mfa_required :: "login_env \<Rightarrow> pay_db \<Rightarrow> login_user \<Rightarrow> account_db \<Rightarrow> bool" where
  "mfa_required E pay u db \<longleftrightarrow>
     (let sec = security_row (lu_id u) db; forced = (case sec of Some x \<Rightarrow> se_enforced x | None \<Rightarrow> False)
      in (forced \<or> le_enforce_mfa E) \<and> (forced \<or> is_console_user (pd_tenancy pay) [pd_event pay] (lu_account u))
         \<and> \<not> (case sec of
                Some x \<Rightarrow> totp_enabled x \<or> exists_where (\<lambda>k. wk_user k = lu_id u) (ac_passkeys db)
              | None \<Rightarrow> False))"

definition mfa_exempt :: "web_request \<Rightarrow> bool" where
  "mfa_exempt r \<longleftrightarrow> (case r of Visit api \<Rightarrow> False | Sign_up _ _ _ \<Rightarrow> False | Sign_in_sso _ _ \<Rightarrow> False | _ \<Rightarrow> True)"

definition track_session :: "int \<Rightarrow> request_info \<Rightarrow> string \<Rightarrow> login_user \<Rightarrow> account_db \<Rightarrow> account_db" where
  "track_session now ri key u db =
     (case first_where (\<lambda>t. ut_key t = key) (ac_sessions db) of
        None \<Rightarrow> db\<lparr>ac_sessions := ac_sessions db @ [\<lparr>ut_id = next_pk ut_id (ac_sessions db), ut_key = key, ut_user = lu_id u,
                 ut_ip = ri_ip ri, ut_agent = ri_agent ri, ut_seen = now, ut_ended = None, ut_revoked = False\<rparr>]\<rparr>
      | Some t \<Rightarrow> if touch_interval * 1000000 < now - ut_seen t
                  then db\<lparr>ac_sessions := update_where (\<lambda>x. ut_id x = ut_id t) (\<lambda>x. x\<lparr>ut_seen := now, ut_ip := ri_ip ri\<rparr>) (ac_sessions db)\<rparr>
                  else db)"

definition was_revoked :: "string \<Rightarrow> account_db \<Rightarrow> bool" where
  "was_revoked key db \<longleftrightarrow>
     (case first_where (\<lambda>t. ut_key t = key) (ac_sessions db) of Some t \<Rightarrow> ut_revoked t | None \<Rightarrow> False)"

text \<open>Either the request is answered at once, or the tables it goes on with.\<close>

definition session_middleware ::
  "login_env \<Rightarrow> int \<Rightarrow> request_info \<Rightarrow> pay_db \<Rightarrow> web_request \<Rightarrow> web_session \<Rightarrow> account_db
    \<Rightarrow> web_reply option \<times> web_session \<times> account_db" where
  "session_middleware E now ri pay r s db =
     (case (current_user s db, ws_key s) of
        (Some u, Some key) \<Rightarrow>
          if was_revoked key db then (case end_session now s db of (s1, db1) \<Rightarrow> (Some Was_revoked, s1, db1))
          else let db1 = track_session now ri key u db
               in if mfa_required E pay u db1 \<and> \<not> mfa_exempt r then (Some Must_enrol, s, db1) else (None, s, db1)
      | _ \<Rightarrow> (None, s, db))"

section \<open>Serving a request\<close>

record web_call =
  wc_browser :: nat
  wc_now :: int
  wc_from :: request_info
  wc_random :: login_random
  wc_request :: web_request

definition put_browser :: "nat \<Rightarrow> web_reply \<times> web_session \<times> account_db \<Rightarrow> web \<Rightarrow> web_reply \<times> web" where
  "put_browser b answer w = (case answer of (reply, s, db) \<Rightarrow> (reply, w\<lparr>wb_browser := (wb_browser w)(b := s), wb_db := db\<rparr>))"

text \<open>Sessions whose row was deleted are empty at the next request.\<close>

definition drop_sessions :: "string list \<Rightarrow> web \<Rightarrow> web" where
  "drop_sessions keys w =
     w\<lparr>wb_browser := (\<lambda>b. if \<exists>k\<in>set keys. ws_key (wb_browser w b) = Some k then blank_session else wb_browser w b)\<rparr>"

definition revoke_view :: "int \<Rightarrow> web_request \<Rightarrow> login_user \<Rightarrow> nat \<Rightarrow> web \<Rightarrow> web_reply \<times> web" where
  "revoke_view now r u b w =
     (let s = wb_browser w b; keys = sessions_to_end r (lu_id u) s (wb_db w);
          w1 = drop_sessions keys (w\<lparr>wb_db := revoke_sessions now keys (lu_id u) (wb_db w)\<rparr>)
      in if ws_key s \<in> Some ` set keys
         then (case end_session now s (wb_db w1) of
                 (s1, db1) \<Rightarrow> (Was_revoked, w1\<lparr>wb_browser := (wb_browser w1)(b := s1), wb_db := db1\<rparr>))
         else (Page_shown, w1))"

definition serve_view :: "login_env \<Rightarrow> web_call \<Rightarrow> web \<Rightarrow> web_reply \<times> web" where
  "serve_view E c w =
     (let b = wc_browser c; now = wc_now c; ri = wc_from c; rn = wc_random c; s = wb_browser w b; db = wb_db w; pay = wb_pay w
      in case wc_request c of
           Sign_in name password \<Rightarrow> put_browser b (login_view E now ri rn pay name password s db) w
         | Sign_in_sso email verified \<Rightarrow> put_browser b (sso_callback E now ri rn pay email verified s db) w
         | Sign_up name email password \<Rightarrow> put_browser b (register_view E now ri rn name email password s db) w
         | Sign_out \<Rightarrow> put_browser b (Page_shown, end_session now s db) w
         | Give_factor how code \<Rightarrow> put_browser b (mfa_view E now ri rn how code s db) w
         | Ask_passkey challenge \<Rightarrow> put_browser b (passkey_options_view now challenge s db) w
         | Give_passkey answer \<Rightarrow> put_browser b (passkey_view E now ri rn answer s db) w
         | Visit api \<Rightarrow> (Page_shown, w)
         | r \<Rightarrow>
             (case current_user s db of
                None \<Rightarrow> (Must_sign_in, w)
              | Some u \<Rightarrow>
                  (case r of
                     Revoke_session k \<Rightarrow> revoke_view now r u b w
                   | Revoke_other_sessions \<Rightarrow> revoke_view now r u b w
                   | Create_token random name \<Rightarrow>
                       (case token_view E now random name u pay db of
                          (reply, db1, pay1) \<Rightarrow> (reply, w\<lparr>wb_db := db1, wb_pay := pay1\<rparr>))
                   | _ \<Rightarrow> put_browser b (security_action E now r u s db) w)))"

definition serve_web :: "login_env \<Rightarrow> web_call \<Rightarrow> web \<Rightarrow> web_reply \<times> web" where
  "serve_web E c w =
     (case session_middleware E (wc_now c) (wc_from c) (wb_pay w) (wc_request c) (wb_browser w (wc_browser c)) (wb_db w) of
        (Some reply, s, db) \<Rightarrow> put_browser (wc_browser c) (reply, s, db) w
      | (None, s, db) \<Rightarrow> serve_view E c (snd (put_browser (wc_browser c) (Page_shown, s, db) w)))"

fun web_run :: "login_env \<Rightarrow> web_call list \<Rightarrow> web \<Rightarrow> web" where
  "web_run E [] w = w"
| "web_run E (c # cs) w = web_run E cs (snd (serve_web E c w))"

end
