(* ===== verification/Guess_Props.thy ===== *)
theory Guess_Props
  imports Web_Accounts
begin

text \<open>
  How fast a password can be guessed at the sign-in page: the failures of an account are counted,
  and once there are too many the account is locked for a time that grows with them.
\<close>

text \<open>The failures counted for a user, and until when the account is locked.\<close>

definition lock_state :: "int \<Rightarrow> account_db \<Rightarrow> int \<times> int option" where
  "lock_state i db = (case security_row i db of None \<Rightarrow> (0, None) | Some s \<Rightarrow> (se_failed s, se_locked s))"

definition after_failure :: "login_env \<Rightarrow> int \<Rightarrow> int \<times> int option \<Rightarrow> int \<times> int option" where
  "after_failure E now st =
     (let n = fst st + 1 in (n, if n < le_max_failures E then snd st else Some (now + lock_seconds E n * 1000000)))"

section \<open>The security row of a user\<close>

lemma first_where_update_key:
  assumes "\<And>x. k (f x) = k x"
  shows "first_where (\<lambda>x. k x = i) (update_where (\<lambda>x. k x = j) f rows)
    = map_option (\<lambda>x. if i = j then f x else x) (first_where (\<lambda>x. k x = i) rows)"
  using assms by (induction rows) (auto simp: first_where_def)

lemma first_where_append_key:
  "first_where P (rows @ [r]) = (case first_where P rows of Some x \<Rightarrow> Some x | None \<Rightarrow> if P r then Some r else None)"
  by (induction rows) (auto simp: first_where_def)

lemma security_row_for: "security_row j (snd (security_for i db)) =
    (if j = i \<and> security_row i db = None then Some (blank_security i) else security_row j db)"
  by (auto simp: security_for_def security_row_def first_where_append_key blank_security_def split: option.split)

lemma security_row_change:
  assumes "\<And>s. se_user (f s) = se_user s"
  shows "security_row j (change_security i f db) =
    (if j = i then Some (f (case security_row i db of Some s \<Rightarrow> s | None \<Rightarrow> blank_security i)) else security_row j db)"
  using assms security_row_for [of j i db]
  by (auto simp: change_security_def security_row_def first_where_update_key option.map_ident split: option.splits)

lemma security_row_keeps [simp]:
  "security_row j (account_note t i r db) = security_row j db"
  "security_row j (failed_note t a db) = security_row j db"
  "security_row j (notify_user u m db) = security_row j db"
  "security_row j (remember_device now ri u db) = security_row j db"
  "security_row j (db\<lparr>ac_otp := otp\<rparr>) = security_row j db"
  "security_row j (snd (count_hit now scope ident limit window db)) = security_row j db"
  "security_row j (track_session now ri key u db) = security_row j db"
  "security_row j (snd (end_session now s db)) = security_row j db"
  by (simp_all add: security_row_def account_note_def failed_note_def notify_user_def remember_device_def Let_def count_hit_def
      track_session_def end_session_def case_prod_unfold split: option.split)

lemma lock_state_cong: "security_row i db' = security_row i db \<Longrightarrow> lock_state i db' = lock_state i db"
  by (simp add: lock_state_def)

lemma security_for_failed: "se_failed (fst (security_for i db)) = fst (lock_state i db)"
  by (simp add: security_for_def lock_state_def blank_security_def split: option.split)

lemma register_failure_state:
  assumes "user_named name db = Some v"
  shows "lock_state i (register_failure E now name db) =
    (if i = lu_id v then after_failure E now (lock_state i db) else lock_state i db)"
  using assms
  by (auto simp: register_failure_def Let_def lock_state_def security_row_change security_for_failed after_failure_def
      blank_security_def split: option.splits)

lemma complete_login_state:
  "i \<noteq> lu_id v \<Longrightarrow> lock_state i (snd (complete_login now ri key v s db)) = lock_state i db"
  by (rule lock_state_cong)
    (simp add: complete_login_def Let_def on_login_def security_row_change, simp add: security_row_def)

lemma lock_state_otp [simp]: "lock_state i (db\<lparr>ac_otp := otp\<rparr>) = lock_state i db"
  by (simp add: lock_state_def)

lemma first_step_state:
  assumes "i \<noteq> lu_id v"
  shows "lock_state i (snd (snd (first_step E now ri rn pay v s db))) = lock_state i db"
proof -
  have signed: "lock_state i d' = lock_state i d" if "complete_login now ri key v s d = (t, d')" for key d t d'
    using complete_login_state [OF assms, of now ri key s d] that by simp
  show ?thesis
    by (auto simp: first_step_def begin_login_def Let_def lock_state_otp complete_login_state [OF assms]
        split: sum.split prod.split dest: signed)
qed

section \<open>The sign-in page\<close>

definition tries_name :: "string \<Rightarrow> web_call \<Rightarrow> bool" where
  "tries_name name c \<longleftrightarrow> (case wc_request c of Sign_in n p \<Rightarrow> take 150 (strip n) = name | _ \<Rightarrow> False)"

text \<open>Only sign-ins, and none with the right password of \<open>u\<close>.\<close>

definition wrong_guess :: "login_env \<Rightarrow> login_user \<Rightarrow> web_call \<Rightarrow> bool" where
  "wrong_guess E u c \<longleftrightarrow>
     (case wc_request c of
        Sign_in n p \<Rightarrow> take 150 (strip n) = us_name (lu_account u) \<longrightarrow> \<not> le_check E (strip_newlines p) (lu_password u)
      | _ \<Rightarrow> False)"

definition has_account :: "login_user \<Rightarrow> account_db \<Rightarrow> bool" where
  "has_account u db \<longleftrightarrow> distinct (map lu_id (ac_users db)) \<and> user_named (us_name (lu_account u)) db = Some u"

lemma other_user:
  assumes "has_account u db" and "user_named n db = Some v" and "n \<noteq> us_name (lu_account u)"
  shows "lu_id v \<noteq> lu_id u"
proof
  assume "lu_id v = lu_id u"
  moreover have "v \<in> set (ac_users db)" "u \<in> set (ac_users db)" "us_name (lu_account v) = n"
    using assms(1,2) by (auto simp: has_account_def user_named_def first_where_def find_Some_iff)
  ultimately have "v = u" using assms(1) by (auto simp: has_account_def distinct_map inj_on_def)
  with \<open>us_name (lu_account v) = n\<close> assms(3) show False by simp
qed

lemma user_named_counted [simp]: "user_named n (snd (count_hit now scope ident limit window db)) = user_named n db"
  by (simp add: user_named_def count_hit_def case_prod_unfold Let_def)

lemma login_view_state:
  assumes u: "has_account u db" and "wrong_guess E u c" and c: "wc_request c = Sign_in name password"
    and view: "login_view E now ri rn pay name password s db = (r, s', db')"
  defines "counted \<equiv> r = Bad_credentials \<and> tries_name (us_name (lu_account u)) c"
  shows "lock_state (lu_id u) db' = (if counted then after_failure E now (lock_state (lu_id u) db) else lock_state (lu_id u) db)"
    and "counted \<Longrightarrow> (case snd (lock_state (lu_id u) db) of None \<Rightarrow> True | Some t \<Rightarrow> t \<le> now)"
proof -
  define d where "d = snd (count_hit now ''login'' (client ri) 10 60 db)"
  define n where "n = take 150 (strip name)"
  have d: "user_named m d = user_named m db" "lock_state i d = lock_state i db" for m i by (simp_all add: d_def lock_state_def)
  have ud: "has_account u d" using u by (simp add: has_account_def d) (simp add: d_def count_hit_def case_prod_unfold Let_def)
  have mine: "tries_name (us_name (lu_account u)) c \<longleftrightarrow> n = us_name (lu_account u)" using c by (simp add: tries_name_def n_def)
  consider (early) "r \<noteq> Bad_credentials" "db' = d"
    | (failed) "authenticate E n (strip_newlines password) d = None" "\<not> is_locked now n d" "r = Bad_credentials"
        "db' = register_failure E now n (failed_note ''AUTH_LOGIN_FAILED'' None d)"
    | (right) v where "authenticate E n (strip_newlines password) d = Some v" "first_step E now ri rn pay v s d = (r, s', db')"
    using view [unfolded login_view_def Let_def case_prod_unfold, folded d_def n_def]
    by (cases "is_locked now n d"; cases "authenticate E n (strip_newlines password) d") (auto split: if_splits)
  then have "lock_state (lu_id u) db' = (if counted then after_failure E now (lock_state (lu_id u) db) else lock_state (lu_id u) db)
      \<and> (counted \<longrightarrow> (case snd (lock_state (lu_id u) db) of None \<Rightarrow> True | Some t \<Rightarrow> t \<le> now))"
  proof cases
    case early
    then show ?thesis by (simp add: counted_def d)
  next
    case failed
    have note_state: "lock_state i (failed_note t a d) = lock_state i d" "user_named m (failed_note t a d) = user_named m d" for i t a m
      by (simp_all add: lock_state_def failed_note_def security_row_def user_named_def)
    show ?thesis
    proof (cases "user_named n d")
      case None
      then have "n \<noteq> us_name (lu_account u)" using ud by (auto simp: has_account_def)
      with failed None show ?thesis by (simp add: counted_def mine register_failure_def note_state d)
    next
      case (Some v)
      have "counted \<longleftrightarrow> lu_id u = lu_id v"
      proof (cases "n = us_name (lu_account u)")
        case True
        then have "lu_id u = lu_id v" using ud Some by (simp add: has_account_def)
        then show ?thesis using True failed(3) by (simp add: counted_def mine)
      qed (use other_user [OF ud Some] failed(3) in \<open>auto simp: counted_def mine\<close>)
      moreover have "case snd (lock_state (lu_id v) d) of None \<Rightarrow> True | Some t \<Rightarrow> t \<le> now"
        using failed(2) Some by (auto simp: is_locked_def lock_state_def locked_now_def split: option.splits)
      ultimately show ?thesis
        using register_failure_state [of n "failed_note ''AUTH_LOGIN_FAILED'' None d" v "lu_id u" E now] Some
        by (auto simp: failed(4) note_state d)
    qed
  next
    case (right v)
    then have v: "user_named n d = Some v" "le_check E (strip_newlines password) (lu_password v)"
      by (auto simp: authenticate_def split: option.splits if_splits)
    have "n \<noteq> us_name (lu_account u)"
    proof
      assume "n = us_name (lu_account u)"
      with v(1) ud have "v = u" by (simp add: has_account_def)
      with v(2) assms(2) c \<open>n = us_name (lu_account u)\<close> show False by (simp add: wrong_guess_def n_def)
    qed
    with other_user [OF ud v(1)] first_step_state [of "lu_id u" v E now ri rn pay s d] right(2) show ?thesis
      by (simp add: counted_def mine d)
  qed
  then show "lock_state (lu_id u) db' = (if counted then after_failure E now (lock_state (lu_id u) db) else lock_state (lu_id u) db)"
    and "counted \<Longrightarrow> (case snd (lock_state (lu_id u) db) of None \<Rightarrow> True | Some t \<Rightarrow> t \<le> now)" by blast+
qed

lemma login_view_users: "ac_users (snd (snd (login_view E now ri rn pay name pw s db))) = ac_users db"
proof -
  have keep: "ac_users (remember_device now ri u d) = ac_users d" "ac_users (on_login now ri key u d) = ac_users d"
    "ac_users (register_failure E now n d) = ac_users d" for now ri u key d n
    by (simp_all add: remember_device_def on_login_def register_failure_def account_note_def notify_user_def change_security_def
        security_for_def Let_def split: option.split)
  have "ac_users d' = ac_users d" if "complete_login now ri key u s d = (t, d')" for key u d t d'
    using that by (auto simp: complete_login_def Let_def account_note_def keep)
  then show ?thesis
    by (auto simp: login_view_def first_step_def begin_login_def count_hit_def case_prod_unfold Let_def keep failed_note_def
        split: option.split sum.split outcome.split dest!: surjective_pairing [THEN sym, THEN trans])
      (auto simp: complete_login_def Let_def account_note_def keep)
qed

section \<open>A run of guesses\<close>

fun guesses :: "login_env \<Rightarrow> string \<Rightarrow> web_call list \<Rightarrow> web \<Rightarrow> nat" where
  "guesses E name [] w = 0"
| "guesses E name (c # cs) w =
     (case serve_web E c w of
        (r, w') \<Rightarrow> (if r = Bad_credentials \<and> tries_name name c then 1 else 0) + guesses E name cs w')"

lemma serve_web_state:
  assumes u: "has_account u (wb_db w)" and wrong: "wrong_guess E u c" and serve: "serve_web E c w = (r, w')"
  defines "counted \<equiv> r = Bad_credentials \<and> tries_name (us_name (lu_account u)) c"
  shows "has_account u (wb_db w')"
    and "lock_state (lu_id u) (wb_db w') =
      (if counted then after_failure E (wc_now c) (lock_state (lu_id u) (wb_db w)) else lock_state (lu_id u) (wb_db w))"
    and "counted \<Longrightarrow> (case snd (lock_state (lu_id u) (wb_db w)) of None \<Rightarrow> True | Some t \<Rightarrow> t \<le> wc_now c)"
proof -
  obtain name password where c: "wc_request c = Sign_in name password"
    using wrong by (auto simp: wrong_guess_def split: web_request.splits)
  obtain a s d where m: "session_middleware E (wc_now c) (wc_from c) (wb_pay w) (wc_request c) (wb_browser w (wc_browser c)) (wb_db w)
      = (a, s, d)" by (metis prod_cases3)
  have ended: "ac_users d' = ac_users db" "security_row i d' = security_row i db" if "end_session now s db = (x, d')" for now s db x d' i
    using that security_row_keeps(8) [of i now s db] by (auto simp: end_session_def Let_def account_note_def split: option.splits)
  have tracked: "ac_users (track_session now ri key v db) = ac_users db" for now ri key v db
    by (simp add: track_session_def split: option.split)
  have "ac_users d = ac_users (wb_db w)" "security_row i d = security_row i (wb_db w)" "a = None \<or> a = Some Was_revoked \<or> a = Some Must_enrol" for i
    using m by (auto simp: session_middleware_def Let_def tracked split: option.splits if_splits prod.splits dest: ended)
  then have d: "has_account u d" "lock_state (lu_id u) d = lock_state (lu_id u) (wb_db w)"
    and a: "a = None \<or> a = Some Was_revoked \<or> a = Some Must_enrol"
    using u by (simp_all add: has_account_def user_named_def lock_state_def)
  have "has_account u (wb_db w') \<and> lock_state (lu_id u) (wb_db w') =
      (if counted then after_failure E (wc_now c) (lock_state (lu_id u) (wb_db w)) else lock_state (lu_id u) (wb_db w))
      \<and> (counted \<longrightarrow> (case snd (lock_state (lu_id u) (wb_db w)) of None \<Rightarrow> True | Some t \<Rightarrow> t \<le> wc_now c))"
  proof (cases a)
    case (Some reply)
    then have "r = reply" "wb_db w' = d" using serve m by (auto simp: serve_web_def put_browser_def)
    with a d Some show ?thesis by (auto simp: counted_def)
  next
    case None
    obtain s' d' where view: "login_view E (wc_now c) (wc_from c) (wc_random c) (wb_pay w) name password s d = (r, s', d')" "wb_db w' = d'"
      using serve m None c by (auto simp: serve_web_def serve_view_def put_browser_def Let_def split: prod.splits)
    have "ac_users d' = ac_users d"
      using login_view_users [of E "wc_now c" "wc_from c" "wc_random c" "wb_pay w" name password s d] view by simp
    then have "has_account u d'" using d(1) by (simp add: has_account_def user_named_def)
    with login_view_state [OF d(1) wrong c view(1)] view(2) show ?thesis by (auto simp: counted_def d(2))
  qed
  then show "has_account u (wb_db w')"
    and "lock_state (lu_id u) (wb_db w') =
      (if counted then after_failure E (wc_now c) (lock_state (lu_id u) (wb_db w)) else lock_state (lu_id u) (wb_db w))"
    and "counted \<Longrightarrow> (case snd (lock_state (lu_id u) (wb_db w)) of None \<Rightarrow> True | Some t \<Rightarrow> t \<le> wc_now c)" by blast+
qed

text \<open>The guesses left until \<open>T\<close>: what is missing to the limit, and one for every lockout.\<close>

definition free_from :: "login_env \<Rightarrow> int \<Rightarrow> int \<times> int option \<Rightarrow> int" where
  "free_from E now st =
     (if le_max_failures E \<le> fst st then (case snd st of Some t \<Rightarrow> max now t | None \<Rightarrow> now) else now)"

definition guesses_left :: "login_env \<Rightarrow> int \<Rightarrow> int \<Rightarrow> int \<times> int option \<Rightarrow> int" where
  "guesses_left E T now st =
     max 0 ((if fst st < le_max_failures E then le_max_failures E - fst st else 1)
            + (T - free_from E now st) div (le_lockout E * 1000000))"

lemma free_from_later: "now \<le> now' \<Longrightarrow> free_from E now st \<le> free_from E now' st"
  by (auto simp: free_from_def split: option.split)

lemma free_from_open: "case snd st of None \<Rightarrow> True | Some t \<Rightarrow> t \<le> now \<Longrightarrow> x \<le> now \<Longrightarrow> free_from E x st \<le> now"
  by (auto simp: free_from_def split: option.splits)

lemma lock_seconds_least: "0 < le_lockout E \<Longrightarrow> le_lockout E \<le> 24 * 3600 \<Longrightarrow> le_lockout E \<le> lock_seconds E n"
  using mult_left_mono [of 1 "2 ^ nat (n div le_max_failures E - 1)" "le_lockout E"] by (simp add: lock_seconds_def)

lemma guess_uses_one:
  assumes L: "0 < le_lockout E" "le_lockout E \<le> 24 * 3600" and "now \<le> T" and "from_then \<le> now"
    and free: "case snd st of None \<Rightarrow> True | Some t \<Rightarrow> t \<le> now"
  shows "1 + guesses_left E T now (after_failure E now st) \<le> guesses_left E T from_then st"
proof -
  define Q where "Q = le_lockout E * 1000000"
  have Q: "0 < Q" using L by (simp add: Q_def)
  define n where "n = fst st + 1"
  have later: "(T - now) div Q \<le> (T - x) div Q" if "x \<le> now" for x
    using that Q by (intro zdiv_mono1) auto
  have opened: "free_from E from_then st \<le> now" using free_from_open [OF free assms(4)] .
  have zero: "0 \<le> (T - now) div Q" using assms(3) Q by (simp add: pos_imp_zdiv_nonneg_iff)
  show ?thesis
  proof (cases "n < le_max_failures E")
    case True
    then have "guesses_left E T now (after_failure E now st) = le_max_failures E - n + (T - now) div Q"
      using zero by (simp add: guesses_left_def free_from_def after_failure_def Let_def n_def [symmetric] Q_def [symmetric])
    moreover have "le_max_failures E - fst st + (T - now) div Q \<le> guesses_left E T from_then st"
      using later [OF opened] True by (simp add: guesses_left_def n_def Q_def [symmetric])
    ultimately show ?thesis by (simp add: n_def)
  next
    case False
    define t where "t = now + lock_seconds E n * 1000000"
    have "(T - t) div Q \<le> (T - now - Q) div Q"
      using lock_seconds_least [OF L, of n] Q by (intro zdiv_mono1) (auto simp: t_def Q_def)
    also have "\<dots> = (T - now) div Q - 1" using Q div_add_self2 [of Q "T - now - Q"] by simp
    finally have after: "1 + (T - t) div Q \<le> (T - now) div Q" by simp
    have "now \<le> t" using lock_seconds_least [OF L, of n] L by (simp add: t_def)
    then have left: "guesses_left E T now (after_failure E now st) = max 0 (1 + (T - t) div Q)"
      using False by (simp add: guesses_left_def free_from_def after_failure_def Let_def n_def [symmetric] Q_def [symmetric] t_def [symmetric])
    have "1 + (T - now) div Q \<le> guesses_left E T from_then st"
      using later [OF opened] False by (auto simp: guesses_left_def n_def Q_def [symmetric] le_max_iff_disj)
    with after zero left show ?thesis by linarith
  qed
qed

lemma guesses_left_later:
  assumes "0 < le_lockout E" and "now \<le> now'"
  shows "guesses_left E T now' st \<le> guesses_left E T now st"
proof -
  have "(T - free_from E now' st) div (le_lockout E * 1000000) \<le> (T - free_from E now st) div (le_lockout E * 1000000)"
    using free_from_later [OF assms(2), of E st] assms(1) by (intro zdiv_mono1) auto
  then show ?thesis by (simp add: guesses_left_def max.coboundedI2)
qed

lemma guesses_bounded:
  assumes L: "0 < le_lockout E" "le_lockout E \<le> 24 * 3600"
  shows "has_account u (wb_db w) \<Longrightarrow> \<forall>c\<in>set cs. wrong_guess E u c \<Longrightarrow> sorted (now # map wc_now cs @ [T]) \<Longrightarrow>
    int (guesses E (us_name (lu_account u)) cs w) \<le> guesses_left E T now (lock_state (lu_id u) (wb_db w))"
proof (induction cs arbitrary: w now)
  case Nil
  then show ?case by (simp add: guesses_left_def)
next
  case (Cons c cs)
  obtain r w' where serve: "serve_web E c w = (r, w')" by (cases "serve_web E c w")
  note step = serve_web_state [OF Cons.prems(1) _ serve]
  have le: "now \<le> wc_now c" "wc_now c \<le> T" using Cons.prems(3) by auto
  have "int (guesses E (us_name (lu_account u)) cs w') \<le> guesses_left E T (wc_now c) (lock_state (lu_id u) (wb_db w'))"
    using Cons.prems step(1) by (intro Cons.IH) auto
  then show ?case
    using step(2,3) Cons.prems(2) guess_uses_one [OF L le(2,1), of "lock_state (lu_id u) (wb_db w)"]
      guesses_left_later [OF L(1) le(1), of T "lock_state (lu_id u) (wb_db w)"]
    by (cases "r = Bad_credentials \<and> tries_name (us_name (lu_account u)) c") (auto simp: serve)
qed

text \<open>
  C34: Passwords are guessed slowly. In a sequence of sign-ins in order of time, from any
  browsers and for any names, that never gives the right password of an account, the number of
  its passwords tried between the times \<open>from\<close> and \<open>until\<close> is at most the allowed number of failures
  plus one for each lockout period that fits in between, however the attempts are spread: every
  later failure locks the account again, for at least that period. The lockout period is positive
  and at most the cap of a day.
\<close>

theorem passwords_guessed_slowly:
  assumes "has_account u (wb_db w)" and "\<forall>c\<in>set cs. wrong_guess E u c" and "sorted (start # map wc_now cs @ [until])"
    and "0 \<le> fst (lock_state (lu_id u) (wb_db w))" and "0 < le_max_failures E"
    and "0 < le_lockout E" and "le_lockout E \<le> 24 * 3600"
  shows "int (guesses E (us_name (lu_account u)) cs w) \<le> le_max_failures E + (until - start) div (le_lockout E * 1000000)"
proof -
  define Q where "Q = le_lockout E * 1000000"
  have Q: "0 < Q" using assms(6) by (simp add: Q_def)
  have "start \<le> until" using assms(3) by auto
  then have zero: "0 \<le> (until - start) div Q" using Q by (simp add: pos_imp_zdiv_nonneg_iff)
  have "start \<le> free_from E start st" for st by (auto simp: free_from_def split: option.split)
  then have "(until - free_from E start st) div Q \<le> (until - start) div Q" for st using Q by (intro zdiv_mono1) auto
  from this [of "lock_state (lu_id u) (wb_db w)"] zero
  have "guesses_left E until start (lock_state (lu_id u) (wb_db w)) \<le> le_max_failures E + (until - start) div Q"
    using assms(4,5) by (auto simp: guesses_left_def Q_def [symmetric])
  with guesses_bounded [OF assms(6,7,1-3)] show ?thesis by (simp add: Q_def)
qed

section \<open>An example\<close>

definition ex_login_env :: "pay_settings \<Rightarrow> login_env" where
  "ex_login_env S =
     \<lparr>le_crypto = ex_crypto, le_config = ex_config, le_pay = S, le_max_failures = 5, le_lockout = 900, le_enforce_mfa = False,
      le_check = (\<lambda>p h. p = h), le_make = (\<lambda>p. p), le_email_ok = (\<lambda>e. True), le_strong = (\<lambda>n e p. True),
      le_totp = (\<lambda>secret t. str_int (t div 30)), le_raw_id = (\<lambda>a. None), le_assert = (\<lambda>a ch k n. None), le_attest = (\<lambda>a ch. None)\<rparr>"

definition ex_login_user :: login_user where
  "ex_login_user = \<lparr>lu_account = \<lparr>us_id = 7, us_name = ''ama'', us_authenticated = True, us_active = True, us_superuser = False,
     us_staff = False\<rparr>, lu_email = ''a@b.c'', lu_password = ''kente''\<rparr>"

definition ex_account_db :: account_db where
  "ex_account_db =
     \<lparr>ac_users = [ex_login_user], ac_security = [(blank_security 7)\<lparr>se_secret := Some ''s'', se_confirmed := Some 1\<rparr>],
      ac_passkeys = [], ac_sessions = [], ac_devices = [], ac_tokens = [], ac_used = [],
      ac_otp = \<lparr>op_challenges = [], op_counters = []\<rparr>, ac_notices = [], ac_log = []\<rparr>"

definition ex_web :: "pay_db \<Rightarrow> web" where
  "ex_web pay = \<lparr>wb_browser = (\<lambda>b. blank_session), wb_db = ex_account_db, wb_pay = pay\<rparr>"

definition ex_call :: "int \<Rightarrow> web_request \<Rightarrow> web_call" where
  "ex_call now r = \<lparr>wc_browser = 0, wc_now = now, wc_from = \<lparr>ri_ip = Some ''10.0.0.1'', ri_device = ''d'', ri_agent = [],
     ri_relayed = False, ri_human = True\<rparr>, wc_random = \<lparr>rn_key = ''k'', rn_uuid = ''u'', rn_digits = []\<rparr>, wc_request = r\<rparr>"

lemma take_ex_name: "take 150 (strip ''ama'') = ''ama''" by code_simp

theorem passwords_guessed_slowly_witness:
  "\<forall>S pay. int (guesses (ex_login_env S) ''ama'' [ex_call 90000000 (Sign_in ''ama'' ''x''), ex_call 100000000 (Sign_in ''ama'' ''y'')]
      (ex_web pay)) \<le> 5"
proof (intro allI)
  fix S pay
  have strips: "strip_newlines ''x'' = ''x''" "strip_newlines ''y'' = ''y''" by code_simp+
  have start: "has_account ex_login_user (wb_db (ex_web pay))"
    by (simp add: ex_web_def ex_account_db_def has_account_def ex_login_user_def user_named_def first_where_def)
  have wrong: "\<forall>c\<in>set [ex_call 90000000 (Sign_in ''ama'' ''x''), ex_call 100000000 (Sign_in ''ama'' ''y'')]. wrong_guess (ex_login_env S) ex_login_user c"
    by (simp add: ex_call_def wrong_guess_def strips ex_login_env_def ex_login_user_def)
  have state: "lock_state (lu_id ex_login_user) (wb_db (ex_web pay)) = (0, None)"
    by (simp add: ex_web_def ex_account_db_def ex_login_user_def lock_state_def security_row_def first_where_def blank_security_def)
  show "int (guesses (ex_login_env S) ''ama'' [ex_call 90000000 (Sign_in ''ama'' ''x''), ex_call 100000000 (Sign_in ''ama'' ''y'')] (ex_web pay)) \<le> 5"
    using passwords_guessed_slowly [OF start wrong, of 0 800000000] state
    by (simp add: ex_call_def ex_login_env_def ex_login_user_def)
qed

end
