(* ===== verification/Sign_In_Props.thy ===== *)
theory Sign_In_Props
  imports Guess_Props
begin

text \<open>
  What the sign-in of staff guarantees over any sequence of requests of any browsers: nobody is
  signed in without having shown who they are and, where the account has a second factor, that
  factor; a code of the authenticator works once; passwords are guessed slowly.
\<close>

section \<open>Evidence\<close>

text \<open>The request shows the identity \<open>i\<close>: a password, a verified address, or a new account.\<close>

definition shows_identity :: "login_env \<Rightarrow> web_call \<Rightarrow> account_db \<Rightarrow> int \<Rightarrow> bool" where
  "shows_identity E c db i \<longleftrightarrow>
     (case wc_request c of
        Sign_in name password \<Rightarrow>
          \<not> is_locked (wc_now c) (take 150 (strip name)) db
          \<and> (\<exists>u. user_named (take 150 (strip name)) db = Some u \<and> lu_id u = i \<and> us_active (lu_account u)
                \<and> le_check E (strip_newlines password) (lu_password u))
      | Sign_in_sso email verified \<Rightarrow> verified \<and> (\<exists>u. user_with_email (strip email) db = Some u \<and> lu_id u = i)
      | Sign_up name email password \<Rightarrow> i = next_pk lu_id (ac_users db)
      | _ \<Rightarrow> False)"

definition needs_factor :: "web_call \<Rightarrow> account_db \<Rightarrow> int \<Rightarrow> bool" where
  "needs_factor c db i \<longleftrightarrow> (case wc_request c of Sign_up _ _ _ \<Rightarrow> False | _ \<Rightarrow> mfa_methods i db \<noteq> [])"

text \<open>A code that is accepted as second factor: of the authenticator, a recovery code, or the mailed one.\<close>

definition factor_accepted :: "login_env \<Rightarrow> int \<Rightarrow> string \<Rightarrow> string \<Rightarrow> int \<Rightarrow> pending_login \<Rightarrow> web_session \<Rightarrow> account_db \<Rightarrow> bool" where
  "factor_accepted E now how code i p s db \<longleftrightarrow>
     (how = ''totp'' \<and> Totp \<in> set (pe_methods p)
       \<and> (\<exists>sec secret k. security_row i db = Some sec \<and> se_secret sec = Some secret \<and> \<bar>k - now div 1000000 div 30\<bar> \<le> 1
            \<and> le_totp E secret (k * 30) = filter (\<lambda>x. x \<noteq> CHR '' '') (strip (strip code)) \<and> \<not> step_used now i k db))
     \<or> (how = ''recovery'' \<and> Recovery \<in> set (pe_methods p)
       \<and> (\<exists>sec. security_row i db = Some sec \<and> recovery_hash E (upper (strip (strip code))) \<in> set (se_recovery sec)))
     \<or> (how = ''email'' \<and> Email_code \<in> set (pe_methods p)
       \<and> (\<exists>c\<in>set (op_challenges (ac_otp db)). ws_stepup s = Some (oc_id c) \<and> oc_purpose c = ''STAFF_STEPUP''
            \<and> oc_subject c = str_int i \<and> oc_consumed c = None \<and> now < oc_expires c \<and> oc_attempts c < oc_max_attempts c
            \<and> otp_hash (le_crypto E) (le_config E) (oc_id c) (filter (\<lambda>x. x \<noteq> CHR '' '') (strip (strip code))) = oc_hash c))"

definition passkey_accepted :: "login_env \<Rightarrow> string \<Rightarrow> int \<Rightarrow> web_session \<Rightarrow> account_db \<Rightarrow> bool" where
  "passkey_accepted E answer i s db \<longleftrightarrow>
     (\<exists>challenge k n. ws_challenge s = Some challenge \<and> k \<in> set (ac_passkeys db) \<and> wk_user k = i
        \<and> le_raw_id E answer = Some (wk_credential k) \<and> le_assert E answer challenge (wk_key k) (wk_count k) = Some n)"

definition proves_factor :: "login_env \<Rightarrow> web_call \<Rightarrow> web_session \<Rightarrow> account_db \<Rightarrow> int \<Rightarrow> bool" where
  "proves_factor E c s db i \<longleftrightarrow>
     (\<exists>p. ws_pending s = Some p \<and> pe_user p = i \<and> wc_now c - pe_at p * 1000000 \<le> pending_ttl * 1000000
        \<and> (case wc_request c of
             Give_factor how code \<Rightarrow> factor_accepted E (wc_now c) how code i p s db
           | Give_passkey answer \<Rightarrow> passkey_accepted E answer i s db
           | _ \<Rightarrow> False))"

section \<open>What a request does to the session of its browser\<close>

definition signed_rightly :: "login_env \<Rightarrow> web_call \<Rightarrow> account_db \<Rightarrow> web_session \<Rightarrow> web_session \<Rightarrow> bool" where
  "signed_rightly E c db s s' \<longleftrightarrow>
     (ws_user s' \<in> {None, ws_user s}
       \<or> (\<exists>i. ws_user s' = Some i \<and> (shows_identity E c db i \<and> \<not> needs_factor c db i \<or> proves_factor E c s db i)))
     \<and> (ws_pending s' \<in> {None, ws_pending s}
       \<or> (\<exists>p. ws_pending s' = Some p \<and> shows_identity E c db (pe_user p) \<and> pe_at p = wc_now c div 1000000))"

lemma signed_rightly_same [simp]: "ws_user s' = ws_user s \<Longrightarrow> ws_pending s' = ws_pending s \<Longrightarrow> signed_rightly E c db s s'"
  by (simp add: signed_rightly_def)

lemma signed_rightly_blank [simp]: "signed_rightly E c db s blank_session"
  by (simp add: signed_rightly_def blank_session_def)

lemma complete_login_session [simp]:
  "ws_user (fst (complete_login now ri key u s db)) = Some (lu_id u)"
  "ws_pending (fst (complete_login now ri key u s db)) = None"
  by (simp_all add: complete_login_def Let_def blank_session_def)

lemma await_factor_session [simp]:
  "ws_user (await_factor now i ms rs s) = ws_user s"
  "ws_pending (await_factor now i ms rs s) = Some \<lparr>pe_user = i, pe_at = now div 1000000, pe_methods = ms, pe_reasons = rs\<rparr>"
  by (simp_all add: await_factor_def)

lemma mfa_methods_cong: "ac_security db = ac_security db' \<Longrightarrow> ac_passkeys db = ac_passkeys db' \<Longrightarrow> mfa_methods i db = mfa_methods i db'"
  by (simp add: mfa_methods_def security_row_def)

lemma first_step_session:
  assumes "first_step E now ri rn pay u s db = (r, s', db')"
  shows "(ws_user s' = Some (lu_id u) \<and> ws_pending s' = None \<and> mfa_methods (lu_id u) db = [])
       \<or> (ws_user s' = ws_user s \<and> (\<exists>p. ws_pending s' = Some p \<and> pe_user p = lu_id u \<and> pe_at p = now div 1000000))"
proof -
  have done_now: "ws_user t = Some (lu_id u) \<and> ws_pending t = None" if "complete_login now ri key u s d = (t, d')" for key d t d'
    using complete_login_session [of now ri key u s d] that by simp
  obtain out t d where b: "begin_login E now ri rn pay u s db = (out, t, d)" by (cases "begin_login E now ri rn pay u s db")
  then have t: "s' = t" using assms by (cases out) (simp_all add: first_step_def)
  show ?thesis
  proof (cases "mfa_methods (lu_id u) db = []")
    case False
    then have "t = await_factor now (lu_id u) (mfa_methods (lu_id u) db) (suspicious_reasons E now ri u pay db) s"
      using b by (auto simp: begin_login_def Let_def)
    then show ?thesis by (simp add: t)
  next
    case True
    then show ?thesis using b by (auto simp: t begin_login_def Let_def split: if_splits sum.splits prod.splits dest: done_now)
  qed
qed

lemma count_hit_keeps [simp]:
  "ac_users (snd (count_hit now scope ident limit window db)) = ac_users db"
  "ac_security (snd (count_hit now scope ident limit window db)) = ac_security db"
  "ac_passkeys (snd (count_hit now scope ident limit window db)) = ac_passkeys db"
  "ac_used (snd (count_hit now scope ident limit window db)) = ac_used db"
  "ac_sessions (snd (count_hit now scope ident limit window db)) = ac_sessions db"
  "op_challenges (ac_otp (snd (count_hit now scope ident limit window db))) = op_challenges (ac_otp db)"
  by (simp_all add: count_hit_def case_prod_unfold Let_def)

text \<open>What the evidence depends on.\<close>

definition same_accounts :: "account_db \<Rightarrow> account_db \<Rightarrow> bool" where
  "same_accounts db db' \<longleftrightarrow> ac_users db = ac_users db' \<and> ac_security db = ac_security db' \<and> ac_passkeys db = ac_passkeys db'
     \<and> ac_used db = ac_used db' \<and> op_challenges (ac_otp db) = op_challenges (ac_otp db')"

lemma same_accounts_refl [simp]: "same_accounts db db" by (simp add: same_accounts_def)

lemma count_hit_same [simp]: "same_accounts db (snd (count_hit now scope ident limit window db))"
  by (simp add: same_accounts_def)

lemma same_accounts_reads:
  assumes "same_accounts db db'"
  shows "user_named n db' = user_named n db" "user_with_id i db' = user_with_id i db" "user_with_email m db' = user_with_email m db"
    "security_row i db' = security_row i db" "is_locked now n db' = is_locked now n db" "mfa_methods i db' = mfa_methods i db"
    "step_used now i k db' = step_used now i k db" "ac_users db' = ac_users db"
  using assms by (simp_all add: same_accounts_def user_named_def user_with_id_def user_with_email_def security_row_def is_locked_def
      mfa_methods_def step_used_def split: option.split)

lemma same_accounts_evidence:
  assumes "same_accounts db db'"
  shows "shows_identity E c db' i = shows_identity E c db i" "needs_factor c db' i = needs_factor c db i"
    "factor_accepted E now how code i p s db' = factor_accepted E now how code i p s db"
    "passkey_accepted E answer i s db' = passkey_accepted E answer i s db"
    "proves_factor E c s db' i = proves_factor E c s db i"
proof -
  note reads = same_accounts_reads [OF assms]
  have eqs: "ac_passkeys db' = ac_passkeys db" "op_challenges (ac_otp db') = op_challenges (ac_otp db)"
    using assms by (simp_all add: same_accounts_def)
  show "shows_identity E c db' i = shows_identity E c db i" "needs_factor c db' i = needs_factor c db i"
    by (simp_all add: shows_identity_def needs_factor_def reads split: web_request.split)
  show f: "factor_accepted E now how code i p s db' = factor_accepted E now how code i p s db" for E now how code i p s
    by (simp add: factor_accepted_def reads eqs)
  show "passkey_accepted E answer i s db' = passkey_accepted E answer i s db" for answer
    by (simp add: passkey_accepted_def eqs)
  then show "proves_factor E c s db' i = proves_factor E c s db i"
    by (simp add: proves_factor_def f split: web_request.split)
qed

lemma signed_rightly_cong: "same_accounts db db' \<Longrightarrow> signed_rightly E c db' s s' = signed_rightly E c db s s'"
  by (simp add: signed_rightly_def same_accounts_evidence)

section \<open>Second factors\<close>

lemma first_where_Some_iff: "first_where P xs = Some x \<Longrightarrow> P x \<and> x \<in> set xs"
  by (auto simp: first_where_def find_Some_iff)

lemma user_with_id_id: "user_with_id i db = Some u \<Longrightarrow> lu_id u = i"
  by (auto simp: user_with_id_def dest: first_where_Some_iff)

lemma security_for_row: "security_for i db = (sec, db1) \<Longrightarrow> security_row i db = Some sec \<and> db1 = db \<or> sec = blank_security i"
  by (auto simp: security_for_def split: option.splits)

lemma security_for_used [simp]: "ac_used (snd (security_for i db)) = ac_used db"
  by (simp add: security_for_def split: option.split)

lemma totp_step_near: "totp_step E now secret code = Some k \<Longrightarrow> \<bar>k - now div 1000000 div 30\<bar> \<le> 1 \<and> le_totp E secret (k * 30) = code"
  unfolding totp_step_def by (drule first_where_Some_iff) auto

lemma verify_totp_accepts:
  assumes "verify_totp E now i None code db = (True, db')"
  obtains sec secret k where "security_row i db = Some sec" "se_secret sec = Some secret" "\<bar>k - now div 1000000 div 30\<bar> \<le> 1"
    "le_totp E secret (k * 30) = filter (\<lambda>x. x \<noteq> CHR '' '') (strip code)" "\<not> step_used now i k db"
    "ac_used db' = ac_used db @ [(i, k, now)]"
proof -
  obtain sec db1 where f: "security_for i db = (sec, db1)" by (cases "security_for i db")
  have same: "ac_used db1 = ac_used db" using security_for_used [of i db] f by simp
  from assms f obtain secret k where k: "se_secret sec = Some secret" "totp_step E now secret (filter (\<lambda>x. x \<noteq> CHR '' '') (strip code)) = Some k"
      "\<not> step_used now i k db1" "db' = db1\<lparr>ac_used := ac_used db1 @ [(i, k, now)]\<rparr>"
    by (auto simp: verify_totp_def Let_def split: option.splits if_splits)
  then have "security_row i db = Some sec" using security_for_row [OF f] by (auto simp: blank_security_def)
  moreover have "\<not> step_used now i k db" using k(3) same by (simp add: step_used_def)
  ultimately show thesis using that [of sec secret k] k(1,4) same totp_step_near [OF k(2)] by simp
qed

lemma check_factor_accepts:
  assumes "check_factor E now how code u p s db = (True, db')"
  shows "factor_accepted E now how code (lu_id u) p s db"
proof -
  consider (totp) "how = ''totp''" "Totp \<in> set (pe_methods p)" "verify_totp E now (lu_id u) None (strip code) db = (True, db')"
    | (recovery) "how = ''recovery''" "Recovery \<in> set (pe_methods p)" "use_recovery_code E (lu_id u) (strip code) db = (True, db')"
    | (mailed) i c otp where "how = ''email''" "Email_code \<in> set (pe_methods p)" "ws_stepup s = Some i"
        "verify_otp_code (le_crypto E) (le_config E) now i (strip code) ''STAFF_STEPUP'' ''user'' (str_int (lu_id u)) (ac_otp db) = (Inr c, otp)"
    using assms by (auto simp: check_factor_def Let_def split: if_splits option.splits sum.splits prod.splits)
  then show ?thesis
  proof cases
    case totp
    then show ?thesis by (elim verify_totp_accepts) (auto simp: factor_accepted_def)
  next
    case recovery
    obtain sec db1 where f: "security_for (lu_id u) db = (sec, db1)" by (cases "security_for (lu_id u) db")
    with recovery have "recovery_hash E (upper (strip (strip code))) \<in> set (se_recovery sec)"
      by (auto simp: use_recovery_code_def Let_def split: if_splits)
    with recovery security_for_row [OF f] show ?thesis by (auto simp: factor_accepted_def blank_security_def)
  next
    case mailed
    then show ?thesis
      by (auto simp: verify_otp_code_def factor_accepted_def Let_def split: option.splits if_splits dest!: first_where_Some_iff)
  qed
qed

lemma passkey_authenticate_accepts:
  assumes "passkey_authenticate E now i answer s db = (Inr k, s', db')"
  shows "passkey_accepted E answer i s db"
  using assms by (auto simp: passkey_authenticate_def passkey_accepted_def Let_def split: option.splits dest!: first_where_Some_iff)

lemma passkey_authenticate_session [simp]: "fst (snd (passkey_authenticate E now i answer s db)) = s\<lparr>ws_challenge := None\<rparr>"
  by (simp add: passkey_authenticate_def Let_def split: option.split)

lemma pending_user_row:
  assumes "pending_user now s db = Some (u, p)"
  shows "ws_pending s = Some p" "pe_user p = lu_id u" "now - pe_at p * 1000000 \<le> pending_ttl * 1000000"
  using assms user_with_id_id [of "pe_user p" db u] by (auto simp: pending_user_def split: option.splits if_splits)

section \<open>What the pages do\<close>

lemma first_step_rightly:
  assumes "first_step E now ri rn pay u s db = (r, s', db')"
    and "shows_identity E c db (lu_id u)" and "wc_now c = now" and "needs_factor c db (lu_id u) \<Longrightarrow> mfa_methods (lu_id u) db \<noteq> []"
  shows "signed_rightly E c db s s'"
  using first_step_session [OF assms(1)] assms(2-) by (auto simp: signed_rightly_def)

lemma needs_methods: "needs_factor c db i \<Longrightarrow> mfa_methods i db \<noteq> []"
  by (simp add: needs_factor_def split: web_request.splits)

lemma login_view_rightly:
  assumes "login_view E (wc_now c) ri rn pay name password s db = (r, s', db')" and "wc_request c = Sign_in name password"
  shows "signed_rightly E c db s s'"
proof -
  define db1 where "db1 = snd (count_hit (wc_now c) ''login'' (client ri) 10 60 db)"
  have same: "same_accounts db db1" by (simp add: db1_def)
  show ?thesis
  proof (cases "s' = s")
    case False
    with assms(1) obtain u where u: "\<not> is_locked (wc_now c) (take 150 (strip name)) db1"
        "authenticate E (take 150 (strip name)) (strip_newlines password) db1 = Some u"
        "first_step E (wc_now c) ri rn pay u s db1 = (r, s', db')"
      by (auto simp: login_view_def db1_def case_prod_unfold Let_def split: if_splits option.splits)
    then have "shows_identity E c db1 (lu_id u)"
      using assms(2) by (auto simp: shows_identity_def authenticate_def split: option.splits if_splits)
    then have "signed_rightly E c db1 s s'" by (rule first_step_rightly [OF u(3)]) (simp_all add: needs_methods)
    then show ?thesis by (simp add: signed_rightly_cong [OF same])
  qed simp
qed

lemma sso_callback_rightly:
  assumes "sso_callback E (wc_now c) ri rn pay email verified s db = (r, s', db')" and "wc_request c = Sign_in_sso email verified"
  shows "signed_rightly E c db s s'"
proof (cases "s' = s")
  case False
  with assms(1) obtain u where u: "verified" "user_with_email (strip email) db = Some u"
      "first_step E (wc_now c) ri rn pay u s db = (r, s', db')"
    by (auto simp: sso_callback_def split: if_splits option.splits)
  then have "shows_identity E c db (lu_id u)" using assms(2) by (auto simp: shows_identity_def)
  then show ?thesis by (rule first_step_rightly [OF u(3)]) (simp_all add: needs_methods)
qed simp

lemma register_view_rightly:
  assumes "register_view E (wc_now c) ri rn name email password s db = (r, s', db')" and "wc_request c = Sign_up name email password"
  shows "signed_rightly E c db s s'"
proof (cases "s' = s")
  case False
  with assms(1) have "ws_user s' = Some (next_pk lu_id (ac_users db))" "ws_pending s' = None"
    by (auto simp: register_view_def Let_def case_prod_unfold prod_eq_iff split: if_splits)
  with assms(2) show ?thesis by (auto simp: signed_rightly_def shows_identity_def needs_factor_def)
qed simp

lemma mfa_view_rightly:
  assumes "mfa_view E (wc_now c) ri rn how code s db = (r, s', db')" and "wc_request c = Give_factor how code"
  shows "signed_rightly E c db s s'"
proof -
  define db1 where "db1 = snd (count_hit (wc_now c) ''mfa'' (client ri) 10 60 db)"
  have same: "same_accounts db db1" by (simp add: db1_def)
  show ?thesis
  proof (cases "s' = s")
    case False
    with assms(1) obtain u p db2 where u: "pending_user (wc_now c) s db1 = Some (u, p)"
        "check_factor E (wc_now c) how code u p s db1 = (True, db2)" "ws_user s' = Some (lu_id u)" "ws_pending s' = None"
      by (auto simp: mfa_view_def db1_def case_prod_unfold Let_def prod_eq_iff split: if_splits option.splits bool.splits)
    then have "proves_factor E c s db1 (lu_id u)"
      using assms(2) check_factor_accepts [OF u(2)] pending_user_row [OF u(1)] by (auto simp: proves_factor_def)
    with u(3,4) have "signed_rightly E c db1 s s'" by (auto simp: signed_rightly_def)
    then show ?thesis by (simp add: signed_rightly_cong [OF same])
  qed simp
qed

lemma passkey_view_rightly:
  assumes "passkey_view E (wc_now c) ri rn answer s db = (r, s', db')" and "wc_request c = Give_passkey answer"
  shows "signed_rightly E c db s s'"
proof (cases "pending_user (wc_now c) s db")
  case (Some up)
  obtain u p where up: "up = (u, p)" by (cases up)
  note p = pending_user_row [OF Some [unfolded up]]
  obtain a s1 db1 where a: "passkey_authenticate E (wc_now c) (lu_id u) answer s db = (a, s1, db1)"
    by (cases "passkey_authenticate E (wc_now c) (lu_id u) answer s db") auto
  then have s1: "s1 = s\<lparr>ws_challenge := None\<rparr>"
    using passkey_authenticate_session [of E "wc_now c" "lu_id u" answer s db] by simp
  show ?thesis
  proof (cases a)
    case (Inr k)
    with assms(1) Some up a have "ws_user s' = Some (lu_id u)" "ws_pending s' = None"
      by (auto simp: passkey_view_def prod_eq_iff)
    moreover have "proves_factor E c s db (lu_id u)"
      using assms(2) p passkey_authenticate_accepts a Inr by (auto simp: proves_factor_def)
    ultimately show ?thesis by (auto simp: signed_rightly_def)
  next
    case (Inl e)
    with assms(1) Some up a s1 show ?thesis by (auto simp: passkey_view_def)
  qed
qed (use assms(1) in \<open>simp add: passkey_view_def\<close>)

lemma passkey_options_rightly:
  "passkey_options_view now challenge s db = (r, s', db') \<Longrightarrow> signed_rightly E c db s s'"
  by (auto simp: passkey_options_view_def split: option.splits if_splits)

lemma end_session_blank [simp]: "fst (end_session now s db) = blank_session"
  by (simp add: end_session_def Let_def)

lemma security_action_session:
  "ws_user (fst (snd (security_action E now r u s db))) = ws_user s
   \<and> ws_pending (fst (snd (security_action E now r u s db))) = ws_pending s"
  by (cases r) (auto simp: passkey_register_def Let_def split: option.split bool.split prod.split sum.split)

lemma put_browser_session: "wb_browser (snd (put_browser b (r, s, db) w)) = (wb_browser w)(b := s)"
  by (simp add: put_browser_def)

lemma put_browser_view:
  assumes "\<And>r s' db'. answer = (r, s', db') \<Longrightarrow> signed_rightly E c db (wb_browser w b) s'"
  shows "signed_rightly E c db (wb_browser w b') (wb_browser (snd (put_browser b answer w)) b')
    \<and> (b' \<noteq> b \<longrightarrow> wb_browser (snd (put_browser b answer w)) b' = wb_browser w b')"
  using assms by (cases answer) (auto simp: put_browser_def)

text \<open>Another browser can at most be signed out.\<close>

definition others_left :: "nat \<Rightarrow> web \<Rightarrow> web \<Rightarrow> bool" where
  "others_left b w w' \<longleftrightarrow> (\<forall>b'. b' \<noteq> b \<longrightarrow> wb_browser w' b' \<in> {wb_browser w b', blank_session})"

lemma revoke_view_left:
  assumes "revoke_view now r u b w = (reply, w')"
  shows "wb_browser w' b' \<in> {wb_browser w b', blank_session}"
  using assms end_session_blank
  by (auto simp: revoke_view_def drop_sessions_def Let_def prod_eq_iff case_prod_unfold split: if_splits)

text \<open>The requests of signed-in users, and visits: a page, a change of the settings, or a revocation.\<close>

lemma serve_view_account:
  assumes "serve_view E c w = (r, w')"
    and "case wc_request c of Sign_in _ _ \<Rightarrow> False | Sign_in_sso _ _ \<Rightarrow> False | Sign_up _ _ _ \<Rightarrow> False | Sign_out \<Rightarrow> False
         | Give_factor _ _ \<Rightarrow> False | Ask_passkey _ \<Rightarrow> False | Give_passkey _ \<Rightarrow> False | _ \<Rightarrow> True"
  obtains (page) "wb_browser w' = wb_browser w" "wb_db w' = wb_db w"
    | (token) random name u pay' where "wb_browser w' = wb_browser w"
        "token_view E (wc_now c) random name u (wb_pay w) (wb_db w) = (r, wb_db w', pay')"
    | (settings) q u where "(r, w') = put_browser (wc_browser c) (security_action E (wc_now c) q u (wb_browser w (wc_browser c)) (wb_db w)) w"
    | (revocation) q u where "revoke_view (wc_now c) q u (wc_browser c) w = (r, w')"
proof (cases "current_user (wb_browser w (wc_browser c)) (wb_db w)")
  case None
  with assms show thesis by (auto simp: serve_view_def Let_def split: web_request.splits intro: page)
next
  case (Some u)
  note act = settings [where u = u] and view = assms(1) [unfolded serve_view_def Let_def Some]
  show thesis
  proof (cases "wc_request c")
    case (Create_token random name)
    with view show thesis by (auto split: prod.splits intro: token)
  qed (use assms(2) view in \<open>auto simp del: security_action.simps intro: page act [OF sym] revocation\<close>)
qed

lemma serve_view_rightly:
  assumes "serve_view E c w = (r, w')"
  shows "signed_rightly E c (wb_db w) (wb_browser w (wc_browser c)) (wb_browser w' (wc_browser c)) \<and> others_left (wc_browser c) w w'"
proof -
  define b where "b = wc_browser c"
  have put: "signed_rightly E c (wb_db w) (wb_browser w b) (wb_browser w' b) \<and> others_left b w w'"
    if "\<And>r s' db'. answer = (r, s', db') \<Longrightarrow> signed_rightly E c (wb_db w) (wb_browser w b) s'" "(r, w') = put_browser b answer w" for answer
    using that by (cases answer) (auto simp: put_browser_def others_left_def)
  have account: ?thesis if "case wc_request c of Sign_in _ _ \<Rightarrow> False | Sign_in_sso _ _ \<Rightarrow> False | Sign_up _ _ _ \<Rightarrow> False
      | Sign_out \<Rightarrow> False | Give_factor _ _ \<Rightarrow> False | Ask_passkey _ \<Rightarrow> False | Give_passkey _ \<Rightarrow> False | _ \<Rightarrow> True"
    using assms that
  proof (cases rule: serve_view_account)
    case (settings q u)
    from security_action_session [of E "wc_now c" q u "wb_browser w b" "wb_db w"]
    have "signed_rightly E c (wb_db w) (wb_browser w b) s'"
      if "security_action E (wc_now c) q u (wb_browser w b) (wb_db w) = (r', s', db')" for r' s' db' using that by simp
    from put [OF this settings [folded b_def]] show ?thesis by (simp add: b_def)
  next
    case (revocation q u)
    note left = revoke_view_left [OF this [folded b_def]]
    then have "others_left b w w'" by (simp add: others_left_def)
    with left [of b] show ?thesis by (auto simp: b_def)
  qed (simp_all add: others_left_def)
  note defs = serve_view_def Let_def b_def [symmetric]
  show ?thesis
  proof (cases "wc_request c")
    case (Sign_in name password)
    with assms show ?thesis unfolding b_def [symmetric]
      by (intro put [where answer = "login_view E (wc_now c) (wc_from c) (wc_random c) (wb_pay w) name password (wb_browser w b) (wb_db w)"])
        (auto simp: defs intro: login_view_rightly)
  next
    case (Sign_in_sso email verified)
    with assms show ?thesis unfolding b_def [symmetric]
      by (intro put [where answer = "sso_callback E (wc_now c) (wc_from c) (wc_random c) (wb_pay w) email verified (wb_browser w b) (wb_db w)"])
        (auto simp: defs intro: sso_callback_rightly)
  next
    case (Sign_up name email password)
    with assms show ?thesis unfolding b_def [symmetric]
      by (intro put [where answer = "register_view E (wc_now c) (wc_from c) (wc_random c) name email password (wb_browser w b) (wb_db w)"])
        (auto simp: defs intro: register_view_rightly)
  next
    case Sign_out
    with assms show ?thesis unfolding b_def [symmetric]
      by (intro put [where answer = "(Page_shown, end_session (wc_now c) (wb_browser w b) (wb_db w))"])
        (auto simp: defs prod_eq_iff)
  next
    case (Give_factor how code)
    with assms show ?thesis unfolding b_def [symmetric]
      by (intro put [where answer = "mfa_view E (wc_now c) (wc_from c) (wc_random c) how code (wb_browser w b) (wb_db w)"])
        (auto simp: defs intro: mfa_view_rightly)
  next
    case (Ask_passkey challenge)
    with assms show ?thesis unfolding b_def [symmetric]
      by (intro put [where answer = "passkey_options_view (wc_now c) challenge (wb_browser w b) (wb_db w)"])
        (auto simp: defs intro: passkey_options_rightly)
  next
    case (Give_passkey answer)
    with assms show ?thesis unfolding b_def [symmetric]
      by (intro put [where answer = "passkey_view E (wc_now c) (wc_from c) (wc_random c) answer (wb_browser w b) (wb_db w)"])
        (auto simp: defs intro: passkey_view_rightly)
  qed (rule account; simp)+
qed

lemma track_session_same [simp]: "same_accounts db (track_session now ri key u db)"
  by (simp add: track_session_def same_accounts_def split: option.split)

lemma session_middleware_effect:
  assumes "session_middleware E now ri pay r s db = (reply, s', db')"
  shows "(s' = s \<and> same_accounts db db') \<or> (s' = blank_session \<and> reply = Some Was_revoked)"
  using assms end_session_blank track_session_same
  by (auto simp: session_middleware_def Let_def split: option.splits if_splits prod.splits dest!: arg_cong [where f = fst])

lemma serve_web_rightly:
  assumes "serve_web E c w = (r, w')"
  shows "signed_rightly E c (wb_db w) (wb_browser w (wc_browser c)) (wb_browser w' (wc_browser c)) \<and> others_left (wc_browser c) w w'"
proof -
  obtain reply s db where m: "session_middleware E (wc_now c) (wc_from c) (wb_pay w) (wc_request c) (wb_browser w (wc_browser c)) (wb_db w)
      = (reply, s, db)" by (metis prod_cases3)
  note effect = session_middleware_effect [OF m]
  show ?thesis
  proof (cases reply)
    case (Some a)
    with assms m effect show ?thesis by (auto simp: serve_web_def put_browser_def others_left_def)
  next
    case None
    define w1 where "w1 = w\<lparr>wb_browser := (wb_browser w)(wc_browser c := s), wb_db := db\<rparr>"
    have s: "s = wb_browser w (wc_browser c)" and same: "same_accounts (wb_db w) db" using effect None by auto
    have "serve_view E c w1 = (r, w')" using assms m None by (simp add: serve_web_def put_browser_def w1_def)
    from serve_view_rightly [OF this] show ?thesis
      by (simp add: w1_def s others_left_def signed_rightly_cong [OF same])
  qed
qed

section \<open>Over a run\<close>

lemma web_run_append [simp]: "web_run E (cs @ ds) w = web_run E ds (web_run E cs w)"
  by (induction cs arbitrary: w) simp_all

text \<open>
  \<open>somewhere P cs\<close>: some request of the run, with those before it, satisfies \<open>P\<close>.
  \<open>identified\<close>: a request of the browser \<open>b\<close> showed the identity \<open>i\<close>.
  \<open>signed_in_properly\<close>: one did when no factor was needed, or one that proved the factor came
  after it and within the time allowed.
\<close>

definition somewhere :: "(web_call list \<Rightarrow> web_call \<Rightarrow> bool) \<Rightarrow> web_call list \<Rightarrow> bool" where
  "somewhere P cs \<longleftrightarrow> (\<exists>before c after. cs = before @ c # after \<and> P before c)"

definition identified :: "login_env \<Rightarrow> web \<Rightarrow> web_call list \<Rightarrow> nat \<Rightarrow> int \<Rightarrow> int \<Rightarrow> bool" where
  "identified E w cs b i at_second \<longleftrightarrow>
     somewhere (\<lambda>before c. wc_browser c = b \<and> shows_identity E c (wb_db (web_run E before w)) i
        \<and> wc_now c div 1000000 = at_second) cs"

definition signed_in_properly :: "login_env \<Rightarrow> web \<Rightarrow> web_call list \<Rightarrow> nat \<Rightarrow> int \<Rightarrow> bool" where
  "signed_in_properly E w cs b i \<longleftrightarrow>
     somewhere (\<lambda>before c. wc_browser c = b \<and> shows_identity E c (wb_db (web_run E before w)) i
        \<and> \<not> needs_factor c (wb_db (web_run E before w)) i) cs
     \<or> somewhere (\<lambda>before c. wc_browser c = b
          \<and> proves_factor E c (wb_browser (web_run E before w) b) (wb_db (web_run E before w)) i
          \<and> (\<exists>at_second. identified E w before b i at_second \<and> wc_now c - at_second * 1000000 \<le> pending_ttl * 1000000)) cs"

lemma somewhere_later: "somewhere P cs \<Longrightarrow> somewhere P (cs @ [c])"
  unfolding somewhere_def by (metis append_Cons append_assoc)

lemma somewhere_last: "P cs c \<Longrightarrow> somewhere P (cs @ [c])"
  unfolding somewhere_def by blast

lemma identified_later: "identified E w cs b i t \<Longrightarrow> identified E w (cs @ [c]) b i t"
  by (simp add: identified_def somewhere_later)

lemma signed_in_properly_later: "signed_in_properly E w cs b i \<Longrightarrow> signed_in_properly E w (cs @ [c]) b i"
  unfolding signed_in_properly_def by (blast intro: somewhere_later)

lemma run_signs_properly:
  assumes "ws_user (wb_browser w b) = None" and "ws_pending (wb_browser w b) = None"
  shows "(\<forall>i. ws_user (wb_browser (web_run E cs w) b) = Some i \<longrightarrow> signed_in_properly E w cs b i)
    \<and> (\<forall>p. ws_pending (wb_browser (web_run E cs w) b) = Some p \<longrightarrow> identified E w cs b (pe_user p) (pe_at p))"
proof (induction cs rule: rev_induct)
  case Nil
  then show ?case using assms by simp
next
  case (snoc c cs)
  define v v' where "v = web_run E cs w" and "v' = snd (serve_web E c v)"
  have run: "web_run E (cs @ [c]) w = v'" by (simp add: v_def v'_def)
  note right = serve_web_rightly [of E c v "fst (serve_web E c v)" v', unfolded v'_def, simplified, folded v'_def]
  have old: "ws_user (wb_browser v b) = Some i \<Longrightarrow> signed_in_properly E w (cs @ [c]) b i"
    "ws_pending (wb_browser v b) = Some p \<Longrightarrow> identified E w (cs @ [c]) b (pe_user p) (pe_at p)" for i p
    using snoc.IH by (simp_all add: v_def signed_in_properly_later identified_later)
  show ?case
  proof (cases "wc_browser c = b")
    case False
    then have "wb_browser v' b \<in> {wb_browser v b, blank_session}" using right by (auto simp: others_left_def)
    then show ?thesis unfolding run using old by (auto simp: blank_session_def)
  next
    case True
    then have r: "signed_rightly E c (wb_db v) (wb_browser v b) (wb_browser v' b)" using right by simp
    have shown: "shows_identity E c (wb_db v) i \<Longrightarrow> identified E w (cs @ [c]) b i (wc_now c div 1000000)" for i
      using True by (simp add: identified_def v_def somewhere_last)
    have proven: "signed_in_properly E w (cs @ [c]) b i" if "proves_factor E c (wb_browser v b) (wb_db v) i" for i
    proof -
      from that obtain p where p: "ws_pending (wb_browser v b) = Some p" "pe_user p = i"
          "wc_now c - pe_at p * 1000000 \<le> pending_ttl * 1000000" by (auto simp: proves_factor_def)
      then have "identified E w cs b i (pe_at p)" using snoc.IH by (auto simp: v_def)
      with p that True show ?thesis unfolding signed_in_properly_def v_def by (blast intro: somewhere_last)
    qed
    have plain: "signed_in_properly E w (cs @ [c]) b i"
      if "shows_identity E c (wb_db v) i" "\<not> needs_factor c (wb_db v) i" for i
      using that True unfolding signed_in_properly_def v_def by (blast intro: somewhere_last)
    from r show ?thesis unfolding run
      by (auto simp: signed_rightly_def dest: plain proven shown old old [OF sym])
  qed
qed

text \<open>
  C32: Nobody is signed in without the factors of the account. In any sequence of requests of any
  browsers, a browser that was not signed in and had no sign-in under way is signed in as a
  user only if one of its requests showed that user's identity (the right password of an active
  account that is not locked, a verified address from the identity provider, or a registration
  of that account) and either the account had no second factor then, or a later request of the
  browser proved a factor that its pending sign-in allows, within five minutes: an authenticator
  code not used before, a stored recovery code, the mailed code, or a registered passkey.
\<close>

theorem sign_in_needs_factors:
  assumes "ws_user (wb_browser w b) = None" and "ws_pending (wb_browser w b) = None"
    and "ws_user (wb_browser (web_run E cs w) b) = Some i"
  shows "signed_in_properly E w cs b i"
  using run_signs_properly [OF assms(1,2), of E cs] assms(3) by blast

section \<open>Codes of the authenticator\<close>

definition code_added :: "account_db \<Rightarrow> account_db \<Rightarrow> bool" where
  "code_added db db' \<longleftrightarrow> ac_used db' = ac_used db
     \<or> (\<exists>now i k. ac_used db' = ac_used db @ [(i, k, now)] \<and> \<bar>k - now div 1000000 div 30\<bar> \<le> 1 \<and> \<not> step_used now i k db)"

lemma ac_used_simps [simp]:
  "ac_used (change_security i f db) = ac_used db"
  "ac_used (account_note t i r db) = ac_used db"
  "ac_used (failed_note t a db) = ac_used db"
  "ac_used (notify_user u m db) = ac_used db"
  "ac_used (remember_device now ri u db) = ac_used db"
  "ac_used (on_login now ri key u db) = ac_used db"
  "ac_used (snd (complete_login now ri key u s db)) = ac_used db"
  "ac_used (register_failure E now n db) = ac_used db"
  "ac_used (snd (generate_recovery_codes E ch i db)) = ac_used db"
  "ac_used (snd (use_recovery_code E i code db)) = ac_used db"
  "ac_used (snd (snd (passkey_authenticate E now i answer s db))) = ac_used db"
  "ac_used (snd (snd (passkey_register E i answer n s db))) = ac_used db"
  "ac_used (snd (create_api_token E now rnd i n org d db)) = ac_used db"
  "ac_used (snd (end_session now s db)) = ac_used db"
  "ac_used (revoke_sessions now keys i db) = ac_used db"
  "ac_used (track_session now ri key u db) = ac_used db"
proof -
  show c: "ac_used (change_security i f db) = ac_used db" for i f db by (simp add: change_security_def)
  show n: "ac_used (account_note t i r db) = ac_used db" "ac_used (failed_note t a db) = ac_used db" "ac_used (notify_user u m db) = ac_used db"
    for t i r a u m db by (simp_all add: account_note_def failed_note_def notify_user_def)
  show r: "ac_used (remember_device now ri u db) = ac_used db" for db by (simp add: remember_device_def Let_def n)
  show l: "ac_used (on_login now ri key u db) = ac_used db" for db by (simp add: on_login_def Let_def n c)
  show "ac_used (snd (complete_login now ri key u s db)) = ac_used db" by (simp add: complete_login_def Let_def n r l)
  show "ac_used (register_failure E now n db) = ac_used db" by (simp add: register_failure_def Let_def n c split: option.split)
  show "ac_used (snd (generate_recovery_codes E ch i db)) = ac_used db" by (simp add: generate_recovery_codes_def Let_def n c)
  show "ac_used (snd (use_recovery_code E i code db)) = ac_used db"
    using security_for_used [of i db] by (simp add: use_recovery_code_def Let_def n c case_prod_unfold)
  show "ac_used (snd (snd (passkey_authenticate E now i answer s db))) = ac_used db"
    by (simp add: passkey_authenticate_def Let_def split: option.split)
  show "ac_used (snd (snd (passkey_register E i answer n s db))) = ac_used db"
    by (simp add: passkey_register_def Let_def n split: option.split)
  show "ac_used (snd (create_api_token E now rnd i n org d db)) = ac_used db" by (simp add: create_api_token_def Let_def)
  show "ac_used (snd (end_session now s db)) = ac_used db" by (simp add: end_session_def Let_def n split: option.split)
  show "ac_used (revoke_sessions now keys i db) = ac_used db" by (simp add: revoke_sessions_def n)
  show "ac_used (track_session now ri key u db) = ac_used db" by (simp add: track_session_def split: option.split)
qed

lemma code_added_cong: "ac_used d = ac_used db \<Longrightarrow> ac_used d' = ac_used db' \<Longrightarrow> code_added d d' \<Longrightarrow> code_added db db'"
  by (simp add: code_added_def step_used_def)

lemma verify_totp_added: "code_added db (snd (verify_totp E now i given code db))"
proof -
  obtain sec db1 where f: "security_for i db = (sec, db1)" by (cases "security_for i db")
  have same: "ac_used db1 = ac_used db" using security_for_used [of i db] f by simp
  then have used: "step_used now i k db1 = step_used now i k db" for k by (simp add: step_used_def)
  show ?thesis
    unfolding verify_totp_def f Let_def prod.case
    by (rule code_added_cong [OF same refl]) (auto simp: code_added_def dest: totp_step_near split: option.split)
qed

lemma code_added_same: "ac_used db' = ac_used db \<Longrightarrow> code_added db db'" by (simp add: code_added_def)

lemma first_step_used: "ac_used (snd (snd (first_step E now ri rn pay u s db))) = ac_used db"
proof -
  have signed: "complete_login now ri key u s d = (s', d') \<Longrightarrow> ac_used d' = ac_used d" for key d s' d'
    using ac_used_simps(7) [of now ri key u s d] by simp
  show ?thesis by (auto simp: first_step_def begin_login_def Let_def split: sum.split prod.split dest: signed)
qed

lemma security_action_added: "code_added db (snd (snd (security_action E now r u s db)))"
proof (cases r)
  case (Confirm_totp code choices)
  show ?thesis
  proof (cases "ws_totp s")
    case (Some secret)
    obtain ok db1 where v: "verify_totp E now (lu_id u) (Some secret) code db = (ok, db1)"
      by (cases "verify_totp E now (lu_id u) (Some secret) code db")
    have "code_added db db1" using verify_totp_added [of db E now "lu_id u" "Some secret" code] v by simp
    then show ?thesis using Some v by (cases ok) (auto simp: Confirm_totp code_added_def)
  qed (simp add: Confirm_totp code_added_same)
next
  case (Revoke_token k)
  then show ?thesis by (auto simp: revoke_api_token_def intro: code_added_same split: option.split)
next
  case (Add_passkey answer name)
  have "ac_used d = ac_used db" if "passkey_register E (lu_id u) answer name s db = (x, s1, d)" for x s1 d
    using ac_used_simps(12) [of E "lu_id u" answer name s db] that by simp
  then show ?thesis by (auto simp: Add_passkey intro!: code_added_same split: prod.splits sum.splits)
qed (auto intro: code_added_same)

lemma check_factor_added: "code_added db (snd (check_factor E now how code u p s db))"
proof (cases "how = ''totp'' \<and> Totp \<in> set (pe_methods p)")
  case False
  then have "ac_used (snd (check_factor E now how code u p s db)) = ac_used db"
    by (auto simp: check_factor_def Let_def split: option.split sum.split prod.split)
  then show ?thesis by (rule code_added_same)
qed (simp add: check_factor_def Let_def verify_totp_added)

lemma mfa_view_added: "code_added db (snd (snd (mfa_view E now ri rn how code s db)))"
proof -
  define db1 where "db1 = snd (count_hit now ''mfa'' (client ri) 10 60 db)"
  have same: "ac_used db1 = ac_used db" by (simp add: db1_def)
  show ?thesis
  proof (cases "pending_user now s db1")
    case (Some up)
    obtain u p where up: "up = (u, p)" by (cases up)
    obtain ok db2 where f: "check_factor E now how code u p s db1 = (ok, db2)" by (cases "check_factor E now how code u p s db1")
    then have "code_added db1 db2" using check_factor_added [of db1 E now how code u p s] by simp
    then have "code_added db db2" by (rule code_added_cong [rotated 2]) (simp_all add: same)
    then show ?thesis using Some up f same
      by (cases ok) (auto simp: mfa_view_def db1_def [symmetric] case_prod_unfold Let_def code_added_def)
  qed (simp add: mfa_view_def db1_def [symmetric] case_prod_unfold Let_def code_added_same same)
qed

lemma view_used:
  "ac_used (snd (snd (login_view E now ri rn pay name pw s db))) = ac_used db"
  "ac_used (snd (snd (sso_callback E now ri rn pay email v s db))) = ac_used db"
  "ac_used (snd (snd (register_view E now ri rn name email pw s db))) = ac_used db"
  "ac_used (snd (snd (passkey_options_view now ch s db))) = ac_used db"
  "ac_used (snd (snd (passkey_view E now ri rn a s db))) = ac_used db"
proof -
  show "ac_used (snd (snd (login_view E now ri rn pay name pw s db))) = ac_used db"
    by (simp add: login_view_def Let_def case_prod_unfold first_step_used split: option.split)
  show "ac_used (snd (snd (sso_callback E now ri rn pay email v s db))) = ac_used db"
    by (simp add: sso_callback_def first_step_used split: option.split)
  show "ac_used (snd (snd (register_view E now ri rn name email pw s db))) = ac_used db"
    by (simp add: register_view_def Let_def case_prod_unfold)
  show "ac_used (snd (snd (passkey_options_view now ch s db))) = ac_used db"
    by (simp add: passkey_options_view_def case_prod_unfold split: option.split)
  have "ac_used d = ac_used db" if "passkey_authenticate E now i a s db = (x, s1, d)" for i x s1 d
    using ac_used_simps(11) [of E now i a s db] that by simp
  then show "ac_used (snd (snd (passkey_view E now ri rn a s db))) = ac_used db"
    by (auto simp: passkey_view_def split: option.split prod.split sum.split)
qed

lemma token_view_used: "ac_used (fst (snd (token_view E now random name u pay db))) = ac_used db"
  by (simp add: token_view_def Let_def case_prod_unfold split: sum.split)

lemma put_browser_db [simp]: "wb_db (snd (put_browser b answer w)) = snd (snd answer)"
  by (simp add: put_browser_def case_prod_unfold)

lemma serve_view_added: "code_added (wb_db w) (wb_db (snd (serve_view E c w)))"
proof -
  obtain r w' where v: "serve_view E c w = (r, w')" by (cases "serve_view E c w")
  have account: "code_added (wb_db w) (wb_db w')" if "case wc_request c of Sign_in _ _ \<Rightarrow> False | Sign_in_sso _ _ \<Rightarrow> False | Sign_up _ _ _ \<Rightarrow> False
      | Sign_out \<Rightarrow> False | Give_factor _ _ \<Rightarrow> False | Ask_passkey _ \<Rightarrow> False | Give_passkey _ \<Rightarrow> False | _ \<Rightarrow> True"
    using v that
  proof (cases rule: serve_view_account)
    case (token random name u pay')
    then have "ac_used (wb_db w') = ac_used (wb_db w)"
      using token_view_used [of E "wc_now c" random name u "wb_pay w" "wb_db w"] by simp
    then show ?thesis by (rule code_added_same)
  next
    case (settings q u)
    then have "wb_db w' = snd (snd (security_action E (wc_now c) q u (wb_browser w (wc_browser c)) (wb_db w)))"
      using put_browser_db [of "wc_browser c" "security_action E (wc_now c) q u (wb_browser w (wc_browser c)) (wb_db w)" w]
      by (metis snd_conv)
    then show ?thesis by (simp add: security_action_added)
  next
    case (revocation q u)
    have "ac_used d = ac_used db" if "end_session now s db = (x, d)" for now s db x d
      using ac_used_simps(14) [of now s db] that by simp
    then have "ac_used (wb_db w') = ac_used (wb_db w)" using revocation
      by (auto simp: revoke_view_def Let_def drop_sessions_def split: prod.splits if_splits)
    then show ?thesis by (rule code_added_same)
  qed (simp add: code_added_same)
  have entered: "code_added (wb_db w) (wb_db w')"
    if "put_browser b answer w = (r, w')" "ac_used (snd (snd answer)) = ac_used (wb_db w)" for b answer
    using that put_browser_db [of b answer w] by (simp add: code_added_same)
  have "code_added (wb_db w) (wb_db w')"
  proof (cases "wc_request c")
    case (Give_factor how code)
    then show ?thesis using v mfa_view_added [of "wb_db w" E "wc_now c" "wc_from c" "wc_random c" how code "wb_browser w (wc_browser c)"]
        put_browser_db [of "wc_browser c" "mfa_view E (wc_now c) (wc_from c) (wc_random c) how code (wb_browser w (wc_browser c)) (wb_db w)" w]
      by (simp add: serve_view_def Let_def)
  next
    case (Sign_in name pw)
    with v view_used(1) show ?thesis by (simp add: serve_view_def Let_def entered)
  next
    case (Sign_in_sso email b)
    with v view_used(2) show ?thesis by (simp add: serve_view_def Let_def entered)
  next
    case (Sign_up name email pw)
    with v view_used(3) show ?thesis by (simp add: serve_view_def Let_def entered)
  next
    case Sign_out
    with v show ?thesis by (simp add: serve_view_def Let_def entered)
  next
    case (Ask_passkey ch)
    with v view_used(4) show ?thesis by (simp add: serve_view_def Let_def entered)
  next
    case (Give_passkey a)
    with v view_used(5) show ?thesis by (simp add: serve_view_def Let_def entered)
  qed (rule account; simp)+
  then show ?thesis by (simp add: v)
qed

lemma serve_web_added: "code_added (wb_db w) (wb_db (snd (serve_web E c w)))"
proof -
  obtain reply s db where m: "session_middleware E (wc_now c) (wc_from c) (wb_pay w) (wc_request c) (wb_browser w (wc_browser c)) (wb_db w)
      = (reply, s, db)" by (metis prod_cases3)
  have "ac_used d = ac_used db" if "end_session now s db = (x, d)" for now s db x d
    using ac_used_simps(14) [of now s db] that by simp
  with m have same: "ac_used db = ac_used (wb_db w)"
    by (auto simp: session_middleware_def Let_def split: option.splits if_splits prod.splits)
  show ?thesis
  proof (cases reply)
    case None
    then have "code_added db (wb_db (snd (serve_web E c w)))"
      using serve_view_added [of "w\<lparr>wb_browser := (wb_browser w)(wc_browser c := s), wb_db := db\<rparr>" E c] m
      by (simp add: serve_web_def put_browser_def)
    then show ?thesis by (rule code_added_cong [rotated 2]) (simp_all add: same)
  qed (simp add: serve_web_def m code_added_same same)
qed

text \<open>An entry lies within one step of its time, and no step of a user has two.\<close>

definition codes_once :: "account_db \<Rightarrow> bool" where
  "codes_once db \<longleftrightarrow> distinct (map (\<lambda>(i, k, t). (i, k)) (ac_used db))
     \<and> (\<forall>(i, k, t)\<in>set (ac_used db). \<bar>k - t div 1000000 div 30\<bar> \<le> 1)"

lemma second_use_near:
  assumes "\<bar>k - t div 1000000 div 30\<bar> \<le> 1" and "\<bar>k - now div 1000000 div 30\<bar> \<le> (1 :: int)"
  shows "now < t + replay_window * 1000000"
  using assms unfolding replay_window_def by linarith

lemma code_is_new:
  assumes "codes_once db" and "\<bar>k - now div 1000000 div 30\<bar> \<le> 1" and "\<not> step_used now i k db"
  shows "(i, k, t) \<notin> set (ac_used db)"
proof
  assume mem: "(i, k, t) \<in> set (ac_used db)"
  then have "\<bar>k - t div 1000000 div 30\<bar> \<le> 1" using assms(1) by (auto simp: codes_once_def)
  from second_use_near [OF this assms(2)] mem have "step_used now i k db"
    unfolding step_used_def exists_where_def list_ex_iff by (intro bexI [of _ "(i, k, t)"]) simp_all
  with assms(3) show False ..
qed

lemma codes_once_added:
  assumes "codes_once db" and "code_added db db'" shows "codes_once db'"
proof (cases "ac_used db' = ac_used db")
  case False
  with assms(2) obtain now i k where k: "ac_used db' = ac_used db @ [(i, k, now)]" "\<bar>k - now div 1000000 div 30\<bar> \<le> 1"
      "\<not> step_used now i k db" by (auto simp: code_added_def)
  then have "(i, k) \<notin> set (map (\<lambda>(i, k, t). (i, k)) (ac_used db))" using code_is_new [OF assms(1) k(2,3)] by auto
  with assms(1) k show ?thesis by (simp add: codes_once_def)
qed (use assms(1) in \<open>simp add: codes_once_def\<close>)

lemma run_codes_once: "codes_once (wb_db w) \<Longrightarrow> codes_once (wb_db (web_run E cs w))"
  by (induction cs arbitrary: w) (auto intro: codes_once_added serve_web_added)

text \<open>
  C33: A code of the authenticator works once. After any sequence of requests, by whichever
  browsers and at whatever times, a code is accepted only for a step of thirty seconds, at most
  one away from now, for which no code of that user was ever accepted before; the acceptance is
  remembered. The 120 seconds that the cache keeps an entry outlast the 90 a code can be valid.
\<close>

theorem authenticator_code_once:
  assumes "ac_used (wb_db w) = []" and "verify_totp E now i None code (wb_db (web_run E cs w)) = (True, db')"
  shows "\<exists>secret k. \<bar>k - now div 1000000 div 30\<bar> \<le> 1 \<and> le_totp E secret (k * 30) = filter (\<lambda>x. x \<noteq> CHR '' '') (strip code)
    \<and> (\<forall>t. (i, k, t) \<notin> set (ac_used (wb_db (web_run E cs w)))) \<and> ac_used db' = ac_used (wb_db (web_run E cs w)) @ [(i, k, now)]"
proof -
  have once: "codes_once (wb_db (web_run E cs w))" using assms(1) by (intro run_codes_once) (simp add: codes_once_def)
  from assms(2) show ?thesis by (elim verify_totp_accepts) (use code_is_new [OF once] in blast)
qed

section \<open>The step-up of accounts without a second factor\<close>

text \<open>
  A code is mailed when the sign-in of such an account looks suspicious. Whoever has the password
  need not read it: signing in again within a minute asks for another code too soon, the error is
  taken as a reason to go on without, and the browser is signed in.
\<close>

lemma step_up_skipped_on_retry:
  assumes "begin_login E now ri rn pay u s db = (Second_step, s', db')" and "mfa_methods (lu_id u) db = []"
    and "now \<le> later" "later \<le> now + resend_cooldown * 1000000"
  shows "fst (begin_login E later ri' rn' pay' u s2 db') = Signed_in"
proof -
  let ?issue = "\<lambda>t r otp. issue_otp (le_crypto E) (le_config E) t (rn_digits r) (rn_uuid r) ''STAFF_STEPUP'' ''user'' (str_int (lu_id u)) EMAIL (lu_email u) otp"
  obtain c code otp where c: "?issue now rn (ac_otp db) = (Inr (c, code), otp)" "db' = db\<lparr>ac_otp := otp\<rparr>"
    using assms(1,2) by (auto simp: begin_login_def Let_def split: if_splits sum.splits prod.splits)
  then have "c \<in> set (op_challenges otp)" "oc_subject_type c = ''user''" "oc_subject c = str_int (lu_id u)"
      "oc_purpose c = ''STAFF_STEPUP''" "oc_created c = now"
    by (auto simp: issue_otp_def Let_def split: if_splits prod.splits)
  then have "exists_where (\<lambda>c. oc_subject_type c = ''user'' \<and> oc_subject c = str_int (lu_id u) \<and> oc_purpose c = ''STAFF_STEPUP''
      \<and> later - resend_cooldown * 1000000 \<le> oc_created c) (op_challenges otp)"
    using assms(4) unfolding exists_where_def list_ex_iff by (intro bexI [of _ c]) auto
  then have "\<exists>e o'. ?issue later rn' otp = (Inl e, o')" by (auto simp: issue_otp_def Let_def split: prod.split)
  then show ?thesis using assms(2) c(2) mfa_methods_cong [of db' db "lu_id u"]
    by (auto simp: begin_login_def Let_def)
qed

section \<open>An example\<close>

abbreviation (input) ex_sign_in :: "web_call list" where
  "ex_sign_in \<equiv> [ex_call 90000000 (Sign_in ''ama'' ''kente''), ex_call 100000000 (Give_factor ''totp'' ''3'')]"

lemma ex_tables [simp]:
  "ac_passkeys ex_account_db = []" "user_named ''ama'' ex_account_db = Some ex_login_user" "lu_id ex_login_user = 7"
  "ac_used ex_account_db = []" "ac_users ex_account_db = [ex_login_user]"
  by (simp_all add: ex_account_db_def ex_login_user_def user_named_def first_where_def)

lemma ex_counted:
  "user_named ''ama'' (snd (count_hit now scope ident limit window ex_account_db)) = Some ex_login_user"
  "security_row 7 (snd (count_hit now scope ident limit window ex_account_db)) = security_row 7 ex_account_db"
  "ac_passkeys (snd (count_hit now scope ident limit window ex_account_db)) = []"
  "ac_users (snd (count_hit now scope ident limit window ex_account_db)) = [ex_login_user]"
  by simp_all

lemma ex_security: "security_row 7 ex_account_db = Some ((blank_security 7)\<lparr>se_secret := Some ''s'', se_confirmed := Some 1\<rparr>)"
  by (simp add: security_row_def ex_account_db_def first_where_def blank_security_def)

lemma ex_methods: "mfa_methods 7 (snd (count_hit now scope ident limit window ex_account_db)) = [Totp]"
  by (simp add: mfa_methods_def ex_counted ex_security exists_where_def totp_enabled_def blank_security_def)

lemma ex_first_hit: "fst (count_hit now scope ident 10 60 ex_account_db)"
  by (simp add: count_hit_def hit_def counter_def ex_account_db_def Let_def)

lemma ex_login_view:
  "login_view (ex_login_env S) 90000000 ri rn pay ''ama'' ''kente'' blank_session ex_account_db
    = (Ask_factor, await_factor 90000000 7 [Totp] (suspicious_reasons (ex_login_env S) 90000000 ri ex_login_user pay
          (snd (count_hit 90000000 ''login'' (client ri) 10 60 ex_account_db))) blank_session,
       snd (count_hit 90000000 ''login'' (client ri) 10 60 ex_account_db))"
proof -
  define d where "d = snd (count_hit 90000000 ''login'' (client ri) 10 60 ex_account_db)"
  have strips: "strip_newlines ''kente'' = ''kente''" by code_simp
  have "\<not> is_locked 90000000 ''ama'' d" "current_user blank_session d = None"
    by (simp_all add: is_locked_def d_def current_user_def blank_session_def ex_security locked_now_def blank_security_def)
  moreover have "authenticate (ex_login_env S) ''ama'' ''kente'' d = Some ex_login_user"
    by (simp add: authenticate_def d_def) (simp add: ex_login_env_def ex_login_user_def)
  moreover have "first_step (ex_login_env S) 90000000 ri rn pay ex_login_user blank_session d
      = (Ask_factor, await_factor 90000000 7 [Totp] (suspicious_reasons (ex_login_env S) 90000000 ri ex_login_user pay d) blank_session, d)"
    using ex_methods [of 90000000 "''login''" "client ri" 10 60]
    by (simp add: first_step_def begin_login_def Let_def d_def [symmetric])
  ultimately show ?thesis
    using ex_first_hit [of 90000000 "''login''" "client ri"]
    by (simp add: login_view_def case_prod_unfold Let_def d_def [symmetric] take_ex_name strips)
qed

lemma ex_code_accepted:
  assumes e: "security_row 7 e = security_row 7 ex_account_db" "ac_used e = []"
  shows "verify_totp (ex_login_env S) 100000000 7 None ''3'' e = (True, e\<lparr>ac_used := [(7, 3, 100000000)]\<rparr>)"
proof -
  have step: "totp_step (ex_login_env S) 100000000 ''s'' ''3'' = Some 3"
    by (simp add: totp_step_def ex_login_env_def first_where_def) code_simp
  have typed: "filter (\<lambda>c. c \<noteq> CHR '' '') (strip ''3'') = ''3''" "list_all is_digit ''3''" by code_simp+
  show ?thesis
    using typed by (simp add: verify_totp_def security_for_def e ex_security Let_def blank_security_def step step_used_def exists_where_def)
qed

lemma ex_signed_in:
  "ws_user (wb_browser (web_run (ex_login_env S) ex_sign_in (ex_web pay)) 0) = Some 7
    \<and> ac_used (wb_db (web_run (ex_login_env S) ex_sign_in (ex_web pay))) = [(7, 3, 100000000)]"
proof -
  define ri where "ri = wc_from (ex_call 0 Sign_out)"
  define rn where "rn = wc_random (ex_call 0 Sign_out)"
  define d where "d = snd (count_hit 90000000 ''login'' (client ri) 10 60 ex_account_db)"
  define s where "s = await_factor 90000000 7 [Totp] (suspicious_reasons (ex_login_env S) 90000000 ri ex_login_user pay d) blank_session"
  define w where "w = \<lparr>wb_browser = (\<lambda>b. blank_session)(0 := s), wb_db = d, wb_pay = pay\<rparr>"
  have call: "wc_browser (ex_call t r) = 0" "wc_now (ex_call t r) = t" "wc_from (ex_call t r) = ri" "wc_random (ex_call t r) = rn"
    "wc_request (ex_call t r) = r" for t r
    by (simp_all add: ex_call_def ri_def rn_def)
  have anon: "current_user blank_session db = None" "current_user s db = None" for db
    by (simp_all add: current_user_def s_def) (simp_all add: blank_session_def)
  have first: "serve_web (ex_login_env S) (ex_call 90000000 (Sign_in ''ama'' ''kente'')) (ex_web pay) = (Ask_factor, w)"
    by (simp add: serve_web_def session_middleware_def serve_view_def call anon ex_web_def put_browser_def ex_login_view Let_def
        fun_upd_def) (simp add: s_def d_def w_def fun_upd_def fun_eq_iff)
  define e where "e = snd (count_hit 100000000 ''mfa'' (client ri) 10 60 d)"
  have "user_with_id 7 e = Some ex_login_user"
    by (simp add: user_with_id_def e_def d_def first_where_def) (simp add: ex_login_user_def)
  then have pending: "pending_user 100000000 s e = Some (ex_login_user,
      \<lparr>pe_user = 7, pe_at = 90, pe_methods = [Totp], pe_reasons = suspicious_reasons (ex_login_env S) 90000000 ri ex_login_user pay d\<rparr>)"
    by (simp add: pending_user_def s_def pending_ttl_def)
  have three: "strip ''3'' = ''3''" by code_simp
  have hit2: "fst (count_hit 100000000 ''mfa'' (client ri) 10 60 d)"
    by (simp add: count_hit_def hit_def counter_def d_def ex_account_db_def bucket_of_def Let_def)
  have "check_factor (ex_login_env S) 100000000 ''totp'' ''3'' ex_login_user
      \<lparr>pe_user = 7, pe_at = 90, pe_methods = [Totp], pe_reasons = suspicious_reasons (ex_login_env S) 90000000 ri ex_login_user pay d\<rparr> s e
      = (True, e\<lparr>ac_used := [(7, 3, 100000000)]\<rparr>)"
    using ex_code_accepted [of e S] by (simp add: check_factor_def three e_def d_def)
  then have second: "snd (serve_web (ex_login_env S) (ex_call 100000000 (Give_factor ''totp'' ''3'')) w)
      = w\<lparr>wb_browser := (wb_browser w)(0 := fst (complete_login 100000000 ri (rn_key rn) ex_login_user s (e\<lparr>ac_used := [(7, 3, 100000000)]\<rparr>))),
          wb_db := snd (complete_login 100000000 ri (rn_key rn) ex_login_user s (e\<lparr>ac_used := [(7, 3, 100000000)]\<rparr>))\<rparr>"
    using pending hit2
    by (simp add: serve_web_def session_middleware_def serve_view_def call anon put_browser_def Let_def mfa_view_def case_prod_unfold
        e_def [symmetric] w_def)
  show ?thesis by (simp add: first second)
qed

theorem sign_in_needs_factors_witness:
  "\<forall>S pay. ws_user (wb_browser (web_run (ex_login_env S) ex_sign_in (ex_web pay)) 0) = Some 7
     \<and> signed_in_properly (ex_login_env S) (ex_web pay) ex_sign_in 0 7"
  using sign_in_needs_factors [OF _ _ conjunct1 [OF ex_signed_in]] ex_signed_in by (simp add: ex_web_def blank_session_def)

theorem authenticator_code_once_witness:
  "\<forall>S pay. \<exists>secret k. \<bar>k - 100000000 div 1000000 div 30\<bar> \<le> 1
     \<and> le_totp (ex_login_env S) secret (k * 30) = filter (\<lambda>x. x \<noteq> CHR '' '') (strip ''3'')"
proof (intro allI)
  fix S pay
  have db: "wb_db (web_run (ex_login_env S) [] (ex_web pay)) = ex_account_db" "ac_used (wb_db (ex_web pay)) = []"
    by (simp_all add: ex_web_def)
  have "verify_totp (ex_login_env S) 100000000 7 None ''3'' (wb_db (web_run (ex_login_env S) [] (ex_web pay)))
      = (True, ex_account_db\<lparr>ac_used := [(7, 3, 100000000)]\<rparr>)"
    unfolding db(1) by (rule ex_code_accepted) simp_all
  from authenticator_code_once [OF db(2) this]
  show "\<exists>secret k. \<bar>k - 100000000 div 1000000 div 30\<bar> \<le> 1
     \<and> le_totp (ex_login_env S) secret (k * 30) = filter (\<lambda>x. x \<noteq> CHR '' '') (strip ''3'')" by blast
qed

end
