(* ===== verification/Forms.thy ===== *)
theory Forms
  imports Tally
begin

text \<open>
  What voting/views.py reads from a form: \<open>Decimal\<close> and \<open>int\<close> fields that must not be negative,
  and the guard against formulas in exported cells. A missing field is \<open>None\<close>.
\<close>

datatype field_error = Missing_field | Malformed_field | Negative_field

section \<open>Python's \<open>Decimal\<close> of a text\<close>

text \<open>
  An optional sign, digits with an optional point, an optional exponent; underscores and
  surrounding space are dropped. Infinities and not-a-number are read as malformed, which is what
  the caller makes of them.
\<close>

definition digits_before :: "string \<Rightarrow> string \<times> string" where
  "digits_before s = (takeWhile is_digit s, dropWhile is_digit s)"

definition digits_number :: "string \<Rightarrow> nat" where
  "digits_number ds = fold (\<lambda>c n. n * 10 + digit_value c) ds 0"

definition exponent_of :: "string \<Rightarrow> int option" where
  "exponent_of s =
     (case s of
        [] \<Rightarrow> Some 0
      | e # t \<Rightarrow>
          if e \<notin> {CHR ''e'', CHR ''E''} then None
          else
            let (sign, ds) = (case t of
                CHR ''-'' # ds \<Rightarrow> (- 1, ds) | CHR ''+'' # ds \<Rightarrow> (1, ds) | _ \<Rightarrow> (1, t))
            in if ds = [] \<or> \<not> list_all is_digit ds then None else Some (sign * int (digits_number ds)))"

definition scaled :: "nat \<Rightarrow> int \<Rightarrow> rat" where
  "scaled n e = (if 0 \<le> e then of_nat n * 10 ^ nat e else of_nat n / 10 ^ nat (- e))"

definition unsigned_decimal :: "string \<Rightarrow> rat option" where
  "unsigned_decimal s =
     (let (whole, rest) = digits_before s;
          (part, tail) = (case rest of CHR ''.'' # r \<Rightarrow> digits_before r | _ \<Rightarrow> ([], rest))
      in if whole = [] \<and> part = [] then None
         else map_option (\<lambda>e. scaled (digits_number (whole @ part)) (e - int (length part))) (exponent_of tail))"

definition decimal_of :: "string \<Rightarrow> rat option" where
  "decimal_of raw =
     (let s = filter (\<lambda>c. c \<noteq> CHR ''_'') (strip raw)
      in case s of
           CHR ''-'' # r \<Rightarrow> map_option uminus (unsigned_decimal r)
         | CHR ''+'' # r \<Rightarrow> unsigned_decimal r
         | _ \<Rightarrow> unsigned_decimal s)"

text \<open>Two decimals, half to even: \<open>quantize\<close>, and what a decimal column stores.\<close>

definition to_cents :: "rat \<Rightarrow> rat" where
  "to_cents x = of_int (round_even (x * 100)) / 100"

section \<open>Fields\<close>

definition parse_non_negative_decimal :: "string option \<Rightarrow> bool \<Rightarrow> field_error + rat option" where
  "parse_non_negative_decimal raw required =
     (case raw of
        None \<Rightarrow> if required then Inl Missing_field else Inr None
      | Some s \<Rightarrow>
          if strip s = [] then (if required then Inl Missing_field else Inr None)
          else case decimal_of s of
                 None \<Rightarrow> Inl Malformed_field
               | Some v \<Rightarrow> if v < 0 then Inl Negative_field else Inr (Some v))"

definition parse_non_negative_int :: "string option \<Rightarrow> bool \<Rightarrow> field_error + int option" where
  "parse_non_negative_int raw required =
     (case raw of
        None \<Rightarrow> if required then Inl Missing_field else Inr None
      | Some s \<Rightarrow>
          if strip s = [] then (if required then Inl Missing_field else Inr None)
          else case parse_int s of
                 None \<Rightarrow> Inl Malformed_field
               | Some v \<Rightarrow> if v < 0 then Inl Negative_field else Inr (Some v))"

definition sanitize_csv_value :: "string \<Rightarrow> string" where
  "sanitize_csv_value v =
     (case v of c # _ \<Rightarrow> if c \<in> set ''=+-@'' \<or> c \<in> {CHR 0x09, CHR 0x0D} then CHR 0x27 # v else v | [] \<Rightarrow> v)"

lemma parsed_decimal: "parse_non_negative_decimal raw required = Inr (Some v) \<Longrightarrow> 0 \<le> v"
  by (auto simp: parse_non_negative_decimal_def split: option.splits if_splits)

lemma parsed_int: "parse_non_negative_int raw required = Inr (Some v) \<Longrightarrow> 0 \<le> v"
  by (auto simp: parse_non_negative_int_def split: option.splits if_splits)

lemma required_decimal [simp]: "parse_non_negative_decimal raw True \<noteq> Inr None"
  by (auto simp: parse_non_negative_decimal_def split: option.splits if_splits)

lemma required_int [simp]: "parse_non_negative_int raw True \<noteq> Inr None"
  by (auto simp: parse_non_negative_int_def split: option.splits if_splits)

end
