(* ===== verification/Tickets.thy ===== *)
theory Tickets
  imports Forms Payments
begin

text \<open>
  The ticket shop of voting/views.py with \<open>Ticket\<close> and \<open>TicketPurchase\<close> of voting/models.py:
  ticket types and their stock, purchases over the web, the gateway's answer, the scan at the
  door, and the free tie-breaker vote that a web ticket carries.

  The shop is that of one election. Whether the gateway accepted a checkout is an argument;
  images, the text of QR codes and the mail with the ticket are left out.
\<close>

record ticket_type =
  tt_id :: int
  tt_name :: string
  tt_price :: rat
  tt_old :: "rat option"
  tt_available :: int
  tt_active :: bool

record sale =
  sl_reference :: string
  sl_ticket :: int
  sl_name :: string
  sl_email :: string
  sl_quantity :: int
  sl_status :: ticket_status
  sl_web :: bool
  sl_checked :: "int option"
  sl_voted :: bool
  sl_at :: int

record shop =
  sh_election :: election_db
  sh_tie_breaker :: bool
  sh_tickets :: "ticket_type list"
  sh_sales :: "sale list"
  sh_counters :: counters

record shop_settings =
  sp_configured :: bool
  sp_email_ok :: "string \<Rightarrow> bool"

datatype shop_error =
    Shop_denied | No_such_ticket | Bad_field field_error | Name_missing | Bad_quantity | Bad_email | Shop_unavailable
  | Sold_out | Reference_clash | Checkout_refused | Too_many_tries | Voting_closed | Not_a_reference | Candidate_inactive
  | Unknown_reference | Not_paid | Already_voted | Not_for_web | Already_checked int | Secret_election

abbreviation sh_event :: "shop \<Rightarrow> event" where
  "sh_event sh \<equiv> db_event (sh_election sh)"

abbreviation sh_ledger :: "shop \<Rightarrow> ledger_vote list" where
  "sh_ledger sh \<equiv> db_ledger (sh_election sh)"

section \<open>Stock\<close>

definition ticket_row :: "int \<Rightarrow> shop \<Rightarrow> ticket_type option" where
  "ticket_row i sh = first_where (\<lambda>t. tt_id t = i) (sh_tickets sh)"

definition sale_row :: "string \<Rightarrow> shop \<Rightarrow> sale option" where
  "sale_row r sh = first_where (\<lambda>x. sl_reference x = r) (sh_sales sh)"

definition change_sale :: "string \<Rightarrow> (sale \<Rightarrow> sale) \<Rightarrow> shop \<Rightarrow> shop" where
  "change_sale r f sh = sh\<lparr>sh_sales := update_where (\<lambda>x. sl_reference x = r) f (sh_sales sh)\<rparr>"

definition sold_count :: "int \<Rightarrow> shop \<Rightarrow> int" where
  "sold_count i sh = sum_list (map sl_quantity (filter (\<lambda>x. sl_ticket x = i \<and> sl_status x = TICKET_SUCCESS) (sh_sales sh)))"

definition remaining :: "ticket_type \<Rightarrow> shop \<Rightarrow> int" where
  "remaining t sh = tt_available t - sold_count (tt_id t) sh"

definition reserved_count :: "int \<Rightarrow> shop \<Rightarrow> int" where
  "reserved_count i sh =
     sum_list (map sl_quantity (filter (\<lambda>x. sl_ticket x = i \<and> sl_status x \<in> {TICKET_SUCCESS, TICKET_PENDING}) (sh_sales sh)))"

definition discount_percentage :: "ticket_type \<Rightarrow> int" where
  "discount_percentage t =
     (case tt_old t of
        Some old \<Rightarrow> if old \<noteq> 0 \<and> tt_price t < old then \<lfloor>(old - tt_price t) / old * 100\<rfloor> else 0
      | None \<Rightarrow> 0)"

section \<open>Managing ticket types\<close>

record ticket_form =
  tf_name :: "string option"
  tf_price :: "string option"
  tf_old :: "string option"
  tf_quantity :: "string option"
  tf_active :: bool

text \<open>Price, old price and quantity, or the first error.\<close>

definition read_ticket_form :: "ticket_form \<Rightarrow> field_error + rat \<times> rat option \<times> int" where
  "read_ticket_form f =
     (case parse_non_negative_decimal (tf_price f) True of
        Inl e \<Rightarrow> Inl e
      | Inr price \<Rightarrow>
          (case parse_non_negative_decimal (tf_old f) False of
             Inl e \<Rightarrow> Inl e
           | Inr old \<Rightarrow>
               (case parse_non_negative_int (tf_quantity f) True of
                  Inl e \<Rightarrow> Inl e
                | Inr n \<Rightarrow> Inr (case price of Some p \<Rightarrow> p | None \<Rightarrow> 0, old, case n of Some k \<Rightarrow> k | None \<Rightarrow> 0))))"

definition may_manage :: "account \<Rightarrow> shop \<Rightarrow> bool" where
  "may_manage actor sh \<longleftrightarrow>
     check_perm (db_tenancy (sh_election sh)) (Some actor) ''ticket.manage'' (Election (sh_event sh)) = Inr ()"

definition shop_note :: "string \<Rightarrow> account option \<Rightarrow> string \<times> string \<Rightarrow> shop \<Rightarrow> shop" where
  "shop_note t actor target sh = sh\<lparr>sh_election := log_note (note_about t actor target (sh_election sh)) (sh_election sh)\<rparr>"

definition create_ticket :: "account \<Rightarrow> ticket_form \<Rightarrow> shop \<Rightarrow> shop_error + shop" where
  "create_ticket actor f sh =
     (if \<not> may_manage actor sh then Inl Shop_denied
      else
        let name = take 100 (strip (case tf_name f of Some n \<Rightarrow> n | None \<Rightarrow> []))
        in case read_ticket_form f of
             Inl e \<Rightarrow> Inl (Bad_field e)
           | Inr (price, old, n) \<Rightarrow>
               if name = [] then Inl Name_missing
               else
                 let t = \<lparr>tt_id = next_pk tt_id (sh_tickets sh), tt_name = name, tt_price = to_cents price, tt_old = map_option to_cents old,
                          tt_available = n, tt_active = True\<rparr>
                 in Inr (shop_note ''TICKET_TYPE_CREATED'' (Some actor) (''voting.Ticket'', str_int (tt_id t))
                           (sh\<lparr>sh_tickets := sh_tickets sh @ [t]\<rparr>)))"

definition edit_ticket :: "account \<Rightarrow> int \<Rightarrow> ticket_form \<Rightarrow> shop \<Rightarrow> shop_error + shop" where
  "edit_ticket actor i f sh =
     (case ticket_row i sh of
        None \<Rightarrow> Inl No_such_ticket
      | Some t \<Rightarrow>
          if \<not> may_manage actor sh then Inl Shop_denied
          else case read_ticket_form f of
                 Inl e \<Rightarrow> Inl (Bad_field e)
               | Inr (price, old, n) \<Rightarrow>
                   (let name = take 100 (strip (case tf_name f of Some x \<Rightarrow> if x = [] then tt_name t else x | None \<Rightarrow> tt_name t))
                    in Inr (shop_note ''TICKET_TYPE_UPDATED'' (Some actor) (''voting.Ticket'', str_int i)
                         (sh\<lparr>sh_tickets := update_where (\<lambda>x. tt_id x = i)
                             (\<lambda>x. x\<lparr>tt_name := name, tt_price := to_cents price, tt_old := map_option to_cents old, tt_available := n, tt_active := tf_active f\<rparr>)
                             (sh_tickets sh)\<rparr>))))"

text \<open>A ticket type with sales is hidden; without, it goes with its unpaid purchases.\<close>

definition delete_ticket :: "account \<Rightarrow> int \<Rightarrow> shop \<Rightarrow> shop_error + shop" where
  "delete_ticket actor i sh =
     (case ticket_row i sh of
        None \<Rightarrow> Inl No_such_ticket
      | Some t \<Rightarrow>
          if \<not> may_manage actor sh then Inl Shop_denied
          else if exists_where (\<lambda>x. sl_ticket x = i \<and> sl_status x = TICKET_SUCCESS) (sh_sales sh)
          then Inr (sh\<lparr>sh_tickets := update_where (\<lambda>x. tt_id x = i) (\<lambda>x. x\<lparr>tt_active := False\<rparr>) (sh_tickets sh)\<rparr>)
          else Inr ((shop_note ''TICKET_TYPE_DELETED'' (Some actor) (''voting.Ticket'', str_int i) sh)
                 \<lparr>sh_tickets := filter (\<lambda>x. tt_id x \<noteq> i) (sh_tickets sh),
                  sh_sales := filter (\<lambda>x. sl_ticket x \<noteq> i) (sh_sales sh)\<rparr>))"

section \<open>Buying\<close>

definition ticket_reference :: "nat list \<Rightarrow> string" where
  "ticket_reference choices = ''TK-'' @ access_code (take 10 choices)"

definition new_sale :: "int \<Rightarrow> ticket_type \<Rightarrow> string \<Rightarrow> string \<Rightarrow> int \<Rightarrow> string \<Rightarrow> bool \<Rightarrow> sale" where
  "new_sale now t name email q r web =
     \<lparr>sl_reference = r, sl_ticket = tt_id t, sl_name = name, sl_email = email, sl_quantity = q, sl_status = TICKET_PENDING,
      sl_web = web, sl_checked = None, sl_voted = False, sl_at = now\<rparr>"

text \<open>The reservation, under a lock on the ticket type.\<close>

definition reserve :: "int \<Rightarrow> ticket_type \<Rightarrow> string \<Rightarrow> string \<Rightarrow> int \<Rightarrow> string \<Rightarrow> bool \<Rightarrow> shop \<Rightarrow> shop_error + shop" where
  "reserve now t name email q r web sh =
     (if tt_available t < reserved_count (tt_id t) sh + q then Inl Sold_out
      else if sale_row r sh \<noteq> None then Inl Reference_clash
      else Inr (sh\<lparr>sh_sales := sh_sales sh @ [new_sale now t name email q r web]\<rparr>))"

text \<open>The purchase stays, failed, when the gateway does not take the checkout.\<close>

definition after_gateway :: "bool \<Rightarrow> string \<Rightarrow> shop \<Rightarrow> (shop_error + string) \<times> shop" where
  "after_gateway accepted r sh =
     (if accepted then (Inr r, sh) else (Inl Checkout_refused, change_sale r (\<lambda>x. x\<lparr>sl_status := TICKET_FAILED\<rparr>) sh))"

definition shop_client :: "request_info \<Rightarrow> string" where
  "shop_client ri = (case ri_ip ri of Some a \<Rightarrow> a | None \<Rightarrow> ''unknown'')"

definition buy_ticket ::
  "shop_settings \<Rightarrow> int \<Rightarrow> request_info \<Rightarrow> int \<Rightarrow> string \<Rightarrow> string \<Rightarrow> string \<Rightarrow> nat list \<Rightarrow> bool \<Rightarrow> shop
    \<Rightarrow> (shop_error + string) \<times> shop" where
  "buy_ticket S now ri i name email quantity choices accepted sh0 =
     (let ((allowed, wait), cs) = hit now ''buy-ticket'' (shop_client ri) 10 60 (sh_counters sh0);
          sh = sh0\<lparr>sh_counters := cs\<rparr>
      in if \<not> allowed then (Inl Too_many_tries, sh)
         else case first_where (\<lambda>t. tt_id t = i \<and> tt_active t) (sh_tickets sh) of
                None \<Rightarrow> (Inl No_such_ticket, sh)
              | Some t \<Rightarrow>
                  (case parse_non_negative_int (Some quantity) True of
                     Inl e \<Rightarrow> (Inl (Bad_field e), sh)
                   | Inr None \<Rightarrow> (Inl Bad_quantity, sh)
                   | Inr (Some q) \<Rightarrow>
                       if \<not> sp_email_ok S (strip email) then (Inl Bad_email, sh)
                       else if q < 1 \<or> 50 < q then (Inl Bad_quantity, sh)
                       else if \<not> sp_configured S then (Inl Shop_unavailable, sh)
                       else case reserve now t (take 150 (strip name)) (strip email) q (ticket_reference choices) True sh of
                              Inl e \<Rightarrow> (Inl e, sh)
                            | Inr sh1 \<Rightarrow> after_gateway accepted (ticket_reference choices) sh1))"

section \<open>The gateway's answer\<close>

definition sale_price :: "sale \<Rightarrow> shop \<Rightarrow> rat" where
  "sale_price x sh = (case ticket_row (sl_ticket x) sh of Some t \<Rightarrow> tt_price t | None \<Rightarrow> 0)"

text \<open>The purchase as the payments see it.\<close>

definition as_purchase :: "shop \<Rightarrow> sale \<Rightarrow> ticket_purchase" where
  "as_purchase sh x = \<lparr>tp_reference = sl_reference x, tp_price = sale_price x sh, tp_quantity = sl_quantity x,
     tp_status = sl_status x, tp_purchased = sl_at x\<rparr>"

definition ticket_answer :: "string \<Rightarrow> charge \<Rightarrow> shop \<Rightarrow> shop" where
  "ticket_answer r ch sh =
     (case sale_row r sh of
        None \<Rightarrow> sh
      | Some x \<Rightarrow>
          if sl_status x \<noteq> TICKET_PENDING then sh
          else if lower (ch_status ch) = ''success'' then
            (if ch_amount ch \<noteq> minor_units (expected_amount (as_purchase sh x)) then sh
             else change_sale r (\<lambda>y. y\<lparr>sl_status := TICKET_SUCCESS\<rparr>) sh)
          else if lower (ch_status ch) \<in> {''failed'', ''abandoned'', ''reversed''}
          then change_sale r (\<lambda>y. y\<lparr>sl_status := TICKET_FAILED\<rparr>) sh
          else sh)"

text \<open>The purchase was not paid in time (\<open>expire_abandoned\<close>).\<close>

definition expire_sale :: "string \<Rightarrow> charge option \<Rightarrow> shop \<Rightarrow> shop" where
  "expire_sale r answer sh =
     (let sh1 = (case answer of None \<Rightarrow> sh | Some ch \<Rightarrow> ticket_answer r ch sh)
      in sh1\<lparr>sh_sales := update_where (\<lambda>x. sl_reference x = r \<and> sl_status x = TICKET_PENDING)
               (\<lambda>x. x\<lparr>sl_status := TICKET_FAILED\<rparr>) (sh_sales sh1)\<rparr>)"

section \<open>Using a ticket\<close>

definition upper_code :: "string \<Rightarrow> string" where
  "upper_code raw = upper (strip raw)"

text \<open>\<open>cast_vote_with_code\<close>: the free vote of a web ticket, once, worth its quantity.\<close>

definition cast_vote_with_code ::
  "int \<Rightarrow> request_info \<Rightarrow> string \<Rightarrow> string \<Rightarrow> candidate \<Rightarrow> shop \<Rightarrow> (shop_error + int) \<times> shop" where
  "cast_vote_with_code now ri raw token ca sh =
     (let ev = sh_event sh; code = upper_code raw in
      if is_institutional ev then (Inl Secret_election, sh)
      else if \<not> accepting_votes now ev then (Inl Voting_closed, sh)
      else
        let ((allowed, wait), cs) = hit now ''ticket-vote'' (shop_client ri) 20 60 (sh_counters sh);
            sh1 = sh\<lparr>sh_counters := cs\<rparr>
        in if \<not> allowed then (Inl Too_many_tries, sh1)
           else if \<not> starts_with ''TK-'' code \<or> \<not> sh_tie_breaker sh then (Inl Not_a_reference, sh1)
           else if ca_status ca \<noteq> ACTIVE then (Inl Candidate_inactive, sh1)
           else case sale_row code sh1 of
                  None \<Rightarrow> (Inl Unknown_reference, sh1)
                | Some x \<Rightarrow>
                    if sl_status x \<noteq> TICKET_SUCCESS then (Inl Not_paid, sh1)
                    else if sl_voted x then (Inl Already_voted, sh1)
                    else if \<not> sl_web x then (Inl Not_for_web, sh1)
                    else
                      let v = \<lparr>lv_reference = ''TB-'' @ token, lv_payment = None, lv_candidate = ca_id ca,
                               lv_votes = sl_quantity x, lv_status = LEDGER_SUCCESS, lv_main = False, lv_amount = 0\<rparr>
                      in (Inr (sl_quantity x),
                          (change_sale code (\<lambda>y. y\<lparr>sl_voted := True\<rparr>) sh1)
                            \<lparr>sh_election := (sh_election sh1)\<lparr>db_ledger := db_ledger (sh_election sh1) @ [v]\<rparr>\<rparr>))"

text \<open>The reference of a scanned code: the first line that starts with \<open>REF:\<close>.\<close>

fun remove_all :: "nat \<Rightarrow> string \<Rightarrow> string \<Rightarrow> string" where
  "remove_all 0 p s = s"
| "remove_all (Suc n) p [] = []"
| "remove_all (Suc n) p (c # s) =
     (if p \<noteq> [] \<and> starts_with p (c # s) then remove_all n p (drop (length p) (c # s)) else c # remove_all n p s)"

definition scanned_reference :: "string \<Rightarrow> string" where
  "scanned_reference t =
     (case first_where (starts_with ''REF:'') (split_on (CHR 0x0A) (take 1000 t)) of
        None \<Rightarrow> []
      | Some l \<Rightarrow> strip (remove_all (length l) ''REF:'' l))"

definition process_scan :: "int \<Rightarrow> account \<Rightarrow> string \<Rightarrow> shop \<Rightarrow> shop_error + shop" where
  "process_scan now actor t sh =
     (let r = scanned_reference t in
      if \<not> may_manage actor sh then Inl Shop_denied
      else if r = [] then Inl Not_a_reference
      else case sale_row r sh of
             None \<Rightarrow> Inl Unknown_reference
           | Some x \<Rightarrow>
               if sl_status x \<noteq> TICKET_SUCCESS then Inl Not_paid
               else case sl_checked x of
                      Some was \<Rightarrow> Inl (Already_checked was)
                    | None \<Rightarrow> Inr (shop_note ''TICKET_CHECKED_IN'' (Some actor) (''voting.TicketPurchase'', r)
                                (change_sale r (\<lambda>y. y\<lparr>sl_checked := Some now\<rparr>) sh)))"

text \<open>\<open>verify_ticket_view\<close> and \<open>retrieve_ticket_view\<close>: what a reference or a phone number finds.\<close>

definition verify_ticket :: "string \<Rightarrow> shop \<Rightarrow> sale option" where
  "verify_ticket raw sh =
     (case sale_row (upper_code raw) sh of Some x \<Rightarrow> if sl_status x = TICKET_SUCCESS then Some x else None | None \<Rightarrow> None)"

definition phone_address :: "string \<Rightarrow> string" where
  "phone_address phone = filter (\<lambda>c. c \<noteq> CHR ''+'' \<and> c \<noteq> CHR '' '') phone @ ''@ussd.vote''"

definition retrieve_ticket :: "string \<Rightarrow> shop \<Rightarrow> sale option" where
  "retrieve_ticket raw sh =
     (let given = take 40 (strip raw) in
      if starts_with ''TK-'' (upper given) then
        (case sale_row (upper given) sh of Some x \<Rightarrow> if sl_status x = TICKET_SUCCESS then Some x else None | None \<Rightarrow> None)
      else first_where (\<lambda>x. sl_email x = phone_address given \<and> sl_status x = TICKET_SUCCESS) (rev (sh_sales sh)))"

text \<open>The lines of the exported guest list, newest first, with cells that no spreadsheet runs.\<close>

definition guest_lines :: "shop \<Rightarrow> (string \<times> string \<times> string \<times> int \<times> string \<times> int) list" where
  "guest_lines sh =
     map (\<lambda>x. (sanitize_csv_value (sl_name x), sanitize_csv_value (sl_email x),
                sanitize_csv_value (case ticket_row (sl_ticket x) sh of Some t \<Rightarrow> tt_name t | None \<Rightarrow> []),
                sl_quantity x, sanitize_csv_value (sl_reference x), sl_at x))
       (rev (filter (\<lambda>x. sl_status x = TICKET_SUCCESS) (sh_sales sh)))"

end
