(* ===== verification/Ussd.thy ===== *)
theory Ussd
  imports Tickets Checkout
begin

text \<open>
  The USSD menus of voting/views.py: votes and tickets bought from a telephone with mobile
  money. The text of a session is everything typed so far, separated by stars, so every request
  walks the menu from the start. What the screen says is a constructor of the reply; \<open>End\<close> replies
  close the session.

  The paid election is the one of the payments' database; the shops, in order of their election,
  are those that sell tickets.
\<close>

record ussd_settings =
  uz_pay :: pay_settings
  uz_token :: string
  uz_networks :: "string list"
  uz_nominees :: "(string \<times> candidate) list"
  uz_providers :: "(string \<times> string list) list"

record ussd_call =
  uc_token :: string
  uc_request :: request_info
  uc_phone :: string
  uc_text :: string
  uc_session :: string
  uc_choices :: "nat list"
  uc_answer :: "(string \<times> string) option"
  uc_accepted :: bool

datatype ussd_reply =
    Menu | Ask_nominee | Ask_votes | Confirm_votes rat int | Ask_event "int list" | Ask_ticket "int list" | Ask_quantity
  | Ask_buyer rat | Confirm_tickets rat int | End_forbidden | End_invalid | End_no_nominee | End_no_number | End_cancelled
  | End_no_events | End_no_tickets | End_no_money | End_sold_out | End_failed | End_refused pay_error | End_approve string

text \<open>Python's index: a negative one counts from the end.\<close>

definition py_index :: "'a list \<Rightarrow> int \<Rightarrow> 'a option" where
  "py_index xs i =
     (let n = int (length xs) in
      if 0 \<le> i \<and> i < n then Some (xs ! nat i)
      else if - n \<le> i \<and> i < 0 then Some (xs ! nat (n + i))
      else None)"

definition ussd_authorized :: "ussd_settings \<Rightarrow> ussd_call \<Rightarrow> bool" where
  "ussd_authorized Z c \<longleftrightarrow>
     (uz_token Z = [] \<or> uc_token c = uz_token Z)
     \<and> (uz_networks Z = [] \<or> (case ri_ip (uc_request c) of Some a \<Rightarrow> a \<in> set (uz_networks Z) | None \<Rightarrow> False))"

text \<open>The provider of a Ghanaian number and the number in its local form.\<close>

definition ghana_momo_provider :: "ussd_settings \<Rightarrow> string \<Rightarrow> string option \<times> string" where
  "ghana_momo_provider Z phone =
     (let ds = filter is_digit phone;
          local = (if starts_with ''233'' ds then CHR ''0'' # drop 3 ds else ds)
      in (map_option fst (first_where (\<lambda>(p, prefixes). take 3 local \<in> set prefixes) (uz_providers Z)), local))"

definition nth_input :: "nat \<Rightarrow> string list \<Rightarrow> string" where
  "nth_input n inputs = (if n < length inputs then inputs ! n else [])"

section \<open>Votes\<close>

definition ussd_checkout :: "ussd_call \<Rightarrow> candidate \<Rightarrow> int \<Rightarrow> checkout" where
  "ussd_checkout c ca votes =
     \<lparr>ck_candidate = ca, ck_votes = str_int votes, ck_package = None, ck_code = [], ck_email = [], ck_phone = take 20 (uc_phone c),
      ck_name = [], ck_key = (let i = take 100 (uc_session c) in if i = [] then [] else ''ussd:'' @ i),
      ck_channel = ''mobile_money'', ck_request = uc_request c, ck_choices = uc_choices c, ck_answer = uc_answer c\<rparr>"

definition ussd_vote :: "ussd_settings \<Rightarrow> int \<Rightarrow> ussd_call \<Rightarrow> string list \<Rightarrow> pay_db \<Rightarrow> ussd_reply \<times> pay_db" where
  "ussd_vote Z now c inputs db =
     (let ev = pd_event db in
      if length inputs = 1 then (Ask_nominee, db)
      else case map_of (uz_nominees Z) (upper (strip (nth_input 1 inputs))) of
             None \<Rightarrow> (End_no_nominee, db)
           | Some ca \<Rightarrow>
               if \<not> is_paid ev \<or> \<not> accepting_votes now ev then (End_no_nominee, db)
               else if length inputs = 2 then (Ask_votes, db)
               else case parse_int (nth_input 2 inputs) of
                      None \<Rightarrow> (End_no_number, db)
                    | Some votes \<Rightarrow>
                        (let total = to_cents (ev_price ev * of_int votes) in
                         if votes < 1 then (End_no_number, db)
                         else if length inputs = 3 then (Confirm_votes total votes, db)
                         else if nth_input 3 inputs \<noteq> ''1'' then (End_cancelled, db)
                         else if fst (ghana_momo_provider Z (take 20 (uc_phone c))) = None then (End_no_money, db)
                         else case initiate_vote_payment (uz_pay Z) now (ussd_checkout c ca votes) db of
                                (Inl e, db1) \<Rightarrow> (End_refused e, db1)
                              | (Inr r, db1) \<Rightarrow> (End_approve r, db1)))"

section \<open>Tickets\<close>

definition selling :: "shop \<Rightarrow> bool" where
  "selling sh \<longleftrightarrow> is_public (sh_event sh) \<and> exists_where tt_active (sh_tickets sh)"

definition put_shop :: "shop \<Rightarrow> shop list \<Rightarrow> shop list" where
  "put_shop sh shops = update_where (\<lambda>x. ev_id (sh_event x) = ev_id (sh_event sh)) (\<lambda>_. sh) shops"

definition buy_by_phone :: "ussd_settings \<Rightarrow> int \<Rightarrow> ussd_call \<Rightarrow> ticket_type \<Rightarrow> string \<Rightarrow> int \<Rightarrow> shop \<Rightarrow> ussd_reply \<times> shop" where
  "buy_by_phone Z now c t name q sh =
     (let r = ticket_reference (uc_choices c) in
      case reserve now t name (phone_address (take 20 (uc_phone c))) q r False sh of
        Inl Sold_out \<Rightarrow> (End_sold_out, sh)
      | Inl _ \<Rightarrow> (End_failed, sh)
      | Inr sh1 \<Rightarrow>
          (case after_gateway (uc_accepted c) r sh1 of
             (Inl e, sh2) \<Rightarrow> (End_failed, sh2)
           | (Inr _, sh2) \<Rightarrow> (End_approve r, sh2)))"

definition ussd_ticket :: "ussd_settings \<Rightarrow> int \<Rightarrow> ussd_call \<Rightarrow> string list \<Rightarrow> shop list \<Rightarrow> ussd_reply \<times> shop list" where
  "ussd_ticket Z now c inputs shops =
     (let open_shops = filter selling shops in
      if length inputs = 1
      then (if open_shops = [] then End_no_events else Ask_event (map (\<lambda>sh. ev_id (sh_event sh)) open_shops), shops)
      else case Option.bind (parse_int (nth_input 1 inputs)) (\<lambda>i. py_index open_shops (i - 1)) of
             None \<Rightarrow> (End_invalid, shops)
           | Some sh \<Rightarrow>
               (let tickets = filter tt_active (sh_tickets sh) in
                if length inputs = 2 then (if tickets = [] then End_no_tickets else Ask_ticket (map tt_id tickets), shops)
                else case Option.bind (parse_int (nth_input 2 inputs)) (\<lambda>i. py_index tickets (i - 1)) of
                       None \<Rightarrow> (End_invalid, shops)
                     | Some t \<Rightarrow>
                         if length inputs = 3 then (Ask_quantity, shops)
                         else case parse_int (nth_input 3 inputs) of
                                None \<Rightarrow> (End_no_number, shops)
                              | Some q \<Rightarrow>
                                  if q < 1 \<or> 20 < q then (End_no_number, shops)
                                  else if length inputs = 4 then (Ask_buyer (tt_price t * of_int q), shops)
                                  else if length inputs = 5 then (Confirm_tickets (tt_price t * of_int q) q, shops)
                                  else if nth_input 5 inputs \<noteq> ''1'' then (End_cancelled, shops)
                                  else if fst (ghana_momo_provider Z (take 20 (uc_phone c))) = None \<or> \<not> pay_configured (uz_pay Z)
                                  then (End_no_money, shops)
                                  else (case buy_by_phone Z now c t (take 150 (strip (nth_input 4 inputs))) q sh of
                                          (reply, sh1) \<Rightarrow> (reply, put_shop sh1 shops))))"

section \<open>The callback\<close>

definition ussd_callback :: "ussd_settings \<Rightarrow> int \<Rightarrow> ussd_call \<Rightarrow> pay_db \<times> shop list \<Rightarrow> ussd_reply \<times> pay_db \<times> shop list" where
  "ussd_callback Z now c s =
     (let t = take 200 (uc_text c); inputs = (if t = [] then [] else split_on (CHR ''*'') t)
      in if \<not> ussd_authorized Z c then (End_forbidden, s)
         else if inputs = [] then (Menu, s)
         else if nth_input 0 inputs = ''1'' then
           (case ussd_vote Z now c inputs (fst s) of (reply, db) \<Rightarrow> (reply, db, snd s))
         else if nth_input 0 inputs = ''2'' then
           (case ussd_ticket Z now c inputs (snd s) of (reply, shops) \<Rightarrow> (reply, fst s, shops))
         else (End_invalid, s))"

text \<open>What was confirmed on the last screen.\<close>

definition confirmed :: "ussd_call \<Rightarrow> bool" where
  "confirmed c \<longleftrightarrow>
     (let inputs = split_on (CHR ''*'') (take 200 (uc_text c))
      in (nth_input 0 inputs = ''1'' \<and> 4 \<le> length inputs \<and> nth_input 3 inputs = ''1'')
         \<or> (nth_input 0 inputs = ''2'' \<and> 6 \<le> length inputs \<and> nth_input 5 inputs = ''1''))"

end
