(* ===== verification/Row_Sums.thy ===== *)
theory Row_Sums
  imports Prelude
begin

text \<open>
  Sums over the rows of a table: what one changed row, or the rows that are dropped, do to them.
\<close>

lemma sum_update_key:
  assumes "distinct (map key xs)" and "x \<in> set xs"
  shows "sum_list (map g (update_where (\<lambda>y. key y = key x) f xs)) = sum_list (map g xs) - g x + (g (f x) :: int)"
  using assms
proof (induction xs)
  case (Cons y xs)
  show ?case
  proof (cases "y = x")
    case True
    have "update_where (\<lambda>y. key y = key x) f xs = xs"
      using Cons.prems True by (intro update_where_none) (auto simp: image_iff)
    then show ?thesis using True by simp
  next
    case False
    then have "key y \<noteq> key x" "x \<in> set xs" using Cons.prems by (auto simp: image_iff)
    with Cons.IH Cons.prems show ?thesis by simp
  qed
qed simp

lemma sum_filter_zero: "(\<And>x. x \<in> set xs \<Longrightarrow> \<not> P x \<Longrightarrow> g x = 0) \<Longrightarrow> sum_list (map g (filter P xs)) = (sum_list (map g xs) :: int)"
  by (induction xs) auto

lemma sum_filter_le: "(\<And>x. x \<in> set xs \<Longrightarrow> 0 \<le> g x) \<Longrightarrow> sum_list (map g (filter P xs)) \<le> (sum_list (map g xs) :: int)"
  by (induction xs) (auto simp: add_increasing)

end
