(* ===== verification/Ticket_Props.thy ===== *)
theory Ticket_Props
  imports Ussd Row_Sums
begin

text \<open>
  The ticket shop over any sequence of requests: buyers on the web and on the telephone, answers
  of the gateway, the organizers' changes, the door and the free votes. No more tickets are
  reserved than were ever on sale, and the free votes are those of paid tickets, once each.
\<close>

datatype shop_request =
    Make_ticket account ticket_form
  | Change_ticket account int ticket_form
  | Remove_ticket account int
  | Buy request_info int string string string "nat list" bool
  | Dial ussd_settings ussd_call
  | Answer string charge
  | Expire string "charge option"
  | Vote_free request_info string string candidate
  | Scan account string

fun or_same :: "shop \<Rightarrow> shop_error + shop \<Rightarrow> shop" where
  "or_same sh (Inl e) = sh"
| "or_same sh (Inr sh') = sh'"

definition dialled :: "ussd_call \<Rightarrow> string list" where
  "dialled c = split_on (CHR ''*'') (take 200 (uc_text c))"

fun shop_step :: "shop_settings \<Rightarrow> int \<times> shop_request \<Rightarrow> shop \<Rightarrow> shop" where
  "shop_step S (now, Make_ticket a f) sh = or_same sh (create_ticket a f sh)"
| "shop_step S (now, Change_ticket a i f) sh = or_same sh (edit_ticket a i f sh)"
| "shop_step S (now, Remove_ticket a i) sh = or_same sh (delete_ticket a i sh)"
| "shop_step S (now, Buy ri i name email q choices accepted) sh = snd (buy_ticket S now ri i name email q choices accepted sh)"
| "shop_step S (now, Dial Z c) sh = hd (snd (ussd_ticket Z now c (dialled c) [sh]))"
| "shop_step S (now, Answer r ch) sh = ticket_answer r ch sh"
| "shop_step S (now, Expire r a) sh = expire_sale r a sh"
| "shop_step S (now, Vote_free ri raw token ca) sh = snd (cast_vote_with_code now ri raw token ca sh)"
| "shop_step S (now, Scan a t) sh = or_same sh (process_scan now a t sh)"

definition shop_run :: "shop_settings \<Rightarrow> (int \<times> shop_request) list \<Rightarrow> shop \<Rightarrow> shop" where
  "shop_run S rs sh = fold (shop_step S) rs sh"

section \<open>What stays true of the shop\<close>

definition free_votes :: "shop \<Rightarrow> int" where
  "free_votes sh = sum_list (map lv_votes (filter (\<lambda>v. \<not> lv_main v) (sh_ledger sh)))"

definition voted_tickets :: "shop \<Rightarrow> int" where
  "voted_tickets sh = sum_list (map sl_quantity (filter sl_voted (sh_sales sh)))"

definition sale_ok :: "sale \<Rightarrow> bool" where
  "sale_ok x \<longleftrightarrow> 1 \<le> sl_quantity x \<and> (sl_voted x \<longrightarrow> sl_status x = TICKET_SUCCESS \<and> sl_web x)
     \<and> (sl_checked x \<noteq> None \<longrightarrow> sl_status x = TICKET_SUCCESS)"

definition shop_ok :: "shop \<Rightarrow> bool" where
  "shop_ok sh \<longleftrightarrow> distinct (map tt_id (sh_tickets sh)) \<and> distinct (map sl_reference (sh_sales sh))
     \<and> (\<forall>x\<in>set (sh_sales sh). sale_ok x) \<and> free_votes sh = voted_tickets sh"

definition capacity :: "int \<Rightarrow> shop \<Rightarrow> int" where
  "capacity i sh = (case ticket_row i sh of Some t \<Rightarrow> tt_available t | None \<Rightarrow> 0)"

text \<open>One step: the invariant holds on, and a reservation stays within the stock of its moment.\<close>

definition within_stock :: "shop \<Rightarrow> shop \<Rightarrow> bool" where
  "within_stock sh sh' \<longleftrightarrow> (\<forall>i. reserved_count i sh' \<le> max (reserved_count i sh) (capacity i sh))"

definition sound_step :: "shop \<Rightarrow> shop \<Rightarrow> bool" where
  "sound_step sh sh' \<longleftrightarrow> shop_ok sh' \<and> within_stock sh sh'"

section \<open>Sums over the purchases\<close>

definition reserves :: "int \<Rightarrow> sale \<Rightarrow> int" where
  "reserves i x = (if sl_ticket x = i \<and> sl_status x \<in> {TICKET_SUCCESS, TICKET_PENDING} then sl_quantity x else 0)"

lemma reserved_count_sum: "reserved_count i sh = sum_list (map (reserves i) (sh_sales sh))"
  unfolding reserved_count_def sum_list_map_filter' reserves_def ..

lemma voted_tickets_sum: "voted_tickets sh = sum_list (map (\<lambda>x. if sl_voted x then sl_quantity x else 0) (sh_sales sh))"
  unfolding voted_tickets_def sum_list_map_filter' ..

lemma same_reference:
  assumes "shop_ok sh" and "sale_row r sh = Some x"
  shows "x \<in> set (sh_sales sh)" "sl_reference x = r" "sale_ok x"
    and "y \<in> set (sh_sales sh) \<Longrightarrow> sl_reference y = r \<Longrightarrow> y = x"
proof -
  show x: "x \<in> set (sh_sales sh)" "sl_reference x = r"
    using assms(2) by (auto simp: sale_row_def first_where_def find_Some_iff)
  then show "sale_ok x" using assms(1) by (auto simp: shop_ok_def)
  show "y \<in> set (sh_sales sh) \<Longrightarrow> sl_reference y = r \<Longrightarrow> y = x"
    using x assms(1) by (auto simp: shop_ok_def distinct_map inj_on_def)
qed

lemma map_reference_update:
  "(\<And>x. sl_reference (f x) = sl_reference x) \<Longrightarrow> map sl_reference (update_where P f xs) = map sl_reference xs"
  by (induction xs) auto

text \<open>A change of one purchase that reserves no more, keeps it well-formed and its free vote.\<close>

lemma change_sale_sound:
  assumes ok: "shop_ok sh" and row: "sale_row r sh = Some x"
    and f: "\<And>y. sl_reference (f y) = sl_reference y" and "sale_ok (f x)" and "sl_voted (f x) = sl_voted x" "sl_quantity (f x) = sl_quantity x"
    and less: "\<And>i. reserves i (f x) \<le> reserves i x"
  shows "sound_step sh (change_sale r f sh)"
proof -
  note x = same_reference [OF ok row]
  have d: "distinct (map sl_reference (sh_sales sh))" using ok by (simp add: shop_ok_def)
  have sums: "sum_list (map g (sh_sales (change_sale r f sh))) = sum_list (map g (sh_sales sh)) - g x + g (f x)" for g :: "sale \<Rightarrow> int"
    using sum_update_key [OF d x(1), of g f] by (simp add: change_sale_def x(2))
  have "sale_ok y" if "y \<in> set (sh_sales (change_sale r f sh))" for y
    using that ok x(4) assms(4) by (auto simp: change_sale_def in_update_where shop_ok_def)
  moreover have "voted_tickets (change_sale r f sh) = voted_tickets sh"
    using assms(5,6) by (simp add: voted_tickets_sum sums)
  moreover have "free_votes (change_sale r f sh) = free_votes sh" by (simp add: free_votes_def change_sale_def)
  ultimately have "shop_ok (change_sale r f sh)"
    using ok map_reference_update [OF f] by (simp add: shop_ok_def) (simp add: change_sale_def)
  moreover have "reserved_count i (change_sale r f sh) \<le> reserved_count i sh" for i
    using less [of i] by (simp add: reserved_count_sum sums)
  ultimately show ?thesis by (simp add: sound_step_def within_stock_def max.coboundedI1)
qed

lemma sound_same: "shop_ok sh \<Longrightarrow> sound_step sh sh"
  by (simp add: sound_step_def within_stock_def)

text \<open>Only purchases, ticket types and the ledger matter.\<close>

lemma shop_ok_cong:
  "sh_tickets sh' = sh_tickets sh \<Longrightarrow> sh_sales sh' = sh_sales sh \<Longrightarrow> sh_ledger sh' = sh_ledger sh \<Longrightarrow> shop_ok sh' = shop_ok sh"
  by (simp add: shop_ok_def free_votes_def voted_tickets_def)

lemma sound_cong:
  assumes "sh_tickets s1 = sh_tickets sh" "sh_sales s1 = sh_sales sh" "sh_ledger s1 = sh_ledger sh"
    and "sh_tickets s2 = sh_tickets sh'" "sh_sales s2 = sh_sales sh'" "sh_ledger s2 = sh_ledger sh'" and "sound_step sh sh'"
  shows "sound_step s1 s2"
  using assms by (simp add: sound_step_def within_stock_def reserved_count_def capacity_def ticket_row_def shop_ok_cong [of s2 sh'])

lemma sound_fail: "shop_ok sh \<Longrightarrow> sale_row r sh = Some x \<Longrightarrow> sl_status x = TICKET_PENDING
    \<Longrightarrow> sound_step sh (change_sale r (\<lambda>y. y\<lparr>sl_status := TICKET_FAILED\<rparr>) sh)"
  by (rule change_sale_sound) (auto dest: same_reference(3) simp: sale_ok_def reserves_def)

lemma sound_pay: "shop_ok sh \<Longrightarrow> sale_row r sh = Some x \<Longrightarrow> sl_status x = TICKET_PENDING
    \<Longrightarrow> sound_step sh (change_sale r (\<lambda>y. y\<lparr>sl_status := TICKET_SUCCESS\<rparr>) sh)"
  by (rule change_sale_sound) (auto dest: same_reference(3) simp: sale_ok_def reserves_def)

lemma ticket_answer_sound: "shop_ok sh \<Longrightarrow> sound_step sh (ticket_answer r ch sh)"
  by (auto simp: ticket_answer_def Let_def sound_same sound_fail sound_pay split: option.split)

lemma sound_trans:
  assumes "sound_step sh sh1" and "sound_step sh1 sh2" and "\<And>i. capacity i sh1 = capacity i sh"
  shows "sound_step sh sh2"
proof -
  have "reserved_count i sh2 \<le> max (reserved_count i sh) (capacity i sh)" for i
  proof -
    have "reserved_count i sh2 \<le> max (reserved_count i sh1) (capacity i sh)"
      using assms(2,3) by (simp add: sound_step_def within_stock_def)
    moreover have "reserved_count i sh1 \<le> max (reserved_count i sh) (capacity i sh)"
      using assms(1) by (simp add: sound_step_def within_stock_def)
    ultimately show ?thesis by linarith
  qed
  then show ?thesis using assms(2) by (simp add: sound_step_def within_stock_def)
qed

section \<open>Every operation is sound\<close>

lemma first_where_last: "\<forall>y\<in>set xs. \<not> P y \<Longrightarrow> P x \<Longrightarrow> first_where P (xs @ [x]) = Some x"
  by (induction xs) (auto simp: first_where_def)

lemma reserve_sound:
  assumes ok: "shop_ok sh" and t: "ticket_row (tt_id t) sh = Some t" and q: "1 \<le> q" and r: "reserve now t name email q r web sh = Inr sh1"
  shows "sound_step sh sh1" "sale_row r sh1 = Some (new_sale now t name email q r web)" "sh_tickets sh1 = sh_tickets sh"
proof -
  let ?x = "new_sale now t name email q r web"
  from r have sh1: "sh1 = sh\<lparr>sh_sales := sh_sales sh @ [?x]\<rparr>" and room: "reserved_count (tt_id t) sh + q \<le> tt_available t"
    and fresh: "sale_row r sh = None" by (auto simp: reserve_def split: if_splits)
  have x: "sl_reference ?x = r" "sale_ok ?x" "\<not> sl_voted ?x" "reserves i ?x = (if i = tt_id t then q else 0)" for i
    using q by (auto simp: new_sale_def sale_ok_def reserves_def)
  have "r \<notin> sl_reference ` set (sh_sales sh)" using fresh by (auto simp: sale_row_def first_where_def find_None_iff)
  then have "shop_ok sh1"
    using ok x by (auto simp: shop_ok_def sh1 voted_tickets_sum free_votes_def)
  moreover have "reserved_count i sh1 \<le> max (reserved_count i sh) (capacity i sh)" for i
    using room t x(4) [of i] by (auto simp: sh1 reserved_count_sum capacity_def)
  ultimately show "sound_step sh sh1" by (simp add: sound_step_def within_stock_def)
  show "sale_row r sh1 = Some ?x"
    using fresh x(1) by (auto simp: sale_row_def sh1 first_where_def find_None_iff intro!: first_where_last [unfolded first_where_def])
  show "sh_tickets sh1 = sh_tickets sh" by (simp add: sh1)
qed

lemma after_gateway_sound:
  assumes ok: "shop_ok sh" and t: "ticket_row (tt_id t) sh = Some t" and q: "1 \<le> q" and r: "reserve now t name email q r web sh = Inr sh1"
  shows "sound_step sh (snd (after_gateway accepted r sh1))" "sh_election (snd (after_gateway accepted r sh1)) = sh_election sh"
proof -
  note sound = reserve_sound [OF ok t q r]
  have ok1: "shop_ok sh1" using sound(1) by (simp add: sound_step_def)
  have "sound_step sh1 (change_sale r (\<lambda>x. x\<lparr>sl_status := TICKET_FAILED\<rparr>) sh1)"
    by (rule sound_fail [OF ok1 sound(2)]) (simp add: new_sale_def)
  from sound_trans [OF sound(1) this] have "sound_step sh (change_sale r (\<lambda>x. x\<lparr>sl_status := TICKET_FAILED\<rparr>) sh1)"
    by (simp add: capacity_def ticket_row_def sound(3))
  with sound(1) show "sound_step sh (snd (after_gateway accepted r sh1))" by (simp add: after_gateway_def)
  show "sh_election (snd (after_gateway accepted r sh1)) = sh_election sh"
    using r by (auto simp: after_gateway_def change_sale_def reserve_def split: if_splits)
qed

lemma active_ticket_row:
  assumes "shop_ok sh" and "t \<in> set (sh_tickets sh)"
  shows "ticket_row (tt_id t) sh = Some t"
  using assms by (simp add: ticket_row_def shop_ok_def first_where_row)

lemma buy_ticket_sound:
  assumes ok: "shop_ok sh" shows "sound_step sh (snd (buy_ticket S now ri i name email qty ch acc sh))"
proof -
  define s where "s = sh\<lparr>sh_counters := snd (hit now ''buy-ticket'' (shop_client ri) 10 60 (sh_counters sh))\<rparr>"
  have same: "sh_tickets s = sh_tickets sh" "sh_sales s = sh_sales sh" "sh_ledger s = sh_ledger sh" by (simp_all add: s_def)
  have oks: "shop_ok s" using ok shop_ok_cong [OF same] by simp
  have "sound_step s (snd (buy_ticket S now ri i name email qty ch acc sh))"
  proof (cases "first_where (\<lambda>t. tt_id t = i \<and> tt_active t) (sh_tickets s)")
    case None
    then show ?thesis by (simp add: buy_ticket_def case_prod_unfold Let_def s_def [symmetric] sound_same oks)
  next
    case (Some t)
    then have t: "ticket_row (tt_id t) s = Some t"
      by (intro active_ticket_row oks) (auto simp: first_where_def find_Some_iff)
    have bought: "sound_step s (snd (after_gateway acc r s1))" if "reserve now t n m q r True s = Inr s1" "\<not> q < 1" for n m q r s1
      using after_gateway_sound(1) [OF oks t _ that(1)] that(2) by simp
    show ?thesis
      using Some bought
      by (auto simp: buy_ticket_def case_prod_unfold Let_def s_def [symmetric] sound_same oks split: sum.split option.split)
  qed
  then show ?thesis by (rule sound_cong [OF same(1)[symmetric] same(2)[symmetric] same(3)[symmetric] refl refl refl])
qed

section \<open>The telephone\<close>

lemma py_index_mem: "py_index xs k = Some x \<Longrightarrow> x \<in> set xs"
  using nth_mem [of _ xs] by (auto simp: py_index_def Let_def split: if_splits)

text \<open>
  A step of the menu leaves the shops, or reserves in one of them.
\<close>

lemma ussd_ticket_shops:
  assumes "ussd_ticket Z now c inputs shops = (reply, shops')"
  obtains (same) "shops' = shops"
    | (bought) sh t name q sh1 where "sh \<in> set shops" "t \<in> set (sh_tickets sh)" "1 \<le> q" "6 \<le> length inputs" "nth_input 5 inputs = ''1''"
        "buy_by_phone Z now c t name q sh = (reply, sh1)" "shops' = put_shop sh1 shops"
proof -
  define one where "one = ''1''"
  define chosen where "chosen = Option.bind (parse_int (nth_input 1 inputs)) (\<lambda>i. py_index (filter selling shops) (i - 1))"
  show thesis
  proof (cases "shops' = shops")
    case False
    then have l1: "length inputs \<noteq> 1" using assms by (auto simp: ussd_ticket_def Let_def)
    obtain sh where sh: "chosen = Some sh"
      using assms False l1 unfolding ussd_ticket_def Let_def chosen_def [symmetric] by (cases chosen) simp_all
    define wanted where "wanted = Option.bind (parse_int (nth_input 2 inputs)) (\<lambda>i. py_index (filter tt_active (sh_tickets sh)) (i - 1))"
    note step = assms [unfolded ussd_ticket_def Let_def chosen_def [symmetric] sh option.case wanted_def [symmetric] one_def [symmetric]]
    have l2: "length inputs \<noteq> 2" using step l1 False by auto
    obtain t where t: "wanted = Some t" using step l1 l2 False by (cases wanted) simp_all
    note step = step [unfolded t option.case]
    have l3: "length inputs \<noteq> 3" using step l1 l2 False by auto
    obtain q where q: "parse_int (nth_input 3 inputs) = Some q"
      using step l1 l2 l3 False by (cases "parse_int (nth_input 3 inputs)") simp_all
    note step = step [unfolded q option.case]
    have l: "1 \<le> q" "length inputs \<noteq> 4" "length inputs \<noteq> 5" "nth_input 5 inputs = one"
      using step l1 l2 l3 False by (auto split: if_splits)
    have n0: "length inputs \<noteq> 0" using l(4) by (auto simp: nth_input_def one_def)
    obtain sh1 where b: "buy_by_phone Z now c t (take 150 (strip (nth_input 4 inputs))) q sh = (reply, sh1)" "shops' = put_shop sh1 shops"
      using step l1 l2 l3 l False by (auto split: if_splits prod.splits)
    have m: "sh \<in> set shops" "t \<in> set (sh_tickets sh)"
      using sh t by (auto simp: chosen_def wanted_def bind_eq_Some_conv dest!: py_index_mem)
    have six: "6 \<le> length inputs" using n0 l1 l2 l3 l by linarith
    have yes: "nth_input 5 inputs = ''1''" using l(4) by (simp only: one_def)
    from m l(1) six yes b show thesis by (rule bought)
  qed (rule same)
qed

lemma hd_put_shop: "ev_id (sh_event sh1) = ev_id (sh_event sh) \<Longrightarrow> hd (put_shop sh1 [sh]) = sh1"
  by (simp add: put_shop_def)

lemma ussd_ticket_sound:
  assumes ok: "shop_ok sh" shows "sound_step sh (hd (snd (ussd_ticket Z now c inputs [sh])))"
proof -
  obtain reply shops' where u: "ussd_ticket Z now c inputs [sh] = (reply, shops')" by fastforce
  from u show ?thesis
  proof (cases rule: ussd_ticket_shops)
    case same
    then show ?thesis using u by (simp add: sound_same ok)
  next
    case (bought sh' t name q sh1)
    then have t: "ticket_row (tt_id t) sh = Some t" and b: "buy_by_phone Z now c t name q sh = (reply, sh1)"
      using active_ticket_row [OF ok] by auto
    have "sound_step sh sh1 \<and> sh_election sh1 = sh_election sh"
    proof (cases "reserve now t name (phone_address (take 20 (uc_phone c))) q (ticket_reference (uc_choices c)) False sh")
      case (Inl e)
      then show ?thesis using b ok by (auto simp: buy_by_phone_def Let_def sound_same split: shop_error.splits)
    next
      case (Inr s)
      then have "sh1 = snd (after_gateway (uc_accepted c) (ticket_reference (uc_choices c)) s)"
        using b by (auto simp: buy_by_phone_def Let_def split: prod.splits sum.splits)
      then show ?thesis using after_gateway_sound [OF ok t bought(3) Inr, of "uc_accepted c"] by simp
    qed
    then show ?thesis using u bought(7) hd_put_shop [of sh1 sh] by simp
  qed
qed

section \<open>Organizers, door and free votes\<close>

lemma shop_note_simps [simp]:
  "sh_tickets (shop_note t a x sh) = sh_tickets sh" "sh_sales (shop_note t a x sh) = sh_sales sh"
  "sh_ledger (shop_note t a x sh) = sh_ledger sh"
  by (simp_all add: shop_note_def)

lemma sound_note: "sound_step sh sh' \<Longrightarrow> sound_step sh (shop_note t a x sh')"
  by (rule sound_cong [of sh sh _ sh']) simp_all

lemma sound_tickets:
  assumes "shop_ok sh" and "distinct (map tt_id ts)"
  shows "sound_step sh (sh\<lparr>sh_tickets := ts\<rparr>)"
  using assms by (simp add: sound_step_def within_stock_def reserved_count_def shop_ok_def free_votes_def voted_tickets_def)

lemma map_id_update: "(\<And>x. tt_id (f x) = tt_id x) \<Longrightarrow> map tt_id (update_where P f xs) = map tt_id xs"
  by (induction xs) auto

lemma new_ticket_id: "next_pk tt_id ts \<notin> tt_id ` set ts"
proof -
  have "tt_id t \<le> fold max (map tt_id ts) 0" if "t \<in> set ts" for t
    using that by (simp add: Max.set_eq_fold [of 0, symmetric] Max_ge del: Max_insert)
  then show ?thesis by (force simp: next_pk_def)
qed

lemma create_ticket_sound: 
  assumes "shop_ok sh" shows "sound_step sh (or_same sh (create_ticket a f sh))"
proof -
  have d: "distinct (map tt_id (sh_tickets sh))" using assms by (simp add: shop_ok_def)
  show ?thesis
    using assms d new_ticket_id [of "sh_tickets sh"]
    by (auto simp: create_ticket_def Let_def sound_same intro!: sound_note sound_tickets split: sum.split)
qed

lemma edit_ticket_sound:
  assumes "shop_ok sh" shows "sound_step sh (or_same sh (edit_ticket a i f sh))"
  using assms
  by (auto simp: edit_ticket_def Let_def sound_same map_id_update shop_ok_def intro!: sound_note sound_tickets split: sum.split option.split)

lemma drop_ticket_sound:
  assumes ok: "shop_ok sh" and unsold: "\<not> (\<exists>x\<in>set (sh_sales sh). sl_ticket x = i \<and> sl_status x = TICKET_SUCCESS)"
  shows "sound_step sh (sh\<lparr>sh_tickets := filter (\<lambda>x. tt_id x \<noteq> i) (sh_tickets sh), sh_sales := filter (\<lambda>x. sl_ticket x \<noteq> i) (sh_sales sh)\<rparr>)"
    (is "sound_step sh ?sh")
proof -
  have q: "1 \<le> sl_quantity x" "sl_voted x \<Longrightarrow> sl_status x = TICKET_SUCCESS" if "x \<in> set (sh_sales sh)" for x
    using ok that by (auto simp: shop_ok_def sale_ok_def)
  have "voted_tickets ?sh = voted_tickets sh"
    unfolding voted_tickets_sum using q(2) unsold by (auto intro!: sum_filter_zero split: if_splits)
  then have "shop_ok ?sh" using ok by (auto simp: shop_ok_def free_votes_def distinct_map_filter)
  moreover have "reserved_count j ?sh \<le> reserved_count j sh" for j
    using q(1) by (force simp: reserved_count_sum reserves_def intro!: sum_filter_le)
  ultimately show ?thesis by (simp add: sound_step_def within_stock_def max.coboundedI1)
qed

lemma delete_ticket_sound:
  assumes ok: "shop_ok sh" shows "sound_step sh (or_same sh (delete_ticket a i sh))"
proof -
  have note_it: "sound_step sh ((shop_note t a x sh)\<lparr>sh_tickets := ts, sh_sales := ss\<rparr>)" if "sound_step sh (sh\<lparr>sh_tickets := ts, sh_sales := ss\<rparr>)" for t x ts ss and a :: "account option"
    by (rule sound_cong [OF refl refl refl _ _ _ that]) simp_all
  show ?thesis
    using ok by (auto simp: delete_ticket_def Let_def sound_same map_id_update shop_ok_def
      intro!: note_it drop_ticket_sound [OF ok] sound_tickets [OF ok] split: option.split)
qed

lemma expire_rows: "sale_row r sh = Some x \<Longrightarrow> shop_ok sh \<Longrightarrow> sl_status x = TICKET_PENDING
   \<Longrightarrow> sh\<lparr>sh_sales := update_where (\<lambda>y. sl_reference y = r \<and> sl_status y = TICKET_PENDING) f (sh_sales sh)\<rparr> = change_sale r f sh"
  unfolding change_sale_def
  using same_reference(4) [of sh r x] by (auto simp: update_where_def intro!: arg_cong [where f = "\<lambda>s. sh\<lparr>sh_sales := s\<rparr>"])

lemma expire_none: "sale_row r sh = None \<or> (\<exists>x. sale_row r sh = Some x \<and> sl_status x \<noteq> TICKET_PENDING) \<Longrightarrow> shop_ok sh
   \<Longrightarrow> sh\<lparr>sh_sales := update_where (\<lambda>y. sl_reference y = r \<and> sl_status y = TICKET_PENDING) f (sh_sales sh)\<rparr> = sh"
proof -
  assume a: "sale_row r sh = None \<or> (\<exists>x. sale_row r sh = Some x \<and> sl_status x \<noteq> TICKET_PENDING)" "shop_ok sh"
  have "\<not> (sl_reference y = r \<and> sl_status y = TICKET_PENDING)" if "y \<in> set (sh_sales sh)" for y
    using a that same_reference(4) [of sh r _ y] by (auto simp: sale_row_def first_where_None)
  then show ?thesis by (subst update_where_none) auto
qed

lemma ticket_answer_capacity: "capacity i (ticket_answer r ch sh) = capacity i sh"
  by (simp add: ticket_answer_def change_sale_def capacity_def ticket_row_def split: option.split)

lemma expire_sale_sound:
  assumes ok: "shop_ok sh" shows "sound_step sh (expire_sale r ans sh)"
proof -
  define s where "s = (case ans of None \<Rightarrow> sh | Some ch \<Rightarrow> ticket_answer r ch sh)"
  have s: "sound_step sh s" "\<And>i. capacity i s = capacity i sh"
    using ok by (simp_all add: s_def sound_same ticket_answer_sound ticket_answer_capacity split: option.split)
  then have oks: "shop_ok s" by (simp add: sound_step_def)
  have "sound_step s (expire_sale r ans sh)"
  proof (cases "\<exists>x. sale_row r s = Some x \<and> sl_status x = TICKET_PENDING")
    case True
    then obtain x where x: "sale_row r s = Some x" "sl_status x = TICKET_PENDING" by blast
    show ?thesis unfolding expire_sale_def Let_def s_def [symmetric] expire_rows [OF x(1) oks x(2)]
      by (rule sound_fail [OF oks x])
  next
    case False
    then have "sale_row r s = None \<or> (\<exists>x. sale_row r s = Some x \<and> sl_status x \<noteq> TICKET_PENDING)" by (cases "sale_row r s") auto
    from expire_none [OF this oks] show ?thesis
      unfolding expire_sale_def Let_def s_def [symmetric] by (simp add: sound_same oks)
  qed
  from sound_trans [OF s(1) this s(2)] show ?thesis .
qed

lemma process_scan_sound:
  assumes ok: "shop_ok sh" shows "sound_step sh (or_same sh (process_scan now a t sh))"
proof -
  have "sound_step sh (change_sale r (\<lambda>y. y\<lparr>sl_checked := Some now\<rparr>) sh)" if "sale_row r sh = Some x" "sl_status x = TICKET_SUCCESS" for r x
    by (rule change_sale_sound [OF ok that(1)]) (use same_reference(3) [OF ok that(1)] that(2) in \<open>auto simp: sale_ok_def reserves_def\<close>)
  then show ?thesis
    using ok by (auto simp: process_scan_def Let_def sound_same intro!: sound_note split: option.split)
qed

lemma free_vote_sound:
  assumes ok: "shop_ok sh" and x: "sale_row r sh = Some x" "sl_status x = TICKET_SUCCESS" "\<not> sl_voted x" "sl_web x"
    and v: "\<not> lv_main v" "lv_votes v = sl_quantity x"
    and sh': "sh_tickets sh' = sh_tickets sh" "sh_sales sh' = sh_sales (change_sale r (\<lambda>y. y\<lparr>sl_voted := True\<rparr>) sh)"
      "sh_ledger sh' = sh_ledger sh @ [v]"
  shows "sound_step sh sh'"
proof -
  let ?f = "\<lambda>y. y\<lparr>sl_voted := True\<rparr>"
  note row = same_reference [OF ok x(1)]
  have d: "distinct (map sl_reference (sh_sales sh))" using ok by (simp add: shop_ok_def)
  have sums: "sum_list (map g (sh_sales sh')) = sum_list (map g (sh_sales sh)) - g x + g (?f x)" for g :: "sale \<Rightarrow> int"
    using sum_update_key [OF d row(1), of g ?f] by (simp add: sh'(2) change_sale_def row(2))
  have "sale_ok y" if "y \<in> set (sh_sales sh')" for y
  proof -
    have "\<exists>q\<in>set (sh_sales sh). y = (if sl_reference q = r then ?f q else q)"
      using that unfolding sh'(2) by (simp add: change_sale_def in_update_where)
    then obtain q where q: "q \<in> set (sh_sales sh)" "y = (if sl_reference q = r then ?f q else q)" by blast
    have "sale_ok q" using ok q(1) by (simp add: shop_ok_def)
    moreover have "sale_ok (?f x)" using row(3) x by (simp add: sale_ok_def)
    ultimately show ?thesis using q row(4) by (cases "sl_reference q = r") auto
  qed
  moreover have "free_votes sh' = voted_tickets sh'"
    using ok x v by (simp add: voted_tickets_sum sums) (simp add: shop_ok_def voted_tickets_sum free_votes_def sh'(3))
  moreover have "map sl_reference (sh_sales sh') = map sl_reference (sh_sales sh)"
    unfolding sh'(2) change_sale_def by (simp add: map_reference_update)
  ultimately have "shop_ok sh'" using ok by (simp add: shop_ok_def sh'(1))
  moreover have "reserves i (?f x) = reserves i x" for i by (cases "sl_status x") (simp_all add: reserves_def)
  then have "reserved_count i sh' = reserved_count i sh" for i
    by (simp add: reserved_count_sum sums)
  ultimately show ?thesis by (simp add: sound_step_def within_stock_def)
qed

lemma cast_vote_with_code_sound:
  assumes ok: "shop_ok sh" shows "sound_step sh (snd (cast_vote_with_code now ri raw token ca sh))"
proof -
  define s where "s = sh\<lparr>sh_counters := snd (hit now ''ticket-vote'' (shop_client ri) 20 60 (sh_counters sh))\<rparr>"
  have same: "sh_tickets s = sh_tickets sh" "sh_sales s = sh_sales sh" "sh_ledger s = sh_ledger sh" by (simp_all add: s_def)
  have oks: "shop_ok s" using ok shop_ok_cong [OF same] by simp
  have kept: "sound_step sh s" by (rule sound_cong [OF refl refl refl same sound_same [OF ok]])
  show ?thesis
  proof (cases "sale_row (upper_code raw) s")
    case None
    then show ?thesis using kept by (simp add: cast_vote_with_code_def case_prod_unfold Let_def s_def [symmetric] sound_same ok)
  next
    case (Some x)
    define v where "v = \<lparr>lv_reference = ''TB-'' @ token, lv_payment = None, lv_candidate = ca_id ca,
                               lv_votes = sl_quantity x, lv_status = LEDGER_SUCCESS, lv_main = False, lv_amount = 0\<rparr>"
    define s' where "s' = (change_sale (upper_code raw) (\<lambda>y. y\<lparr>sl_voted := True\<rparr>) s)
                            \<lparr>sh_election := (sh_election s)\<lparr>db_ledger := db_ledger (sh_election s) @ [v]\<rparr>\<rparr>"
    have "sound_step s s'" if "sl_status x = TICKET_SUCCESS" "\<not> sl_voted x" "sl_web x"
      by (rule free_vote_sound [OF oks Some that, of v]) (simp_all add: v_def s'_def change_sale_def)
    then have "sound_step sh s'" if "sl_status x = TICKET_SUCCESS" "\<not> sl_voted x" "sl_web x"
      using that by (intro sound_cong [OF same(1)[symmetric] same(2)[symmetric] same(3)[symmetric] refl refl refl])
    then show ?thesis
      unfolding cast_vote_with_code_def case_prod_unfold Let_def s_def [symmetric] Some option.case v_def [symmetric] s'_def [symmetric]
      using kept by (simp add: sound_same ok)
  qed
qed

lemma shop_step_sound: "shop_ok sh \<Longrightarrow> sound_step sh (shop_step S q sh)"
  by (cases "(S, q, sh)" rule: shop_step.cases)
     (simp_all add: create_ticket_sound edit_ticket_sound delete_ticket_sound buy_ticket_sound ussd_ticket_sound
       ticket_answer_sound expire_sale_sound cast_vote_with_code_sound process_scan_sound)

section \<open>Runs\<close>

lemma shop_run_simps [simp]: "shop_run S [] sh = sh" "shop_run S (q # rs) sh = shop_run S rs (shop_step S q sh)"
  by (simp_all add: shop_run_def)

text \<open>The most that was on sale of a ticket type over a run.\<close>

fun most_on_sale :: "int \<Rightarrow> shop_settings \<Rightarrow> (int \<times> shop_request) list \<Rightarrow> shop \<Rightarrow> int" where
  "most_on_sale i S [] sh = capacity i sh"
| "most_on_sale i S (q # rs) sh = max (capacity i sh) (most_on_sale i S rs (shop_step S q sh))"

lemma run_within_stock:
  "shop_ok sh \<Longrightarrow> shop_ok (shop_run S rs sh) \<and> reserved_count i (shop_run S rs sh) \<le> max (reserved_count i sh) (most_on_sale i S rs sh)"
proof (induction rs arbitrary: sh)
  case (Cons q rs)
  have s: "sound_step sh (shop_step S q sh)" by (rule shop_step_sound [OF Cons.prems])
  then have "reserved_count i (shop_step S q sh) \<le> max (reserved_count i sh) (capacity i sh)" "shop_ok (shop_step S q sh)"
    by (simp_all add: sound_step_def within_stock_def)
  with Cons.IH [of "shop_step S q sh"] show ?case by auto
qed simp

end
