(* ===== verification/Shop_Props.thy ===== *)
theory Shop_Props
  imports Ticket_Props Payments_Props
begin

text \<open>
  The ticket shop's promises: stock, free votes, agreement with the payments' handling of a
  ticket, and that a telephone session charges nothing before the buyer confirmed.
\<close>

text \<open>
  C35: however buyers on the web and on the telephone, the gateway, the organizers and the door
  interleave, no more tickets of a type are held or paid than were on sale at some moment, and
  so no more are ever sold.
\<close>

theorem tickets_not_oversold:
  assumes "shop_ok sh" and "reserved_count i sh = 0"
  shows "sold_count i (shop_run S rs sh) \<le> reserved_count i (shop_run S rs sh)
    \<and> reserved_count i (shop_run S rs sh) \<le> max 0 (most_on_sale i S rs sh)"
proof -
  have "sold_count i s \<le> reserved_count i s" if "shop_ok s" for s
    unfolding reserved_count_sum sold_count_def sum_list_map_filter'
    using that by (intro sum_list_mono) (auto simp: reserves_def shop_ok_def sale_ok_def)
  with run_within_stock [OF assms(1), of S rs i] assms(2) show ?thesis by simp
qed

text \<open>
  C36: the free tie-breaker votes are backed by tickets: over any run their number is the quantity
  of the tickets marked as used, each used ticket is paid and bought on the web, and no ticket is used twice.
\<close>

theorem free_votes_are_paid_tickets:
  assumes "shop_ok sh"
  shows "free_votes (shop_run S rs sh) = voted_tickets (shop_run S rs sh)
    \<and> (\<forall>x\<in>set (sh_sales (shop_run S rs sh)). sl_voted x \<longrightarrow> sl_status x = TICKET_SUCCESS \<and> sl_web x)
    \<and> distinct (map sl_reference (sh_sales (shop_run S rs sh)))"
  using run_within_stock [OF assms, of S rs 0] by (simp add: shop_ok_def sale_ok_def)

section \<open>Example\<close>

definition ex_shop :: shop where
  "ex_shop =
     \<lparr>sh_election =
        \<lparr>db_election = ex_election\<lparr>the_event := ex_event\<lparr>ev_mode := PAY_TO_VOTE\<rparr>\<rparr>, db_key = None, db_authorizations = [], db_ballots = [],
         db_snapshots = [], db_results = [], db_certifications = [], db_requests = [], db_disputes = [], db_ledger = [],
         db_tenancy = \<lparr>tn_roles = [], tn_assignments = [], tn_organizations = [], tn_log = []\<rparr>, db_log = [], db_tasks = []\<rparr>,
      sh_tie_breaker = True,
      sh_tickets = [\<lparr>tt_id = 1, tt_name = ''Gate'', tt_price = 20, tt_old = None, tt_available = 2, tt_active = True\<rparr>],
      sh_sales = [], sh_counters = []\<rparr>"

definition ex_shop_settings :: shop_settings where
  "ex_shop_settings = \<lparr>sp_configured = True, sp_email_ok = (\<lambda>_. True)\<rparr>"

definition ex_buyer :: request_info where
  "ex_buyer = \<lparr>ri_ip = None, ri_device = [], ri_agent = ''Mozilla'', ri_relayed = False, ri_human = True\<rparr>"

definition ex_requests :: "(int \<times> shop_request) list" where
  "ex_requests =
     [(11, Buy ex_buyer 1 [] [] ''2'' [] True), (12, Answer ''TK-'' ((bare_charge ''success'')\<lparr>ch_amount := 4000\<rparr>)),
      (13, Vote_free ex_buyer ''TK-'' [] (ex_candidate 1))]"

definition ex_sale :: "ticket_status \<Rightarrow> bool \<Rightarrow> sale" where
  "ex_sale st voted = \<lparr>sl_reference = ''TK-'', sl_ticket = 1, sl_name = [], sl_email = [], sl_quantity = 2, sl_status = st, sl_web = True,
     sl_checked = None, sl_voted = voted, sl_at = 11\<rparr>"

lemma ex_shop_ok: "shop_ok ex_shop"
  by (simp add: shop_ok_def ex_shop_def free_votes_def voted_tickets_def)

lemma ex_texts:
  "parse_int ''2'' = Some 2" "strip ''2'' = ''2''" "strip [] = []" "upper_code ''TK-'' = ''TK-''" "lower ''success'' = ''success''"
  "ticket_reference [] = ''TK-''" "minor_units 40 = 4000"
  by code_simp+

lemma ex_bought:
  "\<exists>cs. shop_step ex_shop_settings (11, Buy ex_buyer 1 [] [] ''2'' [] True) ex_shop
     = ex_shop\<lparr>sh_sales := [ex_sale TICKET_PENDING False], sh_counters := cs\<rparr>
     \<and> counter ''ticket-vote'' (shop_client ex_buyer) (bucket_of 13 60) cs = 0"
  by (simp add: buy_ticket_def case_prod_unfold Let_def hit_def counter_def ex_shop_def ex_texts parse_non_negative_int_def first_where_def
      ex_shop_settings_def reserve_def reserved_count_def sale_row_def after_gateway_def ex_sale_def new_sale_def)

lemma ex_answered:
  "shop_step ex_shop_settings (12, Answer ''TK-'' ((bare_charge ''success'')\<lparr>ch_amount := 4000\<rparr>))
       (ex_shop\<lparr>sh_sales := [ex_sale TICKET_PENDING False], sh_counters := cs\<rparr>)
     = ex_shop\<lparr>sh_sales := [ex_sale TICKET_SUCCESS False], sh_counters := cs\<rparr>"
  by (simp add: ticket_answer_def Let_def bare_charge_def sale_row_def ex_sale_def ex_texts as_purchase_def expected_amount_def
      sale_price_def ticket_row_def ex_shop_def change_sale_def first_where_def)

lemma ex_voted:
  assumes "counter ''ticket-vote'' (shop_client ex_buyer) (bucket_of 13 60) cs = 0"
  shows "sh_sales (shop_step ex_shop_settings (13, Vote_free ex_buyer ''TK-'' [] (ex_candidate 1))
       (ex_shop\<lparr>sh_sales := [ex_sale TICKET_SUCCESS False], sh_counters := cs\<rparr>)) = [ex_sale TICKET_SUCCESS True]"
  using assms by (simp add: cast_vote_with_code_def case_prod_unfold Let_def hit_def ex_texts sale_row_def ex_sale_def ex_shop_def
      change_sale_def first_where_def ex_defs is_institutional_def accepting_votes_def starts_with_def)

lemma ex_shop_run:
  "sh_sales (shop_run ex_shop_settings ex_requests ex_shop) = [ex_sale TICKET_SUCCESS True]"
proof -
  obtain cs where "shop_step ex_shop_settings (11, Buy ex_buyer 1 [] [] ''2'' [] True) ex_shop
      = ex_shop\<lparr>sh_sales := [ex_sale TICKET_PENDING False], sh_counters := cs\<rparr>"
    and cs: "counter ''ticket-vote'' (shop_client ex_buyer) (bucket_of 13 60) cs = 0"
    using ex_bought by blast
  then show ?thesis
    by (simp only: ex_requests_def shop_run_simps ex_answered ex_voted [OF cs])
qed

theorem tickets_not_oversold_witness:
  "sold_count 1 (shop_run ex_shop_settings ex_requests ex_shop) = 2
    \<and> 2 \<le> most_on_sale 1 ex_shop_settings ex_requests ex_shop"
proof -
  have "reserved_count 1 ex_shop = 0" by (simp add: reserved_count_def ex_shop_def)
  from tickets_not_oversold [OF ex_shop_ok this, of ex_shop_settings ex_requests] ex_shop_run show ?thesis
    by (simp add: sold_count_def reserved_count_def ex_sale_def)
qed

theorem free_votes_are_paid_tickets_witness:
  "free_votes (shop_run ex_shop_settings ex_requests ex_shop) = 2"
  using free_votes_are_paid_tickets [OF ex_shop_ok, of ex_shop_settings ex_requests]
  by (simp add: ex_shop_run voted_tickets_def ex_sale_def)

section \<open>The two models of a ticket's payment\<close>

lemma update_where_map:
  "(\<And>x. x \<in> set xs \<Longrightarrow> Q (g x) = P x) \<Longrightarrow> (\<And>x. x \<in> set xs \<Longrightarrow> h (g x) = g' (f x))
    \<Longrightarrow> (\<And>x. x \<in> set xs \<Longrightarrow> g' x = g x) \<Longrightarrow> update_where Q h (map g xs) = map g' (update_where P f xs)"
  by (induction xs) auto

lemma first_where_map: "first_where Q (map g xs) = map_option g (first_where (\<lambda>x. Q (g x)) xs)"
  by (induction xs) (auto simp: first_where_def)

text \<open>
  The payments handle a gateway's answer for a ticket as the ticket shop does: seen as the payments'
  table, the shop's purchases after \<open>ticket_answer\<close> are those after \<open>apply_ticket_result\<close>.
\<close>

theorem ticket_answer_refines_payments:
  assumes "pd_tickets db = map (as_purchase sh) (sh_sales sh)"
  shows "pd_tickets (apply_ticket_result r ch db) = map (as_purchase (ticket_answer r ch sh)) (sh_sales (ticket_answer r ch sh))"
proof -
  have row: "first_where (\<lambda>t. tp_reference t = r) (pd_tickets db) = map_option (as_purchase sh) (sale_row r sh)"
    unfolding assms first_where_map sale_row_def by (simp add: as_purchase_def)
  have price: "sale_price x (change_sale r f sh) = sale_price x sh" for x f
    by (simp add: sale_price_def ticket_row_def change_sale_def)
  have put: "update_where (\<lambda>t. tp_reference t = r) (\<lambda>t. t\<lparr>tp_status := st\<rparr>) (map (as_purchase sh) (sh_sales sh))
      = map (as_purchase (change_sale r (\<lambda>y. y\<lparr>sl_status := st\<rparr>) sh)) (sh_sales (change_sale r (\<lambda>y. y\<lparr>sl_status := st\<rparr>) sh))" for st
  proof -
    have "update_where (\<lambda>t. tp_reference t = r) (\<lambda>t. t\<lparr>tp_status := st\<rparr>) (map (as_purchase sh) (sh_sales sh))
        = map (as_purchase (change_sale r (\<lambda>y. y\<lparr>sl_status := st\<rparr>) sh)) (update_where (\<lambda>x. sl_reference x = r) (\<lambda>y. y\<lparr>sl_status := st\<rparr>) (sh_sales sh))"
      by (rule update_where_map) (simp_all add: as_purchase_def price, simp add: sale_price_def ticket_row_def change_sale_def)
    then show ?thesis by (simp add: change_sale_def)
  qed
  have st: "tp_status (as_purchase sh x) = sl_status x" for x by (simp add: as_purchase_def)
  show ?thesis
    unfolding apply_ticket_result_def ticket_answer_def Let_def row
    by (cases "sale_row r sh") (simp_all add: assms put st del: map_update_where)
qed

theorem ticket_answer_refines_payments_witness:
  "pd_tickets (apply_ticket_result r ch (ex_pay_db\<lparr>pd_tickets := map (as_purchase ex_shop) (sh_sales ex_shop)\<rparr>)) = []"
  using ticket_answer_refines_payments [of "ex_pay_db\<lparr>pd_tickets := map (as_purchase ex_shop) (sh_sales ex_shop)\<rparr>" ex_shop r ch]
  by (simp add: ex_shop_def ticket_answer_def sale_row_def first_where_def)

section \<open>Nothing is charged without a confirmation\<close>

lemma ussd_vote_confirmed:
  assumes "snd (ussd_vote Z now c inputs db) \<noteq> db" and "inputs \<noteq> []"
  shows "4 \<le> length inputs \<and> nth_input 3 inputs = ''1''"
proof -
  define one where "one = ''1''"
  define nominee where "nominee = map_of (uz_nominees Z) (upper (strip (nth_input 1 inputs)))"
  define votes where "votes = parse_int (nth_input 2 inputs)"
  note step = assms(1) [unfolded ussd_vote_def Let_def nominee_def [symmetric] votes_def [symmetric] one_def [symmetric]]
  have l: "length inputs \<noteq> 1" using step by auto
  with step have "nominee \<noteq> None" by (cases nominee) simp_all
  then obtain ca where ca: "nominee = Some ca" by blast
  note step = step [unfolded ca option.case]
  have l2: "length inputs \<noteq> 2" using step l by (auto split: if_splits)
  with step l have "votes \<noteq> None" by (cases votes) (auto split: if_splits)
  then obtain n where n: "votes = Some n" by blast
  note step = step [unfolded n option.case]
  have l3: "length inputs \<noteq> 3" "nth_input 3 inputs = one" using step l l2 by (auto split: if_splits)
  moreover have "length inputs \<noteq> 0" using assms(2) by simp
  ultimately have "4 \<le> length inputs" using l l2 by linarith
  with l3 show ?thesis by (simp add: one_def)
qed


definition ex_ussd :: ussd_settings where
  "ex_ussd = \<lparr>uz_pay = ex_pay_settings, uz_token = [], uz_networks = [], uz_nominees = [], uz_providers = [(''mtn'', [''024''])]\<rparr>"

definition ex_dial :: ussd_call where
  "ex_dial = \<lparr>uc_token = [], uc_request = ex_buyer, uc_phone = ''0241'', uc_text = ''2*1*1*2**1'', uc_session = [], uc_choices = [],
     uc_answer = None, uc_accepted = True\<rparr>"

lemma ex_dial_texts:
  "split_on (CHR ''*'') ''2*1*1*2**1'' = [''2'', ''1'', ''1'', ''2'', [], ''1'']" "parse_int ''1'' = Some 1"
  "ghana_momo_provider ex_ussd ''0241'' = (Some ''mtn'', ''0241'')"
  by code_simp+


end
