(* ===== verification/Election_Forms.thy ===== *)
theory Election_Forms
  imports Forms Lifecycle Billing
begin

text \<open>
  The organizers' forms of voting/views.py: creating and editing an election, its positions and
  its candidates. A posted form is the list of its fields; a field given twice counts by its last
  value, which is the one that stands first here. Colours, texts, pictures and display orders are
  left out; ids come from counters, as those of a database sequence.
\<close>

type_synonym post = "(string \<times> string) list"

definition post_field :: "post \<Rightarrow> string \<Rightarrow> string" where
  "post_field p k = (case map_of p k of Some s \<Rightarrow> s | None \<Rightarrow> [])"

section \<open>Dates\<close>

text \<open>\<open>strptime\<close> with \<open>%Y-%m-%d %H:%M\<close>: year, month, day, hour and minute.\<close>

definition short_number :: "nat \<Rightarrow> nat \<Rightarrow> string \<Rightarrow> nat option" where
  "short_number lo hi s =
     (if s \<noteq> [] \<and> length s \<le> 2 \<and> list_all is_digit s \<and> lo \<le> digits_number s \<and> digits_number s \<le> hi
      then Some (digits_number s) else None)"

definition days_in :: "nat \<Rightarrow> nat \<Rightarrow> nat" where
  "days_in y m =
     (if m \<in> {4, 6, 9, 11} then 30
      else if m = 2 then (if y mod 4 = 0 \<and> (y mod 100 \<noteq> 0 \<or> y mod 400 = 0) then 29 else 28) else 31)"

type_synonym wall_time = "nat list"

definition read_wall_time :: "string \<Rightarrow> wall_time option" where
  "read_wall_time s =
     (case split_on (CHR ''-'') s of
        [y, m, rest] \<Rightarrow>
          (case split_on (CHR '':'') rest of
             [dh, mi] \<Rightarrow>
               (let h = rev (takeWhile (\<lambda>c. \<not> is_space c) (rev dh));
                    gap = take (length dh - length h) dh;
                    d = rev (dropWhile is_space (rev gap));
                    day = (case d of CHR '' '' # [c] \<Rightarrow> short_number 1 9 [c] | _ \<Rightarrow> short_number 1 31 d)
                in if length y \<noteq> 4 \<or> \<not> list_all is_digit y \<or> d = gap then None
                   else (case (short_number 1 12 m, day, short_number 0 23 h, short_number 0 59 mi) of
                           (Some mo, Some da, Some ho, Some mn) \<Rightarrow>
                             if digits_number y = 0 \<or> days_in (digits_number y) mo < da then None
                             else Some [digits_number y, mo, da, ho, mn]
                         | _ \<Rightarrow> None))
           | _ \<Rightarrow> None)
      | _ \<Rightarrow> None)"

record form_settings =
  fs_zone :: string
  fs_zones :: "string list"
  fs_instant :: "string \<Rightarrow> wall_time \<Rightarrow> int"
  fs_currency :: string
  fs_currencies :: "string list"

text \<open>The wall time of a form; its instant is that of the election's zone.\<close>

definition parse_local_datetime :: "string \<Rightarrow> string \<Rightarrow> wall_time option" where
  "parse_local_datetime d t = read_wall_time (strip d @ '' '' @ take 5 (strip t))"

definition valid_timezone :: "form_settings \<Rightarrow> string \<Rightarrow> bool" where
  "valid_timezone S z \<longleftrightarrow> z \<in> set (fs_zones S)"

fun earlier :: "wall_time \<Rightarrow> wall_time \<Rightarrow> bool" where
  "earlier (x # xs) (y # ys) = (x < y \<or> x = y \<and> earlier xs ys)"
| "earlier _ _ = False"

section \<open>Ballot rules\<close>

definition ballot_type_of :: "string \<Rightarrow> ballot_type option" where
  "ballot_type_of s =
     map_of [(''SINGLE'', SINGLE), (''FPTP'', FPTP), (''MULTIPLE'', MULTIPLE), (''APPROVAL'', APPROVAL), (''RANKED'', RANKED),
             (''SCORE'', SCORE), (''REFERENDUM'', REFERENDUM)] s"

definition form_int :: "post \<Rightarrow> string \<Rightarrow> int \<Rightarrow> int \<Rightarrow> int" where
  "form_int p k dflt lo =
     (case map_of p k of
        None \<Rightarrow> max lo dflt
      | Some s \<Rightarrow> (case parse_int s of None \<Rightarrow> dflt | Some n \<Rightarrow> max lo n))"

record ballot_rules =
  br_type :: ballot_type
  br_min :: int
  br_max :: int
  br_seats :: int
  br_max_score :: int
  br_abstain :: bool
  br_threshold :: rat

definition parse_ballot_rules :: "post \<Rightarrow> ballot_rules" where
  "parse_ballot_rules p =
     (let lo = form_int p ''min_select'' 1 0;
          t = post_field p ''referendum_threshold'';
          threshold = (case parse_non_negative_decimal (Some (if t = [] then ''50'' else t)) True of
              Inr (Some v) \<Rightarrow> if v = 0 then 50 else v | _ \<Rightarrow> 50)
      in \<lparr>br_type = (case ballot_type_of (post_field p ''ballot_type'') of Some b \<Rightarrow> b | None \<Rightarrow> SINGLE),
          br_min = lo, br_max = max lo (form_int p ''max_select'' 1 1), br_seats = form_int p ''seats'' 1 1,
          br_max_score = min (form_int p ''max_score'' 10 1) 100,
          br_abstain = (case map_of p ''allow_abstain'' of None \<Rightarrow> True | Some s \<Rightarrow> s = ''on''),
          br_threshold = min threshold 100\<rparr>)"

definition put_rules :: "ballot_rules \<Rightarrow> position \<Rightarrow> position" where
  "put_rules r p = p\<lparr>pos_type := br_type r, pos_min := br_min r, pos_max := br_max r, pos_abstain := br_abstain r,
     pos_seats := br_seats r, pos_max_score := br_max_score r, pos_threshold := to_cents (br_threshold r)\<rparr>"

section \<open>The election's own fields\<close>

datatype form_problem = Bad_zone | Bad_dates | Ends_too_early | No_title | Bad_mode | Bad_currency | Bad_fee | Bad_price | Mode_fixed | Over_plan

record event_values =
  ew_title :: string
  ew_mode :: "voting_mode option"
  ew_code_mode :: code_mode
  ew_timezone :: string
  ew_currency :: string
  ew_start :: "wall_time option"
  ew_end :: "wall_time option"
  ew_fee :: rat
  ew_price :: rat
  ew_tie_breaker :: bool

definition mode_of :: "string \<Rightarrow> voting_mode option" where
  "mode_of s = (if s = [] then Some PAY_TO_VOTE else map_of [(''Pay to Vote'', PAY_TO_VOTE), (''Code Voting'', CODE_VOTING)] s)"

definition or_else :: "string \<Rightarrow> string \<Rightarrow> string" where
  "or_else s d = (if s = [] then d else s)"

definition parsed_or_zero :: "field_error + rat option \<Rightarrow> rat" where
  "parsed_or_zero r = (case r of Inr (Some v) \<Rightarrow> v | _ \<Rightarrow> 0)"

text \<open>Only staff of the platform set its fee; \<open>old\<close> is the event that is edited with its fee.\<close>

definition asked_fee :: "account \<Rightarrow> (event \<times> rat) option \<Rightarrow> post \<Rightarrow> form_problem + rat" where
  "asked_fee actor old p =
     (case (old, is_platform_admin actor) of
        (Some (_, f), False) \<Rightarrow> Inr f
      | (None, False) \<Rightarrow> Inr 20
      | _ \<Rightarrow>
          (case post_field p ''platform_fee_percentage'' of
             [] \<Rightarrow> (case old of Some (_, f) \<Rightarrow> Inr f | None \<Rightarrow> Inr 20)
           | s \<Rightarrow> (case parse_non_negative_decimal (Some s) True of
                    Inr (Some f) \<Rightarrow> if 100 < f then Inl Bad_fee else Inr f
                  | _ \<Rightarrow> Inl Bad_fee)))"

text \<open>\<open>old\<close> is the event that is edited with its fee; a new one has none.\<close>

definition event_form_values ::
  "form_settings \<Rightarrow> account \<Rightarrow> (event \<times> rat) option \<Rightarrow> post \<Rightarrow> event_values \<times> form_problem list" where
  "event_form_values S actor old p =
     (let asked = or_else (post_field p ''timezone'') (case old of Some (ev, _) \<Rightarrow> ev_timezone ev | None \<Rightarrow> fs_zone S);
          zone = (if valid_timezone S asked then asked else fs_zone S);
          start = parse_local_datetime (post_field p ''start_date_date'') (post_field p ''start_date_time'');
          stop = parse_local_datetime (post_field p ''end_date_date'') (post_field p ''end_date_time'');
          title = take 200 (strip (post_field p ''title''));
          mode = mode_of (post_field p ''voting_mode'');
          currency = upper (or_else (post_field p ''currency'') (case old of Some (ev, _) \<Rightarrow> ev_currency ev | None \<Rightarrow> fs_currency S));
          secret = (mode = Some CODE_VOTING);
          fee = asked_fee actor old p;
          price = parse_non_negative_decimal (case map_of p ''vote_price'' of Some s \<Rightarrow> Some s | None \<Rightarrow> Some ''1.00'') True
      in (\<lparr>ew_title = title, ew_mode = mode,
           ew_code_mode = (if post_field p ''code_voting_mode'' = ''Student ID'' then STUDENT_ID else STANDARD),
           ew_timezone = zone, ew_currency = currency, ew_start = start, ew_end = stop,
           ew_fee = (if secret then 0 else case fee of Inr f \<Rightarrow> f | Inl _ \<Rightarrow> 0),
           ew_price = (if secret then 0 else parsed_or_zero price),
           ew_tie_breaker = (\<not> secret \<and> post_field p ''enable_tie_breaker'' = ''on'')\<rparr>,
          (if valid_timezone S asked then [] else [Bad_zone])
          @ (case (start, stop) of (Some a, Some b) \<Rightarrow> if earlier a b then [] else [Ends_too_early] | _ \<Rightarrow> [Bad_dates])
          @ (if title = [] then [No_title] else [])
          @ (if mode = None then [Bad_mode] else [])
          @ (if currency \<in> set (fs_currencies S) then [] else [Bad_currency])
          @ (if secret then []
             else (case fee of Inl e \<Rightarrow> [e] | Inr _ \<Rightarrow> []) @ (case price of Inr (Some _) \<Rightarrow> [] | _ \<Rightarrow> [Bad_price]))))"

definition put_values :: "form_settings \<Rightarrow> event_values \<Rightarrow> event \<Rightarrow> event" where
  "put_values S v ev = ev\<lparr>ev_title := ew_title v, ev_mode := the (ew_mode v), ev_code_mode := ew_code_mode v,
     ev_timezone := ew_timezone v, ev_currency := ew_currency v,
     ev_start := fs_instant S (ew_timezone v) (the (ew_start v)), ev_end := fs_instant S (ew_timezone v) (the (ew_end v)),
     ev_price := to_cents (ew_price v)\<rparr>"

section \<open>The forms' database\<close>

text \<open>
  An election with its fee and tie-breaker switch, the units of its organization, the nominee
  codes of all candidates of the platform and the candidates that a payment names.
\<close>

record forms_db =
  fo_db :: election_db
  fo_fee :: rat
  fo_tie_breaker :: bool
  fo_units :: "constituency list"
  fo_codes :: "(int \<times> string) list"
  fo_payments :: "int list"
  fo_next_position :: int
  fo_next_candidate :: int

datatype post_error =
    No_entry "unit guarded" | Not_now lifecycle_error | Name_required | No_such_position | No_such_candidate | Code_taken | No_names
  | Form_invalid "form_problem list" | Position_has_votes | Protected_by_payments | Bad_image | Server_error

type_synonym 'a formed = "(post_error + 'a) \<times> forms_db"

abbreviation fo_event :: "forms_db \<Rightarrow> event" where
  "fo_event f \<equiv> db_event (fo_db f)"

abbreviation fo_positions :: "forms_db \<Rightarrow> position list" where
  "fo_positions f \<equiv> positions (db_election (fo_db f))"

abbreviation fo_candidates :: "forms_db \<Rightarrow> candidate list" where
  "fo_candidates f \<equiv> candidates (db_election (fo_db f))"

definition change_db :: "(election_db \<Rightarrow> election_db) \<Rightarrow> forms_db \<Rightarrow> forms_db" where
  "change_db g f = f\<lparr>fo_db := g (fo_db f)\<rparr>"

definition change_positions :: "(position list \<Rightarrow> position list) \<Rightarrow> forms_db \<Rightarrow> forms_db" where
  "change_positions g = change_db (\<lambda>db. db\<lparr>db_election := (db_election db)\<lparr>positions := g (positions (db_election db))\<rparr>\<rparr>)"

definition change_candidates :: "(candidate list \<Rightarrow> candidate list) \<Rightarrow> forms_db \<Rightarrow> forms_db" where
  "change_candidates g = change_db (\<lambda>db. db\<lparr>db_election := (db_election db)\<lparr>candidates := g (candidates (db_election db))\<rparr>\<rparr>)"

definition form_note :: "string \<Rightarrow> account \<Rightarrow> forms_db \<Rightarrow> forms_db" where
  "form_note t actor = change_db (\<lambda>db. log_note (event_note t (Some actor) db) db)"

text \<open>The decorator of the views that take the election's id, and the check of those that do not.\<close>

definition enter :: "account \<Rightarrow> string \<Rightarrow> forms_db \<Rightarrow> 'a formed \<Rightarrow> 'a formed" where
  "enter actor perm f go =
     (case event_permission_required (db_tenancy (fo_db f)) [fo_event f] actor perm (ev_id (fo_event f)) of
        (Enter _, _) \<Rightarrow> go
      | (Login_required, _) \<Rightarrow> (Inl (No_entry Login_required), f)
      | (_, tn) \<Rightarrow> (Inl (No_entry Denied), change_db (\<lambda>db. db\<lparr>db_tenancy := tn\<rparr>) f))"

definition allowed :: "account \<Rightarrow> string \<Rightarrow> forms_db \<Rightarrow> 'a formed \<Rightarrow> 'a formed" where
  "allowed actor perm f go =
     (if \<not> us_authenticated actor then (Inl (No_entry Login_required), f)
      else case check_perm (db_tenancy (fo_db f)) (Some actor) perm (Election (fo_event f)) of
             Inl _ \<Rightarrow> (Inl (No_entry Denied), f)
           | Inr _ \<Rightarrow> go)"

text \<open>\<open>_editable_or_message\<close>: the view goes on with the event as the check left it.\<close>

definition editable :: "account \<Rightarrow> string \<Rightarrow> forms_db \<Rightarrow> (event \<Rightarrow> forms_db \<Rightarrow> 'a formed) \<Rightarrow> 'a formed" where
  "editable actor scope f go =
     (case require_editable (fo_event f) scope (Some actor) (fo_db f) of
        Inl e \<Rightarrow> (Inl (Not_now e), f)
      | Inr (ev, db) \<Rightarrow> go ev (f\<lparr>fo_db := db\<rparr>))"

section \<open>Events\<close>

definition edit_event :: "form_settings \<Rightarrow> account \<Rightarrow> post \<Rightarrow> forms_db \<Rightarrow> unit formed" where
  "edit_event S actor p f =
     enter actor ''election.edit'' f (editable actor ''config'' f (\<lambda>ev f1.
       let (v, errors) = event_form_values S actor (Some (ev, fo_fee f1)) p;
           fixed = (ew_mode v \<noteq> Some (ev_mode ev) \<and> (db_voters (fo_db f1) \<noteq> [] \<or> db_ledger (fo_db f1) \<noteq> []));
           problems = errors @ (if fixed then [Mode_fixed] else [])
       in if problems \<noteq> [] then (Inl (Form_invalid problems), f1)
          else (Inr (), form_note ''ELECTION_CONFIG_UPDATED'' actor
                 ((change_db (update_event (\<lambda>_. put_values S v ev)) f1)
                    \<lparr>fo_fee := to_cents (ew_fee v), fo_tie_breaker := ew_tie_breaker v\<rparr>))))"

text \<open>The columns' defaults, the form's values and what depends on the mode.\<close>

definition new_event :: "form_settings \<Rightarrow> account \<Rightarrow> int option \<Rightarrow> event_values \<Rightarrow> int \<Rightarrow> event" where
  "new_event S actor org v i =
     (let secret = (ew_mode v = Some CODE_VOTING) in
      put_values S v
        \<lparr>ev_id = i, ev_org = org, ev_mode = PAY_TO_VOTE, ev_code_mode = STANDARD, ev_title = [], ev_start = 0, ev_end = 0,
         ev_timezone = [], ev_currency = [], ev_active = True, ev_status = DRAFT,
         ev_visibility = (if secret then AFTER_PUBLISH else LIVE), ev_auth_methods = [''CODE''], ev_second_factor = False,
         ev_self_registration = False, ev_email_domains = [], ev_dual_approval = secret, ev_config_frozen = False,
         ev_ballot_frozen = False, ev_candidates_frozen = False, ev_voters_frozen = False, ev_legal_hold = False,
         ev_submitted_by = None, ev_reviewed_by = None, ev_record_constituency = False, ev_min_anonymity = 5,
         ev_custody = SYSTEM, ev_threshold = 0, ev_max_per_voter = None, ev_min_per_payment = 1, ev_max_per_payment = None,
         ev_max_spend = None, ev_price = 1, ev_organizer = Some (us_id actor), ev_opened_at = None, ev_closed_at = None,
         ev_certified_at = None, ev_published_at = None, ev_archived_at = None\<rparr>)"

text \<open>
  \<open>org\<close> is the answer of \<open>current_organization\<close>, \<open>active\<close> the number of its elections that are not
  archived, \<open>i\<close> the new row's id. The result is the row with its fee and tie-breaker switch.
\<close>

definition create_event ::
  "form_settings \<Rightarrow> billing_settings \<Rightarrow> int \<Rightarrow> account \<Rightarrow> int option \<Rightarrow> int \<Rightarrow> int \<Rightarrow> post \<Rightarrow> tenancy \<Rightarrow> billing_db
    \<Rightarrow> (post_error + event \<times> rat \<times> bool) \<times> tenancy \<times> billing_db" where
  "create_event S B now actor org i active p tn bl =
     (if \<not> us_authenticated actor then (Inl (No_entry Login_required), tn, bl)
      else if org = None \<and> \<not> is_platform_admin actor then (Inl (No_entry Denied), tn, bl)
      else case check_perm tn (Some actor) ''election.create'' (case org of Some o' \<Rightarrow> Organization o' | None \<Rightarrow> Anything) of
             Inl _ \<Rightarrow> (Inl (No_entry Denied), tn, bl)
           | Inr _ \<Rightarrow>
               (let (v, errors) = event_form_values S actor None p;
                    problems = (if errors \<noteq> [] then errors
                       else case org of
                              None \<Rightarrow> []
                            | Some o' \<Rightarrow> (case check_limit B now o' ''max_active_elections'' (active + 1) bl of Inl _ \<Rightarrow> [Over_plan] | Inr _ \<Rightarrow> []))
                in if problems \<noteq> [] then (Inl (Form_invalid problems), tn, bl)
                   else (Inr (new_event S actor org v i, to_cents (ew_fee v), ew_tie_breaker v),
                         tn\<lparr>tn_log := tn_log tn @ [plain_note ''ELECTION_CREATED'' (Some (us_id actor)) (Some (i, org))]\<rparr>,
                         record_usage now org ELECTION_CREATED 1 bl)))"

section \<open>Positions\<close>

definition unit_named :: "int \<Rightarrow> string \<Rightarrow> constituency list \<Rightarrow> post_error + constituency option" where
  "unit_named org s units =
     (case parse_int s of
        None \<Rightarrow> Inl Server_error
      | Some i \<Rightarrow> Inr (first_where (\<lambda>c. co_id c = i \<and> co_org c = org) units))"

definition form_price :: "post \<Rightarrow> rat option" where
  "form_price p = (case parse_non_negative_decimal (map_of p ''vote_price'') False of Inr v \<Rightarrow> map_option to_cents v | Inl _ \<Rightarrow> None)"

definition add_category :: "account \<Rightarrow> post \<Rightarrow> forms_db \<Rightarrow> int formed" where
  "add_category actor p f =
     enter actor ''election.edit'' f (editable actor ''ballot'' f (\<lambda>ev f1.
       let name = take 100 (strip (post_field p ''name'')); i = fo_next_position f1 in
       if name = [] then (Inl Name_required, f1)
       else case (case ev_org ev of
                    Some org \<Rightarrow> if post_field p ''constituency'' = [] then Inr None else unit_named org (post_field p ''constituency'') (fo_units f1)
                  | None \<Rightarrow> Inr None) of
              Inl e \<Rightarrow> (Inl e, f1)
            | Inr un \<Rightarrow>
                (Inr i, form_note ''ELECTION_POSITION_ADDED'' actor
                  (change_positions (\<lambda>ps. ps @ [put_rules (parse_ballot_rules p)
                      \<lparr>pos_id = i, pos_name = name, pos_type = SINGLE, pos_min = 1, pos_max = 1, pos_abstain = True, pos_seats = 1,
                       pos_max_score = 10, pos_threshold = 50, pos_constituency = un, pos_price = form_price p,
                       pos_max_per_voter = None\<rparr>])
                    (f1\<lparr>fo_next_position := i + 1\<rparr>)))))"

definition edit_category :: "account \<Rightarrow> int \<Rightarrow> post \<Rightarrow> forms_db \<Rightarrow> unit formed" where
  "edit_category actor i p f =
     (case first_where (\<lambda>q. pos_id q = i) (fo_positions f) of
        None \<Rightarrow> (Inl No_such_position, f)
      | Some q \<Rightarrow> allowed actor ''election.edit'' f (editable actor ''ballot'' f (\<lambda>ev f1.
          case (case ev_org ev of
                  Some org \<Rightarrow> unit_named org (or_else (post_field p ''constituency'') ''0'') (fo_units f1)
                | None \<Rightarrow> Inr (pos_constituency q)) of
            Inl e \<Rightarrow> (Inl e, f1)
          | Inr un \<Rightarrow>
              (Inr (), form_note ''ELECTION_POSITION_UPDATED'' actor
                (change_positions (update_where (\<lambda>x. pos_id x = i)
                    (\<lambda>_. (put_rules (parse_ballot_rules p) q)
                       \<lparr>pos_name := take 100 (strip (or_else (post_field p ''name'') (pos_name q))), pos_constituency := un,
                        pos_price := form_price p,
                        pos_max_per_voter := (case parse_non_negative_int (map_of p ''max_votes_per_voter'') False of
                            Inr v \<Rightarrow> v | Inl _ \<Rightarrow> None)\<rparr>)) f1)))))"

definition held_by :: "int \<Rightarrow> candidate \<Rightarrow> bool" where
  "held_by i c \<longleftrightarrow> ca_category c = Some i"

text \<open>The rows that go with a position: its candidates with their codes, and its eligibility rules.\<close>

definition drop_position :: "int \<Rightarrow> forms_db \<Rightarrow> forms_db" where
  "drop_position i f =
     (let gone = map ca_id (filter (held_by i) (fo_candidates f)) in
      change_db (\<lambda>db. db\<lparr>db_election := (db_election db)\<lparr>rules := filter (\<lambda>r. ru_position r \<noteq> Some i) (rules (db_election db))\<rparr>\<rparr>)
        (change_positions (filter (\<lambda>q. pos_id q \<noteq> i)) (change_candidates (filter (\<lambda>c. \<not> held_by i c))
          (f\<lparr>fo_codes := filter (\<lambda>(c, _). c \<notin> set gone) (fo_codes f)\<rparr>))))"

definition delete_category :: "account \<Rightarrow> int \<Rightarrow> forms_db \<Rightarrow> unit formed" where
  "delete_category actor i f =
     (case first_where (\<lambda>q. pos_id q = i) (fo_positions f) of
        None \<Rightarrow> (Inl No_such_position, f)
      | Some q \<Rightarrow> allowed actor ''election.edit'' f (editable actor ''ballot'' f (\<lambda>ev f1.
          let ids = map ca_id (filter (held_by i) (fo_candidates f1)) in
          if exists_where (\<lambda>v. lv_candidate v \<in> set ids) (db_ledger (fo_db f1)) then (Inl Position_has_votes, f1)
          else let f2 = form_note ''ELECTION_POSITION_DELETED'' actor f1
               in if exists_where (\<lambda>c. c \<in> set ids) (fo_payments f2) then (Inl Protected_by_payments, f2)
                  else (Inr (), drop_position i f2))))"

section \<open>Candidates\<close>

record candidate_values =
  cv_category :: "int option"
  cv_name :: string
  cv_code :: "string option"
  cv_affiliation :: string

definition position_named :: "string \<Rightarrow> forms_db \<Rightarrow> post_error + int option" where
  "position_named s f =
     (if s = [] then Inr None
      else case parse_int s of
             None \<Rightarrow> Inl Server_error
           | Some i \<Rightarrow> Inr (map_option pos_id (first_where (\<lambda>q. pos_id q = i) (fo_positions f))))"

definition candidate_from_post :: "post \<Rightarrow> bool \<Rightarrow> int option \<Rightarrow> forms_db \<Rightarrow> post_error + candidate_values" where
  "candidate_from_post p image_ok own f =
     (case position_named (post_field p ''category'') f of
        Inl e \<Rightarrow> Inl e
      | Inr cat \<Rightarrow>
          (let name = take 100 (strip (post_field p ''name''));
               code = take 10 (upper (strip (post_field p ''nominee_code'')))
           in if post_field p ''category'' \<noteq> [] \<and> cat = None then Inl No_such_position
              else if name = [] then Inl Name_required
              else if code \<noteq> [] \<and> exists_where (\<lambda>(c, x). x = code \<and> Some c \<noteq> own) (fo_codes f) then Inl Code_taken
              else if \<not> image_ok then Inl Bad_image
              else Inr \<lparr>cv_category = cat, cv_name = name, cv_code = (if code = [] then None else Some code),
                        cv_affiliation = take 120 (post_field p ''affiliation'')\<rparr>))"

text \<open>\<open>Candidate.save\<close>: without a code, the first free one of twenty draws of two letters and three digits.\<close>

definition drawn_code :: "nat \<times> nat \<times> nat \<Rightarrow> string" where
  "drawn_code d =
     (case d of (a, b, n) \<Rightarrow>
        [char_of (65 + a mod 26 :: nat), char_of (65 + b mod 26 :: nat), digit_char (n div 100 mod 10), digit_char (n div 10 mod 10),
         digit_char (n mod 10)])"

definition save_code :: "int \<Rightarrow> string option \<Rightarrow> (nat \<times> nat \<times> nat) list \<Rightarrow> (int \<times> string) list \<Rightarrow> (int \<times> string) list" where
  "save_code i code draws codes =
     (let others = filter (\<lambda>(c, _). c \<noteq> i) codes in
      case (case code of
              Some x \<Rightarrow> Some x
            | None \<Rightarrow> first_where (\<lambda>x. \<not> exists_where (\<lambda>(_, y). y = x) codes) (map drawn_code (take 20 draws))) of
        Some x \<Rightarrow> others @ [(i, x)]
      | None \<Rightarrow> others)"

definition insert_candidate :: "candidate_values \<Rightarrow> (nat \<times> nat \<times> nat) list \<Rightarrow> forms_db \<Rightarrow> forms_db" where
  "insert_candidate v draws f =
     (let i = fo_next_candidate f in
      change_candidates (\<lambda>cs. cs @ [\<lparr>ca_id = i, ca_event = ev_id (fo_event f), ca_category = cv_category v, ca_name = cv_name v,
           ca_affiliation = cv_affiliation v, ca_status = ACTIVE, ca_max_per_voter = None\<rparr>])
        (f\<lparr>fo_next_candidate := i + 1, fo_codes := save_code i (cv_code v) draws (fo_codes f)\<rparr>))"

definition add_candidate :: "account \<Rightarrow> post \<Rightarrow> bool \<Rightarrow> (nat \<times> nat \<times> nat) list \<Rightarrow> forms_db \<Rightarrow> int formed" where
  "add_candidate actor p image_ok draws f =
     enter actor ''candidate.create'' f (editable actor ''candidates'' f (\<lambda>ev f1.
       case candidate_from_post p image_ok None f1 of
         Inl e \<Rightarrow> (Inl e, f1)
       | Inr v \<Rightarrow> (Inr (fo_next_candidate f1), form_note ''ELECTION_CANDIDATE_ADDED'' actor (insert_candidate v draws f1))))"

definition status_named :: "string \<Rightarrow> candidate_status option" where
  "status_named s =
     map_of [(''ACTIVE'', ACTIVE), (''WITHDRAWN'', WITHDRAWN), (''DISQUALIFIED'', DISQUALIFIED), (''ELIMINATED'', ELIMINATED)] s"

text \<open>A new position or a new status counts as a change of the candidates, anything else of a profile.\<close>

definition structural :: "post \<Rightarrow> candidate \<Rightarrow> bool" where
  "structural p c \<longleftrightarrow>
     (case ca_category c of Some i \<Rightarrow> str_int i | None \<Rightarrow> []) \<noteq> post_field p ''category''
     \<or> (post_field p ''status'' \<noteq> [] \<and> status_named (post_field p ''status'') \<noteq> Some (ca_status c))"

definition edit_candidate :: "account \<Rightarrow> int \<Rightarrow> post \<Rightarrow> bool \<Rightarrow> (nat \<times> nat \<times> nat) list \<Rightarrow> forms_db \<Rightarrow> unit formed" where
  "edit_candidate actor i p image_ok draws f =
     (case first_where (\<lambda>c. ca_id c = i) (fo_candidates f) of
        None \<Rightarrow> (Inl No_such_candidate, f)
      | Some c \<Rightarrow> allowed actor ''candidate.edit'' f
          (editable actor (if structural p c then ''candidates'' else ''candidate_profile'') f (\<lambda>ev f1.
             case candidate_from_post p image_ok (Some i) f1 of
               Inl e \<Rightarrow> (Inl e, f1)
             | Inr v \<Rightarrow>
                 (Inr (), form_note ''ELECTION_CANDIDATE_UPDATED'' actor
                   (change_candidates (update_where (\<lambda>x. ca_id x = i)
                       (\<lambda>_. c\<lparr>ca_category := cv_category v, ca_name := cv_name v, ca_affiliation := cv_affiliation v,
                              ca_status := (case status_named (post_field p ''status'') of Some s \<Rightarrow> s | None \<Rightarrow> ca_status c)\<rparr>))
                     (f1\<lparr>fo_codes := save_code i (cv_code v) draws (fo_codes f1)\<rparr>))))))"

text \<open>The non-empty lines of a text: any of Python's line boundaries ends a line.\<close>

definition line_end :: "char \<Rightarrow> bool" where
  "line_end c \<longleftrightarrow> (of_char c :: nat) \<in> {10, 11, 12, 13, 28, 29, 30, 133}"

fun text_lines :: "string \<Rightarrow> string \<Rightarrow> string list" where
  "text_lines acc [] = [rev acc]"
| "text_lines acc (c # s) = (if line_end c then rev acc # text_lines [] s else text_lines (c # acc) s)"

definition names_listed :: "string \<Rightarrow> string list" where
  "names_listed t = take 500 (map (\<lambda>l. take 100 (strip l)) (filter (\<lambda>l. strip l \<noteq> []) (text_lines [] t)))"

definition bulk_add_candidates :: "account \<Rightarrow> post \<Rightarrow> (nat \<Rightarrow> (nat \<times> nat \<times> nat) list) \<Rightarrow> forms_db \<Rightarrow> nat formed" where
  "bulk_add_candidates actor p draws f =
     enter actor ''candidate.create'' f (editable actor ''candidates'' f (\<lambda>ev f1.
       case position_named (post_field p ''bulk_category'') f1 of
         Inl e \<Rightarrow> (Inl e, f1)
       | Inr cat \<Rightarrow>
           (let names = names_listed (post_field p ''bulk_names'') in
            if names = [] then (Inl No_names, f1)
            else (Inr (length names), form_note ''ELECTION_CANDIDATES_BULK_ADDED'' actor
                   (fold (\<lambda>(k, n). insert_candidate \<lparr>cv_category = cat, cv_name = n, cv_code = None, cv_affiliation = []\<rparr> (draws k))
                      (zip [0..<length names] names) f1)))))"

end
