(* ===== verification/Form_Props.thy ===== *)
theory Form_Props
  imports Election_Forms
begin

text \<open>
  The organizers' forms over any sequence of requests: an election that was well-formed stays so,
  and once a secret vote has begun no form changes what is on the ballot.
\<close>

section \<open>Well-formed elections\<close>

definition position_ok :: "position \<Rightarrow> bool" where
  "position_ok q \<longleftrightarrow> 0 \<le> pos_min q \<and> pos_min q \<le> pos_max q \<and> 1 \<le> pos_max q \<and> 1 \<le> pos_seats q
     \<and> 1 \<le> pos_max_score q \<and> pos_max_score q \<le> 100 \<and> 0 \<le> pos_threshold q \<and> pos_threshold q \<le> 100
     \<and> (\<forall>v. pos_price q = Some v \<longrightarrow> 0 \<le> v) \<and> (\<forall>n. pos_max_per_voter q = Some n \<longrightarrow> 0 \<le> n)"

definition terms_ok :: "event \<Rightarrow> rat \<Rightarrow> bool \<Rightarrow> bool" where
  "terms_ok ev fee tie \<longleftrightarrow> 0 \<le> fee \<and> fee \<le> 100 \<and> 0 \<le> ev_price ev
     \<and> (is_institutional ev \<longrightarrow> fee = 0 \<and> ev_price ev = 0 \<and> \<not> tie)"

definition ballot_rows_ok :: "position list \<Rightarrow> int \<Rightarrow> candidate list \<Rightarrow> int \<Rightarrow> (int \<times> string) list \<Rightarrow> int \<Rightarrow> bool" where
  "ballot_rows_ok ps np cs nc codes e \<longleftrightarrow>
     list_all position_ok ps \<and> distinct (map pos_id ps) \<and> (\<forall>q\<in>set ps. pos_id q < np)
     \<and> distinct (map ca_id cs) \<and> (\<forall>c\<in>set cs. ca_id c < nc \<and> ca_event c = e \<and> (\<forall>i. ca_category c = Some i \<longrightarrow> i \<in> pos_id ` set ps))
     \<and> distinct (map fst codes) \<and> distinct (map snd codes)"

definition election_ok :: "forms_db \<Rightarrow> bool" where
  "election_ok f \<longleftrightarrow> terms_ok (fo_event f) (fo_fee f) (fo_tie_breaker f)
     \<and> ballot_rows_ok (fo_positions f) (fo_next_position f) (fo_candidates f) (fo_next_candidate f) (fo_codes f) (ev_id (fo_event f))"

section \<open>Requests\<close>

datatype form_request =
    Edit_event post
  | Add_position post
  | Edit_position int post
  | Delete_position int
  | Add_candidate post bool "(nat \<times> nat \<times> nat) list"
  | Edit_candidate int post bool "(nat \<times> nat \<times> nat) list"
  | Add_candidates post "nat \<Rightarrow> (nat \<times> nat \<times> nat) list"

fun form_step :: "form_settings \<Rightarrow> account \<times> form_request \<Rightarrow> forms_db \<Rightarrow> forms_db" where
  "form_step S (a, Edit_event p) f = snd (edit_event S a p f)"
| "form_step S (a, Add_position p) f = snd (add_category a p f)"
| "form_step S (a, Edit_position i p) f = snd (edit_category a i p f)"
| "form_step S (a, Delete_position i) f = snd (delete_category a i f)"
| "form_step S (a, Add_candidate p ok ds) f = snd (add_candidate a p ok ds f)"
| "form_step S (a, Edit_candidate i p ok ds) f = snd (edit_candidate a i p ok ds f)"
| "form_step S (a, Add_candidates p ds) f = snd (bulk_add_candidates a p ds f)"

definition form_run :: "form_settings \<Rightarrow> (account \<times> form_request) list \<Rightarrow> forms_db \<Rightarrow> forms_db" where
  "form_run S rs f = fold (form_step S) rs f"

lemma form_run_simps [simp]: "form_run S [] f = f" "form_run S (q # rs) f = form_run S rs (form_step S q f)"
  by (simp_all add: form_run_def)

section \<open>Guards\<close>

lemma enter_cases:
  obtains "snd (enter actor perm f go) = snd go"
    | tn where "snd (enter actor perm f go) = change_db (\<lambda>db. db\<lparr>db_tenancy := tn\<rparr>) f"
    | "snd (enter actor perm f go) = f"
proof -
  obtain g tn where "event_permission_required (db_tenancy (fo_db f)) [fo_event f] actor perm (ev_id (fo_event f)) = (g, tn)"
    by fastforce
  with that show thesis by (cases g) (simp_all add: enter_def)
qed

lemma allowed_cases: "snd (allowed actor perm f go) = snd go \<or> snd (allowed actor perm f go) = f"
  by (auto simp: allowed_def split: sum.split)

text \<open>Where the check lets a view through, the event is as it was but for the reset of an approval.\<close>

definition reset :: "event \<Rightarrow> event" where
  "reset ev = ev\<lparr>ev_status := DRAFT\<rparr>"

lemma editable_cases:
  obtains "snd (editable actor scope f go) = f"
    | "edit_policy (fo_event f) scope = Edit_allowed" "snd (editable actor scope f go) = snd (go (fo_event f) f)"
    | "edit_policy (fo_event f) scope = Edit_resets"
      "snd (editable actor scope f go) = snd (go (reset (fo_event f))
         (change_db (\<lambda>db. log_note (event_note ''ELECTION_APPROVAL_RESET'' (Some actor) db)
            (update_event (\<lambda>e. e\<lparr>ev_status := DRAFT, ev_reviewed_by := None\<rparr>) db)) f))"
  by (cases "edit_policy (fo_event f) scope") (auto simp: editable_def require_editable_def reset_def change_db_def)

lemma change_db_simps [simp]:
  "fo_db (change_db g f) = g (fo_db f)" "fo_fee (change_db g f) = fo_fee f" "fo_tie_breaker (change_db g f) = fo_tie_breaker f"
  "fo_codes (change_db g f) = fo_codes f" "fo_next_position (change_db g f) = fo_next_position f"
  "fo_next_candidate (change_db g f) = fo_next_candidate f" "fo_units (change_db g f) = fo_units f"
  by (simp_all add: change_db_def)

lemma form_note_simps [simp]:
  "fo_event (form_note t a f) = fo_event f" "fo_positions (form_note t a f) = fo_positions f"
  "fo_candidates (form_note t a f) = fo_candidates f" "fo_codes (form_note t a f) = fo_codes f"
  "fo_fee (form_note t a f) = fo_fee f" "fo_tie_breaker (form_note t a f) = fo_tie_breaker f"
  "fo_next_position (form_note t a f) = fo_next_position f" "fo_next_candidate (form_note t a f) = fo_next_candidate f"
  by (simp_all add: form_note_def)

lemma change_rows_simps [simp]:
  "fo_event (change_positions g f) = fo_event f" "fo_positions (change_positions g f) = g (fo_positions f)"
  "fo_candidates (change_positions g f) = fo_candidates f" "fo_codes (change_positions g f) = fo_codes f"
  "fo_event (change_candidates h f) = fo_event f" "fo_positions (change_candidates h f) = fo_positions f"
  "fo_candidates (change_candidates h f) = h (fo_candidates f)" "fo_codes (change_candidates h f) = fo_codes f"
  "fo_fee (change_positions g f) = fo_fee f" "fo_tie_breaker (change_positions g f) = fo_tie_breaker f"
  "fo_fee (change_candidates h f) = fo_fee f" "fo_tie_breaker (change_candidates h f) = fo_tie_breaker f"
  "fo_next_position (change_positions g f) = fo_next_position f" "fo_next_candidate (change_positions g f) = fo_next_candidate f"
  "fo_next_position (change_candidates h f) = fo_next_position f" "fo_next_candidate (change_candidates h f) = fo_next_candidate f"
  by (simp_all add: change_positions_def change_candidates_def)

lemma ok_note [simp]: "election_ok (form_note t a f) = election_ok f"
  by (simp add: election_ok_def)

lemma ok_tenancy [simp]: "election_ok (change_db (\<lambda>db. db\<lparr>db_tenancy := tn\<rparr>) f) = election_ok f"
  by (simp add: election_ok_def)

lemma terms_status [simp]:
  "terms_ok (ev\<lparr>ev_status := s\<rparr>) fee tie = terms_ok ev fee tie" "terms_ok (ev\<lparr>ev_reviewed_by := r\<rparr>) fee tie = terms_ok ev fee tie"
  by (simp_all add: terms_ok_def is_institutional_def)

text \<open>A view keeps elections well-formed if its body does, started with the event it was given.\<close>

lemma enter_ok: "election_ok f \<Longrightarrow> election_ok (snd go) \<Longrightarrow> election_ok (snd (enter actor perm f go))"
  by (rule enter_cases [of actor perm f go]) simp_all

lemma allowed_ok: "election_ok f \<Longrightarrow> election_ok (snd go) \<Longrightarrow> election_ok (snd (allowed actor perm f go))"
  using allowed_cases [of actor perm f go] by auto

lemma editable_ok:
  assumes "election_ok f"
    and "\<And>ev f1. election_ok f1 \<Longrightarrow> terms_ok ev (fo_fee f1) (fo_tie_breaker f1) \<Longrightarrow> ev_id ev = ev_id (fo_event f1)
      \<Longrightarrow> fo_positions f1 = fo_positions f \<Longrightarrow> fo_candidates f1 = fo_candidates f \<Longrightarrow> election_ok (snd (go ev f1))"
  shows "election_ok (snd (editable actor scope f go))"
proof (rule editable_cases [of actor scope f go])
  show "election_ok (snd (editable actor scope f go))" if "snd (editable actor scope f go) = f" using that assms(1) by simp
  show "election_ok (snd (editable actor scope f go))" if "snd (editable actor scope f go) = snd (go (fo_event f) f)"
    using that assms by (simp add: election_ok_def)
  let ?f = "change_db (\<lambda>db. log_note (event_note ''ELECTION_APPROVAL_RESET'' (Some actor) db)
            (update_event (\<lambda>e. e\<lparr>ev_status := DRAFT, ev_reviewed_by := None\<rparr>) db)) f"
  have "election_ok ?f" using assms(1) by (simp add: election_ok_def)
  then have "election_ok (snd (go (reset (fo_event f)) ?f))"
    by (rule assms(2)) (use assms(1) in \<open>simp_all add: election_ok_def reset_def\<close>)
  then show "election_ok (snd (editable actor scope f go))" if "snd (editable actor scope f go) = snd (go (reset (fo_event f)) ?f)"
    using that by simp
qed

section \<open>Fields\<close>

lemma form_int_least: "lo \<le> dflt \<Longrightarrow> lo \<le> form_int p k dflt lo"
  by (auto simp: form_int_def split: option.split)

lemma cents_bounds: "0 \<le> x \<Longrightarrow> 0 \<le> to_cents x" "x \<le> 100 \<Longrightarrow> to_cents x \<le> 100"
  using round_even_mono [of 0 "x * 100"] round_even_mono [of "x * 100" 10000] round_even_int [of 10000]
  by (simp_all add: to_cents_def divide_le_eq)

lemma to_cents_zero [simp]: "to_cents 0 = 0"
  by (simp add: to_cents_def)

lemma put_rules_simps [simp]:
  "pos_id (put_rules r q) = pos_id q" "pos_price (put_rules r q) = pos_price q"
  "pos_max_per_voter (put_rules r q) = pos_max_per_voter q"
  by (simp_all add: put_rules_def)

lemma rules_ok:
  assumes "\<And>v. pos_price q = Some v \<Longrightarrow> 0 \<le> v" and "\<And>n. pos_max_per_voter q = Some n \<Longrightarrow> 0 \<le> n"
  shows "position_ok (put_rules (parse_ballot_rules p) q)"
proof -
  have "0 \<le> br_threshold (parse_ballot_rules p)" "br_threshold (parse_ballot_rules p) \<le> 100"
    using parsed_decimal by (auto simp: parse_ballot_rules_def Let_def split: sum.split option.split)
  moreover have "0 \<le> form_int p ''min_select'' 1 0" "1 \<le> form_int p ''max_select'' 1 1" "1 \<le> form_int p ''seats'' 1 1"
      "1 \<le> form_int p ''max_score'' 10 1"
    by (rule form_int_least, simp)+
  ultimately show ?thesis
    using assms by (simp add: position_ok_def put_rules_def cents_bounds) (simp add: parse_ballot_rules_def Let_def)
qed

lemma form_price_ok: "form_price p = Some v \<Longrightarrow> 0 \<le> v"
  by (auto simp: form_price_def cents_bounds dest: parsed_decimal split: sum.splits)

text \<open>What a form that was accepted says of the election's terms.\<close>

lemma asked_fee_bounds:
  assumes "asked_fee actor old p = Inr fee" and "case old of Some (ev, f) \<Rightarrow> 0 \<le> f \<and> f \<le> 100 | None \<Rightarrow> True"
  shows "0 \<le> fee \<and> fee \<le> 100"
  using assms parsed_decimal by (fastforce simp: asked_fee_def split: option.splits bool.splits prod.splits list.splits sum.splits if_splits)

lemma event_form_terms:
  assumes "event_form_values S actor old p = (v, [])"
    and "case old of Some (ev, fee) \<Rightarrow> 0 \<le> fee \<and> fee \<le> 100 | None \<Rightarrow> True"
  shows "0 \<le> ew_fee v" "ew_fee v \<le> 100" "0 \<le> ew_price v" "ew_mode v \<noteq> None"
    "ew_mode v = Some CODE_VOTING \<Longrightarrow> ew_fee v = 0 \<and> ew_price v = 0 \<and> \<not> ew_tie_breaker v"
    "ew_title v \<noteq> []" "ew_currency v \<in> set (fs_currencies S)"
    "\<exists>a b. ew_start v = Some a \<and> ew_end v = Some b \<and> earlier a b"
proof -
  note form = assms(1) [unfolded event_form_values_def Let_def prod.inject append_is_Nil_conv]
  note v = form [THEN conjunct1, symmetric]
  note none = form [THEN conjunct2]
  show m: "ew_mode v \<noteq> None" using none unfolding v by (simp split: if_splits)
  show "ew_title v \<noteq> []" using none unfolding v by (simp split: if_splits)
  show "ew_currency v \<in> set (fs_currencies S)" using none unfolding v by (simp split: if_splits)
  show "ew_mode v = Some CODE_VOTING \<Longrightarrow> ew_fee v = 0 \<and> ew_price v = 0 \<and> \<not> ew_tie_breaker v" unfolding v by simp
  show "0 \<le> ew_price v" unfolding v using parsed_decimal by (simp add: parsed_or_zero_def split: sum.split option.split)
  have "0 \<le> ew_fee v \<and> ew_fee v \<le> 100"
    unfolding v using asked_fee_bounds [where actor = actor and p = p and old = old, OF _ assms(2)] by (simp split: sum.split)
  then show "0 \<le> ew_fee v" "ew_fee v \<le> 100" by simp_all
  show "\<exists>a b. ew_start v = Some a \<and> ew_end v = Some b \<and> earlier a b"
    using none unfolding v by (simp split: option.splits if_splits)
qed

section \<open>Rows\<close>

lemma map_put_row: "(\<And>x. P x \<Longrightarrow> key x = key q) \<Longrightarrow> map key (update_where P (\<lambda>_. q) xs) = map key xs"
  by (simp add: map_update_where)

lemma image_put_row: "(\<And>x. P x \<Longrightarrow> key x = key q) \<Longrightarrow> key ` set (update_where P (\<lambda>_. q) xs) = key ` set xs"
  by (metis map_put_row list.set_map)

lemma rows_add_position:
  "ballot_rows_ok ps np cs nc codes e \<Longrightarrow> position_ok q \<Longrightarrow> pos_id q = np \<Longrightarrow> ballot_rows_ok (ps @ [q]) (np + 1) cs nc codes e"
  by (fastforce simp: ballot_rows_ok_def)

lemma rows_put_position:
  assumes "ballot_rows_ok ps np cs nc codes e" and "position_ok q" and "pos_id q = i" and "\<exists>x\<in>set ps. pos_id x = i"
  shows "ballot_rows_ok (update_where (\<lambda>x. pos_id x = i) (\<lambda>_. q) ps) np cs nc codes e"
proof -
  have "map pos_id (update_where (\<lambda>x. pos_id x = i) (\<lambda>_. q) ps) = map pos_id ps"
    "pos_id ` set (update_where (\<lambda>x. pos_id x = i) (\<lambda>_. q) ps) = pos_id ` set ps"
    using assms(3) by (simp_all add: map_put_row image_put_row)
  moreover have "list_all position_ok (update_where (\<lambda>x. pos_id x = i) (\<lambda>_. q) ps)"
    using assms(1,2) by (intro list_all_update_where) (simp_all add: ballot_rows_ok_def)
  moreover have "pos_id q < np" using assms(1,3,4) by (auto simp: ballot_rows_ok_def)
  then have "\<forall>x\<in>set (update_where (\<lambda>x. pos_id x = i) (\<lambda>_. q) ps). pos_id x < np"
    using assms(1) by (auto simp: in_update_where ballot_rows_ok_def)
  ultimately show ?thesis using assms(1) by (simp add: ballot_rows_ok_def)
qed

lemma rows_drop_position:
  assumes "ballot_rows_ok ps np cs nc codes e"
  shows "ballot_rows_ok (filter (\<lambda>q. pos_id q \<noteq> i) ps) np (filter (\<lambda>c. \<not> held_by i c) cs) nc (filter P codes) e"
proof -
  have "distinct (map fst (filter P codes))" "distinct (map snd (filter P codes))"
    using assms by (simp_all add: ballot_rows_ok_def distinct_map_filter)
  moreover have "j \<in> pos_id ` set (filter (\<lambda>q. pos_id q \<noteq> i) ps)" if "j \<in> pos_id ` set ps" "j \<noteq> i" for j
    using that by auto
  ultimately show ?thesis
    using assms unfolding ballot_rows_ok_def list_all_iff held_by_def by (simp add: distinct_map_filter) blast
qed

lemma save_code_distinct:
  assumes "distinct (map fst codes)" "distinct (map snd codes)" and "\<And>x. code = Some x \<Longrightarrow> \<forall>(c, y)\<in>set codes. y = x \<longrightarrow> c = i"
  shows "distinct (map fst (save_code i code draws codes)) \<and> distinct (map snd (save_code i code draws codes))"
proof -
  let ?others = "filter (\<lambda>(c, _). c \<noteq> i) codes"
  have d: "distinct (map fst ?others)" "distinct (map snd ?others)" using assms(1,2) by (simp_all add: distinct_map_filter)
  have n: "i \<notin> fst ` set ?others" by auto
  have "distinct (map fst (?others @ [(i, x)])) \<and> distinct (map snd (?others @ [(i, x)]))" if "x \<notin> snd ` set ?others" for x
    using d n that by auto
  moreover have "x \<notin> snd ` set ?others" if "code = Some x" for x using assms(3) [OF that] by auto
  moreover have "x \<notin> snd ` set ?others"
    if "first_where (\<lambda>x. \<not> exists_where (\<lambda>(_, y). y = x) codes) ds = Some x" for x ds
    using first_where_Some [OF that] by auto
  ultimately show ?thesis using d by (auto simp: save_code_def Let_def split: option.split)
qed

lemma rows_codes: "ballot_rows_ok ps np cs nc codes e \<Longrightarrow> distinct (map fst codes') \<and> distinct (map snd codes')
    \<Longrightarrow> ballot_rows_ok ps np cs nc codes' e"
  by (simp add: ballot_rows_ok_def)

lemma insert_candidate_ok:
  assumes ok: "election_ok f" and cat: "\<And>i. cv_category v = Some i \<Longrightarrow> i \<in> pos_id ` set (fo_positions f)"
    and code: "\<And>x. cv_code v = Some x \<Longrightarrow> \<forall>(c, y)\<in>set (fo_codes f). y = x \<longrightarrow> c = fo_next_candidate f"
  shows "election_ok (insert_candidate v draws f)"
proof -
  have "distinct (map fst (save_code (fo_next_candidate f) (cv_code v) draws (fo_codes f)))
      \<and> distinct (map snd (save_code (fo_next_candidate f) (cv_code v) draws (fo_codes f)))"
    using ok code by (intro save_code_distinct) (simp_all add: election_ok_def ballot_rows_ok_def)
  then show ?thesis
    using ok cat by (fastforce simp: election_ok_def insert_candidate_def Let_def ballot_rows_ok_def)
qed

lemma position_named_ok: "position_named s f = Inr (Some i) \<Longrightarrow> i \<in> pos_id ` set (fo_positions f)"
  by (auto simp: position_named_def dest!: first_where_Some split: if_splits option.splits)

lemma candidate_from_post_ok:
  assumes "candidate_from_post p image_ok own f = Inr v"
  shows "cv_category v = Some i \<Longrightarrow> i \<in> pos_id ` set (fo_positions f)"
    and "cv_code v = Some x \<Longrightarrow> \<forall>(c, y)\<in>set (fo_codes f). y = x \<longrightarrow> Some c = own"
    and "cv_name v \<noteq> []" "position_named (post_field p ''category'') f = Inr (cv_category v)"
  using assms position_named_ok [of "post_field p ''category''" f]
  by (auto simp: candidate_from_post_def Let_def split: sum.splits if_splits)

section \<open>Every form keeps an election well-formed\<close>

lemma edit_event_saved:
  assumes ok: "election_ok f1" and terms: "terms_ok ev (fo_fee f1) (fo_tie_breaker f1)" and e: "ev_id ev = ev_id (fo_event f1)"
    and form: "event_form_values S a (Some (ev, fo_fee f1)) p = (v, [])"
  shows "election_ok ((change_db (update_event (\<lambda>_. put_values S v ev)) f1)
            \<lparr>fo_fee := to_cents (ew_fee v), fo_tie_breaker := ew_tie_breaker v\<rparr>)"
proof -
  note t = event_form_terms [OF form]
  have old: "case Some (ev, fo_fee f1) of Some (ev, fee) \<Rightarrow> 0 \<le> fee \<and> fee \<le> 100 | None \<Rightarrow> True" using terms by (simp add: terms_ok_def)
  have "terms_ok (put_values S v ev) (to_cents (ew_fee v)) (ew_tie_breaker v)"
    using t [OF old] by (auto simp: terms_ok_def put_values_def cents_bounds is_institutional_def)
  then show ?thesis using ok e by (simp add: election_ok_def put_values_def)
qed

lemma edit_event_ok:
  assumes ok: "election_ok f" shows "election_ok (snd (edit_event S a p f))"
  unfolding edit_event_def
  by (rule enter_ok [OF ok], rule editable_ok [OF ok]) (auto simp: Let_def split: prod.split intro: edit_event_saved)

lemma add_category_ok:
  assumes ok: "election_ok f" shows "election_ok (snd (add_category a p f))"
  unfolding add_category_def
  by (rule enter_ok [OF ok], rule editable_ok [OF ok])
     (auto simp: Let_def election_ok_def split: sum.split
       intro!: rows_add_position rules_ok form_price_ok)

text \<open>Only the rules, the price and the limit of a position matter.\<close>

lemma position_ok_more [simp]:
  "position_ok (q\<lparr>pos_name := n\<rparr>) = position_ok q" "position_ok (q\<lparr>pos_constituency := u\<rparr>) = position_ok q"
  by (simp_all add: position_ok_def)

lemma edited_position_ok:
  assumes "\<And>n. limit = Some n \<Longrightarrow> 0 \<le> n"
  shows "position_ok ((put_rules (parse_ballot_rules p) q)
    \<lparr>pos_name := name, pos_constituency := un, pos_price := form_price p, pos_max_per_voter := limit\<rparr>)"
  using rules_ok [of "q\<lparr>pos_price := form_price p, pos_max_per_voter := limit\<rparr>" p] form_price_ok assms
  by (simp add: position_ok_def put_rules_def)

lemma edit_category_ok:
  assumes ok: "election_ok f" shows "election_ok (snd (edit_category a i p f))"
proof (cases "first_where (\<lambda>q. pos_id q = i) (fo_positions f)")
  case (Some q)
  then have q: "pos_id q = i" "\<exists>x\<in>set (fo_positions f). pos_id x = i" using first_where_Some by fastforce+
  define limit where "limit = (case parse_non_negative_int (map_of p ''max_votes_per_voter'') False of Inr v \<Rightarrow> v | Inl _ \<Rightarrow> None)"
  have l: "0 \<le> n" if "limit = Some n" for n using that by (auto simp: limit_def dest: parsed_int split: sum.splits)
  have "election_ok (change_positions (update_where (\<lambda>x. pos_id x = i) (\<lambda>_. (put_rules (parse_ballot_rules p) q)
      \<lparr>pos_name := name, pos_constituency := un, pos_price := form_price p, pos_max_per_voter := limit\<rparr>)) f1)"
    if "election_ok f1" "fo_positions f1 = fo_positions f" for f1 name un
    using that q by (auto simp: election_ok_def intro!: rows_put_position edited_position_ok l)
  then show ?thesis
    unfolding edit_category_def Some option.case limit_def [symmetric]
    by (intro allowed_ok [OF ok] editable_ok [OF ok]) (simp split: sum.split)
qed (simp add: edit_category_def ok)

lemma delete_category_ok:
  assumes ok: "election_ok f" shows "election_ok (snd (delete_category a i f))"
proof (cases "first_where (\<lambda>q. pos_id q = i) (fo_positions f)")
  case (Some q)
  have "election_ok (drop_position i f1)" if "election_ok f1" for f1
    using that by (auto simp: election_ok_def drop_position_def Let_def intro: rows_drop_position)
  then show ?thesis
    unfolding delete_category_def Some option.case
    by (intro allowed_ok [OF ok] editable_ok [OF ok]) (simp add: Let_def)
qed (simp add: delete_category_def ok)

lemma add_candidate_ok:
  assumes ok: "election_ok f" shows "election_ok (snd (add_candidate a p image_ok draws f))"
proof -
  have "election_ok (insert_candidate v draws f1)" if "election_ok f1" "candidate_from_post p image_ok None f1 = Inr v" for f1 v
    using candidate_from_post_ok(1,2) [OF that(2)] by (intro insert_candidate_ok [OF that(1)]) fastforce+
  then show ?thesis
    unfolding add_candidate_def by (intro enter_ok [OF ok] editable_ok [OF ok]) (simp split: sum.split)
qed

lemma edit_candidate_ok:
  assumes ok: "election_ok f" shows "election_ok (snd (edit_candidate a i p image_ok draws f))"
proof (cases "first_where (\<lambda>c. ca_id c = i) (fo_candidates f)")
  case (Some c)
  then have c: "ca_id c = i" "c \<in> set (fo_candidates f)" using first_where_Some by fastforce+
  let ?new = "\<lambda>v. c\<lparr>ca_category := cv_category v, ca_name := cv_name v, ca_affiliation := cv_affiliation v,
       ca_status := (case status_named (post_field p ''status'') of Some s \<Rightarrow> s | None \<Rightarrow> ca_status c)\<rparr>"
  have "election_ok (change_candidates (update_where (\<lambda>x. ca_id x = i) (\<lambda>_. ?new v))
        (f1\<lparr>fo_codes := save_code i (cv_code v) draws (fo_codes f1)\<rparr>))"
    if ok1: "election_ok f1" and same: "fo_candidates f1 = fo_candidates f" and v: "candidate_from_post p image_ok (Some i) f1 = Inr v" for f1 v
  proof -
    have "distinct (map fst (save_code i (cv_code v) draws (fo_codes f1))) \<and> distinct (map snd (save_code i (cv_code v) draws (fo_codes f1)))"
      using ok1 candidate_from_post_ok(2) [OF v] by (intro save_code_distinct) (auto simp: election_ok_def ballot_rows_ok_def)
    moreover have "map ca_id (update_where (\<lambda>x. ca_id x = i) (\<lambda>_. ?new v) (fo_candidates f)) = map ca_id (fo_candidates f)"
      using c(1) by (simp add: map_put_row)
    ultimately show ?thesis
      using ok1 same c candidate_from_post_ok(1) [OF v]
      by (auto simp: election_ok_def ballot_rows_ok_def in_update_where split: if_splits)
  qed
  then show ?thesis
    unfolding edit_candidate_def Some option.case
    by (intro allowed_ok [OF ok] editable_ok [OF ok]) (simp split: sum.split)
qed (simp add: edit_candidate_def ok)

lemma insert_all_ok:
  assumes "election_ok f" and "\<And>i. cat = Some i \<Longrightarrow> i \<in> pos_id ` set (fo_positions f)"
  shows "election_ok (fold (\<lambda>(k, n). insert_candidate \<lparr>cv_category = cat, cv_name = n, cv_code = None, cv_affiliation = []\<rparr> (draws k)) ns f)"
  using assms
proof (induction ns arbitrary: f)
  case (Cons kn ns)
  obtain k n where kn: "kn = (k, n)" by fastforce
  let ?f = "insert_candidate \<lparr>cv_category = cat, cv_name = n, cv_code = None, cv_affiliation = []\<rparr> (draws k) f"
  have "election_ok ?f" by (rule insert_candidate_ok) (use Cons.prems in simp_all)
  moreover have "fo_positions ?f = fo_positions f" by (simp add: insert_candidate_def Let_def)
  then have "i \<in> pos_id ` set (fo_positions ?f)" if "cat = Some i" for i using Cons.prems(2) [OF that] by (simp only:)
  ultimately show ?case using Cons.IH by (simp add: kn)
qed simp

lemma bulk_add_ok:
  assumes ok: "election_ok f" shows "election_ok (snd (bulk_add_candidates a p draws f))"
  unfolding bulk_add_candidates_def
  by (intro enter_ok [OF ok] editable_ok [OF ok]) (auto simp: Let_def intro!: insert_all_ok dest: position_named_ok split: sum.split)

lemma form_step_ok: "election_ok f \<Longrightarrow> election_ok (form_step S q f)"
  by (cases "(S, q, f)" rule: form_step.cases)
     (simp_all add: edit_event_ok add_category_ok edit_category_ok delete_category_ok add_candidate_ok edit_candidate_ok bulk_add_ok)


section \<open>The ballot of a secret vote\<close>

definition voting_began :: "event \<Rightarrow> bool" where
  "voting_began ev \<longleftrightarrow> is_institutional ev \<and> ev_status ev \<in> {OPEN, PAUSED} \<union> set locked_states"

definition ballot_entry :: "candidate \<Rightarrow> int \<times> int option \<times> candidate_status" where
  "ballot_entry c = (ca_id c, ca_category c, ca_status c)"

definition same_ballot :: "forms_db \<Rightarrow> forms_db \<Rightarrow> bool" where
  "same_ballot f f' \<longleftrightarrow> fo_event f' = fo_event f \<and> fo_positions f' = fo_positions f
     \<and> map ballot_entry (fo_candidates f') = map ballot_entry (fo_candidates f)"

lemma began_facts:
  assumes "voting_began ev"
  shows "\<not> is_paid ev" "ev_status ev \<notin> {DRAFT, REVIEW, APPROVED, SCHEDULED}"
  using assms by (auto simp: voting_began_def locked_states_def is_institutional_def is_paid_def)

lemma began_policy:
  assumes "voting_began ev" and "scope \<in> {''config'', ''ballot'', ''candidates''}"
  shows "edit_policy ev scope \<notin> {Edit_allowed, Edit_resets}"
proof -
  have "scope \<noteq> ''voters''" "scope \<noteq> ''candidate_profile''" using assms(2) by auto
  then show ?thesis using began_facts [OF assms(1)] unfolding edit_policy_def by (simp add: Let_def)
qed

lemma began_profile: "voting_began ev \<Longrightarrow> edit_policy ev scope \<noteq> Edit_resets"
  using began_facts [of ev] unfolding edit_policy_def by (simp add: Let_def)

lemma same_ballot_refl: "same_ballot f f" by (simp add: same_ballot_def)

lemma enter_same: "same_ballot f (snd go) \<Longrightarrow> same_ballot f (snd (enter actor perm f go))"
  by (rule enter_cases [of actor perm f go]) (simp_all add: same_ballot_def)

lemma allowed_same: "same_ballot f (snd go) \<Longrightarrow> same_ballot f (snd (allowed actor perm f go))"
  using allowed_cases [of actor perm f go] by (auto simp: same_ballot_refl)

lemma closed_same:
  assumes "voting_began (fo_event f)" and "scope \<in> {''config'', ''ballot'', ''candidates''}"
  shows "same_ballot f (snd (editable actor scope f go))"
  by (rule editable_cases [of actor scope f go]) (use began_policy [OF assms] in \<open>simp_all add: same_ballot_refl\<close>)

lemma profile_same:
  assumes "voting_began (fo_event f)" and "same_ballot f (snd (go (fo_event f) f))"
  shows "same_ballot f (snd (editable actor scope f go))"
  by (rule editable_cases [of actor scope f go]) (use assms began_profile [OF assms(1)] in \<open>simp_all add: same_ballot_refl\<close>)

lemma profile_keeps_entry:
  assumes "\<not> structural p c" and "candidate_from_post p image_ok own f = Inr v"
    and "\<And>i. ca_category c = Some i \<Longrightarrow> i \<in> pos_id ` set (fo_positions f)"
  shows "cv_category v = ca_category c"
    and "(case status_named (post_field p ''status'') of Some s \<Rightarrow> s | None \<Rightarrow> ca_status c) = ca_status c"
proof -
  note named = candidate_from_post_ok(4) [OF assms(2)]
  show "cv_category v = ca_category c"
  proof (cases "ca_category c")
    case None
    then have "post_field p ''category'' = []" using assms(1) by (simp add: structural_def)
    with named None show ?thesis by (simp add: position_named_def)
  next
    case (Some i)
    then have s: "post_field p ''category'' = str_int i" using assms(1) by (simp add: structural_def)
    then have "str_int i \<noteq> []" using parse_str_int [of i] by (auto simp: parse_int_def strip_def)
    moreover obtain q where "q \<in> set (fo_positions f)" "pos_id q = i" using assms(3) [OF Some] by auto
    then obtain q' where "first_where (\<lambda>q. pos_id q = i) (fo_positions f) = Some q'" "pos_id q' = i"
      using first_where_ex first_where_Some by (metis (mono_tags, lifting))
    ultimately show ?thesis using named Some s by (simp add: position_named_def)
  qed
  show "(case status_named (post_field p ''status'') of Some s \<Rightarrow> s | None \<Rightarrow> ca_status c) = ca_status c"
    using assms(1) by (cases "post_field p ''status'' = []") (simp_all add: structural_def status_named_def)
qed

lemma edit_candidate_same:
  assumes ok: "election_ok f" and began: "voting_began (fo_event f)"
  shows "same_ballot f (snd (edit_candidate a i p image_ok draws f))"
proof (cases "first_where (\<lambda>c. ca_id c = i) (fo_candidates f)")
  case (Some c)
  then have c: "ca_id c = i" "c \<in> set (fo_candidates f)" using first_where_Some by fastforce+
  show ?thesis
  proof (cases "structural p c")
    case True
    then show ?thesis unfolding edit_candidate_def Some option.case by (simp add: allowed_same closed_same [OF began])
  next
    case False
    let ?new = "\<lambda>v. c\<lparr>ca_category := cv_category v, ca_name := cv_name v, ca_affiliation := cv_affiliation v,
         ca_status := (case status_named (post_field p ''status'') of Some s \<Rightarrow> s | None \<Rightarrow> ca_status c)\<rparr>"
    have "map ballot_entry (update_where (\<lambda>x. ca_id x = i) (\<lambda>_. ?new v) (fo_candidates f)) = map ballot_entry (fo_candidates f)"
      if v: "candidate_from_post p image_ok (Some i) f = Inr v" for v
    proof -
      have cat: "\<And>j. ca_category c = Some j \<Longrightarrow> j \<in> pos_id ` set (fo_positions f)"
        using ok c(2) by (auto simp: election_ok_def ballot_rows_ok_def)
      have "x = c" if "x \<in> set (fo_candidates f)" "ca_id x = i" for x
        using ok c that by (auto simp: election_ok_def ballot_rows_ok_def distinct_map inj_on_def)
      then show ?thesis
        using profile_keeps_entry [OF False v cat] c(1) by (auto simp: ballot_entry_def update_where_def)
    qed
    then show ?thesis
      unfolding edit_candidate_def Some option.case
      by (intro allowed_same profile_same [OF began]) (auto simp: False same_ballot_def split: sum.split)
  qed
qed (simp add: edit_candidate_def same_ballot_refl)

lemma form_step_same:
  assumes "election_ok f" and began: "voting_began (fo_event f)" shows "same_ballot f (form_step S q f)"
proof (cases "(S, q, f)" rule: form_step.cases)
  case (3 S' a i p f')
  then show ?thesis using began by (simp add: edit_category_def same_ballot_refl allowed_same closed_same split: option.split)
next
  case (4 S' a i f')
  then show ?thesis using began by (simp add: delete_category_def same_ballot_refl allowed_same closed_same split: option.split)
qed (use assms in \<open>simp_all add: edit_event_def add_category_def add_candidate_def bulk_add_candidates_def edit_candidate_same
       enter_same closed_same\<close>)

text \<open>
  C39: once the vote of a secret ballot has begun, no sequence of forms changes what is voted on: the
  election's fields and positions stay as they are, and so do every candidate's position and status.
\<close>

theorem ballot_fixed_once_voting:
  assumes "election_ok f" and "voting_began (fo_event f)"
  shows "fo_event (form_run S rs f) = fo_event f \<and> fo_positions (form_run S rs f) = fo_positions f
    \<and> map ballot_entry (fo_candidates (form_run S rs f)) = map ballot_entry (fo_candidates f)"
  using assms
proof (induction rs arbitrary: f)
  case (Cons q rs)
  have s: "same_ballot f (form_step S q f)" by (rule form_step_same [OF Cons.prems])
  then have "voting_began (fo_event (form_step S q f))" using Cons.prems(2) by (simp add: same_ballot_def)
  from Cons.IH [OF form_step_ok [OF Cons.prems(1)] this] s show ?case by (simp add: same_ballot_def)
qed simp

section \<open>Witnesses\<close>

definition ex_form_settings :: form_settings where
  "ex_form_settings = \<lparr>fs_zone = ''UTC'', fs_zones = [''UTC''], fs_instant = (\<lambda>z w. 0), fs_currency = ''GHS'', fs_currencies = [''GHS'']\<rparr>"

definition ex_forms :: "event_status \<Rightarrow> forms_db" where
  "ex_forms st =
     \<lparr>fo_db = update_event (\<lambda>ev. ev\<lparr>ev_price := 0, ev_status := st\<rparr>) ex_db, fo_fee = 0, fo_tie_breaker = False, fo_units = [],
      fo_codes = [(1, ''AA000''), (2, ''AB000'')], fo_payments = [], fo_next_position = 8, fo_next_candidate = 3\<rparr>"

definition ex_posts :: "(account \<times> form_request) list" where
  "ex_posts = [(ex_operator, Add_position [(''name'', ''Treasurer''), (''seats'', ''0'')]),
     (ex_operator, Add_candidate [(''name'', ''Esi''), (''category'', ''7'')] True [(0, 1, 0), (0, 2, 0)])]"

lemma ex_forms_ok: "election_ok (ex_forms st)"
  by (simp add: election_ok_def ex_forms_def terms_ok_def ballot_rows_ok_def ex_db_def ex_election_def ex_position_def ex_candidate_def
      position_ok_def ex_event_def)


theorem ballot_fixed_once_voting_witness:
  "fo_positions (form_run ex_form_settings ex_posts (ex_forms OPEN)) = [ex_position MULTIPLE 1 2]"
proof -
  have "voting_began (fo_event (ex_forms OPEN))"
    by (simp add: voting_began_def ex_forms_def ex_db_def ex_election_def ex_event_def is_institutional_def)
  from ballot_fixed_once_voting [OF ex_forms_ok this, of ex_form_settings ex_posts] show ?thesis
    by (simp add: ex_forms_def ex_db_def ex_election_def)
qed

end
