(* ===== verification/Notifications.thy ===== *)
theory Notifications
  imports Billing Election_Db Request_Guards
begin

text \<open>
  The outbox of notifications/service.py with its providers (channels.py) and tasks, and the
  messages to voters of elections/tasks.py. A message is a row that the caller's transaction
  inserts and that a worker delivers later. The answers of the providers and the rendered
  templates are arguments; a context is the list of its texts and numbers; what a provider accepted
  is recorded in \<open>nd_outbox\<close>.
\<close>

datatype notify_channel = By_email | By_sms | By_whatsapp | In_app

datatype notify_status = QUEUED | SENT | FAILED | SKIPPED

type_synonym facts = "(string \<times> string) list"

record notification =
  no_id :: int
  no_org :: "int option"
  no_event :: "int option"
  no_user :: "int option"
  no_channel :: notify_channel
  no_template :: string
  no_recipient :: string
  no_hint :: string
  no_context :: "facts option"
  no_subject :: string
  no_status :: notify_status
  no_attempts :: nat
  no_error :: string
  no_dedupe :: "string option"
  no_provider :: string
  no_scheduled :: "int option"
  no_sent :: "int option"
  no_created :: int

record notify_settings =
  ns_platform :: string
  ns_site :: string
  ns_sms :: bool
  ns_whatsapp :: bool
  ns_template :: "string \<Rightarrow> facts \<Rightarrow> string option"

record notify_db =
  nd_rows :: "notification list"
  nd_next :: int
  nd_queue :: "(int \<times> int) list"
  nd_outbox :: "(int \<times> notify_channel \<times> string) list"
  nd_reminded :: "(int \<times> int) list"
  nd_billing :: billing_db

section \<open>Writing\<close>

text \<open>A subject: texts and the names of facts.\<close>

definition subjects :: "(string \<times> (string + string) list) list" where
  "subjects =
     [(''voter_invitation'', [Inl ''You are invited to vote: '', Inr ''election'']),
      (''voter_registration'', [Inl ''Voter registration confirmed: '', Inr ''election'']),
      (''verification_otp'', [Inl ''Your verification code'']),
      (''voting_opened'', [Inl ''Voting is now open: '', Inr ''election'']),
      (''voting_reminder'', [Inl ''Reminder: you have not voted yet in '', Inr ''election'']),
      (''election_closing'', [Inl ''Last chance to vote: '', Inr ''election'', Inl '' closes soon'']),
      (''vote_confirmation'', [Inl ''Your vote was recorded: '', Inr ''election'']),
      (''payment_confirmation'', [Inl ''Payment received - your votes are in'']),
      (''results_published'', [Inl ''Results published: '', Inr ''election'']),
      (''security_alert'', [Inl ''Security alert: '', Inr ''title'']),
      (''organizer_registered'', [Inl ''New organizer registration pending approval'']),
      (''organizer_approved'', [Inl ''Your organizer account is approved'']),
      (''candidate_invitation'', [Inl ''Set up your candidate profile: '', Inr ''election'']),
      (''approval_requested'', [Inl ''Approval needed: '', Inr ''action'']),
      (''support_ticket'', [Inl ''Support request '', Inr ''reference'', Inl '': '', Inr ''subject''])]"

fun fill :: "facts \<Rightarrow> (string + string) list \<Rightarrow> string option" where
  "fill ctx [] = Some []"
| "fill ctx (Inl s # ps) = map_option (\<lambda>r. s @ r) (fill ctx ps)"
| "fill ctx (Inr k # ps) = (case map_of ctx k of None \<Rightarrow> None | Some v \<Rightarrow> map_option (\<lambda>r. v @ r) (fill ctx ps))"

fun unfilled :: "(string + string) list \<Rightarrow> string" where
  "unfilled [] = []"
| "unfilled (Inl s # ps) = s @ unfilled ps"
| "unfilled (Inr k # ps) = ''{'' @ k @ ''}'' @ unfilled ps"

definition subject_of :: "notify_settings \<Rightarrow> string \<Rightarrow> facts \<Rightarrow> string" where
  "subject_of S template ctx =
     (let parts = (case map_of subjects template of Some ps \<Rightarrow> ps | None \<Rightarrow> [Inl (ns_platform S)]) in
      take 200 (case fill ctx parts of Some s \<Rightarrow> s | None \<Rightarrow> unfilled parts))"

definition recipient_hint :: "notify_channel \<Rightarrow> string \<Rightarrow> string" where
  "recipient_hint ch r =
     (case ch of By_email \<Rightarrow> mask_email r | By_sms \<Rightarrow> mask_phone r | By_whatsapp \<Rightarrow> mask_phone r | In_app \<Rightarrow> [])"

definition with_default :: "string \<Rightarrow> string \<Rightarrow> facts \<Rightarrow> facts" where
  "with_default k v ctx = (if map_of ctx k = None then ctx @ [(k, v)] else ctx)"

record message =
  ms_template :: string
  ms_channel :: notify_channel
  ms_recipient :: string
  ms_context :: facts
  ms_event :: "event option"
  ms_org :: "int option"
  ms_user :: "int option"
  ms_dedupe :: "string option"
  ms_scheduled :: "int option"

definition full_context :: "notify_settings \<Rightarrow> message \<Rightarrow> facts" where
  "full_context S m =
     with_default ''site_url'' (ns_site S) (with_default ''platform'' (ns_platform S)
       (case ms_event m of
          None \<Rightarrow> ms_context m
        | Some ev \<Rightarrow> with_default ''election_id'' (str_int (ev_id ev)) (with_default ''election'' (ev_title ev) (ms_context m))))"

text \<open>\<open>notify\<close>: nothing when the deduplication key is taken; the delivery is queued.\<close>

definition notify :: "notify_settings \<Rightarrow> int \<Rightarrow> message \<Rightarrow> notify_db \<Rightarrow> int option \<times> notify_db" where
  "notify S now m db =
     (let ctx = full_context S m; i = nd_next db; inside = (ms_channel m = In_app);
          row = \<lparr>no_id = i,
                 no_org = (case (ms_org m, ms_event m) of (None, Some ev) \<Rightarrow> ev_org ev | _ \<Rightarrow> ms_org m),
                 no_event = map_option ev_id (ms_event m), no_user = ms_user m, no_channel = ms_channel m,
                 no_template = ms_template m, no_recipient = ms_recipient m,
                 no_hint = recipient_hint (ms_channel m) (ms_recipient m), no_context = Some ctx,
                 no_subject = subject_of S (ms_template m) ctx, no_status = (if inside then SENT else QUEUED), no_attempts = 0,
                 no_error = [], no_dedupe = ms_dedupe m, no_provider = [], no_scheduled = ms_scheduled m,
                 no_sent = (if inside then Some now else None), no_created = now\<rparr>
      in if ms_dedupe m \<noteq> None \<and> exists_where (\<lambda>n. no_dedupe n = ms_dedupe m) (nd_rows db) then (None, db)
         else (Some i, db\<lparr>nd_rows := nd_rows db @ [row], nd_next := i + 1,
                          nd_queue := (if inside then nd_queue db else nd_queue db @ [(i, now)])\<rparr>))"

definition notify_user ::
  "notify_settings \<Rightarrow> int \<Rightarrow> int \<times> string \<Rightarrow> string \<Rightarrow> facts \<Rightarrow> event option \<Rightarrow> string option \<Rightarrow> notify_db \<Rightarrow> notify_db" where
  "notify_user S now u template ctx ev key db =
     (let m = (\<lambda>ch r suffix. \<lparr>ms_template = template, ms_channel = ch, ms_recipient = r, ms_context = ctx, ms_event = ev, ms_org = None,
                ms_user = Some (fst u), ms_dedupe = map_option (\<lambda>k. k @ suffix) key, ms_scheduled = None\<rparr>);
          db1 = snd (notify S now (m In_app [] '':IN_APP'') db)
      in if snd u = [] then db1 else snd (notify S now (m By_email (snd u) '':EMAIL'') db1))"

definition notify_platform_admins :: "notify_settings \<Rightarrow> int \<Rightarrow> (int \<times> string) list \<Rightarrow> string \<Rightarrow> facts \<Rightarrow> notify_db \<Rightarrow> notify_db" where
  "notify_platform_admins S now admins template ctx = fold (\<lambda>u. notify_user S now u template ctx None None) admins"

text \<open>Who may decide a request: the holders of the permission in its scope but not its requester.\<close>

definition approvers :: "tenancy \<Rightarrow> event option \<Rightarrow> int option \<Rightarrow> int \<Rightarrow> int list" where
  "approvers tn ev org requester =
     remdups (map ra_user (filter (\<lambda>a.
       (case map_of (tn_roles tn) (ra_role a) of Some ps \<Rightarrow> ''approval.decide'' \<in> set ps | None \<Rightarrow> False)
       \<and> (ra_org a = None \<and> ra_event a = None
          \<or> (case ev of Some e \<Rightarrow> ra_event a = Some (ev_id e) | None \<Rightarrow> False)
          \<or> (ra_org a \<noteq> None \<and> ra_org a = org \<and> ra_event a = None))
       \<and> ra_user a \<noteq> requester) (tn_assignments tn)))"

definition notify_approvers ::
  "notify_settings \<Rightarrow> int \<Rightarrow> tenancy \<Rightarrow> event option \<Rightarrow> int option \<Rightarrow> approval_request \<Rightarrow> (int \<Rightarrow> string) \<Rightarrow> facts \<Rightarrow> notify_db \<Rightarrow> notify_db" where
  "notify_approvers S now tn ev org q mail ctx =
     fold (\<lambda>u. notify_user S now (u, mail u) ''approval_requested'' ctx ev None) (approvers tn ev org (rq_requested_by q))"

section \<open>Delivery\<close>

text \<open>The text of a message and, for mail, its page; a missing first template raises.\<close>

definition render :: "notify_settings \<Rightarrow> notification \<Rightarrow> (string \<times> string \<times> string option) option" where
  "render S n =
     (let ctx = (case no_context n of Some c \<Rightarrow> c | None \<Rightarrow> []); base = ''notifications/'' @ no_template n in
      case map_option strip (ns_template S (base @ ''.txt'') ctx) of
        None \<Rightarrow> None
      | Some t \<Rightarrow>
          if no_channel n = By_email then
            (case ns_template S (base @ ''.html'') ctx of
               Some h \<Rightarrow> Some (no_subject n, t, Some h)
             | None \<Rightarrow>
                 map_option (\<lambda>h. (no_subject n, t, Some h))
                   (ns_template S ''notifications/base_email.html'' (ctx @ [(''body'', t), (''subject'', no_subject n)])))
          else Some (no_subject n, (case ns_template S (base @ ''.sms.txt'') ctx of Some x \<Rightarrow> strip x | None \<Rightarrow> t), None))"

text \<open>A provider's answer: the message's id, or an error.\<close>

type_synonym provider_answer = "string + string"

definition send_by ::
  "notify_settings \<Rightarrow> notify_channel \<Rightarrow> string \<Rightarrow> provider_answer \<Rightarrow> notify_status \<times> string \<times> string" where
  "send_by S ch r answer =
     (let said = (case answer of Inr i \<Rightarrow> (SENT, i, []) | Inl e \<Rightarrow> (FAILED, [], take 300 e)) in
      case ch of
        By_email \<Rightarrow> if r = [] then (SKIPPED, [], ''No email address'') else said
      | By_sms \<Rightarrow> if ns_sms S then said else (SKIPPED, [], ''Africa's Talking is not configured'')
      | By_whatsapp \<Rightarrow> if ns_whatsapp S then said else (SKIPPED, [], ''WhatsApp is not configured'')
      | In_app \<Rightarrow> (SENT, [], []))"

definition note_row :: "int \<Rightarrow> notify_db \<Rightarrow> notification option" where
  "note_row i db = first_where (\<lambda>n. no_id n = i) (nd_rows db)"

definition delivered :: "int \<Rightarrow> notify_status \<times> string \<times> string \<Rightarrow> notification \<Rightarrow> notification" where
  "delivered now result n =
     (case result of (st, mid, err) \<Rightarrow>
        (let n1 = n\<lparr>no_attempts := no_attempts n + 1, no_status := st, no_provider := mid, no_error := err\<rparr>
         in if st \<in> {SENT, SKIPPED} then n1\<lparr>no_sent := (if st = SENT then Some now else None), no_context := None\<rparr> else n1))"

text \<open>The metric a sent message is billed under.\<close>

definition metered :: "notification \<Rightarrow> metric option" where
  "metered n = (case no_channel n of By_email \<Rightarrow> Some EMAILS_SENT | By_sms \<Rightarrow> Some SMS_SENT | _ \<Rightarrow> None)"

definition deliver :: "notify_settings \<Rightarrow> int \<Rightarrow> int \<Rightarrow> provider_answer \<Rightarrow> notify_db \<Rightarrow> notification option \<times> notify_db" where
  "deliver S now i answer db =
     (case note_row i db of
        None \<Rightarrow> (None, db)
      | Some n \<Rightarrow>
          if no_status n \<notin> {QUEUED, FAILED} then (None, db)
          else if (case no_scheduled n of Some t \<Rightarrow> now < t | None \<Rightarrow> False) then (Some n, db)
          else case render S n of
                 None \<Rightarrow> (None, db)
               | Some _ \<Rightarrow>
                   (let result = send_by S (no_channel n) (no_recipient n) answer;
                        n1 = delivered now result n;
                        db1 = db\<lparr>nd_rows := update_where (\<lambda>x. no_id x = i) (\<lambda>_. n1) (nd_rows db)\<rparr>
                    in (Some n1,
                        if fst result = SENT
                        then db1\<lparr>nd_outbox := nd_outbox db @ [(i, no_channel n, no_recipient n)],
                                 nd_billing := (case (no_org n, metered n) of
                                     (Some org, Some mt) \<Rightarrow> record_usage now (Some org) mt 1 (nd_billing db)
                                   | _ \<Rightarrow> nd_billing db)\<rparr>
                        else db1)))"

section \<open>Workers\<close>

definition max_attempts :: nat where
  "max_attempts = 5"

text \<open>\<open>tasks.deliver\<close>: a failed message is tried again after a doubling pause of at most an hour.\<close>

definition work :: "notify_settings \<Rightarrow> int \<Rightarrow> int \<Rightarrow> provider_answer \<Rightarrow> notify_db \<Rightarrow> notify_db" where
  "work S now i answer db =
     (case deliver S now i answer db of
        (Some n, db1) \<Rightarrow>
          if no_status n = FAILED \<and> no_attempts n < max_attempts
          then db1\<lparr>nd_queue := nd_queue db1 @ [(i, now + min (60 * 2 ^ no_attempts n) 3600 * 1000000)]\<rparr>
          else db1
      | (None, db1) \<Rightarrow> db1)"

definition stuck :: "int \<Rightarrow> notification \<Rightarrow> bool" where
  "stuck now n \<longleftrightarrow> no_status n \<in> {QUEUED, FAILED} \<and> no_attempts n < max_attempts \<and> no_created n < now - 5 * 60 * 1000000"

definition retry_failed :: "int \<Rightarrow> notify_db \<Rightarrow> notify_db" where
  "retry_failed now db =
     db\<lparr>nd_queue := nd_queue db @ map (\<lambda>n. (no_id n, now)) (take 500 (filter (stuck now) (rev (nd_rows db))))\<rparr>"

section \<open>Messages to voters\<close>

definition voter_contact :: "voter \<Rightarrow> (notify_channel \<times> string) option" where
  "voter_contact v =
     (case vo_email v of
        Some (c # e) \<Rightarrow> Some (By_email, c # e)
      | _ \<Rightarrow> (case vo_phone v of Some (c # p) \<Rightarrow> Some (By_sms, c # p) | _ \<Rightarrow> None))"

definition voter_message :: "string \<Rightarrow> event \<Rightarrow> facts \<Rightarrow> string \<Rightarrow> notify_channel \<times> string \<Rightarrow> message" where
  "voter_message template ev ctx key contact =
     \<lparr>ms_template = template, ms_channel = fst contact, ms_recipient = snd contact, ms_context = ctx, ms_event = Some ev,
      ms_org = None, ms_user = None, ms_dedupe = Some key, ms_scheduled = None\<rparr>"

definition voter_key :: "string \<Rightarrow> voter \<Rightarrow> string" where
  "voter_key pre v = pre @ '':'' @ str_int (vo_id v)"

definition notify_voter ::
  "notify_settings \<Rightarrow> int \<Rightarrow> event \<Rightarrow> string \<Rightarrow> facts \<Rightarrow> string \<Rightarrow> voter \<Rightarrow> nat \<times> notify_db \<Rightarrow> nat \<times> notify_db" where
  "notify_voter S now ev template ctx pre v acc =
     (case voter_contact v of
        None \<Rightarrow> acc
      | Some contact \<Rightarrow>
          (case notify S now (voter_message template ev ctx (voter_key pre v) contact) (snd acc) of
             (made, db) \<Rightarrow>
               ((if made = None then fst acc else fst acc + 1), db\<lparr>nd_reminded := (vo_id v, now) # nd_reminded db\<rparr>)))"

definition notify_voters ::
  "notify_settings \<Rightarrow> int \<Rightarrow> event \<Rightarrow> string \<Rightarrow> facts \<Rightarrow> string \<Rightarrow> voter list \<Rightarrow> notify_db \<Rightarrow> nat \<times> notify_db" where
  "notify_voters S now ev template ctx pre vs db = fold (notify_voter S now ev template ctx pre) vs (0, db)"

definition may_still_vote :: "voter \<Rightarrow> bool" where
  "may_still_vote v \<longleftrightarrow> vo_status v \<in> {ELIGIBLE, VERIFIED}"

definition notify_voting_opened ::
  "notify_settings \<Rightarrow> int \<Rightarrow> event \<Rightarrow> voter list \<Rightarrow> (int \<Rightarrow> string) \<Rightarrow> facts \<Rightarrow> notify_db \<Rightarrow> nat \<times> notify_db" where
  "notify_voting_opened S now ev vs minute ctx db =
     (if \<not> is_institutional ev then (0, db)
      else notify_voters S now ev ''voting_opened'' ctx
             (''opened:'' @ str_int (ev_id ev) @ '':'' @ (case ev_opened_at ev of Some t \<Rightarrow> minute t | None \<Rightarrow> []))
             (filter may_still_vote vs) db)"

abbreviation hour_span :: "int \<Rightarrow> int" where
  "hour_span n \<equiv> n * 3600 * 1000000"

definition reminder_due :: "int \<Rightarrow> event \<Rightarrow> bool" where
  "reminder_due now ev \<longleftrightarrow> ev_status ev = OPEN \<and> is_institutional ev \<and> now < ev_end ev \<and> ev_end ev \<le> now + hour_span 24"

definition reminder_template :: "int \<Rightarrow> event \<Rightarrow> string" where
  "reminder_template now ev = (if ev_end ev - now \<le> hour_span 2 then ''election_closing'' else ''voting_reminder'')"

definition not_just_reminded :: "int \<Rightarrow> int \<Rightarrow> notify_db \<Rightarrow> voter \<Rightarrow> bool" where
  "not_just_reminded now gap db v \<longleftrightarrow> (case map_of (nd_reminded db) (vo_id v) of None \<Rightarrow> True | Some t \<Rightarrow> t < now - gap)"

definition send_voting_reminders :: "notify_settings \<Rightarrow> int \<Rightarrow> (event \<times> voter list \<times> facts) list \<Rightarrow> notify_db \<Rightarrow> nat \<times> notify_db" where
  "send_voting_reminders S now elections db =
     fold (\<lambda>(ev, vs, ctx) (total, d).
        let t = reminder_template now ev;
            due = filter (\<lambda>v. may_still_vote v \<and> not_just_reminded now (if t = ''election_closing'' then hour_span 1 else hour_span 12) d v) vs;
            (n, d1) = notify_voters S now ev t ctx (t @ '':'' @ str_int (ev_id ev)) due d
        in (total + n, d1))
       (filter (\<lambda>(ev, _). reminder_due now ev) elections) (0, db)"

definition send_vote_confirmation :: "notify_settings \<Rightarrow> int \<Rightarrow> event \<Rightarrow> voter \<Rightarrow> facts \<Rightarrow> notify_db \<Rightarrow> bool \<times> notify_db" where
  "send_vote_confirmation S now ev v ctx db =
     (case voter_contact v of
        None \<Rightarrow> (False, db)
      | Some contact \<Rightarrow>
          (case notify S now (voter_message ''vote_confirmation'' ev ctx (voter_key (''confirm:'' @ str_int (ev_id ev)) v) contact) db of
             (made, db1) \<Rightarrow> (made \<noteq> None, db1)))"

definition announce_voter :: "notify_settings \<Rightarrow> int \<Rightarrow> event \<Rightarrow> facts \<Rightarrow> voter \<Rightarrow> nat \<times> notify_db \<Rightarrow> nat \<times> notify_db" where
  "announce_voter S now ev ctx v acc =
     (case vo_email v of
        Some (c # e) \<Rightarrow>
          (case notify S now (voter_message ''results_published'' ev ctx
                  (voter_key (''results:'' @ str_int (ev_id ev)) v) (By_email, c # e)) (snd acc) of
             (made, d) \<Rightarrow> (if made = None then fst acc else fst acc + 1, d))
      | _ \<Rightarrow> acc)"

definition announce_candidate :: "notify_settings \<Rightarrow> int \<Rightarrow> event \<Rightarrow> facts \<Rightarrow> int \<times> int \<times> string \<Rightarrow> notify_db \<Rightarrow> notify_db" where
  "announce_candidate S now ev link c =
     notify_user S now (snd c) ''results_published'' link (Some ev)
       (Some (''results:'' @ str_int (ev_id ev) @ '':cand:'' @ str_int (fst c)))"

text \<open>\<open>users\<close> are the accounts of candidates that have one: candidate, account, address.\<close>

definition notify_results_published ::
  "notify_settings \<Rightarrow> int \<Rightarrow> event \<Rightarrow> voter list \<Rightarrow> (int \<times> int \<times> string) list \<Rightarrow> facts \<Rightarrow> facts \<Rightarrow> notify_db \<Rightarrow> nat \<times> notify_db" where
  "notify_results_published S now ev vs users ctx link db =
     (let acc = (if is_institutional ev then fold (announce_voter S now ev ctx) vs (0, db) else (0, db))
      in (fst acc + length users, fold (announce_candidate S now ev link) users (snd acc)))"

end
