(* ===== verification/Notify_Props.thy ===== *)
theory Notify_Props
  imports Notifications Row_Sums
begin

text \<open>
  The outbox over any sequence of callers, workers and sweeps: a message is delivered once at
  most, a deduplication key names one message, what was delivered keeps no context, and the
  billed usage is what was sent.
\<close>

datatype notify_request =
    Post message
  | Post_user "int \<times> string" string facts "event option" "string option"
  | Ask_approvers tenancy "event option" "int option" approval_request "int \<Rightarrow> string" facts
  | Opened event "voter list" "int \<Rightarrow> string" facts
  | Remind "(event \<times> voter list \<times> facts) list"
  | Confirm event voter facts
  | Announce event "voter list" "(int \<times> int \<times> string) list" facts facts
  | Work int provider_answer
  | Sweep

fun notify_step :: "notify_settings \<Rightarrow> int \<times> notify_request \<Rightarrow> notify_db \<Rightarrow> notify_db" where
  "notify_step S (now, Post m) db = snd (notify S now m db)"
| "notify_step S (now, Post_user u t ctx ev key) db = notify_user S now u t ctx ev key db"
| "notify_step S (now, Ask_approvers tn ev org q mail ctx) db = notify_approvers S now tn ev org q mail ctx db"
| "notify_step S (now, Opened ev vs minute ctx) db = snd (notify_voting_opened S now ev vs minute ctx db)"
| "notify_step S (now, Remind es) db = snd (send_voting_reminders S now es db)"
| "notify_step S (now, Confirm ev v ctx) db = snd (send_vote_confirmation S now ev v ctx db)"
| "notify_step S (now, Announce ev vs users ctx link) db = snd (notify_results_published S now ev vs users ctx link db)"
| "notify_step S (now, Work i answer) db = work S now i answer db"
| "notify_step S (now, Sweep) db = retry_failed now db"

definition notify_run :: "notify_settings \<Rightarrow> (int \<times> notify_request) list \<Rightarrow> notify_db \<Rightarrow> notify_db" where
  "notify_run S rs db = fold (notify_step S) rs db"

lemma notify_run_simps [simp]: "notify_run S [] db = db" "notify_run S (q # rs) db = notify_run S rs (notify_step S q db)"
  by (simp_all add: notify_run_def)

section \<open>Invariant\<close>

definition finished :: "notification \<Rightarrow> bool" where
  "finished n \<longleftrightarrow> no_channel n \<noteq> In_app \<and> no_status n \<in> {SENT, SKIPPED}"

definition went_out :: "notification \<Rightarrow> bool" where
  "went_out n \<longleftrightarrow> no_channel n \<noteq> In_app \<and> no_status n = SENT"

definition outbox_ok :: "notify_db \<Rightarrow> bool" where
  "outbox_ok db \<longleftrightarrow> distinct (map no_id (nd_rows db)) \<and> (\<forall>n\<in>set (nd_rows db). no_id n < nd_next db)
     \<and> (\<forall>n\<in>set (nd_rows db). \<forall>n'\<in>set (nd_rows db). no_dedupe n \<noteq> None \<and> no_dedupe n = no_dedupe n' \<longrightarrow> no_id n = no_id n')
     \<and> distinct (map fst (nd_outbox db))
     \<and> (\<forall>i\<in>fst ` set (nd_outbox db). i < nd_next db)
     \<and> (\<forall>n\<in>set (nd_rows db). finished n \<longrightarrow> no_context n = None)
     \<and> (\<forall>n\<in>set (nd_rows db). no_channel n = In_app \<longrightarrow> no_status n = SENT)
     \<and> (\<forall>n\<in>set (nd_rows db). no_id n \<in> fst ` set (nd_outbox db) \<longleftrightarrow> went_out n)"

definition billed :: "int \<Rightarrow> metric \<Rightarrow> billing_db \<Rightarrow> int" where
  "billed org mt bl = sum_list (map ur_quantity (filter (\<lambda>u. ur_org u = org \<and> ur_metric u = mt) (bl_usage bl)))"

definition counts :: "int \<Rightarrow> metric \<Rightarrow> notification \<Rightarrow> int" where
  "counts org mt n = (if went_out n \<and> no_org n = Some org \<and> metered n = Some mt then 1 else 0)"

definition sent_count :: "int \<Rightarrow> metric \<Rightarrow> notify_db \<Rightarrow> int" where
  "sent_count org mt db = sum_list (map (counts org mt) (nd_rows db))"

definition fair :: "notify_db \<Rightarrow> notify_db \<Rightarrow> bool" where
  "fair db db' \<longleftrightarrow> outbox_ok db' \<and>
     (\<forall>org mt. billed org mt (nd_billing db') - billed org mt (nd_billing db) = sent_count org mt db' - sent_count org mt db)"

lemma fair_refl: "outbox_ok db \<Longrightarrow> fair db db"
  by (simp add: fair_def)

lemma fair_trans:
  assumes "fair db db1" and "fair db1 db2" shows "fair db db2"
proof -
  have "billed org mt (nd_billing db2) - billed org mt (nd_billing db) = sent_count org mt db2 - sent_count org mt db" for org mt
  proof -
    have "billed org mt (nd_billing db1) - billed org mt (nd_billing db) = sent_count org mt db1 - sent_count org mt db"
      "billed org mt (nd_billing db2) - billed org mt (nd_billing db1) = sent_count org mt db2 - sent_count org mt db1"
      using assms by (simp_all add: fair_def)
    then show ?thesis by linarith
  qed
  with assms(2) show ?thesis by (simp add: fair_def)
qed

lemma fair_ok: "fair db db' \<Longrightarrow> outbox_ok db'"
  by (simp add: fair_def)

lemma fair_queue [simp]: "fair db (db'\<lparr>nd_queue := q\<rparr>) = fair db db'" "fair db (db'\<lparr>nd_reminded := r\<rparr>) = fair db db'"
  by (simp_all add: fair_def outbox_ok_def sent_count_def)

section \<open>Callers\<close>

lemma outbox_okD:
  assumes "outbox_ok db"
  shows "distinct (map no_id (nd_rows db))" "n \<in> set (nd_rows db) \<Longrightarrow> no_id n < nd_next db"
    "n \<in> set (nd_rows db) \<Longrightarrow> n' \<in> set (nd_rows db) \<Longrightarrow> no_dedupe n \<noteq> None \<Longrightarrow> no_dedupe n = no_dedupe n' \<Longrightarrow> no_id n = no_id n'"
    "distinct (map fst (nd_outbox db))" "i \<in> fst ` set (nd_outbox db) \<Longrightarrow> i < nd_next db"
    "n \<in> set (nd_rows db) \<Longrightarrow> finished n \<Longrightarrow> no_context n = None"
    "n \<in> set (nd_rows db) \<Longrightarrow> no_channel n = In_app \<Longrightarrow> no_status n = SENT"
    "n \<in> set (nd_rows db) \<Longrightarrow> no_id n \<in> fst ` set (nd_outbox db) \<longleftrightarrow> went_out n"
  using assms unfolding outbox_ok_def by blast+

lemma outbox_okI:
  assumes "nd_rows db = rows" "nd_outbox db = out" "nd_next db = k"
    and "distinct (map no_id rows)" "\<And>n. n \<in> set rows \<Longrightarrow> no_id n < k"
    "\<And>n n'. n \<in> set rows \<Longrightarrow> n' \<in> set rows \<Longrightarrow> no_dedupe n \<noteq> None \<Longrightarrow> no_dedupe n = no_dedupe n' \<Longrightarrow> no_id n = no_id n'"
    "distinct (map fst out)" "\<And>i. i \<in> fst ` set out \<Longrightarrow> i < k"
    "\<And>n. n \<in> set rows \<Longrightarrow> finished n \<Longrightarrow> no_context n = None"
    "\<And>n. n \<in> set rows \<Longrightarrow> no_channel n = In_app \<Longrightarrow> no_status n = SENT"
    "\<And>n. n \<in> set rows \<Longrightarrow> no_id n \<in> fst ` set out \<longleftrightarrow> went_out n"
  shows "outbox_ok db"
  unfolding outbox_ok_def assms(1-3) using assms(4-) by blast

lemma new_row_fair:
  assumes ok: "outbox_ok db" and i: "no_id n = nd_next db" and quiet: "\<not> went_out n" "\<not> finished n" "no_channel n = In_app \<longrightarrow> no_status n = SENT"
    and key: "no_dedupe n \<noteq> None \<Longrightarrow> \<forall>x\<in>set (nd_rows db). no_dedupe x \<noteq> no_dedupe n"
  shows "fair db (db\<lparr>nd_rows := nd_rows db @ [n], nd_next := nd_next db + 1\<rparr>)"
proof -
  note old = outbox_okD [OF ok]
  have "nd_next db \<notin> no_id ` set (nd_rows db)" using old(2) by (metis image_iff less_irrefl)
  then have 1: "distinct (map no_id (nd_rows db @ [n]))" using old(1) by (simp add: i)
  have 2: "no_id x < nd_next db + 1" if "x \<in> set (nd_rows db @ [n])" for x using that old(2) [of x] i by auto
  have 3: "no_id x = no_id y"
    if x: "x \<in> set (nd_rows db @ [n])" and y: "y \<in> set (nd_rows db @ [n])" and xy: "no_dedupe x \<noteq> None" "no_dedupe x = no_dedupe y" for x y
  proof (cases "x = n \<or> y = n")
    case True
    then have "x = n \<and> y = n" using x y xy key by auto
    then show ?thesis by simp
  next
    case False
    then show ?thesis using x y old(3) [OF _ _ xy] by simp
  qed
  have 4: "i < nd_next db + 1" if "i \<in> fst ` set (nd_outbox db)" for i using old(5) [OF that] by simp
  have 5: "no_context x = None" if "x \<in> set (nd_rows db @ [n])" "finished x" for x using that quiet(2) old(6) by auto
  have 6: "no_status x = SENT" if "x \<in> set (nd_rows db @ [n])" "no_channel x = In_app" for x using that quiet(3) old(7) by auto
  have 7: "no_id x \<in> fst ` set (nd_outbox db) \<longleftrightarrow> went_out x" if "x \<in> set (nd_rows db @ [n])" for x
  proof (cases "x = n")
    case True
    have "nd_next db \<notin> fst ` set (nd_outbox db)" using old(5) by blast
    then show ?thesis using True i quiet(1) by simp
  next
    case False
    then show ?thesis using that old(8) by simp
  qed
  have "outbox_ok (db\<lparr>nd_rows := nd_rows db @ [n], nd_next := nd_next db + 1\<rparr>)"
    by (rule outbox_okI [OF _ _ _ 1 2 3 old(4) 4 5 6 7]) simp_all
  then show ?thesis using quiet by (simp add: fair_def sent_count_def counts_def)
qed

lemma notify_fair:
  assumes ok: "outbox_ok db" shows "fair db (snd (notify S now m db))"
  unfolding notify_def Let_def
  by (auto simp: fair_refl ok went_out_def finished_def intro!: new_row_fair [OF ok])

lemma notify_user_fair:
  assumes ok: "outbox_ok db" shows "fair db (notify_user S now u t ctx ev key db)"
proof -
  have "fair db (snd (notify S now m db))" "fair db (snd (notify S now m' (snd (notify S now m db))))" for m m'
    using notify_fair [OF ok] notify_fair [OF fair_ok [OF notify_fair [OF ok]]] fair_trans by blast+
  then show ?thesis by (simp add: notify_user_def Let_def)
qed

lemma fold_fair:
  assumes "outbox_ok (f a)" and "\<And>x a. outbox_ok (f a) \<Longrightarrow> fair (f a) (f (g x a))"
  shows "fair (f a) (f (fold g xs a))"
  using assms(1)
proof (induction xs arbitrary: a)
  case (Cons x xs)
  from assms(2) [OF Cons.prems, of x] Cons.IH [of "g x a"] show ?case by (auto dest: fair_ok intro: fair_trans)
qed (simp add: fair_refl)

lemma notify_voter_fair: "outbox_ok (snd acc) \<Longrightarrow> fair (snd acc) (snd (notify_voter S now ev t ctx pre v acc))"
  using notify_fair by (auto simp: notify_voter_def case_prod_unfold fair_refl split: option.split)

lemma notify_voters_fair: "outbox_ok db \<Longrightarrow> fair db (snd (notify_voters S now ev t ctx pre vs db))"
  unfolding notify_voters_def using fold_fair [of snd "(0, db)"] notify_voter_fair by fastforce

lemma opened_fair: "outbox_ok db \<Longrightarrow> fair db (snd (notify_voting_opened S now ev vs minute ctx db))"
  by (simp add: notify_voting_opened_def fair_refl notify_voters_fair)

lemma reminders_fair:
  assumes "outbox_ok db" shows "fair db (snd (send_voting_reminders S now es db))"
  unfolding send_voting_reminders_def
  by (rule fold_fair [of snd "(0, db)", simplified]) (use assms in \<open>auto simp: Let_def case_prod_unfold notify_voters_fair\<close>)

lemma confirm_fair: "outbox_ok db \<Longrightarrow> fair db (snd (send_vote_confirmation S now ev v ctx db))"
  using notify_fair by (auto simp: send_vote_confirmation_def case_prod_unfold fair_refl split: option.split)

lemma announce_voter_fair: "outbox_ok (snd acc) \<Longrightarrow> fair (snd acc) (snd (announce_voter S now ev ctx v acc))"
  using notify_fair by (auto simp: announce_voter_def case_prod_unfold fair_refl split: option.split list.split)

lemma announce_candidate_fair: "outbox_ok db \<Longrightarrow> fair db (announce_candidate S now ev link c db)"
  by (simp add: announce_candidate_def notify_user_fair)

lemma announce_fair:
  assumes ok: "outbox_ok db" shows "fair db (snd (notify_results_published S now ev vs users ctx link db))"
proof -
  define acc where "acc = (if is_institutional ev then fold (announce_voter S now ev ctx) vs (0, db) else (0, db))"
  have "fair (snd (0 :: nat, db)) (snd (fold (announce_voter S now ev ctx) vs (0, db)))"
    by (rule fold_fair) (simp_all add: ok announce_voter_fair)
  then have first: "fair db (snd acc)" by (simp add: acc_def fair_refl ok)
  have "fair (snd acc) (fold (announce_candidate S now ev link) users (snd acc))"
    using fair_ok [OF first] by (rule fold_fair [of "\<lambda>d. d", simplified]) (rule announce_candidate_fair)
  with first show ?thesis unfolding notify_results_published_def acc_def [symmetric] Let_def snd_conv by (rule fair_trans)
qed

lemma approvers_fair: "outbox_ok db \<Longrightarrow> fair db (notify_approvers S now tn ev org q mail ctx db)"
  unfolding notify_approvers_def by (rule fold_fair [of "\<lambda>d. d", simplified]) (simp_all add: notify_user_fair)

section \<open>Workers\<close>

lemma billed_usage: "billed org mt (record_usage now (Some o') m 1 bl) = billed org mt bl + (if o' = org \<and> m = mt then 1 else 0)"
  by (simp add: billed_def record_usage_def)

text \<open>A row that was not sent yet, after one attempt.\<close>

lemma attempt_fair:
  assumes ok: "outbox_ok db" and row: "note_row i db = Some n" and waits: "no_status n \<in> {QUEUED, FAILED}"
    and n1: "n1 = delivered now result n"
    and rows: "nd_rows db' = update_where (\<lambda>x. no_id x = i) (\<lambda>_. n1) (nd_rows db)" "nd_next db' = nd_next db"
    and out: "nd_outbox db' = nd_outbox db @ (if fst result = SENT then [(i, no_channel n, no_recipient n)] else [])"
    and bill: "\<And>org mt. billed org mt (nd_billing db') = billed org mt (nd_billing db) + counts org mt n1"
    and inside: "no_channel n \<noteq> In_app"
  shows "fair db db'"
proof -
  have n: "n \<in> set (nd_rows db)" "no_id n = i" using first_where_Some [OF row [unfolded note_row_def]] by simp_all
  have same: "no_id n1 = i" "no_dedupe n1 = no_dedupe n" "no_channel n1 = no_channel n" "no_status n1 = fst result" "no_org n1 = no_org n"
    by (simp_all add: n1 delivered_def Let_def n(2) split: prod.split)
  have wiped: "finished n1 \<Longrightarrow> no_context n1 = None"
    by (auto simp: n1 delivered_def Let_def finished_def split: prod.splits if_splits)
  have only: "x = n" if "x \<in> set (nd_rows db)" "no_id x = i" for x
    using ok n that by (auto simp: outbox_ok_def distinct_map inj_on_def)
  have mem: "x \<in> set (nd_rows db') \<longleftrightarrow> x = n1 \<or> x \<in> set (nd_rows db) \<and> no_id x \<noteq> i" for x
    using n by (auto simp: rows in_update_where)
  have unsent: "i \<notin> fst ` set (nd_outbox db)" using ok n waits by (auto simp: outbox_ok_def went_out_def)
  have "map no_id (nd_rows db') = map no_id (nd_rows db)" unfolding rows by (rule map_update_where) (simp add: same)
  moreover have "\<forall>x\<in>set (nd_rows db'). no_id x < nd_next db'" using ok n by (auto simp: mem rows(2) outbox_ok_def same)
  moreover have "\<forall>x\<in>set (nd_rows db'). \<forall>y\<in>set (nd_rows db'). no_dedupe x \<noteq> None \<and> no_dedupe x = no_dedupe y \<longrightarrow> no_id x = no_id y"
  proof (intro ballI impI)
    fix x y assume xy: "x \<in> set (nd_rows db')" "y \<in> set (nd_rows db')" "no_dedupe x \<noteq> None \<and> no_dedupe x = no_dedupe y"
    have "\<exists>z\<in>set (nd_rows db). no_id z = no_id w \<and> no_dedupe z = no_dedupe w" if "w \<in> set (nd_rows db')" for w
      using that n same by (auto simp: mem)
    then obtain x' y' where "x' \<in> set (nd_rows db)" "no_id x' = no_id x" "no_dedupe x' = no_dedupe x"
      "y' \<in> set (nd_rows db)" "no_id y' = no_id y" "no_dedupe y' = no_dedupe y" using xy(1,2) by meson
    with ok xy(3) show "no_id x = no_id y" unfolding outbox_ok_def by metis
  qed
  moreover have "distinct (map fst (nd_outbox db'))" using ok unsent by (simp add: out outbox_ok_def)
  moreover have "\<forall>j\<in>fst ` set (nd_outbox db'). j < nd_next db'" using ok n by (auto simp: out rows outbox_ok_def)
  moreover have "\<forall>x\<in>set (nd_rows db'). finished x \<longrightarrow> no_context x = None" using ok wiped by (auto simp: mem outbox_ok_def)
  moreover have "\<forall>x\<in>set (nd_rows db'). no_channel x = In_app \<longrightarrow> no_status x = SENT" using ok inside same by (auto simp: mem outbox_ok_def)
  moreover have "\<forall>x\<in>set (nd_rows db'). no_id x \<in> fst ` set (nd_outbox db') \<longleftrightarrow> went_out x"
  proof
    fix x assume x: "x \<in> set (nd_rows db')"
    have outs: "fst ` set (nd_outbox db') = (if fst result = SENT then insert i (fst ` set (nd_outbox db)) else fst ` set (nd_outbox db))"
      by (simp add: out)
    have old: "\<And>y. y \<in> set (nd_rows db) \<Longrightarrow> no_id y \<in> fst ` set (nd_outbox db) \<longleftrightarrow> went_out y" using ok by (simp add: outbox_ok_def)
    show "no_id x \<in> fst ` set (nd_outbox db') \<longleftrightarrow> went_out x"
    proof (cases "x = n1")
      case True
      then show ?thesis using unsent inside by (simp add: outs same went_out_def)
    next
      case False
      then show ?thesis using x old [of x] by (auto simp: mem outs)
    qed
  qed
  ultimately have "outbox_ok db'" using ok by (simp add: outbox_ok_def)
  moreover have "sent_count org mt db' = sent_count org mt db + counts org mt n1" for org mt
  proof -
    have "counts org mt n = 0" using waits by (auto simp: counts_def went_out_def)
    with sum_update_key [where key = no_id and x = n and xs = "nd_rows db" and f = "\<lambda>_. n1" and g = "counts org mt"] ok n
    show ?thesis by (simp add: sent_count_def rows outbox_ok_def)
  qed
  ultimately show ?thesis using bill by (simp add: fair_def)
qed

lemma deliver_fair:
  assumes ok: "outbox_ok db" shows "fair db (snd (deliver S now i answer db))"
proof (cases "note_row i db")
  case (Some n)
  have n: "n \<in> set (nd_rows db)" using first_where_Some [OF Some [unfolded note_row_def]] by simp
  show ?thesis
  proof (cases "no_status n \<in> {QUEUED, FAILED}")
    case True
    with ok n have out: "no_channel n \<noteq> In_app" by (auto simp: outbox_ok_def)
    let ?result = "send_by S (no_channel n) (no_recipient n) answer"
    let ?n1 = "delivered now ?result n"
    let ?db1 = "db\<lparr>nd_rows := update_where (\<lambda>x. no_id x = i) (\<lambda>_. ?n1) (nd_rows db)\<rparr>"
    have st: "no_status ?n1 = fst ?result" "no_channel ?n1 = no_channel n" "no_org ?n1 = no_org n"
      by (simp_all add: delivered_def Let_def split: prod.split)
    have sent: "fair db (?db1\<lparr>nd_outbox := nd_outbox db @ [(i, no_channel n, no_recipient n)],
                                 nd_billing := (case (no_org n, metered n) of
                                     (Some org, Some mt) \<Rightarrow> record_usage now (Some org) mt 1 (nd_billing db)
                                   | _ \<Rightarrow> nd_billing db)\<rparr>)" if "fst ?result = SENT"
      by (rule attempt_fair [OF ok Some True refl _ _ _ _ out])
         (use that st out in \<open>auto simp: counts_def went_out_def billed_usage metered_def split: option.split\<close>)
    have failed: "fair db ?db1" if "fst ?result \<noteq> SENT"
      by (rule attempt_fair [OF ok Some True refl _ _ _ _ out]) (use that st in \<open>auto simp: counts_def went_out_def\<close>)
    show ?thesis
      unfolding deliver_def Some option.case Let_def using True sent failed by (auto simp: fair_refl ok split: option.split)
  qed (simp add: deliver_def Some fair_refl ok)
qed (simp add: deliver_def fair_refl ok)

lemma work_fair: "outbox_ok db \<Longrightarrow> fair db (work S now i answer db)"
  using deliver_fair [of db S now i answer] by (auto simp: work_def split: prod.splits option.splits)

lemma retry_fair: "outbox_ok db \<Longrightarrow> fair db (retry_failed now db)"
  by (simp add: retry_failed_def fair_refl)

lemma notify_step_fair: "outbox_ok db \<Longrightarrow> fair db (notify_step S q db)"
  by (cases "(S, q, db)" rule: notify_step.cases)
     (simp_all add: notify_fair notify_user_fair approvers_fair opened_fair reminders_fair confirm_fair announce_fair work_fair retry_fair)

lemma notify_run_fair: "outbox_ok db \<Longrightarrow> fair db (notify_run S rs db)"
proof (induction rs arbitrary: db)
  case (Cons q rs)
  from fair_trans [OF notify_step_fair [OF Cons.prems] Cons.IH [OF fair_ok [OF notify_step_fair [OF Cons.prems]]]] show ?case
    by simp
qed (simp add: fair_refl)


section \<open>Witness\<close>

definition ex_notify_settings :: notify_settings where
  "ex_notify_settings = \<lparr>ns_platform = [], ns_site = [], ns_sms = False, ns_whatsapp = False, ns_template = (\<lambda>_ _. Some [])\<rparr>"

definition ex_outbox :: notify_db where
  "ex_outbox = \<lparr>nd_rows = [], nd_next = 1, nd_queue = [], nd_outbox = [], nd_reminded = [], nd_billing = ex_billing\<rparr>"

definition ex_message :: message where
  "ex_message = \<lparr>ms_template = ''verification_otp'', ms_channel = By_email, ms_recipient = ''e'', ms_context = [(''code'', ''7'')], ms_event = None,
     ms_org = Some 1, ms_user = None, ms_dedupe = Some ''k'', ms_scheduled = None\<rparr>"

definition ex_outbox_run :: "(int \<times> notify_request) list" where
  "ex_outbox_run = [(1, Post ex_message), (1, Post ex_message), (2, Work 1 (Inr ''m'')), (3, Work 1 (Inr ''m''))]"

lemma ex_outbox_ok: "outbox_ok ex_outbox"
  by (simp add: outbox_ok_def ex_outbox_def)

text \<open>The second post is refused by its key, the first worker sends, the second finds nothing to do.\<close>

lemma ex_posted:
  "\<exists>n. nd_rows (snd (notify ex_notify_settings 1 ex_message ex_outbox)) = [n] \<and> no_id n = 1 \<and> no_status n = QUEUED
     \<and> no_scheduled n = None \<and> no_channel n = By_email \<and> no_recipient n = ''e'' \<and> no_dedupe n = ms_dedupe ex_message"
  "nd_outbox (snd (notify ex_notify_settings 1 ex_message ex_outbox)) = []"
  by (simp_all add: notify_def Let_def ex_outbox_def ex_message_def)

lemma refused_again:
  "nd_rows db = [n] \<Longrightarrow> no_dedupe n = ms_dedupe ex_message \<Longrightarrow> snd (notify ex_notify_settings 1 ex_message db) = db"
  by (simp add: notify_def Let_def ex_message_def)

lemma rendered: "\<exists>r. render ex_notify_settings n = Some r"
  by (simp add: render_def Let_def ex_notify_settings_def)

lemma sent_by_mail: "send_by ex_notify_settings By_email ''e'' (Inr m) = (SENT, m, [])"
  by (simp add: send_by_def Let_def)

lemma ex_delivered:
  assumes "nd_rows db = [n]" "no_id n = 1" "no_status n = QUEUED" "no_scheduled n = None" "no_channel n = By_email" "no_recipient n = ''e''"
    and "nd_outbox db = []"
  shows "\<exists>n'. nd_rows (work ex_notify_settings 2 1 (Inr m) db) = [n'] \<and> no_id n' = 1 \<and> no_status n' = SENT
    \<and> map fst (nd_outbox (work ex_notify_settings 2 1 (Inr m) db)) = [1]"
proof -
  obtain r where "render ex_notify_settings n = Some r" using rendered by blast
  with assms obtain b where "deliver ex_notify_settings 2 1 (Inr m) db
    = (Some (delivered 2 (SENT, m, []) n),
       db\<lparr>nd_rows := [delivered 2 (SENT, m, []) n], nd_outbox := [(1, By_email, ''e'')], nd_billing := b\<rparr>)"
    by (simp add: deliver_def note_row_def Let_def sent_by_mail)
  with assms(2) show ?thesis by (simp add: work_def delivered_def Let_def)
qed

lemma nothing_left: "nd_rows db = [n] \<Longrightarrow> no_id n = 1 \<Longrightarrow> no_status n = SENT \<Longrightarrow> work ex_notify_settings 3 1 a db = db"
  by (simp add: work_def deliver_def note_row_def)

lemma ex_outbox_sent:
  "map fst (nd_outbox (notify_run ex_notify_settings ex_outbox_run ex_outbox)) = [1]
    \<and> map no_id (nd_rows (notify_run ex_notify_settings ex_outbox_run ex_outbox)) = [1]"
proof -
  let ?db = "snd (notify ex_notify_settings 1 ex_message ex_outbox)"
  obtain n where n: "nd_rows ?db = [n]" "no_id n = 1" "no_status n = QUEUED" "no_scheduled n = None" "no_channel n = By_email"
      "no_recipient n = ''e''" "no_dedupe n = ms_dedupe ex_message" using ex_posted(1) by blast
  obtain n' where n': "nd_rows (work ex_notify_settings 2 1 (Inr ''m'') ?db) = [n']" "no_id n' = 1" "no_status n' = SENT"
      "map fst (nd_outbox (work ex_notify_settings 2 1 (Inr ''m'') ?db)) = [1]"
    using ex_delivered [OF n(1-6) ex_posted(2)] by blast
  have "notify_run ex_notify_settings ex_outbox_run ex_outbox = work ex_notify_settings 2 1 (Inr ''m'') ?db"
    by (simp only: ex_outbox_run_def notify_run_simps notify_step.simps refused_again [OF n(1,7)] nothing_left [OF n'(1-3)])
  with n' show ?thesis by simp
qed


end
