(* ===== verification/Spec2Isabelle.thy ===== *)
theory Spec2Isabelle
  imports Plurality_Props Ranked_Props Ballot_Props Eligibility Audit_Props Rbac_Props
    Shamir Merkle Crypto_Props Keys_Props Configuration Lifecycle_Props Casting_Props Campaign_Props Billing_Props Results_Props Publication_Props
    Payments_Props Quote_Props Webhook_Props Approvals_Props
    Sign_In_Props Shop_Props Form_Props Notify_Props
begin

text \<open>
  FlexyVotes is a Django platform for elections of two kinds. An institutional election has a
  roll of voters, secret encrypted ballots and certified results; a paid election sells votes
  through a payment gateway and counts a ledger. Organizations (tenants) own the elections, their
  staff act under roles, everything that happens is written to a hash-chained audit log, and the
  results are published with what is needed to verify them.

  How the code is modelled. Every operation is a function from the tables it reads and writes to
  the changed tables or an error of its component, \<open>error + 'a\<close>; where the code commits something
  before it raises, the result is a pair of an error or value and the tables. A request that raises
  is rolled back. The time is the argument \<open>now\<close> in microseconds. Random values (tokens, codes,
  nonces, row ids), cryptographic primitives, Python's text of a float and the answers of the
  gateway and the identity providers are arguments: of the primitives only the documented laws
  are assumed where a theorem needs them (\<open>signatures_ok\<close>, an authenticated cipher that decrypts what it
  encrypted), and the hash is never assumed injective: theorems about hashes say that a
  difference would be a collision, and exhibit it. The audit entries of an operation are the
  notes of its log, in order. Texts are lists of characters, money is rational, ids are integers.

  The theories, by component.

  \<^item> Prelude, Pyfloat, Contracts: shared lemmas and collections, Python's rounding and floats,
    and the locales that several components interpret: what happens once, a status that moves
    along a graph, a sum over a list.
  \<^item> Json, Json_Read, Base64, Merkle, Shamir, Crypto, Crypto_Props (core/crypto.py, core/fields.py):
    canonical JSON and its reader, whose fuel is the length of the text (lemma \<open>fuel_enough\<close>), envelope
    encryption with its key rotation, sealed ballots, secret sharing over the prime field, the Merkle
    tree with inclusion proofs that are complete, and sound up to collisions.
  \<^item> Audit_Chain, Audit_Props (core/audit.py): hash chains with heads; recording keeps every chain
    verifiable and verified chains with one head agree up to collisions.
  \<^item> Rbac, Rbac_Props (core/rbac.py, core/tenancy.py): roles in scopes, isolation of tenants, the
    list of elections against the single permission check, the last administrator.
  \<^item> Request_Guards (core/ratelimit.py, core/otp.py, core/idempotency.py): guesses of a passcode
    are bounded over any sequence of requests.
  \<^item> Tally, Plurality_Props, Ranked_Props (elections/tally.py): every counting method, with the
    loop of the ranked count by a measure (the candidates still in the running), and what winners,
    shares and weights satisfy.
  \<^item> Election_Model, Eligibility, Ballots, Ballot_Props (voting/models.py, elections/eligibility.py,
    elections/ballot.py): elections, positions, ballot styles, and the validation of a ballot, which accepts
    exactly the complete legal ones.
  \<^item> Election_Db, Keys, Keys_Props, Configuration, Lifecycle, Lifecycle_Props (elections/models.py,
    elections/keys.py, elections/lifecycle.py, elections/integrity.py): the tables of an election, key custody,
    signed configuration snapshots, the state machine and the scheduler.
  \<^item> Casting, Casting_Props, Voters, Voters_Props, Voter_Access, Campaign_Props (elections/casting.py,
    elections/voters.py, elections/voter_auth.py): authorizations and ballots, the roll with its codes,
    sign-in and sessions; one ballot per voter and secrecy over whole campaigns.
  \<^item> Result_Data, Results, Results_Props, Publication_Props (elections/results.py): opening and
    counting, certification by a second person, recounts, publication and its verification bundle.
  \<^item> Billing, Billing_Props (billing/service.py): subscriptions, limits, invoices.
  \<^item> Pay_Model, Fraud, Quotes, Payments, Checkout, Refund_Ops, Refunds, Webhooks, Reconcile,
    Approvals (payments/service.py, payments/models.py, fraud/engine.py, fraud/service.py,
    elections/integrity.py): the money side. Pay_Moves and Control_Moves show each operation to
    be a sequence of elementary moves on payments and ledger (calm, credits, reverses); Pay_Requests
    runs any sequence of requests; Pay_Frame, Payments_Props, Quote_Props, Webhook_Props and
    Approvals_Props hold the properties: credit only on evidence, a ledger that refines a book
    of accounts, statuses along their graph, prices, notifications handled once, two persons.
  \<^item> Accounts, Web_Accounts, Sign_In_Props, Guess_Props (core/auth.py, core/views_account.py, the session
    middleware, the sign-in pages of voting/views.py): the accounts of staff. \<open>serve_web\<close> passes the request
    of one of several browsers through the middleware to its page, \<open>web_run\<close> a sequence of them. Nobody
    is signed in without the factors of the account, a code works once, passwords are guessed slowly.
  \<^item> Forms, Tickets, Ussd, Ticket_Props, Shop_Props (the ticket shop and USSD menus of voting/views.py): a
    \<open>shop\<close> is the ticket types and purchases of one election with its ledger. \<open>shop_run\<close> interleaves buyers
    on the web and on the telephone with the gateway, the organizers and the door: stock is never oversold,
    free votes are paid tickets, and the telephone buys nothing before a confirmation.
  \<^item> Election_Forms, Form_Props (the organizers' forms of voting/views.py): a \<open>forms_db\<close> is an election with
    its fee, the units of its organization and the nominee codes of the platform. \<open>form_run\<close> is any sequence
    of posted forms; \<open>election_ok\<close> is the type of the elections they produce.
  \<^item> Notifications, Notify_Props (notifications/ and the messages of elections/tasks.py): the outbox, its
    workers and sweeps. \<open>notify_run\<close> interleaves callers and workers; a message goes out once, and is billed once.
  \<^item> Row_Sums: sums over the rows of a table, for the ticket shop and the outbox.

  Composition. Campaign_Props runs roll, sign-in, casting and lifecycle requests in any order over one
  database; Publication_Props follows a result from the count through certification and publication to
  the verified bundle; Pay_Requests interleaves checkout, gateway, analysts, refunds, approvals,
  reconciliation and expiry.

  Bounds and fuel. Only the JSON reader uses fuel; all other loops are structural or end by a measure.
  Integers are unbounded, as in Python; the widths of database columns (an \<open>IntegrityError\<close> or \<open>DataError\<close> at
  write) are not modelled except for the unique constraints the code relies on.

  Not modelled: HTML pages and templates, the merchandise store; the REST layer, which calls the operations modelled
  here; migrations, settings and the administration site; network clients (gateway, directory, identity
  provider, mail and text messages), whose answers are arguments; captcha, file storage, metrics and
  logs; caches, except the counters of the rate limits; the layout of exports; and parallel requests:
  operations are atomic, as the row locks and transactions of the code make them.
\<close>

end
